(* ===== verification/Usersim_Prelude.thy ===== *)
theory Usersim_Prelude
  imports Main "HOL-Library.Word"
begin

text \<open>
  Shared vocabulary of the development: machine types, C++ exceptions as values, NTSTATUS codes,
  and the generic lemmas on lists and maps that the component theories use.

  All components are modelled in the debug build of the library (\<^verbatim>\<open>NDEBUG\<close> undefined): a failing
  \<^verbatim>\<open>CXPLAT_DEBUG_ASSERT\<close>, \<^verbatim>\<open>CXPLAT_RUNTIME_ASSERT\<close> or \<^verbatim>\<open>assert\<close> aborts the operation, which is the
  value \<open>Inl Assert_Failed\<close>; a \<^verbatim>\<open>KeBugCheck*\<close> throws a \<^verbatim>\<open>std::exception\<close>, which is
  \<open>Inl (Bug_Check c)\<close>; a \<^verbatim>\<open>throw std::runtime_error(m)\<close> is \<open>Inl (Runtime_Error m)\<close>; an access
  outside a vector or array and a shift beyond the width, undefined behaviour in C++, are \<open>Inl Out_Of_Bounds\<close>; the exception of an \<^verbatim>\<open>ExRaise*\<close>
  routine, whose message is the status, is \<open>Inl (Raised status)\<close>.
\<close>

section \<open>Machine types\<close>

type_synonym u8 = "8 word"
type_synonym u16 = "16 word"
type_synonym u32 = "32 word"
type_synonym u64 = "64 word"

text \<open>An address; \<open>0\<close> is \<^verbatim>\<open>nullptr\<close>.\<close>
type_synonym ptr = "64 word"

abbreviation nullptr :: ptr where "nullptr \<equiv> 0"

type_synonym ntstatus = "32 word"

section \<open>Exceptions and results\<close>

datatype exn =
    Bug_Check u32
  | Runtime_Error string
  | Assert_Failed
  | Out_Of_Bounds
  | Raised u32

type_synonym 'a result = "exn + 'a"

definition assert_that :: "bool \<Rightarrow> 'a result \<Rightarrow> 'a result" where
  "assert_that b k = (if b then k else Inl Assert_Failed)"

lemma assert_that_simps [simp]:
  "assert_that True k = k"
  "assert_that False k = Inl Assert_Failed"
  by (simp_all add: assert_that_def)

lemma assert_that_Inr [simp]: "assert_that b k = Inr x \<longleftrightarrow> b \<and> k = Inr x"
  by (simp add: assert_that_def)

section \<open>NTSTATUS values\<close>

text \<open>
  \<^verbatim>\<open>NT_SUCCESS(status)\<close> of \<^verbatim>\<open>src/framework.h\<close>: the signed 32-bit value is not negative. The codes
  below are the \<^verbatim>\<open>#define\<close>s of \<^verbatim>\<open>src/kernel_um.h\<close> and the values of the Windows SDK headers
  it includes.
\<close>

definition NT_SUCCESS :: "ntstatus \<Rightarrow> bool" where
  "NT_SUCCESS status \<longleftrightarrow> 0 \<le> sint status"

abbreviation STATUS_SUCCESS :: ntstatus where "STATUS_SUCCESS \<equiv> 0"
abbreviation STATUS_TIMEOUT :: ntstatus where "STATUS_TIMEOUT \<equiv> 0x00000102"
abbreviation STATUS_PENDING :: ntstatus where "STATUS_PENDING \<equiv> 0x00000103"
abbreviation STATUS_OBJECT_NAME_EXISTS :: ntstatus where "STATUS_OBJECT_NAME_EXISTS \<equiv> 0x40000000"
abbreviation STATUS_BUFFER_OVERFLOW :: ntstatus where "STATUS_BUFFER_OVERFLOW \<equiv> 0x80000005"
abbreviation STATUS_UNSUCCESSFUL :: ntstatus where "STATUS_UNSUCCESSFUL \<equiv> 0xC0000001"
abbreviation STATUS_NOT_IMPLEMENTED :: ntstatus where "STATUS_NOT_IMPLEMENTED \<equiv> 0xC0000002"
abbreviation STATUS_ACCESS_VIOLATION :: ntstatus where "STATUS_ACCESS_VIOLATION \<equiv> 0xC0000005"
abbreviation STATUS_DATATYPE_MISALIGNMENT :: ntstatus where "STATUS_DATATYPE_MISALIGNMENT \<equiv> 0x80000002"
abbreviation STATUS_INVALID_HANDLE :: ntstatus where "STATUS_INVALID_HANDLE \<equiv> 0xC0000008"
abbreviation STATUS_INVALID_PARAMETER :: ntstatus where "STATUS_INVALID_PARAMETER \<equiv> 0xC000000D"
abbreviation STATUS_NO_SUCH_FILE :: ntstatus where "STATUS_NO_SUCH_FILE \<equiv> 0xC000000F"
abbreviation STATUS_INVALID_DEVICE_REQUEST :: ntstatus where
  "STATUS_INVALID_DEVICE_REQUEST \<equiv> 0xC0000010"
abbreviation STATUS_NO_MEMORY :: ntstatus where "STATUS_NO_MEMORY \<equiv> 0xC0000017"
abbreviation STATUS_ACCESS_DENIED :: ntstatus where "STATUS_ACCESS_DENIED \<equiv> 0xC0000022"
abbreviation STATUS_BUFFER_TOO_SMALL :: ntstatus where "STATUS_BUFFER_TOO_SMALL \<equiv> 0xC0000023"
abbreviation STATUS_OBJECT_PATH_NOT_FOUND :: ntstatus where
  "STATUS_OBJECT_PATH_NOT_FOUND \<equiv> 0xC000003A"
abbreviation STATUS_NONE_MAPPED :: ntstatus where "STATUS_NONE_MAPPED \<equiv> 0xC0000073"
abbreviation STATUS_INVALID_IMAGE_FORMAT :: ntstatus where
  "STATUS_INVALID_IMAGE_FORMAT \<equiv> 0xC000007B"
abbreviation STATUS_INTEGER_OVERFLOW :: ntstatus where "STATUS_INTEGER_OVERFLOW \<equiv> 0xC0000095"
abbreviation STATUS_INSUFFICIENT_RESOURCES :: ntstatus where
  "STATUS_INSUFFICIENT_RESOURCES \<equiv> 0xC000009A"
abbreviation STATUS_NOT_SUPPORTED :: ntstatus where "STATUS_NOT_SUPPORTED \<equiv> 0xC00000BB"
abbreviation STATUS_TOO_MANY_COMMANDS :: ntstatus where "STATUS_TOO_MANY_COMMANDS \<equiv> 0xC00000C1"
abbreviation STATUS_CANCELLED :: ntstatus where "STATUS_CANCELLED \<equiv> 0xC0000120"
abbreviation STATUS_DRIVER_INTERNAL_ERROR :: ntstatus where
  "STATUS_DRIVER_INTERNAL_ERROR \<equiv> 0xC0000183"
abbreviation STATUS_TOO_MANY_NODES :: ntstatus where "STATUS_TOO_MANY_NODES \<equiv> 0xC000020E"
abbreviation STATUS_NOT_FOUND :: ntstatus where "STATUS_NOT_FOUND \<equiv> 0xC0000225"
abbreviation STATUS_OBJECTID_EXISTS :: ntstatus where "STATUS_OBJECTID_EXISTS \<equiv> 0xC000022B"
abbreviation STATUS_RESOURCE_NOT_OWNED :: ntstatus where "STATUS_RESOURCE_NOT_OWNED \<equiv> 0xC0000264"
abbreviation STATUS_DRIVER_UNABLE_TO_LOAD :: ntstatus where
  "STATUS_DRIVER_UNABLE_TO_LOAD \<equiv> 0xC000026C"
abbreviation STATUS_NO_MORE_MATCHES :: ntstatus where "STATUS_NO_MORE_MATCHES \<equiv> 0xC0000273"
abbreviation STATUS_VERIFIER_STOP :: ntstatus where "STATUS_VERIFIER_STOP \<equiv> 0xC0000421"
abbreviation STATUS_ALREADY_INITIALIZED :: ntstatus where
  "STATUS_ALREADY_INITIALIZED \<equiv> 0xC0000510"
abbreviation STATUS_ALREADY_REGISTERED :: ntstatus where "STATUS_ALREADY_REGISTERED \<equiv> 0xC0000718"
abbreviation STATUS_CONTENT_BLOCKED :: ntstatus where "STATUS_CONTENT_BLOCKED \<equiv> 0xC0000804"
abbreviation RPC_NT_CALL_FAILED :: ntstatus where "RPC_NT_CALL_FAILED \<equiv> 0xC002001B"
abbreviation STATUS_GENERIC_COMMAND_FAILED :: ntstatus where
  "STATUS_GENERIC_COMMAND_FAILED \<equiv> 0xC0150026"

lemma NT_SUCCESS_codes [simp]:
  "NT_SUCCESS STATUS_SUCCESS" "NT_SUCCESS STATUS_PENDING" "NT_SUCCESS STATUS_TIMEOUT"
  "\<not> NT_SUCCESS STATUS_NO_MEMORY" "\<not> NT_SUCCESS STATUS_INVALID_PARAMETER"
  "\<not> NT_SUCCESS STATUS_UNSUCCESSFUL" "\<not> NT_SUCCESS STATUS_INSUFFICIENT_RESOURCES"
  "\<not> NT_SUCCESS STATUS_NOT_FOUND" "\<not> NT_SUCCESS STATUS_DRIVER_INTERNAL_ERROR"
  by (simp_all add: NT_SUCCESS_def)

section \<open>Numbers in text\<close>

text \<open>The digits of a number, as \<^verbatim>\<open>printf\<close> and the stream operators of the C++ library write them.\<close>

definition digit_char :: "nat \<Rightarrow> char" where
  "digit_char d = (char_of (if d < 10 then 48 + d else 87 + d) :: char)"

function num_str :: "nat \<Rightarrow> nat \<Rightarrow> string" where
  "num_str b n = (if n < b \<or> b < 2 then [digit_char n] else num_str b (n div b) @ [digit_char (n mod b)])"
  by pat_completeness auto
termination by (relation "measure snd") auto

declare num_str.simps [simp del]

section \<open>Generic lemmas\<close>

lemma unat_ucast_32_64: "unat (ucast (x :: u32) :: u64) = unat x"
proof -
  have "unat x < 2 ^ 32" using unsigned_less [of x] by simp
  then show ?thesis by (simp add: unsigned_ucast_eq take_bit_nat_eq_self)
qed

lemma card_dom_upd_fresh:
  "finite (dom m) \<Longrightarrow> m k = None \<Longrightarrow> card (dom (m(k \<mapsto> v))) = Suc (card (dom m))"
  by (simp add: domIff)

lemma card_Collect_insert:
  assumes "finite {x. P x}" and "\<not> P a"
  shows "card {x. x = a \<or> P x} = Suc (card {x. P x})"
proof -
  have "{x. x = a \<or> P x} = insert a {x. P x}" by auto
  with assms show ?thesis by simp
qed

lemma card_Collect_remove:
  assumes "finite {x. P x}" and "P a"
  shows "card {x. x \<noteq> a \<and> P x} = card {x. P x} - 1"
proof -
  have "{x. x \<noteq> a \<and> P x} = {x. P x} - {a}" by auto
  with assms show ?thesis by simp
qed

end
