(* ===== verification/List_Entry.thy ===== *)
theory List_Entry
  imports Usersim_Prelude
begin

text \<open>
  The intrusive doubly linked circular lists of \<^verbatim>\<open>src/framework.h\<close> (\<^verbatim>\<open>usersim_list_*\<close>, used by the DPC
  queues) and of \<^verbatim>\<open>src/kernel_um.h\<close> (the \<^verbatim>\<open>LIST_ENTRY\<close> routines offered to drivers), over an explicit
  store of \<^verbatim>\<open>Flink\<close> and \<^verbatim>\<open>Blink\<close> fields. Every assignment of the source is one update of the store,
  in the source's order, so that aliasing between the head, the entry and its neighbours is modelled.
  The predicate \<open>dll h l xs\<close> says that the head \<open>l\<close> links exactly the entries \<open>xs\<close>, and every
  routine is shown to compute the corresponding operation on the list \<open>xs\<close>.
\<close>

section \<open>The store of list entries\<close>

record links =
  Flink :: "ptr \<Rightarrow> ptr"
  Blink :: "ptr \<Rightarrow> ptr"

definition set_Flink :: "ptr \<Rightarrow> ptr \<Rightarrow> links \<Rightarrow> links" where
  "set_Flink p q h = h\<lparr>Flink := (Flink h)(p := q)\<rparr>"

definition set_Blink :: "ptr \<Rightarrow> ptr \<Rightarrow> links \<Rightarrow> links" where
  "set_Blink p q h = h\<lparr>Blink := (Blink h)(p := q)\<rparr>"

lemma links_upd_simps [simp]:
  "Flink (set_Flink p q h) = (Flink h)(p := q)" "Blink (set_Flink p q h) = Blink h"
  "Blink (set_Blink p q h) = (Blink h)(p := q)" "Flink (set_Blink p q h) = Flink h"
  by (simp_all add: set_Flink_def set_Blink_def)

section \<open>Routines of framework.h\<close>

definition usersim_list_initialize :: "ptr \<Rightarrow> links \<Rightarrow> links" where
  "usersim_list_initialize list_head h = set_Flink list_head list_head (set_Blink list_head list_head h)"

definition usersim_list_is_empty :: "ptr \<Rightarrow> links \<Rightarrow> bool" where
  "usersim_list_is_empty list_head h \<longleftrightarrow> Flink h list_head = list_head"

definition usersim_list_insert_tail :: "ptr \<Rightarrow> ptr \<Rightarrow> links \<Rightarrow> links result" where
  "usersim_list_insert_tail list_head entry h =
     (let previous_entry = Blink h list_head;
          h1 = set_Flink entry list_head h;
          h2 = set_Blink entry previous_entry h1;
          h3 = set_Flink previous_entry entry h2;
          h4 = set_Blink list_head entry h3
      in assert_that (Flink h4 (Blink h4 list_head) = list_head)
          (assert_that (Blink h4 (Flink h4 list_head) = list_head) (Inr h4)))"

definition usersim_list_remove_entry :: "ptr \<Rightarrow> links \<Rightarrow> bool \<times> links" where
  "usersim_list_remove_entry entry h =
     (let next_entry = Flink h entry;
          previous_entry = Blink h entry;
          h1 = set_Flink previous_entry next_entry h;
          h2 = set_Blink next_entry previous_entry h1;
          h3 = set_Flink entry entry (set_Blink entry entry h2)
      in (previous_entry = next_entry, h3))"

definition usersim_list_remove_head_entry :: "ptr \<Rightarrow> links \<Rightarrow> ptr \<times> links" where
  "usersim_list_remove_head_entry list_head h =
     (if Flink h list_head = list_head then (list_head, h)
      else let removed = Flink h list_head;
               h1 = set_Flink list_head (Flink h removed) h;
               h2 = set_Blink (Flink h1 removed) list_head h1
           in (removed, h2))"

definition usersim_list_append_tail_list :: "ptr \<Rightarrow> ptr \<Rightarrow> links \<Rightarrow> links" where
  "usersim_list_append_tail_list list_head list_to_append h =
     (let list_end = Blink h list_head;
          h1 = set_Flink (Blink h list_head) list_to_append h;
          h2 = set_Blink list_head (Blink h1 list_to_append) h1;
          h3 = set_Flink (Blink h2 list_to_append) list_head h2
      in set_Blink list_to_append list_end h3)"

section \<open>Routines of kernel\_um.h\<close>

text \<open>
  \<^verbatim>\<open>FatalListEntryError\<close> (\<^verbatim>\<open>src/kernel_um.cpp\<close>) evaluates \<^verbatim>\<open>CXPLAT_DEBUG_ASSERT\<close> on a string literal.
  A literal is a non-null pointer, so the asserted condition is true and the call returns.
\<close>

definition FatalListEntryError :: "ptr \<Rightarrow> ptr \<Rightarrow> ptr \<Rightarrow> links \<Rightarrow> links result" where
  "FatalListEntryError p1 p2 p3 h = assert_that True (Inr h)"

definition IsListEmpty :: "ptr \<Rightarrow> links \<Rightarrow> bool" where
  "IsListEmpty list_head h \<longleftrightarrow> Flink h list_head = list_head"

definition InitializeListHead :: "ptr \<Rightarrow> links \<Rightarrow> links" where
  "InitializeListHead list_head h = set_Flink list_head list_head (set_Blink list_head list_head h)"

definition InsertTailList :: "ptr \<Rightarrow> ptr \<Rightarrow> links \<Rightarrow> links result" where
  "InsertTailList list_head entry h =
     (let PrevEntry = Blink h list_head
      in case (if Flink h PrevEntry \<noteq> list_head
               then FatalListEntryError PrevEntry list_head (Flink h PrevEntry) h else Inr h) of
           Inl e \<Rightarrow> Inl e
         | Inr h0 \<Rightarrow>
             (let h1 = set_Flink entry list_head h0;
                  h2 = set_Blink entry PrevEntry h1;
                  h3 = set_Flink PrevEntry entry h2
              in Inr (set_Blink list_head entry h3)))"

definition InsertHeadList :: "ptr \<Rightarrow> ptr \<Rightarrow> links \<Rightarrow> links result" where
  "InsertHeadList list_head entry h =
     (let NextEntry = Flink h list_head
      in case (if Blink h NextEntry \<noteq> list_head
               then FatalListEntryError NextEntry list_head (Blink h NextEntry) h else Inr h) of
           Inl e \<Rightarrow> Inl e
         | Inr h0 \<Rightarrow>
             (let h1 = set_Flink entry NextEntry h0;
                  h2 = set_Blink entry list_head h1;
                  h3 = set_Blink NextEntry entry h2
              in Inr (set_Flink list_head entry h3)))"

definition RemoveEntryList :: "ptr \<Rightarrow> links \<Rightarrow> (bool \<times> links) result" where
  "RemoveEntryList entry h =
     (let NextEntry = Flink h entry;
          PrevEntry = Blink h entry
      in case (if Blink h NextEntry \<noteq> entry \<or> Flink h PrevEntry \<noteq> entry
               then FatalListEntryError PrevEntry entry NextEntry h else Inr h) of
           Inl e \<Rightarrow> Inl e
         | Inr h0 \<Rightarrow>
             (let h1 = set_Flink PrevEntry NextEntry h0;
                  h2 = set_Blink NextEntry PrevEntry h1
              in Inr (PrevEntry = NextEntry, h2)))"

definition RemoveHeadList :: "ptr \<Rightarrow> links \<Rightarrow> (ptr \<times> links) result" where
  "RemoveHeadList list_head h =
     (let entry = Flink h list_head;
          NextEntry = Flink h entry
      in case (if Blink h entry \<noteq> list_head \<or> Blink h NextEntry \<noteq> entry
               then FatalListEntryError list_head entry NextEntry h else Inr h) of
           Inl e \<Rightarrow> Inl e
         | Inr h0 \<Rightarrow>
             (let h1 = set_Flink list_head NextEntry h0;
                  h2 = set_Blink NextEntry list_head h1
              in Inr (entry, h2)))"

definition AppendTailList :: "ptr \<Rightarrow> ptr \<Rightarrow> links \<Rightarrow> links" where
  "AppendTailList list_head list_to_append h =
     (let list_end = Blink h list_head;
          h1 = set_Flink (Blink h list_head) list_to_append h;
          h2 = set_Blink list_head (Blink h1 list_to_append) h1;
          h3 = set_Flink (Blink h2 list_to_append) list_head h2
      in set_Blink list_to_append list_end h3)"

section \<open>Segments and circular lists\<close>

text \<open>\<open>seg h p xs q\<close>: following \<^verbatim>\<open>Flink\<close> from \<open>p\<close> visits \<open>xs\<close> and then \<open>q\<close>, and \<^verbatim>\<open>Blink\<close> goes back.\<close>

fun seg :: "links \<Rightarrow> ptr \<Rightarrow> ptr list \<Rightarrow> ptr \<Rightarrow> bool" where
  "seg h p [] q \<longleftrightarrow> Flink h p = q \<and> Blink h q = p"
| "seg h p (x # xs) q \<longleftrightarrow> Flink h p = x \<and> Blink h x = p \<and> seg h x xs q"

definition dll :: "links \<Rightarrow> ptr \<Rightarrow> ptr list \<Rightarrow> bool" where
  "dll h l xs \<longleftrightarrow> distinct (l # xs) \<and> seg h l xs l"

lemma seg_append [simp]: "seg h p (xs @ y # ys) q \<longleftrightarrow> seg h p xs y \<and> seg h y ys q"
  by (induction xs arbitrary: p) auto

lemma seg_Flink: "seg h p xs q \<Longrightarrow> Flink h p = (case xs of [] \<Rightarrow> q | x # _ \<Rightarrow> x)"
  by (cases xs) auto

lemma seg_Blink: "seg h p xs q \<Longrightarrow> Blink h q = (if xs = [] then p else last xs)"
  by (induction xs arbitrary: p) auto

text \<open>A segment only depends on \<^verbatim>\<open>Flink\<close> of its sources and \<^verbatim>\<open>Blink\<close> of its targets.\<close>

lemma seg_cong:
  assumes "seg h p xs q"
    and "\<And>a. a \<in> set (p # xs) \<Longrightarrow> Flink h' a = Flink h a"
    and "\<And>a. a \<in> set (xs @ [q]) \<Longrightarrow> Blink h' a = Blink h a"
  shows "seg h' p xs q"
  using assms by (induction xs arbitrary: p) auto

lemma dll_cong:
  assumes "dll h l xs" and "\<And>a. a \<in> set (l # xs) \<Longrightarrow> Flink h' a = Flink h a \<and> Blink h' a = Blink h a"
  shows "dll h' l xs"
  using assms seg_cong [of h l xs l h'] by (auto simp: dll_def)

lemma dll_distinct: "dll h l xs \<Longrightarrow> distinct xs \<and> l \<notin> set xs"
  by (simp add: dll_def)

lemma dll_Flink: "dll h l xs \<Longrightarrow> Flink h l = (case xs of [] \<Rightarrow> l | x # _ \<Rightarrow> x)"
  by (auto simp: dll_def dest: seg_Flink)

lemma dll_Blink: "dll h l xs \<Longrightarrow> Blink h l = (if xs = [] then l else last xs)"
  by (auto simp: dll_def dest: seg_Blink)

text \<open>The abstraction is functional: a store links at most one list from a head.\<close>

lemma seg_unique:
  "seg h p xs q \<Longrightarrow> seg h p ys q \<Longrightarrow> q \<notin> set xs \<Longrightarrow> q \<notin> set ys \<Longrightarrow> xs = ys"
proof (induction xs arbitrary: p ys)
  case Nil
  then show ?case by (cases ys) auto
next
  case (Cons x xs)
  then show ?case by (cases ys) auto
qed

lemma dll_unique: "dll h l xs \<Longrightarrow> dll h l ys \<Longrightarrow> xs = ys"
  by (auto simp: dll_def intro: seg_unique)


section \<open>Each routine computes a list operation\<close>

text \<open>\<open>same_off h h' S\<close>: the stores agree outside the entries \<open>S\<close>.\<close>

definition same_off :: "links \<Rightarrow> links \<Rightarrow> ptr set \<Rightarrow> bool" where
  "same_off h h' S \<longleftrightarrow> (\<forall>a. a \<notin> S \<longrightarrow> Flink h' a = Flink h a \<and> Blink h' a = Blink h a)"

lemma dll_same_off:
  "dll h l xs \<Longrightarrow> same_off h h' S \<Longrightarrow> set (l # xs) \<inter> S = {} \<Longrightarrow> dll h' l xs"
  by (erule dll_cong) (fastforce simp: same_off_def disjoint_iff)

lemma initialize_dll:
  "dll (usersim_list_initialize l h) l []" "same_off h (usersim_list_initialize l h) {l}"
  by (auto simp: usersim_list_initialize_def dll_def same_off_def)

lemma is_empty_dll: "dll h l xs \<Longrightarrow> usersim_list_is_empty l h \<longleftrightarrow> xs = []"
  by (auto simp: usersim_list_is_empty_def dll_Flink dll_distinct split: list.splits dest: dll_distinct)

lemma insert_tail_dll:
  assumes "dll h l xs" and "e \<notin> set (l # xs)"
  shows "\<exists>h'. usersim_list_insert_tail l e h = Inr h' \<and> dll h' l (xs @ [e]) \<and>
              same_off h h' (set (e # l # xs))"
proof (cases xs rule: rev_cases)
  case Nil
  with assms show ?thesis
    by (auto simp: usersim_list_insert_tail_def dll_def Let_def same_off_def)
next
  case (snoc ys y)
  let ?h' = "set_Blink l e (set_Flink y e (set_Blink e y (set_Flink e l h)))"
  have B: "Blink h l = y" using assms(1) snoc by (simp add: dll_Blink)
  have ys: "seg h l ys y" and d: "distinct (l # ys @ [y, e])"
    using assms snoc by (auto simp: dll_def)
  have "seg ?h' l ys y"
    by (rule seg_cong [OF ys]) (use d in auto)
  then have D: "dll ?h' l (xs @ [e])" using d snoc by (auto simp: dll_def)
  then have "Blink ?h' (Flink ?h' l) = l"
    by (cases "xs @ [e]") (auto simp: dll_def)
  moreover have "Flink ?h' (Blink ?h' l) = l" using d by auto
  ultimately have "usersim_list_insert_tail l e h = Inr ?h'"
    by (simp only: usersim_list_insert_tail_def B Let_def assert_that_simps refl)
  moreover have "same_off h ?h' (set (e # l # xs))" using snoc by (auto simp: same_off_def)
  ultimately show ?thesis using D by blast
qed

lemma unlink_dll:
  assumes "dll h l (xs @ e # ys)"
  defines "p \<equiv> Blink h e" and "n \<equiv> Flink h e"
  defines "h' \<equiv> set_Blink n p (set_Flink p n h)"
  shows "dll h' l (xs @ ys)" "p = n \<longleftrightarrow> xs @ ys = []" "same_off h h' (set (l # xs @ ys))"
    "p \<noteq> e" "n \<noteq> e"
proof -
  have sx: "seg h l xs e" and sy: "seg h e ys l" and d: "distinct (l # xs @ e # ys)"
    using assms(1) by (auto simp: dll_def)
  have p: "p = (if xs = [] then l else last xs)" using seg_Blink [OF sx] by (simp add: p_def)
  have n: "n = (case ys of [] \<Rightarrow> l | y # _ \<Rightarrow> y)" using seg_Flink [OF sy] by (simp add: n_def)
  have pin: "p \<in> set (l # xs)" using p by (cases xs) auto
  have nin: "n \<in> set (l # ys)" using n by (cases ys) auto
  show "p \<noteq> e" "n \<noteq> e" using pin nin d by auto
  show eq: "p = n \<longleftrightarrow> xs @ ys = []"
    using p n d by (cases xs rule: rev_cases; cases ys) auto
  show "same_off h h' (set (l # xs @ ys))" using pin nin by (auto simp: same_off_def h'_def)
  have left: "xs = xs' @ [p] \<Longrightarrow> seg h' l xs' p" for xs'
    by (rule seg_cong [of h]) (use sx d nin in \<open>auto simp: h'_def\<close>)
  have right: "ys = n # ys' \<Longrightarrow> seg h' n ys' l" for ys'
    by (rule seg_cong [of h]) (use sy d pin in \<open>auto simp: h'_def\<close>)
  have link: "Flink h' p = n" "Blink h' n = p" by (simp_all add: h'_def)
  have "seg h' l (xs @ ys) l"
  proof (cases xs rule: rev_cases)
    case Nil
    then show ?thesis using p n link right by (cases ys) auto
  next
    case (snoc xs' a)
    then have l: "seg h' l xs' p" "a = p" using p left by auto
    show ?thesis
    proof (cases ys)
      case Nil
      then show ?thesis using l n link snoc by auto
    next
      case (Cons y ys')
      then have "y = n" "seg h' n ys' l" using n right by auto
      then show ?thesis using l link snoc Cons by simp
    qed
  qed
  then show "dll h' l (xs @ ys)" using d by (auto simp: dll_def)
qed

lemma remove_entry_dll:
  assumes "dll h l (xs @ e # ys)"
  shows "\<exists>h'. usersim_list_remove_entry e h = (xs @ ys = [], h') \<and> dll h' l (xs @ ys) \<and>
              dll h' e [] \<and> same_off h h' (set (e # l # xs @ ys))"
proof -
  let ?p = "Blink h e" and ?n = "Flink h e"
  let ?h2 = "set_Blink ?n ?p (set_Flink ?p ?n h)"
  let ?h3 = "set_Flink e e (set_Blink e e ?h2)"
  note U = unlink_dll [OF assms]
  have d: "e \<notin> set (l # xs @ ys)" using assms by (auto simp: dll_def)
  have "same_off ?h2 ?h3 {e}" by (simp add: same_off_def)
  then have "dll ?h3 l (xs @ ys)" using U(1) d by (auto intro: dll_same_off)
  moreover have "usersim_list_remove_entry e h = (xs @ ys = [], ?h3)"
    using U(2) by (simp add: usersim_list_remove_entry_def Let_def)
  moreover have "dll ?h3 e []" by (simp add: dll_def)
  moreover have "same_off h ?h3 (set (e # l # xs @ ys))"
    using U(3) by (auto simp: same_off_def)
  ultimately show ?thesis by blast
qed

lemma remove_head_entry_Nil: "dll h l [] \<Longrightarrow> usersim_list_remove_head_entry l h = (l, h)"
  by (simp add: usersim_list_remove_head_entry_def dll_def)

lemma remove_head_entry_Cons:
  assumes "dll h l (x # xs)"
  shows "\<exists>h'. usersim_list_remove_head_entry l h = (x, h') \<and> dll h' l xs \<and>
              same_off h h' (set (l # xs))"
proof -
  have B: "Blink h x = l" "Flink h l = x" "x \<noteq> l" using assms by (auto simp: dll_def)
  have "usersim_list_remove_head_entry l h =
      (x, set_Blink (Flink h x) l (set_Flink l (Flink h x) h))"
    using B by (simp add: usersim_list_remove_head_entry_def Let_def)
  with unlink_dll [of h l "[]" x xs] assms B show ?thesis by simp
qed

text \<open>
  \<^verbatim>\<open>usersim_list_append_tail_list\<close>: \<open>y # ys\<close> is a ring of entries without a head
  (\<^verbatim>\<open>list_to_append\<close> points at its first entry).
\<close>

lemma append_tail_list_dll:
  assumes "dll h l xs" and "dll h y ys" and "set (l # xs) \<inter> set (y # ys) = {}"
  shows "dll (usersim_list_append_tail_list l y h) l (xs @ y # ys)"
proof -
  let ?e = "Blink h l" and ?t = "Blink h y"
  let ?h' = "usersim_list_append_tail_list l y h"
  have d: "distinct (l # xs)" "distinct (y # ys)" "seg h l xs l" "seg h y ys y"
    using assms by (auto simp: dll_def)
  have e: "?e = (if xs = [] then l else last xs)" using assms(1) by (rule dll_Blink)
  have t: "?t = (if ys = [] then y else last ys)" using assms(2) by (rule dll_Blink)
  have ein: "?e \<in> set (l # xs)" and tin: "?t \<in> set (y # ys)" using e t by auto
  have h': "?h' = set_Blink y ?e (set_Flink ?t l (set_Blink l ?t (set_Flink ?e y h)))"
    using assms(3) by (auto simp: usersim_list_append_tail_list_def Let_def)
  have ne: "?e \<noteq> ?t" "y \<noteq> l" using ein tin assms(3) by auto
  have A: "seg ?h' l xs y"
  proof (cases xs rule: rev_cases)
    case Nil
    then show ?thesis using e ne by (simp add: h')
  next
    case (snoc xs' a)
    then have a: "a = ?e" using e by simp
    have "seg ?h' l xs' a"
      by (rule seg_cong [of h]) (use d snoc a assms(3) tin in \<open>auto simp: h'\<close>)
    then show ?thesis using snoc a ne by (simp add: h')
  qed
  have B: "seg ?h' y ys l"
  proof (cases ys rule: rev_cases)
    case Nil
    then show ?thesis using t ne by (simp add: h')
  next
    case (snoc ys' b)
    then have b: "b = ?t" using t by simp
    have "seg ?h' y ys' b"
      by (rule seg_cong [of h]) (use d snoc b assms(3) ein in \<open>auto simp: h'\<close>)
    then show ?thesis using snoc b ne by (simp add: h')
  qed
  show ?thesis using A B d assms(3) by (auto simp: dll_def)
qed


section \<open>The driver-facing routines of kernel\_um.h\<close>

lemma InsertTailList_dll:
  assumes "dll h l xs" and "e \<notin> set (l # xs)"
  shows "\<exists>h'. InsertTailList l e h = Inr h' \<and> dll h' l (xs @ [e])"
proof -
  obtain h' where "usersim_list_insert_tail l e h = Inr h'" "dll h' l (xs @ [e])"
    using insert_tail_dll [OF assms] by blast
  moreover from this(1) have "InsertTailList l e h = Inr h'"
    by (auto simp: usersim_list_insert_tail_def InsertTailList_def FatalListEntryError_def
        Let_def split: if_splits sum.splits)
  ultimately show ?thesis by blast
qed

lemma InsertHeadList_dll:
  assumes "dll h l xs" and "e \<notin> set (l # xs)"
  shows "\<exists>h'. InsertHeadList l e h = Inr h' \<and> dll h' l (e # xs)"
proof (cases xs)
  case Nil
  with assms show ?thesis
    by (auto simp: InsertHeadList_def FatalListEntryError_def dll_def Let_def)
next
  case (Cons x ys)
  let ?h' = "set_Flink l e (set_Blink x e (set_Blink e l (set_Flink e x h)))"
  have s: "Flink h l = x" "Blink h x = l" "seg h x ys l" and d: "distinct (l # e # x # ys)"
    using assms Cons by (auto simp: dll_def)
  have "seg ?h' x ys l" by (rule seg_cong [OF s(3)]) (use d in auto)
  then have "dll ?h' l (e # xs)" using d Cons by (auto simp: dll_def)
  moreover have "InsertHeadList l e h = Inr ?h'"
    using s by (simp add: InsertHeadList_def Let_def)
  ultimately show ?thesis by blast
qed

lemma RemoveEntryList_dll:
  assumes "dll h l (xs @ e # ys)"
  shows "\<exists>h'. RemoveEntryList e h = Inr (xs @ ys = [], h') \<and> dll h' l (xs @ ys)"
proof -
  have "RemoveEntryList e h =
      Inr (Blink h e = Flink h e, set_Blink (Flink h e) (Blink h e) (set_Flink (Blink h e) (Flink h e) h))"
    by (auto simp: RemoveEntryList_def FatalListEntryError_def Let_def)
  with unlink_dll(1,2) [OF assms] show ?thesis by simp
qed

lemma RemoveHeadList_dll:
  assumes "dll h l (x # xs)"
  shows "\<exists>h'. RemoveHeadList l h = Inr (x, h') \<and> dll h' l xs"
proof -
  have B: "Blink h x = l" "Flink h l = x" using assms by (auto simp: dll_def)
  then have "RemoveHeadList l h =
      Inr (x, set_Blink (Flink h x) l (set_Flink l (Flink h x) h))"
    by (auto simp: RemoveHeadList_def FatalListEntryError_def Let_def)
  with unlink_dll(1) [of h l "[]" x xs] assms B show ?thesis by simp
qed

section \<open>The queue interface of an intrusive list\<close>

text \<open>
  What a client of either family of routines may rely on. \<open>lq h l xs\<close> relates a store and a head
  to the queued entries. \<^verbatim>\<open>insert_all\<close> and \<open>drain\<close> are the two client loops of the code base: a
  producer that appends entries, a consumer that removes heads until the list is empty.
\<close>

fun insert_all :: "(ptr \<Rightarrow> ptr \<Rightarrow> 'h \<Rightarrow> 'h result) \<Rightarrow> ptr \<Rightarrow> ptr list \<Rightarrow> 'h \<Rightarrow> 'h result" where
  "insert_all ins l [] h = Inr h"
| "insert_all ins l (e # es) h =
     (case ins l e h of Inl x \<Rightarrow> Inl x | Inr h' \<Rightarrow> insert_all ins l es h')"

fun drain :: "(ptr \<Rightarrow> 'h \<Rightarrow> bool) \<Rightarrow> (ptr \<Rightarrow> 'h \<Rightarrow> (ptr \<times> 'h) result) \<Rightarrow> nat \<Rightarrow> ptr \<Rightarrow> 'h
    \<Rightarrow> (ptr list \<times> 'h) option" where
  "drain emp rem 0 l h = (if emp l h then Some ([], h) else None)"
| "drain emp rem (Suc fuel) l h =
     (if emp l h then Some ([], h)
      else case rem l h of
             Inl x \<Rightarrow> None
           | Inr (e, h') \<Rightarrow> map_option (\<lambda>(es, h''). (e # es, h'')) (drain emp rem fuel l h'))"

locale intrusive_queue =
  fixes ini :: "ptr \<Rightarrow> 'h \<Rightarrow> 'h"
    and emp :: "ptr \<Rightarrow> 'h \<Rightarrow> bool"
    and ins :: "ptr \<Rightarrow> ptr \<Rightarrow> 'h \<Rightarrow> 'h result"
    and rem :: "ptr \<Rightarrow> 'h \<Rightarrow> (ptr \<times> 'h) result"
    and lq :: "'h \<Rightarrow> ptr \<Rightarrow> ptr list \<Rightarrow> bool"
  assumes lq_ini: "lq (ini l h) l []"
    and lq_emp: "lq h l xs \<Longrightarrow> emp l h \<longleftrightarrow> xs = []"
    and lq_ins: "lq h l xs \<Longrightarrow> e \<notin> set (l # xs) \<Longrightarrow>
                 \<exists>h'. ins l e h = Inr h' \<and> lq h' l (xs @ [e])"
    and lq_rem: "lq h l (x # xs) \<Longrightarrow> \<exists>h'. rem l h = Inr (x, h') \<and> lq h' l xs"
begin

lemma insert_all_lq:
  "lq h l xs \<Longrightarrow> distinct (l # xs @ es) \<Longrightarrow>
   \<exists>h'. insert_all ins l es h = Inr h' \<and> lq h' l (xs @ es)"
proof (induction es arbitrary: h xs)
  case Nil
  then show ?case by simp
next
  case (Cons e es)
  then obtain h' where h': "ins l e h = Inr h'" "lq h' l (xs @ [e])"
    using lq_ins [of h l xs e] by auto
  with Cons.IH [of h' "xs @ [e]"] Cons.prems(2) show ?case by auto
qed

lemma drain_lq:
  "lq h l xs \<Longrightarrow> length xs \<le> fuel \<Longrightarrow>
   \<exists>h'. drain emp rem fuel l h = Some (xs, h') \<and> lq h' l []"
proof (induction fuel arbitrary: h xs)
  case 0
  then show ?case by (simp add: lq_emp)
next
  case (Suc fuel)
  show ?case
  proof (cases xs)
    case Nil
    with Suc.prems show ?thesis by (simp add: lq_emp)
  next
    case (Cons x ys)
    with Suc.prems obtain h' where "rem l h = Inr (x, h')" "lq h' l ys"
      using lq_rem by blast
    with Suc Cons show ?thesis by (fastforce simp: lq_emp)
  qed
qed

lemma fifo:
  assumes "distinct (l # es)"
  shows "\<exists>h1 h2. insert_all ins l es (ini l h) = Inr h1 \<and>
                 drain emp rem (length es) l h1 = Some (es, h2) \<and> emp l h2"
proof -
  obtain h1 where "insert_all ins l es (ini l h) = Inr h1" "lq h1 l es"
    using insert_all_lq [OF lq_ini, of l es] assms by auto
  with drain_lq [of h1 l es "length es"] show ?thesis by (auto simp: lq_emp)
qed

end

interpretation framework_list: intrusive_queue
  usersim_list_initialize usersim_list_is_empty usersim_list_insert_tail
  "\<lambda>l h. Inr (usersim_list_remove_head_entry l h)" dll
proof unfold_locales
  show "dll (usersim_list_initialize l h) l []" for l h by (rule initialize_dll)
  show "dll h l xs \<Longrightarrow> usersim_list_is_empty l h \<longleftrightarrow> xs = []" for h l xs by (rule is_empty_dll)
  show "dll h l xs \<Longrightarrow> e \<notin> set (l # xs) \<Longrightarrow>
      \<exists>h'. usersim_list_insert_tail l e h = Inr h' \<and> dll h' l (xs @ [e])" for h l xs e
    using insert_tail_dll by blast
  show "dll h l (x # xs) \<Longrightarrow>
      \<exists>h'. Inr (usersim_list_remove_head_entry l h) = (Inr (x, h') :: (ptr \<times> links) result) \<and> dll h' l xs" for h l x xs
    using remove_head_entry_Cons by fastforce
qed

interpretation kernel_list: intrusive_queue
  InitializeListHead IsListEmpty InsertTailList RemoveHeadList dll
proof unfold_locales
  show "dll (InitializeListHead l h) l []" for l h
    by (simp add: InitializeListHead_def dll_def)
  show "dll h l xs \<Longrightarrow> IsListEmpty l h \<longleftrightarrow> xs = []" for h l xs
    using is_empty_dll by (simp add: IsListEmpty_def usersim_list_is_empty_def)
  show "dll h l xs \<Longrightarrow> e \<notin> set (l # xs) \<Longrightarrow>
      \<exists>h'. InsertTailList l e h = Inr h' \<and> dll h' l (xs @ [e])" for h l xs e
    by (rule InsertTailList_dll)
  show "dll h l (x # xs) \<Longrightarrow> \<exists>h'. RemoveHeadList l h = Inr (x, h') \<and> dll h' l xs" for h l x xs
    by (rule RemoveHeadList_dll)
qed

section \<open>Properties\<close>

definition zero_links :: links where
  "zero_links = \<lparr>Flink = \<lambda>_. 0, Blink = \<lambda>_. 0\<rparr>"

text \<open>
  C31: the lists of \<^verbatim>\<open>framework.h\<close> are queues: entries appended with \<^verbatim>\<open>usersim_list_insert_tail\<close> to an
  initialized list pass its assertions, and \<^verbatim>\<open>usersim_list_remove_head_entry\<close> returns them in the same
  order until \<^verbatim>\<open>usersim_list_is_empty\<close> holds.
\<close>
theorem usersim_list_fifo:
  assumes "distinct (l # es)"
  shows "\<exists>h1 h2. insert_all usersim_list_insert_tail l es (usersim_list_initialize l h) = Inr h1 \<and>
           drain usersim_list_is_empty (\<lambda>l h. Inr (usersim_list_remove_head_entry l h)) (length es) l h1 =
             Some (es, h2) \<and>
           usersim_list_is_empty l h2"
  by (rule framework_list.fifo [OF assms])

theorem usersim_list_fifo_witness:
  "\<exists>h1 h2. insert_all usersim_list_insert_tail 16 [32, 64] (usersim_list_initialize 16 zero_links) = Inr h1 \<and>
     drain usersim_list_is_empty (\<lambda>l h. Inr (usersim_list_remove_head_entry l h)) (length [32, 64 :: ptr]) 16 h1 =
       Some ([32, 64], h2)"
  using usersim_list_fifo [of 16 "[32, 64]" zero_links] by (simp del: insert_all.simps drain.simps) blast

text \<open>
  C9: the \<^verbatim>\<open>LIST_ENTRY\<close> routines that \<^verbatim>\<open>kernel_um.h\<close> gives to drivers compute the expected operations
  on a well-formed list: \<^verbatim>\<open>InsertTailList\<close> appends, \<^verbatim>\<open>InsertHeadList\<close> prepends, \<^verbatim>\<open>RemoveEntryList\<close>
  deletes the entry wherever it is and tells whether the list became empty, \<^verbatim>\<open>RemoveHeadList\<close> removes
  the first entry, and \<^verbatim>\<open>AppendTailList\<close> splices a headless ring behind the last entry.
\<close>
theorem kernel_list_refines:
  assumes "dll h l (xs @ e # ys)" and "x \<notin> set (l # xs @ e # ys)"
    and "dll h r rs" "set (r # rs) \<inter> set (l # xs @ e # ys) = {}"
  shows "(\<exists>h1. InsertTailList l x h = Inr h1 \<and> dll h1 l (xs @ e # ys @ [x])) \<and>
         (\<exists>h1. InsertHeadList l x h = Inr h1 \<and> dll h1 l (x # xs @ e # ys)) \<and>
         (\<exists>h1. RemoveEntryList e h = Inr (xs @ ys = [], h1) \<and> dll h1 l (xs @ ys)) \<and>
         (\<exists>h1. RemoveHeadList l h = Inr (hd (xs @ [e]), h1) \<and> dll h1 l (tl (xs @ e # ys))) \<and>
         dll (AppendTailList l r h) l (xs @ e # ys @ r # rs)"
proof (intro conjI)
  show "\<exists>h1. InsertTailList l x h = Inr h1 \<and> dll h1 l (xs @ e # ys @ [x])"
    using InsertTailList_dll [OF assms(1,2)] by simp
  show "\<exists>h1. InsertHeadList l x h = Inr h1 \<and> dll h1 l (x # xs @ e # ys)"
    using InsertHeadList_dll [OF assms(1,2)] by simp
  show "\<exists>h1. RemoveEntryList e h = Inr (xs @ ys = [], h1) \<and> dll h1 l (xs @ ys)"
    by (rule RemoveEntryList_dll [OF assms(1)])
  show "\<exists>h1. RemoveHeadList l h = Inr (hd (xs @ [e]), h1) \<and> dll h1 l (tl (xs @ e # ys))"
    using RemoveHeadList_dll [of h l] assms(1) by (cases xs) auto
  show "dll (AppendTailList l r h) l (xs @ e # ys @ r # rs)"
    using append_tail_list_dll [OF assms(1,3)] assms(4)
    by (auto simp: AppendTailList_def usersim_list_append_tail_list_def)
qed

theorem kernel_list_refines_witness:
  "\<exists>h. dll h 16 [32, 64] \<and> (\<exists>h1. RemoveEntryList 64 h = Inr (False, h1) \<and> dll h1 16 [32])"
proof -
  obtain h0 where h0: "InsertTailList 16 32 (InitializeListHead 16 (InitializeListHead 48 zero_links)) = Inr h0"
    "dll h0 16 [32]"
    using InsertTailList_dll [of _ 16 "[]" 32] kernel_list.lq_ini [of 16] by fastforce
  obtain h where h: "dll h 16 [32, 64]" using InsertTailList_dll [OF h0(2), of 64] by auto
  let ?h = "InitializeListHead 48 h"
  have k: "dll ?h 16 ([32] @ 64 # [])"
    using h by (auto simp: InitializeListHead_def dll_def)
  from kernel_list_refines [OF k _ kernel_list.lq_ini [of 48 h], of 128]
  have "\<exists>h1. RemoveEntryList 64 ?h = Inr (False, h1) \<and> dll h1 16 [32]" by simp
  with k show ?thesis by auto
qed

text \<open>
  none of the \<^verbatim>\<open>LIST_ENTRY\<close> routines reports a corrupted list: the check that calls
  \<^verbatim>\<open>FatalListEntryError\<close> has no effect, so every routine returns normally on any store, including
  one where the neighbours of the removed entry do not point back at it.
\<close>
theorem kernel_list_corruption_undetected:
  "\<exists>h1 h2 r3 r4. InsertTailList l e h = Inr h1 \<and> InsertHeadList l e h = Inr h2 \<and>
     RemoveEntryList e h = Inr r3 \<and> RemoveHeadList l h = Inr r4"
  by (simp add: InsertTailList_def InsertHeadList_def RemoveEntryList_def RemoveHeadList_def
      FatalListEntryError_def Let_def)

end
