(* ===== verification/Dpc_Queue.thy ===== *)
theory Dpc_Queue
  imports List_Entry
begin

text \<open>
  The emulated DPC queues of \<^verbatim>\<open>src/ke.cpp\<close> (region \<^verbatim>\<open>dpcs\<close>): one worker thread and one intrusive list
  per CPU. The state holds the store of list entries, the \<^verbatim>\<open>KDPC\<close> structures by address (the
  \<^verbatim>\<open>entry\<close> field is the first member, so a \<^verbatim>\<open>KDPC*\<close> and the address of its \<^verbatim>\<open>entry\<close> are the same
  pointer, as the \<^verbatim>\<open>reinterpret_cast\<close> in the worker assumes) and the vector of
  \<^verbatim>\<open>_usersim_emulated_dpc\<close> objects. Each definition is one critical section of the queue's mutex.
\<close>

section \<open>State\<close>

record kdpc =
  dpc_context :: ptr
  cpu_id :: u32
  parameter_1 :: ptr
  parameter_2 :: ptr
  work_item_routine :: ptr

record emulated_dpc =
  head :: ptr
  flush_entry :: ptr
  terminate :: bool

record dpc_state =
  entries :: links
  kdpcs :: "ptr \<Rightarrow> kdpc"
  emulated_dpcs :: "emulated_dpc list"

datatype dpc_event = Ran ptr ptr ptr ptr ptr | Flushed | Exited | Waits

section \<open>Operations\<close>

definition KeInitializeDpc :: "ptr \<Rightarrow> ptr \<Rightarrow> ptr \<Rightarrow> dpc_state \<Rightarrow> dpc_state" where
  "KeInitializeDpc dpc deferred_routine deferred_context s =
     s\<lparr>entries := usersim_list_initialize dpc (entries s),
       kdpcs := (kdpcs s)(dpc := (kdpcs s dpc)\<lparr>cpu_id := 0, work_item_routine := deferred_routine,
                                              dpc_context := deferred_context\<rparr>)\<rparr>"

text \<open>\<^verbatim>\<open>number\<close> is a \<^verbatim>\<open>CCHAR\<close>: the conversion to \<^verbatim>\<open>uint32_t\<close> sign-extends it.\<close>

definition KeSetTargetProcessorDpc :: "ptr \<Rightarrow> u8 \<Rightarrow> dpc_state \<Rightarrow> dpc_state" where
  "KeSetTargetProcessorDpc dpc number s =
     s\<lparr>kdpcs := (kdpcs s)(dpc := (kdpcs s dpc)\<lparr>cpu_id := scast number\<rparr>)\<rparr>"

text \<open>\<^verbatim>\<open>_usersim_emulated_dpcs[work_item->cpu_id]\<close> is outside the vector when \<^verbatim>\<open>cpu_id\<close> is too large.\<close>

definition dpc_queue :: "ptr \<Rightarrow> dpc_state \<Rightarrow> emulated_dpc result" where
  "dpc_queue work_item s =
     (let i = unat (cpu_id (kdpcs s work_item))
      in if i < length (emulated_dpcs s) then Inr (emulated_dpcs s ! i) else Inl Out_Of_Bounds)"

definition dpc_insert :: "ptr \<Rightarrow> ptr \<Rightarrow> ptr \<Rightarrow> dpc_state \<Rightarrow> (bool \<times> dpc_state) result" where
  "dpc_insert work_item p1 p2 s =
     (case dpc_queue work_item s of
        Inl e \<Rightarrow> Inl e
      | Inr q \<Rightarrow>
          if \<not> usersim_list_is_empty work_item (entries s) then Inr (False, s)
          else let s1 = s\<lparr>kdpcs := (kdpcs s)(work_item :=
                            (kdpcs s work_item)\<lparr>parameter_1 := p1, parameter_2 := p2\<rparr>)\<rparr>
               in case usersim_list_insert_tail (head q) work_item (entries s1) of
                    Inl e \<Rightarrow> Inl e
                  | Inr h \<Rightarrow> Inr (True, s1\<lparr>entries := h\<rparr>))"

definition dpc_remove :: "ptr \<Rightarrow> dpc_state \<Rightarrow> (bool \<times> dpc_state) result" where
  "dpc_remove work_item s =
     (case dpc_queue work_item s of
        Inl e \<Rightarrow> Inl e
      | Inr q \<Rightarrow>
          if usersim_list_is_empty work_item (entries s) then Inr (False, s)
          else Inr (True, s\<lparr>entries := snd (usersim_list_remove_entry work_item (entries s))\<rparr>))"

definition KeInsertQueueDpc :: "ptr \<Rightarrow> ptr \<Rightarrow> ptr \<Rightarrow> dpc_state \<Rightarrow> (bool \<times> dpc_state) result" where
  "KeInsertQueueDpc dpc system_argument1 system_argument2 s =
     dpc_insert dpc system_argument1 system_argument2 s"

definition KeRemoveQueueDpc :: "ptr \<Rightarrow> dpc_state \<Rightarrow> (bool \<times> dpc_state) result" where
  "KeRemoveQueueDpc dpc s = dpc_remove dpc s"

text \<open>
  \<^verbatim>\<open>flush_queue\<close> up to its wait: the marker is initialized and appended. The wait ends in a state
  where \<open>flush_queue_done\<close> holds.
\<close>

definition flush_queue_begin :: "emulated_dpc \<Rightarrow> dpc_state \<Rightarrow> dpc_state result" where
  "flush_queue_begin q s =
     (case usersim_list_insert_tail (head q) (flush_entry q)
             (usersim_list_initialize (flush_entry q) (entries s)) of
        Inl e \<Rightarrow> Inl e
      | Inr h \<Rightarrow> Inr (s\<lparr>entries := h\<rparr>))"

definition flush_queue_done :: "emulated_dpc \<Rightarrow> dpc_state \<Rightarrow> bool" where
  "flush_queue_done q s \<longleftrightarrow> terminate q \<or> usersim_list_is_empty (flush_entry q) (entries s)"

text \<open>
  One iteration of the worker's \<^verbatim>\<open>for (;;)\<close> loop. \<open>Ran d r c a b\<close> is the call
  \<^verbatim>\<open>work_item_routine(work_item, context, parameter_1, parameter_2)\<close> made after the mutex is released,
  with the arguments that were snapshotted under it; \<open>Waits\<close> is the condition variable wait.
\<close>

definition dpc_thread_step :: "emulated_dpc \<Rightarrow> dpc_state \<Rightarrow> dpc_event \<times> dpc_state" where
  "dpc_thread_step q s =
     (if terminate q then (Exited, s)
      else if \<not> usersim_list_is_empty (head q) (entries s) then
        let (entry, h) = usersim_list_remove_head_entry (head q) (entries s)
        in if entry = flush_entry q
           then (Flushed, s\<lparr>entries := usersim_list_initialize (flush_entry q) h\<rparr>)
           else let d = kdpcs s entry
                in (Ran entry (work_item_routine d) (dpc_context d) (parameter_1 d) (parameter_2 d),
                    s\<lparr>entries := usersim_list_initialize entry h\<rparr>)
      else (Waits, s))"

text \<open>The worker run for \<open>n\<close> iterations, and until the flush marker has been processed.\<close>

fun dpc_thread_run :: "nat \<Rightarrow> emulated_dpc \<Rightarrow> dpc_state \<Rightarrow> dpc_event list \<times> dpc_state" where
  "dpc_thread_run 0 q s = ([], s)"
| "dpc_thread_run (Suc n) q s =
     (let (e, s1) = dpc_thread_step q s; (es, s2) = dpc_thread_run n q s1 in (e # es, s2))"

fun flush_wait :: "nat \<Rightarrow> emulated_dpc \<Rightarrow> dpc_state \<Rightarrow> (dpc_event list \<times> dpc_state) option" where
  "flush_wait 0 q s = (if flush_queue_done q s then Some ([], s) else None)"
| "flush_wait (Suc fuel) q s =
     (if flush_queue_done q s then Some ([], s)
      else let (e, s1) = dpc_thread_step q s
           in map_option (\<lambda>(es, s2). (e # es, s2)) (flush_wait fuel q s1))"

text \<open>
  \<^verbatim>\<open>KeFlushQueuedDpcs\<close> flushes the queues one after the other; while the caller waits, the worker of
  the queue being flushed runs. \<open>fuel\<close> bounds the iterations of each worker.
\<close>

fun flush_queues :: "nat \<Rightarrow> emulated_dpc list \<Rightarrow> dpc_state \<Rightarrow> (dpc_event list \<times> dpc_state) option" where
  "flush_queues fuel [] s = Some ([], s)"
| "flush_queues fuel (q # qs) s =
     (case flush_queue_begin q s of
        Inl e \<Rightarrow> None
      | Inr s1 \<Rightarrow>
          (case flush_wait fuel q s1 of
             None \<Rightarrow> None
           | Some (es, s2) \<Rightarrow> map_option (\<lambda>(es', s3). (es @ es', s3)) (flush_queues fuel qs s2)))"

definition KeFlushQueuedDpcs :: "nat \<Rightarrow> dpc_state \<Rightarrow> (dpc_event list \<times> dpc_state) option" where
  "KeFlushQueuedDpcs fuel s = flush_queues fuel (emulated_dpcs s) s"

text \<open>
  \<^verbatim>\<open>usersim_initialize_dpcs\<close> constructs one object per CPU; \<open>nodes\<close> gives the addresses of its
  \<^verbatim>\<open>head\<close> and \<^verbatim>\<open>flush_entry\<close> members. \<^verbatim>\<open>usersim_clean_up_dpcs\<close> runs the destructors, which set
  \<^verbatim>\<open>terminate\<close> and join the workers.
\<close>

definition emulated_dpc_construct :: "ptr \<times> ptr \<Rightarrow> dpc_state \<Rightarrow> dpc_state" where
  "emulated_dpc_construct = (\<lambda>(hd, fl) s.
     s\<lparr>entries := usersim_list_initialize fl (usersim_list_initialize hd (entries s)),
       emulated_dpcs := emulated_dpcs s @ [\<lparr>head = hd, flush_entry = fl, terminate = False\<rparr>]\<rparr>)"

definition usersim_initialize_dpcs :: "(ptr \<times> ptr) list \<Rightarrow> dpc_state \<Rightarrow> dpc_state" where
  "usersim_initialize_dpcs nodes s = fold emulated_dpc_construct nodes s"

definition emulated_dpc_destroy :: "emulated_dpc \<Rightarrow> emulated_dpc" where
  "emulated_dpc_destroy q = q\<lparr>terminate := True\<rparr>"

definition usersim_clean_up_dpcs :: "dpc_state \<Rightarrow> (emulated_dpc list) \<times> dpc_state" where
  "usersim_clean_up_dpcs s = (map emulated_dpc_destroy (emulated_dpcs s), s\<lparr>emulated_dpcs := []\<rparr>)"


section \<open>Refinement: the store implements one list of entries per CPU\<close>

text \<open>
  \<open>dpc_rel D q s\<close>: \<open>D\<close> is the set of initialized \<^verbatim>\<open>KDPC\<close>s, \<open>q i\<close> the abstract queue of CPU
  \<open>i\<close> (it holds DPCs and possibly the CPU's own flush marker). Queues are disjoint, and an entry that
  is in no queue is linked to itself, which is what \<^verbatim>\<open>KeInsertQueueDpc\<close> and \<^verbatim>\<open>KeRemoveQueueDpc\<close> test.
\<close>

definition cpu_nodes :: "dpc_state \<Rightarrow> ptr list" where
  "cpu_nodes s = map head (emulated_dpcs s) @ map flush_entry (emulated_dpcs s)"

definition dpc_rel :: "ptr set \<Rightarrow> (nat \<Rightarrow> ptr list) \<Rightarrow> dpc_state \<Rightarrow> bool" where
  "dpc_rel D q s \<longleftrightarrow>
     distinct (cpu_nodes s) \<and> D \<inter> set (cpu_nodes s) = {} \<and>
     (\<forall>i < length (emulated_dpcs s).
        dll (entries s) (head (emulated_dpcs s ! i)) (q i) \<and>
        set (q i) \<subseteq> insert (flush_entry (emulated_dpcs s ! i)) D) \<and>
     (\<forall>i < length (emulated_dpcs s). \<forall>j < length (emulated_dpcs s).
        i \<noteq> j \<longrightarrow> set (q i) \<inter> set (q j) = {}) \<and>
     (\<forall>x \<in> D \<union> flush_entry ` set (emulated_dpcs s).
        (\<forall>i < length (emulated_dpcs s). x \<notin> set (q i)) \<longrightarrow> dll (entries s) x [])"

lemma cpu_nodes_distinct:
  assumes "distinct (cpu_nodes s)" "i < length (emulated_dpcs s)" "j < length (emulated_dpcs s)"
  shows "head (emulated_dpcs s ! i) \<noteq> flush_entry (emulated_dpcs s ! j)"
    and "i \<noteq> j \<Longrightarrow> head (emulated_dpcs s ! i) \<noteq> head (emulated_dpcs s ! j)"
    and "i \<noteq> j \<Longrightarrow> flush_entry (emulated_dpcs s ! i) \<noteq> flush_entry (emulated_dpcs s ! j)"
proof -
  let ?hs = "map head (emulated_dpcs s)" and ?fs = "map flush_entry (emulated_dpcs s)"
  have d: "distinct ?hs" "distinct ?fs" "set ?hs \<inter> set ?fs = {}"
    using assms(1) by (auto simp: cpu_nodes_def)
  show "head (emulated_dpcs s ! i) \<noteq> flush_entry (emulated_dpcs s ! j)"
    using d(3) assms(2,3) by (metis disjoint_iff length_map nth_map nth_mem)
  show "i \<noteq> j \<Longrightarrow> head (emulated_dpcs s ! i) \<noteq> head (emulated_dpcs s ! j)"
    using nth_eq_iff_index_eq [OF d(1), of i j] assms(2,3) by auto
  show "i \<noteq> j \<Longrightarrow> flush_entry (emulated_dpcs s ! i) \<noteq> flush_entry (emulated_dpcs s ! j)"
    using nth_eq_iff_index_eq [OF d(2), of i j] assms(2,3) by auto
qed

lemma cpu_nodes_mem:
  "i < length (emulated_dpcs s) \<Longrightarrow> head (emulated_dpcs s ! i) \<in> set (cpu_nodes s)"
  "i < length (emulated_dpcs s) \<Longrightarrow> flush_entry (emulated_dpcs s ! i) \<in> set (cpu_nodes s)"
  by (auto simp: cpu_nodes_def)

lemma dpc_relD:
  assumes "dpc_rel D q s" and "i < length (emulated_dpcs s)"
  shows "dll (entries s) (head (emulated_dpcs s ! i)) (q i)"
    and "set (q i) \<subseteq> insert (flush_entry (emulated_dpcs s ! i)) D"
    and "j < length (emulated_dpcs s) \<Longrightarrow> i \<noteq> j \<Longrightarrow> set (q i) \<inter> set (q j) = {}"
    and "head (emulated_dpcs s ! i) \<notin> D"
    and "flush_entry (emulated_dpcs s ! i) \<notin> D"
    and "j < length (emulated_dpcs s) \<Longrightarrow> head (emulated_dpcs s ! i) \<notin> set (q j)"
proof -
  show R: "dll (entries s) (head (emulated_dpcs s ! i)) (q i)"
    "set (q i) \<subseteq> insert (flush_entry (emulated_dpcs s ! i)) D"
    "j < length (emulated_dpcs s) \<Longrightarrow> i \<noteq> j \<Longrightarrow> set (q i) \<inter> set (q j) = {}"
    using assms by (auto simp: dpc_rel_def)
  show n: "head (emulated_dpcs s ! i) \<notin> D" "flush_entry (emulated_dpcs s ! i) \<notin> D"
    using assms cpu_nodes_mem [OF assms(2)] by (auto simp: dpc_rel_def)
  assume j: "j < length (emulated_dpcs s)"
  then have "set (q j) \<subseteq> insert (flush_entry (emulated_dpcs s ! j)) D"
    using assms(1) by (auto simp: dpc_rel_def)
  then show "head (emulated_dpcs s ! i) \<notin> set (q j)"
    using cpu_nodes_distinct(1) [of s i j] assms j n by (auto simp: dpc_rel_def)
qed

text \<open>An entry is linked to itself exactly when it is in no queue.\<close>

lemma dpc_rel_is_empty:
  assumes "dpc_rel D q s" and "x \<in> D \<union> flush_entry ` set (emulated_dpcs s)"
  shows "usersim_list_is_empty x (entries s) \<longleftrightarrow> (\<forall>i < length (emulated_dpcs s). x \<notin> set (q i))"
proof
  assume "\<forall>i < length (emulated_dpcs s). x \<notin> set (q i)"
  with assms have "dll (entries s) x []" by (auto simp: dpc_rel_def)
  then show "usersim_list_is_empty x (entries s)" by (simp add: is_empty_dll)
next
  assume e: "usersim_list_is_empty x (entries s)"
  show "\<forall>i < length (emulated_dpcs s). x \<notin> set (q i)"
  proof (intro allI impI notI)
    fix i assume i: "i < length (emulated_dpcs s)" and "x \<in> set (q i)"
    then obtain xs ys where q: "q i = xs @ x # ys" by (auto simp: in_set_conv_decomp)
    have "dll (entries s) (head (emulated_dpcs s ! i)) (xs @ x # ys)"
      using dpc_relD(1) [OF assms(1) i] q by simp
    from unlink_dll(5) [OF this] e show False by (simp add: usersim_list_is_empty_def)
  qed
qed

text \<open>
  Every operation changes the queue of one CPU by one entry \<open>x\<close> and touches no link outside that
  queue and \<open>x\<close>: this is enough to keep the relation.
\<close>

lemma dpc_rel_update:
  assumes R: "dpc_rel D q s" and i: "i < length (emulated_dpcs s)"
    and x: "x \<in> insert (flush_entry (emulated_dpcs s ! i)) D"
    and other: "\<And>j. j < length (emulated_dpcs s) \<Longrightarrow> j \<noteq> i \<Longrightarrow> x \<notin> set (q j)"
    and h': "dll h' (head (emulated_dpcs s ! i)) q'"
    and off: "same_off (entries s) h' (set (x # head (emulated_dpcs s ! i) # q i))"
    and sub: "set q' \<subseteq> insert x (set (q i))" "set (q i) \<subseteq> insert x (set q')"
    and self: "x \<notin> set q' \<Longrightarrow> dll h' x []"
    and s': "entries s' = h'" "emulated_dpcs s' = emulated_dpcs s"
  shows "dpc_rel D (q(i := q')) s'"
proof -
  let ?em = "emulated_dpcs s" and ?hd = "head (emulated_dpcs s ! i)"
  have nodes: "distinct (cpu_nodes s)" "D \<inter> set (cpu_nodes s) = {}"
    using R by (auto simp: dpc_rel_def)
  have q_other: "dll h' (head (?em ! j)) (q j)" if j: "j < length ?em" "j \<noteq> i" for j
  proof (rule dll_same_off [OF dpc_relD(1) [OF R j(1)] off])
    have "head (?em ! j) \<noteq> x"
      using x dpc_relD(4) [OF R j(1)] cpu_nodes_distinct(1) [OF nodes(1) j(1) i] by auto
    then show "set (head (?em ! j) # q j) \<inter> set (x # ?hd # q i) = {}"
      using other [OF j] dpc_relD(6) [OF R j(1) i] dpc_relD(6) [OF R i j(1)]
        dpc_relD(3) [OF R j(1) i j(2)] cpu_nodes_distinct(2) [OF nodes(1) j(1) i j(2)] by auto
  qed
  have single: "dll h' y []"
    if y: "y \<in> D \<union> flush_entry ` set ?em" "\<forall>j < length ?em. y \<notin> set ((q(i := q')) j)" for y
  proof (cases "y = x")
    case True
    with y(2) i self show ?thesis by auto
  next
    case False
    have "\<forall>j < length ?em. y \<notin> set (q j)"
    proof (intro allI impI)
      fix j assume "j < length ?em"
      with y(2) have "y \<notin> set ((q(i := q')) j)" by blast
      with False sub(2) show "y \<notin> set (q j)" by (cases "j = i") auto
    qed
    with R y(1) have "dll (entries s) y []" by (auto simp: dpc_rel_def)
    moreover have "y \<noteq> ?hd"
      using y(1) dpc_relD(4) [OF R i] cpu_nodes_distinct(1) [OF nodes(1) i]
      by (metis UnE imageE in_set_conv_nth)
    moreover have "y \<notin> set (q i)" using \<open>\<forall>j < length ?em. y \<notin> set (q j)\<close> i by auto
    ultimately show ?thesis using False by (intro dll_same_off [OF _ off]) auto
  qed
  have "set q' \<subseteq> insert (flush_entry (?em ! i)) D" using sub(1) x dpc_relD(2) [OF R i] by auto
  moreover have "set q' \<inter> set (q j) = {}" if "j < length ?em" "j \<noteq> i" for j
    using sub(1) other [OF that] dpc_relD(3) [OF R i that(1)] that(2) by auto
  ultimately show ?thesis
    using nodes q_other single h' dpc_relD(2,3) [OF R] s'
    by (auto simp: dpc_rel_def cpu_nodes_def)
qed


section \<open>Every operation simulates its list operation\<close>

text \<open>\<open>same_cpus s s'\<close>: an operation neither adds nor changes an emulated DPC object.\<close>

abbreviation same_cpus :: "dpc_state \<Rightarrow> dpc_state \<Rightarrow> bool" where
  "same_cpus s s' \<equiv> emulated_dpcs s' = emulated_dpcs s"

lemma insert_queued:
  assumes "dpc_rel D q s" "d \<in> D" "unat (cpu_id (kdpcs s d)) < length (emulated_dpcs s)"
    and "j < length (emulated_dpcs s)" "d \<in> set (q j)"
  shows "dpc_insert d p1 p2 s = Inr (False, s)"
  using assms dpc_rel_is_empty [OF assms(1), of d]
  by (auto simp: dpc_insert_def dpc_queue_def Let_def)

lemma insert_unqueued:
  assumes R: "dpc_rel D q s" and d: "d \<in> D"
    and i: "i = unat (cpu_id (kdpcs s d))" "i < length (emulated_dpcs s)"
    and free: "\<And>j. j < length (emulated_dpcs s) \<Longrightarrow> d \<notin> set (q j)"
  shows "\<exists>s'. dpc_insert d p1 p2 s = Inr (True, s') \<and> dpc_rel D (q(i := q i @ [d])) s' \<and>
              same_cpus s s' \<and>
              kdpcs s' = (kdpcs s)(d := (kdpcs s d)\<lparr>parameter_1 := p1, parameter_2 := p2\<rparr>)"
proof -
  let ?hd = "head (emulated_dpcs s ! i)"
  have e: "usersim_list_is_empty d (entries s)" using dpc_rel_is_empty [OF R, of d] d free by auto
  have "d \<notin> set (?hd # q i)" using dpc_relD(4) [OF R i(2)] d free [OF i(2)] by auto
  with insert_tail_dll [OF dpc_relD(1) [OF R i(2)]] obtain h' where
    h': "usersim_list_insert_tail ?hd d (entries s) = Inr h'" "dll h' ?hd (q i @ [d])"
      "same_off (entries s) h' (set (d # ?hd # q i))" by blast
  let ?s' = "s\<lparr>kdpcs := (kdpcs s)(d := (kdpcs s d)\<lparr>parameter_1 := p1, parameter_2 := p2\<rparr>), entries := h'\<rparr>"
  have "dpc_insert d p1 p2 s = Inr (True, ?s')"
    using e i h'(1) by (simp add: dpc_insert_def dpc_queue_def Let_def)
  moreover have "dpc_rel D (q(i := q i @ [d])) ?s'"
    by (rule dpc_rel_update [OF R i(2) _ _ h'(2,3)]) (use d free in auto)
  ultimately show ?thesis by (intro exI [of _ ?s']) simp
qed

lemma remove_unqueued:
  assumes "dpc_rel D q s" "d \<in> D" "unat (cpu_id (kdpcs s d)) < length (emulated_dpcs s)"
    and "\<And>j. j < length (emulated_dpcs s) \<Longrightarrow> d \<notin> set (q j)"
  shows "dpc_remove d s = Inr (False, s)"
  using assms dpc_rel_is_empty [OF assms(1), of d]
  by (auto simp: dpc_remove_def dpc_queue_def Let_def)

lemma remove_queued:
  assumes R: "dpc_rel D q s" and d: "d \<in> D" "unat (cpu_id (kdpcs s d)) < length (emulated_dpcs s)"
    and i: "i < length (emulated_dpcs s)" "d \<in> set (q i)"
  shows "\<exists>s'. dpc_remove d s = Inr (True, s') \<and> dpc_rel D (q(i := remove1 d (q i))) s' \<and>
              same_cpus s s' \<and> kdpcs s' = kdpcs s"
proof -
  let ?hd = "head (emulated_dpcs s ! i)"
  obtain xs ys where q: "q i = xs @ d # ys" "d \<notin> set xs"
    using i(2) by (meson split_list_first)
  have D: "dll (entries s) ?hd (xs @ d # ys)" using dpc_relD(1) [OF R i(1)] q by simp
  then have dn: "d \<notin> set (xs @ ys)" by (auto simp: dll_def)
  obtain h' where h': "usersim_list_remove_entry d (entries s) = (xs @ ys = [], h')"
    "dll h' ?hd (xs @ ys)" "dll h' d []" "same_off (entries s) h' (set (d # ?hd # xs @ ys))"
    using remove_entry_dll [OF D] by blast
  have "\<not> usersim_list_is_empty d (entries s)"
    using dpc_rel_is_empty [OF R, of d] d(1) i by auto
  then have "dpc_remove d s = Inr (True, s\<lparr>entries := h'\<rparr>)"
    using d(2) h'(1) by (simp add: dpc_remove_def dpc_queue_def Let_def)
  moreover have off: "same_off (entries s) h' (set (d # ?hd # q i))"
    using h'(4) q by (auto simp: same_off_def)
  have "dpc_rel D (q(i := xs @ ys)) (s\<lparr>entries := h'\<rparr>)"
  proof (rule dpc_rel_update [OF R i(1) _ _ h'(2) off])
    show "d \<in> insert (flush_entry (emulated_dpcs s ! i)) D" using d by simp
    show "\<And>j. j < length (emulated_dpcs s) \<Longrightarrow> j \<noteq> i \<Longrightarrow> d \<notin> set (q j)"
      using dpc_relD(3) [OF R i(1)] i(2) by (metis disjoint_iff)
  qed (use q h' in auto)
  moreover have "remove1 d (q i) = xs @ ys" using q by (simp add: remove1_append)
  ultimately show ?thesis by (intro exI [of _ "s\<lparr>entries := h'\<rparr>"]) simp
qed

lemma flush_not_elsewhere:
  assumes R: "dpc_rel D q s" and i: "i < length (emulated_dpcs s)"
    and j: "j < length (emulated_dpcs s)" "j \<noteq> i"
  shows "flush_entry (emulated_dpcs s ! i) \<notin> set (q j)"
proof -
  have "distinct (cpu_nodes s)" using R by (simp add: dpc_rel_def)
  then show ?thesis
    using dpc_relD(2) [OF R j(1)] dpc_relD(5) [OF R i] cpu_nodes_distinct(3) [of s i j] i j by auto
qed

lemma flush_begin_rel:
  assumes R: "dpc_rel D q s" and i: "i < length (emulated_dpcs s)"
    and free: "flush_entry (emulated_dpcs s ! i) \<notin> set (q i)"
  defines "f \<equiv> flush_entry (emulated_dpcs s ! i)"
  shows "\<exists>s'. flush_queue_begin (emulated_dpcs s ! i) s = Inr s' \<and>
              dpc_rel D (q(i := q i @ [f])) s' \<and> same_cpus s s' \<and> kdpcs s' = kdpcs s"
proof -
  let ?hd = "head (emulated_dpcs s ! i)"
  let ?h0 = "usersim_list_initialize f (entries s)"
  have nodes: "distinct (cpu_nodes s)" using R by (simp add: dpc_rel_def)
  have f: "f \<notin> set (?hd # q i)"
    using free cpu_nodes_distinct(1) [OF nodes i i] by (auto simp: f_def)
  have D0: "dll ?h0 ?hd (q i)"
    by (rule dll_same_off [OF dpc_relD(1) [OF R i] initialize_dll(2)]) (use f in auto)
  obtain h' where h': "usersim_list_insert_tail ?hd f ?h0 = Inr h'" "dll h' ?hd (q i @ [f])"
    "same_off ?h0 h' (set (f # ?hd # q i))"
    using insert_tail_dll [OF D0 f] by blast
  have off: "same_off (entries s) h' (set (f # ?hd # q i))"
    using h'(3) initialize_dll(2) [of "entries s" f] by (auto simp: same_off_def)
  have "dpc_rel D (q(i := q i @ [f])) (s\<lparr>entries := h'\<rparr>)"
    by (rule dpc_rel_update [OF R i _ _ h'(2) off])
      (use flush_not_elsewhere [OF R i] in \<open>auto simp: f_def\<close>)
  moreover have "flush_queue_begin (emulated_dpcs s ! i) s = Inr (s\<lparr>entries := h'\<rparr>)"
    using h'(1) by (simp add: flush_queue_begin_def f_def)
  ultimately show ?thesis by (intro exI [of _ "s\<lparr>entries := h'\<rparr>"]) simp
qed

definition run_event :: "dpc_state \<Rightarrow> ptr \<Rightarrow> dpc_event" where
  "run_event s d = Ran d (work_item_routine (kdpcs s d)) (dpc_context (kdpcs s d))
                 (parameter_1 (kdpcs s d)) (parameter_2 (kdpcs s d))"

lemma thread_step_Nil:
  assumes "dpc_rel D q s" "i < length (emulated_dpcs s)" "q i = []"
    and "\<not> terminate (emulated_dpcs s ! i)"
  shows "dpc_thread_step (emulated_dpcs s ! i) s = (Waits, s)"
  using assms dpc_relD(1) [OF assms(1,2)] by (simp add: dpc_thread_step_def is_empty_dll)

lemma thread_step_Cons:
  assumes R: "dpc_rel D q s" and i: "i < length (emulated_dpcs s)" and q: "q i = x # xs"
    and t: "\<not> terminate (emulated_dpcs s ! i)"
  shows "\<exists>s'. dpc_thread_step (emulated_dpcs s ! i) s =
                (if x = flush_entry (emulated_dpcs s ! i) then Flushed else run_event s x, s') \<and>
              dpc_rel D (q(i := xs)) s' \<and> same_cpus s s' \<and> kdpcs s' = kdpcs s"
proof -
  let ?hd = "head (emulated_dpcs s ! i)"
  have D: "dll (entries s) ?hd (x # xs)" using dpc_relD(1) [OF R i] q by simp
  obtain h where h: "usersim_list_remove_head_entry ?hd (entries s) = (x, h)" "dll h ?hd xs"
    "same_off (entries s) h (set (?hd # xs))"
    using remove_head_entry_Cons [OF D] by blast
  let ?h' = "usersim_list_initialize x h"
  have x: "x \<notin> set (?hd # xs)" using D by (auto simp: dll_def)
  have D': "dll ?h' ?hd xs"
    by (rule dll_same_off [OF h(2) initialize_dll(2)]) (use x in auto)
  have off: "same_off (entries s) ?h' (set (x # ?hd # q i))"
    using h(3) initialize_dll(2) [of h x] q by (auto simp: same_off_def)
  have "dpc_rel D (q(i := xs)) (s\<lparr>entries := ?h'\<rparr>)"
  proof (rule dpc_rel_update [OF R i _ _ D' off])
    show "x \<in> insert (flush_entry (emulated_dpcs s ! i)) D" using dpc_relD(2) [OF R i] q by auto
    show "\<And>j. j < length (emulated_dpcs s) \<Longrightarrow> j \<noteq> i \<Longrightarrow> x \<notin> set (q j)"
      using dpc_relD(3) [OF R i] q by (metis disjoint_iff list.set_intros(1))
  qed (use q initialize_dll in auto)
  moreover have "dpc_thread_step (emulated_dpcs s ! i) s =
      (if x = flush_entry (emulated_dpcs s ! i) then Flushed else run_event s x, s\<lparr>entries := ?h'\<rparr>)"
    using t h(1) is_empty_dll [OF D] by (simp add: dpc_thread_step_def run_event_def Let_def)
  ultimately show ?thesis by (intro exI [of _ "s\<lparr>entries := ?h'\<rparr>"]) simp
qed

lemma initialize_dpc_rel:
  assumes R: "dpc_rel D q s" and n: "d \<notin> set (cpu_nodes s)"
    and free: "\<And>j. j < length (emulated_dpcs s) \<Longrightarrow> d \<notin> set (q j)"
  shows "dpc_rel (insert d D) q (KeInitializeDpc d r c s)"
proof -
  let ?h = "usersim_list_initialize d (entries s)"
  have keep: "dll (entries s) l xs \<Longrightarrow> d \<notin> set (l # xs) \<Longrightarrow> dll ?h l xs" for l xs
    by (rule dll_same_off [OF _ initialize_dll(2)]) auto
  have heads: "dll ?h (head (emulated_dpcs s ! i)) (q i)" if "i < length (emulated_dpcs s)" for i
    using keep [OF dpc_relD(1) [OF R that]] n free [OF that] cpu_nodes_mem(1) [OF that] by auto
  have single: "dll ?h x []"
    if "x \<in> insert d D \<union> flush_entry ` set (emulated_dpcs s)"
      "\<forall>i < length (emulated_dpcs s). x \<notin> set (q i)" for x
  proof (cases "x = d")
    case True
    then show ?thesis by (simp add: initialize_dll)
  next
    case False
    with that R have "dll (entries s) x []" by (auto simp: dpc_rel_def)
    with False show ?thesis by (intro keep) auto
  qed
  show ?thesis
    using R n heads single by (auto simp: dpc_rel_def KeInitializeDpc_def cpu_nodes_def)
qed


section \<open>Running the worker\<close>

lemma thread_run_prefix:
  assumes "dpc_rel D q s" "i < length (emulated_dpcs s)" "\<not> terminate (emulated_dpcs s ! i)"
    and "q i = xs @ ys" "flush_entry (emulated_dpcs s ! i) \<notin> set xs"
  shows "\<exists>s'. dpc_thread_run (length xs) (emulated_dpcs s ! i) s = (map (run_event s) xs, s') \<and>
              dpc_rel D (q(i := ys)) s' \<and> same_cpus s s' \<and> kdpcs s' = kdpcs s"
  using assms
proof (induction xs arbitrary: s q)
  case Nil
  then have "q(i := ys) = q" by (intro ext) simp
  with Nil show ?case by simp
next
  case (Cons x xs)
  then have "q i = x # xs @ ys" by simp
  from thread_step_Cons [OF Cons.prems(1,2) this Cons.prems(3)] Cons.prems(5)
  obtain s1 where s1: "dpc_thread_step (emulated_dpcs s ! i) s = (run_event s x, s1)"
    "dpc_rel D (q(i := xs @ ys)) s1" "same_cpus s s1" "kdpcs s1 = kdpcs s" by auto
  have "\<exists>s'. dpc_thread_run (length xs) (emulated_dpcs s1 ! i) s1 = (map (run_event s1) xs, s') \<and>
      dpc_rel D ((q(i := xs @ ys))(i := ys)) s' \<and> same_cpus s1 s' \<and> kdpcs s' = kdpcs s1"
    by (rule Cons.IH [OF s1(2)]) (use s1(3) Cons.prems in auto)
  then obtain s' where s': "dpc_thread_run (length xs) (emulated_dpcs s ! i) s1 = (map (run_event s1) xs, s')"
      "dpc_rel D (q(i := ys)) s'" "same_cpus s s'" "kdpcs s' = kdpcs s"
    using s1(3,4) by auto
  have "run_event s1 = run_event s" by (intro ext) (simp add: run_event_def s1(4))
  with s' s1(1) show ?case by (intro exI [of _ s'] conjI s'(2-4)) simp
qed

lemma flush_done_iff:
  assumes "dpc_rel D q s" "i < length (emulated_dpcs s)" "\<not> terminate (emulated_dpcs s ! i)"
  shows "flush_queue_done (emulated_dpcs s ! i) s \<longleftrightarrow> flush_entry (emulated_dpcs s ! i) \<notin> set (q i)"
  using dpc_rel_is_empty [OF assms(1), of "flush_entry (emulated_dpcs s ! i)"]
    flush_not_elsewhere [OF assms(1,2)] assms(2,3) by (auto simp: flush_queue_done_def)

lemma flush_wait_runs:
  assumes "dpc_rel D q s" "i < length (emulated_dpcs s)" "\<not> terminate (emulated_dpcs s ! i)"
    and "q i = xs @ flush_entry (emulated_dpcs s ! i) # ys"
    and "flush_entry (emulated_dpcs s ! i) \<notin> set (xs @ ys)" and "length xs < fuel"
  shows "\<exists>s'. flush_wait fuel (emulated_dpcs s ! i) s = Some (map (run_event s) xs @ [Flushed], s') \<and>
              dpc_rel D (q(i := ys)) s' \<and> same_cpus s s' \<and> kdpcs s' = kdpcs s"
  using assms
proof (induction fuel arbitrary: s q xs)
  case 0
  then show ?case by simp
next
  case (Suc fuel)
  let ?c = "emulated_dpcs s ! i"
  have nd: "\<not> flush_queue_done ?c s" using flush_done_iff [OF Suc.prems(1-3)] Suc.prems(4) by simp
  show ?case
  proof (cases xs)
    case Nil
    with Suc.prems(4) have "q i = flush_entry ?c # ys" by simp
    from thread_step_Cons [OF Suc.prems(1,2) this Suc.prems(3)]
    obtain s1 where s1: "dpc_thread_step ?c s = (Flushed, s1)" "dpc_rel D (q(i := ys)) s1"
      "same_cpus s s1" "kdpcs s1 = kdpcs s" by auto
    have "flush_queue_done ?c s1"
      using flush_done_iff [OF s1(2), of i] s1(3) Suc.prems(2,3,5) by simp
    then have "flush_wait fuel ?c s1 = Some ([], s1)" by (cases fuel) auto
    with nd s1 Nil show ?thesis by (intro exI [of _ s1] conjI s1(2-4)) simp
  next
    case (Cons x xs')
    with Suc.prems(4) have "q i = x # xs' @ flush_entry ?c # ys" by simp
    from thread_step_Cons [OF Suc.prems(1,2) this Suc.prems(3)] Suc.prems(5) Cons
    obtain s1 where s1: "dpc_thread_step ?c s = (run_event s x, s1)"
      "dpc_rel D (q(i := xs' @ flush_entry ?c # ys)) s1" "same_cpus s s1" "kdpcs s1 = kdpcs s"
      by auto
    have "\<exists>s'. flush_wait fuel (emulated_dpcs s1 ! i) s1 = Some (map (run_event s1) xs' @ [Flushed], s') \<and>
        dpc_rel D ((q(i := xs' @ flush_entry ?c # ys))(i := ys)) s' \<and> same_cpus s1 s' \<and>
        kdpcs s' = kdpcs s1"
      by (rule Suc.IH [OF s1(2)]) (use s1(3) Suc.prems Cons in auto)
    moreover have "run_event s1 = run_event s" by (intro ext) (simp add: run_event_def s1(4))
    ultimately obtain s' where s': "flush_wait fuel ?c s1 = Some (map (run_event s) xs' @ [Flushed], s')"
      "dpc_rel D (q(i := ys)) s'" "same_cpus s s'" "kdpcs s' = kdpcs s" using s1(3,4) by auto
    show ?thesis by (intro exI [of _ s'] conjI s'(2-4)) (use s'(1) nd s1(1) Cons in simp)
  qed
qed

text \<open>The flush of one queue: its marker goes in, and the worker runs until it comes out.\<close>

lemma flush_one_queue:
  assumes R: "dpc_rel D q s" and k: "k < length (emulated_dpcs s)"
    and K: "\<not> terminate (emulated_dpcs s ! k)" "flush_entry (emulated_dpcs s ! k) \<notin> set (q k)" "length (q k) < fuel"
  shows "\<exists>s1 s2. flush_queue_begin (emulated_dpcs s ! k) s = Inr s1 \<and>
           flush_wait fuel (emulated_dpcs s ! k) s1 = Some (map (run_event s) (q k) @ [Flushed], s2) \<and>
           dpc_rel D (q(k := [])) s2 \<and> same_cpus s s2 \<and> kdpcs s2 = kdpcs s"
proof -
  let ?f = "flush_entry (emulated_dpcs s ! k)"
  obtain s1 where s1: "flush_queue_begin (emulated_dpcs s ! k) s = Inr s1"
    "dpc_rel D (q(k := q k @ [?f])) s1" "same_cpus s s1" "kdpcs s1 = kdpcs s"
    using flush_begin_rel [OF R k K(2)] by blast
  have "\<exists>s'. flush_wait fuel (emulated_dpcs s1 ! k) s1 = Some (map (run_event s1) (q k) @ [Flushed], s') \<and>
      dpc_rel D ((q(k := q k @ [?f]))(k := [])) s' \<and> same_cpus s1 s' \<and> kdpcs s' = kdpcs s1"
    by (rule flush_wait_runs) (use s1 K k in auto)
  then show ?thesis using s1 by (auto simp: run_event_def [abs_def])
qed

lemma flush_queues_runs:
  assumes "k \<le> length (emulated_dpcs s)" "dpc_rel D q s"
    and "\<And>i. i < length (emulated_dpcs s) \<Longrightarrow>
           \<not> terminate (emulated_dpcs s ! i) \<and> flush_entry (emulated_dpcs s ! i) \<notin> set (q i) \<and>
           length (q i) < fuel"
  shows "\<exists>s'. flush_queues fuel (drop k (emulated_dpcs s)) s =
                Some (concat (map (\<lambda>i. map (run_event s) (q i) @ [Flushed]) [k..<length (emulated_dpcs s)]), s') \<and>
              dpc_rel D (\<lambda>i. if k \<le> i \<and> i < length (emulated_dpcs s) then [] else q i) s' \<and>
              same_cpus s s' \<and> kdpcs s' = kdpcs s"
  using assms
proof (induction "length (emulated_dpcs s) - k" arbitrary: k s q)
  case 0
  then have "k = length (emulated_dpcs s)" by simp
  moreover have "(\<lambda>i. if length (emulated_dpcs s) \<le> i \<and> i < length (emulated_dpcs s) then [] else q i) = q"
    by (intro ext if_not_P) linarith
  ultimately show ?case using 0 by simp
next
  case (Suc m)
  let ?em = "emulated_dpcs s" and ?n = "length (emulated_dpcs s)"
  have k: "k < ?n" using Suc.hyps(2) by simp
  note K = Suc.prems(3) [OF k]
  obtain s1 s2 where s1: "flush_queue_begin (?em ! k) s = Inr s1"
    and s2: "flush_wait fuel (?em ! k) s1 = Some (map (run_event s) (q k) @ [Flushed], s2)"
    "dpc_rel D (q(k := [])) s2" "same_cpus s s2" "kdpcs s2 = kdpcs s"
    using flush_one_queue [OF Suc.prems(2) k] K by blast
  have "\<exists>s'. flush_queues fuel (drop (Suc k) (emulated_dpcs s2)) s2 =
      Some (concat (map (\<lambda>i. map (run_event s2) ((q(k := [])) i) @ [Flushed])
             [Suc k..<length (emulated_dpcs s2)]), s') \<and>
      dpc_rel D (\<lambda>i. if Suc k \<le> i \<and> i < length (emulated_dpcs s2) then [] else (q(k := [])) i) s' \<and>
      same_cpus s2 s' \<and> kdpcs s' = kdpcs s2"
  proof (rule Suc.hyps(1))
    show "m = length (emulated_dpcs s2) - Suc k" using Suc.hyps(2) s2(3) by simp
    show "Suc k \<le> length (emulated_dpcs s2)" using k s2(3) by simp
    show "dpc_rel D (q(k := [])) s2" by (rule s2(2))
    fix i assume "i < length (emulated_dpcs s2)"
    with Suc.prems(3) [of i] s2(3) show "\<not> terminate (emulated_dpcs s2 ! i) \<and>
        flush_entry (emulated_dpcs s2 ! i) \<notin> set ((q(k := [])) i) \<and> length ((q(k := [])) i) < fuel"
      by auto
  qed
  then obtain s3 where s3: "flush_queues fuel (drop (Suc k) ?em) s2 =
      Some (concat (map (\<lambda>i. map (run_event s) ((q(k := [])) i) @ [Flushed]) [Suc k..<?n]), s3)"
    "dpc_rel D (\<lambda>i. if Suc k \<le> i \<and> i < ?n then [] else (q(k := [])) i) s3"
    "same_cpus s s3" "kdpcs s3 = kdpcs s"
    using s2(3,4) by (auto simp: run_event_def [abs_def])
  have "(\<lambda>i. if Suc k \<le> i \<and> i < ?n then [] else (q(k := [])) i) =
      (\<lambda>i. if k \<le> i \<and> i < ?n then [] else q i)" using k by (intro ext) auto
  moreover have "map (\<lambda>i. map (run_event s) ((q(k := [])) i) @ [Flushed]) [Suc k..<?n] =
      map (\<lambda>i. map (run_event s) (q i) @ [Flushed]) [Suc k..<?n]" by (rule map_cong) auto
  note s3(1) [unfolded this]
  moreover have "drop k ?em = ?em ! k # drop (Suc k) ?em" using k by (simp add: Cons_nth_drop_Suc)
  moreover have "[k..<?n] = k # [Suc k..<?n]" using k by (simp add: upt_conv_Cons)
  ultimately show ?case using s1 s2(1) s3(2-4) by simp
qed

section \<open>Reachable states\<close>

lemma construct_rel:
  assumes "dpc_rel {} (\<lambda>_. []) s" and "distinct (cpu_nodes s @ [hn, fn])"
  shows "dpc_rel {} (\<lambda>_. []) (emulated_dpc_construct (hn, fn) s)"
proof -
  let ?h = "usersim_list_initialize fn (usersim_list_initialize hn (entries s))"
  have keep: "dll ?h l []" if "dll (entries s) l []" "l \<in> set (cpu_nodes s)" for l
  proof (rule dll_same_off [OF dll_same_off])
    show "dll (entries s) l []" by (rule that)
    show "same_off (entries s) (usersim_list_initialize hn (entries s)) {hn}"
      "same_off (usersim_list_initialize hn (entries s)) ?h {fn}" by (rule initialize_dll)+
  qed (use that(2) assms(2) in auto)
  have hn: "dll ?h hn []"
    by (rule dll_same_off [OF initialize_dll(1) initialize_dll(2)]) (use assms(2) in auto)
  have fn: "dll ?h fn []" by (rule initialize_dll)
  have old: "dll ?h (head c) []" "dll ?h (flush_entry c) []" if "c \<in> set (emulated_dpcs s)" for c
    using assms(1) that by (auto intro!: keep simp: dpc_rel_def cpu_nodes_def in_set_conv_nth [of c])
  show ?thesis
    using assms hn fn old
    by (auto simp: dpc_rel_def emulated_dpc_construct_def cpu_nodes_def nth_append less_Suc_eq)
qed

lemma initialize_dpcs_rel:
  assumes "dpc_rel {} (\<lambda>_. []) s" and "distinct (cpu_nodes s @ map fst nodes @ map snd nodes)"
  shows "dpc_rel {} (\<lambda>_. []) (usersim_initialize_dpcs nodes s)"
  using assms
proof (induction nodes arbitrary: s)
  case Nil
  then show ?case by (simp add: usersim_initialize_dpcs_def)
next
  case (Cons n nodes)
  obtain hn fn where n: "n = (hn, fn)" by (cases n)
  have "dpc_rel {} (\<lambda>_. []) (usersim_initialize_dpcs nodes (emulated_dpc_construct n s))"
  proof (rule Cons.IH)
    show "dpc_rel {} (\<lambda>_. []) (emulated_dpc_construct n s)"
      using Cons.prems n by (auto intro: construct_rel)
    show "distinct (cpu_nodes (emulated_dpc_construct n s) @ map fst nodes @ map snd nodes)"
      using Cons.prems(2) n by (auto simp: cpu_nodes_def emulated_dpc_construct_def)
  qed
  then show ?case by (simp add: usersim_initialize_dpcs_def)
qed

text \<open>The queues that are created are empty, and none of them is being shut down.\<close>

lemma initialize_dpcs_queues:
  "emulated_dpcs (usersim_initialize_dpcs nodes s) =
     emulated_dpcs s @ map (\<lambda>(hd, fl). \<lparr>head = hd, flush_entry = fl, terminate = False\<rparr>) nodes"
  by (induction nodes arbitrary: s) (auto simp: usersim_initialize_dpcs_def emulated_dpc_construct_def)

lemma no_cpus_rel: "emulated_dpcs s = [] \<Longrightarrow> dpc_rel {} q s"
  by (simp add: dpc_rel_def cpu_nodes_def)

text \<open>
  The interleavings of all threads: drivers initialize, target, insert and remove DPCs, threads start
  a flush, and each worker runs its iterations. The state carries the set of initialized DPCs. The
  guards are the documented use: a DPC is not initialized again while it is queued, the target CPU
  exists, and no second flush starts on a CPU while one is waiting.
\<close>

inductive dpc_call :: "ptr set \<times> dpc_state \<Rightarrow> ptr set \<times> dpc_state \<Rightarrow> bool" where
  call_initialize: "d \<notin> set (cpu_nodes s) \<Longrightarrow> d \<notin> D \<or> usersim_list_is_empty d (entries s) \<Longrightarrow>
     dpc_call (D, s) (insert d D, KeInitializeDpc d r c s)"
| call_target: "d \<in> D \<Longrightarrow> dpc_call (D, s) (D, KeSetTargetProcessorDpc d number s)"
| call_insert: "d \<in> D \<Longrightarrow> KeInsertQueueDpc d a b s = Inr (r, t) \<Longrightarrow> dpc_call (D, s) (D, t)"
| call_remove: "d \<in> D \<Longrightarrow> KeRemoveQueueDpc d s = Inr (r, t) \<Longrightarrow> dpc_call (D, s) (D, t)"
| call_flush: "c \<in> set (emulated_dpcs s) \<Longrightarrow> usersim_list_is_empty (flush_entry c) (entries s) \<Longrightarrow>
     flush_queue_begin c s = Inr t \<Longrightarrow> dpc_call (D, s) (D, t)"

inductive dpc_step :: "ptr set \<times> dpc_state \<Rightarrow> ptr set \<times> dpc_state \<Rightarrow> bool" where
  step_call: "dpc_call (D, s) (D', t) \<Longrightarrow> dpc_step (D, s) (D', t)"
| step_worker: "c \<in> set (emulated_dpcs s) \<Longrightarrow> dpc_thread_step c s = (e, t) \<Longrightarrow> dpc_step (D, s) (D, t)"

inductive_cases dpc_callE: "dpc_call (D, s) (D', t)"

inductive dpc_reachable :: "(ptr \<times> ptr) list \<Rightarrow> ptr set \<times> dpc_state \<Rightarrow> bool" for nodes where
  init: "emulated_dpcs s = [] \<Longrightarrow> dpc_reachable nodes ({}, usersim_initialize_dpcs nodes s)"
| step: "dpc_reachable nodes (D, s) \<Longrightarrow> dpc_step (D, s) (D', t) \<Longrightarrow> dpc_reachable nodes (D', t)"

lemma dpc_rel_kdpcs: "dpc_rel D q s \<Longrightarrow> dpc_rel D q (s\<lparr>kdpcs := f\<rparr>)"
  by (simp add: dpc_rel_def cpu_nodes_def)

lemma insert_range:
  "dpc_insert d a b s = Inr r \<Longrightarrow> unat (cpu_id (kdpcs s d)) < length (emulated_dpcs s)"
  by (auto simp: dpc_insert_def dpc_queue_def Let_def split: if_splits)

lemma remove_range:
  "dpc_remove d s = Inr r \<Longrightarrow> unat (cpu_id (kdpcs s d)) < length (emulated_dpcs s)"
  by (auto simp: dpc_remove_def dpc_queue_def Let_def split: if_splits)

lemma dpc_rel_insert_step:
  assumes R: "dpc_rel D q s" and d: "d \<in> D" and e: "dpc_insert d a b s = Inr (r, t)"
  shows "\<exists>q'. dpc_rel D q' t"
proof (cases "\<exists>j < length (emulated_dpcs s). d \<in> set (q j)")
  case True
  then show ?thesis using insert_queued [OF R d insert_range [OF e]] e R by auto
next
  case False
  then show ?thesis using insert_unqueued [OF R d refl insert_range [OF e], of a b] e by fastforce
qed

lemma dpc_rel_remove_step:
  assumes R: "dpc_rel D q s" and d: "d \<in> D" and e: "dpc_remove d s = Inr (r, t)"
  shows "\<exists>q'. dpc_rel D q' t"
proof (cases "\<exists>j < length (emulated_dpcs s). d \<in> set (q j)")
  case True
  then obtain j where "j < length (emulated_dpcs s)" "d \<in> set (q j)" by blast
  from remove_queued [OF R d remove_range [OF e] this] e show ?thesis by auto
next
  case False
  then show ?thesis using remove_unqueued [OF R d remove_range [OF e]] e R by auto
qed

lemma dpc_rel_worker_step:
  assumes R: "dpc_rel D q s" and i: "i < length (emulated_dpcs s)"
    and e: "dpc_thread_step (emulated_dpcs s ! i) s = (ev, t)"
  shows "\<exists>q'. dpc_rel D q' t"
proof (cases "terminate (emulated_dpcs s ! i)")
  case True
  then show ?thesis using e R by (auto simp: dpc_thread_step_def)
next
  case False
  show ?thesis
  proof (cases "q i")
    case Nil
    then show ?thesis using thread_step_Nil [OF R i Nil False] e R by auto
  next
    case (Cons x xs)
    then show ?thesis using thread_step_Cons [OF R i Cons False] e by auto
  qed
qed

lemma dpc_call_rel:
  assumes R: "dpc_rel D q s" and st: "dpc_call (D, s) (D', t)"
  shows "\<exists>q'. dpc_rel D' q' t"
  using st
proof cases
  case (call_initialize d r c)
  have "d \<notin> set (q j)" if j: "j < length (emulated_dpcs s)" for j
  proof (cases "d \<in> D")
    case True
    then show ?thesis using call_initialize(4) dpc_rel_is_empty [OF R, of d] j by auto
  next
    case False
    then show ?thesis using dpc_relD(2) [OF R j] cpu_nodes_mem(2) [OF j] call_initialize(3) by auto
  qed
  from initialize_dpc_rel [OF R call_initialize(3) this] call_initialize show ?thesis by blast
next
  case (call_target d number)
  then show ?thesis using dpc_rel_kdpcs [OF R] by (auto simp: KeSetTargetProcessorDpc_def)
next
  case (call_insert d a b r)
  then show ?thesis using dpc_rel_insert_step [OF R] by (auto simp: KeInsertQueueDpc_def)
next
  case (call_remove d r)
  then show ?thesis using dpc_rel_remove_step [OF R] by (auto simp: KeRemoveQueueDpc_def)
next
  case (call_flush c)
  then obtain i where i: "i < length (emulated_dpcs s)" "c = emulated_dpcs s ! i"
    by (auto simp: in_set_conv_nth)
  then have "flush_entry (emulated_dpcs s ! i) \<notin> set (q i)"
    using dpc_rel_is_empty [OF R, of "flush_entry c"] call_flush(2,3) by auto
  from flush_begin_rel [OF R i(1) this] call_flush i show ?thesis by auto
qed

lemma dpc_step_rel:
  assumes R: "dpc_rel D q s" and st: "dpc_step (D, s) (D', t)"
  shows "\<exists>q'. dpc_rel D' q' t"
  using st
proof cases
  case (step_worker c e)
  then obtain i where "i < length (emulated_dpcs s)" "c = emulated_dpcs s ! i"
    by (auto simp: in_set_conv_nth)
  with dpc_rel_worker_step [OF R] step_worker show ?thesis by auto
qed (rule dpc_call_rel [OF R])

lemma dpc_reachable_rel:
  assumes "dpc_reachable nodes (D, s)" and "distinct (map fst nodes @ map snd nodes)"
  shows "\<exists>q. dpc_rel D q s"
  using assms
proof (induction "(D, s)" arbitrary: D s rule: dpc_reachable.induct)
  case (init s)
  then have "dpc_rel {} (\<lambda>_. []) (usersim_initialize_dpcs nodes s)"
    by (intro initialize_dpcs_rel no_cpus_rel) (auto simp: cpu_nodes_def)
  then show ?case by blast
next
  case (step D s D' t)
  then show ?case using dpc_step_rel by blast
qed

section \<open>Properties\<close>

text \<open>The entries that are linked to the head of the queue of a CPU; a DPC is queued if it is one of them for some CPU.\<close>

definition queue_holds :: "dpc_state \<Rightarrow> nat \<Rightarrow> ptr list \<Rightarrow> bool" where
  "queue_holds s i xs \<longleftrightarrow> i < length (emulated_dpcs s) \<and> dll (entries s) (head (emulated_dpcs s ! i)) xs"

definition in_queue :: "ptr \<Rightarrow> dpc_state \<Rightarrow> bool" where
  "in_queue d s \<longleftrightarrow> (\<exists>i xs. queue_holds s i xs \<and> d \<in> set xs)"

lemma dpc_rel_holds:
  assumes "dpc_rel D q s"
  shows "queue_holds s i xs \<longleftrightarrow> i < length (emulated_dpcs s) \<and> xs = q i"
    "in_queue d s \<longleftrightarrow> (\<exists>i < length (emulated_dpcs s). d \<in> set (q i))"
proof -
  show holds: "queue_holds s i xs \<longleftrightarrow> i < length (emulated_dpcs s) \<and> xs = q i" for i xs
    using dpc_relD(1) [OF assms, of i] dll_unique by (auto simp: queue_holds_def)
  show "in_queue d s \<longleftrightarrow> (\<exists>i < length (emulated_dpcs s). d \<in> set (q i))" by (auto simp: in_queue_def holds)
qed

text \<open>An insert of a queued DPC, and of one that is in no queue.\<close>

lemma insert_by_queue:
  assumes R: "dpc_rel D q s" and d: "d \<in> D" "i = unat (cpu_id (kdpcs s d))" "i < length (emulated_dpcs s)"
  shows "if in_queue d s then KeInsertQueueDpc d a b s = Inr (False, s)
         else \<exists>t. KeInsertQueueDpc d a b s = Inr (True, t) \<and> dpc_rel D (q(i := q i @ [d])) t \<and> emulated_dpcs t = emulated_dpcs s \<and>
                  kdpcs t = (kdpcs s)(d := (kdpcs s d)\<lparr>parameter_1 := a, parameter_2 := b\<rparr>)"
  using insert_queued [OF R d(1)] insert_unqueued [OF R d(1-3), of a b] d dpc_rel_holds(2) [OF R, of d]
  by (auto simp: KeInsertQueueDpc_def)

lemma insert_remove:
  assumes R: "dpc_rel D q s" and d: "d \<in> D" and e: "dpc_insert d a b s = Inr (True, t)"
  shows "\<exists>s'. dpc_remove d t = Inr (True, s') \<and> dpc_rel D q s' \<and> usersim_list_is_empty d (entries s')"
proof -
  let ?i = "unat (cpu_id (kdpcs s d))"
  have i: "?i < length (emulated_dpcs s)" by (rule insert_range [OF e])
  have free: "d \<notin> set (q j)" if "j < length (emulated_dpcs s)" for j
    using insert_queued [OF R d i, of j a b] that e by auto
  obtain t' where t': "dpc_insert d a b s = Inr (True, t')" "dpc_rel D (q(?i := q ?i @ [d])) t'"
      "same_cpus s t'" "kdpcs t' = (kdpcs s)(d := (kdpcs s d)\<lparr>parameter_1 := a, parameter_2 := b\<rparr>)"
    using insert_unqueued [OF R d refl i free, of a b] by blast
  have [simp]: "t' = t" using t'(1) e by simp
  obtain s' where s': "dpc_remove d t = Inr (True, s')"
      "dpc_rel D ((q(?i := q ?i @ [d]))(?i := remove1 d ((q(?i := q ?i @ [d])) ?i))) s'" "same_cpus t s'"
    using remove_queued [OF t'(2) d, of ?i] t'(3,4) i by auto
  moreover have "(q(?i := q ?i @ [d]))(?i := remove1 d ((q(?i := q ?i @ [d])) ?i)) = q"
    using free [OF i] by (intro ext) (simp add: remove1_append)
  ultimately have R': "dpc_rel D q s'" by simp
  then have "usersim_list_is_empty d (entries s')"
    using dpc_rel_is_empty [OF R', of d] d free s'(3) t'(3) by auto
  with s'(1) R' show ?thesis by blast
qed

text \<open>A concrete system: one CPU with its list nodes at 16 and 32, and a DPC at 256.\<close>

definition sample_nodes :: "(ptr \<times> ptr) list" where
  "sample_nodes = [(16, 32)]"

definition sample_kdpc :: kdpc where
  "sample_kdpc = \<lparr>dpc_context = 7, cpu_id = 0, parameter_1 = 0, parameter_2 = 0, work_item_routine = 9\<rparr>"

definition sample_dpcs :: dpc_state where
  "sample_dpcs = KeInitializeDpc 256 9 7
     (usersim_initialize_dpcs sample_nodes
        \<lparr>entries = \<lparr>Flink = \<lambda>_. 0, Blink = \<lambda>_. 0\<rparr>, kdpcs = \<lambda>_. sample_kdpc, emulated_dpcs = []\<rparr>)"

lemmas sample_eval = sample_dpcs_def sample_nodes_def sample_kdpc_def KeInitializeDpc_def
  usersim_initialize_dpcs_def emulated_dpc_construct_def usersim_list_initialize_def
  usersim_list_is_empty_def cpu_nodes_def

lemma sample_reachable: "dpc_reachable sample_nodes ({256}, sample_dpcs)"
proof -
  let ?s0 = "\<lparr>entries = \<lparr>Flink = \<lambda>_. 0, Blink = \<lambda>_. 0\<rparr>, kdpcs = \<lambda>_. sample_kdpc, emulated_dpcs = []\<rparr>"
  have "dpc_reachable sample_nodes ({}, usersim_initialize_dpcs sample_nodes ?s0)"
    by (rule init) simp
  moreover have "dpc_step ({}, usersim_initialize_dpcs sample_nodes ?s0) ({256}, sample_dpcs)"
    unfolding sample_dpcs_def by (rule step_call [OF call_initialize]) (simp_all add: sample_eval)
  ultimately show ?thesis by (rule step)
qed

text \<open>
  C4: in every reachable state of the DPC queues, \<^verbatim>\<open>KeInsertQueueDpc\<close> on an initialized DPC whose CPU exists fails no assertion. It returns FALSE and changes nothing if the DPC is linked into
  the queue of some CPU. Otherwise it returns TRUE, and the DPC is, with the given parameters, the last entry of the queue of its CPU, whose other entries are
  as before; the queues of the other CPUs hold what they held, and a second insert returns FALSE and changes nothing. The states are those reached by any interleaving
  of the worker threads and the DPC calls in which no DPC is initialized again while it is queued and no second flush of a queue starts while one waits.
\<close>
theorem KeInsertQueueDpc_once:
  assumes "dpc_reachable nodes (D, s)" "distinct (map fst nodes @ map snd nodes)"
    and "d \<in> D" "i = unat (cpu_id (kdpcs s d))" "i < length (emulated_dpcs s)"
  shows "if in_queue d s then KeInsertQueueDpc d a b s = Inr (False, s)
         else \<exists>t xs. KeInsertQueueDpc d a b s = Inr (True, t) \<and> queue_holds s i xs \<and> queue_holds t i (xs @ [d]) \<and>
                parameter_1 (kdpcs t d) = a \<and> parameter_2 (kdpcs t d) = b \<and>
                (\<forall>j ys. j \<noteq> i \<longrightarrow> queue_holds t j ys = queue_holds s j ys) \<and>
                in_queue d t \<and> KeInsertQueueDpc d a' b' t = Inr (False, t)"
proof -
  obtain q where R: "dpc_rel D q s" using dpc_reachable_rel [OF assms(1,2)] by blast
  note ins = insert_by_queue [OF R assms(3-5), of a b]
  show ?thesis
  proof (cases "in_queue d s")
    case False
    then obtain t where t: "KeInsertQueueDpc d a b s = Inr (True, t)" "dpc_rel D (q(i := q i @ [d])) t" "emulated_dpcs t = emulated_dpcs s"
        "kdpcs t = (kdpcs s)(d := (kdpcs s d)\<lparr>parameter_1 := a, parameter_2 := b\<rparr>)"
      using ins by auto
    have in_t: "in_queue d t" using dpc_rel_holds(2) [OF t(2), of d] t(3) assms(5) by auto
    have "KeInsertQueueDpc d a' b' t = Inr (False, t)"
      using insert_by_queue [OF t(2) assms(3), of i a' b'] in_t t(3,4) assms(4,5) by simp
    then show ?thesis
      using False t in_t assms(5) dpc_rel_holds(1) [OF R] dpc_rel_holds(1) [OF t(2)] by (auto intro!: exI [of _ t] exI [of _ "q i"])
  qed (use ins in simp)
qed

theorem KeInsertQueueDpc_once_witness:
  "\<exists>t. KeInsertQueueDpc 256 1 2 sample_dpcs = Inr (True, t) \<and> queue_holds t 0 [256] \<and>
       KeInsertQueueDpc 256 3 4 t = Inr (False, t)"
proof -
  have hold: "queue_holds sample_dpcs 0 xs \<longleftrightarrow> xs = []" for xs
  proof -
    have "dll (entries sample_dpcs) (head (emulated_dpcs sample_dpcs ! 0)) []" "0 < length (emulated_dpcs sample_dpcs)"
      by (simp_all add: sample_eval dll_def)
    then show ?thesis using dll_unique by (auto simp: queue_holds_def)
  qed
  have one: "length (emulated_dpcs sample_dpcs) = 1" "unat (cpu_id (kdpcs sample_dpcs 256)) = 0" by (simp_all add: sample_eval)
  have "\<not> in_queue 256 sample_dpcs"
  proof
    assume "in_queue 256 sample_dpcs"
    then obtain i xs where i: "queue_holds sample_dpcs i xs" "256 \<in> set xs" by (auto simp: in_queue_def)
    then have "i = 0" using one(1) by (simp add: queue_holds_def)
    with i hold show False by simp
  qed
  moreover have "distinct (map fst sample_nodes @ map snd sample_nodes)" by (simp add: sample_nodes_def)
  ultimately show ?thesis
    using KeInsertQueueDpc_once [OF sample_reachable, of 256 0 1 2 3 4] one unfolding hold by auto
qed

text \<open>
  \<^verbatim>\<open>KeRemoveQueueDpc\<close> undoes \<^verbatim>\<open>KeInsertQueueDpc\<close>: after a successful insert it returns TRUE, the
  DPC is in no queue again, and the queue of every CPU holds the same entries in the same order as
  before the insert.
\<close>
theorem KeRemoveQueueDpc_undoes_insert:
  assumes "dpc_rel D q s" "d \<in> D" "KeInsertQueueDpc d a b s = Inr (True, t)"
  shows "\<exists>s'. KeRemoveQueueDpc d t = Inr (True, s') \<and> dpc_rel D q s' \<and>
              usersim_list_is_empty d (entries s')"
  using insert_remove [OF assms(1,2), of a b t] assms(3)
  by (simp add: KeInsertQueueDpc_def KeRemoveQueueDpc_def)

theorem KeRemoveQueueDpc_undoes_insert_witness:
  "\<exists>t s'. KeInsertQueueDpc 256 1 2 sample_dpcs = Inr (True, t) \<and>
          KeRemoveQueueDpc 256 t = Inr (True, s') \<and> usersim_list_is_empty 256 (entries s')"
proof -
  obtain q where q: "dpc_rel {256} q sample_dpcs"
    using dpc_reachable_rel [OF sample_reachable] by (auto simp: sample_nodes_def)
  obtain t where "KeInsertQueueDpc 256 1 2 sample_dpcs = Inr (True, t)"
    by (simp add: KeInsertQueueDpc_def dpc_insert_def dpc_queue_def usersim_list_insert_tail_def
        sample_eval Let_def)
  with KeRemoveQueueDpc_undoes_insert [OF q _ this] show ?thesis by blast
qed

text \<open>
  C1: \<^verbatim>\<open>KeFlushQueuedDpcs\<close> returns, and before it does every worker has run exactly the DPCs that were
  queued on its CPU, each once, in queue order, with the context and parameters stored at insertion;
  all queues are empty afterwards. A worker needs one iteration per queued DPC and one for the marker,
  which is what \<open>fuel\<close> bounds. No other flush is in progress.
\<close>
theorem KeFlushQueuedDpcs_runs_all:
  assumes "dpc_rel D q s"
    and "\<And>i. i < length (emulated_dpcs s) \<Longrightarrow>
           \<not> terminate (emulated_dpcs s ! i) \<and> flush_entry (emulated_dpcs s ! i) \<notin> set (q i) \<and>
           length (q i) < fuel"
  shows "\<exists>s'. KeFlushQueuedDpcs fuel s =
                Some (concat (map (\<lambda>i. map (run_event s) (q i) @ [Flushed]) [0..<length (emulated_dpcs s)]), s') \<and>
              (\<forall>c \<in> set (emulated_dpcs s). usersim_list_is_empty (head c) (entries s'))"
proof -
  let ?n = "length (emulated_dpcs s)"
  obtain s' where s': "flush_queues fuel (drop 0 (emulated_dpcs s)) s =
      Some (concat (map (\<lambda>i. map (run_event s) (q i) @ [Flushed]) [0..<?n]), s')"
    "dpc_rel D (\<lambda>i. if 0 \<le> i \<and> i < ?n then [] else q i) s'" "same_cpus s s'"
    using flush_queues_runs [OF _ assms, of 0] by blast
  have "usersim_list_is_empty (head (emulated_dpcs s ! i)) (entries s')" if "i < ?n" for i
    using dpc_relD(1) [OF s'(2), of i] s'(3) that by (simp add: is_empty_dll)
  then show ?thesis using s'(1) by (auto simp: KeFlushQueuedDpcs_def in_set_conv_nth)
qed

lemma sample_rel: "dpc_rel {256} (\<lambda>_. []) sample_dpcs"
proof -
  let ?s0 = "\<lparr>entries = \<lparr>Flink = \<lambda>_. 0, Blink = \<lambda>_. 0\<rparr>, kdpcs = \<lambda>_. sample_kdpc, emulated_dpcs = []\<rparr>"
  have "dpc_rel {} (\<lambda>_. []) (usersim_initialize_dpcs sample_nodes ?s0)"
    by (rule initialize_dpcs_rel [OF no_cpus_rel]) (simp_all add: sample_eval)
  from initialize_dpc_rel [OF this, of 256 9 7] show ?thesis
    unfolding sample_dpcs_def by (simp add: sample_eval)
qed

lemma sample_inserted:
  obtains t where "KeInsertQueueDpc 256 1 2 sample_dpcs = Inr (True, t)" "dpc_rel {256} ((\<lambda>_. [])(0 := [256])) t" "same_cpus sample_dpcs t"
    "kdpcs t = (kdpcs sample_dpcs)(256 := (kdpcs sample_dpcs 256)\<lparr>parameter_1 := 1, parameter_2 := 2\<rparr>)"
proof -
  have "unat (cpu_id (kdpcs sample_dpcs 256)) < length (emulated_dpcs sample_dpcs)" by (simp add: sample_eval)
  from insert_unqueued [OF sample_rel _ refl this, of 1 2] show ?thesis
    by (auto simp: sample_eval KeInsertQueueDpc_def intro: that)
qed

theorem KeFlushQueuedDpcs_runs_all_witness:
  "\<exists>t s'. KeInsertQueueDpc 256 1 2 sample_dpcs = Inr (True, t) \<and>
          KeFlushQueuedDpcs 2 t = Some ([Ran 256 9 7 1 2, Flushed], s')"
proof -
  obtain t where t: "KeInsertQueueDpc 256 1 2 sample_dpcs = Inr (True, t)" "dpc_rel {256} ((\<lambda>_. [])(0 := [256])) t"
      "same_cpus sample_dpcs t" "kdpcs t = (kdpcs sample_dpcs)(256 := (kdpcs sample_dpcs 256)\<lparr>parameter_1 := 1, parameter_2 := 2\<rparr>)"
    by (rule sample_inserted)
  from KeFlushQueuedDpcs_runs_all [OF t(2), of 2] t(3,4)
  have "\<exists>s'. KeFlushQueuedDpcs 2 t = Some ([Ran 256 9 7 1 2, Flushed], s')"
    by (auto simp: sample_eval run_event_def)
  with t(1) show ?thesis by auto
qed

text \<open>Two threads flush the same CPU: the second one re-initializes the marker while it is linked.\<close>

definition concurrent_flush :: "(dpc_event list \<times> dpc_state) result" where
  "concurrent_flush =
     (let s0 = KeInitializeDpc 512 9 8 sample_dpcs; q = emulated_dpcs s0 ! 0 in
      case KeInsertQueueDpc 256 1 2 s0 of Inl e \<Rightarrow> Inl e | Inr (_, s1) \<Rightarrow>
      (case flush_queue_begin q s1 of Inl e \<Rightarrow> Inl e | Inr s2 \<Rightarrow>
      (case KeInsertQueueDpc 512 3 4 s2 of Inl e \<Rightarrow> Inl e | Inr (_, s3) \<Rightarrow>
      (case flush_queue_begin q s3 of Inl e \<Rightarrow> Inl e | Inr s4 \<Rightarrow> Inr (dpc_thread_run 3 q s4)))))"

text \<open>
  when a second thread flushes a CPU whose flush marker is still queued, a DPC that was inserted
  between the two flushes is lost. The worker runs the first DPC, processes the marker and finds the
  queue empty; the second DPC is never run, its entry stays linked, and so it can not be queued again.
\<close>
theorem concurrent_flush_loses_dpc:
  "\<exists>s. concurrent_flush = Inr ([Ran 256 9 7 1 2, Flushed, Waits], s) \<and>
       \<not> usersim_list_is_empty 512 (entries s) \<and> KeInsertQueueDpc 512 5 6 s = Inr (False, s)"
  by (simp add: concurrent_flush_def sample_eval KeInsertQueueDpc_def dpc_insert_def dpc_queue_def
      usersim_list_insert_tail_def flush_queue_begin_def dpc_thread_step_def
      usersim_list_remove_head_entry_def Let_def numeral_3_eq_3)

end
