(* ===== verification/Processor.thy ===== *)
theory Processor
  imports Usersim_Prelude
begin

text \<open>
  Processor numbering: the group table of \<^verbatim>\<open>src/platform_user.cpp\<close> with
  \<^verbatim>\<open>KeGetProcessorIndexFromNumber\<close> and \<^verbatim>\<open>KeGetProcessorNumberFromIndex\<close>, and the table that
  \<^verbatim>\<open>cxplat/src/cxplat_winuser/processor_winuser.cpp\<close> keeps for the same purpose. The operating system
  is a parameter: \<open>cnt g\<close> is \<^verbatim>\<open>GetMaximumProcessorCount(g)\<close>. The locale \<open>processor_numbering\<close>
  states what the interrupt level code relies on: indices and numbers are in bijection.
\<close>

section \<open>State and operations\<close>

record processor_number =
  pn_Group :: u16
  pn_Number :: u8

text \<open>The loop that fills \<^verbatim>\<open>_usersim_platform_group_to_index_map\<close>: \<open>n\<close> groups from group \<open>i\<close> on.\<close>

fun fill_group_map :: "(u16 \<Rightarrow> u32) \<Rightarrow> nat \<Rightarrow> nat \<Rightarrow> u32 \<Rightarrow> u32 list" where
  "fill_group_map cnt i 0 base_index = []"
| "fill_group_map cnt i (Suc n) base_index =
     base_index # fill_group_map cnt (Suc i) n (base_index + cnt (word_of_nat i))"

definition group_to_index_map :: "(u16 \<Rightarrow> u32) \<Rightarrow> u32 \<Rightarrow> u32 list" where
  "group_to_index_map cnt group_count = fill_group_map cnt 0 (unat group_count) 0"

definition KeGetProcessorIndexFromNumber :: "u32 list \<Rightarrow> processor_number \<Rightarrow> u32 result" where
  "KeGetProcessorIndexFromNumber gmap proc =
     (if unat (pn_Group proc) < length gmap
      then Inr (gmap ! unat (pn_Group proc) + ucast (pn_Number proc)) else Inl Out_Of_Bounds)"

text \<open>\<^verbatim>\<open>KeGetCurrentProcessorNumberEx\<close>: \<open>current\<close> is what \<^verbatim>\<open>GetCurrentProcessorNumberEx\<close> reports.\<close>

definition KeGetCurrentProcessorNumberEx ::
  "u32 list \<Rightarrow> processor_number \<Rightarrow> (u32 \<times> processor_number) result" where
  "KeGetCurrentProcessorNumberEx gmap current =
     (case KeGetProcessorIndexFromNumber gmap current of Inl e \<Rightarrow> Inl e | Inr i \<Rightarrow> Inr (i, current))"

text \<open>The search loop: the first position from \<open>i\<close> on whose base index is greater than the index.\<close>

fun first_group_above :: "u32 \<Rightarrow> nat \<Rightarrow> u32 list \<Rightarrow> nat option" where
  "first_group_above idx i [] = None"
| "first_group_above idx i (b # bs) = (if idx < b then Some i else first_group_above idx (Suc i) bs)"

definition KeGetProcessorNumberFromIndex ::
  "u32 \<Rightarrow> u32 list \<Rightarrow> u32 \<Rightarrow> (ntstatus \<times> processor_number option) result" where
  "KeGetProcessorNumberFromIndex maximum_processor_count gmap idx =
     (if idx \<ge> maximum_processor_count then Inr (STATUS_INVALID_PARAMETER, None)
      else case first_group_above idx 0 gmap of
             Some 0 \<Rightarrow> Inl Out_Of_Bounds
           | Some (Suc i) \<Rightarrow>
               Inr (STATUS_SUCCESS, Some \<lparr>pn_Group = word_of_nat i, pn_Number = ucast (idx - gmap ! i)\<rparr>)
           | None \<Rightarrow>
               if gmap = [] then Inl Out_Of_Bounds
               else Inr (STATUS_SUCCESS, Some \<lparr>pn_Group = word_of_nat (length gmap - 1),
                                              pn_Number = ucast (idx - last gmap)\<rparr>))"

section \<open>The cxplat table\<close>

record processor_group_info =
  gi_Mask :: u64
  gi_Offset :: u32

text \<open>
  The loop of \<^verbatim>\<open>cxplat_winuser_initialize_processor_info\<close> over the \<^verbatim>\<open>GroupInfo\<close> array that
  \<^verbatim>\<open>GetLogicalProcessorInformationEx\<close> returns: pairs of \<^verbatim>\<open>ActiveProcessorMask\<close> and
  \<^verbatim>\<open>MaximumProcessorCount\<close> (a byte). The allocations may fail, which is the argument \<open>alloc\<close>.
\<close>

fun fill_group_info :: "(u64 \<times> u8) list \<Rightarrow> u32 \<Rightarrow> processor_group_info list" where
  "fill_group_info [] current_processor_count = []"
| "fill_group_info ((m, n) # gs) current_processor_count =
     \<lparr>gi_Mask = m, gi_Offset = current_processor_count\<rparr> #
     fill_group_info gs (current_processor_count + ucast n)"

datatype processor_query = Query_Failed u32 | Query_Ok "(u64 \<times> u8) list"

datatype cxplat_status = Cxplat_Success | Cxplat_No_Memory | Cxplat_From_Win32 u32

definition get_processor_group_info ::
  "u32 \<Rightarrow> u32 \<Rightarrow> bool \<Rightarrow> processor_query \<Rightarrow> cxplat_status \<times> (u64 \<times> u8) list option" where
  "get_processor_group_info buffer_length last_error alloc query =
     (if buffer_length = 0 then (Cxplat_From_Win32 last_error, None)
      else if \<not> alloc then (Cxplat_No_Memory, None)
      else case query of
             Query_Failed e \<Rightarrow> (Cxplat_From_Win32 e, None)
           | Query_Ok gs \<Rightarrow> (Cxplat_Success, Some gs))"

definition cxplat_winuser_initialize_processor_info ::
  "u32 \<Rightarrow> u32 \<Rightarrow> bool \<Rightarrow> processor_query \<Rightarrow> bool \<Rightarrow> cxplat_status \<times> processor_group_info list option" where
  "cxplat_winuser_initialize_processor_info buffer_length last_error alloc1 query alloc2 =
     (case get_processor_group_info buffer_length last_error alloc1 query of
        (status, None) \<Rightarrow> (status, None)
      | (status, Some gs) \<Rightarrow>
          if \<not> alloc2 then (Cxplat_No_Memory, None)
          else (Cxplat_Success, Some (fill_group_info gs 0)))"

definition cxplat_get_current_processor_number ::
  "processor_group_info list \<Rightarrow> processor_number \<Rightarrow> u32 result" where
  "cxplat_get_current_processor_number info current =
     (if unat (pn_Group current) < length info
      then Inr (gi_Offset (info ! unat (pn_Group current)) + ucast (pn_Number current))
      else Inl Out_Of_Bounds)"

section \<open>Base indices\<close>

text \<open>The first index of group \<open>i\<close>, as an unbounded number.\<close>

definition base :: "(u16 \<Rightarrow> u32) \<Rightarrow> nat \<Rightarrow> nat" where
  "base cnt i = (\<Sum>j < i. unat (cnt (word_of_nat j)))"

lemma base_simps [simp]:
  "base cnt 0 = 0" "base cnt (Suc i) = base cnt i + unat (cnt (word_of_nat i))"
  by (simp_all add: base_def)

lemma base_mono: "i \<le> j \<Longrightarrow> base cnt i \<le> base cnt j"
  by (auto simp: base_def intro: sum_mono2)

lemma length_fill_group_map [simp]: "length (fill_group_map cnt i n b) = n"
  by (induction n arbitrary: i b) auto

lemma fill_group_map_nth:
  "j < n \<Longrightarrow> fill_group_map cnt i n (word_of_nat (base cnt i)) ! j = word_of_nat (base cnt (i + j))"
proof (induction n arbitrary: i j)
  case 0
  then show ?case by simp
next
  case (Suc n)
  have "word_of_nat (base cnt i) + cnt (word_of_nat i) = (word_of_nat (base cnt (Suc i)) :: u32)" by simp
  then show ?case using Suc.IH [of _ "Suc i"] Suc.prems by (cases j) (auto simp del: base_simps)
qed

lemma length_group_map [simp]: "length (group_to_index_map cnt n) = unat n"
  by (simp add: group_to_index_map_def)

text \<open>
  What Windows documents of \<^verbatim>\<open>GetMaximumProcessorCount\<close>: there is at least one group, a group holds at
  most 64 processors, group numbers are 16-bit, and the count over all groups is the sum.
\<close>

definition processor_counts_ok :: "(u16 \<Rightarrow> u32) \<Rightarrow> u32 \<Rightarrow> u32 \<Rightarrow> bool" where
  "processor_counts_ok cnt group_count tot \<longleftrightarrow>
     0 < unat group_count \<and> unat group_count \<le> 2 ^ 16 \<and>
     (\<forall>i < unat group_count. unat (cnt (word_of_nat i)) \<le> 64) \<and>
     unat tot = base cnt (unat group_count)"

lemma group_map_nth:
  assumes "processor_counts_ok cnt n tot" "i < unat n"
  shows "unat (group_to_index_map cnt n ! i) = base cnt i"
proof -
  have "base cnt i \<le> unat tot"
    using assms base_mono [of i "unat n" cnt] by (simp add: processor_counts_ok_def)
  also have "\<dots> < 2 ^ 32" using unsigned_less [of tot] by simp
  finally have lt: "base cnt i < 2 ^ 32" .
  have "group_to_index_map cnt n ! i = word_of_nat (base cnt i)"
    using fill_group_map_nth [of i "unat n" cnt 0] assms(2) by (simp add: group_to_index_map_def)
  with lt show ?thesis by (simp add: unat_of_nat take_bit_nat_eq_self)
qed

text \<open>The search finds the group whose range holds the index.\<close>

lemma first_group_above_Some:
  assumes "k < length bs" "idx < bs ! k" "\<And>j. j < k \<Longrightarrow> bs ! j \<le> idx"
  shows "first_group_above idx i bs = Some (i + k)"
  using assms
proof (induction bs arbitrary: i k)
  case Nil
  then show ?case by simp
next
  case (Cons b bs)
  show ?case
  proof (cases k)
    case 0
    with Cons.prems show ?thesis by simp
  next
    case (Suc k')
    have "b \<le> idx" using Cons.prems(3) [of 0] Suc by simp
    moreover have "first_group_above idx (Suc i) bs = Some (Suc i + k')"
      using Cons.prems Suc by (intro Cons.IH) fastforce+
    ultimately show ?thesis using Suc by simp
  qed
qed

lemma first_group_above_None:
  "(\<And>b. b \<in> set bs \<Longrightarrow> b \<le> idx) \<Longrightarrow> first_group_above idx i bs = None"
  by (induction bs arbitrary: i) (auto simp: not_less)

lemma number_from_index_in_group:
  assumes ok: "processor_counts_ok cnt n tot" and g: "g < unat n"
    and idx: "base cnt g \<le> unat idx" "unat idx < base cnt (Suc g)"
  shows "KeGetProcessorNumberFromIndex tot (group_to_index_map cnt n) idx =
           Inr (STATUS_SUCCESS, Some \<lparr>pn_Group = word_of_nat g, pn_Number = word_of_nat (unat idx - base cnt g)\<rparr>)"
proof -
  let ?m = "group_to_index_map cnt n"
  note nth = group_map_nth [OF ok]
  have le: "\<not> tot \<le> idx"
    using idx(2) g base_mono [of "Suc g" "unat n" cnt] ok
    by (auto simp: processor_counts_ok_def word_le_nat_alt)
  have below: "?m ! j \<le> idx" if "j \<le> g" for j
    using that g nth [of j] base_mono [of j g cnt] idx(1) by (simp add: word_le_nat_alt)
  have num: "ucast (idx - ?m ! g) = (word_of_nat (unat idx - base cnt g) :: u8)"
  proof -
    have "unat (idx - ?m ! g) = unat idx - base cnt g"
      using below [of g] nth [OF g] by (simp add: unat_sub)
    then show ?thesis using of_nat_unat [of "idx - ?m ! g"] by metis
  qed
  show ?thesis
  proof (cases "Suc g < unat n")
    case True
    have "idx < ?m ! Suc g" using nth [OF True] idx(2) by (simp add: word_less_nat_alt)
    then have "first_group_above idx 0 ?m = Some (0 + Suc g)"
      by (intro first_group_above_Some) (use True below in auto)
    then show ?thesis using le num by (simp add: KeGetProcessorNumberFromIndex_def)
  next
    case False
    then have n: "unat n = Suc g" using g by simp
    have "first_group_above idx 0 ?m = None"
      by (intro first_group_above_None) (use below n in \<open>auto simp: in_set_conv_nth less_Suc_eq_le\<close>)
    moreover have "?m \<noteq> []" "last ?m = ?m ! g"
      using n by (auto simp: last_conv_nth length_0_conv [symmetric] simp del: length_0_conv)
    ultimately show ?thesis using le num n by (simp add: KeGetProcessorNumberFromIndex_def)
  qed
qed

lemma index_in_some_group:
  assumes "k < base cnt n"
  obtains g where "g < n" "base cnt g \<le> k" "k < base cnt (Suc g)"
  using assms
proof (induction n)
  case 0
  then show ?case by simp
next
  case (Suc n)
  show ?case
  proof (cases "k < base cnt n")
    case True
    then show ?thesis using Suc by (metis less_SucI)
  next
    case False
    then show ?thesis using Suc.prems by (metis lessI not_less)
  qed
qed

lemma index_from_number_in_group:
  assumes ok: "processor_counts_ok cnt n tot" and g: "g < unat n"
    and k: "k < unat (cnt (word_of_nat g))"
  shows "\<exists>idx. KeGetProcessorIndexFromNumber (group_to_index_map cnt n)
                 \<lparr>pn_Group = word_of_nat g, pn_Number = word_of_nat k\<rparr> = Inr idx \<and>
               unat idx = base cnt g + k"
proof -
  have "g < 2 ^ 16" "k < 2 ^ 8"
    using ok g k by (auto simp: processor_counts_ok_def dest!: spec [of _ g])
  then have u: "unat (word_of_nat g :: u16) = g" "unat (word_of_nat k :: u8) = k"
    by (simp_all add: unat_of_nat take_bit_nat_eq_self)
  have "base cnt g + k < base cnt (Suc g)" using k by simp
  also have "\<dots> \<le> unat tot"
    using ok g base_mono [of "Suc g" "unat n" cnt] by (simp add: processor_counts_ok_def)
  also have "\<dots> < 2 ^ 32" using unsigned_less [of tot] by simp
  finally have lt: "base cnt g + k < 2 ^ 32" .
  let ?w = "group_to_index_map cnt n ! g + ucast (word_of_nat k :: u8)"
  have "unat ?w = base cnt g + k"
    using lt u group_map_nth [OF ok g]
    by (simp add: unat_word_ariths unsigned_ucast_eq take_bit_nat_eq_self)
  then show ?thesis using u g by (simp add: KeGetProcessorIndexFromNumber_def)
qed

section \<open>The numbering contract\<close>

text \<open>
  What clients rely on, for a system configuration \<open>c\<close>: every processor number that exists has an
  index below the processor count, every such index is the index of a processor, and the two
  conversions are inverse to each other.
\<close>

locale processor_numbering =
  fixes ok :: "'c \<Rightarrow> bool"
    and processor_count :: "'c \<Rightarrow> u32"
    and valid :: "'c \<Rightarrow> processor_number \<Rightarrow> bool"
    and index_of :: "'c \<Rightarrow> processor_number \<Rightarrow> u32 result"
    and number_of :: "'c \<Rightarrow> u32 \<Rightarrow> (ntstatus \<times> processor_number option) result"
  assumes index_number: "ok c \<Longrightarrow> valid c p \<Longrightarrow>
            \<exists>i. index_of c p = Inr i \<and> i < processor_count c \<and>
                number_of c i = Inr (STATUS_SUCCESS, Some p)"
    and number_index: "ok c \<Longrightarrow> i < processor_count c \<Longrightarrow>
            \<exists>p. number_of c i = Inr (STATUS_SUCCESS, Some p) \<and> valid c p \<and> index_of c p = Inr i"
begin

lemma index_inj:
  assumes "ok c" "valid c p" "valid c q" "index_of c p = index_of c q"
  shows "p = q"
proof -
  obtain i where i: "index_of c p = Inr i" "number_of c i = Inr (STATUS_SUCCESS, Some p)"
    using index_number [OF assms(1,2)] by blast
  obtain j where j: "index_of c q = Inr j" "number_of c j = Inr (STATUS_SUCCESS, Some q)"
    using index_number [OF assms(1,3)] by blast
  from i j assms(4) show ?thesis by simp
qed

end

text \<open>The configuration: the counts of the operating system, the number of groups and of processors.\<close>

type_synonym processor_config = "(u16 \<Rightarrow> u32) \<times> u32 \<times> u32"

definition config_ok :: "processor_config \<Rightarrow> bool" where
  "config_ok = (\<lambda>(cnt, n, tot). processor_counts_ok cnt n tot)"

definition processor_exists :: "processor_config \<Rightarrow> processor_number \<Rightarrow> bool" where
  "processor_exists = (\<lambda>(cnt, n, tot) p.
     unat (pn_Group p) < unat n \<and> unat (pn_Number p) < unat (cnt (pn_Group p)))"

definition config_map :: "processor_config \<Rightarrow> u32 list" where
  "config_map = (\<lambda>(cnt, n, tot). group_to_index_map cnt n)"

definition config_count :: "processor_config \<Rightarrow> u32" where
  "config_count = (\<lambda>(cnt, n, tot). tot)"

lemma config_index_number:
  assumes ok: "config_ok c" and p: "processor_exists c p"
  shows "\<exists>i. KeGetProcessorIndexFromNumber (config_map c) p = Inr i \<and> i < config_count c \<and>
             KeGetProcessorNumberFromIndex (config_count c) (config_map c) i = Inr (STATUS_SUCCESS, Some p)"
proof -
  obtain cnt n tot where c: "c = (cnt, n, tot)" by (cases c)
  let ?g = "unat (pn_Group p)" and ?k = "unat (pn_Number p)"
  have pg: "p = \<lparr>pn_Group = word_of_nat ?g, pn_Number = word_of_nat ?k\<rparr>" by simp
  have ok': "processor_counts_ok cnt n tot" and g: "?g < unat n" and k: "?k < unat (cnt (word_of_nat ?g))"
    using ok p c by (auto simp: config_ok_def processor_exists_def)
  obtain i where i: "KeGetProcessorIndexFromNumber (group_to_index_map cnt n) p = Inr i"
      "unat i = base cnt ?g + ?k"
    using index_from_number_in_group [OF ok' g k] pg by metis
  have r: "base cnt ?g \<le> unat i" "unat i < base cnt (Suc ?g)" using i(2) k by simp_all
  have "i < tot" using r(2) base_mono [of "Suc ?g" "unat n" cnt] g ok'
    by (simp add: processor_counts_ok_def word_less_nat_alt)
  then show ?thesis using number_from_index_in_group [OF ok' g r] i pg c
    by (simp add: config_map_def config_count_def)
qed

lemma config_number_index:
  assumes ok: "config_ok c" and i: "i < config_count c"
  shows "\<exists>p. KeGetProcessorNumberFromIndex (config_count c) (config_map c) i = Inr (STATUS_SUCCESS, Some p) \<and>
             processor_exists c p \<and> KeGetProcessorIndexFromNumber (config_map c) p = Inr i"
proof -
  obtain cnt n tot where c: "c = (cnt, n, tot)" by (cases c)
  have ok': "processor_counts_ok cnt n tot" using ok c by (simp add: config_ok_def)
  have "unat i < base cnt (unat n)"
    using i c ok' by (simp add: config_count_def processor_counts_ok_def word_less_nat_alt)
  then obtain g where g: "g < unat n" "base cnt g \<le> unat i" "unat i < base cnt (Suc g)"
    by (rule index_in_some_group)
  let ?k = "unat i - base cnt g"
  let ?p = "\<lparr>pn_Group = word_of_nat g, pn_Number = word_of_nat ?k\<rparr> :: processor_number"
  have k: "?k < unat (cnt (word_of_nat g))" using g by simp
  have "g < 2 ^ 16" "?k < 2 ^ 8"
    using ok' g(1) k by (auto simp: processor_counts_ok_def dest!: spec [of _ g])
  then have u: "unat (pn_Group ?p) = g" "unat (pn_Number ?p) = ?k"
    by (simp_all add: unat_of_nat take_bit_nat_eq_self)
  obtain j where j: "KeGetProcessorIndexFromNumber (group_to_index_map cnt n) ?p = Inr j"
      "unat j = base cnt g + ?k"
    using index_from_number_in_group [OF ok' g(1) k] by blast
  then have "j = i" using g(2) by (simp add: word_unat_eq_iff)
  moreover have "processor_exists c ?p" using c g(1) k u by (simp add: processor_exists_def)
  ultimately show ?thesis using number_from_index_in_group [OF ok' g] j(1) c
    by (auto simp: config_map_def config_count_def)
qed

interpretation ke_numbering: processor_numbering config_ok config_count processor_exists
  "\<lambda>c. KeGetProcessorIndexFromNumber (config_map c)"
  "\<lambda>c. KeGetProcessorNumberFromIndex (config_count c) (config_map c)"
  by unfold_locales (rule config_index_number config_number_index; assumption)+

section \<open>Properties\<close>

text \<open>
  C29: \<^verbatim>\<open>KeGetProcessorIndexFromNumber\<close> and \<^verbatim>\<open>KeGetProcessorNumberFromIndex\<close> are inverse bijections
  between the processors of all groups and the indices below the processor count: the first is injective
  on existing processors, the second maps an index to an existing processor with that index, and an index
  that is not below the count is refused with \<^verbatim>\<open>STATUS_INVALID_PARAMETER\<close>.
\<close>
theorem processor_number_roundtrip:
  assumes "config_ok c"
  shows "\<forall>i. if i < config_count c
             then \<exists>p. KeGetProcessorNumberFromIndex (config_count c) (config_map c) i =
                         Inr (STATUS_SUCCESS, Some p) \<and>
                      processor_exists c p \<and> KeGetProcessorIndexFromNumber (config_map c) p = Inr i \<and>
                      (\<forall>q. processor_exists c q \<longrightarrow> KeGetProcessorIndexFromNumber (config_map c) q = Inr i \<longrightarrow> q = p)
             else KeGetProcessorNumberFromIndex (config_count c) (config_map c) i =
                    Inr (STATUS_INVALID_PARAMETER, None)"
proof
  fix i
  have "\<exists>p. KeGetProcessorNumberFromIndex (config_count c) (config_map c) i = Inr (STATUS_SUCCESS, Some p) \<and>
      processor_exists c p \<and> KeGetProcessorIndexFromNumber (config_map c) p = Inr i \<and>
      (\<forall>q. processor_exists c q \<longrightarrow> KeGetProcessorIndexFromNumber (config_map c) q = Inr i \<longrightarrow> q = p)"
    if "i < config_count c"
    using ke_numbering.number_index [OF assms that] ke_numbering.index_inj [OF assms] by metis
  moreover have "KeGetProcessorNumberFromIndex (config_count c) (config_map c) i =
      Inr (STATUS_INVALID_PARAMETER, None)" if "\<not> i < config_count c"
    using that by (simp add: KeGetProcessorNumberFromIndex_def not_less)
  ultimately show "if i < config_count c
      then \<exists>p. KeGetProcessorNumberFromIndex (config_count c) (config_map c) i =
                  Inr (STATUS_SUCCESS, Some p) \<and>
               processor_exists c p \<and> KeGetProcessorIndexFromNumber (config_map c) p = Inr i \<and>
               (\<forall>q. processor_exists c q \<longrightarrow> KeGetProcessorIndexFromNumber (config_map c) q = Inr i \<longrightarrow> q = p)
      else KeGetProcessorNumberFromIndex (config_count c) (config_map c) i =
             Inr (STATUS_INVALID_PARAMETER, None)" by simp
qed

text \<open>A machine with a group of 64 processors and a group of 8.\<close>

definition two_groups :: processor_config where
  "two_groups = (\<lambda>g. if g = 0 then 64 else 8, 2, 72)"

lemma two_groups_ok: "config_ok two_groups"
proof -
  have "base (\<lambda>g. if g = 0 then 64 else 8) 2 = 72" unfolding numeral_2_eq_2 base_simps by simp
  then show ?thesis by (simp add: config_ok_def two_groups_def processor_counts_ok_def)
qed

theorem processor_number_roundtrip_witness:
  "config_ok two_groups \<and>
   (\<exists>p. KeGetProcessorNumberFromIndex (config_count two_groups) (config_map two_groups) 70 =
          Inr (STATUS_SUCCESS, Some p) \<and>
        KeGetProcessorIndexFromNumber (config_map two_groups) p = Inr 70)"
  using processor_number_roundtrip [OF two_groups_ok, rule_format, of 70] two_groups_ok
  by (auto simp: config_count_def two_groups_def)

lemma fill_group_info_map:
  "(\<And>j. j < length gs \<Longrightarrow> ucast (snd (gs ! j)) = cnt (word_of_nat (i + j))) \<Longrightarrow>
   map gi_Offset (fill_group_info gs b) = fill_group_map cnt i (length gs) b"
proof (induction gs arbitrary: i b)
  case Nil
  then show ?case by simp
next
  case (Cons g gs)
  obtain m k where g: "g = (m, k)" by (cases g)
  have "ucast (snd (gs ! j)) = cnt (word_of_nat (Suc i + j))" if "j < length gs" for j
    using Cons.prems [of "Suc j"] that by simp
  from Cons.IH [OF this] Cons.prems [of 0] g show ?case by simp
qed

text \<open>
  C32: the processor index that \<^verbatim>\<open>cxplat_get_current_processor_number\<close> computes from its own table is
  the index of \<^verbatim>\<open>KeGetCurrentProcessorNumberEx\<close>, when the two system calls that fill the tables report
  the same number of processors for every group.
\<close>
theorem processor_tables_agree:
  assumes "length gs = unat n"
    and "\<And>j. j < length gs \<Longrightarrow> ucast (snd (gs ! j)) = cnt (word_of_nat j)"
    and "cxplat_winuser_initialize_processor_info len err True (Query_Ok gs) True =
           (Cxplat_Success, Some info)"
  shows "cxplat_get_current_processor_number info p =
           map_sum id fst (KeGetCurrentProcessorNumberEx (group_to_index_map cnt n) p)"
proof -
  have info: "info = fill_group_info gs 0"
    using assms(3) by (auto simp: cxplat_winuser_initialize_processor_info_def
        get_processor_group_info_def split: if_splits)
  have m: "map gi_Offset info = group_to_index_map cnt n"
    using fill_group_info_map [of gs cnt 0 0] assms(1,2) info by (simp add: group_to_index_map_def)
  then have "length info = length (group_to_index_map cnt n)" by (metis length_map)
  moreover have "gi_Offset (info ! k) = group_to_index_map cnt n ! k" if "k < length info" for k
    using m that by (metis nth_map)
  ultimately show ?thesis
    by (simp add: cxplat_get_current_processor_number_def KeGetCurrentProcessorNumberEx_def
        KeGetProcessorIndexFromNumber_def)
qed

theorem processor_tables_agree_witness:
  "cxplat_get_current_processor_number (fill_group_info [(255, 8), (3, 2)] 0) \<lparr>pn_Group = 1, pn_Number = 1\<rparr> =
   map_sum id fst (KeGetCurrentProcessorNumberEx
     (group_to_index_map (\<lambda>g. if g = 0 then 8 else 2) 2) \<lparr>pn_Group = 1, pn_Number = 1\<rparr>)"
  by (rule processor_tables_agree [of "[(255, 8), (3, 2)]" _ _ 8 0])
    (auto simp: cxplat_winuser_initialize_processor_info_def get_processor_group_info_def
      less_Suc_eq)

end
