(* ===== verification/Irql.thy ===== *)
theory Irql
  imports Processor
begin

text \<open>
  Interrupt levels, thread affinity and spin locks of \<^verbatim>\<open>src/ke.cpp\<close> (regions \<^verbatim>\<open>irqls\<close>, \<^verbatim>\<open>spin_locks\<close> and
  \<^verbatim>\<open>threads\<close>). A thread record holds the \<^verbatim>\<open>thread_local\<close> variables and what the operating system was
  told about the thread; the shared state holds the owner of every per-processor dispatch lock and of
  every spin lock. The outcome of a system call is a parameter (record \<open>irql_os\<close>), and so is the
  processor a thread runs on at each call, which only the thread's affinity constrains.
  A call that would wait for a lock is \<open>Blocks\<close>, or \<open>Waiting\<close> with the state in which it waits.

  Between threads only the locks are shared. \<^verbatim>\<open>KfRaiseIrql\<close> is therefore two steps, everything before the \<^verbatim>\<open>lock()\<close> and the \<^verbatim>\<open>lock()\<close> itself, and
  \<^verbatim>\<open>KeLowerIrql\<close> is two steps, everything up to the \<^verbatim>\<open>unlock()\<close> and the rest; the field \<open>irql_pc\<close> of a thread says between which of them it is.
\<close>

unbundle bit_operations_syntax

section \<open>State\<close>

record group_affinity =
  ga_Mask :: u64
  ga_Group :: u16

datatype irql_point = At_Rest | Locking u32 | Unlocked u8 | Dpc_Locked

record thread_state =
  irql_pc :: irql_point
  current_irql :: u8
  group_affinity_cache :: group_affinity
  group_before_raise_irql :: group_affinity
  priority_cache :: int
  priority_before_raise_irql :: int
  os_affinity :: group_affinity
  os_priority :: int

record irql_state =
  threads :: "nat \<Rightarrow> thread_state"
  dispatch_locks :: "nat option list"
  spin_locks :: "ptr \<Rightarrow> nat option"

text \<open>
  \<^verbatim>\<open>SetThreadPriority\<close> and \<^verbatim>\<open>SetThreadGroupAffinity\<close> may fail; \<^verbatim>\<open>GetProcessAffinityMask\<close> returns the
  mask or fails; \<open>group_map\<close> is the table of theory \<open>Processor\<close>.
\<close>

record irql_os =
  set_priority_ok :: "int \<Rightarrow> bool"
  set_affinity_ok :: "group_affinity \<Rightarrow> bool"
  process_mask :: "u64 option"
  group_map :: "u32 list"

datatype 'a outcome = Blocks | Returns 'a

datatype 'a attempt = Waiting irql_state | Done 'a

abbreviation PASSIVE_LEVEL :: u8 where "PASSIVE_LEVEL \<equiv> 0"
abbreviation APC_LEVEL :: u8 where "APC_LEVEL \<equiv> 1"
abbreviation DISPATCH_LEVEL :: u8 where "DISPATCH_LEVEL \<equiv> 2"

definition upd_thread :: "nat \<Rightarrow> (thread_state \<Rightarrow> thread_state) \<Rightarrow> irql_state \<Rightarrow> irql_state" where
  "upd_thread tid f s = s\<lparr>threads := (threads s)(tid := f (threads s tid))\<rparr>"

section \<open>Priority and affinity of the current thread\<close>

definition usersim_set_current_thread_priority ::
  "irql_os \<Rightarrow> int \<Rightarrow> thread_state \<Rightarrow> (bool \<times> int option) \<times> thread_state" where
  "usersim_set_current_thread_priority os priority t =
     (if priority_cache t = priority then ((True, Some (priority_cache t)), t)
      else if set_priority_ok os priority
      then ((True, Some (priority_cache t)), t\<lparr>os_priority := priority, priority_cache := priority\<rparr>)
      else ((False, None), t))"

text \<open>
  The structures are compared with \<^verbatim>\<open>memcmp\<close>. A mask of 0 restores the process default, if there is
  one, and always succeeds. The old affinity is what the cache held.
\<close>

definition usersim_set_current_thread_affinity ::
  "irql_os \<Rightarrow> group_affinity \<Rightarrow> thread_state \<Rightarrow> (bool \<times> group_affinity option) \<times> thread_state" where
  "usersim_set_current_thread_affinity os new_affinity t =
     (let (ok, t1) =
        (if new_affinity = group_affinity_cache t then (True, t)
         else if ga_Mask new_affinity = 0 then
           (case process_mask os of
              Some m \<Rightarrow> if m \<noteq> 0 \<and> set_affinity_ok os \<lparr>ga_Mask = m, ga_Group = 0\<rparr>
                        then (True, t\<lparr>os_affinity := \<lparr>ga_Mask = m, ga_Group = 0\<rparr>\<rparr>) else (True, t)
            | None \<Rightarrow> (True, t))
         else if set_affinity_ok os new_affinity then (True, t\<lparr>os_affinity := new_affinity\<rparr>)
         else (False, t))
      in if ok then ((True, Some (group_affinity_cache t)), t1\<lparr>group_affinity_cache := new_affinity\<rparr>)
         else ((False, None), t1))"

definition usersim_restore_current_thread_affinity ::
  "irql_os \<Rightarrow> group_affinity option \<Rightarrow> thread_state \<Rightarrow> thread_state" where
  "usersim_restore_current_thread_affinity os old_affinity t =
     (case old_affinity of
        None \<Rightarrow> t
      | Some a \<Rightarrow> snd (usersim_set_current_thread_affinity os a t))"

definition irql_thread_priority :: "int list" where
  "irql_thread_priority = [0, 1, 15]"

definition get_irql_thread_priority :: "u8 \<Rightarrow> int result" where
  "get_irql_thread_priority irql =
     (if unat irql < length irql_thread_priority then Inr (irql_thread_priority ! unat irql)
      else Inl (Bug_Check 0))"

definition set_current_thread_priority_by_irql ::
  "irql_os \<Rightarrow> u8 \<Rightarrow> thread_state \<Rightarrow> (bool \<times> thread_state) result" where
  "set_current_thread_priority_by_irql os new_irql t =
     (if current_irql t = new_irql then Inr (True, t)
      else if new_irql \<ge> DISPATCH_LEVEL then
        (case get_irql_thread_priority new_irql of
           Inl e \<Rightarrow> Inl e
         | Inr priority \<Rightarrow>
             (case usersim_set_current_thread_priority os priority t of
                ((ok, old), t1) \<Rightarrow>
                  Inr (ok, case old of None \<Rightarrow> t1 | Some p \<Rightarrow> t1\<lparr>priority_before_raise_irql := p\<rparr>)))
      else (case usersim_set_current_thread_priority os (priority_before_raise_irql t) t of
              ((ok, old), t1) \<Rightarrow> Inr (ok, t1)))"

section \<open>Raising and lowering\<close>

definition KeGetCurrentIrql :: "nat \<Rightarrow> irql_state \<Rightarrow> u8" where
  "KeGetCurrentIrql tid s = current_irql (threads s tid)"

definition processor_affinity :: "processor_number \<Rightarrow> group_affinity" where
  "processor_affinity p = \<lparr>ga_Mask = push_bit (unat (pn_Number p)) 1, ga_Group = pn_Group p\<rparr>"

definition lock_dispatch :: "nat \<Rightarrow> u32 \<Rightarrow> irql_state \<Rightarrow> irql_state outcome result" where
  "lock_dispatch tid i s =
     (if unat i < length (dispatch_locks s)
      then (case dispatch_locks s ! unat i of
              Some _ \<Rightarrow> Inr Blocks
            | None \<Rightarrow> Inr (Returns (s\<lparr>dispatch_locks := (dispatch_locks s)[unat i := Some tid]\<rparr>)))
      else Inl Out_Of_Bounds)"

text \<open>Unlocking a mutex that the thread does not own is reported by the debug run-time library.\<close>

definition unlock_dispatch :: "nat \<Rightarrow> u32 \<Rightarrow> irql_state \<Rightarrow> irql_state result" where
  "unlock_dispatch tid i s =
     (if unat i < length (dispatch_locks s)
      then (if dispatch_locks s ! unat i = Some tid
            then Inr (s\<lparr>dispatch_locks := (dispatch_locks s)[unat i := None]\<rparr>) else Inl Assert_Failed)
      else Inl Out_Of_Bounds)"

text \<open>
  Raising first stores the level, then (only on the way from below \<^verbatim>\<open>DISPATCH_LEVEL\<close>) pins the thread to its processor, and then waits for the dispatch
  lock of the processor: while it waits, the thread is pinned and its level is the new one.
\<close>

definition KfRaiseIrql_begin ::
  "irql_os \<Rightarrow> nat \<Rightarrow> processor_number \<Rightarrow> u8 \<Rightarrow> irql_state \<Rightarrow> (u8 \<times> irql_state) result" where
  "KfRaiseIrql_begin os tid processor new_irql s =
     (let old_irql = KeGetCurrentIrql tid s;
          t0 = (threads s tid)\<lparr>current_irql := new_irql\<rparr>
      in case set_current_thread_priority_by_irql os new_irql t0 of
           Inl e \<Rightarrow> Inl e
         | Inr (ok, t1) \<Rightarrow>
             if \<not> ok then Inl (Bug_Check 0)
             else if new_irql \<ge> DISPATCH_LEVEL \<and> old_irql < DISPATCH_LEVEL then
               (case KeGetCurrentProcessorNumberEx (group_map os) processor of
                  Inl e \<Rightarrow> Inl e
                | Inr (processor_index, p) \<Rightarrow>
                    (case usersim_set_current_thread_affinity os (processor_affinity p) t1 of
                       ((True, Some old), t2) \<Rightarrow>
                         Inr (old_irql, upd_thread tid
                                (\<lambda>_. t2\<lparr>group_before_raise_irql := old, irql_pc := Locking processor_index\<rparr>) s)
                     | _ \<Rightarrow> Inl (Bug_Check 0)))
             else Inr (old_irql, upd_thread tid (\<lambda>_. t1) s))"

definition KfRaiseIrql_lock :: "nat \<Rightarrow> irql_state \<Rightarrow> irql_state outcome result" where
  "KfRaiseIrql_lock tid s =
     (case irql_pc (threads s tid) of
        Locking processor_index \<Rightarrow>
          (case lock_dispatch tid processor_index s of
             Inl e \<Rightarrow> Inl e
           | Inr Blocks \<Rightarrow> Inr Blocks
           | Inr (Returns s1) \<Rightarrow> Inr (Returns (upd_thread tid (\<lambda>t. t\<lparr>irql_pc := At_Rest\<rparr>) s1)))
      | _ \<Rightarrow> Inr (Returns s))"

definition KfRaiseIrql ::
  "irql_os \<Rightarrow> nat \<Rightarrow> processor_number \<Rightarrow> u8 \<Rightarrow> irql_state \<Rightarrow> (u8 \<times> irql_state) attempt result" where
  "KfRaiseIrql os tid processor new_irql s =
     (case KfRaiseIrql_begin os tid processor new_irql s of
        Inl e \<Rightarrow> Inl e
      | Inr (old_irql, s1) \<Rightarrow>
          (case KfRaiseIrql_lock tid s1 of
             Inl e \<Rightarrow> Inl e
           | Inr Blocks \<Rightarrow> Inr (Waiting s1)
           | Inr (Returns s2) \<Rightarrow> Inr (Done (old_irql, s2))))"

definition KeRaiseIrqlToDpcLevel ::
  "irql_os \<Rightarrow> nat \<Rightarrow> processor_number \<Rightarrow> irql_state \<Rightarrow> (u8 \<times> irql_state) attempt result" where
  "KeRaiseIrqlToDpcLevel os tid processor s = KfRaiseIrql os tid processor DISPATCH_LEVEL s"

text \<open>
  Lowering releases the dispatch lock first. Until it has restored the affinity and stored the new level, the thread still shows the old level.
\<close>

definition lower_level :: "irql_os \<Rightarrow> nat \<Rightarrow> u8 \<Rightarrow> irql_state \<Rightarrow> irql_state result" where
  "lower_level os tid new_irql s =
     (case set_current_thread_priority_by_irql os new_irql ((threads s tid)\<lparr>current_irql := new_irql\<rparr>) of
        Inl e \<Rightarrow> Inl e
      | Inr (ok, t) \<Rightarrow>
          if ok then Inr (upd_thread tid (\<lambda>_. t\<lparr>irql_pc := At_Rest\<rparr>) s) else Inl (Bug_Check 0))"

definition KeLowerIrql_begin ::
  "irql_os \<Rightarrow> nat \<Rightarrow> processor_number \<Rightarrow> u8 \<Rightarrow> irql_state \<Rightarrow> irql_state result" where
  "KeLowerIrql_begin os tid processor new_irql s =
     (if current_irql (threads s tid) \<ge> DISPATCH_LEVEL \<and> new_irql < DISPATCH_LEVEL then
        (case KeGetCurrentProcessorNumberEx (group_map os) processor of
           Inl e \<Rightarrow> Inl e
         | Inr (processor_index, _) \<Rightarrow>
             (case unlock_dispatch tid processor_index s of
                Inl e \<Rightarrow> Inl e
              | Inr s1 \<Rightarrow> Inr (upd_thread tid (\<lambda>t. t\<lparr>irql_pc := Unlocked new_irql\<rparr>) s1)))
      else lower_level os tid new_irql s)"

definition KeLowerIrql_finish :: "irql_os \<Rightarrow> nat \<Rightarrow> irql_state \<Rightarrow> irql_state result" where
  "KeLowerIrql_finish os tid s =
     (case irql_pc (threads s tid) of
        Unlocked new_irql \<Rightarrow>
          (case usersim_set_current_thread_affinity os (group_before_raise_irql (threads s tid)) (threads s tid) of
             ((ok, _), t1) \<Rightarrow>
               if ok then lower_level os tid new_irql (upd_thread tid (\<lambda>_. t1) s) else Inl (Bug_Check 0))
      | _ \<Rightarrow> Inr s)"

definition KeLowerIrql ::
  "irql_os \<Rightarrow> nat \<Rightarrow> processor_number \<Rightarrow> u8 \<Rightarrow> irql_state \<Rightarrow> irql_state result" where
  "KeLowerIrql os tid processor new_irql s =
     (case KeLowerIrql_begin os tid processor new_irql s of
        Inl e \<Rightarrow> Inl e
      | Inr s1 \<Rightarrow> KeLowerIrql_finish os tid s1)"

section \<open>Spin locks\<close>

text \<open>
  A spin lock is an \<^verbatim>\<open>SRWLOCK\<close> taken exclusively. Releasing a free \<^verbatim>\<open>SRWLOCK\<close> raises an exception.
  \<^verbatim>\<open>KeAcquireSpinLockRaiseToDpc\<close> is raising and then acquiring; it may wait in either, and a thread that waits for the
  spin lock already holds its dispatch lock.
\<close>

definition KeInitializeSpinLock :: "ptr \<Rightarrow> irql_state \<Rightarrow> irql_state" where
  "KeInitializeSpinLock l s = s\<lparr>spin_locks := (spin_locks s)(l := None)\<rparr>"

definition KeAcquireSpinLockAtDpcLevel :: "nat \<Rightarrow> ptr \<Rightarrow> irql_state \<Rightarrow> irql_state outcome" where
  "KeAcquireSpinLockAtDpcLevel tid l s =
     (case spin_locks s l of
        Some _ \<Rightarrow> Blocks
      | None \<Rightarrow> Returns (s\<lparr>spin_locks := (spin_locks s)(l := Some tid)\<rparr>))"

definition KeReleaseSpinLockFromDpcLevel :: "ptr \<Rightarrow> irql_state \<Rightarrow> irql_state result" where
  "KeReleaseSpinLockFromDpcLevel l s =
     (case spin_locks s l of
        None \<Rightarrow> Inl (Runtime_Error ''STATUS_RESOURCE_NOT_OWNED'')
      | Some _ \<Rightarrow> Inr (s\<lparr>spin_locks := (spin_locks s)(l := None)\<rparr>))"

definition KeAcquireSpinLockRaiseToDpc ::
  "irql_os \<Rightarrow> nat \<Rightarrow> processor_number \<Rightarrow> ptr \<Rightarrow> irql_state \<Rightarrow> (u8 \<times> irql_state) attempt result" where
  "KeAcquireSpinLockRaiseToDpc os tid processor l s =
     (case KeRaiseIrqlToDpcLevel os tid processor s of
        Inl e \<Rightarrow> Inl e
      | Inr (Waiting s1) \<Rightarrow> Inr (Waiting s1)
      | Inr (Done (old_irql, s1)) \<Rightarrow>
          (case KeAcquireSpinLockAtDpcLevel tid l s1 of
             Blocks \<Rightarrow> Inr (Waiting s1)
           | Returns s2 \<Rightarrow> Inr (Done (old_irql, s2))))"

definition KeReleaseSpinLock ::
  "irql_os \<Rightarrow> nat \<Rightarrow> processor_number \<Rightarrow> ptr \<Rightarrow> u8 \<Rightarrow> irql_state \<Rightarrow> irql_state result" where
  "KeReleaseSpinLock os tid processor l new_irql s =
     (case KeReleaseSpinLockFromDpcLevel l s of
        Inl e \<Rightarrow> Inl e
      | Inr s1 \<Rightarrow> KeLowerIrql os tid processor new_irql s1)"

section \<open>Affinity calls of drivers\<close>

definition KeRaiseIrql :: "irql_os \<Rightarrow> nat \<Rightarrow> processor_number \<Rightarrow> u8 \<Rightarrow> irql_state \<Rightarrow> (u8 \<times> irql_state) attempt result" where
  "KeRaiseIrql os tid processor new_irql s = KfRaiseIrql os tid processor new_irql s"

definition KfLowerIrql :: "irql_os \<Rightarrow> nat \<Rightarrow> processor_number \<Rightarrow> u8 \<Rightarrow> irql_state \<Rightarrow> irql_state result" where
  "KfLowerIrql os tid processor new_irql s = KeLowerIrql os tid processor new_irql s"

definition KeAcquireSpinLock :: "irql_os \<Rightarrow> nat \<Rightarrow> processor_number \<Rightarrow> ptr \<Rightarrow> irql_state \<Rightarrow> (u8 \<times> irql_state) attempt result" where
  "KeAcquireSpinLock os tid processor l s = KeAcquireSpinLockRaiseToDpc os tid processor l s"

definition usersim_is_preemptible :: "nat \<Rightarrow> irql_state \<Rightarrow> bool" where
  "usersim_is_preemptible tid s \<longleftrightarrow> KeGetCurrentIrql tid s < DISPATCH_LEVEL"

definition KeSetSystemAffinityThreadEx ::
  "irql_os \<Rightarrow> nat \<Rightarrow> u64 \<Rightarrow> irql_state \<Rightarrow> u64 \<times> irql_state" where
  "KeSetSystemAffinityThreadEx os tid affinity s =
     (let t = threads s tid;
          new_affinity = \<lparr>ga_Mask = affinity, ga_Group = ga_Group (group_affinity_cache t)\<rparr>
      in if KeGetCurrentIrql tid s \<ge> DISPATCH_LEVEL
         then (0, upd_thread tid (\<lambda>t. t\<lparr>group_affinity_cache := new_affinity,
                                       group_before_raise_irql := new_affinity\<rparr>) s)
         else (case usersim_set_current_thread_affinity os new_affinity t of
                 ((True, Some old), t1) \<Rightarrow> (ga_Mask old, upd_thread tid (\<lambda>_. t1) s)
               | (_, t1) \<Rightarrow> (0, upd_thread tid (\<lambda>_. t1) s)))"

definition KeRevertToUserAffinityThreadEx :: "irql_os \<Rightarrow> nat \<Rightarrow> u64 \<Rightarrow> irql_state \<Rightarrow> irql_state" where
  "KeRevertToUserAffinityThreadEx os tid affinity s = snd (KeSetSystemAffinityThreadEx os tid affinity s)"

text \<open>A failure leaves a nonzero last error, which the debug build asserts to be 0.\<close>

definition KeSetSystemGroupAffinityThread ::
  "irql_os \<Rightarrow> nat \<Rightarrow> group_affinity \<Rightarrow> irql_state \<Rightarrow> (group_affinity option \<times> irql_state) result" where
  "KeSetSystemGroupAffinityThread os tid affinity s =
     (case usersim_set_current_thread_affinity os affinity (threads s tid) of
        ((ok, old), t1) \<Rightarrow> assert_that ok (Inr (old, upd_thread tid (\<lambda>_. t1) s)))"

definition KeRevertToUserGroupAffinityThread ::
  "irql_os \<Rightarrow> nat \<Rightarrow> group_affinity \<Rightarrow> irql_state \<Rightarrow> irql_state result" where
  "KeRevertToUserGroupAffinityThread os tid affinity s =
     (case usersim_set_current_thread_affinity os affinity (threads s tid) of
        ((ok, _), t1) \<Rightarrow> assert_that ok (Inr (upd_thread tid (\<lambda>_. t1) s)))"

section \<open>The DPC worker around a DPC routine\<close>

text \<open>
  The worker of CPU \<open>i\<close> takes the dispatch lock of its CPU and then raises its level; afterwards it releases the lock and then lowers its level. It stores the
  level directly.
\<close>

definition dpc_worker_lock :: "nat \<Rightarrow> u32 \<Rightarrow> irql_state \<Rightarrow> irql_state outcome result" where
  "dpc_worker_lock tid i s =
     (case lock_dispatch tid i s of
        Inl e \<Rightarrow> Inl e
      | Inr Blocks \<Rightarrow> Inr Blocks
      | Inr (Returns s1) \<Rightarrow> Inr (Returns (upd_thread tid (\<lambda>t. t\<lparr>irql_pc := Dpc_Locked\<rparr>) s1)))"

definition dpc_worker_raise :: "nat \<Rightarrow> irql_state \<Rightarrow> irql_state" where
  "dpc_worker_raise tid s = upd_thread tid (\<lambda>t. t\<lparr>current_irql := DISPATCH_LEVEL, irql_pc := At_Rest\<rparr>) s"

definition dpc_worker_unlock :: "nat \<Rightarrow> u32 \<Rightarrow> irql_state \<Rightarrow> irql_state result" where
  "dpc_worker_unlock tid i s =
     (case unlock_dispatch tid i s of
        Inl e \<Rightarrow> Inl e
      | Inr s1 \<Rightarrow> Inr (upd_thread tid (\<lambda>t. t\<lparr>irql_pc := Unlocked PASSIVE_LEVEL\<rparr>) s1))"

definition dpc_worker_lower :: "nat \<Rightarrow> irql_state \<Rightarrow> irql_state" where
  "dpc_worker_lower tid s = upd_thread tid (\<lambda>t. t\<lparr>current_irql := PASSIVE_LEVEL, irql_pc := At_Rest\<rparr>) s"

section \<open>Scheduling and the calls of a thread\<close>

text \<open>A thread runs on a processor of its affinity.\<close>

definition runs_on :: "processor_config \<Rightarrow> thread_state \<Rightarrow> processor_number \<Rightarrow> bool" where
  "runs_on c t p \<longleftrightarrow> processor_exists c p \<and> pn_Group p = ga_Group (os_affinity t) \<and>
     bit (ga_Mask (os_affinity t)) (unat (pn_Number p))"

definition pinned_to :: "processor_config \<Rightarrow> thread_state \<Rightarrow> processor_number \<Rightarrow> bool" where
  "pinned_to c t p \<longleftrightarrow> processor_exists c p \<and> os_affinity t = processor_affinity p"

text \<open>
  The calls of a thread \<open>tid\<close>. A call begins when the thread is in no other; \<open>Resume\<close> is the second part of a raise, when the lock is free, or of a lower.
  The two spin lock calls are \<^verbatim>\<open>KeAcquireSpinLockAtDpcLevel\<close> and \<^verbatim>\<open>KeReleaseSpinLockFromDpcLevel\<close>, which the others are made of.
\<close>

datatype irql_api = Raise_Irql u8 | Lower_Irql u8 | Resume | Init_Lock ptr | Acquire_Lock ptr | Release_Lock ptr
  | Set_Affinity u64 | Revert_Affinity u64 | Set_Group_Affinity group_affinity | Revert_Group_Affinity group_affinity

inductive irql_call :: "processor_config \<Rightarrow> irql_os \<Rightarrow> nat \<Rightarrow> irql_api \<Rightarrow> irql_state \<Rightarrow> irql_state \<Rightarrow> bool" for c os tid where
  call_raise: "irql_pc (threads s tid) = At_Rest \<Longrightarrow> runs_on c (threads s tid) p \<Longrightarrow>
     KfRaiseIrql_begin os tid p new_irql s = Inr (old_irql, s') \<Longrightarrow> irql_call c os tid (Raise_Irql new_irql) s s'"
| call_locked: "irql_pc (threads s tid) = Locking i \<Longrightarrow> KfRaiseIrql_lock tid s = Inr (Returns s') \<Longrightarrow> irql_call c os tid Resume s s'"
| call_lower: "irql_pc (threads s tid) = At_Rest \<Longrightarrow> runs_on c (threads s tid) p \<Longrightarrow>
     KeLowerIrql_begin os tid p new_irql s = Inr s' \<Longrightarrow> irql_call c os tid (Lower_Irql new_irql) s s'"
| call_lowered: "irql_pc (threads s tid) = Unlocked n \<Longrightarrow> KeLowerIrql_finish os tid s = Inr s' \<Longrightarrow> irql_call c os tid Resume s s'"
| call_init: "irql_pc (threads s tid) = At_Rest \<Longrightarrow> irql_call c os tid (Init_Lock l) s (KeInitializeSpinLock l s)"
| call_acquire: "irql_pc (threads s tid) = At_Rest \<Longrightarrow> KeAcquireSpinLockAtDpcLevel tid l s = Returns s' \<Longrightarrow>
     irql_call c os tid (Acquire_Lock l) s s'"
| call_release: "irql_pc (threads s tid) = At_Rest \<Longrightarrow> KeReleaseSpinLockFromDpcLevel l s = Inr s' \<Longrightarrow>
     irql_call c os tid (Release_Lock l) s s'"
| call_affinity: "irql_pc (threads s tid) = At_Rest \<Longrightarrow>
     irql_call c os tid (Set_Affinity m) s (snd (KeSetSystemAffinityThreadEx os tid m s))"
| call_revert: "irql_pc (threads s tid) = At_Rest \<Longrightarrow>
     irql_call c os tid (Revert_Affinity m) s (KeRevertToUserAffinityThreadEx os tid m s)"
| call_group_affinity: "irql_pc (threads s tid) = At_Rest \<Longrightarrow> KeSetSystemGroupAffinityThread os tid a s = Inr (old, s') \<Longrightarrow>
     irql_call c os tid (Set_Group_Affinity a) s s'"
| call_group_revert: "irql_pc (threads s tid) = At_Rest \<Longrightarrow> KeRevertToUserGroupAffinityThread os tid a s = Inr s' \<Longrightarrow>
     irql_call c os tid (Revert_Group_Affinity a) s s'"

text \<open>
  The rules that drivers have to keep for the exclusion below, which the code does not check: \<^verbatim>\<open>KeLowerIrql\<close> is not called with a higher level than the current one, and
  \<^verbatim>\<open>KeSetSystemGroupAffinityThread\<close> and \<^verbatim>\<open>KeRevertToUserGroupAffinityThread\<close> are called below \<^verbatim>\<open>DISPATCH_LEVEL\<close>, since at \<^verbatim>\<open>DISPATCH_LEVEL\<close> they move
  the thread to another processor while it has the dispatch lock of the first.
\<close>

type_synonym call_rules = "irql_state \<Rightarrow> nat \<Rightarrow> irql_api \<Rightarrow> bool"

definition driver_rules :: call_rules where
  "driver_rules s tid a \<longleftrightarrow>
     (case a of
        Lower_Irql new_irql \<Rightarrow> new_irql \<le> current_irql (threads s tid)
      | Set_Group_Affinity _ \<Rightarrow> current_irql (threads s tid) < DISPATCH_LEVEL
      | Revert_Group_Affinity _ \<Rightarrow> current_irql (threads s tid) < DISPATCH_LEVEL
      | _ \<Rightarrow> True)"

text \<open>
  The steps of the system under some rules: a call of some thread, or a step of a DPC worker, a thread that is pinned to its processor.
\<close>

inductive irql_step :: "call_rules \<Rightarrow> processor_config \<Rightarrow> irql_os \<Rightarrow> irql_state \<Rightarrow> irql_state \<Rightarrow> bool" for rules c os where
  step_call: "rules s tid a \<Longrightarrow> irql_call c os tid a s s' \<Longrightarrow> irql_step rules c os s s'"
| step_dpc_lock: "irql_pc (threads s tid) = At_Rest \<Longrightarrow> pinned_to c (threads s tid) p \<Longrightarrow>
     KeGetProcessorIndexFromNumber (config_map c) p = Inr i \<Longrightarrow>
     dpc_worker_lock tid i s = Inr (Returns s') \<Longrightarrow> irql_step rules c os s s'"
| step_dpc_raise: "irql_pc (threads s tid) = Dpc_Locked \<Longrightarrow> irql_step rules c os s (dpc_worker_raise tid s)"
| step_dpc_unlock: "irql_pc (threads s tid) = At_Rest \<Longrightarrow> dpc_worker_unlock tid i s = Inr s' \<Longrightarrow> irql_step rules c os s s'"
| step_dpc_lower: "irql_pc (threads s tid) = Unlocked n \<Longrightarrow> irql_step rules c os s (dpc_worker_lower tid s)"

definition irql_init :: "processor_config \<Rightarrow> irql_state \<Rightarrow> bool" where
  "irql_init c s \<longleftrightarrow> dispatch_locks s = replicate (unat (config_count c)) None \<and>
     (\<forall>tid. irql_pc (threads s tid) = At_Rest \<and> current_irql (threads s tid) = PASSIVE_LEVEL \<and>
            ga_Mask (group_affinity_cache (threads s tid)) = 0)"

inductive irql_reachable :: "call_rules \<Rightarrow> processor_config \<Rightarrow> irql_os \<Rightarrow> irql_state \<Rightarrow> bool" for rules c os where
  init: "irql_init c s \<Longrightarrow> irql_reachable rules c os s"
| step: "irql_reachable rules c os s \<Longrightarrow> irql_step rules c os s s' \<Longrightarrow> irql_reachable rules c os s'"

section \<open>The invariant\<close>

text \<open>
  A thread is raised when it is at \<^verbatim>\<open>DISPATCH_LEVEL\<close> or above and neither still waits for the dispatch lock nor has released it already. The invariant: a raised
  thread, and a worker that has the lock, is pinned to one processor and owns the dispatch lock of that processor; a thread that waits for the lock
  is pinned to the processor of the lock; and the cached affinity is the real one, unless the mask is 0 or the thread is pinned.
\<close>

definition raised :: "nat \<Rightarrow> irql_state \<Rightarrow> bool" where
  "raised tid s \<longleftrightarrow> DISPATCH_LEVEL \<le> KeGetCurrentIrql tid s \<and> irql_pc (threads s tid) = At_Rest"

definition cache_ok :: "processor_config \<Rightarrow> thread_state \<Rightarrow> bool" where
  "cache_ok c t \<longleftrightarrow> ga_Mask (group_affinity_cache t) \<noteq> 0 \<longrightarrow>
     os_affinity t = group_affinity_cache t \<or> (\<exists>p. pinned_to c t p)"

definition owns_processor :: "processor_config \<Rightarrow> nat \<Rightarrow> irql_state \<Rightarrow> bool" where
  "owns_processor c tid s \<longleftrightarrow>
     (\<exists>p i. pinned_to c (threads s tid) p \<and> KeGetProcessorIndexFromNumber (config_map c) p = Inr i \<and>
            unat i < length (dispatch_locks s) \<and> dispatch_locks s ! unat i = Some tid)"

definition thread_ok :: "processor_config \<Rightarrow> irql_state \<Rightarrow> nat \<Rightarrow> bool" where
  "thread_ok c s tid \<longleftrightarrow>
     cache_ok c (threads s tid) \<and>
     (case irql_pc (threads s tid) of
        At_Rest \<Rightarrow> DISPATCH_LEVEL \<le> current_irql (threads s tid) \<longrightarrow> owns_processor c tid s
      | Locking i \<Rightarrow> \<exists>p. pinned_to c (threads s tid) p \<and> KeGetProcessorIndexFromNumber (config_map c) p = Inr i
      | Unlocked n \<Rightarrow> n < DISPATCH_LEVEL
      | Dpc_Locked \<Rightarrow> owns_processor c tid s)"

definition irql_inv :: "processor_config \<Rightarrow> irql_state \<Rightarrow> bool" where
  "irql_inv c s \<longleftrightarrow> length (dispatch_locks s) = unat (config_count c) \<and> (\<forall>tid. thread_ok c s tid)"

text \<open>\<open>only_thread tid s s'\<close>: nothing of another thread has changed.\<close>

definition only_thread :: "nat \<Rightarrow> irql_state \<Rightarrow> irql_state \<Rightarrow> bool" where
  "only_thread tid s s' \<longleftrightarrow> length (dispatch_locks s') = length (dispatch_locks s) \<and>
     (\<forall>x. x \<noteq> tid \<longrightarrow> threads s' x = threads s x \<and>
        (\<forall>k < length (dispatch_locks s). dispatch_locks s' ! k = Some x \<longleftrightarrow> dispatch_locks s ! k = Some x))"

lemma upd_thread_simps [simp]:
  "dispatch_locks (upd_thread tid f s) = dispatch_locks s"
  "spin_locks (upd_thread tid f s) = spin_locks s"
  "threads (upd_thread tid f s) x = (if x = tid then f (threads s tid) else threads s x)"
  by (simp_all add: upd_thread_def)

lemma exists_less_64: "config_ok c \<Longrightarrow> processor_exists c p \<Longrightarrow> unat (pn_Number p) < 64"
proof -
  assume a: "config_ok c" "processor_exists c p"
  obtain cnt n tot where "c = (cnt, n, tot)" by (cases c)
  with a have "unat (pn_Number p) < unat (cnt (pn_Group p))" "unat (cnt (pn_Group p)) \<le> 64"
    by (auto simp: config_ok_def processor_exists_def processor_counts_ok_def
        dest: spec [of _ "unat (pn_Group p)"])
  then show ?thesis by simp
qed

lemma bit_processor_affinity:
  assumes "unat (pn_Number p) < 64"
  shows "bit (ga_Mask (processor_affinity p)) k \<longleftrightarrow> k = unat (pn_Number p)"
  using assms by (auto simp: processor_affinity_def bit_simps)

text \<open>A pinned thread runs on the processor it is pinned to.\<close>

lemma runs_on_pinned:
  assumes "config_ok c" "runs_on c t p" "pinned_to c t q"
  shows "p = q"
proof -
  have "unat (pn_Number p) = unat (pn_Number q)"
    using assms bit_processor_affinity [of q] exists_less_64 [of c q]
    by (auto simp: runs_on_def pinned_to_def)
  moreover have "pn_Group p = pn_Group q"
    using assms by (simp add: runs_on_def pinned_to_def processor_affinity_def)
  ultimately show ?thesis by (simp add: word_unat_eq_iff)
qed

lemma mask_processor_affinity:
  assumes "config_ok c" "processor_exists c p"
  shows "ga_Mask (processor_affinity p) \<noteq> 0"
proof -
  have "bit (ga_Mask (processor_affinity p)) (unat (pn_Number p))"
    using bit_processor_affinity exists_less_64 [OF assms] by simp
  then show ?thesis by auto
qed

section \<open>Each operation keeps the invariant\<close>

lemma set_by_irql_same [simp]:
  "set_current_thread_priority_by_irql os n (t\<lparr>current_irql := n\<rparr>) = Inr (True, t\<lparr>current_irql := n\<rparr>)"
  by (simp add: set_current_thread_priority_by_irql_def)

lemma set_affinity_frame:
  assumes "usersim_set_current_thread_affinity os a t = (r, t')"
  shows "current_irql t' = current_irql t" "group_before_raise_irql t' = group_before_raise_irql t"
    "os_priority t' = os_priority t" "priority_cache t' = priority_cache t" "irql_pc t' = irql_pc t"
    "priority_before_raise_irql t' = priority_before_raise_irql t"
  using assms by (auto simp: usersim_set_current_thread_affinity_def split: if_splits option.splits)

lemma set_affinity_result:
  assumes "usersim_set_current_thread_affinity os a t = ((ok, old), t')"
  shows "if ok then old = Some (group_affinity_cache t) \<and> group_affinity_cache t' = a else old = None \<and> t' = t"
  using assms by (auto simp: usersim_set_current_thread_affinity_def split: if_splits option.splits)

lemma set_affinity_succeeds:
  assumes "set_affinity_ok os a"
  shows "\<exists>t'. usersim_set_current_thread_affinity os a t = ((True, Some (group_affinity_cache t)), t') \<and>
              group_affinity_cache t' = a"
  using assms by (simp add: usersim_set_current_thread_affinity_def split: option.splits)

lemma set_affinity_cache_ok:
  assumes "usersim_set_current_thread_affinity os a t = (r, t')" "cache_ok c t"
  shows "cache_ok c t'"
  using assms
  by (auto simp: usersim_set_current_thread_affinity_def cache_ok_def pinned_to_def
      split: if_splits option.splits)

text \<open>Setting the affinity to the processor the thread runs on pins it, also when the cache says so already.\<close>

lemma set_affinity_pins:
  assumes "config_ok c" "runs_on c t p" "cache_ok c t"
    and "usersim_set_current_thread_affinity os (processor_affinity p) t = ((True, old), t')"
  shows "pinned_to c t' p"
proof (cases "group_affinity_cache t = processor_affinity p")
  case True
  have e: "processor_exists c p" using assms(2) by (simp add: runs_on_def)
  have "os_affinity t = processor_affinity p"
    using assms(3) True mask_processor_affinity [OF assms(1) e] runs_on_pinned [OF assms(1,2)]
    by (auto simp: cache_ok_def pinned_to_def)
  with True assms(4) e show ?thesis
    by (auto simp: usersim_set_current_thread_affinity_def pinned_to_def)
next
  case False
  have e: "processor_exists c p" using assms(2) by (simp add: runs_on_def)
  with False assms(4) mask_processor_affinity [OF assms(1) e] show ?thesis
    by (auto simp: usersim_set_current_thread_affinity_def pinned_to_def split: if_splits)
qed

text \<open>A step of one thread keeps the invariant of all others.\<close>

lemma thread_ok_other:
  assumes "thread_ok c s x" "only_thread tid s s'" "x \<noteq> tid"
  shows "thread_ok c s' x"
proof -
  have t: "threads s' x = threads s x" using assms(2,3) by (simp add: only_thread_def)
  have "owns_processor c x s'" if "owns_processor c x s"
    using that assms(2,3) by (fastforce simp: owns_processor_def only_thread_def)
  then show ?thesis using assms(1) t by (auto simp: thread_ok_def split: irql_point.splits)
qed

lemma inv_step:
  assumes "irql_inv c s" "only_thread tid s s'" "thread_ok c s' tid"
  shows "irql_inv c s'"
proof -
  have "thread_ok c s' x" for x
    using assms thread_ok_other [of c s x tid s'] by (cases "x = tid") (auto simp: irql_inv_def)
  then show ?thesis using assms(1,2) by (simp add: irql_inv_def only_thread_def)
qed

lemma only_thread_upd [simp]: "only_thread tid s (upd_thread tid f s)"
  by (simp add: only_thread_def)

lemma only_thread_cong:
  "threads s' = threads s \<Longrightarrow> dispatch_locks s' = dispatch_locks s \<Longrightarrow> only_thread tid s s'"
  by (simp add: only_thread_def)

text \<open>A step that changes only the thread itself.\<close>

lemma inv_local:
  assumes "irql_inv c s" "thread_ok c (upd_thread tid f s) tid"
  shows "irql_inv c (upd_thread tid f s)"
  by (rule inv_step [OF assms(1) only_thread_upd assms(2)])

lemma cache_ok_upd [simp]:
  "cache_ok c (t\<lparr>current_irql := n\<rparr>) = cache_ok c t"
  "cache_ok c (t\<lparr>irql_pc := q\<rparr>) = cache_ok c t"
  "cache_ok c (t\<lparr>group_before_raise_irql := a\<rparr>) = cache_ok c t"
  "pinned_to c (t\<lparr>current_irql := n\<rparr>) p = pinned_to c t p"
  "pinned_to c (t\<lparr>irql_pc := q\<rparr>) p = pinned_to c t p"
  "pinned_to c (t\<lparr>group_before_raise_irql := a\<rparr>) p = pinned_to c t p"
  "runs_on c (t\<lparr>current_irql := n\<rparr>) p = runs_on c t p"
  by (simp_all add: cache_ok_def pinned_to_def runs_on_def)

lemma lock_dispatchD:
  assumes "lock_dispatch tid i s = Inr (Returns s1)"
  shows "unat i < length (dispatch_locks s)" "dispatch_locks s ! unat i = None"
    "s1 = s\<lparr>dispatch_locks := (dispatch_locks s)[unat i := Some tid]\<rparr>"
  using assms by (auto simp: lock_dispatch_def split: if_splits option.splits)

lemma unlock_dispatchD:
  assumes "unlock_dispatch tid i s = Inr s1"
  shows "unat i < length (dispatch_locks s)" "dispatch_locks s ! unat i = Some tid"
    "s1 = s\<lparr>dispatch_locks := (dispatch_locks s)[unat i := None]\<rparr>"
  using assms by (auto simp: unlock_dispatch_def split: if_splits)

text \<open>The two cases of a successful raise, and of a successful lower.\<close>

lemma raise_begin_cases:
  assumes "KfRaiseIrql_begin os tid p new s = Inr (old, s')"
  obtains (stay) "\<not> (DISPATCH_LEVEL \<le> new \<and> current_irql (threads s tid) < DISPATCH_LEVEL)"
      "old = current_irql (threads s tid)" "s' = upd_thread tid (\<lambda>t. t\<lparr>current_irql := new\<rparr>) s"
  | (dispatch) i a t2 where "DISPATCH_LEVEL \<le> new" "current_irql (threads s tid) < DISPATCH_LEVEL"
      "old = current_irql (threads s tid)"
      "KeGetProcessorIndexFromNumber (group_map os) p = Inr i"
      "usersim_set_current_thread_affinity os (processor_affinity p) ((threads s tid)\<lparr>current_irql := new\<rparr>) =
         ((True, Some a), t2)"
      "s' = upd_thread tid (\<lambda>_. t2\<lparr>group_before_raise_irql := a, irql_pc := Locking i\<rparr>) s"
proof -
  note K = assms [unfolded KfRaiseIrql_begin_def Let_def KeGetCurrentIrql_def, simplified]
  show ?thesis
  proof (cases "DISPATCH_LEVEL \<le> new \<and> current_irql (threads s tid) < DISPATCH_LEVEL")
    case True
    with K show ?thesis
      by (auto simp: KeGetCurrentProcessorNumberEx_def
          split: sum.splits prod.splits bool.splits option.splits intro: dispatch)
  next
    case False
    with K show ?thesis by (auto simp: upd_thread_def intro!: stay split: if_splits)
  qed
qed

lemma raise_lock_Returns:
  assumes "KfRaiseIrql_lock tid s = Inr (Returns s')" "irql_pc (threads s tid) = Locking i"
  shows "unat i < length (dispatch_locks s)" "dispatch_locks s ! unat i = None"
    "s' = upd_thread tid (\<lambda>t. t\<lparr>irql_pc := At_Rest\<rparr>) (s\<lparr>dispatch_locks := (dispatch_locks s)[unat i := Some tid]\<rparr>)"
  using assms by (auto simp: KfRaiseIrql_lock_def lock_dispatch_def split: if_splits option.splits)

lemma lower_level_eq [simp]:
  "lower_level os tid new s = Inr (upd_thread tid (\<lambda>t. t\<lparr>current_irql := new, irql_pc := At_Rest\<rparr>) s)"
  by (simp add: lower_level_def upd_thread_def)

lemma lower_begin_cases:
  assumes "KeLowerIrql_begin os tid p new s = Inr s'"
  obtains (stay) "\<not> (DISPATCH_LEVEL \<le> current_irql (threads s tid) \<and> new < DISPATCH_LEVEL)"
      "s' = upd_thread tid (\<lambda>t. t\<lparr>current_irql := new, irql_pc := At_Rest\<rparr>) s"
  | (dispatch) i where "DISPATCH_LEVEL \<le> current_irql (threads s tid)" "new < DISPATCH_LEVEL"
      "KeGetProcessorIndexFromNumber (group_map os) p = Inr i" "unat i < length (dispatch_locks s)"
      "dispatch_locks s ! unat i = Some tid"
      "s' = upd_thread tid (\<lambda>t. t\<lparr>irql_pc := Unlocked new\<rparr>) (s\<lparr>dispatch_locks := (dispatch_locks s)[unat i := None]\<rparr>)"
  using assms
  by (auto simp: KeLowerIrql_begin_def KeGetCurrentProcessorNumberEx_def unlock_dispatch_def split: if_splits sum.splits)

lemma lower_finish_Inr:
  assumes "KeLowerIrql_finish os tid s = Inr s'" "irql_pc (threads s tid) = Unlocked new"
  obtains old t1 where
    "usersim_set_current_thread_affinity os (group_before_raise_irql (threads s tid)) (threads s tid) = ((True, old), t1)"
    "s' = upd_thread tid (\<lambda>_. t1\<lparr>current_irql := new, irql_pc := At_Rest\<rparr>) s"
  using assms by (auto simp: KeLowerIrql_finish_def upd_thread_def split: prod.splits if_splits)

text \<open>Taking and giving back a dispatch lock concerns one thread only.\<close>

lemma only_thread_lock:
  assumes "n < length (dispatch_locks s)" "dispatch_locks s ! n = None"
  shows "only_thread tid s (upd_thread tid f (s\<lparr>dispatch_locks := (dispatch_locks s)[n := Some tid]\<rparr>))"
  using assms by (auto simp: only_thread_def nth_list_update)

lemma only_thread_unlock:
  assumes "dispatch_locks s ! n = Some tid"
  shows "only_thread tid s (upd_thread tid f (s\<lparr>dispatch_locks := (dispatch_locks s)[n := None]\<rparr>))"
proof -
  have "(dispatch_locks s)[n := None] ! k = Some x \<longleftrightarrow> dispatch_locks s ! k = Some x"
    if "x \<noteq> tid" "k < length (dispatch_locks s)" for x k
    using assms that by (cases "k = n") simp_all
  then show ?thesis by (simp add: only_thread_def)
qed

lemma dpc_worker_lock_Returns:
  assumes "dpc_worker_lock tid i s = Inr (Returns s')"
  shows "unat i < length (dispatch_locks s)" "dispatch_locks s ! unat i = None"
    "s' = upd_thread tid (\<lambda>t. t\<lparr>irql_pc := Dpc_Locked\<rparr>) (s\<lparr>dispatch_locks := (dispatch_locks s)[unat i := Some tid]\<rparr>)"
  using assms by (auto simp: dpc_worker_lock_def lock_dispatch_def split: if_splits option.splits)

lemma dpc_worker_unlock_Inr:
  assumes "dpc_worker_unlock tid i s = Inr s'"
  shows "dispatch_locks s ! unat i = Some tid"
    "s' = upd_thread tid (\<lambda>t. t\<lparr>irql_pc := Unlocked PASSIVE_LEVEL\<rparr>) (s\<lparr>dispatch_locks := (dispatch_locks s)[unat i := None]\<rparr>)"
  using assms by (auto simp: dpc_worker_unlock_def unlock_dispatch_def split: if_splits)

lemma spin_lock_frame:
  "KeAcquireSpinLockAtDpcLevel tid l s = Returns s' \<Longrightarrow> threads s' = threads s \<and> dispatch_locks s' = dispatch_locks s"
  "KeReleaseSpinLockFromDpcLevel l s = Inr s' \<Longrightarrow> threads s' = threads s \<and> dispatch_locks s' = dispatch_locks s"
  "threads (KeInitializeSpinLock l s) = threads s \<and> dispatch_locks (KeInitializeSpinLock l s) = dispatch_locks s"
  by (auto simp: KeAcquireSpinLockAtDpcLevel_def KeReleaseSpinLockFromDpcLevel_def KeInitializeSpinLock_def split: option.splits)

text \<open>The affinity calls change the thread, whatever its level; above \<^verbatim>\<open>DISPATCH_LEVEL\<close> the first keeps the real affinity.\<close>

lemma affinity_call:
  obtains t' where "snd (KeSetSystemAffinityThreadEx os tid m s) = upd_thread tid (\<lambda>_. t') s"
    "current_irql t' = current_irql (threads s tid)" "irql_pc t' = irql_pc (threads s tid)"
    "DISPATCH_LEVEL \<le> current_irql (threads s tid) \<Longrightarrow> os_affinity t' = os_affinity (threads s tid)"
    "current_irql (threads s tid) < DISPATCH_LEVEL \<Longrightarrow> cache_ok c (threads s tid) \<Longrightarrow> cache_ok c t'"
proof -
  let ?a = "\<lparr>ga_Mask = m, ga_Group = ga_Group (group_affinity_cache (threads s tid))\<rparr>"
  show ?thesis
  proof (cases "DISPATCH_LEVEL \<le> current_irql (threads s tid)")
    case True
    then show ?thesis
      by (intro that [of "(threads s tid)\<lparr>group_affinity_cache := ?a, group_before_raise_irql := ?a\<rparr>"])
        (auto simp: KeSetSystemAffinityThreadEx_def KeGetCurrentIrql_def Let_def upd_thread_def)
  next
    case False
    obtain ok old t1 where t1: "usersim_set_current_thread_affinity os ?a (threads s tid) = ((ok, old), t1)"
      by (metis prod.collapse)
    show ?thesis using False t1 set_affinity_frame [OF t1] set_affinity_cache_ok [OF t1]
      by (intro that [of t1])
        (auto simp: KeSetSystemAffinityThreadEx_def KeGetCurrentIrql_def Let_def split: bool.splits option.splits)
  qed
qed

lemma group_affinity_call:
  assumes "KeSetSystemGroupAffinityThread os tid a s = Inr (old, s') \<or> KeRevertToUserGroupAffinityThread os tid a s = Inr s'"
  obtains t' where "s' = upd_thread tid (\<lambda>_. t') s" "current_irql t' = current_irql (threads s tid)"
    "irql_pc t' = irql_pc (threads s tid)" "cache_ok c (threads s tid) \<Longrightarrow> cache_ok c t'"
proof -
  obtain ok old' t1 where t1: "usersim_set_current_thread_affinity os a (threads s tid) = ((ok, old'), t1)"
    by (metis prod.collapse)
  show ?thesis using assms t1 set_affinity_frame [OF t1] set_affinity_cache_ok [OF t1]
    by (intro that [of t1]) (auto simp: KeSetSystemGroupAffinityThread_def KeRevertToUserGroupAffinityThread_def)
qed

lemma irql_call_only:
  assumes "irql_call c os tid a s s'"
  shows "only_thread tid s s'"
  using assms
proof (induction rule: irql_call.induct)
  case (call_raise s p new_irql old_irql s')
  from call_raise(3) show ?case by (cases rule: raise_begin_cases) simp_all
next
  case (call_locked s i s')
  show ?case using raise_lock_Returns [OF call_locked(2,1)] only_thread_lock by simp
next
  case (call_lower s p new_irql s')
  from call_lower(3) show ?case by (cases rule: lower_begin_cases) (simp_all add: only_thread_unlock)
next
  case (call_lowered s n s')
  then show ?case by (metis lower_finish_Inr only_thread_upd)
next
  case (call_affinity s m)
  show ?case by (rule affinity_call [of os tid m s]) simp
next
  case (call_revert s m)
  show ?case by (rule affinity_call [of os tid m s]) (simp add: KeRevertToUserAffinityThreadEx_def)
next
  case (call_group_affinity s a old s')
  then show ?case using group_affinity_call by (metis only_thread_upd)
next
  case (call_group_revert s a s')
  then show ?case using group_affinity_call by (metis only_thread_upd)
qed (auto dest: spin_lock_frame(1,2) intro!: only_thread_cong simp: spin_lock_frame(3))

lemma thread_ok_rest:
  assumes "irql_inv c s" "irql_pc (threads s tid) = At_Rest"
  shows "cache_ok c (threads s tid)" "DISPATCH_LEVEL \<le> current_irql (threads s tid) \<Longrightarrow> owns_processor c tid s"
  using assms by (auto simp: irql_inv_def thread_ok_def dest: spec [of _ tid])

lemma raise_begin_inv:
  assumes c: "config_ok c" "group_map os = config_map c" and inv: "irql_inv c s"
    and rest: "irql_pc (threads s tid) = At_Rest"
    and r: "runs_on c (threads s tid) p" "KfRaiseIrql_begin os tid p new s = Inr (old, s')"
  shows "irql_inv c s'"
  using r(2)
proof (cases rule: raise_begin_cases)
  case stay
  show ?thesis unfolding stay(3)
    using stay(1) rest thread_ok_rest [OF inv rest] by (intro inv_local [OF inv]) (auto simp: thread_ok_def owns_processor_def)
next
  case (dispatch i a t2)
  let ?t0 = "(threads s tid)\<lparr>current_irql := new\<rparr>"
  have ok: "cache_ok c ?t0" using thread_ok_rest [OF inv rest] by simp
  have "pinned_to c t2 p"
    by (rule set_affinity_pins [OF c(1) _ ok dispatch(5)]) (simp add: r(1))
  moreover have "cache_ok c t2" by (rule set_affinity_cache_ok [OF dispatch(5) ok])
  ultimately show ?thesis unfolding dispatch(6)
    using dispatch(4) c(2) by (intro inv_local [OF inv]) (auto simp: thread_ok_def)
qed

lemma raise_lock_inv:
  assumes inv: "irql_inv c s" and pc: "irql_pc (threads s tid) = Locking i" and e: "KfRaiseIrql_lock tid s = Inr (Returns s')"
  shows "irql_inv c s'"
proof (rule inv_step [OF inv])
  note R = raise_lock_Returns [OF e pc]
  show "only_thread tid s s'" unfolding R(3) by (rule only_thread_lock [OF R(1,2)])
  show "thread_ok c s' tid"
    using inv pc R(1) by (fastforce simp: R(3) irql_inv_def thread_ok_def owns_processor_def dest!: spec [of _ tid])
qed

lemma lower_begin_inv:
  assumes inv: "irql_inv c s" and rest: "irql_pc (threads s tid) = At_Rest"
    and r: "KeLowerIrql_begin os tid p new s = Inr s'" and down: "new \<le> current_irql (threads s tid)"
  shows "irql_inv c s'"
  using r
proof (cases rule: lower_begin_cases)
  case stay
  show ?thesis unfolding stay(2)
    using down thread_ok_rest [OF inv rest] by (intro inv_local [OF inv]) (auto simp: thread_ok_def owns_processor_def)
next
  case (dispatch i)
  show ?thesis
  proof (rule inv_step [OF inv])
    show "only_thread tid s s'" unfolding dispatch(6) by (rule only_thread_unlock [OF dispatch(5)])
    show "thread_ok c s' tid" using dispatch(2) thread_ok_rest(1) [OF inv rest] by (simp add: dispatch(6) thread_ok_def)
  qed
qed

lemma lower_finish_inv:
  assumes inv: "irql_inv c s" and pc: "irql_pc (threads s tid) = Unlocked new" and e: "KeLowerIrql_finish os tid s = Inr s'"
  shows "irql_inv c s'"
proof -
  have ok: "cache_ok c (threads s tid)" "new < DISPATCH_LEVEL"
    using inv pc by (auto simp: irql_inv_def thread_ok_def dest: spec [of _ tid])
  obtain old t1 where
      t1: "usersim_set_current_thread_affinity os (group_before_raise_irql (threads s tid)) (threads s tid) = ((True, old), t1)"
    and s': "s' = upd_thread tid (\<lambda>_. t1\<lparr>current_irql := new, irql_pc := At_Rest\<rparr>) s"
    by (rule lower_finish_Inr [OF e pc])
  show ?thesis unfolding s' using ok set_affinity_cache_ok [OF t1] by (intro inv_local [OF inv]) (auto simp: thread_ok_def)
qed

lemma affinity_inv:
  assumes inv: "irql_inv c s" and rest: "irql_pc (threads s tid) = At_Rest"
  shows "irql_inv c (snd (KeSetSystemAffinityThreadEx os tid m s))"
proof (rule affinity_call [of os tid m s c])
  fix t'
  assume t': "snd (KeSetSystemAffinityThreadEx os tid m s) = upd_thread tid (\<lambda>_. t') s"
    "current_irql t' = current_irql (threads s tid)" "irql_pc t' = irql_pc (threads s tid)"
    "DISPATCH_LEVEL \<le> current_irql (threads s tid) \<Longrightarrow> os_affinity t' = os_affinity (threads s tid)"
    "current_irql (threads s tid) < DISPATCH_LEVEL \<Longrightarrow> cache_ok c (threads s tid) \<Longrightarrow> cache_ok c t'"
  note R = thread_ok_rest [OF inv rest]
  have "thread_ok c (upd_thread tid (\<lambda>_. t') s) tid"
  proof (cases "DISPATCH_LEVEL \<le> current_irql (threads s tid)")
    case True
    then show ?thesis using R(2) t'(2,3,4) rest
      by (auto simp: thread_ok_def owns_processor_def cache_ok_def pinned_to_def)
  next
    case False
    then show ?thesis using t'(2,3,5) rest R(1) by (simp add: thread_ok_def)
  qed
  then show ?thesis unfolding t'(1) by (rule inv_local [OF inv])
qed

lemma group_affinity_inv:
  assumes inv: "irql_inv c s" and rest: "irql_pc (threads s tid) = At_Rest" and low: "current_irql (threads s tid) < DISPATCH_LEVEL"
    and e: "KeSetSystemGroupAffinityThread os tid a s = Inr (old, s') \<or> KeRevertToUserGroupAffinityThread os tid a s = Inr s'"
  shows "irql_inv c s'"
proof (rule group_affinity_call [OF e])
  fix t'
  assume t': "s' = upd_thread tid (\<lambda>_. t') s" "current_irql t' = current_irql (threads s tid)"
    "irql_pc t' = irql_pc (threads s tid)" "cache_ok c (threads s tid) \<Longrightarrow> cache_ok c t'"
  show ?thesis unfolding t'(1)
    using t' low rest thread_ok_rest(1) [OF inv rest] by (intro inv_local [OF inv]) (auto simp: thread_ok_def)
qed

lemma spin_lock_inv:
  assumes "irql_inv c s" "threads s' = threads s \<and> dispatch_locks s' = dispatch_locks s"
  shows "irql_inv c s'"
proof -
  have "owns_processor c tid s' = owns_processor c tid s" for tid using assms(2) by (simp add: owns_processor_def)
  then have "thread_ok c s' tid = thread_ok c s tid" for tid
    using assms(2) by (cases "irql_pc (threads s tid)") (simp_all add: thread_ok_def)
  then show ?thesis using assms by (simp add: irql_inv_def)
qed

lemma irql_call_inv:
  assumes c: "config_ok c" "group_map os = config_map c" and "irql_call c os tid a s s'" "driver_rules s tid a" "irql_inv c s"
  shows "irql_inv c s'"
  using assms(3-5)
proof (induction rule: irql_call.induct)
  case (call_raise s p new_irql old_irql s')
  then show ?case using raise_begin_inv [OF c] by blast
next
  case (call_locked s i s')
  then show ?case using raise_lock_inv by blast
next
  case (call_lower s p new_irql s')
  then show ?case using lower_begin_inv by (simp add: driver_rules_def)
next
  case (call_lowered s n s')
  then show ?case using lower_finish_inv by blast
next
  case (call_affinity s m)
  then show ?case by (simp add: affinity_inv)
next
  case (call_revert s m)
  then show ?case by (simp add: affinity_inv KeRevertToUserAffinityThreadEx_def)
next
  case (call_group_affinity s a old s')
  then show ?case using group_affinity_inv by (fastforce simp: driver_rules_def)
next
  case (call_group_revert s a s')
  then show ?case using group_affinity_inv by (fastforce simp: driver_rules_def)
qed (auto intro: spin_lock_inv dest: spin_lock_frame(1,2) simp: spin_lock_frame(3))

lemma dpc_lock_inv:
  assumes inv: "irql_inv c s" and p: "pinned_to c (threads s tid) p" "KeGetProcessorIndexFromNumber (config_map c) p = Inr i"
    and e: "dpc_worker_lock tid i s = Inr (Returns s')"
  shows "irql_inv c s'"
proof (rule inv_step [OF inv])
  note R = dpc_worker_lock_Returns [OF e]
  show "only_thread tid s s'" unfolding R(3) by (rule only_thread_lock [OF R(1,2)])
  have "cache_ok c (threads s tid)" using inv by (auto simp: irql_inv_def thread_ok_def dest: spec [of _ tid])
  then show "thread_ok c s' tid" using p R(1) by (auto simp: R(3) thread_ok_def owns_processor_def)
qed

lemma dpc_raise_inv:
  assumes inv: "irql_inv c s" and pc: "irql_pc (threads s tid) = Dpc_Locked"
  shows "irql_inv c (dpc_worker_raise tid s)"
  unfolding dpc_worker_raise_def
proof (rule inv_local [OF inv])
  have "thread_ok c s tid" using inv by (simp add: irql_inv_def)
  then show "thread_ok c (upd_thread tid (\<lambda>t. t\<lparr>current_irql := DISPATCH_LEVEL, irql_pc := At_Rest\<rparr>) s) tid"
    using pc by (auto simp: thread_ok_def owns_processor_def)
qed

lemma dpc_unlock_inv:
  assumes inv: "irql_inv c s" and e: "dpc_worker_unlock tid i s = Inr s'"
  shows "irql_inv c s'"
proof (rule inv_step [OF inv])
  note R = dpc_worker_unlock_Inr [OF e]
  show "only_thread tid s s'" unfolding R(2) by (rule only_thread_unlock [OF R(1)])
  have "cache_ok c (threads s tid)" using inv by (auto simp: irql_inv_def thread_ok_def dest: spec [of _ tid])
  then show "thread_ok c s' tid" by (simp add: R(2) thread_ok_def)
qed

lemma dpc_lower_inv:
  assumes inv: "irql_inv c s"
  shows "irql_inv c (dpc_worker_lower tid s)"
  unfolding dpc_worker_lower_def
proof (rule inv_local [OF inv])
  have "cache_ok c (threads s tid)" using inv by (auto simp: irql_inv_def thread_ok_def dest: spec [of _ tid])
  then show "thread_ok c (upd_thread tid (\<lambda>t. t\<lparr>current_irql := PASSIVE_LEVEL, irql_pc := At_Rest\<rparr>) s) tid"
    by (simp add: thread_ok_def)
qed

lemma irql_step_inv:
  assumes c: "config_ok c" "group_map os = config_map c" and "irql_step driver_rules c os s s'" "irql_inv c s"
  shows "irql_inv c s'"
  using assms(3,4) irql_call_inv [OF c] dpc_lock_inv dpc_raise_inv dpc_unlock_inv dpc_lower_inv
  by (induction rule: irql_step.induct) blast+

lemma irql_init_inv: "irql_init c s \<Longrightarrow> irql_inv c s"
  by (simp add: irql_init_def irql_inv_def thread_ok_def cache_ok_def)

lemma irql_reachable_inv:
  assumes "irql_reachable driver_rules c os s" "config_ok c" "group_map os = config_map c"
  shows "irql_inv c s"
  using assms by (induction rule: irql_reachable.induct) (use irql_init_inv irql_step_inv in blast)+

section \<open>Properties\<close>

text \<open>A thread that may raise its level: one processor, one thread on it, every system call succeeds.\<close>

definition one_processor :: processor_config where
  "one_processor = (\<lambda>_. 1, 1, 1)"

definition sample_os :: irql_os where
  "sample_os = \<lparr>set_priority_ok = \<lambda>_. True, set_affinity_ok = \<lambda>_. True, process_mask = Some 1,
                group_map = config_map one_processor\<rparr>"

definition sample_thread :: thread_state where
  "sample_thread = \<lparr>irql_pc = At_Rest, current_irql = PASSIVE_LEVEL, group_affinity_cache = \<lparr>ga_Mask = 0, ga_Group = 0\<rparr>,
     group_before_raise_irql = \<lparr>ga_Mask = 0, ga_Group = 0\<rparr>, priority_cache = 0,
     priority_before_raise_irql = 0, os_affinity = \<lparr>ga_Mask = 1, ga_Group = 0\<rparr>, os_priority = 0\<rparr>"

definition sample_irql :: irql_state where
  "sample_irql = \<lparr>threads = \<lambda>_. sample_thread, dispatch_locks = [None], spin_locks = \<lambda>_. None\<rparr>"

definition cpu0 :: processor_number where
  "cpu0 = \<lparr>pn_Group = 0, pn_Number = 0\<rparr>"

lemma one_processor_map: "config_map one_processor = [0]"
  by (simp add: config_map_def one_processor_def group_to_index_map_def)

lemmas irql_eval = sample_os_def sample_thread_def sample_irql_def cpu0_def one_processor_map
  KfRaiseIrql_def KfRaiseIrql_begin_def KfRaiseIrql_lock_def KeGetCurrentIrql_def KeGetCurrentProcessorNumberEx_def
  KeGetProcessorIndexFromNumber_def set_current_thread_priority_by_irql_def usersim_set_current_thread_affinity_def processor_affinity_def
  lock_dispatch_def unlock_dispatch_def upd_thread_def Let_def

lemma sample_raise_begin:
  obtains s where "KfRaiseIrql_begin sample_os 3 cpu0 DISPATCH_LEVEL sample_irql = Inr (PASSIVE_LEVEL, s)"
    "irql_pc (threads s 3) = Locking 0" "dispatch_locks s = [None]"
    "os_affinity (threads s 3) = \<lparr>ga_Mask = 1, ga_Group = 0\<rparr>" "DISPATCH_LEVEL \<le> KeGetCurrentIrql 3 s"
  by (simp add: irql_eval)

lemma sample_raise:
  obtains s where "KfRaiseIrql sample_os 3 cpu0 DISPATCH_LEVEL sample_irql = Inr (Done (PASSIVE_LEVEL, s))"
    "os_affinity (threads s 3) = \<lparr>ga_Mask = 1, ga_Group = 0\<rparr>" "DISPATCH_LEVEL \<le> KeGetCurrentIrql 3 s"
    "dispatch_locks s = [Some 3]"
  by (simp add: irql_eval)

lemma one_processor_ok: "config_ok one_processor"
  by (simp add: config_ok_def one_processor_def processor_counts_ok_def)

lemma sample_runs_on: "runs_on one_processor (threads sample_irql tid) cpu0"
  by (simp add: runs_on_def sample_irql_def sample_thread_def cpu0_def processor_exists_def one_processor_def)

lemma sample_irql_reachable: "irql_reachable rules one_processor sample_os sample_irql"
  by (rule irql_reachable.init) (simp add: irql_init_def sample_irql_def sample_thread_def config_count_def one_processor_def)

text \<open>Two raised threads that run on the same processor own the same dispatch lock.\<close>

lemma irql_inv_exclusive:
  assumes "config_ok c" and inv: "irql_inv c s"
    and "raised t1 s" "runs_on c (threads s t1) p" and "raised t2 s" "runs_on c (threads s t2) p"
  shows "t1 = t2"
proof -
  obtain q1 i1 where q1: "pinned_to c (threads s t1) q1" "KeGetProcessorIndexFromNumber (config_map c) q1 = Inr i1"
      "dispatch_locks s ! unat i1 = Some t1"
    using thread_ok_rest(2) [OF inv, of t1] assms(3) by (auto simp: raised_def KeGetCurrentIrql_def owns_processor_def)
  obtain q2 i2 where q2: "pinned_to c (threads s t2) q2" "KeGetProcessorIndexFromNumber (config_map c) q2 = Inr i2"
      "dispatch_locks s ! unat i2 = Some t2"
    using thread_ok_rest(2) [OF inv, of t2] assms(5) by (auto simp: raised_def KeGetCurrentIrql_def owns_processor_def)
  have "q1 = q2" using runs_on_pinned [OF assms(1,4) q1(1)] runs_on_pinned [OF assms(1,6) q2(1)] by simp
  with q1 q2 show ?thesis by simp
qed



text \<open>
  The round trip of the affinity: a thread whose affinity in the operating system is the cached one, or the default of the process if the cached mask is 0, gets it back.
\<close>

definition known_affinity :: "irql_os \<Rightarrow> thread_state \<Rightarrow> bool" where
  "known_affinity os t \<longleftrightarrow> set_affinity_ok os (os_affinity t) \<and>
     (if ga_Mask (group_affinity_cache t) = 0
      then (case process_mask os of None \<Rightarrow> False | Some m \<Rightarrow> m \<noteq> 0 \<and> os_affinity t = \<lparr>ga_Mask = m, ga_Group = 0\<rparr>)
      else os_affinity t = group_affinity_cache t)"

lemma set_affinity_back:
  assumes "usersim_set_current_thread_affinity os a t = ((True, Some old), t2)" "known_affinity os t"
    and "os_affinity t3 = os_affinity t2" "group_affinity_cache t3 = group_affinity_cache t2"
  shows "\<exists>x. usersim_set_current_thread_affinity os old t3 =
               ((True, x), t3\<lparr>os_affinity := os_affinity t, group_affinity_cache := group_affinity_cache t\<rparr>)"
proof -
  have old: "old = group_affinity_cache t" "group_affinity_cache t2 = a" using set_affinity_result [OF assms(1)] by simp_all
  have same: "t3\<lparr>os_affinity := os_affinity t3, group_affinity_cache := group_affinity_cache t3\<rparr> = t3" by simp
  show ?thesis
  proof (cases "a = group_affinity_cache t")
    case True
    then have "t2 = t" using assms(1) by (simp add: usersim_set_current_thread_affinity_def)
    then show ?thesis using True old assms(3,4) same by (simp add: usersim_set_current_thread_affinity_def)
  next
    case False
    then show ?thesis using old assms(2-4)
      by (auto simp: usersim_set_current_thread_affinity_def known_affinity_def split: if_splits option.splits)
  qed
qed

text \<open>
  C27: releasing a spin lock undoes acquiring it. A thread below \<^verbatim>\<open>DISPATCH_LEVEL\<close>, whose affinity in the operating system is the cached one (or the default of the process, if
  it has not set one) and accepted by the operating system, after \<^verbatim>\<open>KeAcquireSpinLockRaiseToDpc\<close> has returned the old level, calls \<^verbatim>\<open>KeReleaseSpinLock\<close> with that level. The call does not fail, and it
  restores everything: the level, the priority, the cached affinity and the real affinity of the thread, the owners of all dispatch locks and spin locks, and the
  state of every other thread. Only the saved affinity that the next raise overwrites may differ.
\<close>
theorem spin_lock_roundtrip:
  assumes "KeAcquireSpinLockRaiseToDpc os tid p l s = Inr (Done (old_irql, s1))"
    and "KeGetCurrentIrql tid s < DISPATCH_LEVEL" "irql_pc (threads s tid) = At_Rest" "known_affinity os (threads s tid)"
  shows "\<exists>s2 saved. KeReleaseSpinLock os tid p l old_irql s1 = Inr s2 \<and>
              threads s2 = (threads s)(tid := (threads s tid)\<lparr>group_before_raise_irql := saved\<rparr>) \<and>
              dispatch_locks s2 = dispatch_locks s \<and> spin_locks s2 = spin_locks s"
proof -
  let ?t = "threads s tid"
  obtain s0 sb where s0: "KfRaiseIrql_begin os tid p DISPATCH_LEVEL s = Inr (old_irql, sb)" "KfRaiseIrql_lock tid sb = Inr (Returns s0)"
      "spin_locks s0 l = None" "s1 = s0\<lparr>spin_locks := (spin_locks s0)(l := Some tid)\<rparr>"
    using assms(1) by (auto simp: KeAcquireSpinLockRaiseToDpc_def KeRaiseIrqlToDpcLevel_def KfRaiseIrql_def
        KeAcquireSpinLockAtDpcLevel_def split: sum.splits outcome.splits option.splits attempt.splits)
  obtain i a t2 where d: "old_irql = current_irql ?t" "KeGetProcessorIndexFromNumber (group_map os) p = Inr i"
      "usersim_set_current_thread_affinity os (processor_affinity p) (?t\<lparr>current_irql := DISPATCH_LEVEL\<rparr>) = ((True, Some a), t2)"
      "sb = upd_thread tid (\<lambda>_. t2\<lparr>group_before_raise_irql := a, irql_pc := Locking i\<rparr>) s"
    using s0(1) assms(2) by (cases rule: raise_begin_cases) (auto simp: KeGetCurrentIrql_def)
  have pc: "irql_pc (threads sb tid) = Locking i" using d(4) by simp
  note lk = raise_lock_Returns [OF s0(2) pc]
  let ?t3 = "t2\<lparr>group_before_raise_irql := a, irql_pc := Unlocked old_irql\<rparr>"
  have t2: "t2\<lparr>group_before_raise_irql := a, os_affinity := os_affinity ?t, group_affinity_cache := group_affinity_cache ?t, current_irql := old_irql,
      irql_pc := At_Rest\<rparr> = ?t\<lparr>group_before_raise_irql := a\<rparr>"
    using set_affinity_frame [OF d(3)] d(1) assms(3) by simp
  have kn: "known_affinity os (?t\<lparr>current_irql := DISPATCH_LEVEL\<rparr>)" using assms(4) by (simp add: known_affinity_def split: if_splits option.splits)
  obtain x where x: "usersim_set_current_thread_affinity os a ?t3 =
      ((True, x), ?t3\<lparr>os_affinity := os_affinity ?t, group_affinity_cache := group_affinity_cache ?t\<rparr>)"
    using set_affinity_back [OF d(3) kn, of ?t3] by auto
  have up: "current_irql t2 = DISPATCH_LEVEL" using set_affinity_frame(1) [OF d(3)] by simp
  have keep: "(dispatch_locks s)[unat i := None] = dispatch_locks s" "(spin_locks s)(l := None) = spin_locks s"
    using lk d(4) s0(3) by (simp_all add: list_update_same_conv fun_upd_idem_iff)
  show ?thesis
    apply (rule exI [of _ "s\<lparr>threads := (threads s)(tid := ?t\<lparr>group_before_raise_irql := a\<rparr>)\<rparr>"], rule exI [of _ a])
    using s0(3,4) d(1,2,4) lk assms(2) up x keep t2
    by (simp add: KeReleaseSpinLock_def KeReleaseSpinLockFromDpcLevel_def KeLowerIrql_def KeLowerIrql_begin_def KeLowerIrql_finish_def
        KeGetCurrentProcessorNumberEx_def KeGetCurrentIrql_def unlock_dispatch_def upd_thread_def)
qed

theorem spin_lock_roundtrip_witness:
  "\<exists>s1 s2. KeAcquireSpinLockRaiseToDpc sample_os 3 cpu0 64 sample_irql = Inr (Done (PASSIVE_LEVEL, s1)) \<and>
           KeReleaseSpinLock sample_os 3 cpu0 64 PASSIVE_LEVEL s1 = Inr s2 \<and> os_affinity (threads s2 3) = \<lparr>ga_Mask = 1, ga_Group = 0\<rparr> \<and>
           dispatch_locks s2 = dispatch_locks sample_irql \<and> spin_locks s2 = spin_locks sample_irql"
proof -
  obtain s1 where s1: "KeAcquireSpinLockRaiseToDpc sample_os 3 cpu0 64 sample_irql = Inr (Done (PASSIVE_LEVEL, s1))"
    by (simp add: KeAcquireSpinLockRaiseToDpc_def KeRaiseIrqlToDpcLevel_def KeAcquireSpinLockAtDpcLevel_def irql_eval)
  from spin_lock_roundtrip [OF s1] show ?thesis
    using s1 by (auto simp: KeGetCurrentIrql_def sample_irql_def sample_thread_def sample_os_def known_affinity_def)
qed

text \<open>
  the priority of a thread never follows its level. \<^verbatim>\<open>KfRaiseIrql\<close> and \<^verbatim>\<open>KeLowerIrql\<close> store the new
  level before they call \<^verbatim>\<open>_set_current_thread_priority_by_irql\<close>, which returns at once when the stored
  level is the requested one; no call to either changes the priority of the thread in the operating system.
\<close>
theorem irql_never_changes_priority:
  assumes "KfRaiseIrql_begin os tid p new_irql s = Inr (old_irql, s1) \<or> KeLowerIrql_begin os tid p new_irql s = Inr s1 \<or>
           KfRaiseIrql_lock tid s = Inr (Returns s1) \<or> KeLowerIrql_finish os tid s = Inr s1"
  shows "os_priority (threads s1 x) = os_priority (threads s x)"
  using assms
proof (elim disjE)
  assume "KfRaiseIrql_begin os tid p new_irql s = Inr (old_irql, s1)"
  then show ?thesis by (cases rule: raise_begin_cases) (auto dest: set_affinity_frame(3))
next
  assume "KeLowerIrql_begin os tid p new_irql s = Inr s1"
  then show ?thesis by (cases rule: lower_begin_cases) simp_all
next
  assume "KfRaiseIrql_lock tid s = Inr (Returns s1)"
  then show ?thesis by (auto simp: KfRaiseIrql_lock_def dest: lock_dispatchD(3) split: irql_point.splits sum.splits outcome.splits)
next
  assume "KeLowerIrql_finish os tid s = Inr s1"
  then show ?thesis
    by (cases "irql_pc (threads s tid)") (auto simp: KeLowerIrql_finish_def dest: set_affinity_frame(3) split: prod.splits if_splits)
qed

theorem irql_never_changes_priority_witness:
  "\<exists>s1. KfRaiseIrql_begin sample_os 3 cpu0 DISPATCH_LEVEL sample_irql = Inr (PASSIVE_LEVEL, s1) \<and>
        os_priority (threads s1 3) = 0"
proof -
  obtain s1 where s1: "KfRaiseIrql_begin sample_os 3 cpu0 DISPATCH_LEVEL sample_irql = Inr (PASSIVE_LEVEL, s1)"
    by (rule sample_raise_begin)
  with irql_never_changes_priority [of sample_os 3 cpu0 DISPATCH_LEVEL sample_irql PASSIVE_LEVEL s1 3]
  show ?thesis by (simp add: sample_irql_def sample_thread_def)
qed

text \<open>
  an affinity that a driver sets at \<^verbatim>\<open>DISPATCH_LEVEL\<close> is never applied. \<^verbatim>\<open>KeSetSystemAffinityThreadEx\<close>
  stores it both in the cache and as the affinity to restore, so \<^verbatim>\<open>KeLowerIrql\<close> finds the cache equal to the
  affinity to restore and makes no system call: the thread stays pinned to the processor it was raised on,
  while the cache claims the new affinity.
\<close>
theorem affinity_at_dispatch_lost:
  assumes "DISPATCH_LEVEL \<le> KeGetCurrentIrql tid s" "new_irql < DISPATCH_LEVEL"
    and "KeLowerIrql os tid p new_irql (snd (KeSetSystemAffinityThreadEx os tid affinity s)) = Inr s2"
  shows "os_affinity (threads s2 tid) = os_affinity (threads s tid) \<and>
         ga_Mask (group_affinity_cache (threads s2 tid)) = affinity"
proof -
  let ?a = "\<lparr>ga_Mask = affinity, ga_Group = ga_Group (group_affinity_cache (threads s tid))\<rparr>"
  let ?t = "(threads s tid)\<lparr>group_affinity_cache := ?a, group_before_raise_irql := ?a\<rparr>"
  have k: "snd (KeSetSystemAffinityThreadEx os tid affinity s) = upd_thread tid (\<lambda>_. ?t) s"
    using assms(1) by (simp add: KeSetSystemAffinityThreadEx_def KeGetCurrentIrql_def Let_def upd_thread_def)
  have set: "usersim_set_current_thread_affinity os ?a (?t\<lparr>irql_pc := q\<rparr>) = ((True, Some ?a), ?t\<lparr>irql_pc := q\<rparr>)" for q
    by (simp add: usersim_set_current_thread_affinity_def)
  obtain s1 where s1: "KeLowerIrql_begin os tid p new_irql (upd_thread tid (\<lambda>_. ?t) s) = Inr s1" "KeLowerIrql_finish os tid s1 = Inr s2"
    using assms(3) unfolding k by (auto simp: KeLowerIrql_def split: sum.splits)
  from s1(1) show ?thesis
  proof (cases rule: lower_begin_cases)
    case stay
    then show ?thesis using assms(1,2) by (simp add: KeGetCurrentIrql_def)
  next
    case (dispatch i)
    then show ?thesis using s1(2) set [of "Unlocked new_irql"] by (auto simp: KeLowerIrql_finish_def)
  qed
qed

theorem affinity_at_dispatch_lost_witness:
  "\<exists>s s2. KfRaiseIrql sample_os 3 cpu0 DISPATCH_LEVEL sample_irql = Inr (Done (PASSIVE_LEVEL, s)) \<and>
          KeLowerIrql sample_os 3 cpu0 PASSIVE_LEVEL (snd (KeSetSystemAffinityThreadEx sample_os 3 6 s)) = Inr s2 \<and>
          os_affinity (threads s2 3) = \<lparr>ga_Mask = 1, ga_Group = 0\<rparr> \<and>
          ga_Mask (group_affinity_cache (threads s2 3)) = 6"
proof -
  obtain s where s: "KfRaiseIrql sample_os 3 cpu0 DISPATCH_LEVEL sample_irql = Inr (Done (PASSIVE_LEVEL, s))"
      "os_affinity (threads s 3) = \<lparr>ga_Mask = 1, ga_Group = 0\<rparr>" "DISPATCH_LEVEL \<le> KeGetCurrentIrql 3 s"
      "dispatch_locks s = [Some 3]"
    by (rule sample_raise)
  obtain s2 where s2: "KeLowerIrql sample_os 3 cpu0 PASSIVE_LEVEL (snd (KeSetSystemAffinityThreadEx sample_os 3 6 s)) = Inr s2"
    using s(3,4) by (auto simp: KeLowerIrql_def KeLowerIrql_begin_def KeLowerIrql_finish_def KeSetSystemAffinityThreadEx_def irql_eval)
  from affinity_at_dispatch_lost [OF s(3) _ s2] s s2 show ?thesis by auto
qed

section \<open>The rule on group affinities is needed\<close>

text \<open>
  Two processors. Thread 3 raises its level on the first and then moves itself to the second, where thread 4 raises its level: both are raised there, each with a dispatch
  lock of its own.
\<close>

definition two_processors :: processor_config where
  "two_processors = (\<lambda>_. 2, 1, 2)"

definition two_os :: irql_os where
  "two_os = sample_os\<lparr>process_mask := Some 3\<rparr>"

definition two_irql :: irql_state where
  "two_irql = \<lparr>threads = \<lambda>_. sample_thread\<lparr>os_affinity := \<lparr>ga_Mask = 3, ga_Group = 0\<rparr>\<rparr>, dispatch_locks = [None, None],
     spin_locks = \<lambda>_. None\<rparr>"

definition cpu1 :: processor_number where
  "cpu1 = \<lparr>pn_Group = 0, pn_Number = 1\<rparr>"

lemma group_affinity_breaks_exclusion:
  "\<exists>s. irql_reachable (\<lambda>_ _ _. True) two_processors two_os s \<and> raised 3 s \<and> raised 4 s \<and>
       runs_on two_processors (threads s 3) cpu1 \<and> runs_on two_processors (threads s 4) cpu1"
proof -
  let ?R = "irql_reachable (\<lambda>_ _ _. True) two_processors two_os"
  have go: "?R s'" if "?R s" "irql_call two_processors two_os tid a s s'" for s s' tid a
    using that by (blast intro: irql_reachable.step step_call)
  let ?T = "sample_thread\<lparr>os_affinity := \<lparr>ga_Mask = 3, ga_Group = 0\<rparr>\<rparr>"
  define L where "L m i = ?T\<lparr>irql_pc := Locking i, current_irql := DISPATCH_LEVEL, group_affinity_cache := \<lparr>ga_Mask = m, ga_Group = 0\<rparr>,
    os_affinity := \<lparr>ga_Mask = m, ga_Group = 0\<rparr>\<rparr>" for m i
  note defs = two_os_def two_irql_def cpu1_def two_processors_def L_def irql_eval
  have on: "runs_on two_processors ?T cpu0" "runs_on two_processors ?T cpu1"
    by (simp_all add: runs_on_def cpu0_def cpu1_def two_processors_def processor_exists_def bit_numeral_rec)
  define s1 where "s1 = two_irql\<lparr>threads := (threads two_irql)(3 := L 1 0)\<rparr>"
  define s2 where "s2 = two_irql\<lparr>threads := (threads two_irql)(3 := (L 1 0)\<lparr>irql_pc := At_Rest\<rparr>), dispatch_locks := [Some 3, None]\<rparr>"
  define s3 where "s3 = two_irql\<lparr>threads := (threads two_irql)(3 := (L 2 0)\<lparr>irql_pc := At_Rest\<rparr>), dispatch_locks := [Some 3, None]\<rparr>"
  define s4 where "s4 = s3\<lparr>threads := (threads s3)(4 := L 2 1)\<rparr>"
  define s5 where "s5 = s3\<lparr>threads := (threads s3)(4 := (L 2 1)\<lparr>irql_pc := At_Rest\<rparr>), dispatch_locks := [Some 3, Some 4]\<rparr>"
  note states = s1_def s2_def s3_def s4_def s5_def
  have "?R two_irql" by (rule irql_reachable.init) (simp add: irql_init_def config_count_def defs, simp add: numeral_2_eq_2)
  moreover have "irql_call two_processors two_os 3 (Raise_Irql DISPATCH_LEVEL) two_irql s1"
    by (rule call_raise [where p = cpu0 and old_irql = PASSIVE_LEVEL]) (use on(1) in \<open>simp_all add: two_irql_def\<close>, simp_all add: states defs)
  moreover have "irql_call two_processors two_os 3 Resume s1 s2"
    by (rule call_locked [where i = 0]) (simp_all add: states defs)
  moreover have "irql_call two_processors two_os 3 (Set_Group_Affinity \<lparr>ga_Mask = 2, ga_Group = 0\<rparr>) s2 s3"
    by (rule call_group_affinity [where old = "Some \<lparr>ga_Mask = 1, ga_Group = 0\<rparr>"]) (simp_all add: states KeSetSystemGroupAffinityThread_def defs)
  moreover have "irql_call two_processors two_os 4 (Raise_Irql DISPATCH_LEVEL) s3 s4"
    by (rule call_raise [where p = cpu1 and old_irql = PASSIVE_LEVEL])
      (use on(2) in \<open>simp_all add: s3_def two_irql_def\<close>, simp_all add: states defs)
  moreover have "irql_call two_processors two_os 4 Resume s4 s5"
    by (rule call_locked [where i = 1]) (simp_all add: states defs)
  ultimately have "?R s5" using go by metis
  then show ?thesis
    by (rule exI [of _ s5, OF conjI])
      (simp add: s5_def s3_def L_def raised_def KeGetCurrentIrql_def runs_on_def cpu1_def two_processors_def processor_exists_def sample_thread_def)
qed

end
