(* ===== verification/Rundown.thy ===== *)
theory Rundown
  imports Usersim_Prelude
begin

text \<open>
  Rundown protection: the \<^verbatim>\<open>_rundown_ref_table\<close> of \<^verbatim>\<open>cxplat/src/cxplat_winuser/rundown_winuser.cpp\<close> and the
  \<^verbatim>\<open>Ex*RundownProtection*\<close> wrappers of \<^verbatim>\<open>src/ex.cpp\<close>. Each definition is one critical section of the
  table's mutex; the wait is split into the part before it sleeps and the condition under which it
  returns. The locale \<open>rundown_protection\<close> is the contract that clients, such as the work items of
  theory \<open>Work_Item\<close>, rely on.
\<close>

section \<open>The table\<close>

type_synonym rundown_table = "ptr \<rightharpoonup> bool \<times> u64"

definition initialize_rundown_ref :: "ptr \<Rightarrow> rundown_table \<Rightarrow> rundown_table" where
  "initialize_rundown_ref context t =
     (let t1 = (if t context \<noteq> None then t(context := None) else t) in t1(context \<mapsto> (False, 0)))"

definition reinitialize_rundown_ref :: "ptr \<Rightarrow> rundown_table \<Rightarrow> rundown_table result" where
  "reinitialize_rundown_ref context t =
     (case t context of
        None \<Rightarrow> Inl (Runtime_Error ''rundown ref table not initialized'')
      | Some (rundown, ref_count) \<Rightarrow>
          if \<not> rundown then Inl (Runtime_Error ''rundown ref table not rundown'')
          else if ref_count \<noteq> 0 then Inl (Runtime_Error ''rundown ref table corruption'')
          else Inr (t(context \<mapsto> (False, ref_count))))"

definition acquire_rundown_ref :: "ptr \<Rightarrow> rundown_table \<Rightarrow> (bool \<times> rundown_table) result" where
  "acquire_rundown_ref context t =
     (case t context of
        None \<Rightarrow> Inl (Runtime_Error ''rundown ref table not initialized'')
      | Some (rundown, ref_count) \<Rightarrow>
          if rundown then Inr (False, t) else Inr (True, t(context \<mapsto> (rundown, ref_count + 1))))"

definition release_rundown_ref :: "ptr \<Rightarrow> rundown_table \<Rightarrow> rundown_table result" where
  "release_rundown_ref context t =
     (case t context of
        None \<Rightarrow> Inl (Runtime_Error ''rundown ref table not initialized'')
      | Some (rundown, ref_count) \<Rightarrow>
          if ref_count = 0 then Inl (Runtime_Error ''rundown ref table already released'')
          else Inr (t(context \<mapsto> (rundown, ref_count - 1))))"

definition wait_for_rundown_ref_begin :: "ptr \<Rightarrow> rundown_table \<Rightarrow> rundown_table result" where
  "wait_for_rundown_ref_begin context t =
     (case t context of
        None \<Rightarrow> Inl (Runtime_Error ''rundown ref table not initialized'')
      | Some (rundown, ref_count) \<Rightarrow> Inr (t(context \<mapsto> (True, ref_count))))"

definition wait_for_rundown_ref_done :: "ptr \<Rightarrow> rundown_table \<Rightarrow> bool" where
  "wait_for_rundown_ref_done context t \<longleftrightarrow> (\<exists>rundown \<in> {True, False}. t context = Some (rundown, 0))"

section \<open>The cxplat and Ex entry points\<close>

definition cxplat_initialize_rundown_protection :: "ptr \<Rightarrow> rundown_table \<Rightarrow> rundown_table" where
  "cxplat_initialize_rundown_protection = initialize_rundown_ref"

definition cxplat_reinitialize_rundown_protection :: "ptr \<Rightarrow> rundown_table \<Rightarrow> rundown_table result" where
  "cxplat_reinitialize_rundown_protection = reinitialize_rundown_ref"

definition cxplat_acquire_rundown_protection :: "ptr \<Rightarrow> rundown_table \<Rightarrow> (bool \<times> rundown_table) result" where
  "cxplat_acquire_rundown_protection r t =
     (case acquire_rundown_ref r t of Inl e \<Rightarrow> Inl e | Inr (ok, t1) \<Rightarrow> Inr (if ok then True else False, t1))"

definition cxplat_release_rundown_protection :: "ptr \<Rightarrow> rundown_table \<Rightarrow> rundown_table result" where
  "cxplat_release_rundown_protection = release_rundown_ref"

definition cxplat_wait_for_rundown_protection_release :: "ptr \<Rightarrow> rundown_table \<Rightarrow> rundown_table result" where
  "cxplat_wait_for_rundown_protection_release = wait_for_rundown_ref_begin"

definition ExInitializeRundownProtection :: "ptr \<Rightarrow> rundown_table \<Rightarrow> rundown_table" where
  "ExInitializeRundownProtection = cxplat_initialize_rundown_protection"

definition ExReInitializeRundownProtection :: "ptr \<Rightarrow> rundown_table \<Rightarrow> rundown_table result" where
  "ExReInitializeRundownProtection = cxplat_reinitialize_rundown_protection"

definition ExWaitForRundownProtectionRelease :: "ptr \<Rightarrow> rundown_table \<Rightarrow> rundown_table result" where
  "ExWaitForRundownProtectionRelease = cxplat_wait_for_rundown_protection_release"

definition ExAcquireRundownProtection :: "ptr \<Rightarrow> rundown_table \<Rightarrow> (bool \<times> rundown_table) result" where
  "ExAcquireRundownProtection = cxplat_acquire_rundown_protection"

definition ExReleaseRundownProtection :: "ptr \<Rightarrow> rundown_table \<Rightarrow> rundown_table result" where
  "ExReleaseRundownProtection = cxplat_release_rundown_protection"

text \<open>\<open>p\<close> is the address that \<^verbatim>\<open>ExAllocatePoolWithTag\<close> returned, or \<^verbatim>\<open>nullptr\<close>.\<close>

definition ExAllocateCacheAwareRundownProtection :: "ptr \<Rightarrow> rundown_table \<Rightarrow> ptr \<times> rundown_table" where
  "ExAllocateCacheAwareRundownProtection p t =
     (if p \<noteq> nullptr then (p, cxplat_initialize_rundown_protection p t) else (p, t))"

definition ExAcquireRundownProtectionCacheAware :: "ptr \<Rightarrow> rundown_table \<Rightarrow> (bool \<times> rundown_table) result" where
  "ExAcquireRundownProtectionCacheAware = cxplat_acquire_rundown_protection"

definition ExReleaseRundownProtectionCacheAware :: "ptr \<Rightarrow> rundown_table \<Rightarrow> rundown_table result" where
  "ExReleaseRundownProtectionCacheAware = cxplat_release_rundown_protection"

lemmas rundown_defs = cxplat_initialize_rundown_protection_def cxplat_reinitialize_rundown_protection_def
  cxplat_acquire_rundown_protection_def cxplat_release_rundown_protection_def
  cxplat_wait_for_rundown_protection_release_def

section \<open>The contract\<close>

text \<open>
  A rundown reference, seen by a client: \<open>held\<close> counts the references that are out, \<open>down\<close> says that a
  wait has started. While no wait has started an acquire succeeds; afterwards every acquire is refused and
  changes nothing; the wait returns when no reference is out.
\<close>

fun release_n :: "('s \<Rightarrow> 's result) \<Rightarrow> nat \<Rightarrow> 's \<Rightarrow> 's result" where
  "release_n rel 0 s = Inr s"
| "release_n rel (Suc n) s = (case rel s of Inl e \<Rightarrow> Inl e | Inr s' \<Rightarrow> release_n rel n s')"

fun acquire_n :: "('s \<Rightarrow> (bool \<times> 's) result) \<Rightarrow> nat \<Rightarrow> 's \<Rightarrow> (bool list \<times> 's) result" where
  "acquire_n acq 0 s = Inr ([], s)"
| "acquire_n acq (Suc n) s =
     (case acq s of
        Inl e \<Rightarrow> Inl e
      | Inr (b, s') \<Rightarrow> (case acquire_n acq n s' of Inl e \<Rightarrow> Inl e | Inr (bs, s'') \<Rightarrow> Inr (b # bs, s'')))"

locale rundown_protection =
  fixes ready :: "'s \<Rightarrow> bool"
    and held :: "'s \<Rightarrow> nat"
    and down :: "'s \<Rightarrow> bool"
    and acquire :: "'s \<Rightarrow> (bool \<times> 's) result"
    and release :: "'s \<Rightarrow> 's result"
    and wait_begin :: "'s \<Rightarrow> 's result"
    and wait_done :: "'s \<Rightarrow> bool"
  assumes acquire_up: "ready s \<Longrightarrow> \<not> down s \<Longrightarrow> held s < 2 ^ 64 - 1 \<Longrightarrow>
            \<exists>s'. acquire s = Inr (True, s') \<and> ready s' \<and> \<not> down s' \<and> held s' = Suc (held s)"
    and acquire_down: "ready s \<Longrightarrow> down s \<Longrightarrow> acquire s = Inr (False, s)"
    and release_held: "ready s \<Longrightarrow> 0 < held s \<Longrightarrow>
            \<exists>s'. release s = Inr s' \<and> ready s' \<and> held s' = held s - 1 \<and> (down s' \<longleftrightarrow> down s)"
    and wait_begins: "ready s \<Longrightarrow> \<exists>s'. wait_begin s = Inr s' \<and> ready s' \<and> held s' = held s \<and> down s'"
    and wait_ends: "ready s \<Longrightarrow> wait_done s \<longleftrightarrow> held s = 0"
begin

lemma acquire_n_up:
  "ready s \<Longrightarrow> \<not> down s \<Longrightarrow> held s + n < 2 ^ 64 \<Longrightarrow>
   \<exists>s'. acquire_n acquire n s = Inr (replicate n True, s') \<and> ready s' \<and> \<not> down s' \<and> held s' = held s + n"
proof (induction n arbitrary: s)
  case 0
  then show ?case by simp
next
  case (Suc n)
  then obtain s1 where s1: "acquire s = Inr (True, s1)" "ready s1" "\<not> down s1" "held s1 = Suc (held s)"
    using acquire_up [of s] by auto
  with Suc.IH [of s1] Suc.prems(3) show ?case by auto
qed

lemma acquire_n_down:
  "ready s \<Longrightarrow> down s \<Longrightarrow> acquire_n acquire n s = Inr (replicate n False, s)"
  by (induction n) (auto simp: acquire_down)

lemma release_n_held:
  "ready s \<Longrightarrow> n \<le> held s \<Longrightarrow>
   \<exists>s'. release_n release n s = Inr s' \<and> ready s' \<and> held s' = held s - n \<and> (down s' \<longleftrightarrow> down s)"
proof (induction n arbitrary: s)
  case 0
  then show ?case by simp
next
  case (Suc n)
  then obtain s1 where s1: "release s = Inr s1" "ready s1" "held s1 = held s - 1" "down s1 \<longleftrightarrow> down s"
    using release_held [of s] by auto
  with Suc.IH [of s1] Suc.prems(2) show ?case by auto
qed

text \<open>
  A client takes \<open>n\<close> references, another starts to wait: later acquires are refused, and the wait
  returns after exactly \<open>n\<close> releases.
\<close>

lemma drains:
  assumes "ready s" "\<not> down s" "held s = 0" "n < 2 ^ 64"
  shows "\<exists>s1 s2. acquire_n acquire n s = Inr (replicate n True, s1) \<and> wait_begin s1 = Inr s2 \<and>
           acquire_n acquire k s2 = Inr (replicate k False, s2) \<and>
           (\<forall>m \<le> n. \<exists>s3. release_n release m s2 = Inr s3 \<and> (wait_done s3 \<longleftrightarrow> m = n))"
proof -
  obtain s1 where s1: "acquire_n acquire n s = Inr (replicate n True, s1)" "ready s1" "held s1 = n"
    using acquire_n_up [of s n] assms by auto
  obtain s2 where s2: "wait_begin s1 = Inr s2" "ready s2" "held s2 = n" "down s2"
    using wait_begins [of s1] s1 by auto
  have "\<exists>s3. release_n release m s2 = Inr s3 \<and> (wait_done s3 \<longleftrightarrow> m = n)" if "m \<le> n" for m
    using release_n_held [of s2 m] s2 that wait_ends by fastforce
  with s1(1) s2(1) acquire_n_down [OF s2(2,4)] show ?thesis by auto
qed

end

section \<open>The table implements the contract\<close>

definition rundown_ready :: "ptr \<Rightarrow> rundown_table \<Rightarrow> bool" where
  "rundown_ready r t \<longleftrightarrow> t r \<noteq> None"

definition rundown_held :: "ptr \<Rightarrow> rundown_table \<Rightarrow> nat" where
  "rundown_held r t = (case t r of None \<Rightarrow> 0 | Some (_, n) \<Rightarrow> unat n)"

definition rundown_down :: "ptr \<Rightarrow> rundown_table \<Rightarrow> bool" where
  "rundown_down r t = (case t r of None \<Rightarrow> False | Some (d, _) \<Rightarrow> d)"

lemma unat_plus_one: "unat (n :: u64) < 2 ^ 64 - 1 \<Longrightarrow> unat (n + 1) = Suc (unat n)"
  by (simp add: unat_word_ariths)

interpretation table_rundown: rundown_protection "rundown_ready r" "rundown_held r" "rundown_down r"
  "cxplat_acquire_rundown_protection r" "cxplat_release_rundown_protection r"
  "cxplat_wait_for_rundown_protection_release r" "wait_for_rundown_ref_done r" for r
proof unfold_locales
  fix s :: rundown_table
  assume ready: "rundown_ready r s"
  then obtain d n where e: "s r = Some (d, n)" by (auto simp: rundown_ready_def)
  note D = rundown_defs rundown_ready_def rundown_held_def rundown_down_def e
  show "\<exists>s'. cxplat_acquire_rundown_protection r s = Inr (True, s') \<and> rundown_ready r s' \<and>
      \<not> rundown_down r s' \<and> rundown_held r s' = Suc (rundown_held r s)"
    if "\<not> rundown_down r s" "rundown_held r s < 2 ^ 64 - 1"
    using that by (auto simp: D acquire_rundown_ref_def unat_plus_one)
  show "cxplat_acquire_rundown_protection r s = Inr (False, s)" if "rundown_down r s"
    using that by (auto simp: D acquire_rundown_ref_def)
  show "\<exists>s'. cxplat_release_rundown_protection r s = Inr s' \<and> rundown_ready r s' \<and>
      rundown_held r s' = rundown_held r s - 1 \<and> (rundown_down r s' \<longleftrightarrow> rundown_down r s)"
    if "0 < rundown_held r s"
    using that by (auto simp: D release_rundown_ref_def unat_minus_one)
  show "\<exists>s'. cxplat_wait_for_rundown_protection_release r s = Inr s' \<and> rundown_ready r s' \<and>
      rundown_held r s' = rundown_held r s \<and> rundown_down r s'"
    by (auto simp: D wait_for_rundown_ref_begin_def)
  show "wait_for_rundown_ref_done r s \<longleftrightarrow> rundown_held r s = 0"
    by (auto simp: D wait_for_rundown_ref_done_def unat_eq_0)
qed

lemma initialize_ready:
  "rundown_ready r (initialize_rundown_ref r t)" "\<not> rundown_down r (initialize_rundown_ref r t)"
  "rundown_held r (initialize_rundown_ref r t) = 0"
  by (auto simp: rundown_ready_def rundown_down_def rundown_held_def initialize_rundown_ref_def Let_def)

text \<open>Operations on one reference leave every other reference alone.\<close>

lemma rundown_frame:
  assumes "x \<noteq> r"
  shows "cxplat_acquire_rundown_protection r t = Inr (b, t') \<Longrightarrow> t' x = t x"
    and "cxplat_release_rundown_protection r t = Inr t' \<Longrightarrow> t' x = t x"
    and "cxplat_wait_for_rundown_protection_release r t = Inr t' \<Longrightarrow> t' x = t x"
    and "cxplat_initialize_rundown_protection r t x = t x"
  using assms
  by (auto simp: rundown_defs acquire_rundown_ref_def release_rundown_ref_def initialize_rundown_ref_def
      wait_for_rundown_ref_begin_def Let_def split: option.splits if_splits)

section \<open>Properties\<close>

text \<open>
  C14: rundown protection works for every reference: after initialization \<open>n\<close> acquires succeed; once
  \<^verbatim>\<open>ExWaitForRundownProtectionRelease\<close> has started, every further acquire returns FALSE and changes nothing;
  and the wait can return after \<open>n\<close> releases and not after fewer.
\<close>
theorem rundown_drains:
  assumes "n < 2 ^ 64"
  shows "\<exists>t1 t2. acquire_n (ExAcquireRundownProtection r) n (ExInitializeRundownProtection r t) =
             Inr (replicate n True, t1) \<and>
           ExWaitForRundownProtectionRelease r t1 = Inr t2 \<and>
           acquire_n (ExAcquireRundownProtection r) k t2 = Inr (replicate k False, t2) \<and>
           (\<forall>m \<le> n. \<exists>t3. release_n (ExReleaseRundownProtection r) m t2 = Inr t3 \<and>
                         (wait_for_rundown_ref_done r t3 \<longleftrightarrow> m = n))"
  unfolding ExAcquireRundownProtection_def ExReleaseRundownProtection_def ExInitializeRundownProtection_def
    ExWaitForRundownProtectionRelease_def cxplat_initialize_rundown_protection_def
  by (rule table_rundown.drains [OF initialize_ready assms])

theorem rundown_drains_witness:
  "\<exists>t1 t2 t3. acquire_n (ExAcquireRundownProtection 8) 2 (ExInitializeRundownProtection 8 Map.empty) =
       Inr ([True, True], t1) \<and>
     ExWaitForRundownProtectionRelease 8 t1 = Inr t2 \<and>
     release_n (ExReleaseRundownProtection 8) 2 t2 = Inr t3 \<and> wait_for_rundown_ref_done 8 t3"
proof -
  have "(2 :: nat) < 2 ^ 64" by simp
  from rundown_drains [OF this, of 8 Map.empty 0] obtain t1 t2 where
    "acquire_n (ExAcquireRundownProtection 8) 2 (ExInitializeRundownProtection 8 Map.empty) =
       Inr (replicate 2 True, t1)"
    "ExWaitForRundownProtectionRelease 8 t1 = Inr t2"
    "\<forall>m \<le> 2. \<exists>t3. release_n (ExReleaseRundownProtection 8) m t2 = Inr t3 \<and>
                  (wait_for_rundown_ref_done 8 t3 \<longleftrightarrow> m = 2)"
    by blast
  moreover have "replicate 2 True = [True, True]" by (simp add: numeral_2_eq_2)
  ultimately show ?thesis by (metis order_refl)
qed

text \<open>
  misuse is reported and changes nothing: on a reference that was never initialized every operation
  throws, a release without an acquire throws, and a re-initialization throws unless a wait has started
  and no reference is out, in which case acquires succeed again.
\<close>
theorem rundown_misuse:
  "(t r = None \<longrightarrow>
      ExAcquireRundownProtection r t = Inl (Runtime_Error ''rundown ref table not initialized'') \<and>
      ExReleaseRundownProtection r t = Inl (Runtime_Error ''rundown ref table not initialized'') \<and>
      ExReInitializeRundownProtection r t = Inl (Runtime_Error ''rundown ref table not initialized'') \<and>
      ExWaitForRundownProtectionRelease r t = Inl (Runtime_Error ''rundown ref table not initialized'')) \<and>
   (t r = Some (d, 0) \<longrightarrow>
      ExReleaseRundownProtection r t = Inl (Runtime_Error ''rundown ref table already released'')) \<and>
   (t r = Some (d, n) \<longrightarrow>
      (if d \<and> n = 0
       then \<exists>t1. ExReInitializeRundownProtection r t = Inr t1 \<and>
                 ExAcquireRundownProtection r t1 = Inr (True, t1(r \<mapsto> (False, 1)))
       else \<exists>m. ExReInitializeRundownProtection r t = Inl (Runtime_Error m)))"
  by (auto simp: ExAcquireRundownProtection_def ExReleaseRundownProtection_def
      ExReInitializeRundownProtection_def ExWaitForRundownProtectionRelease_def rundown_defs
      acquire_rundown_ref_def release_rundown_ref_def reinitialize_rundown_ref_def
      wait_for_rundown_ref_begin_def)

theorem rundown_misuse_witness:
  "ExReleaseRundownProtection 8 (ExInitializeRundownProtection 8 Map.empty) =
     Inl (Runtime_Error ''rundown ref table already released'')"
  using rundown_misuse [of "ExInitializeRundownProtection 8 Map.empty" 8 False 0]
  by (simp add: ExInitializeRundownProtection_def cxplat_initialize_rundown_protection_def
      initialize_rundown_ref_def)

end
