(* ===== verification/Work_Item.thy ===== *)
theory Work_Item
  imports Rundown Processor
begin

text \<open>
  Preemptible work items of \<^verbatim>\<open>cxplat/src/cxplat_winuser/workitem_winuser.cpp\<close>, a client of the rundown
  contract of theory \<open>Rundown\<close>. The Windows thread pool is a parameter of the model: a submission is
  appended to \<open>submitted\<close> and the pool, which has a single thread, calls \<^verbatim>\<open>_cxplat_preemptible_routine\<close>
  once for each, in order. \<open>calls\<close> records the calls of driver routines.
\<close>

section \<open>State and operations\<close>

record work_item =
  work_item_routine :: ptr
  work_item_context :: ptr

record work_pool =
  rundown :: rundown_table
  rundown_reference :: ptr
  pool_open :: bool
  cleanup_group_open :: bool
  items :: "ptr \<rightharpoonup> work_item"
  submitted :: "ptr list"
  calls :: "(ptr \<times> ptr \<times> ptr) list"

text \<open>\<open>p\<close> is the result of \<^verbatim>\<open>cxplat_allocate\<close>; \<open>work\<close> is that of \<^verbatim>\<open>CreateThreadpoolWork\<close> (\<open>Inl\<close>: last error).\<close>

definition cxplat_allocate_preemptible_work_item ::
  "ptr \<Rightarrow> u32 + unit \<Rightarrow> ptr \<Rightarrow> ptr \<Rightarrow> work_pool \<Rightarrow> (cxplat_status \<times> ptr) \<times> work_pool" where
  "cxplat_allocate_preemptible_work_item p work routine context s =
     (if p = nullptr then ((Cxplat_No_Memory, nullptr), s)
      else case work of
             Inl e \<Rightarrow> ((Cxplat_From_Win32 e, nullptr), s)
           | Inr _ \<Rightarrow> ((Cxplat_Success, p),
                s\<lparr>items := (items s)(p \<mapsto> \<lparr>work_item_routine = routine, work_item_context = context\<rparr>)\<rparr>))"

definition cxplat_queue_preemptible_work_item :: "ptr \<Rightarrow> work_pool \<Rightarrow> work_pool result" where
  "cxplat_queue_preemptible_work_item w s =
     (case cxplat_acquire_rundown_protection (rundown_reference s) (rundown s) of
        Inl e \<Rightarrow> Inl e
      | Inr (ok, t) \<Rightarrow> assert_that ok (Inr (s\<lparr>rundown := t, submitted := submitted s @ [w]\<rparr>)))"

text \<open>
  One callback of the pool. The parameter of the callback is the work item; using one that was freed is
  undefined behaviour. The reference is released after the routine has run.
\<close>

definition cxplat_preemptible_routine :: "work_pool \<Rightarrow> work_pool result" where
  "cxplat_preemptible_routine s =
     (case submitted s of
        [] \<Rightarrow> Inr s
      | w # ws \<Rightarrow>
          (case (if w \<noteq> nullptr then
                   (case items s w of
                      None \<Rightarrow> Inl Out_Of_Bounds
                    | Some i \<Rightarrow> Inr (s\<lparr>submitted := ws,
                         calls := calls s @ [(work_item_routine i, w, work_item_context i)]\<rparr>))
                 else Inr (s\<lparr>submitted := ws\<rparr>)) of
             Inl e \<Rightarrow> Inl e
           | Inr s1 \<Rightarrow>
               (case cxplat_release_rundown_protection (rundown_reference s1) (rundown s1) of
                  Inl e \<Rightarrow> Inl e
                | Inr t \<Rightarrow> Inr (s1\<lparr>rundown := t\<rparr>))))"

definition cxplat_free_preemptible_work_item :: "ptr \<Rightarrow> work_pool \<Rightarrow> work_pool" where
  "cxplat_free_preemptible_work_item w s =
     (if w = nullptr then s else s\<lparr>items := (items s)(w := None)\<rparr>)"

text \<open>
  \<open>pool\<close>, \<open>minimum\<close> and \<open>grp\<close> are the outcomes of \<^verbatim>\<open>CreateThreadpool\<close>, \<^verbatim>\<open>SetThreadpoolThreadMinimum\<close>
  and \<^verbatim>\<open>CreateThreadpoolCleanupGroup\<close>; \<open>Inl e\<close> is a failure with last error \<open>e\<close>.
\<close>

definition cxplat_winuser_initialize_thread_pool ::
  "u32 + unit \<Rightarrow> u32 + unit \<Rightarrow> u32 + unit \<Rightarrow> work_pool \<Rightarrow> cxplat_status \<times> work_pool" where
  "cxplat_winuser_initialize_thread_pool pool minimum grp s =
     (let s0 = s\<lparr>rundown := cxplat_initialize_rundown_protection (rundown_reference s) (rundown s)\<rparr>
      in case pool of
           Inl e \<Rightarrow> (Cxplat_From_Win32 e, s0\<lparr>pool_open := False\<rparr>)
         | Inr _ \<Rightarrow>
             (case minimum of
                Inl e \<Rightarrow> (Cxplat_From_Win32 e, s0\<lparr>pool_open := False\<rparr>)
              | Inr _ \<Rightarrow>
                  (case grp of
                     Inl e \<Rightarrow> (Cxplat_From_Win32 e, s0\<lparr>pool_open := False, cleanup_group_open := False\<rparr>)
                   | Inr _ \<Rightarrow> (Cxplat_Success, s0\<lparr>pool_open := True, cleanup_group_open := True\<rparr>))))"

definition cxplat_wait_for_preemptible_work_items_complete :: "work_pool \<Rightarrow> work_pool result" where
  "cxplat_wait_for_preemptible_work_items_complete s =
     (if \<not> pool_open s then Inr s
      else case cxplat_wait_for_rundown_protection_release (rundown_reference s) (rundown s) of
             Inl e \<Rightarrow> Inl e
           | Inr t \<Rightarrow> Inr (s\<lparr>rundown := t\<rparr>))"

text \<open>The condition under which that call returns.\<close>

definition work_items_complete :: "work_pool \<Rightarrow> bool" where
  "work_items_complete s \<longleftrightarrow> \<not> pool_open s \<or> wait_for_rundown_ref_done (rundown_reference s) (rundown s)"

text \<open>\<^verbatim>\<open>CloseThreadpoolCleanupGroupMembers\<close> without cancelling waits for the outstanding callbacks.\<close>

definition cxplat_winuser_clean_up_thread_pool :: "work_pool \<Rightarrow> work_pool" where
  "cxplat_winuser_clean_up_thread_pool s =
     (if \<not> pool_open s then s else s\<lparr>cleanup_group_open := False, pool_open := False\<rparr>)"

section \<open>Runs of the pool\<close>

fun run_callbacks :: "nat \<Rightarrow> work_pool \<Rightarrow> work_pool result" where
  "run_callbacks 0 s = Inr s"
| "run_callbacks (Suc n) s =
     (case cxplat_preemptible_routine s of Inl e \<Rightarrow> Inl e | Inr s1 \<Rightarrow> run_callbacks n s1)"

text \<open>
  The interleavings of driver threads and the pool thread. A driver frees a work item only when it is not
  queued, and fewer than \<open>2 ^ 64 - 1\<close> submissions are outstanding.
\<close>

inductive work_step :: "work_pool \<Rightarrow> work_pool \<Rightarrow> bool" where
  step_allocate: "p \<notin> set (submitted s) \<Longrightarrow>
     work_step s (snd (cxplat_allocate_preemptible_work_item p work routine context s))"
| step_queue: "items s w \<noteq> None \<Longrightarrow> length (submitted s) < 2 ^ 64 - 1 \<Longrightarrow>
     cxplat_queue_preemptible_work_item w s = Inr s' \<Longrightarrow> work_step s s'"
| step_callback: "cxplat_preemptible_routine s = Inr s' \<Longrightarrow> work_step s s'"
| step_free: "w \<notin> set (submitted s) \<Longrightarrow> work_step s (cxplat_free_preemptible_work_item w s)"
| step_wait: "cxplat_wait_for_preemptible_work_items_complete s = Inr s' \<Longrightarrow> work_step s s'"

inductive work_reachable :: "work_pool \<Rightarrow> bool" where
  init: "submitted s0 = [] \<Longrightarrow> items s0 = Map.empty \<Longrightarrow>
     cxplat_winuser_initialize_thread_pool pool minimum grp s0 = (Cxplat_Success, s) \<Longrightarrow> work_reachable s"
| step: "work_reachable s \<Longrightarrow> work_step s s' \<Longrightarrow> work_reachable s'"

text \<open>The invariant: one reference per outstanding submission, and submitted items are live.\<close>

definition work_inv :: "work_pool \<Rightarrow> bool" where
  "work_inv s \<longleftrightarrow> pool_open s \<and> rundown_ready (rundown_reference s) (rundown s) \<and>
     rundown_held (rundown_reference s) (rundown s) = length (submitted s) \<and>
     (\<forall>w \<in> set (submitted s). items s w \<noteq> None) \<and> items s nullptr = None"

lemma init_inv:
  assumes "submitted s0 = []" "items s0 = Map.empty"
    and "cxplat_winuser_initialize_thread_pool pool minimum grp s0 = (Cxplat_Success, s)"
  shows "work_inv s"
  using assms initialize_ready [of "rundown_reference s0" "rundown s0"]
  by (auto simp: cxplat_winuser_initialize_thread_pool_def work_inv_def Let_def
      cxplat_initialize_rundown_protection_def split: sum.splits)

lemma queue_inv:
  assumes "work_inv s" "items s w \<noteq> None" "length (submitted s) < 2 ^ 64 - 1"
    and "cxplat_queue_preemptible_work_item w s = Inr s'"
  shows "work_inv s'"
proof -
  let ?r = "rundown_reference s"
  obtain t where t: "cxplat_acquire_rundown_protection ?r (rundown s) = Inr (True, t)"
      "s' = s\<lparr>rundown := t, submitted := submitted s @ [w]\<rparr>"
    using assms(4) by (auto simp: cxplat_queue_preemptible_work_item_def split: sum.splits)
  have r: "rundown_ready ?r (rundown s)" using assms(1) by (simp add: work_inv_def)
  have "\<not> rundown_down ?r (rundown s)" using table_rundown.acquire_down [OF r] t(1) by auto
  from table_rundown.acquire_up [OF r this] t assms(1-3) show ?thesis
    by (auto simp: work_inv_def)
qed

lemma callback_Cons:
  assumes "work_inv s" "submitted s = w # ws"
  shows "\<exists>s' i. cxplat_preemptible_routine s = Inr s' \<and> items s w = Some i \<and>
           work_inv s' \<and> submitted s' = ws \<and> items s' = items s \<and>
           calls s' = calls s @ [(work_item_routine i, w, work_item_context i)]"
proof -
  let ?r = "rundown_reference s"
  obtain i where i: "items s w = Some i" using assms by (auto simp: work_inv_def)
  then have "w \<noteq> nullptr" using assms(1) by (auto simp: work_inv_def)
  note i = i this
  obtain t where "cxplat_release_rundown_protection ?r (rundown s) = Inr t" "rundown_ready ?r t"
      "rundown_held ?r t = length ws"
    using table_rundown.release_held [of ?r "rundown s"] assms(1,2) by (auto simp: work_inv_def)
  then show ?thesis using assms i by (auto simp: cxplat_preemptible_routine_def work_inv_def)
qed

lemma callback_inv:
  assumes "work_inv s" "cxplat_preemptible_routine s = Inr s'"
  shows "work_inv s'"
proof (cases "submitted s")
  case Nil
  with assms show ?thesis by (simp add: cxplat_preemptible_routine_def)
next
  case (Cons w ws)
  from callback_Cons [OF assms(1) this] assms(2) show ?thesis by auto
qed

lemma wait_begin_inv:
  assumes "work_inv s"
  shows "\<exists>s'. cxplat_wait_for_preemptible_work_items_complete s = Inr s' \<and> work_inv s' \<and>
              rundown_down (rundown_reference s') (rundown s') \<and> submitted s' = submitted s \<and>
              items s' = items s \<and> calls s' = calls s"
  using assms table_rundown.wait_begins [of "rundown_reference s" "rundown s"]
  by (auto simp: cxplat_wait_for_preemptible_work_items_complete_def work_inv_def)

lemma work_step_inv: "work_step s s' \<Longrightarrow> work_inv s \<Longrightarrow> work_inv s'"
proof (induction rule: work_step.induct)
  case (step_allocate p s work routine ctx)
  then show ?case
    by (auto simp: cxplat_allocate_preemptible_work_item_def work_inv_def split: sum.splits)
next
  case (step_queue s w s')
  then show ?case using queue_inv by blast
next
  case (step_callback s s')
  then show ?case using callback_inv by blast
next
  case (step_free w s)
  then show ?case by (auto simp: cxplat_free_preemptible_work_item_def work_inv_def)
next
  case (step_wait s s')
  then show ?case using wait_begin_inv by fastforce
qed

lemma work_reachable_inv: "work_reachable s \<Longrightarrow> work_inv s"
  by (induction rule: work_reachable.induct) (auto intro: init_inv work_step_inv)

definition item_call :: "work_pool \<Rightarrow> ptr \<Rightarrow> ptr \<times> ptr \<times> ptr" where
  "item_call s w = (case items s w of None \<Rightarrow> (nullptr, w, nullptr)
                    | Some i \<Rightarrow> (work_item_routine i, w, work_item_context i))"

lemma run_callbacks_all:
  assumes "work_inv s"
  shows "\<exists>s'. run_callbacks (length (submitted s)) s = Inr s' \<and> work_inv s' \<and> submitted s' = [] \<and>
              calls s' = calls s @ map (item_call s) (submitted s)"
  using assms
proof (induction "submitted s" arbitrary: s)
  case Nil
  then show ?case by simp
next
  case (Cons w ws)
  from callback_Cons [OF Cons.prems Cons.hyps(2) [symmetric]] obtain s1 i where s1:
    "cxplat_preemptible_routine s = Inr s1" "items s w = Some i" "work_inv s1" "submitted s1 = ws"
    "items s1 = items s" "calls s1 = calls s @ [(work_item_routine i, w, work_item_context i)]" by blast
  from Cons.hyps(1) [OF s1(4) [symmetric] s1(3)] s1 Cons.hyps(2) [symmetric] show ?case
    by (auto simp: item_call_def [abs_def])
qed

lemma complete_iff:
  assumes "work_inv s"
  shows "work_items_complete s \<longleftrightarrow> submitted s = []"
  using assms table_rundown.wait_ends [of "rundown_reference s" "rundown s"]
  by (auto simp: work_items_complete_def work_inv_def)

section \<open>Properties\<close>

text \<open>
  C15: \<^verbatim>\<open>cxplat_wait_for_preemptible_work_items_complete\<close> waits for exactly the queued work items. In every
  reachable state the wait starts without an error; it returns only when no submission is outstanding;
  it does return, once the pool has made one callback per outstanding submission; those callbacks call
  the routines of the submitted items in submission order with their contexts; and from the start of the
  wait on, queueing a work item fails its assertion.
\<close>
theorem work_items_wait:
  assumes "work_reachable s"
  shows "\<exists>s1 s2. cxplat_wait_for_preemptible_work_items_complete s = Inr s1 \<and>
           (work_items_complete s1 \<longleftrightarrow> submitted s = []) \<and>
           cxplat_queue_preemptible_work_item w s1 = Inl Assert_Failed \<and>
           run_callbacks (length (submitted s)) s1 = Inr s2 \<and> work_items_complete s2 \<and>
           calls s2 = calls s @ map (item_call s) (submitted s)"
proof -
  note inv = work_reachable_inv [OF assms]
  obtain s1 where s1: "cxplat_wait_for_preemptible_work_items_complete s = Inr s1" "work_inv s1"
      "rundown_down (rundown_reference s1) (rundown s1)" "submitted s1 = submitted s"
      "items s1 = items s" "calls s1 = calls s"
    using wait_begin_inv [OF inv] by blast
  obtain s2 where s2: "run_callbacks (length (submitted s1)) s1 = Inr s2" "work_inv s2"
      "submitted s2 = []" "calls s2 = calls s1 @ map (item_call s1) (submitted s1)"
    using run_callbacks_all [OF s1(2)] by blast
  have "cxplat_queue_preemptible_work_item w s1 = Inl Assert_Failed"
    using table_rundown.acquire_down [of "rundown_reference s1" "rundown s1"] s1(2,3)
    by (simp add: cxplat_queue_preemptible_work_item_def work_inv_def)
  moreover have "item_call s1 = item_call s" using s1(5) by (intro ext) (simp add: item_call_def)
  ultimately show ?thesis using s1 s2 complete_iff by auto
qed

text \<open>A pool with one allocated and queued work item.\<close>

definition empty_pool :: work_pool where
  "empty_pool = \<lparr>rundown = Map.empty, rundown_reference = 8, pool_open = False,
     cleanup_group_open = False, items = Map.empty, submitted = [], calls = []\<rparr>"

lemma sample_pool:
  obtains s where "work_reachable s" "submitted s = [64]" "calls s = []"
    "items s 64 = Some \<lparr>work_item_routine = 5, work_item_context = 6\<rparr>"
proof -
  obtain s0 where s0: "cxplat_winuser_initialize_thread_pool (Inr ()) (Inr ()) (Inr ()) empty_pool = (Cxplat_Success, s0)"
      "submitted s0 = []" "calls s0 = []" "rundown s0 8 = Some (False, 0)" "rundown_reference s0 = 8"
    by (simp add: cxplat_winuser_initialize_thread_pool_def empty_pool_def Let_def rundown_defs
        initialize_rundown_ref_def)
  have r0: "work_reachable s0"
    by (rule work_reachable.init [of empty_pool]) (use s0 in \<open>simp_all add: empty_pool_def\<close>)
  define s1 where "s1 = snd (cxplat_allocate_preemptible_work_item 64 (Inr ()) 5 6 s0)"
  have r1: "work_reachable s1"
    unfolding s1_def by (rule work_reachable.step [OF r0 step_allocate]) (simp add: s0)
  have e1: "submitted s1 = []" "calls s1 = []" "rundown s1 8 = Some (False, 0)" "rundown_reference s1 = 8"
      "items s1 64 = Some \<lparr>work_item_routine = 5, work_item_context = 6\<rparr>"
    using s0 by (simp_all add: s1_def cxplat_allocate_preemptible_work_item_def)
  obtain s2 where s2: "cxplat_queue_preemptible_work_item 64 s1 = Inr s2"
      "s2 = s1\<lparr>rundown := (rundown s1)(8 \<mapsto> (False, 1)), submitted := [64]\<rparr>"
    using e1 by (simp add: cxplat_queue_preemptible_work_item_def rundown_defs acquire_rundown_ref_def)
  have "work_reachable s2"
    by (rule work_reachable.step [OF r1 step_queue [OF _ _ s2(1)]]) (use e1 in simp_all)
  then show ?thesis by (rule that) (use s2(2) e1 in simp_all)
qed

theorem work_items_wait_witness:
  "\<exists>s s1 s2. work_reachable s \<and> submitted s = [64] \<and>
     cxplat_wait_for_preemptible_work_items_complete s = Inr s1 \<and> \<not> work_items_complete s1 \<and>
     run_callbacks 1 s1 = Inr s2 \<and> work_items_complete s2 \<and> calls s2 = [(5, 64, 6)]"
proof -
  obtain s where s: "work_reachable s" "submitted s = [64]" "calls s = []"
    "items s 64 = Some \<lparr>work_item_routine = 5, work_item_context = 6\<rparr>" by (rule sample_pool)
  from work_items_wait [OF s(1), of 64] s obtain s1 s2 where
    "cxplat_wait_for_preemptible_work_items_complete s = Inr s1" "\<not> work_items_complete s1"
    "run_callbacks (Suc 0) s1 = Inr s2" "work_items_complete s2" "calls s2 = [(5, 64, 6)]"
    by (auto simp: item_call_def simp del: run_callbacks.simps)
  with s show ?thesis unfolding One_nat_def by blast
qed

end
