(* ===== verification/Memory.thy ===== *)
theory Memory
  imports Processor
begin

text \<open>
  The allocator of \<^verbatim>\<open>cxplat/src/cxplat_winuser/memory_winuser.cpp\<close> (debug build), the leak detector of
  \<^verbatim>\<open>leak_detector.cpp\<close>, the string helpers of \<^verbatim>\<open>cxplat/src/memory.c\<close> and the pool routines of
  \<^verbatim>\<open>src/ex.cpp\<close>. The C run-time heap is a parameter: every call takes the block that \<^verbatim>\<open>malloc\<close>,
  \<^verbatim>\<open>_aligned_malloc\<close>, \<^verbatim>\<open>realloc\<close> or \<^verbatim>\<open>_aligned_realloc\<close> returned (0 on failure); what C promises of that block
  is the predicate \<open>malloc_ok\<close>. The state keeps the bytes of memory, the allocation headers by their
  address, the live heap blocks with their sizes, and the leak detector.
\<close>

unbundle bit_operations_syntax

section \<open>Leak detector\<close>

record allocation =
  al_address :: ptr
  al_size :: u64
  alloc_stack_hash :: u32
  free_stack_hash :: u32

datatype leak_message = Double_Free u64 ptr | Leak u64 ptr

record leak_detector =
  stack_hashes :: "u32 \<rightharpoonup> ptr list"
  allocations :: "ptr \<rightharpoonup> allocation"
  freed_allocations :: "ptr \<rightharpoonup> allocation"
  in_memory_log :: "leak_message list"

text \<open>
  \<open>bt\<close> is the outcome of \<^verbatim>\<open>CaptureStackBackTrace\<close>: the frames and their hash, or nothing. The frames are written over a
  vector of 33 zeros. The decoded stack traces are part of theory \<open>Leak_Report\<close>.
\<close>

type_synonym backtrace = "(ptr list \<times> u32) option"

definition bt_stack :: "backtrace \<Rightarrow> ptr list" where
  "bt_stack bt = (case bt of None \<Rightarrow> replicate 33 0 | Some (st, _) \<Rightarrow> take 33 (st @ replicate 33 0))"

definition bt_hash :: "backtrace \<Rightarrow> u32" where
  "bt_hash bt = (case bt of None \<Rightarrow> 0 | Some (_, h) \<Rightarrow> h)"

definition remember_stack :: "backtrace \<Rightarrow> leak_detector \<Rightarrow> leak_detector" where
  "remember_stack bt d =
     (if stack_hashes d (bt_hash bt) = None
      then d\<lparr>stack_hashes := (stack_hashes d)(bt_hash bt \<mapsto> bt_stack bt)\<rparr> else d)"

definition register_allocation :: "backtrace \<Rightarrow> ptr \<Rightarrow> u64 \<Rightarrow> leak_detector \<Rightarrow> leak_detector" where
  "register_allocation bt address sz d =
     remember_stack bt (d\<lparr>allocations := (allocations d)(address \<mapsto>
       \<lparr>al_address = address, al_size = sz, alloc_stack_hash = bt_hash bt, free_stack_hash = 0\<rparr>)\<rparr>)"

text \<open>A double free is logged, and then fails \<^verbatim>\<open>CXPLAT_RUNTIME_ASSERT\<close>.\<close>

definition unregister_allocation :: "backtrace \<Rightarrow> ptr \<Rightarrow> leak_detector \<Rightarrow> leak_detector result" where
  "unregister_allocation bt address d =
     (case allocations d address of
        None \<Rightarrow> Inl Assert_Failed
      | Some a \<Rightarrow>
          Inr (remember_stack bt (d\<lparr>freed_allocations := (freed_allocations d)(address \<mapsto> a\<lparr>free_stack_hash := bt_hash bt\<rparr>),
                                  allocations := (allocations d)(address := None)\<rparr>)))"

text \<open>\<open>order\<close> lists the keys of the table in the order the program visits them.\<close>

definition dump_leaks :: "ptr list \<Rightarrow> leak_detector \<Rightarrow> leak_detector result" where
  "dump_leaks order d =
     (let d1 = d\<lparr>in_memory_log := in_memory_log d @
                   concat (map (\<lambda>p. case allocations d p of None \<Rightarrow> [] | Some a \<Rightarrow> [Leak (al_size a) (al_address a)]) order)\<rparr>
      in assert_that (\<forall>p \<in> set order. allocations d p = None)
           (Inr (d1\<lparr>allocations := Map.empty, freed_allocations := Map.empty, stack_hashes := Map.empty\<rparr>)))"

section \<open>State of the allocator\<close>

record allocation_header =
  hd_pool_flags :: u32
  hd_tag :: u32
  hd_size :: u64

record mem_state =
  bytes :: "ptr \<Rightarrow> u8"
  headers :: "ptr \<Rightarrow> allocation_header"
  blocks :: "ptr \<rightharpoonup> u64 \<times> bool"
  leaks :: "leak_detector option"
  fuzzing_memory_limit :: u64
  pool_headers :: "ptr \<Rightarrow> u32"

abbreviation CXPLAT_POOL_FLAG_NONE :: u32 where "CXPLAT_POOL_FLAG_NONE \<equiv> 0"
abbreviation CXPLAT_POOL_FLAG_UNINITIALIZED :: u32 where "CXPLAT_POOL_FLAG_UNINITIALIZED \<equiv> 0x2"
abbreviation CXPLAT_POOL_FLAG_CACHE_ALIGNED :: u32 where "CXPLAT_POOL_FLAG_CACHE_ALIGNED \<equiv> 0x8"
abbreviation CXPLAT_POOL_FLAG_NON_PAGED :: u32 where "CXPLAT_POOL_FLAG_NON_PAGED \<equiv> 0x40"
abbreviation CXPLAT_POOL_FLAG_PAGED :: u32 where "CXPLAT_POOL_FLAG_PAGED \<equiv> 0x100"

definition has_flag :: "u32 \<Rightarrow> u32 \<Rightarrow> bool" where
  "has_flag pool_flags flag \<longleftrightarrow> pool_flags AND flag \<noteq> 0"

text \<open>\<^verbatim>\<open>sizeof(cxplat_allocation_header_t)\<close> and \<^verbatim>\<open>CXPLAT_CACHE_LINE_SIZE\<close>.\<close>

definition pointer_offset :: "u32 \<Rightarrow> u64" where
  "pointer_offset pool_flags = (if has_flag pool_flags CXPLAT_POOL_FLAG_CACHE_ALIGNED then 64 else 16)"

definition header_from_pointer :: "ptr \<Rightarrow> ptr" where
  "header_from_pointer memory = memory - 16"

definition memory_block_from_aligned_pointer :: "ptr \<Rightarrow> ptr" where
  "memory_block_from_aligned_pointer pointer = pointer - 64"

definition memory_block_from_unaligned_pointer :: "ptr \<Rightarrow> ptr" where
  "memory_block_from_unaligned_pointer pointer = pointer - 16"

definition aligned_pointer_from_memory_block :: "ptr \<Rightarrow> ptr" where
  "aligned_pointer_from_memory_block memory = memory + 64"

definition unaligned_pointer_from_memory_block :: "ptr \<Rightarrow> ptr" where
  "unaligned_pointer_from_memory_block memory = memory + 16"

text \<open>\<^verbatim>\<open>memset\<close> and \<^verbatim>\<open>memcpy\<close>: \<open>x\<close> is in the range of \<open>n\<close> bytes at \<open>a\<close> iff \<open>x - a < n\<close> as machine words.\<close>

definition mem_fill :: "ptr \<Rightarrow> u8 \<Rightarrow> u64 \<Rightarrow> (ptr \<Rightarrow> u8) \<Rightarrow> ptr \<Rightarrow> u8" where
  "mem_fill a v n m = (\<lambda>x. if x - a < n then v else m x)"

definition mem_copy :: "ptr \<Rightarrow> ptr \<Rightarrow> u64 \<Rightarrow> (ptr \<Rightarrow> u8) \<Rightarrow> ptr \<Rightarrow> u8" where
  "mem_copy dst src n m = (\<lambda>x. if x - dst < n then m (src + (x - dst)) else m x)"

section \<open>Allocate, reallocate, free\<close>

text \<open>\<open>fault\<close> is the answer of \<^verbatim>\<open>cxplat_fault_injection_inject_fault\<close>.\<close>

definition cxplat_allocate ::
  "bool \<Rightarrow> ptr \<Rightarrow> backtrace \<Rightarrow> u32 \<Rightarrow> u64 \<Rightarrow> u32 \<Rightarrow> mem_state \<Rightarrow> (ptr \<times> mem_state) result" where
  "cxplat_allocate fault pointer bt pool_flags sz tag s =
     assert_that (0 < sz)
      (if sz > fuzzing_memory_limit s then Inr (nullptr, s)
       else if fault then Inr (nullptr, s)
       else
         let aligned = has_flag pool_flags CXPLAT_POOL_FLAG_CACHE_ALIGNED;
             full_size = (if aligned then 64 + sz else 16 + sz)
         in if pointer = nullptr then Inr (nullptr, s)
            else
              let memory = (if aligned then aligned_pointer_from_memory_block pointer
                            else unaligned_pointer_from_memory_block pointer);
                  s1 = s\<lparr>blocks := (blocks s)(pointer \<mapsto> (full_size, aligned)),
                         bytes := mem_fill memory
                           (if has_flag pool_flags CXPLAT_POOL_FLAG_UNINITIALIZED then 0xcc else 0) sz (bytes s),
                         headers := (headers s)(header_from_pointer memory :=
                           \<lparr>hd_pool_flags = pool_flags, hd_tag = tag, hd_size = sz\<rparr>)\<rparr>
              in Inr (memory, s1\<lparr>leaks := map_option (register_allocation bt memory sz) (leaks s1)\<rparr>))"

definition cxplat_reallocate ::
  "bool \<Rightarrow> ptr \<Rightarrow> backtrace \<Rightarrow> backtrace \<Rightarrow> ptr \<Rightarrow> u32 \<Rightarrow> u64 \<Rightarrow> u64 \<Rightarrow> u32 \<Rightarrow> mem_state
    \<Rightarrow> (ptr \<times> mem_state) result" where
  "cxplat_reallocate fault new_memory_block bt1 bt2 pointer pool_flags old_size new_size tag s =
     (if new_size > fuzzing_memory_limit s then Inr (nullptr, s)
      else if fault then Inr (nullptr, s)
      else
        let header = headers s (header_from_pointer pointer)
        in assert_that (hd_size header = old_size)
          (assert_that (tag = 0 \<or> hd_tag header = tag)
          (assert_that (hd_pool_flags header = pool_flags)
            (let aligned = has_flag pool_flags CXPLAT_POOL_FLAG_CACHE_ALIGNED;
                 offset = pointer_offset pool_flags;
                 old_memory_block = (if aligned then memory_block_from_aligned_pointer pointer
                                     else memory_block_from_unaligned_pointer pointer);
                 full_size = offset + new_size;
                 p = (if new_memory_block = nullptr then nullptr
                      else if aligned then aligned_pointer_from_memory_block new_memory_block
                      else unaligned_pointer_from_memory_block new_memory_block)
             in case blocks s old_memory_block of
                  None \<Rightarrow> Inl Out_Of_Bounds
                | Some (old_full, _) \<Rightarrow>
                    (let s1 = (if new_memory_block = nullptr then s
                               else s\<lparr>blocks := (blocks s)(old_memory_block := None, new_memory_block \<mapsto> (full_size, aligned)),
                                      bytes := mem_copy new_memory_block old_memory_block (min old_full full_size) (bytes s),
                                      headers := (headers s)(header_from_pointer p := header)\<rparr>)
                     in case (case leaks s1 of
                                None \<Rightarrow> Inr s1
                              | Some d \<Rightarrow> (case unregister_allocation bt1 pointer d of
                                             Inl e \<Rightarrow> Inl e
                                           | Inr d1 \<Rightarrow> Inr (s1\<lparr>leaks := Some d1\<rparr>))) of
                          Inl e \<Rightarrow> Inl e
                        | Inr s2 \<Rightarrow>
                            if p = nullptr then Inr (nullptr, s2)
                            else
                              let s3 = (if new_size > old_size
                                        then s2\<lparr>bytes := mem_fill (p + old_size)
                                                 (if has_flag pool_flags CXPLAT_POOL_FLAG_UNINITIALIZED then 0xcc else 0)
                                                 (new_size - old_size) (bytes s2)\<rparr>
                                        else s2)
                              in Inr (p, s3\<lparr>leaks := map_option (register_allocation bt2 p new_size) (leaks s3)\<rparr>))))))"

text \<open>
  Giving \<^verbatim>\<open>free\<close> or \<^verbatim>\<open>_aligned_free\<close> an address that is not a live block of the right kind corrupts the heap.
\<close>

definition heap_free :: "ptr \<Rightarrow> bool \<Rightarrow> mem_state \<Rightarrow> mem_state result" where
  "heap_free block aligned s =
     (case blocks s block of
        Some (_, a) \<Rightarrow> if a = aligned then Inr (s\<lparr>blocks := (blocks s)(block := None)\<rparr>) else Inl Out_Of_Bounds
      | None \<Rightarrow> Inl Out_Of_Bounds)"

definition cxplat_free :: "backtrace \<Rightarrow> ptr \<Rightarrow> u32 \<Rightarrow> u32 \<Rightarrow> mem_state \<Rightarrow> mem_state result" where
  "cxplat_free bt pointer pool_flags tag s =
     (if pointer = nullptr then Inr s
      else
        let header = headers s (header_from_pointer pointer)
        in assert_that (tag = 0 \<or> hd_tag header = tag)
          (assert_that (hd_pool_flags header = pool_flags)
            (case (case leaks s of
                     None \<Rightarrow> Inr s
                   | Some d \<Rightarrow> (case unregister_allocation bt pointer d of
                                  Inl e \<Rightarrow> Inl e | Inr d1 \<Rightarrow> Inr (s\<lparr>leaks := Some d1\<rparr>))) of
               Inl e \<Rightarrow> Inl e
             | Inr s1 \<Rightarrow>
                 if has_flag pool_flags CXPLAT_POOL_FLAG_CACHE_ALIGNED
                 then heap_free (memory_block_from_aligned_pointer pointer) True s1
                 else heap_free (memory_block_from_unaligned_pointer pointer) False s1)))"

section \<open>Strings\<close>

abbreviation CXPLAT_TAG_STRING :: u32 where "CXPLAT_TAG_STRING \<equiv> 0x74737863"
abbreviation CXPLAT_TAG_UTF8_STRING :: u32 where "CXPLAT_TAG_UTF8_STRING \<equiv> 0x73757863"

record utf8_string =
  us_value :: ptr
  us_length :: u64

definition cxplat_duplicate_utf8_string ::
  "bool \<Rightarrow> ptr \<Rightarrow> backtrace \<Rightarrow> utf8_string \<Rightarrow> utf8_string \<Rightarrow> mem_state \<Rightarrow> (cxplat_status \<times> utf8_string \<times> mem_state) result" where
  "cxplat_duplicate_utf8_string fault pointer bt destination source s =
     (if us_value source = nullptr \<or> us_length source = 0
      then Inr (Cxplat_Success, \<lparr>us_value = nullptr, us_length = 0\<rparr>, s)
      else case cxplat_allocate fault pointer bt CXPLAT_POOL_FLAG_NON_PAGED (us_length source) CXPLAT_TAG_UTF8_STRING s of
             Inl e \<Rightarrow> Inl e
           | Inr (p, s1) \<Rightarrow>
               if p = nullptr then Inr (Cxplat_No_Memory, destination\<lparr>us_value := nullptr\<rparr>, s1)
               else Inr (Cxplat_Success, \<lparr>us_value = p, us_length = us_length source\<rparr>,
                         s1\<lparr>bytes := mem_copy p (us_value source) (us_length source) (bytes s1)\<rparr>))"

definition cxplat_free_utf8_string :: "backtrace \<Rightarrow> utf8_string \<Rightarrow> mem_state \<Rightarrow> (utf8_string \<times> mem_state) result" where
  "cxplat_free_utf8_string bt string s =
     (case cxplat_free bt (us_value string) CXPLAT_POOL_FLAG_NON_PAGED CXPLAT_TAG_UTF8_STRING s of
        Inl e \<Rightarrow> Inl e
      | Inr s1 \<Rightarrow> Inr (\<lparr>us_value = nullptr, us_length = 0\<rparr>, s1))"

text \<open>\<open>len\<close> is \<^verbatim>\<open>strlen(source)\<close>.\<close>

definition cxplat_duplicate_string ::
  "bool \<Rightarrow> ptr \<Rightarrow> backtrace \<Rightarrow> ptr \<Rightarrow> u64 \<Rightarrow> mem_state \<Rightarrow> (ptr \<times> mem_state) result" where
  "cxplat_duplicate_string fault pointer bt source len s =
     (case cxplat_allocate fault pointer bt CXPLAT_POOL_FLAG_NON_PAGED (len + 1) CXPLAT_TAG_STRING s of
        Inl e \<Rightarrow> Inl e
      | Inr (p, s1) \<Rightarrow>
          if p = nullptr then Inr (nullptr, s1)
          else Inr (p, s1\<lparr>bytes := mem_copy p source (len + 1) (bytes s1)\<rparr>))"

definition cxplat_free_string :: "backtrace \<Rightarrow> ptr \<Rightarrow> mem_state \<Rightarrow> mem_state result" where
  "cxplat_free_string bt source s = cxplat_free bt source CXPLAT_POOL_FLAG_NON_PAGED CXPLAT_TAG_STRING s"

section \<open>Pools of the executive\<close>

text \<open>
  \<^verbatim>\<open>src/ex.cpp\<close> puts a header of one cache line, holding the pool flags, in front of the memory it returns.
  \<^verbatim>\<open>POOL_TYPE\<close> values are those of \<^verbatim>\<open>inc/usersim/ex.h\<close>; \<open>irql\<close> is the level of the caller.
\<close>

abbreviation PagedPool :: u32 where "PagedPool \<equiv> 1"
abbreviation PagedPoolCacheAligned :: u32 where "PagedPoolCacheAligned \<equiv> 5"
abbreviation NonPagedPoolNx :: u32 where "NonPagedPoolNx \<equiv> 512"
abbreviation NonPagedPoolNxCacheAligned :: u32 where "NonPagedPoolNxCacheAligned \<equiv> 516"
abbreviation BAD_POOL_CALLER :: u32 where "BAD_POOL_CALLER \<equiv> 0xC2"

definition pool_type_to_flags :: "u32 \<Rightarrow> bool \<Rightarrow> u32 result" where
  "pool_type_to_flags pool_type ini =
     (let pool_flags = (if ini then CXPLAT_POOL_FLAG_NONE else CXPLAT_POOL_FLAG_UNINITIALIZED)
      in if pool_type = NonPagedPoolNx then Inr (pool_flags OR CXPLAT_POOL_FLAG_NON_PAGED)
         else if pool_type = NonPagedPoolNxCacheAligned
         then Inr (pool_flags OR CXPLAT_POOL_FLAG_NON_PAGED OR CXPLAT_POOL_FLAG_CACHE_ALIGNED)
         else if pool_type = PagedPool then Inr (pool_flags OR CXPLAT_POOL_FLAG_PAGED)
         else if pool_type = PagedPoolCacheAligned
         then Inr (pool_flags OR CXPLAT_POOL_FLAG_PAGED OR CXPLAT_POOL_FLAG_CACHE_ALIGNED)
         else Inl (Bug_Check BAD_POOL_CALLER))"

definition pool_allocate ::
  "bool \<Rightarrow> ptr \<Rightarrow> backtrace \<Rightarrow> u32 \<Rightarrow> u64 \<Rightarrow> u32 \<Rightarrow> mem_state \<Rightarrow> (ptr \<times> mem_state) result" where
  "pool_allocate fault pointer bt flags number_of_bytes tag s =
     (case cxplat_allocate fault pointer bt flags (64 + number_of_bytes) tag s of
        Inl e \<Rightarrow> Inl e
      | Inr (header, s1) \<Rightarrow>
          if header \<noteq> nullptr
          then Inr (header + 64, s1\<lparr>pool_headers := (pool_headers s1)(header := flags)\<rparr>)
          else Inr (nullptr, s1))"

definition ExAllocatePoolUninitializedCPP ::
  "bool \<Rightarrow> ptr \<Rightarrow> backtrace \<Rightarrow> u32 \<Rightarrow> u64 \<Rightarrow> u32 \<Rightarrow> mem_state \<Rightarrow> (ptr \<times> mem_state) result" where
  "ExAllocatePoolUninitializedCPP fault pointer bt pool_type number_of_bytes tag s =
     (if tag = 0 then Inl (Bug_Check BAD_POOL_CALLER)
      else case pool_type_to_flags pool_type False of
             Inl e \<Rightarrow> Inl e
           | Inr pool_flags \<Rightarrow> pool_allocate fault pointer bt pool_flags number_of_bytes tag s)"

definition ExAllocatePool2CPP ::
  "u8 \<Rightarrow> bool \<Rightarrow> ptr \<Rightarrow> backtrace \<Rightarrow> u64 \<Rightarrow> u64 \<Rightarrow> u32 \<Rightarrow> mem_state \<Rightarrow> (ptr \<times> mem_state) result" where
  "ExAllocatePool2CPP irql fault pointer bt pool_flags number_of_bytes tag s =
     (if tag = 0 \<or> number_of_bytes = 0 then Inl (Bug_Check BAD_POOL_CALLER)
      else assert_that (pool_flags AND 0x40 \<noteq> 0 \<or> irql < 2)
             (pool_allocate fault pointer bt (ucast pool_flags) number_of_bytes tag s))"

definition ExAllocatePoolWithTagCPP ::
  "u8 \<Rightarrow> bool \<Rightarrow> ptr \<Rightarrow> backtrace \<Rightarrow> u32 \<Rightarrow> u64 \<Rightarrow> u32 \<Rightarrow> mem_state \<Rightarrow> (ptr \<times> mem_state) result" where
  "ExAllocatePoolWithTagCPP irql fault pointer bt pool_type number_of_bytes tag s =
     (case pool_type_to_flags pool_type True of
        Inl e \<Rightarrow> Inl e
      | Inr pool_flags \<Rightarrow> ExAllocatePool2CPP irql fault pointer bt (ucast pool_flags) number_of_bytes tag s)"

definition ExFreePoolWithTagCPP :: "backtrace \<Rightarrow> ptr \<Rightarrow> u32 \<Rightarrow> mem_state \<Rightarrow> mem_state result" where
  "ExFreePoolWithTagCPP bt p tag s =
     (if p = nullptr then Inl (Bug_Check BAD_POOL_CALLER)
      else let header = p - 64 in cxplat_free bt header (pool_headers s header) tag s)"

definition ExFreePoolCPP :: "backtrace \<Rightarrow> ptr \<Rightarrow> mem_state \<Rightarrow> mem_state result" where
  "ExFreePoolCPP bt p s =
     (if p = nullptr then Inl (Bug_Check BAD_POOL_CALLER)
      else let header = p - 64 in cxplat_free bt header (pool_headers s header) 0 s)"

section \<open>What the heap promises\<close>

text \<open>
  A successful \<^verbatim>\<open>malloc\<close> of \<open>n\<close> bytes: the block is not at 0, does not wrap around, shares no byte with
  a live block, and is aligned (64 for the aligned functions, 16 otherwise).
\<close>

definition in_range :: "ptr \<Rightarrow> u64 \<Rightarrow> ptr \<Rightarrow> bool" where
  "in_range a n x \<longleftrightarrow> x - a < n"

definition malloc_ok :: "mem_state \<Rightarrow> ptr \<Rightarrow> u64 \<Rightarrow> bool \<Rightarrow> bool" where
  "malloc_ok s p n aligned \<longleftrightarrow>
     p \<noteq> nullptr \<and> blocks s p = None \<and> unat p + unat n < 2 ^ 64 \<and> p mod (if aligned then 64 else 16) = 0 \<and>
     (\<forall>q m a x. blocks s q = Some (m, a) \<longrightarrow> in_range q m x \<longrightarrow> \<not> in_range p n x)"

definition user_pointer :: "u32 \<Rightarrow> ptr \<Rightarrow> ptr" where
  "user_pointer pool_flags block = block + pointer_offset pool_flags"

lemma mod_line: "(p + 64) mod 64 = p mod (64 :: u64)" "(p + 16) mod 16 = p mod (16 :: u64)"
proof -
  have "unat (p + 64) mod 64 = unat p mod 64" "unat (p + 16) mod 16 = unat p mod 16"
    by (simp_all add: unat_word_ariths mod_mod_cancel)
  then show "(p + 64) mod 64 = p mod (64 :: u64)" "(p + 16) mod 16 = p mod (16 :: u64)"
    by (simp_all add: word_unat_eq_iff unat_mod_distrib)
qed

lemma in_range_nat:
  assumes "unat a + unat n < 2 ^ 64"
  shows "in_range a n x \<longleftrightarrow> unat a \<le> unat x \<and> unat x < unat a + unat n"
proof (cases "a \<le> x")
  case True
  then have "unat (x - a) = unat x - unat a" by (simp add: unat_sub)
  then show ?thesis using True by (auto simp: in_range_def word_less_nat_alt word_le_nat_alt)
next
  case False
  then have lt: "unat x < unat a" by (simp add: word_le_nat_alt)
  have "unat (x - a) = 2 ^ 64 + unat x - unat a"
    using lt by (simp add: unat_sub_if_size word_le_nat_alt word_size)
  then show ?thesis using lt assms by (auto simp: in_range_def word_less_nat_alt)
qed

text \<open>The part of a block behind its header, and the header, are inside the block.\<close>

lemma user_range:
  assumes "unat p + unat (pointer_offset f + n) < 2 ^ 64" "unat (pointer_offset f) + unat n < 2 ^ 64"
    and "in_range (user_pointer f p) n x"
  shows "in_range p (pointer_offset f + n) x"
proof -
  have o: "unat (pointer_offset f + n) = unat (pointer_offset f) + unat n"
    using assms(2) by (simp add: unat_word_ariths)
  then have u: "unat (user_pointer f p) = unat p + unat (pointer_offset f)"
    using assms(1) by (simp add: user_pointer_def unat_word_ariths)
  show ?thesis using assms u o in_range_nat [of "user_pointer f p" n x]
      in_range_nat [of p "pointer_offset f + n" x] by auto
qed

section \<open>Allocation and release\<close>

definition new_header :: "u32 \<Rightarrow> u32 \<Rightarrow> u64 \<Rightarrow> allocation_header" where
  "new_header pool_flags tag n = \<lparr>hd_pool_flags = pool_flags, hd_tag = tag, hd_size = n\<rparr>"

definition fill_byte :: "u32 \<Rightarrow> u8" where
  "fill_byte pool_flags = (if has_flag pool_flags CXPLAT_POOL_FLAG_UNINITIALIZED then 0xcc else 0)"

lemmas pointer_defs = header_from_pointer_def memory_block_from_aligned_pointer_def
  memory_block_from_unaligned_pointer_def aligned_pointer_from_memory_block_def
  unaligned_pointer_from_memory_block_def user_pointer_def pointer_offset_def

lemma allocate_success:
  assumes "cxplat_allocate fault p bt f n tag s = Inr (m, s1)" "m \<noteq> nullptr"
  shows "0 < n" "p \<noteq> nullptr" "m = user_pointer f p"
    "s1 = s\<lparr>blocks := (blocks s)(p \<mapsto> (pointer_offset f + n, has_flag f CXPLAT_POOL_FLAG_CACHE_ALIGNED)),
            bytes := mem_fill m (fill_byte f) n (bytes s),
            headers := (headers s)(m - 16 := new_header f tag n),
            leaks := map_option (register_allocation bt m n) (leaks s)\<rparr>"
  using assms
  by (auto simp: cxplat_allocate_def Let_def pointer_defs new_header_def fill_byte_def split: if_splits)

lemma allocate_failure:
  assumes "cxplat_allocate fault p bt f n tag s = Inr (nullptr, s1)" "user_pointer f p \<noteq> nullptr"
  shows "s1 = s"
  using assms by (auto simp: cxplat_allocate_def Let_def pointer_defs split: if_splits)

lemma remember_stack_simps [simp]:
  "allocations (remember_stack bt d) = allocations d"
  "freed_allocations (remember_stack bt d) = freed_allocations d"
  "in_memory_log (remember_stack bt d) = in_memory_log d"
  by (simp_all add: remember_stack_def)

lemma register_allocations [simp]:
  "allocations (register_allocation bt m n d) =
     (allocations d)(m \<mapsto> \<lparr>al_address = m, al_size = n, alloc_stack_hash = bt_hash bt, free_stack_hash = 0\<rparr>)"
  by (simp add: register_allocation_def)

lemma unregister_Inr:
  assumes "allocations d m \<noteq> None"
  shows "\<exists>d'. unregister_allocation bt m d = Inr d' \<and> allocations d' = (allocations d)(m := None)"
  using assms by (auto simp: unregister_allocation_def)

text \<open>
  The general release: a live block whose header carries the given tag and flags, and which the leak
  detector, if there is one, knows.
\<close>

lemma free_live:
  assumes "m \<noteq> nullptr" "m = user_pointer f p"
    and "blocks s p = Some (k, has_flag f CXPLAT_POOL_FLAG_CACHE_ALIGNED)"
    and "headers s (m - 16) = new_header f tag n" "t = 0 \<or> t = tag"
    and "\<And>d. leaks s = Some d \<Longrightarrow> allocations d m \<noteq> None"
  shows "\<exists>s2. cxplat_free bt m f t s = Inr s2 \<and> blocks s2 = (blocks s)(p := None) \<and>
              bytes s2 = bytes s \<and> headers s2 = headers s \<and> pool_headers s2 = pool_headers s \<and>
              map_option allocations (leaks s2) = map_option (\<lambda>d. (allocations d)(m := None)) (leaks s)"
proof -
  have blk: "(if has_flag f CXPLAT_POOL_FLAG_CACHE_ALIGNED then memory_block_from_aligned_pointer m
       else memory_block_from_unaligned_pointer m) = p"
    using assms(2) by (simp add: pointer_defs)
  show ?thesis
  proof (cases "leaks s")
    case None
    then show ?thesis using assms blk
      by (auto simp: cxplat_free_def Let_def header_from_pointer_def new_header_def heap_free_def split: if_splits)
  next
    case (Some d)
    then obtain d' where "unregister_allocation bt m d = Inr d'" "allocations d' = (allocations d)(m := None)"
      using unregister_Inr assms(6) by blast
    then show ?thesis using assms blk Some
      by (auto simp: cxplat_free_def Let_def header_from_pointer_def new_header_def heap_free_def split: if_splits)
  qed
qed

lemma allocate_free:
  assumes "cxplat_allocate fault p bt f n tag s = Inr (m, s1)" "m \<noteq> nullptr" "blocks s p = None"
    and "t = 0 \<or> t = tag"
  shows "\<exists>s2. cxplat_free bt' m f t s1 = Inr s2 \<and> blocks s2 = blocks s \<and>
              map_option allocations (leaks s2) = map_option (\<lambda>d. (allocations d)(m := None)) (leaks s)"
proof -
  note A = allocate_success [OF assms(1,2)]
  have "\<exists>s2. cxplat_free bt' m f t s1 = Inr s2 \<and> blocks s2 = (blocks s1)(p := None) \<and>
      bytes s2 = bytes s1 \<and> headers s2 = headers s1 \<and> pool_headers s2 = pool_headers s1 \<and>
      map_option allocations (leaks s2) = map_option (\<lambda>d. (allocations d)(m := None)) (leaks s1)"
    by (rule free_live [OF assms(2) A(3) _ _ assms(4)]) (auto simp: A(4))
  moreover have "(blocks s1)(p := None) = blocks s" using assms(3) A(4) by (auto simp: fun_upd_idem_iff)
  moreover have "map_option (\<lambda>d. (allocations d)(m := None)) (leaks s1) =
      map_option (\<lambda>d. (allocations d)(m := None)) (leaks s)"
    using A(4) by (cases "leaks s") auto
  ultimately show ?thesis by auto
qed

section \<open>Properties\<close>

text \<open>
  C11: memory from \<^verbatim>\<open>cxplat_allocate\<close> is fresh. When the heap returned a block for the request and the size
  with its header does not wrap, every byte of the result is 0 (0xcc when \<^verbatim>\<open>UNINITIALIZED\<close> was asked for) and
  lies in the new heap block, no byte of any live block changes, and the pointer is aligned to a cache line
  when that was asked for and to 16 bytes otherwise. The allocation is recorded: the heap has exactly one block more, the header
  in front of the result holds the flags, the tag and the size and no other header changes, and the leak detector, if there is one,
  has exactly one entry more, with the address, the size and the hash of the caller's stack.
\<close>
theorem allocate_fresh:
  assumes "cxplat_allocate fault p bt f n tag s = Inr (m, s1)" "m \<noteq> nullptr"
    and "malloc_ok s p (pointer_offset f + n) (has_flag f CXPLAT_POOL_FLAG_CACHE_ALIGNED)"
    and "unat (pointer_offset f) + unat n < 2 ^ 64"
  shows "(\<forall>x. in_range m n x \<longrightarrow> in_range p (pointer_offset f + n) x \<and> bytes s1 x = fill_byte f) \<and>
         (\<forall>q k a x. blocks s q = Some (k, a) \<and> in_range q k x \<longrightarrow> bytes s1 x = bytes s x) \<and>
         m mod (if has_flag f CXPLAT_POOL_FLAG_CACHE_ALIGNED then 64 else 16) = 0 \<and>
         blocks s1 = (blocks s)(p \<mapsto> (pointer_offset f + n, has_flag f CXPLAT_POOL_FLAG_CACHE_ALIGNED)) \<and>
         headers s1 = (headers s)(header_from_pointer m := \<lparr>hd_pool_flags = f, hd_tag = tag, hd_size = n\<rparr>) \<and>
         map_option allocations (leaks s1) = map_option (\<lambda>d. (allocations d)(m \<mapsto>
           \<lparr>al_address = m, al_size = n, alloc_stack_hash = bt_hash bt, free_stack_hash = 0\<rparr>)) (leaks s)"
proof -
  note A = allocate_success [OF assms(1,2)]
  have rec: "blocks s1 = (blocks s)(p \<mapsto> (pointer_offset f + n, has_flag f CXPLAT_POOL_FLAG_CACHE_ALIGNED))"
    "headers s1 = (headers s)(header_from_pointer m := \<lparr>hd_pool_flags = f, hd_tag = tag, hd_size = n\<rparr>)"
    "map_option allocations (leaks s1) = map_option (\<lambda>d. (allocations d)(m \<mapsto>
       \<lparr>al_address = m, al_size = n, alloc_stack_hash = bt_hash bt, free_stack_hash = 0\<rparr>)) (leaks s)"
    by (simp_all add: A(4) header_from_pointer_def new_header_def option.map_comp o_def)
  have ok: "unat p + unat (pointer_offset f + n) < 2 ^ 64"
    "p mod (if has_flag f CXPLAT_POOL_FLAG_CACHE_ALIGNED then 64 else 16) = 0"
    "\<And>q k a x. blocks s q = Some (k, a) \<Longrightarrow> in_range q k x \<Longrightarrow> \<not> in_range p (pointer_offset f + n) x"
    using assms(3) by (auto simp: malloc_ok_def)
  have user: "in_range m n x \<Longrightarrow> in_range p (pointer_offset f + n) x" for x
    using user_range [OF ok(1) assms(4)] A(3) by simp
  have "in_range m n x \<Longrightarrow> bytes s1 x = fill_byte f" for x
    by (simp add: A(4) mem_fill_def in_range_def)
  moreover have "blocks s q = Some (k, a) \<Longrightarrow> in_range q k x \<Longrightarrow> bytes s1 x = bytes s x" for q k a x
    using ok(3) [of q k a x] user [of x] by (auto simp: A(4) mem_fill_def in_range_def)
  moreover have "m mod (if has_flag f CXPLAT_POOL_FLAG_CACHE_ALIGNED then 64 else 16) = 0"
    using ok(2) A(3) by (auto simp: user_pointer_def pointer_offset_def mod_line split: if_splits)
  ultimately show ?thesis using user rec by blast
qed

text \<open>A heap without live blocks and with an empty leak detector.\<close>

definition empty_leaks :: leak_detector where
  "empty_leaks = \<lparr>stack_hashes = Map.empty, allocations = Map.empty, freed_allocations = Map.empty, in_memory_log = []\<rparr>"

definition sample_heap :: mem_state where
  "sample_heap = \<lparr>bytes = \<lambda>_. 7, headers = \<lambda>_. new_header 0 0 0, blocks = Map.empty,
     leaks = Some empty_leaks, fuzzing_memory_limit = - 1, pool_headers = \<lambda>_. 0\<rparr>"

lemma sample_malloc_ok: "malloc_ok sample_heap 4096 (pointer_offset 0x48 + 32) (has_flag 0x48 8)"
  by (simp add: malloc_ok_def sample_heap_def pointer_offset_def has_flag_def)

lemma sample_allocate:
  obtains s1 where "cxplat_allocate False 4096 None 0x48 32 5 sample_heap = Inr (4160, s1)"
  by (simp add: cxplat_allocate_def sample_heap_def pointer_defs has_flag_def Let_def)

theorem allocate_fresh_witness:
  "\<exists>s1. cxplat_allocate False 4096 None 0x48 32 5 sample_heap = Inr (4160, s1) \<and>
        bytes s1 4170 = 0 \<and> (4160 :: u64) mod 64 = 0 \<and> blocks s1 4096 = Some (96, True) \<and>
        headers s1 4144 = \<lparr>hd_pool_flags = 0x48, hd_tag = 5, hd_size = 32\<rparr> \<and> (\<exists>d. leaks s1 = Some d \<and>
        allocations d = [4160 \<mapsto> \<lparr>al_address = 4160, al_size = 32, alloc_stack_hash = 0, free_stack_hash = 0\<rparr>])"
proof -
  obtain s1 where s1: "cxplat_allocate False 4096 None 0x48 32 5 sample_heap = Inr (4160, s1)"
    by (rule sample_allocate)
  have "in_range 4160 32 4170" by (simp add: in_range_def)
  with allocate_fresh [OF s1 _ sample_malloc_ok] s1 show ?thesis
    by (auto simp: pointer_offset_def has_flag_def fill_byte_def header_from_pointer_def sample_heap_def empty_leaks_def bt_hash_def)
qed

text \<open>
  C8: releasing memory with its flags, and with its tag or with tag 0, passes the assertions of
  \<^verbatim>\<open>cxplat_free\<close>, gives the block back to the heap, and takes the allocation out of the leak detector's table:
  live blocks and recorded allocations are as before the allocation. Other flags or another tag fail an
  assertion.
\<close>
theorem allocate_free_roundtrip:
  assumes "cxplat_allocate fault p bt f n tag s = Inr (m, s1)" "m \<noteq> nullptr" "blocks s p = None"
  shows "(t = 0 \<or> t = tag \<longrightarrow>
            (\<exists>s2. cxplat_free bt' m f t s1 = Inr s2 \<and> blocks s2 = blocks s \<and>
                  map_option allocations (leaks s2) = map_option (\<lambda>d. (allocations d)(m := None)) (leaks s))) \<and>
         (t \<noteq> 0 \<and> t \<noteq> tag \<or> g \<noteq> f \<longrightarrow> cxplat_free bt' m g t s1 = Inl Assert_Failed)"
proof (intro conjI impI)
  note A = allocate_success [OF assms(1,2)]
  show "\<exists>s2. cxplat_free bt' m f t s1 = Inr s2 \<and> blocks s2 = blocks s \<and>
      map_option allocations (leaks s2) = map_option (\<lambda>d. (allocations d)(m := None)) (leaks s)"
    if "t = 0 \<or> t = tag" by (rule allocate_free [OF assms that])
  show "cxplat_free bt' m g t s1 = Inl Assert_Failed" if "t \<noteq> 0 \<and> t \<noteq> tag \<or> g \<noteq> f"
    using that assms(2)
    by (auto simp: cxplat_free_def A(4) header_from_pointer_def new_header_def Let_def assert_that_def)
qed

theorem allocate_free_roundtrip_witness:
  "\<exists>s1 s2. cxplat_allocate False 4096 None 0x48 32 5 sample_heap = Inr (4160, s1) \<and>
           cxplat_free None 4160 0x48 5 s1 = Inr s2 \<and> blocks s2 = Map.empty \<and>
           cxplat_free None 4160 0x48 6 s1 = Inl Assert_Failed"
proof -
  obtain s1 where s1: "cxplat_allocate False 4096 None 0x48 32 5 sample_heap = Inr (4160, s1)"
    by (rule sample_allocate)
  have e: "blocks sample_heap 4096 = None" "blocks sample_heap = Map.empty" by (simp_all add: sample_heap_def)
  from allocate_free_roundtrip [OF s1 _ e(1), where t = 5 and bt' = None and g = "0x48"]
    allocate_free_roundtrip [OF s1 _ e(1), where t = 6 and bt' = None and g = "0x48"] s1 e(2) show ?thesis by auto
qed

section \<open>Reallocation\<close>

lemma no_wrap_add: "unat (a :: u64) + unat b < 2 ^ 64 \<Longrightarrow> unat (a + b) = unat a + unat b"
  by (simp add: unat_word_ariths)

lemma word_sub_less:
  fixes i old new :: u64
  shows "i < old \<Longrightarrow> i < new \<Longrightarrow> old < new \<Longrightarrow> \<not> i - old < new - old"
    and "old \<le> i \<Longrightarrow> i < new \<Longrightarrow> i - old < new - old"
proof -
  assume a: "i < old" "i < new" "old < new"
  have "unat (i - old) = 2 ^ 64 + unat i - unat old"
    using a(1) by (simp add: unat_sub_if_size word_less_nat_alt word_le_nat_alt word_size)
  moreover have "unat (new - old) = unat new - unat old" using a(3) by (simp add: unat_sub)
  moreover have "unat new < 2 ^ 64" using unsigned_less [of new] by simp
  ultimately show "\<not> i - old < new - old" using a by (simp add: word_less_nat_alt)
next
  assume a: "old \<le> i" "i < new"
  then have "unat (i - old) = unat i - unat old" "unat (new - old) = unat new - unat old"
    by (simp_all add: unat_sub)
  then show "i - old < new - old" using a by (simp add: word_less_nat_alt word_le_nat_alt)
qed

text \<open>A live allocation, as \<^verbatim>\<open>cxplat_allocate\<close> leaves it.\<close>

definition live :: "ptr \<Rightarrow> ptr \<Rightarrow> u32 \<Rightarrow> u64 \<Rightarrow> u32 \<Rightarrow> mem_state \<Rightarrow> bool" where
  "live m p f n tag s \<longleftrightarrow>
     m \<noteq> nullptr \<and> m = user_pointer f p \<and>
     blocks s p = Some (pointer_offset f + n, has_flag f CXPLAT_POOL_FLAG_CACHE_ALIGNED) \<and>
     headers s (m - 16) = new_header f tag n \<and>
     (\<forall>d. leaks s = Some d \<longrightarrow> allocations d m \<noteq> None)"

lemma allocate_live:
  assumes "cxplat_allocate fault p bt f n tag s = Inr (m, s1)" "m \<noteq> nullptr"
  shows "live m p f n tag s1"
  using allocate_success [OF assms] assms(2) by (auto simp: live_def)

lemma reallocate_success:
  assumes L: "live m p f old tag s" and q: "q \<noteq> nullptr" "user_pointer f q \<noteq> nullptr"
    and "new \<le> fuzzing_memory_limit s" "t = 0 \<or> t = tag"
  shows "\<exists>s1. cxplat_reallocate False q bt1 bt2 m f old new t s = Inr (user_pointer f q, s1) \<and>
              blocks s1 = (blocks s)(p := None, q \<mapsto> (pointer_offset f + new, has_flag f CXPLAT_POOL_FLAG_CACHE_ALIGNED)) \<and>
              headers s1 = (headers s)(user_pointer f q - 16 := new_header f tag old) \<and>
              fuzzing_memory_limit s1 = fuzzing_memory_limit s \<and>
              bytes s1 =
                (let b = mem_copy q p (min (pointer_offset f + old) (pointer_offset f + new)) (bytes s)
                 in if old < new then mem_fill (user_pointer f q + old) (fill_byte f) (new - old) b else b) \<and>
              map_option allocations (leaks s1) = map_option (\<lambda>d. (allocations d)(m := None, user_pointer f q \<mapsto>
                \<lparr>al_address = user_pointer f q, al_size = new, alloc_stack_hash = bt_hash bt2, free_stack_hash = 0\<rparr>)) (leaks s)"
proof -
  let ?al = "has_flag f CXPLAT_POOL_FLAG_CACHE_ALIGNED"
  have blk: "(if ?al then memory_block_from_aligned_pointer m else memory_block_from_unaligned_pointer m) = p"
    "(if ?al then aligned_pointer_from_memory_block q else unaligned_pointer_from_memory_block q) = user_pointer f q"
    using L by (simp_all add: live_def pointer_defs)
  have hd: "headers s (header_from_pointer m) = \<lparr>hd_pool_flags = f, hd_tag = tag, hd_size = old\<rparr>"
    "blocks s p = Some (pointer_offset f + old, ?al)"
    using L by (auto simp: live_def header_from_pointer_def new_header_def)
  note R = cxplat_reallocate_def Let_def blk hd header_from_pointer_def [of "user_pointer f q"]
    new_header_def fill_byte_def
  show ?thesis
  proof (cases "leaks s")
    case None
    then show ?thesis using q assms(4,5) by (auto simp: R not_less)
  next
    case (Some d)
    then obtain d' where "unregister_allocation bt1 m d = Inr d'" "allocations d' = (allocations d)(m := None)"
      using unregister_Inr [of d m bt1] L by (auto simp: live_def)
    then show ?thesis using Some q assms(4,5) by (auto simp: R not_less)
  qed
qed

lemma offset_cases: "pointer_offset f = 64 \<or> pointer_offset f = 16"
  by (simp add: pointer_offset_def)

lemma copied_byte:
  fixes i :: u64
  assumes "unat (pointer_offset f) + unat old < 2 ^ 64" "unat (pointer_offset f) + unat new < 2 ^ 64"
    and "i < min old new"
  shows "mem_copy q p (min (pointer_offset f + old) (pointer_offset f + new)) b (user_pointer f q + i) =
         b (user_pointer f p + i)"
proof -
  let ?o = "pointer_offset f"
  have "unat (?o + i) = unat ?o + unat i"
    using assms by (intro no_wrap_add) (auto simp: word_less_nat_alt min_def split: if_splits)
  moreover have "unat (?o + old) = unat ?o + unat old" "unat (?o + new) = unat ?o + unat new"
    using assms(1,2) no_wrap_add by blast+
  ultimately have lt: "?o + i < min (?o + old) (?o + new)"
    using assms(3) by (auto simp: word_less_nat_alt word_le_nat_alt min_def split: if_splits)
  have e: "user_pointer f q + i - q = ?o + i" "p + (?o + i) = user_pointer f p + i"
    by (simp_all add: user_pointer_def)
  show ?thesis unfolding mem_copy_def e using lt by (simp only: if_True)
qed

text \<open>
  a successful \<^verbatim>\<open>cxplat_reallocate\<close> keeps the contents up to the smaller of the two sizes, fills the rest
  with zeros (0xcc when uninitialized memory was asked for), releases the old block and records the new one.
  But it leaves the old size in the header: a second reallocation of the same memory that names the true
  size fails the assertion on the size.
\<close>
theorem reallocate_keeps_contents:
  assumes L: "live m p f old tag s" and q: "q \<noteq> nullptr" "user_pointer f q \<noteq> nullptr"
    and lim: "new \<le> fuzzing_memory_limit s" "new2 \<le> fuzzing_memory_limit s"
    and nowrap: "unat (pointer_offset f) + unat old < 2 ^ 64" "unat (pointer_offset f) + unat new < 2 ^ 64"
  shows "\<exists>s1. cxplat_reallocate False q bt1 bt2 m f old new tag s = Inr (user_pointer f q, s1) \<and>
              (\<forall>i. i < new \<longrightarrow> bytes s1 (user_pointer f q + i) =
                                (if i < old then bytes s (m + i) else fill_byte f)) \<and>
              blocks s1 = (blocks s)(p := None, q \<mapsto> (pointer_offset f + new, has_flag f CXPLAT_POOL_FLAG_CACHE_ALIGNED)) \<and>
              (old \<noteq> new \<longrightarrow>
                 cxplat_reallocate False q2 bt3 bt4 (user_pointer f q) f new new2 tag s1 = Inl Assert_Failed)"
proof -
  obtain s1 where s1: "cxplat_reallocate False q bt1 bt2 m f old new tag s = Inr (user_pointer f q, s1)"
      "blocks s1 = (blocks s)(p := None, q \<mapsto> (pointer_offset f + new, has_flag f CXPLAT_POOL_FLAG_CACHE_ALIGNED))"
      "headers s1 = (headers s)(user_pointer f q - 16 := new_header f tag old)"
      "fuzzing_memory_limit s1 = fuzzing_memory_limit s"
      "bytes s1 = (let b = mem_copy q p (min (pointer_offset f + old) (pointer_offset f + new)) (bytes s)
         in if old < new then mem_fill (user_pointer f q + old) (fill_byte f) (new - old) b else b)"
    using reallocate_success [OF L q lim(1), of tag bt1 bt2] by blast
  have m: "m = user_pointer f p" using L by (simp add: live_def)
  have "bytes s1 (user_pointer f q + i) = (if i < old then bytes s (m + i) else fill_byte f)" if i: "i < new" for i
  proof (cases "i < old")
    case True
    have "\<not> i - old < new - old" if "old < new" using word_sub_less(1) [OF True i that] .
    moreover have "user_pointer f q + i - (user_pointer f q + old) = i - old" by simp
    ultimately show ?thesis using copied_byte [OF nowrap, of i q p "bytes s"] True i m
      by (simp add: s1(5) mem_fill_def Let_def)
  next
    case False
    then have "old \<le> i" by simp
    with i have "i - old < new - old" "old < new" using word_sub_less(2) by auto
    moreover have "user_pointer f q + i - (user_pointer f q + old) = i - old" by simp
    ultimately show ?thesis using False by (simp add: s1(5) mem_fill_def Let_def)
  qed
  moreover have "cxplat_reallocate False q2 bt3 bt4 (user_pointer f q) f new new2 tag s1 = Inl Assert_Failed"
    if "old \<noteq> new"
    using that lim(2) s1(3,4)
    by (simp add: cxplat_reallocate_def header_from_pointer_def new_header_def not_less Let_def)
  ultimately show ?thesis using s1(1,2) by auto
qed

theorem reallocate_keeps_contents_witness:
  "\<exists>s1 s2. cxplat_allocate False 4096 None 0x48 32 5 sample_heap = Inr (4160, s1) \<and>
     cxplat_reallocate False 8192 None None 4160 0x48 32 48 5 s1 = Inr (8256, s2) \<and>
     bytes s2 (8256 + 40) = 0 \<and>
     cxplat_reallocate False 16384 None None 8256 0x48 48 64 5 s2 = Inl Assert_Failed"
proof -
  obtain s1 where s1: "cxplat_allocate False 4096 None 0x48 32 5 sample_heap = Inr (4160, s1)"
    by (rule sample_allocate)
  have L: "live 4160 4096 0x48 32 5 s1" by (rule allocate_live [OF s1]) simp
  have lim: "fuzzing_memory_limit s1 = - 1"
    using allocate_success(4) [OF s1] by (simp add: sample_heap_def)
  have u: "user_pointer 0x48 8192 = 8256" "pointer_offset 0x48 = 64" "fill_byte 0x48 = 0"
    by (simp_all add: user_pointer_def pointer_offset_def has_flag_def fill_byte_def)
  from reallocate_keeps_contents [OF L, of 8192 48 64 None None 16384 None None] lim u s1
  obtain s2 where "cxplat_reallocate False 8192 None None 4160 0x48 32 48 5 s1 = Inr (8256, s2)"
    "\<forall>i. i < 48 \<longrightarrow> bytes s2 (8256 + i) = (if i < 32 then bytes s1 (4160 + i) else 0)"
    "cxplat_reallocate False 16384 None None 8256 0x48 48 64 5 s2 = Inl Assert_Failed"
    by auto
  moreover from this(2) have "bytes s2 (8256 + 40) = 0" by (auto dest: spec [of _ 40])
  ultimately show ?thesis using s1 by blast
qed

text \<open>
  a failed reallocation with the leak detector on makes the memory impossible to release: the detector has
  already forgotten the old pointer, although the block is still live, so \<^verbatim>\<open>cxplat_free\<close> reports a double free.
\<close>
theorem failed_reallocate_loses_allocation:
  assumes "live m p f old tag s" "leaks s = Some d" "new \<le> fuzzing_memory_limit s"
  shows "\<exists>s1. cxplat_reallocate False nullptr bt1 bt2 m f old new tag s = Inr (nullptr, s1) \<and>
              blocks s1 = blocks s \<and> blocks s1 p \<noteq> None \<and> cxplat_free bt3 m f tag s1 = Inl Assert_Failed"
proof -
  have blk: "(if has_flag f CXPLAT_POOL_FLAG_CACHE_ALIGNED then memory_block_from_aligned_pointer m
       else memory_block_from_unaligned_pointer m) = p"
    using assms(1) by (simp add: live_def pointer_defs)
  have hd: "headers s (header_from_pointer m) = \<lparr>hd_pool_flags = f, hd_tag = tag, hd_size = old\<rparr>"
    "blocks s p = Some (pointer_offset f + old, has_flag f CXPLAT_POOL_FLAG_CACHE_ALIGNED)" "m \<noteq> nullptr"
    using assms(1) by (auto simp: live_def header_from_pointer_def new_header_def)
  obtain d' where d': "unregister_allocation bt1 m d = Inr d'" "allocations d' = (allocations d)(m := None)"
    using unregister_Inr [of d m bt1] assms(1,2) by (auto simp: live_def)
  have "unregister_allocation bt3 m d' = Inl Assert_Failed" by (simp add: unregister_allocation_def d'(2))
  then show ?thesis using assms(2,3) d' hd
    by (auto simp: cxplat_reallocate_def cxplat_free_def Let_def blk not_less)
qed

theorem failed_reallocate_loses_allocation_witness:
  "\<exists>s1 s2. cxplat_allocate False 4096 None 0x48 32 5 sample_heap = Inr (4160, s1) \<and>
     cxplat_reallocate False nullptr None None 4160 0x48 32 48 5 s1 = Inr (nullptr, s2) \<and>
     cxplat_free None 4160 0x48 5 s2 = Inl Assert_Failed"
proof -
  obtain s1 where s1: "cxplat_allocate False 4096 None 0x48 32 5 sample_heap = Inr (4160, s1)"
    by (rule sample_allocate)
  have L: "live 4160 4096 0x48 32 5 s1" by (rule allocate_live [OF s1]) simp
  have "leaks s1 = Some (register_allocation None 4160 32 empty_leaks)" "48 \<le> fuzzing_memory_limit s1"
    using allocate_success(4) [OF s1] by (simp_all add: sample_heap_def)
  from failed_reallocate_loses_allocation [OF L this] s1 show ?thesis by blast
qed

text \<open>
  the pool routines of \<^verbatim>\<open>ex.cpp\<close> are a checked layer over the allocator. A zero tag, an empty request, an
  unsupported pool type or a null pointer is a bug check; otherwise memory from \<^verbatim>\<open>ExAllocatePoolWithTag\<close> is
  behind a cache line that records its flags, and both \<^verbatim>\<open>ExFreePool\<close> and \<^verbatim>\<open>ExFreePoolWithTag\<close> with the
  tag of the allocation find that line and give the heap block back.
\<close>
theorem pool_roundtrip:
  assumes "ExAllocatePoolWithTagCPP irql fault p bt pool_type n tag s = Inr (m, s1)" "m \<noteq> nullptr"
    and "blocks s p = None"
  shows "tag \<noteq> 0 \<and> n \<noteq> 0 \<and> m = user_pointer (pool_headers s1 (m - 64)) p + 64 \<and>
         pool_type_to_flags pool_type True = Inr (pool_headers s1 (m - 64)) \<and>
         (\<exists>s2. ExFreePoolCPP bt' m s1 = Inr s2 \<and> blocks s2 = blocks s) \<and>
         (\<exists>s2. ExFreePoolWithTagCPP bt' m tag s1 = Inr s2 \<and> blocks s2 = blocks s)"
proof -
  obtain f where f: "pool_type_to_flags pool_type True = Inr f" "tag \<noteq> 0" "n \<noteq> 0"
      "pool_allocate fault p bt f n tag s = Inr (m, s1)"
    using assms(1) by (auto simp: ExAllocatePoolWithTagCPP_def ExAllocatePool2CPP_def
        unsigned_ucast_eq take_bit_word_eq_self split: sum.splits if_splits)
  obtain h s0 where h: "cxplat_allocate fault p bt f (64 + n) tag s = Inr (h, s0)" "h \<noteq> nullptr"
      "m = h + 64" "s1 = s0\<lparr>pool_headers := (pool_headers s0)(h := f)\<rparr>"
    using f(4) assms(2) by (auto simp: pool_allocate_def split: sum.splits if_splits)
  note A = allocate_success [OF h(1,2)]
  have k: "pool_headers s1 (m - 64) = f" using h(3,4) by simp
  have free: "\<exists>s2. cxplat_free bt' h f t s1 = Inr s2 \<and> blocks s2 = blocks s" if "t = 0 \<or> t = tag" for t
  proof -
    have "live h p f (64 + n) tag s0" by (rule allocate_live [OF h(1,2)])
    then have "\<exists>s2. cxplat_free bt' h f t s1 = Inr s2 \<and> blocks s2 = (blocks s1)(p := None) \<and>
        bytes s2 = bytes s1 \<and> headers s2 = headers s1 \<and> pool_headers s2 = pool_headers s1 \<and>
        map_option allocations (leaks s2) = map_option (\<lambda>d. (allocations d)(h := None)) (leaks s1)"
      by (intro free_live [OF h(2) A(3) _ _ that, where k = "pointer_offset f + (64 + n)" and n = "64 + n"])
        (auto simp: live_def h(4))
    moreover have "(blocks s1)(p := None) = blocks s"
      using assms(3) h(4) A(4) by (auto simp: fun_upd_idem_iff)
    ultimately show ?thesis by auto
  qed
  show ?thesis using f k h(3) A(3) free [of 0] free [of tag] assms(2)
    by (simp add: ExFreePoolCPP_def ExFreePoolWithTagCPP_def Let_def)
qed

theorem pool_roundtrip_witness:
  "\<exists>s1 s2. ExAllocatePoolWithTagCPP 0 False 4096 None NonPagedPoolNxCacheAligned 24 5 sample_heap = Inr (4224, s1) \<and>
           ExFreePoolWithTagCPP None 4224 5 s1 = Inr s2 \<and> blocks s2 = Map.empty"
proof -
  obtain s1 where s1: "ExAllocatePoolWithTagCPP 0 False 4096 None NonPagedPoolNxCacheAligned 24 5 sample_heap = Inr (4224, s1)"
    by (simp add: ExAllocatePoolWithTagCPP_def ExAllocatePool2CPP_def pool_type_to_flags_def pool_allocate_def
        cxplat_allocate_def sample_heap_def pointer_defs has_flag_def Let_def)
  have e: "blocks sample_heap 4096 = None" "blocks sample_heap = Map.empty" by (simp_all add: sample_heap_def)
  from pool_roundtrip [OF s1 _ e(1), where bt' = None] s1 e(2) show ?thesis by auto
qed

text \<open>
  the size computation of the pool routines wraps around. A request of more than \<open>2 ^ 64 - 64\<close> bytes that
  succeeds got a heap block of fewer than 128 bytes: \<^verbatim>\<open>sizeof(header) + number_of_bytes\<close> is not checked.
\<close>
theorem pool_size_wraps:
  assumes "ExAllocatePoolUninitializedCPP fault p bt pool_type n tag s = Inr (m, s1)" "m \<noteq> nullptr"
    and "2 ^ 64 - 64 < unat n"
  shows "\<exists>k a. blocks s1 p = Some (k, a) \<and> unat k < 128"
proof -
  obtain f where f: "pool_allocate fault p bt f n tag s = Inr (m, s1)"
    using assms(1) by (auto simp: ExAllocatePoolUninitializedCPP_def split: sum.splits if_splits)
  obtain h s0 where h: "cxplat_allocate fault p bt f (64 + n) tag s = Inr (h, s0)" "h \<noteq> nullptr"
      "s1 = s0\<lparr>pool_headers := (pool_headers s0)(h := f)\<rparr>"
    using f assms(2) by (auto simp: pool_allocate_def split: sum.splits if_splits)
  note A = allocate_success [OF h(1,2)]
  have n: "unat n < 2 ^ 64" using unsigned_less [of n] by simp
  have "unat (64 + n) = (64 + unat n) mod 2 ^ 64" by (simp add: unat_word_ariths)
  also have "\<dots> = 64 + unat n - 2 ^ 64" using assms(3) n by (simp add: mod_if)
  finally have "unat (64 + n) < 64" using n by simp
  then have "unat (pointer_offset f + (64 + n)) < 128"
    using offset_cases [of f] no_wrap_add [of "pointer_offset f" "64 + n"] by auto
  then show ?thesis using A(4) h(3) by simp
qed

theorem pool_size_wraps_witness:
  "\<exists>s1 k a. ExAllocatePoolUninitializedCPP False 4096 None NonPagedPoolNx (- 8) 5 sample_heap = Inr (4176, s1) \<and>
            blocks s1 4096 = Some (k, a) \<and> unat k < 128"
proof -
  obtain s1 where s1: "ExAllocatePoolUninitializedCPP False 4096 None NonPagedPoolNx (- 8) 5 sample_heap = Inr (4176, s1)"
    by (simp add: ExAllocatePoolUninitializedCPP_def pool_type_to_flags_def pool_allocate_def
        cxplat_allocate_def sample_heap_def pointer_defs has_flag_def Let_def)
  from pool_size_wraps [OF s1] s1 show ?thesis by simp
qed

end
