(* ===== verification/Nmr.thy ===== *)
theory Nmr
  imports Usersim_Prelude
begin

text \<open>
  The network module registrar, \<^verbatim>\<open>src/nmr_impl.h\<close>, \<^verbatim>\<open>nmr_impl.cpp\<close> and \<^verbatim>\<open>nmr_um.cpp\<close>: client and provider
  registrations, the bindings between them and the protocol that attaches and detaches them. Each
  definition is one critical section of \<^verbatim>\<open>nmr_t::lock\<close>. The callbacks into the modules, which run outside
  the lock, are parameters: their results are arguments of the section that follows them. The lists
  \<open>attaching\<close>, \<open>detaching\<close> and \<open>completing\<close> record the bindings for which some thread is between two
  sections: before the end of an attach action, between the two halves of \<^verbatim>\<open>begin_unbind\<close>, and about to
  call \<^verbatim>\<open>unbind_complete\<close>. Handles are numbers; the addresses of bindings are numbered in order of creation.
\<close>

section \<open>State\<close>

record registration =
  npi :: "128 word option"
  reg_context :: ptr
  has_cleanup :: bool
  binding_count :: int
  deregistering :: bool

datatype binding_status = Start | Ready | BeginUnbind | UnbindPending | UnbindComplete

record binding =
  b_provider :: nat
  b_client :: nat
  provider_binding_context :: ptr
  provider_dispatch :: ptr
  provider_binding_status :: binding_status
  client_binding_context :: ptr
  client_dispatch :: ptr
  client_binding_status :: binding_status

datatype nmr_event = Client_Cleanup nat ptr | Provider_Cleanup nat ptr

record nmr =
  clients :: "nat \<rightharpoonup> registration"
  providers :: "nat \<rightharpoonup> registration"
  bindings :: "nat \<rightharpoonup> binding"
  next_handle :: nat
  next_binding :: nat
  attaching :: "nat list"
  detaching :: "nat list"
  completing :: "nat list"
  events :: "nmr_event list"

definition empty_nmr :: nmr where
  "empty_nmr = \<lparr>clients = Map.empty, providers = Map.empty, bindings = Map.empty, next_handle = 1,
     next_binding = 0, attaching = [], detaching = [], completing = [], events = []\<rparr>"

definition invalid_handle :: exn where
  "invalid_handle = Runtime_Error ''invalid handle''"

section \<open>Registration\<close>

definition new_registration :: "128 word option \<Rightarrow> ptr \<Rightarrow> bool \<Rightarrow> registration" where
  "new_registration i c cleanup =
     \<lparr>npi = i, reg_context = c, has_cleanup = cleanup, binding_count = 0, deregistering = False\<rparr>"

definition add_client :: "128 word option \<Rightarrow> ptr \<Rightarrow> bool \<Rightarrow> nmr \<Rightarrow> nat \<times> nmr" where
  "add_client i c cleanup s =
     (next_handle s, s\<lparr>clients := (clients s)(next_handle s \<mapsto> new_registration i c cleanup),
                       next_handle := Suc (next_handle s)\<rparr>)"

definition add_provider :: "128 word option \<Rightarrow> ptr \<Rightarrow> bool \<Rightarrow> nmr \<Rightarrow> nat \<times> nmr" where
  "add_provider i c cleanup s =
     (next_handle s, s\<lparr>providers := (providers s)(next_handle s \<mapsto> new_registration i c cleanup),
                       next_handle := Suc (next_handle s)\<rparr>)"

definition deactivate_client :: "nat \<Rightarrow> nmr \<Rightarrow> nmr result" where
  "deactivate_client h s =
     (case clients s h of
        None \<Rightarrow> Inl invalid_handle
      | Some r \<Rightarrow> Inr (s\<lparr>clients := (clients s)(h \<mapsto> r\<lparr>deregistering := True\<rparr>)\<rparr>))"

definition deactivate_provider :: "nat \<Rightarrow> nmr \<Rightarrow> nmr result" where
  "deactivate_provider h s =
     (case providers s h of
        None \<Rightarrow> Inl invalid_handle
      | Some r \<Rightarrow> Inr (s\<lparr>providers := (providers s)(h \<mapsto> r\<lparr>deregistering := True\<rparr>)\<rparr>))"

text \<open>
  \<^verbatim>\<open>remove\<close>: \<open>None\<close> while the call waits for the bindings of the registration to go away. The flag \<open>timeout\<close> says that the
  \<^verbatim>\<open>NMR_WAIT_TIMEOUT_SECONDS\<close> of the wait have passed; if bindings are left then, the debug assertion fails.
\<close>

definition remove_client :: "bool \<Rightarrow> nat \<Rightarrow> nmr \<Rightarrow> nmr option result" where
  "remove_client timeout h s =
     (case clients s h of
        None \<Rightarrow> Inl invalid_handle
      | Some r \<Rightarrow> if binding_count r > 0 then (if timeout then Inl Assert_Failed else Inr None)
                  else Inr (Some (s\<lparr>clients := (clients s)(h := None)\<rparr>)))"

definition remove_provider :: "bool \<Rightarrow> nat \<Rightarrow> nmr \<Rightarrow> nmr option result" where
  "remove_provider timeout h s =
     (case providers s h of
        None \<Rightarrow> Inl invalid_handle
      | Some r \<Rightarrow> if binding_count r > 0 then (if timeout then Inl Assert_Failed else Inr None)
                  else Inr (Some (s\<lparr>providers := (providers s)(h := None)\<rparr>)))"

section \<open>Binding\<close>

definition new_binding :: "nat \<Rightarrow> nat \<Rightarrow> binding" where
  "new_binding c p = \<lparr>b_provider = p, b_client = c, provider_binding_context = nullptr,
     provider_dispatch = nullptr, provider_binding_status = Start, client_binding_context = nullptr,
     client_dispatch = nullptr, client_binding_status = Start\<rparr>"

definition adjust_count :: "int \<Rightarrow> registration \<Rightarrow> registration" where
  "adjust_count k r = r\<lparr>binding_count := binding_count r + k\<rparr>"

definition nmr_bind :: "nat \<Rightarrow> nat \<Rightarrow> nmr \<Rightarrow> nmr" where
  "nmr_bind c p s =
     (case (clients s c, providers s p) of
        (Some client, Some provider) \<Rightarrow>
          if npi client = None \<or> npi provider = None \<or> npi client \<noteq> npi provider then s
          else if deregistering client \<or> deregistering provider then s
          else s\<lparr>clients := (clients s)(c \<mapsto> adjust_count 1 client),
                 providers := (providers s)(p \<mapsto> adjust_count 1 provider),
                 bindings := (bindings s)(next_binding s \<mapsto> new_binding c p),
                 next_binding := Suc (next_binding s),
                 attaching := attaching s @ [next_binding s]\<rparr>
      | _ \<Rightarrow> s)"

text \<open>The targets in the order of the \<^verbatim>\<open>std::map\<close>.\<close>

definition handles :: "(nat \<rightharpoonup> registration) \<Rightarrow> nat \<Rightarrow> nat list" where
  "handles m n = filter (\<lambda>h. m h \<noteq> None) [0..<n]"

definition perform_bind_client :: "nat \<Rightarrow> nmr \<Rightarrow> nmr result" where
  "perform_bind_client h s =
     (if clients s h = None then Inl invalid_handle
      else Inr (fold (nmr_bind h) (handles (providers s) (next_handle s)) s))"

definition perform_bind_provider :: "nat \<Rightarrow> nmr \<Rightarrow> nmr result" where
  "perform_bind_provider h s =
     (if providers s h = None then Inl invalid_handle
      else Inr (fold (\<lambda>c. nmr_bind c h) (handles (clients s) (next_handle s)) s))"

text \<open>
  \<^verbatim>\<open>client_attach_provider\<close>: the client's contexts are stored, then the provider's callback runs with pointers
  to the provider's fields of the binding; \<open>status\<close>, \<open>pc\<close> and \<open>pd\<close> are its results.
\<close>

definition client_attach_provider ::
  "nat \<Rightarrow> ptr \<Rightarrow> ptr \<Rightarrow> ntstatus \<Rightarrow> ptr \<Rightarrow> ptr \<Rightarrow> nmr \<Rightarrow> ((ntstatus \<times> (ptr \<times> ptr) option) \<times> nmr) result" where
  "client_attach_provider b cc cd status pc pd s =
     (case bindings s b of
        None \<Rightarrow> Inl invalid_handle
      | Some x \<Rightarrow>
          (let x1 = x\<lparr>client_binding_context := cc, client_dispatch := cd,
                      provider_binding_context := pc, provider_dispatch := pd\<rparr>
           in Inr ((status, if NT_SUCCESS status then Some (pc, pd) else None),
                   s\<lparr>bindings := (bindings s)(b \<mapsto> x1)\<rparr>)))"

text \<open>The end of an attach action: \<open>status\<close> is the result of the client's \<^verbatim>\<open>ClientAttachProvider\<close> callback.\<close>

definition attach_done :: "nat \<Rightarrow> ntstatus \<Rightarrow> nmr \<Rightarrow> nmr" where
  "attach_done b status s =
     (if NT_SUCCESS status
      then s\<lparr>bindings := (case bindings s b of
                            None \<Rightarrow> bindings s
                          | Some x \<Rightarrow> (bindings s)(b \<mapsto> x\<lparr>client_binding_status := Ready,
                                                        provider_binding_status := Ready\<rparr>)),
             attaching := remove1 b (attaching s)\<rparr>
      else s\<lparr>attaching := remove1 b (attaching s), completing := completing s @ [b]\<rparr>)"

section \<open>Unbinding\<close>

text \<open>A binding that is no longer in the table, or whose registration is gone, is a dangling reference.\<close>

definition unbind_complete :: "nat \<Rightarrow> nmr \<Rightarrow> nmr result" where
  "unbind_complete b s =
     (case bindings s b of
        None \<Rightarrow> Inl Out_Of_Bounds
      | Some x \<Rightarrow>
          (case (clients s (b_client x), providers s (b_provider x)) of
             (Some client, Some provider) \<Rightarrow>
               (let ev = (if has_cleanup client \<and> client_binding_context x \<noteq> nullptr
                          then [Client_Cleanup (b_client x) (client_binding_context x)] else []) @
                         (if has_cleanup provider \<and> provider_binding_context x \<noteq> nullptr
                          then [Provider_Cleanup (b_provider x) (provider_binding_context x)] else [])
                in Inr (s\<lparr>events := events s @ ev,
                          providers := (providers s)(b_provider x \<mapsto> adjust_count (-1) provider),
                          clients := (clients s)(b_client x \<mapsto> adjust_count (-1) client),
                          bindings := (bindings s)(b := None),
                          completing := remove1 b (completing s)\<rparr>))
           | _ \<Rightarrow> Inl Out_Of_Bounds))"

text \<open>
  The first section of \<^verbatim>\<open>begin_unbind\<close>: \<open>True\<close> is the early return. The caller holds the binding by a \<^verbatim>\<open>shared_ptr\<close>, so it may
  have been erased meanwhile; an erased binding was never attached or is completely unbound, hence not ready.
\<close>

definition begin_unbind_start :: "nat \<Rightarrow> nmr \<Rightarrow> (bool \<times> nmr) result" where
  "begin_unbind_start b s =
     (case bindings s b of
        None \<Rightarrow> Inr (True, s)
      | Some x \<Rightarrow>
          if client_binding_status x \<noteq> Ready \<or> provider_binding_status x \<noteq> Ready then Inr (True, s)
          else Inr (False, s\<lparr>bindings := (bindings s)(b \<mapsto> x\<lparr>client_binding_status := BeginUnbind,
                                                             provider_binding_status := BeginUnbind\<rparr>),
                             detaching := detaching s @ [b]\<rparr>))"

text \<open>
  The second section: \<open>cs\<close> and \<open>ps\<close> are the results of the detach callbacks, which are only made when the
  side has a context.
\<close>

definition begin_unbind_finish :: "nat \<Rightarrow> ntstatus \<Rightarrow> ntstatus \<Rightarrow> nmr \<Rightarrow> (bool \<times> nmr) result" where
  "begin_unbind_finish b cs ps s =
     (case bindings s b of
        None \<Rightarrow> Inl Out_Of_Bounds
      | Some x \<Rightarrow>
          (let client_detach_provider_status = (if client_binding_context x \<noteq> nullptr then cs else STATUS_SUCCESS);
               provider_detach_client_status = (if provider_binding_context x \<noteq> nullptr then ps else STATUS_SUCCESS);
               pst = (if client_detach_provider_status = STATUS_PENDING \<and> provider_binding_status x \<noteq> UnbindComplete
                      then UnbindPending else UnbindComplete);
               cst = (if provider_detach_client_status = STATUS_PENDING \<and> client_binding_status x \<noteq> UnbindComplete
                      then UnbindPending else UnbindComplete);
               complete = (cst = UnbindComplete \<and> pst = UnbindComplete);
               s1 = s\<lparr>bindings := (bindings s)(b \<mapsto> x\<lparr>provider_binding_status := pst, client_binding_status := cst\<rparr>),
                      detaching := remove1 b (detaching s)\<rparr>
           in Inr (\<not> complete, if complete then s1\<lparr>completing := completing s1 @ [b]\<rparr> else s1)))"

definition binding_detach_client_complete :: "nat \<Rightarrow> nmr \<Rightarrow> nmr result" where
  "binding_detach_client_complete b s =
     (case bindings s b of
        None \<Rightarrow> Inl invalid_handle
      | Some x \<Rightarrow>
          assert_that (client_binding_status x = UnbindPending)
           (let s1 = s\<lparr>bindings := (bindings s)(b \<mapsto> x\<lparr>client_binding_status := UnbindComplete\<rparr>)\<rparr>
            in Inr (if provider_binding_status x = UnbindComplete
                    then s1\<lparr>completing := completing s1 @ [b]\<rparr> else s1)))"

definition binding_detach_provider_complete :: "nat \<Rightarrow> nmr \<Rightarrow> nmr result" where
  "binding_detach_provider_complete b s =
     (case bindings s b of
        None \<Rightarrow> Inl invalid_handle
      | Some x \<Rightarrow>
          assert_that (provider_binding_status x = UnbindPending)
           (let s1 = s\<lparr>bindings := (bindings s)(b \<mapsto> x\<lparr>provider_binding_status := UnbindComplete\<rparr>)\<rparr>
            in Inr (if client_binding_status x = UnbindComplete
                    then s1\<lparr>completing := completing s1 @ [b]\<rparr> else s1)))"

text \<open>The bindings that \<^verbatim>\<open>perform_unbind\<close> collects for a registration.\<close>

definition client_bindings :: "nat \<Rightarrow> nmr \<Rightarrow> nat list" where
  "client_bindings h s =
     filter (\<lambda>b. case bindings s b of None \<Rightarrow> False | Some x \<Rightarrow> b_client x = h) [0..<next_binding s]"

definition provider_bindings :: "nat \<Rightarrow> nmr \<Rightarrow> nat list" where
  "provider_bindings h s =
     filter (\<lambda>b. case bindings s b of None \<Rightarrow> False | Some x \<Rightarrow> b_provider x = h) [0..<next_binding s]"

section \<open>The public operations without concurrency\<close>

text \<open>
  \<open>at b\<close> says what the client of binding \<open>b\<close> does in \<^verbatim>\<open>ClientAttachProvider\<close>: whether it calls
  \<^verbatim>\<open>NmrClientAttachProvider\<close>, with which contexts and results, and what it returns. \<open>dt b\<close> gives the results
  of the two detach callbacks.
\<close>

type_synonym attach_behaviour = "nat \<Rightarrow> (ptr \<times> ptr \<times> ntstatus \<times> ptr \<times> ptr) option \<times> ntstatus"
type_synonym detach_behaviour = "nat \<Rightarrow> ntstatus \<times> ntstatus"

definition attach_action :: "attach_behaviour \<Rightarrow> nat \<Rightarrow> nmr \<Rightarrow> nmr result" where
  "attach_action at b s =
     (case (case fst (at b) of
              None \<Rightarrow> Inr s
            | Some (cc, cd, ps, pc, pd) \<Rightarrow>
                (case client_attach_provider b cc cd ps pc pd s of Inl e \<Rightarrow> Inl e | Inr (_, s1) \<Rightarrow> Inr s1)) of
        Inl e \<Rightarrow> Inl e
      | Inr s1 \<Rightarrow>
          (let s2 = attach_done b (snd (at b)) s1
           in if NT_SUCCESS (snd (at b)) then Inr s2 else unbind_complete b s2))"

fun run_actions :: "(nat \<Rightarrow> nmr \<Rightarrow> nmr result) \<Rightarrow> nat list \<Rightarrow> nmr \<Rightarrow> nmr result" where
  "run_actions f [] s = Inr s"
| "run_actions f (b # bs) s = (case f b s of Inl e \<Rightarrow> Inl e | Inr s1 \<Rightarrow> run_actions f bs s1)"

definition register_client :: "attach_behaviour \<Rightarrow> 128 word option \<Rightarrow> ptr \<Rightarrow> bool \<Rightarrow> nmr \<Rightarrow> (nat \<times> nmr) result" where
  "register_client at i c cleanup s =
     (let (h, s1) = add_client i c cleanup s
      in case perform_bind_client h s1 of
           Inl e \<Rightarrow> Inl e
         | Inr s2 \<Rightarrow>
             (case run_actions (attach_action at) (drop (length (attaching s1)) (attaching s2)) s2 of
                Inl e \<Rightarrow> Inl e
              | Inr s3 \<Rightarrow> Inr (h, s3)))"

definition register_provider :: "attach_behaviour \<Rightarrow> 128 word option \<Rightarrow> ptr \<Rightarrow> bool \<Rightarrow> nmr \<Rightarrow> (nat \<times> nmr) result" where
  "register_provider at i c cleanup s =
     (let (h, s1) = add_provider i c cleanup s
      in case perform_bind_provider h s1 of
           Inl e \<Rightarrow> Inl e
         | Inr s2 \<Rightarrow>
             (case run_actions (attach_action at) (drop (length (attaching s1)) (attaching s2)) s2 of
                Inl e \<Rightarrow> Inl e
              | Inr s3 \<Rightarrow> Inr (h, s3)))"

definition begin_unbind :: "detach_behaviour \<Rightarrow> nat \<Rightarrow> nmr \<Rightarrow> (bool \<times> nmr) result" where
  "begin_unbind dt b s =
     (case begin_unbind_start b s of
        Inl e \<Rightarrow> Inl e
      | Inr (True, s1) \<Rightarrow> Inr (True, s1)
      | Inr (False, s1) \<Rightarrow>
          (case begin_unbind_finish b (fst (dt b)) (snd (dt b)) s1 of
             Inl e \<Rightarrow> Inl e
           | Inr (True, s2) \<Rightarrow> Inr (True, s2)
           | Inr (False, s2) \<Rightarrow>
               (case unbind_complete b s2 of Inl e \<Rightarrow> Inl e | Inr s3 \<Rightarrow> Inr (False, s3))))"

fun unbind_all :: "detach_behaviour \<Rightarrow> nat list \<Rightarrow> nmr \<Rightarrow> (bool \<times> nmr) result" where
  "unbind_all dt [] s = Inr (False, s)"
| "unbind_all dt (b # bs) s =
     (case begin_unbind dt b s of
        Inl e \<Rightarrow> Inl e
      | Inr (p, s1) \<Rightarrow>
          (case unbind_all dt bs s1 of Inl e \<Rightarrow> Inl e | Inr (q, s2) \<Rightarrow> Inr (p \<or> q, s2)))"

definition perform_unbind_client :: "detach_behaviour \<Rightarrow> nat \<Rightarrow> nmr \<Rightarrow> (bool \<times> nmr) result" where
  "perform_unbind_client dt h s =
     (if clients s h = None then Inl invalid_handle else unbind_all dt (client_bindings h s) s)"

definition perform_unbind_provider :: "detach_behaviour \<Rightarrow> nat \<Rightarrow> nmr \<Rightarrow> (bool \<times> nmr) result" where
  "perform_unbind_provider dt h s =
     (if providers s h = None then Inl invalid_handle else unbind_all dt (provider_bindings h s) s)"

text \<open>\<open>Inr None\<close>: the call waits in \<^verbatim>\<open>remove\<close>; \<open>Inr (Some (True, _))\<close>: the caller has to wait.\<close>

definition deregister_client :: "bool \<Rightarrow> detach_behaviour \<Rightarrow> nat \<Rightarrow> nmr \<Rightarrow> (bool \<times> nmr) option result" where
  "deregister_client timeout dt h s =
     (case deactivate_client h s of
        Inl e \<Rightarrow> Inl e
      | Inr s1 \<Rightarrow>
          (case perform_unbind_client dt h s1 of
             Inl e \<Rightarrow> Inl e
           | Inr (True, s2) \<Rightarrow> Inr (Some (True, s2))
           | Inr (False, s2) \<Rightarrow>
               (case remove_client timeout h s2 of Inl e \<Rightarrow> Inl e | Inr o1 \<Rightarrow> Inr (map_option (Pair False) o1))))"

definition deregister_provider :: "bool \<Rightarrow> detach_behaviour \<Rightarrow> nat \<Rightarrow> nmr \<Rightarrow> (bool \<times> nmr) option result" where
  "deregister_provider timeout dt h s =
     (case deactivate_provider h s of
        Inl e \<Rightarrow> Inl e
      | Inr s1 \<Rightarrow>
          (case perform_unbind_provider dt h s1 of
             Inl e \<Rightarrow> Inl e
           | Inr (True, s2) \<Rightarrow> Inr (Some (True, s2))
           | Inr (False, s2) \<Rightarrow>
               (case remove_provider timeout h s2 of Inl e \<Rightarrow> Inl e | Inr o1 \<Rightarrow> Inr (map_option (Pair False) o1))))"

definition NmrRegisterClient ::
  "bool \<Rightarrow> attach_behaviour \<Rightarrow> 128 word option \<Rightarrow> ptr \<Rightarrow> bool \<Rightarrow> nmr \<Rightarrow> ((ntstatus \<times> nat option) \<times> nmr) result" where
  "NmrRegisterClient fault at i c cleanup s =
     (if fault then Inr ((STATUS_NO_MEMORY, None), s)
      else case register_client at i c cleanup s of
             Inl e \<Rightarrow> Inl e | Inr (h, s1) \<Rightarrow> Inr ((STATUS_SUCCESS, Some h), s1))"

definition NmrRegisterProvider ::
  "bool \<Rightarrow> attach_behaviour \<Rightarrow> 128 word option \<Rightarrow> ptr \<Rightarrow> bool \<Rightarrow> nmr \<Rightarrow> ((ntstatus \<times> nat option) \<times> nmr) result" where
  "NmrRegisterProvider fault at i c cleanup s =
     (if fault then Inr ((STATUS_NO_MEMORY, None), s)
      else case register_provider at i c cleanup s of
             Inl e \<Rightarrow> Inl e | Inr (h, s1) \<Rightarrow> Inr ((STATUS_SUCCESS, Some h), s1))"

definition NmrDeregisterClient :: "bool \<Rightarrow> detach_behaviour \<Rightarrow> nat \<Rightarrow> nmr \<Rightarrow> (ntstatus \<times> nmr) option result" where
  "NmrDeregisterClient timeout dt h s =
     (case deregister_client timeout dt h s of
        Inl e \<Rightarrow> Inl e
      | Inr o1 \<Rightarrow> Inr (map_option (\<lambda>(p, s1). (if p then STATUS_PENDING else STATUS_SUCCESS, s1)) o1))"

definition NmrDeregisterProvider :: "bool \<Rightarrow> detach_behaviour \<Rightarrow> nat \<Rightarrow> nmr \<Rightarrow> (ntstatus \<times> nmr) option result" where
  "NmrDeregisterProvider timeout dt h s =
     (case deregister_provider timeout dt h s of
        Inl e \<Rightarrow> Inl e
      | Inr o1 \<Rightarrow> Inr (map_option (\<lambda>(p, s1). (if p then STATUS_PENDING else STATUS_SUCCESS, s1)) o1))"

section \<open>All interleavings\<close>

inductive nmr_step :: "nmr \<Rightarrow> nmr \<Rightarrow> bool" where
  step_add_client: "nmr_step s (snd (add_client i c cl s))"
| step_add_provider: "nmr_step s (snd (add_provider i c cl s))"
| step_bind_client: "perform_bind_client h s = Inr s' \<Longrightarrow> nmr_step s s'"
| step_bind_provider: "perform_bind_provider h s = Inr s' \<Longrightarrow> nmr_step s s'"
| step_attach: "b \<in> set (attaching s) \<Longrightarrow> client_attach_provider b cc cd st pc pd s = Inr (r, s') \<Longrightarrow> nmr_step s s'"
| step_attach_done: "b \<in> set (attaching s) \<Longrightarrow> nmr_step s (attach_done b st s)"
| step_deactivate_client: "deactivate_client h s = Inr s' \<Longrightarrow> nmr_step s s'"
| step_deactivate_provider: "deactivate_provider h s = Inr s' \<Longrightarrow> nmr_step s s'"
| step_unbind_start: "begin_unbind_start b s = Inr (r, s') \<Longrightarrow> nmr_step s s'"
| step_unbind_finish: "b \<in> set (detaching s) \<Longrightarrow> begin_unbind_finish b cs ps s = Inr (r, s') \<Longrightarrow> nmr_step s s'"
| step_detach_client: "binding_detach_client_complete b s = Inr s' \<Longrightarrow> nmr_step s s'"
| step_detach_provider: "binding_detach_provider_complete b s = Inr s' \<Longrightarrow> nmr_step s s'"
| step_unbind_complete: "b \<in> set (completing s) \<Longrightarrow> unbind_complete b s = Inr s' \<Longrightarrow> nmr_step s s'"
| step_remove_client: "remove_client timeout h s = Inr (Some s') \<Longrightarrow> nmr_step s s'"
| step_remove_provider: "remove_provider timeout h s = Inr (Some s') \<Longrightarrow> nmr_step s s'"

inductive nmr_reachable :: "nmr \<Rightarrow> bool" where
  init: "nmr_reachable empty_nmr"
| step: "nmr_reachable s \<Longrightarrow> nmr_step s s' \<Longrightarrow> nmr_reachable s'"

section \<open>The invariant\<close>

definition refs :: "(binding \<Rightarrow> nat) \<Rightarrow> nat \<Rightarrow> (nat \<rightharpoonup> binding) \<Rightarrow> nat set" where
  "refs side h bs = {b. \<exists>x. bs b = Some x \<and> side x = h}"

definition counted :: "(binding \<Rightarrow> nat) \<Rightarrow> (nat \<rightharpoonup> registration) \<Rightarrow> (nat \<rightharpoonup> binding) \<Rightarrow> bool" where
  "counted side regs bs \<longleftrightarrow>
     (\<forall>h r. regs h = Some r \<longrightarrow> binding_count r = int (card (refs side h bs))) \<and>
     (\<forall>b x. bs b = Some x \<longrightarrow> regs (side x) \<noteq> None)"

definition phases :: "nmr \<Rightarrow> bool" where
  "phases s \<longleftrightarrow>
     distinct (attaching s @ detaching s @ completing s) \<and>
     (\<forall>b \<in> set (attaching s). \<exists>x. bindings s b = Some x \<and>
        client_binding_status x = Start \<and> provider_binding_status x = Start) \<and>
     (\<forall>b \<in> set (detaching s). \<exists>x. bindings s b = Some x \<and>
        client_binding_status x = BeginUnbind \<and> provider_binding_status x = BeginUnbind) \<and>
     (\<forall>b \<in> set (completing s). \<exists>x. bindings s b = Some x \<and>
        (client_binding_status x = Start \<and> provider_binding_status x = Start \<or>
         client_binding_status x = UnbindComplete \<and> provider_binding_status x = UnbindComplete))"

definition nmr_inv :: "nmr \<Rightarrow> bool" where
  "nmr_inv s \<longleftrightarrow>
     counted b_client (clients s) (bindings s) \<and> counted b_provider (providers s) (bindings s) \<and>
     (\<forall>b. bindings s b \<noteq> None \<longrightarrow> b < next_binding s) \<and>
     (\<forall>h. clients s h \<noteq> None \<or> providers s h \<noteq> None \<longrightarrow> h < next_handle s) \<and>
     phases s"

lemma finite_refs: "\<forall>b. bs b \<noteq> None \<longrightarrow> b < n \<Longrightarrow> finite (refs side h bs)"
  by (rule finite_subset [of _ "{..<n}"]) (auto simp: refs_def)

lemma refs_insert:
  "bs b = None \<Longrightarrow> refs side h (bs(b \<mapsto> x)) = (if side x = h then insert b (refs side h bs) else refs side h bs)"
  by (auto simp: refs_def)

lemma refs_update: "bs b = Some x \<Longrightarrow> side y = side x \<Longrightarrow> refs side h (bs(b \<mapsto> y)) = refs side h bs"
  by (auto simp: refs_def)

lemma refs_delete: "refs side h (bs(b := None)) = refs side h bs - {b}"
  by (auto simp: refs_def)

lemma counted_bind:
  assumes C: "counted side regs bs" and b: "bs b = None" and r: "regs (side x) = Some r"
    and fin: "\<And>h. finite (refs side h bs)"
  shows "counted side (regs(side x \<mapsto> adjust_count 1 r)) (bs(b \<mapsto> x))"
proof -
  have nb: "b \<notin> refs side h bs" for h using b by (simp add: refs_def)
  then have "card (insert b (refs side h bs)) = Suc (card (refs side h bs))" for h using fin by simp
  then show ?thesis using C r b by (auto simp: counted_def refs_insert adjust_count_def)
qed

lemma counted_update:
  "counted side regs bs \<Longrightarrow> bs b = Some x \<Longrightarrow> side y = side x \<Longrightarrow> counted side regs (bs(b \<mapsto> y))"
  by (auto simp: counted_def refs_update)

lemma counted_unbind:
  assumes C: "counted side regs bs" and b: "bs b = Some x" and r: "regs (side x) = Some r"
    and fin: "\<And>h. finite (refs side h bs)"
  shows "counted side (regs(side x \<mapsto> adjust_count (-1) r)) (bs(b := None))"
proof -
  have in_b: "b \<in> refs side h bs \<longleftrightarrow> side x = h" for h using b by (auto simp: refs_def)
  have "card (refs side (side x) bs - {b}) = card (refs side (side x) bs) - 1"
    "0 < card (refs side (side x) bs)"
    using fin in_b [of "side x"] by (auto simp: card_gt_0_iff)
  moreover have "refs side h bs - {b} = refs side h bs" if "h \<noteq> side x" for h using in_b that by auto
  ultimately show ?thesis using C r by (auto simp: counted_def refs_delete adjust_count_def)
qed

lemma counted_regs:
  "counted side regs bs \<Longrightarrow> regs h = Some r \<Longrightarrow> binding_count r' = binding_count r \<Longrightarrow>
   counted side (regs(h \<mapsto> r')) bs"
  by (auto simp: counted_def)

lemma counted_new:
  assumes "counted side regs bs" "regs h = None" "binding_count r = 0"
  shows "counted side (regs(h \<mapsto> r)) bs"
proof -
  have "refs side h bs = {}" using assms(1,2) by (fastforce simp: counted_def refs_def)
  then show ?thesis using assms by (auto simp: counted_def)
qed

lemma counted_remove:
  "counted side regs bs \<Longrightarrow> (\<And>b x. bs b = Some x \<Longrightarrow> side x \<noteq> h) \<Longrightarrow> counted side (regs(h := None)) bs"
  by (auto simp: counted_def)

lemma nmr_invD:
  assumes "nmr_inv s"
  shows "counted b_client (clients s) (bindings s)" "counted b_provider (providers s) (bindings s)"
    "\<And>b. next_binding s \<le> b \<Longrightarrow> bindings s b = None" "phases s"
    "\<And>side h. finite (refs side h (bindings s))"
    "clients s (next_handle s) = None" "providers s (next_handle s) = None"
  using assms finite_refs [of "bindings s" "next_binding s"] by (auto simp: nmr_inv_def)

lemma bind_cases:
  obtains (none) "nmr_bind c p s = s"
  | (bound) cr pr where "clients s c = Some cr" "providers s p = Some pr"
      "npi cr \<noteq> None" "npi cr = npi pr" "\<not> deregistering cr" "\<not> deregistering pr"
      "nmr_bind c p s = s\<lparr>clients := (clients s)(c \<mapsto> adjust_count 1 cr),
         providers := (providers s)(p \<mapsto> adjust_count 1 pr),
         bindings := (bindings s)(next_binding s \<mapsto> new_binding c p),
         next_binding := Suc (next_binding s), attaching := attaching s @ [next_binding s]\<rparr>"
proof (cases "clients s c")
  case None
  then show ?thesis by (intro none) (simp add: nmr_bind_def)
next
  case (Some cr)
  note c = Some
  show ?thesis
  proof (cases "providers s p")
    case None
    with c show ?thesis by (intro none) (simp add: nmr_bind_def)
  next
    case (Some pr)
    show ?thesis
    proof (cases "npi cr = None \<or> npi pr = None \<or> npi cr \<noteq> npi pr \<or> deregistering cr \<or> deregistering pr")
      case True
      with c Some show ?thesis by (intro none) (auto simp: nmr_bind_def)
    next
      case False
      with c Some show ?thesis by (intro bound [of cr pr]) (auto simp: nmr_bind_def)
    qed
  qed
qed

lemma bind_inv:
  assumes "nmr_inv s"
  shows "nmr_inv (nmr_bind c p s)"
proof (cases rule: bind_cases [of c p s])
  case none
  with assms show ?thesis by simp
next
  case (bound cr pr)
  note e = bound(1,2,7)
  note I = nmr_invD [OF assms]
  have b: "bindings s (next_binding s) = None" using I(3) by simp
  have "counted b_client ((clients s)(c \<mapsto> adjust_count 1 cr)) ((bindings s)(next_binding s \<mapsto> new_binding c p))"
    using counted_bind [OF I(1) b, of "new_binding c p" cr] I(5) e(1) by (simp add: new_binding_def)
  moreover have "counted b_provider ((providers s)(p \<mapsto> adjust_count 1 pr))
      ((bindings s)(next_binding s \<mapsto> new_binding c p))"
    using counted_bind [OF I(2) b, of "new_binding c p" pr] I(5) e(2) by (simp add: new_binding_def)
  moreover have "next_binding s \<notin> set (attaching s @ detaching s @ completing s)"
    using I(4) b by (auto simp: phases_def)
  then have "phases (nmr_bind c p s)"
    using I(4) unfolding e(3) phases_def by (auto simp: new_binding_def)
  ultimately show ?thesis using assms e by (auto simp: nmr_inv_def less_Suc_eq)
qed

lemma fold_bind_inv:
  "nmr_inv s \<Longrightarrow> (\<And>x t. nmr_inv t \<Longrightarrow> nmr_inv (f x t)) \<Longrightarrow> nmr_inv (fold f xs s)"
  by (induction xs arbitrary: s) auto

text \<open>Changing the fields of one binding, and the bookkeeping lists, without moving it to other registrations.\<close>

lemma binding_update_inv:
  assumes "nmr_inv s" "bindings s b = Some x" "b_client y = b_client x" "b_provider y = b_provider x"
    and "phases (s\<lparr>bindings := (bindings s)(b \<mapsto> y), attaching := as, detaching := ds, completing := cs\<rparr>)"
  shows "nmr_inv (s\<lparr>bindings := (bindings s)(b \<mapsto> y), attaching := as, detaching := ds, completing := cs\<rparr>)"
  using assms counted_update [of b_client "clients s" "bindings s" b x y]
    counted_update [of b_provider "providers s" "bindings s" b x y]
  by (auto simp: nmr_inv_def)

lemma set_remove1_distinct: "distinct (xs @ ys @ zs) \<Longrightarrow>
   set (remove1 b xs) = set xs - {b} \<and> set (remove1 b ys) = set ys - {b} \<and> set (remove1 b zs) = set zs - {b}"
  by simp

lemma attach_done_inv:
  assumes inv: "nmr_inv s" and b: "b \<in> set (attaching s)"
  shows "nmr_inv (attach_done b st s)"
proof -
  note I = nmr_invD [OF inv]
  obtain x where x: "bindings s b = Some x" "client_binding_status x = Start" "provider_binding_status x = Start"
    using I(4) b by (auto simp: phases_def)
  have d: "distinct (attaching s @ detaching s @ completing s)" using I(4) by (simp add: phases_def)
  note r = set_remove1_distinct [OF d]
  show ?thesis
  proof (cases "NT_SUCCESS st")
    case True
    let ?y = "x\<lparr>client_binding_status := Ready, provider_binding_status := Ready\<rparr>"
    have "phases (s\<lparr>bindings := (bindings s)(b \<mapsto> ?y), attaching := remove1 b (attaching s),
        detaching := detaching s, completing := completing s\<rparr>)"
      using I(4) b d r by (auto simp: phases_def)
    from binding_update_inv [OF inv x(1) _ _ this] True x(1) show ?thesis by (simp add: attach_done_def)
  next
    case False
    then have "phases (attach_done b st s)"
      using I(4) b d r x by (auto simp: phases_def attach_done_def)
    with False inv show ?thesis by (auto simp: nmr_inv_def attach_done_def)
  qed
qed

lemma unbind_start_inv:
  assumes inv: "nmr_inv s" and e: "begin_unbind_start b s = Inr (r, s')"
  shows "nmr_inv s'"
proof -
  note I = nmr_invD [OF inv]
  show ?thesis
  proof (cases "bindings s b")
    case None
    then show ?thesis using e inv by (simp add: begin_unbind_start_def)
  next
    case x: (Some x)
    show ?thesis
    proof (cases "client_binding_status x = Ready \<and> provider_binding_status x = Ready")
      case True
      let ?y = "x\<lparr>client_binding_status := BeginUnbind, provider_binding_status := BeginUnbind\<rparr>"
      have n: "b \<notin> set (attaching s @ detaching s @ completing s)" using I(4) True x by (auto simp: phases_def)
      have "phases (s\<lparr>bindings := (bindings s)(b \<mapsto> ?y), attaching := attaching s,
          detaching := detaching s @ [b], completing := completing s\<rparr>)"
        using I(4) n by (auto simp: phases_def)
      from binding_update_inv [OF inv x _ _ this] True x e show ?thesis
        by (auto simp: begin_unbind_start_def)
    next
      case False
      with x e inv show ?thesis by (auto simp: begin_unbind_start_def)
    qed
  qed
qed

lemma unbind_finish_ok:
  assumes inv: "nmr_inv s" and b: "b \<in> set (detaching s)"
  shows "\<exists>r s'. begin_unbind_finish b cs ps s = Inr (r, s') \<and> nmr_inv s'"
proof -
  note I = nmr_invD [OF inv]
  obtain x where x: "bindings s b = Some x" "client_binding_status x = BeginUnbind"
      "provider_binding_status x = BeginUnbind"
    using I(4) b by (auto simp: phases_def)
  have d: "distinct (attaching s @ detaching s @ completing s)" using I(4) by (simp add: phases_def)
  note r = set_remove1_distinct [OF d]
  define pst where "pst = (if (if client_binding_context x \<noteq> nullptr then cs else STATUS_SUCCESS) = STATUS_PENDING
    then UnbindPending else UnbindComplete)"
  define cst where "cst = (if (if provider_binding_context x \<noteq> nullptr then ps else STATUS_SUCCESS) = STATUS_PENDING
    then UnbindPending else UnbindComplete)"
  let ?y = "x\<lparr>provider_binding_status := pst, client_binding_status := cst\<rparr>"
  let ?cs = "if cst = UnbindComplete \<and> pst = UnbindComplete then completing s @ [b] else completing s"
  let ?s' = "s\<lparr>bindings := (bindings s)(b \<mapsto> ?y), attaching := attaching s,
      detaching := remove1 b (detaching s), completing := ?cs\<rparr>"
  have "phases ?s'" using I(4) b d r by (auto simp: phases_def)
  then have "nmr_inv ?s'" by (intro binding_update_inv [OF inv x(1)]) auto
  moreover have "begin_unbind_finish b cs ps s = Inr (\<not> (cst = UnbindComplete \<and> pst = UnbindComplete), ?s')"
    using x by (simp add: begin_unbind_finish_def Let_def pst_def cst_def)
  ultimately show ?thesis by blast
qed

lemma detach_client_inv:
  assumes inv: "nmr_inv s" and e: "binding_detach_client_complete b s = Inr s'"
  shows "nmr_inv s'"
proof -
  note I = nmr_invD [OF inv]
  obtain x where x: "bindings s b = Some x" "client_binding_status x = UnbindPending"
    using e by (auto simp: binding_detach_client_complete_def split: option.splits)
  let ?y = "x\<lparr>client_binding_status := UnbindComplete\<rparr>"
  let ?cs = "if provider_binding_status x = UnbindComplete then completing s @ [b] else completing s"
  let ?s' = "s\<lparr>bindings := (bindings s)(b \<mapsto> ?y), attaching := attaching s, detaching := detaching s,
      completing := ?cs\<rparr>"
  have n: "b \<notin> set (attaching s @ detaching s @ completing s)" using I(4) x by (auto simp: phases_def)
  have "phases ?s'" using I(4) n by (auto simp: phases_def)
  then have "nmr_inv ?s'" by (intro binding_update_inv [OF inv x(1)]) auto
  moreover have "s' = ?s'" using e x by (auto simp: binding_detach_client_complete_def Let_def)
  ultimately show ?thesis by simp
qed

lemma detach_provider_inv:
  assumes inv: "nmr_inv s" and e: "binding_detach_provider_complete b s = Inr s'"
  shows "nmr_inv s'"
proof -
  note I = nmr_invD [OF inv]
  obtain x where x: "bindings s b = Some x" "provider_binding_status x = UnbindPending"
    using e by (auto simp: binding_detach_provider_complete_def split: option.splits)
  let ?y = "x\<lparr>provider_binding_status := UnbindComplete\<rparr>"
  let ?cs = "if client_binding_status x = UnbindComplete then completing s @ [b] else completing s"
  let ?s' = "s\<lparr>bindings := (bindings s)(b \<mapsto> ?y), attaching := attaching s, detaching := detaching s,
      completing := ?cs\<rparr>"
  have n: "b \<notin> set (attaching s @ detaching s @ completing s)" using I(4) x by (auto simp: phases_def)
  have "phases ?s'" using I(4) n by (auto simp: phases_def)
  then have "nmr_inv ?s'" by (intro binding_update_inv [OF inv x(1)]) auto
  moreover have "s' = ?s'" using e x by (auto simp: binding_detach_provider_complete_def Let_def)
  ultimately show ?thesis by simp
qed

lemma unbind_complete_ok:
  assumes inv: "nmr_inv s" and b: "b \<in> set (completing s)"
  shows "\<exists>s'. unbind_complete b s = Inr s' \<and> nmr_inv s' \<and> bindings s' = (bindings s)(b := None)"
proof -
  note I = nmr_invD [OF inv]
  obtain x where x: "bindings s b = Some x" using I(4) b by (auto simp: phases_def)
  obtain cr pr where r: "clients s (b_client x) = Some cr" "providers s (b_provider x) = Some pr"
    using I(1,2) x by (fastforce simp: counted_def)
  obtain ev where e: "unbind_complete b s = Inr (s\<lparr>events := ev,
      providers := (providers s)(b_provider x \<mapsto> adjust_count (-1) pr),
      clients := (clients s)(b_client x \<mapsto> adjust_count (-1) cr),
      bindings := (bindings s)(b := None), completing := remove1 b (completing s)\<rparr>)"
    using x r by (auto simp: unbind_complete_def Let_def)
  let ?s' = "s\<lparr>events := ev, providers := (providers s)(b_provider x \<mapsto> adjust_count (-1) pr),
      clients := (clients s)(b_client x \<mapsto> adjust_count (-1) cr),
      bindings := (bindings s)(b := None), completing := remove1 b (completing s)\<rparr>"
  have d: "distinct (attaching s @ detaching s @ completing s)" using I(4) by (simp add: phases_def)
  have "phases ?s'"
    using I(4) b d set_remove1_distinct [OF d, of b] by (auto simp: phases_def)
  moreover have "h < next_handle s" if "clients ?s' h \<noteq> None \<or> providers ?s' h \<noteq> None" for h
    using that inv r by (auto simp: nmr_inv_def split: if_splits)
  ultimately have "nmr_inv ?s'"
    using counted_unbind [OF I(1) x r(1) I(5)] counted_unbind [OF I(2) x r(2) I(5)] inv
    by (auto simp: nmr_inv_def)
  with e show ?thesis by auto
qed

lemma remove_client_no_refs:
  assumes inv: "nmr_inv s" and r: "clients s h = Some r" "\<not> binding_count r > 0"
  shows "bindings s b = Some x \<Longrightarrow> b_client x \<noteq> h"
proof
  assume b: "bindings s b = Some x" "b_client x = h"
  have "card (refs b_client h (bindings s)) = 0"
    using nmr_invD(1) [OF inv] r by (auto simp: counted_def)
  then have "refs b_client h (bindings s) = {}" using nmr_invD(5) [OF inv] by simp
  with b show False by (auto simp: refs_def)
qed

lemma remove_provider_no_refs:
  assumes inv: "nmr_inv s" and r: "providers s h = Some r" "\<not> binding_count r > 0"
  shows "bindings s b = Some x \<Longrightarrow> b_provider x \<noteq> h"
proof
  assume b: "bindings s b = Some x" "b_provider x = h"
  have "card (refs b_provider h (bindings s)) = 0"
    using nmr_invD(2) [OF inv] r by (auto simp: counted_def)
  then have "refs b_provider h (bindings s) = {}" using nmr_invD(5) [OF inv] by simp
  with b show False by (auto simp: refs_def)
qed

lemma remove_client_inv:
  assumes inv: "nmr_inv s" and e: "remove_client timeout h s = Inr (Some s')"
  shows "nmr_inv s'"
proof -
  obtain r where r: "clients s h = Some r" "\<not> binding_count r > 0"
      "s' = s\<lparr>clients := (clients s)(h := None)\<rparr>"
    using e by (auto simp: remove_client_def split: option.splits if_splits)
  have "counted b_client ((clients s)(h := None)) (bindings s)"
    using counted_remove [OF nmr_invD(1) [OF inv]] remove_client_no_refs [OF inv r(1,2)] by blast
  then show ?thesis using inv r(3) by (auto simp: nmr_inv_def phases_def)
qed

lemma remove_provider_inv:
  assumes inv: "nmr_inv s" and e: "remove_provider timeout h s = Inr (Some s')"
  shows "nmr_inv s'"
proof -
  obtain r where r: "providers s h = Some r" "\<not> binding_count r > 0"
      "s' = s\<lparr>providers := (providers s)(h := None)\<rparr>"
    using e by (auto simp: remove_provider_def split: option.splits if_splits)
  have "counted b_provider ((providers s)(h := None)) (bindings s)"
    using counted_remove [OF nmr_invD(2) [OF inv]] remove_provider_no_refs [OF inv r(1,2)] by blast
  then show ?thesis using inv r(3) by (auto simp: nmr_inv_def phases_def)
qed

lemma registry_inv:
  assumes "nmr_inv s"
  shows "nmr_inv (snd (add_client i c cl s))" "nmr_inv (snd (add_provider i c cl s))"
    and "deactivate_client h s = Inr s' \<Longrightarrow> nmr_inv s'"
    and "deactivate_provider h s = Inr s' \<Longrightarrow> nmr_inv s'"
proof -
  note I = nmr_invD [OF assms]
  have "counted b_client ((clients s)(next_handle s \<mapsto> new_registration i c cl)) (bindings s)"
    "counted b_provider ((providers s)(next_handle s \<mapsto> new_registration i c cl)) (bindings s)"
    using counted_new [OF I(1,6)] counted_new [OF I(2,7)] by (simp_all add: new_registration_def)
  then show "nmr_inv (snd (add_client i c cl s))" "nmr_inv (snd (add_provider i c cl s))"
    using assms by (auto simp: add_client_def add_provider_def nmr_inv_def phases_def less_Suc_eq)
  show "nmr_inv s'" if "deactivate_client h s = Inr s'"
    using that assms I(1)
    by (auto simp: deactivate_client_def nmr_inv_def phases_def split: option.splits if_splits intro!: counted_regs)
  show "nmr_inv s'" if "deactivate_provider h s = Inr s'"
    using that assms I(2)
    by (auto simp: deactivate_provider_def nmr_inv_def phases_def split: option.splits if_splits intro!: counted_regs)
qed

lemma attach_inv:
  assumes inv: "nmr_inv s" and b: "b \<in> set (attaching s)"
    and e: "client_attach_provider b cc cd st pc pd s = Inr (r, s')"
  shows "nmr_inv s'"
proof -
  note I = nmr_invD [OF inv]
  obtain x where x: "bindings s b = Some x" "client_binding_status x = Start" "provider_binding_status x = Start"
    using I(4) b by (auto simp: phases_def)
  let ?y = "x\<lparr>client_binding_context := cc, client_dispatch := cd, provider_binding_context := pc,
      provider_dispatch := pd\<rparr>"
  let ?s' = "s\<lparr>bindings := (bindings s)(b \<mapsto> ?y), attaching := attaching s, detaching := detaching s,
      completing := completing s\<rparr>"
  have "phases ?s'" using I(4) b x by (auto simp: phases_def)
  then have "nmr_inv ?s'" by (intro binding_update_inv [OF inv x(1)]) auto
  moreover have "s' = ?s'" using e x by (auto simp: client_attach_provider_def Let_def)
  ultimately show ?thesis by simp
qed

lemma nmr_step_inv: "nmr_step s s' \<Longrightarrow> nmr_inv s \<Longrightarrow> nmr_inv s'"
proof (induction rule: nmr_step.induct)
  case (step_bind_client h s s')
  then show ?case by (auto simp: perform_bind_client_def split: if_splits intro!: fold_bind_inv bind_inv)
next
  case (step_bind_provider h s s')
  then show ?case by (auto simp: perform_bind_provider_def split: if_splits intro!: fold_bind_inv bind_inv)
next
  case (step_unbind_finish b s cs ps r s')
  then show ?case using unbind_finish_ok [of s b cs ps] by auto
next
  case (step_unbind_complete b s s')
  then show ?case using unbind_complete_ok [of s b] by auto
qed (blast intro: registry_inv attach_inv attach_done_inv unbind_start_inv detach_client_inv
    detach_provider_inv remove_client_inv remove_provider_inv)+

lemma nmr_reachable_inv: "nmr_reachable s \<Longrightarrow> nmr_inv s"
proof (induction rule: nmr_reachable.induct)
  case init
  then show ?case by (simp add: empty_nmr_def nmr_inv_def counted_def phases_def)
next
  case (step s s')
  then show ?case using nmr_step_inv by blast
qed

section \<open>Binding all matching modules\<close>

definition matches :: "nmr \<Rightarrow> nat \<Rightarrow> nat \<Rightarrow> bool" where
  "matches s c p \<longleftrightarrow>
     (case (clients s c, providers s p) of
        (Some cr, Some pr) \<Rightarrow> npi cr \<noteq> None \<and> npi cr = npi pr \<and> \<not> deregistering cr \<and> \<not> deregistering pr
      | _ \<Rightarrow> False)"

lemma bind_matches:
  "nmr_bind c p s =
     (if matches s c p
      then s\<lparr>clients := (clients s)(c \<mapsto> adjust_count 1 (the (clients s c))),
             providers := (providers s)(p \<mapsto> adjust_count 1 (the (providers s p))),
             bindings := (bindings s)(next_binding s \<mapsto> new_binding c p),
             next_binding := Suc (next_binding s), attaching := attaching s @ [next_binding s]\<rparr>
      else s)"
  by (auto simp: nmr_bind_def matches_def split: option.splits)

lemma matches_bind: "matches (nmr_bind c p s) c' p' = matches s c' p'"
  by (auto simp: nmr_bind_def matches_def adjust_count_def split: option.splits if_splits)

lemma fold_bind_client:
  "let s' = fold (nmr_bind h) ps s; qs = filter (matches s h) ps in
     next_binding s' = next_binding s + length qs \<and>
     attaching s' = attaching s @ [next_binding s..<next_binding s + length qs] \<and>
     (\<forall>b < next_binding s. bindings s' b = bindings s b) \<and>
     (\<forall>i < length qs. bindings s' (next_binding s + i) = Some (new_binding h (qs ! i)))"
proof (induction ps arbitrary: s)
  case Nil
  then show ?case by simp
next
  case (Cons p ps)
  let ?s1 = "nmr_bind h p s"
  have eq: "matches ?s1 h = matches s h" by (intro ext) (rule matches_bind)
  note IH = Cons.IH [of ?s1, unfolded Let_def eq]
  show ?case
  proof (cases "matches s h p")
    case False
    then have "?s1 = s" by (simp add: bind_matches)
    with IH False show ?thesis by (simp add: Let_def)
  next
    case True
    let ?qs = "filter (matches s h) ps"
    have s1: "next_binding ?s1 = Suc (next_binding s)" "attaching ?s1 = attaching s @ [next_binding s]"
        "bindings ?s1 = (bindings s)(next_binding s \<mapsto> new_binding h p)"
      using True by (simp_all add: bind_matches)
    have "bindings (fold (nmr_bind h) ps ?s1) (next_binding s + i) = Some (new_binding h ((p # ?qs) ! i))"
      if "i < Suc (length ?qs)" for i
      using IH s1 that by (cases i) auto
    moreover have "next_binding s # [Suc (next_binding s)..<Suc (next_binding s + length ?qs)] =
        [next_binding s..<Suc (next_binding s + length ?qs)]"
      by (rule upt_conv_Cons [symmetric]) simp
    ultimately show ?thesis using IH s1 True by (simp add: Let_def del: upt_Suc)
  qed
qed

section \<open>Detaching without waiting\<close>

lemma begin_unbind_sync:
  assumes inv: "nmr_inv s" and x: "bindings s b = Some x" "client_binding_status x = Ready"
      "provider_binding_status x = Ready"
    and dt: "fst (dt b) \<noteq> STATUS_PENDING" "snd (dt b) \<noteq> STATUS_PENDING"
  shows "\<exists>s'. begin_unbind dt b s = Inr (False, s') \<and> nmr_inv s' \<and> bindings s' = (bindings s)(b := None) \<and>
              next_binding s' = next_binding s \<and> dom (clients s') = dom (clients s)"
proof -
  obtain s1 where s1: "begin_unbind_start b s = Inr (False, s1)" "b \<in> set (detaching s1)"
      "bindings s1 = (bindings s)(b \<mapsto> x\<lparr>client_binding_status := BeginUnbind, provider_binding_status := BeginUnbind\<rparr>)"
      "next_binding s1 = next_binding s" "clients s1 = clients s"
    using x by (simp add: begin_unbind_start_def)
  have inv1: "nmr_inv s1" by (rule unbind_start_inv [OF inv s1(1)])
  have np: "(if client_binding_context x \<noteq> nullptr then fst (dt b) else STATUS_SUCCESS) \<noteq> STATUS_PENDING"
    "(if provider_binding_context x \<noteq> nullptr then snd (dt b) else STATUS_SUCCESS) \<noteq> STATUS_PENDING"
    using dt by auto
  obtain s2 where s2: "begin_unbind_finish b (fst (dt b)) (snd (dt b)) s1 = Inr (False, s2)" "nmr_inv s2"
      "b \<in> set (completing s2)" "(bindings s2)(b := None) = (bindings s)(b := None)"
      "next_binding s2 = next_binding s" "clients s2 = clients s"
    using unbind_finish_ok [OF inv1 s1(2), of "fst (dt b)" "snd (dt b)"] s1(3-5)
    by (auto simp: begin_unbind_finish_def Let_def np)
  obtain s3 where s3: "unbind_complete b s2 = Inr s3" "nmr_inv s3" "bindings s3 = (bindings s2)(b := None)"
    using unbind_complete_ok [OF s2(2,3)] by blast
  have "next_binding s3 = next_binding s2 \<and> dom (clients s3) = dom (clients s2)"
    using s3(1) by (auto simp: unbind_complete_def Let_def split: option.splits if_splits)
  then show ?thesis using s1(1) s2 s3 by (simp add: begin_unbind_def)
qed

lemma unbind_all_sync:
  assumes "nmr_inv s" "distinct bs"
    and "\<And>b. b \<in> set bs \<Longrightarrow> \<exists>x. bindings s b = Some x \<and> client_binding_status x = Ready \<and> provider_binding_status x = Ready"
    and "\<And>b. fst (dt b) \<noteq> STATUS_PENDING \<and> snd (dt b) \<noteq> STATUS_PENDING"
  shows "\<exists>s'. unbind_all dt bs s = Inr (False, s') \<and> nmr_inv s' \<and>
              bindings s' = (\<lambda>b. if b \<in> set bs then None else bindings s b) \<and> dom (clients s') = dom (clients s)"
  using assms
proof (induction bs arbitrary: s)
  case Nil
  then show ?case by simp
next
  case (Cons b bs)
  obtain x where x: "bindings s b = Some x" "client_binding_status x = Ready" "provider_binding_status x = Ready"
    using Cons.prems(3) [of b] by auto
  obtain s1 where s1: "begin_unbind dt b s = Inr (False, s1)" "nmr_inv s1" "bindings s1 = (bindings s)(b := None)"
      "dom (clients s1) = dom (clients s)"
    using begin_unbind_sync [OF Cons.prems(1) x, of dt] Cons.prems(4) by auto
  have "\<exists>s'. unbind_all dt bs s1 = Inr (False, s') \<and> nmr_inv s' \<and>
      bindings s' = (\<lambda>b. if b \<in> set bs then None else bindings s1 b) \<and> dom (clients s') = dom (clients s1)"
  proof (rule Cons.IH [OF s1(2)])
    show "distinct bs" using Cons.prems(2) by simp
    show "\<exists>x. bindings s1 c = Some x \<and> client_binding_status x = Ready \<and> provider_binding_status x = Ready"
      if "c \<in> set bs" for c
      using Cons.prems(2) Cons.prems(3) [of c] that s1(3) by auto
  qed (use Cons.prems(4) in auto)
  then obtain s' where s': "unbind_all dt bs s1 = Inr (False, s')" "nmr_inv s'"
      "bindings s' = (\<lambda>b. if b \<in> set bs then None else bindings s1 b)" "dom (clients s') = dom (clients s1)"
    by blast
  have "bindings s' = (\<lambda>c. if c \<in> set (b # bs) then None else bindings s c)"
    using s'(3) s1(3) by (intro ext) auto
  then show ?case using s1 s' by auto
qed

section \<open>Properties\<close>


definition sample_npi :: "128 word option" where
  "sample_npi = Some 42"

text \<open>A provider and a client with the same interface, whose binding is being attached.\<close>

definition sample_nmr :: nmr where
  "sample_nmr = (let (p, s1) = add_provider sample_npi 3 True empty_nmr; (c, s2) = add_client sample_npi 4 True s1
     in nmr_bind c p s2)"

lemma handles_2: "handles m 2 = filter (\<lambda>h. m h \<noteq> None) [0, 1]" "handles m 3 = filter (\<lambda>h. m h \<noteq> None) [0, 1, 2]"
  by (simp_all add: handles_def upt_rec numeral_2_eq_2)

lemmas nmr_eval = sample_nmr_def empty_nmr_def add_provider_def add_client_def new_registration_def
  sample_npi_def nmr_bind_def adjust_count_def new_binding_def Let_def

lemma sample_nmr_reachable: "nmr_reachable sample_nmr"
proof -
  define s1 where "s1 = snd (add_provider sample_npi 3 True empty_nmr)"
  define s2 where "s2 = snd (add_client sample_npi 4 True s1)"
  have r2: "nmr_reachable s2"
    unfolding s2_def s1_def by (intro nmr_reachable.step [OF _ step_add_client]
        nmr_reachable.step [OF _ step_add_provider] nmr_reachable.init)
  have n: "next_handle s2 = 3" by (simp add: s1_def s2_def nmr_eval)
  have "handles (providers s2) 3 = [1]" "clients s2 2 \<noteq> None"
    by (simp_all add: handles_2 s1_def s2_def nmr_eval)
  then have "perform_bind_client 2 s2 = Inr (nmr_bind 2 1 s2)"
    by (simp add: perform_bind_client_def n)
  moreover have "sample_nmr = nmr_bind 2 1 s2" by (simp add: sample_nmr_def s1_def s2_def add_provider_def
        add_client_def empty_nmr_def numeral_2_eq_2)
  ultimately show ?thesis using nmr_reachable.step [OF r2 step_bind_client] by simp
qed


text \<open>
  C28: \<^verbatim>\<open>perform_bind\<close> for a client creates exactly one new binding for every provider with the same interface
  that is not being deregistered, in the order of the provider handles, hands each of them to an attach
  action, and changes no existing binding. If the client is being deregistered there is none.
\<close>
theorem perform_bind_client_complete:
  assumes "perform_bind_client h s = Inr s'"
  shows "\<exists>ps. ps = filter (matches s h) (handles (providers s) (next_handle s)) \<and>
              attaching s' = attaching s @ [next_binding s..<next_binding s + length ps] \<and>
              (\<forall>b < next_binding s. bindings s' b = bindings s b) \<and>
              (\<forall>i < length ps. bindings s' (next_binding s + i) = Some (new_binding h (ps ! i)))"
proof -
  have "s' = fold (nmr_bind h) (handles (providers s) (next_handle s)) s"
    using assms by (auto simp: perform_bind_client_def split: if_splits)
  with fold_bind_client [of h "handles (providers s) (next_handle s)" s] show ?thesis
    by (simp add: Let_def)
qed

theorem perform_bind_client_complete_witness:
  "\<exists>s s'. perform_bind_client 2 s = Inr s' \<and> attaching s = [] \<and> attaching s' = [0] \<and>
          bindings s' 0 = Some (new_binding 2 1)"
proof -
  define s where "s = snd (add_client sample_npi 4 True (snd (add_provider sample_npi 3 True empty_nmr)))"
  have n: "next_handle s = 3" "attaching s = []" "next_binding s = 0" by (simp_all add: s_def nmr_eval)
  have p: "handles (providers s) 3 = [1]" "clients s 2 \<noteq> None" "matches s 2 1"
    by (simp_all add: handles_2 s_def nmr_eval matches_def)
  obtain s' where s': "perform_bind_client 2 s = Inr s'" using p by (simp add: perform_bind_client_def)
  from perform_bind_client_complete [OF s'] n p s' show ?thesis by auto
qed

text \<open>
  C24: \<^verbatim>\<open>NmrDeregisterClient\<close> completes at once when no detach callback returns \<^verbatim>\<open>STATUS_PENDING\<close> and every
  binding of the client is attached: it returns \<^verbatim>\<open>STATUS_SUCCESS\<close>, the client and all its bindings are gone,
  all other bindings are untouched, and the counts stay exact. It does not wait, so the time-out of \<^verbatim>\<open>remove\<close> plays no part.
\<close>
theorem deregister_client_sync:
  assumes "nmr_inv s" "clients s h \<noteq> None"
    and "\<And>b. fst (dt b) \<noteq> STATUS_PENDING \<and> snd (dt b) \<noteq> STATUS_PENDING"
    and "\<And>b x. bindings s b = Some x \<Longrightarrow> b_client x = h \<Longrightarrow>
            client_binding_status x = Ready \<and> provider_binding_status x = Ready"
  shows "\<exists>s'. NmrDeregisterClient timeout dt h s = Inr (Some (STATUS_SUCCESS, s')) \<and> nmr_inv s' \<and>
              clients s' h = None \<and>
              (\<forall>b. bindings s' b = (case bindings s b of
                      Some x \<Rightarrow> if b_client x = h then None else Some x | None \<Rightarrow> None))"
proof -
  obtain s1 where s1: "deactivate_client h s = Inr s1" "bindings s1 = bindings s"
      "next_binding s1 = next_binding s" "clients s1 h \<noteq> None"
    using assms(2) by (auto simp: deactivate_client_def)
  have inv1: "nmr_inv s1" by (rule registry_inv(3) [OF assms(1) s1(1)])
  let ?bs = "client_bindings h s1"
  have mem: "b \<in> set ?bs \<longleftrightarrow> (\<exists>x. bindings s b = Some x \<and> b_client x = h)" for b
    using nmr_invD(3) [OF inv1, of b] s1(2)
    by (auto simp: client_bindings_def not_le [symmetric] split: option.splits)
  have dist: "distinct ?bs" by (simp add: client_bindings_def)
  obtain s2 where s2: "unbind_all dt ?bs s1 = Inr (False, s2)" "nmr_inv s2"
      "bindings s2 = (\<lambda>b. if b \<in> set ?bs then None else bindings s1 b)" "dom (clients s2) = dom (clients s1)"
    using unbind_all_sync [OF inv1 dist _ assms(3)] mem assms(4) s1(2) by fastforce
  obtain r where r: "clients s2 h = Some r" using s2(4) s1(4) by (metis domD domI option.exhaust)
  have "refs b_client h (bindings s2) = {}" using s2(3) mem s1(2) by (auto simp: refs_def)
  then have "binding_count r = 0" using nmr_invD(1) [OF s2(2)] r by (auto simp: counted_def)
  then have rm: "remove_client timeout h s2 = Inr (Some (s2\<lparr>clients := (clients s2)(h := None)\<rparr>))"
    using r by (simp add: remove_client_def)
  let ?s' = "s2\<lparr>clients := (clients s2)(h := None)\<rparr>"
  have "NmrDeregisterClient timeout dt h s = Inr (Some (STATUS_SUCCESS, ?s'))"
    using s1(1,4) s2(1) rm
    by (auto simp: NmrDeregisterClient_def deregister_client_def perform_unbind_client_def)
  moreover have "nmr_inv ?s'" by (rule remove_client_inv [OF s2(2) rm])
  moreover have "bindings ?s' b = (case bindings s b of
      Some x \<Rightarrow> if b_client x = h then None else Some x | None \<Rightarrow> None)" for b
    using s2(3) mem [of b] s1(2) by (auto split: option.splits)
  ultimately show ?thesis by auto
qed

theorem deregister_client_sync_witness:
  "\<exists>s'. NmrDeregisterClient False (\<lambda>_. (STATUS_SUCCESS, STATUS_SUCCESS)) 2 (attach_done 0 STATUS_SUCCESS sample_nmr) =
          Inr (Some (STATUS_SUCCESS, s')) \<and> clients s' 2 = None \<and> bindings s' 0 = None"
proof -
  let ?s = "attach_done 0 STATUS_SUCCESS sample_nmr"
  have "0 \<in> set (attaching sample_nmr)" by (simp add: nmr_eval)
  then have inv: "nmr_inv ?s" by (rule attach_done_inv [OF nmr_reachable_inv [OF sample_nmr_reachable]])
  have c: "clients ?s 2 \<noteq> None" by (simp add: nmr_eval attach_done_def)
  have b: "bindings ?s b = Some x \<Longrightarrow> client_binding_status x = Ready \<and> provider_binding_status x = Ready" for b x
    by (auto simp: nmr_eval attach_done_def split: if_splits)
  obtain x0 where x0: "bindings ?s 0 = Some x0" "b_client x0 = 2" by (simp add: nmr_eval attach_done_def)
  have "\<exists>s'. NmrDeregisterClient False (\<lambda>_. (STATUS_SUCCESS, STATUS_SUCCESS)) 2 ?s = Inr (Some (STATUS_SUCCESS, s')) \<and>
      nmr_inv s' \<and> clients s' 2 = None \<and> (\<forall>b. bindings s' b = (case bindings ?s b of
                      Some x \<Rightarrow> if b_client x = 2 then None else Some x | None \<Rightarrow> None))"
    by (rule deregister_client_sync [OF inv c]) (use b in auto)
  with x0 show ?thesis by auto
qed

text \<open>
  two registrations that overlap can bind the same client and provider twice. \<^verbatim>\<open>add\<close> and \<^verbatim>\<open>perform_bind\<close>
  are separate critical sections: when a client and a provider are both added before either looks for
  partners, each of them finds the other and there are two bindings for one pair.
\<close>
theorem concurrent_register_binds_twice:
  "\<exists>s s1 s2. s = snd (add_client sample_npi 4 True (snd (add_provider sample_npi 3 True empty_nmr))) \<and>
     perform_bind_provider 1 s = Inr s1 \<and> perform_bind_client 2 s1 = Inr s2 \<and>
     bindings s2 0 = Some (new_binding 2 1) \<and> bindings s2 1 = Some (new_binding 2 1) \<and> attaching s2 = [0, 1]"
proof -
  define s where "s = snd (add_client sample_npi 4 True (snd (add_provider sample_npi 3 True empty_nmr)))"
  have n: "next_handle s = 3" "handles (clients s) 3 = [2]" "providers s 1 \<noteq> None"
    by (simp_all add: handles_2 s_def nmr_eval)
  define s1 where "s1 = nmr_bind 2 1 s"
  have b1: "perform_bind_provider 1 s = Inr s1" using n by (simp add: perform_bind_provider_def s1_def)
  have n1: "next_handle s1 = 3" "handles (providers s1) 3 = [1]" "clients s1 2 \<noteq> None"
    by (simp_all add: handles_2 s1_def s_def nmr_eval)
  have b2: "perform_bind_client 2 s1 = Inr (nmr_bind 2 1 s1)" using n1 by (simp add: perform_bind_client_def)
  have "bindings (nmr_bind 2 1 s1) 0 = Some (new_binding 2 1)" "bindings (nmr_bind 2 1 s1) 1 = Some (new_binding 2 1)"
    "attaching (nmr_bind 2 1 s1) = [0, 1]"
    by (simp_all add: s1_def s_def nmr_eval)
  with s_def b1 b2 show ?thesis by blast
qed

text \<open>
  deregistering while a binding is being attached loses the binding. \<^verbatim>\<open>begin_unbind\<close> takes a binding that is not
  yet ready for one whose unbind has started, so it returns "pending" and does nothing; when the attach then
  succeeds the binding is ready, no thread will detach it, and \<^verbatim>\<open>remove\<close> waits for it until its
  time is over and its assertion fails.
\<close>
theorem deregister_during_attach_waits:
  assumes "nmr_reachable s" "b \<in> set (attaching s)" "bindings s b = Some x" "b_client x = h"
  shows "begin_unbind_start b s = Inr (True, s) \<and>
         (\<exists>y. bindings (attach_done b STATUS_SUCCESS s) b = Some y \<and>
              client_binding_status y = Ready \<and> provider_binding_status y = Ready) \<and>
         b \<notin> set (detaching (attach_done b STATUS_SUCCESS s)) \<and>
         remove_client False h (attach_done b STATUS_SUCCESS s) = Inr None \<and>
         remove_client True h (attach_done b STATUS_SUCCESS s) = Inl Assert_Failed"
proof -
  note inv = nmr_reachable_inv [OF assms(1)]
  let ?s = "attach_done b STATUS_SUCCESS s"
  have st: "client_binding_status x = Start" "provider_binding_status x = Start"
    using nmr_invD(4) [OF inv] assms(2,3) by (auto simp: phases_def)
  have inv': "nmr_inv ?s" by (rule attach_done_inv [OF inv assms(2)])
  obtain y where y: "bindings ?s b = Some y" "client_binding_status y = Ready"
      "provider_binding_status y = Ready" "b_client y = h"
    using assms(3,4) by (simp add: attach_done_def)
  have nd: "b \<notin> set (detaching ?s)" using nmr_invD(4) [OF inv'] y by (auto simp: phases_def)
  obtain r where r: "clients ?s h = Some r" using nmr_invD(1) [OF inv'] y by (fastforce simp: counted_def)
  have "b \<in> refs b_client h (bindings ?s)" using y by (simp add: refs_def)
  then have "binding_count r > 0"
    using nmr_invD(1) [OF inv'] nmr_invD(5) [OF inv', of b_client h] r
    by (auto simp: counted_def card_gt_0_iff)
  then have "remove_client False h ?s = Inr None" "remove_client True h ?s = Inl Assert_Failed" using r by (simp_all add: remove_client_def)
  then show ?thesis using st assms(3) y nd by (simp add: begin_unbind_start_def)
qed

theorem deregister_during_attach_waits_witness:
  "begin_unbind_start 0 sample_nmr = Inr (True, sample_nmr) \<and>
   remove_client False 2 (attach_done 0 STATUS_SUCCESS sample_nmr) = Inr None"
proof -
  have "0 \<in> set (attaching sample_nmr)" "bindings sample_nmr 0 = Some (new_binding 2 1)"
      "b_client (new_binding 2 1) = 2"
    by (simp_all add: nmr_eval)
  from deregister_during_attach_waits [OF sample_nmr_reachable this] show ?thesis by blast
qed

end
