(* ===== verification/Nmr_Detach.thy ===== *)
theory Nmr_Detach
  imports Nmr
begin

text \<open>
  Asynchronous detaching in the network module registrar, \<^verbatim>\<open>src/nmr_um.cpp\<close>: the entry points through which a module reports that a pending
  detach is complete, the waits for the end of a deregistration, and the entry point of an attach. A module that answers
  \<^verbatim>\<open>STATUS_PENDING\<close> to its detach callback reports the end later, in any order with the other side; the binding lives until
  both sides are done, and the deregistration waits for it.
\<close>

section \<open>Entry points\<close>

text \<open>The rest of a completion after its critical section: the binding is removed if both sides are done.\<close>

definition finish_completion :: "nat \<Rightarrow> nmr \<Rightarrow> nmr result \<Rightarrow> nmr result" where
  "finish_completion b s r =
     (case r of
        Inl e \<Rightarrow> Inl e
      | Inr s1 \<Rightarrow> if length (completing s) < length (completing s1) then unbind_complete b s1 else Inr s1)"

text \<open>The side that a completion belongs to is named after the module that is left, not after the one that calls.\<close>

definition NmrProviderDetachClientComplete :: "nat \<Rightarrow> nmr \<Rightarrow> nmr result" where
  "NmrProviderDetachClientComplete b s = finish_completion b s (binding_detach_client_complete b s)"

definition NmrClientDetachProviderComplete :: "nat \<Rightarrow> nmr \<Rightarrow> nmr result" where
  "NmrClientDetachProviderComplete b s = finish_completion b s (binding_detach_provider_complete b s)"

text \<open>The wait is \<^verbatim>\<open>remove\<close>: \<open>None\<close> while it blocks, an error when its time is over and bindings are left.\<close>

definition wait_for_deregister_client :: "bool \<Rightarrow> nat \<Rightarrow> nmr \<Rightarrow> nmr option result" where
  "wait_for_deregister_client timeout h s = remove_client timeout h s"

definition wait_for_deregister_provider :: "bool \<Rightarrow> nat \<Rightarrow> nmr \<Rightarrow> nmr option result" where
  "wait_for_deregister_provider timeout h s = remove_provider timeout h s"

definition NmrWaitForClientDeregisterComplete :: "bool \<Rightarrow> nat \<Rightarrow> nmr \<Rightarrow> (ntstatus \<times> nmr) option result" where
  "NmrWaitForClientDeregisterComplete timeout h s =
     (case wait_for_deregister_client timeout h s of Inl e \<Rightarrow> Inl e | Inr o1 \<Rightarrow> Inr (map_option (Pair STATUS_SUCCESS) o1))"

definition NmrWaitForProviderDeregisterComplete :: "bool \<Rightarrow> nat \<Rightarrow> nmr \<Rightarrow> (ntstatus \<times> nmr) option result" where
  "NmrWaitForProviderDeregisterComplete timeout h s =
     (case wait_for_deregister_provider timeout h s of Inl e \<Rightarrow> Inl e | Inr o1 \<Rightarrow> Inr (map_option (Pair STATUS_SUCCESS) o1))"

definition NmrClientAttachProvider ::
  "bool \<Rightarrow> nat \<Rightarrow> ptr \<Rightarrow> ptr \<Rightarrow> ntstatus \<Rightarrow> ptr \<Rightarrow> ptr \<Rightarrow> nmr \<Rightarrow> ((ntstatus \<times> (ptr \<times> ptr) option) \<times> nmr) result" where
  "NmrClientAttachProvider fault b cc cd status pc pd s =
     (if fault then Inr ((STATUS_NO_MEMORY, None), s) else client_attach_provider b cc cd status pc pd s)"

section \<open>Completions in any order\<close>

datatype completion = Client_Done | Provider_Done

definition complete_side :: "completion \<Rightarrow> nat \<Rightarrow> nmr \<Rightarrow> nmr result" where
  "complete_side c b s =
     (case c of Client_Done \<Rightarrow> NmrClientDetachProviderComplete b s | Provider_Done \<Rightarrow> NmrProviderDetachClientComplete b s)"

fun complete_sides :: "completion list \<Rightarrow> nat \<Rightarrow> nmr \<Rightarrow> nmr result" where
  "complete_sides [] b s = Inr s"
| "complete_sides (c # cs) b s = (case complete_side c b s of Inl e \<Rightarrow> Inl e | Inr s1 \<Rightarrow> complete_sides cs b s1)"

text \<open>The sides whose callbacks answer that the detach is pending.\<close>

definition pending_sides :: "detach_behaviour \<Rightarrow> nat \<Rightarrow> binding \<Rightarrow> completion set" where
  "pending_sides dt b x =
     {c. case c of Client_Done \<Rightarrow> client_binding_context x \<noteq> nullptr \<and> fst (dt b) = STATUS_PENDING
                 | Provider_Done \<Rightarrow> provider_binding_context x \<noteq> nullptr \<and> snd (dt b) = STATUS_PENDING}"

text \<open>The binding \<open>b\<close> of client \<open>h\<close> waits for the completions \<open>R\<close>.\<close>

definition awaiting :: "completion set \<Rightarrow> nat \<Rightarrow> nat \<Rightarrow> nmr \<Rightarrow> bool" where
  "awaiting R b h s \<longleftrightarrow> nmr_inv s \<and> clients s h \<noteq> None \<and>
     (\<exists>x. bindings s b = Some x \<and> b_client x = h \<and>
        client_binding_status x = (if Provider_Done \<in> R then UnbindPending else UnbindComplete) \<and>
        provider_binding_status x = (if Client_Done \<in> R then UnbindPending else UnbindComplete))"

lemma begin_unbind_pending:
  assumes inv: "nmr_inv s" "clients s h \<noteq> None" and x: "bindings s b = Some x" "b_client x = h"
      "client_binding_status x = Ready" "provider_binding_status x = Ready"
    and R: "pending_sides dt b x \<noteq> {}"
  shows "\<exists>s'. begin_unbind dt b s = Inr (True, s') \<and> awaiting (pending_sides dt b x) b h s' \<and>
           (\<forall>b'. b' \<noteq> b \<longrightarrow> bindings s' b' = bindings s b')"
proof -
  let ?x1 = "x\<lparr>client_binding_status := BeginUnbind, provider_binding_status := BeginUnbind\<rparr>"
  obtain s1 where s1: "begin_unbind_start b s = Inr (False, s1)" "b \<in> set (detaching s1)"
      "bindings s1 = (bindings s)(b \<mapsto> ?x1)" "clients s1 = clients s"
    using x by (simp add: begin_unbind_start_def)
  obtain r s2 where s2: "begin_unbind_finish b (fst (dt b)) (snd (dt b)) s1 = Inr (r, s2)" "nmr_inv s2"
    using unbind_finish_ok [OF unbind_start_inv [OF inv(1) s1(1)] s1(2)] by blast
  have R': "Client_Done \<in> pending_sides dt b x \<or> Provider_Done \<in> pending_sides dt b x"
    using R completion.exhaust by (metis ex_in_conv)
  have "r \<and> clients s2 = clients s \<and> (\<forall>b'. b' \<noteq> b \<longrightarrow> bindings s2 b' = bindings s b') \<and>
      bindings s2 b = Some (?x1\<lparr>provider_binding_status := (if Client_Done \<in> pending_sides dt b x then UnbindPending else UnbindComplete),
        client_binding_status := (if Provider_Done \<in> pending_sides dt b x then UnbindPending else UnbindComplete)\<rparr>)"
    using s2(1) s1(3,4) R' by (auto simp: begin_unbind_finish_def Let_def pending_sides_def)
  then show ?thesis using s1(1) s2 inv(2) x(2) by (auto simp: begin_unbind_def awaiting_def)
qed

text \<open>A completion that another one follows leaves the binding; the last one removes it.\<close>

lemma complete_side_step:
  assumes "awaiting R b h s" "c \<in> R"
  shows "\<exists>s'. complete_side c b s = Inr s' \<and> (\<forall>b'. b' \<noteq> b \<longrightarrow> bindings s' b' = bindings s b') \<and>
           (if R = {c} then nmr_inv s' \<and> clients s' h \<noteq> None \<and> bindings s' b = None else awaiting (R - {c}) b h s')"
proof -
  obtain x where x: "nmr_inv s" "clients s h \<noteq> None" "bindings s b = Some x" "b_client x = h"
      "client_binding_status x = (if Provider_Done \<in> R then UnbindPending else UnbindComplete)"
      "provider_binding_status x = (if Client_Done \<in> R then UnbindPending else UnbindComplete)"
    using assms(1) by (auto simp: awaiting_def)
  have R: "Client_Done \<in> R \<Longrightarrow> R = {Client_Done} \<longleftrightarrow> Provider_Done \<notin> R" "Provider_Done \<in> R \<Longrightarrow> R = {Provider_Done} \<longleftrightarrow> Client_Done \<notin> R"
    using completion.exhaust by blast+
  obtain s1 where s1: "(case c of Client_Done \<Rightarrow> binding_detach_provider_complete b s | Provider_Done \<Rightarrow> binding_detach_client_complete b s) = Inr s1"
      "clients s1 = clients s" "\<forall>b'. b' \<noteq> b \<longrightarrow> bindings s1 b' = bindings s b'"
      "bindings s1 b = Some (case c of Client_Done \<Rightarrow> x\<lparr>provider_binding_status := UnbindComplete\<rparr> | Provider_Done \<Rightarrow> x\<lparr>client_binding_status := UnbindComplete\<rparr>)"
      "completing s1 = (if R = {c} then completing s @ [b] else completing s)"
    using x(3,5,6) assms(2) R
    by (cases c) (simp_all add: binding_detach_provider_complete_def binding_detach_client_complete_def Let_def split: if_splits)
  have inv1: "nmr_inv s1" using s1(1) detach_client_inv [OF x(1)] detach_provider_inv [OF x(1)] by (cases c) auto
  have run: "complete_side c b s = finish_completion b s (Inr s1)"
    using s1(1) by (cases c) (simp_all add: complete_side_def NmrClientDetachProviderComplete_def NmrProviderDetachClientComplete_def)
  show ?thesis
  proof (cases "R = {c}")
    case True
    then obtain s2 where s2: "unbind_complete b s1 = Inr s2" "nmr_inv s2" "bindings s2 = (bindings s1)(b := None)"
      using unbind_complete_ok [OF inv1, of b] s1(5) by auto
    have "dom (clients s2) = dom (clients s1)"
      using s2(1) by (auto simp: unbind_complete_def Let_def split: option.splits if_splits)
    then have "clients s2 h \<noteq> None" using s1(2) x(2) by (metis domIff)
    then show ?thesis using run True s1(3,5) s2 by (auto simp: finish_completion_def)
  next
    case False
    then have "awaiting (R - {c}) b h s1"
      using inv1 s1(2,4) x assms(2) by (cases c) (auto simp: awaiting_def)
    then show ?thesis using run False s1(3,5) by (auto simp: finish_completion_def)
  qed
qed

lemma awaiting_blocks:
  assumes "awaiting R b h s"
  shows "NmrWaitForClientDeregisterComplete False h s = Inr None"
    "NmrWaitForClientDeregisterComplete True h s = Inl Assert_Failed"
proof -
  obtain x r where x: "nmr_inv s" "bindings s b = Some x" "b_client x = h" "clients s h = Some r" using assms by (auto simp: awaiting_def)
  have "binding_count r > 0" using remove_client_no_refs [OF x(1,4) _ x(2)] x(3) by blast
  then show "NmrWaitForClientDeregisterComplete False h s = Inr None"
    "NmrWaitForClientDeregisterComplete True h s = Inl Assert_Failed"
    using x(4) by (simp_all add: NmrWaitForClientDeregisterComplete_def wait_for_deregister_client_def remove_client_def)
qed

lemma complete_all_sides:
  assumes "awaiting (set cs) b h s" "distinct cs" "cs \<noteq> []"
  shows "(\<forall>k < length cs. \<exists>t. complete_sides (take k cs) b s = Inr t \<and> awaiting (set (drop k cs)) b h t) \<and>
         (\<exists>s'. complete_sides cs b s = Inr s' \<and> nmr_inv s' \<and> clients s' h \<noteq> None \<and> bindings s' b = None \<and>
               (\<forall>b'. b' \<noteq> b \<longrightarrow> bindings s' b' = bindings s b'))"
  using assms
proof (induction cs arbitrary: s)
  case Nil
  then show ?case by simp
next
  case (Cons c cs)
  have sing: "set (c # cs) - {c} = set cs" "set (c # cs) = {c} \<longleftrightarrow> cs = []" using Cons.prems(2) by (auto, cases cs, auto)
  obtain s1 where s1: "complete_side c b s = Inr s1" "\<forall>b'. b' \<noteq> b \<longrightarrow> bindings s1 b' = bindings s b'"
    "if cs = [] then nmr_inv s1 \<and> clients s1 h \<noteq> None \<and> bindings s1 b = None else awaiting (set cs) b h s1"
    using complete_side_step [OF Cons.prems(1), of c] unfolding sing by auto
  show ?case
  proof (cases "cs = []")
    case True
    then show ?thesis using s1 Cons.prems(1) by auto
  next
    case False
    note IH = Cons.IH [of s1]
    have rest: "\<exists>t. complete_sides (take k (c # cs)) b s = Inr t \<and> awaiting (set (drop k (c # cs))) b h t" if "k < length (c # cs)" for k
      using IH False s1 Cons.prems that by (cases k) auto
    show ?thesis using IH False s1 Cons.prems(2) rest by fastforce
  qed
qed

section \<open>Deregistration with pending detaches\<close>

text \<open>
  C25: a deregistration waits exactly for the pending detaches. If the detach callbacks of a client's only binding, which is attached, leave
  some side pending, \<^verbatim>\<open>NmrDeregisterClient\<close> returns \<^verbatim>\<open>STATUS_PENDING\<close>. As long as some pending side has not reported its
  completion, in whatever order they report, the wait for the end of the deregistration blocks, and fails the debug assertion of \<^verbatim>\<open>remove\<close>
  if its ten seconds pass meanwhile. Once every pending side has reported, the wait returns success, its time passed or not, with the
  client and the binding gone, all other bindings as they were and the counts exact. No completion fails an assertion.
\<close>
theorem deregister_client_async:
  assumes inv: "nmr_inv s" "clients s h \<noteq> None" and x: "bindings s b = Some x" "b_client x = h"
    and ready: "client_binding_status x = Ready" "provider_binding_status x = Ready"
    and only: "\<forall>b' y. bindings s b' = Some y \<longrightarrow> b_client y = h \<longrightarrow> b' = b"
    and cs: "set cs = pending_sides dt b x" "distinct cs" "cs \<noteq> []"
  shows "\<exists>s1 s2 s3. (\<forall>timeout. NmrDeregisterClient timeout dt h s = Inr (Some (STATUS_PENDING, s1))) \<and>
           (\<forall>k < length cs. \<exists>t. complete_sides (take k cs) b s1 = Inr t \<and>
              NmrWaitForClientDeregisterComplete False h t = Inr None \<and>
              NmrWaitForClientDeregisterComplete True h t = Inl Assert_Failed) \<and>
           complete_sides cs b s1 = Inr s2 \<and>
           (\<forall>timeout. NmrWaitForClientDeregisterComplete timeout h s2 = Inr (Some (STATUS_SUCCESS, s3))) \<and>
           nmr_inv s3 \<and> clients s3 h = None \<and> bindings s3 = (bindings s)(b := None)"
proof -
  obtain s0 where s0: "deactivate_client h s = Inr s0" "bindings s0 = bindings s" "clients s0 h \<noteq> None"
    using inv(2) by (auto simp: deactivate_client_def)
  have inv0: "nmr_inv s0" by (rule registry_inv(3) [OF inv(1) s0(1)])
  have mem: "b' \<in> set (client_bindings h s0) \<longleftrightarrow> (\<exists>y. bindings s b' = Some y \<and> b_client y = h)" for b'
    using nmr_invD(3) [OF inv0, of b'] s0(2) by (auto simp: client_bindings_def not_le [symmetric] split: option.splits)
  have bs: "set (client_bindings h s0) = {b}" "distinct (client_bindings h s0)"
    using mem x only by (blast, simp add: client_bindings_def)
  then have "length (client_bindings h s0) = 1" using distinct_card by fastforce
  then have one: "client_bindings h s0 = [b]" using bs(1) by (cases "client_bindings h s0") auto
  have ne: "pending_sides dt b x \<noteq> {}" using cs(1,3) by (metis set_empty)
  obtain s1 where s1: "begin_unbind dt b s0 = Inr (True, s1)" "awaiting (set cs) b h s1" "\<forall>b'. b' \<noteq> b \<longrightarrow> bindings s1 b' = bindings s b'"
    using begin_unbind_pending [OF inv0 s0(3) _ x(2) ready ne] s0(2) x(1) cs(1) by auto
  have d: "NmrDeregisterClient timeout dt h s = Inr (Some (STATUS_PENDING, s1))" for timeout
    using s0(1,3) one s1(1) by (auto simp: NmrDeregisterClient_def deregister_client_def perform_unbind_client_def)
  note C = complete_all_sides [OF s1(2) cs(2,3)]
  obtain s2 where s2: "complete_sides cs b s1 = Inr s2" "nmr_inv s2" "clients s2 h \<noteq> None" "bindings s2 = (bindings s)(b := None)"
    using C s1(3) by (auto simp: fun_eq_iff)
  obtain r where r: "clients s2 h = Some r" using s2(3) by blast
  have "refs b_client h (bindings s2) = {}" using s2(4) only by (auto simp: refs_def)
  then have "binding_count r = 0" using nmr_invD(1) [OF s2(2)] r by (auto simp: counted_def)
  then have rm: "remove_client timeout h s2 = Inr (Some (s2\<lparr>clients := (clients s2)(h := None)\<rparr>))" for timeout using r by (simp add: remove_client_def)
  then have w: "NmrWaitForClientDeregisterComplete timeout h s2 = Inr (Some (STATUS_SUCCESS, s2\<lparr>clients := (clients s2)(h := None)\<rparr>))" for timeout
    by (simp add: NmrWaitForClientDeregisterComplete_def wait_for_deregister_client_def)
  have waits: "\<exists>t. complete_sides (take k cs) b s1 = Inr t \<and> NmrWaitForClientDeregisterComplete False h t = Inr None \<and>
      NmrWaitForClientDeregisterComplete True h t = Inl Assert_Failed" if "k < length cs" for k
    using C that awaiting_blocks by metis
  have fin: "nmr_inv (s2\<lparr>clients := (clients s2)(h := None)\<rparr>)" by (rule remove_client_inv [OF s2(2) rm])
  show ?thesis
    by (intro exI [of _ s1] exI [of _ s2] exI [of _ "s2\<lparr>clients := (clients s2)(h := None)\<rparr>"] conjI)
      (simp_all add: d waits s2(1,4) w fin)
qed

text \<open>The provider's callback stores a context and later answers that its detach is pending.\<close>

definition attached_nmr :: nmr where
  "attached_nmr =
     (case client_attach_provider 0 nullptr nullptr STATUS_SUCCESS 64 nullptr sample_nmr of
        Inl e \<Rightarrow> sample_nmr | Inr (r, s) \<Rightarrow> attach_done 0 STATUS_SUCCESS s)"

lemma attached_nmr_facts:
  "bindings attached_nmr 0 = Some ((new_binding 2 1)\<lparr>provider_binding_context := 64, client_binding_status := Ready,
     provider_binding_status := Ready\<rparr>)" "clients attached_nmr 2 \<noteq> None" "bindings attached_nmr b \<noteq> None \<longrightarrow> b = 0"
  by (simp_all add: attached_nmr_def client_attach_provider_def nmr_eval attach_done_def)

theorem deregister_client_async_witness:
  "\<exists>s1 s2 s3. NmrDeregisterClient False (\<lambda>_. (STATUS_SUCCESS, STATUS_PENDING)) 2 attached_nmr = Inr (Some (STATUS_PENDING, s1)) \<and>
     NmrWaitForClientDeregisterComplete False 2 s1 = Inr None \<and> NmrWaitForClientDeregisterComplete True 2 s1 = Inl Assert_Failed \<and> complete_sides [Provider_Done] 0 s1 = Inr s2 \<and>
     NmrWaitForClientDeregisterComplete False 2 s2 = Inr (Some (STATUS_SUCCESS, s3)) \<and> clients s3 2 = None"
proof -
  let ?dt = "\<lambda>_::nat. (STATUS_SUCCESS, STATUS_PENDING)"
  have at: "0 \<in> set (attaching sample_nmr)" by (simp add: nmr_eval)
  obtain r s where s: "client_attach_provider 0 nullptr nullptr STATUS_SUCCESS 64 nullptr sample_nmr = Inr (r, s)"
    "attached_nmr = attach_done 0 STATUS_SUCCESS s" "0 \<in> set (attaching s)"
    by (simp add: attached_nmr_def client_attach_provider_def nmr_eval)
  have "nmr_reachable s" using nmr_reachable.step [OF sample_nmr_reachable step_attach [OF at s(1)]] .
  then have inv: "nmr_inv attached_nmr" unfolding s(2) using attach_done_inv nmr_reachable_inv s(3) by blast
  have p: "set [Provider_Done] = pending_sides ?dt 0 ((new_binding 2 1)\<lparr>provider_binding_context := 64,
      client_binding_status := Ready, provider_binding_status := Ready\<rparr>)"
    unfolding set_eq_iff pending_sides_def by (intro allI, case_tac x) (simp_all add: new_binding_def)
  note D = deregister_client_async [OF inv attached_nmr_facts(2) attached_nmr_facts(1) _ _ _ _ p]
  from D attached_nmr_facts(3) show ?thesis by (fastforce simp: new_binding_def)
qed

end
