(* ===== verification/Fwp.thy ===== *)
theory Fwp
  imports Usersim_Prelude
begin

text \<open>
  The filter engine: \<^verbatim>\<open>fwp_engine_t\<close> of \<^verbatim>\<open>src/fwp_um.h\<close> and \<^verbatim>\<open>src/fwp_um.cpp\<close> with the \<^verbatim>\<open>Fwpm*\<close> and
  \<^verbatim>\<open>Fwps*\<close> entry points and the test hooks that classify a connection.

  The engine keeps its objects in \<^verbatim>\<open>std::unordered_map\<close>s, whose iteration order is unspecified. A table is
  an association list in iteration order, and an insertion puts the keys into the order that the
  argument \<open>h\<close> (the layout of the hash table) gives. Results that hold for every layout \<open>h\<close> that
  permutes its argument hold for every implementation of the container.

  Driver callbacks are not code of the repository. A classify function is a state transformer, a
  parameter of the operations that call it; notifications are recorded as events. The numbers that the
  Windows headers give to layers and fields are the parameter \<open>sdk\<close>.
\<close>

section \<open>Unordered maps\<close>

type_synonym layout = "u64 list \<Rightarrow> u64 list"

type_synonym 'v table = "(u64 \<times> 'v) list"

definition layout_ok :: "layout \<Rightarrow> bool" where
  "layout_ok h \<longleftrightarrow> (\<forall>ks. set (h ks) = set ks \<and> (distinct ks \<longrightarrow> distinct (h ks)))"

definition um_insert :: "layout \<Rightarrow> u64 \<Rightarrow> 'v \<Rightarrow> 'v table \<Rightarrow> 'v table" where
  "um_insert h k v t = (if map_of t k \<noteq> None then t
     else let t' = (k, v) # t in map (\<lambda>k. (k, the (map_of t' k))) (h (map fst t')))"

definition um_erase :: "u64 \<Rightarrow> 'v table \<Rightarrow> bool \<times> 'v table" where
  "um_erase k t = (map_of t k \<noteq> None, filter (\<lambda>(k', v). k' \<noteq> k) t)"

definition um_find :: "('v \<Rightarrow> bool) \<Rightarrow> 'v table \<Rightarrow> (u64 \<times> 'v) option" where
  "um_find P t = List.find (\<lambda>(k, v). P v) t"

section \<open>The engine\<close>

type_synonym guid = "128 word"

record fwps_callout =
  s_calloutKey :: guid
  classifyFn :: ptr
  notifyFn :: ptr
  flowDeleteFn :: ptr

record fwpm_callout =
  m_calloutKey :: guid
  applicableLayer :: guid

record fwpm_filter =
  layerKey :: guid
  f_subLayerKey :: guid
  action_calloutKey :: guid
  rawContext :: u64

record fwpm_sublayer =
  subLayerKey :: guid

record fwp_engine =
  next_id :: u32
  next_flow_id :: u32
  fwps_callouts :: "fwps_callout table"
  fwpm_callouts :: "fwpm_callout table"
  fwpm_filters :: "fwpm_filter table"
  fwpm_sub_layers :: "fwpm_sublayer table"
  fwpm_flow_contexts :: "u64 table"
  default_sublayer :: guid
  connect_v4_sublayer :: guid
  connect_v6_sublayer :: guid

definition new_engine :: fwp_engine where
  "new_engine = \<lparr>next_id = 1, next_flow_id = 1, fwps_callouts = [], fwpm_callouts = [],
     fwpm_filters = [], fwpm_sub_layers = [], fwpm_flow_contexts = [],
     default_sublayer = 0, connect_v4_sublayer = 0, connect_v6_sublayer = 0\<rparr>"

datatype fwp_event =
    Notify_Add_Filter ptr guid u64
  | Notify_Delete_Filter ptr guid u64
  | Flow_Delete ptr u16 u32 u64

definition set_sublayer_guids :: "guid \<Rightarrow> guid \<Rightarrow> guid \<Rightarrow> fwp_engine \<Rightarrow> fwp_engine" where
  "set_sublayer_guids d v4 v6 e =
     e\<lparr>default_sublayer := d, connect_v4_sublayer := v4, connect_v6_sublayer := v6\<rparr>"

definition add_fwpm_callout :: "layout \<Rightarrow> fwpm_callout \<Rightarrow> fwp_engine \<Rightarrow> u32 \<times> fwp_engine" where
  "add_fwpm_callout h callout e =
     (next_id e, e\<lparr>next_id := next_id e + 1,
                   fwpm_callouts := um_insert h (ucast (next_id e)) callout (fwpm_callouts e)\<rparr>)"

definition remove_fwpm_callout_by_key :: "guid \<Rightarrow> fwp_engine \<Rightarrow> bool \<times> fwp_engine" where
  "remove_fwpm_callout_by_key key e =
     (case um_find (\<lambda>c. m_calloutKey c = key) (fwpm_callouts e) of
        None \<Rightarrow> (False, e)
      | Some (i, c) \<Rightarrow> (fst (um_erase i (fwpm_callouts e)),
                       e\<lparr>fwpm_callouts := snd (um_erase i (fwpm_callouts e))\<rparr>))"

definition remove_fwpm_callout_by_id :: "u64 \<Rightarrow> fwp_engine \<Rightarrow> bool \<times> fwp_engine" where
  "remove_fwpm_callout_by_id i e =
     (fst (um_erase i (fwpm_callouts e)), e\<lparr>fwpm_callouts := snd (um_erase i (fwpm_callouts e))\<rparr>)"

definition register_fwps_callout :: "layout \<Rightarrow> fwps_callout \<Rightarrow> fwp_engine \<Rightarrow> u32 \<times> fwp_engine" where
  "register_fwps_callout h callout e =
     (next_id e, e\<lparr>next_id := next_id e + 1,
                   fwps_callouts := um_insert h (ucast (next_id e)) callout (fwps_callouts e)\<rparr>)"

definition get_fwps_callout_by_key :: "guid \<Rightarrow> fwp_engine \<Rightarrow> fwps_callout option" where
  "get_fwps_callout_by_key key e = map_option snd (um_find (\<lambda>c. s_calloutKey c = key) (fwps_callouts e))"

definition get_fwps_callout_by_id :: "u32 \<Rightarrow> fwp_engine \<Rightarrow> fwps_callout option" where
  "get_fwps_callout_by_id i e = map_of (fwps_callouts e) (ucast i)"

definition remove_fwps_callout :: "u64 \<Rightarrow> fwp_engine \<Rightarrow> bool \<times> fwp_engine" where
  "remove_fwps_callout i e =
     (fst (um_erase i (fwps_callouts e)), e\<lparr>fwps_callouts := snd (um_erase i (fwps_callouts e))\<rparr>)"

definition associate_flow_context :: "layout \<Rightarrow> u64 \<Rightarrow> u32 \<Rightarrow> u64 \<Rightarrow> fwp_engine \<Rightarrow> fwp_engine" where
  "associate_flow_context h flow_id callout_id flow_context e =
     e\<lparr>fwpm_flow_contexts := um_insert h flow_id flow_context (fwpm_flow_contexts e)\<rparr>"

text \<open>
  \<^verbatim>\<open>delete_flow_context\<close>: the assertions hold only when the flow has a context and the callout is
  registered.
\<close>

definition delete_flow_context ::
  "u64 \<Rightarrow> u16 \<Rightarrow> u32 \<Rightarrow> fwp_engine \<Rightarrow> (fwp_event list \<times> fwp_engine) result" where
  "delete_flow_context flow_id layer_id callout_id e =
     (case map_of (fwpm_flow_contexts e) flow_id of
        None \<Rightarrow> Inl Assert_Failed
      | Some flow_context \<Rightarrow>
          (case get_fwps_callout_by_id callout_id e of
             None \<Rightarrow> Inl Assert_Failed
           | Some callout \<Rightarrow>
               Inr ([Flow_Delete (flowDeleteFn callout) layer_id callout_id flow_context],
                    e\<lparr>fwpm_flow_contexts := snd (um_erase flow_id (fwpm_flow_contexts e))\<rparr>)))"

definition add_fwpm_filter ::
  "layout \<Rightarrow> fwpm_filter \<Rightarrow> fwp_engine \<Rightarrow> (u32 \<times> fwp_event list \<times> fwp_engine) result" where
  "add_fwpm_filter h flt e =
     (let i = next_id e;
          e' = e\<lparr>next_id := i + 1, fwpm_filters := um_insert h (ucast i) flt (fwpm_filters e)\<rparr>
      in case get_fwps_callout_by_key (action_calloutKey flt) e' of
           None \<Rightarrow> Inl Assert_Failed
         | Some callout \<Rightarrow>
             Inr (i, [Notify_Add_Filter (notifyFn callout) (action_calloutKey flt) (rawContext flt)], e'))"

definition remove_fwpm_filter :: "u64 \<Rightarrow> fwp_engine \<Rightarrow> (bool \<times> fwp_event list \<times> fwp_engine) result" where
  "remove_fwpm_filter i e =
     (case map_of (fwpm_filters e) i of
        None \<Rightarrow> Inl Assert_Failed
      | Some flt \<Rightarrow>
          (case get_fwps_callout_by_key (action_calloutKey flt) e of
             None \<Rightarrow> Inl Assert_Failed
           | Some callout \<Rightarrow>
               Inr (fst (um_erase i (fwpm_filters e)),
                    [Notify_Delete_Filter (notifyFn callout) (s_calloutKey callout) (rawContext flt)],
                    e\<lparr>fwpm_filters := snd (um_erase i (fwpm_filters e))\<rparr>)))"

definition add_fwpm_sub_layer :: "layout \<Rightarrow> fwpm_sublayer \<Rightarrow> fwp_engine \<Rightarrow> u32 \<times> fwp_engine" where
  "add_fwpm_sub_layer h sub_layer e =
     (next_id e, e\<lparr>next_id := next_id e + 1,
                   fwpm_sub_layers := um_insert h (ucast (next_id e)) sub_layer (fwpm_sub_layers e)\<rparr>)"

definition remove_fwpm_sub_layer_by_id :: "u64 \<Rightarrow> fwp_engine \<Rightarrow> bool \<times> fwp_engine" where
  "remove_fwpm_sub_layer_by_id i e =
     (fst (um_erase i (fwpm_sub_layers e)), e\<lparr>fwpm_sub_layers := snd (um_erase i (fwpm_sub_layers e))\<rparr>)"

definition remove_fwpm_sub_layer_by_key :: "guid \<Rightarrow> fwp_engine \<Rightarrow> bool \<times> fwp_engine" where
  "remove_fwpm_sub_layer_by_key key e =
     (case um_find (\<lambda>c. subLayerKey c = key) (fwpm_sub_layers e) of
        None \<Rightarrow> (False, e)
      | Some (i, c) \<Rightarrow> (fst (um_erase i (fwpm_sub_layers e)),
                       e\<lparr>fwpm_sub_layers := snd (um_erase i (fwpm_sub_layers e))\<rparr>))"

definition get_fwpm_filter_at_layer :: "guid \<Rightarrow> fwp_engine \<Rightarrow> fwpm_filter option" where
  "get_fwpm_filter_at_layer layer_guid e =
     map_option snd (um_find (\<lambda>f. layerKey f = layer_guid \<and> rawContext f \<noteq> 0) (fwpm_filters e))"

definition get_fwpm_filter_with_context :: "guid \<Rightarrow> guid \<Rightarrow> fwp_engine \<Rightarrow> fwpm_filter option" where
  "get_fwpm_filter_with_context layer_guid sublayer_guid e =
     map_option snd (um_find (\<lambda>f. layerKey f = layer_guid \<and> f_subLayerKey f = sublayer_guid \<and>
                                  rawContext f \<noteq> 0) (fwpm_filters e))"

definition get_callout_key_from_layer_guid :: "guid \<Rightarrow> fwp_engine \<Rightarrow> guid option" where
  "get_callout_key_from_layer_guid layer_guid e =
     map_option (\<lambda>(i, c). m_calloutKey c) (um_find (\<lambda>c. applicableLayer c = layer_guid) (fwpm_callouts e))"

definition get_callout_from_key :: "guid \<Rightarrow> fwp_engine \<Rightarrow> fwps_callout option" where
  "get_callout_from_key key e = map_option snd (um_find (\<lambda>c. s_calloutKey c = key) (fwps_callouts e))"

definition get_callout_id_from_key :: "guid \<Rightarrow> fwp_engine \<Rightarrow> u64" where
  "get_callout_id_from_key key e =
     (case um_find (\<lambda>c. s_calloutKey c = key) (fwps_callouts e) of Some (i, c) \<Rightarrow> i | None \<Rightarrow> 0)"

section \<open>Classification\<close>

record fwp_classify_parameters =
  destination_ipv4_address :: u32
  destination_ipv6_address :: "128 word"
  destination_port :: u16
  source_ipv4_address :: u32
  source_ipv6_address :: "128 word"
  source_port :: u16
  protocol :: u8
  compartment_id :: u32
  app_id :: ptr
  interface_luid :: u64
  user_id :: ptr
  reauthorization_flag :: u32

datatype fwp_layer =
    Inbound_Mac_Frame_Native | Ale_Resource_Assignment | Ale_Auth_Recv_Accept | Ale_Connect_Redirect
  | Ale_Auth_Connect | Ale_Flow_Established | Ale_Auth_Listen

datatype ip_version = V4 | V6

datatype fwp_field =
    Ip_Local_Address | Ip_Local_Port | Ip_Remote_Address | Ip_Remote_Port | Ip_Protocol | Compartment_Id
  | Ip_Local_Interface | Ale_App_Id | Ale_User_Id | Flags | Interface_Type | Tunnel_Type
  | Ip_Nexthop_Interface | Sub_Interface_Index | Interface_Index

datatype fwp_value =
    Fwp_Empty | Fwp_U8 u8 | Fwp_U16 u16 | Fwp_U32 u32 | Fwp_U64 u64 | Fwp_Bytes16 "128 word" | Fwp_Blob ptr

text \<open>The numbering in the Windows headers: \<^verbatim>\<open>FWPS_FIELD_*\<close>, \<^verbatim>\<open>FWPS_FIELD_*_MAX\<close>, \<^verbatim>\<open>FWPS_LAYER_*\<close>, \<^verbatim>\<open>FWPM_LAYER_*\<close>.\<close>

record fwp_sdk =
  field_index :: "fwp_layer \<Rightarrow> ip_version \<Rightarrow> fwp_field \<Rightarrow> nat"
  field_max :: "fwp_layer \<Rightarrow> ip_version \<Rightarrow> nat"
  fwps_layer :: "fwp_layer \<Rightarrow> ip_version \<Rightarrow> u16"
  fwpm_layer :: "fwp_layer \<Rightarrow> ip_version \<Rightarrow> guid"

abbreviation AF_INET :: u16 where "AF_INET \<equiv> 2"
abbreviation AF_INET6 :: u16 where "AF_INET6 \<equiv> 23"
abbreviation IF_TYPE_ETHERNET_CSMACD :: u32 where "IF_TYPE_ETHERNET_CSMACD \<equiv> 6"
abbreviation TUNNEL_TYPE_NONE :: u32 where "TUNNEL_TYPE_NONE \<equiv> 0"
abbreviation FWP_ACTION_BLOCK :: u32 where "FWP_ACTION_BLOCK \<equiv> 0x1001"
abbreviation FWP_ACTION_PERMIT :: u32 where "FWP_ACTION_PERMIT \<equiv> 0x1002"
abbreviation FWP_ACTION_CONTINUE :: u32 where "FWP_ACTION_CONTINUE \<equiv> 0x2006"
abbreviation FWP_ACTION_CALLOUT_UNKNOWN :: u32 where "FWP_ACTION_CALLOUT_UNKNOWN \<equiv> 0x4005"

text \<open>The thread's \<^verbatim>\<open>FWPS_CONNECT_REQUEST0\<close>; port and address are what the socket address macros read.\<close>

record connect_request =
  ss_family :: u16
  sa_port :: u16
  sa_address4 :: u32
  sa_address6 :: "128 word"

record fwp_state =
  engine :: fwp_engine
  connect_req :: "connect_request option"
  injection_handle :: "(ptr \<times> u16 \<times> u32) option"
  fwp_log :: "fwp_event list"

record classify_call =
  cc_fn :: ptr
  cc_layer :: u16
  cc_values :: "fwp_value list"
  cc_flow :: u64
  cc_context :: u64

type_synonym classify_behaviour = "classify_call \<Rightarrow> fwp_state \<Rightarrow> u32 \<times> fwp_state"

text \<open>An array of incoming values, filled by the assignments of the source in their order.\<close>

fun put_values ::
  "fwp_sdk \<Rightarrow> (fwp_layer \<times> ip_version \<times> fwp_field \<times> fwp_value) list \<Rightarrow> fwp_value list \<Rightarrow> fwp_value list result" where
  "put_values sdk [] vs = Inr vs"
| "put_values sdk ((l, v, f, x) # as) vs =
     (if field_index sdk l v f < length vs then put_values sdk as (vs[field_index sdk l v f := x])
      else Inl Out_Of_Bounds)"

definition incoming_values ::
  "fwp_sdk \<Rightarrow> fwp_layer \<Rightarrow> ip_version \<Rightarrow> (fwp_layer \<times> ip_version \<times> fwp_field \<times> fwp_value) list \<Rightarrow> fwp_value list result" where
  "incoming_values sdk l v as = put_values sdk as (replicate (field_max sdk l v) Fwp_Empty)"

definition test_callout ::
  "classify_behaviour \<Rightarrow> u16 \<Rightarrow> guid \<Rightarrow> guid \<Rightarrow> fwp_value list \<Rightarrow> fwp_state \<Rightarrow> u32 \<times> u64 option \<times> fwp_state" where
  "test_callout cl layer_id layer_guid sublayer_guid vs s =
     (case get_fwpm_filter_with_context layer_guid sublayer_guid (engine s) of
        None \<Rightarrow> (FWP_ACTION_CALLOUT_UNKNOWN, None, s)
      | Some f \<Rightarrow>
          (case get_callout_from_key (action_calloutKey f) (engine s) of
             None \<Rightarrow> (FWP_ACTION_CALLOUT_UNKNOWN, None, s)
           | Some c \<Rightarrow>
               let flow = next_flow_id (engine s) + 1;
                   s1 = s\<lparr>engine := (engine s)\<lparr>next_flow_id := flow\<rparr>\<rparr>;
                   (action, s2) = cl \<lparr>cc_fn = classifyFn c, cc_layer = layer_id, cc_values = vs,
                                     cc_flow = ucast flow, cc_context = rawContext f\<rparr> s1
               in (action, Some (ucast flow), s2)))"

text \<open>
  \<^verbatim>\<open>classify_test_packet\<close>. The four allocations (buffer list pool, buffer list, MDL, buffer) succeed or not
  as \<open>alloc\<close> says.
\<close>

definition classify_test_packet ::
  "fwp_sdk \<Rightarrow> classify_behaviour \<Rightarrow> bool list \<Rightarrow> guid \<Rightarrow> u32 \<Rightarrow> fwp_state \<Rightarrow> (u32 \<times> fwp_state) result" where
  "classify_test_packet sdk cl alloc layer_guid if_index s =
     (case get_callout_key_from_layer_guid layer_guid (engine s) of
        None \<Rightarrow> Inr (FWP_ACTION_CALLOUT_UNKNOWN, s)
      | Some key \<Rightarrow>
          (case get_callout_from_key key (engine s) of
             None \<Rightarrow> Inr (FWP_ACTION_CALLOUT_UNKNOWN, s)
           | Some c \<Rightarrow>
               (case incoming_values sdk Inbound_Mac_Frame_Native V4
                       [(Inbound_Mac_Frame_Native, V4, Interface_Index, Fwp_U32 if_index)] of
                  Inl x \<Rightarrow> Inl x
                | Inr vs \<Rightarrow>
                    (case get_fwpm_filter_at_layer layer_guid (engine s) of
                       None \<Rightarrow> Inr (FWP_ACTION_CALLOUT_UNKNOWN, s)
                     | Some f \<Rightarrow>
                         if list_all id alloc
                         then Inr (cl \<lparr>cc_fn = classifyFn c, cc_layer = 0, cc_values = vs, cc_flow = 0,
                                       cc_context = rawContext f\<rparr> s)
                         else Inr (FWP_ACTION_CALLOUT_UNKNOWN, s)))))"

text \<open>A hook at one layer: build the values, then call the callout.\<close>

definition run_hook ::
  "fwp_sdk \<Rightarrow> classify_behaviour \<Rightarrow> fwp_layer \<Rightarrow> ip_version \<Rightarrow> guid \<Rightarrow>
   (fwp_layer \<times> ip_version \<times> fwp_field \<times> fwp_value) list \<Rightarrow> fwp_state \<Rightarrow> (u32 \<times> u64 option \<times> fwp_state) result" where
  "run_hook sdk cl l v sublayer as s =
     (case incoming_values sdk l v as of
        Inl x \<Rightarrow> Inl x
      | Inr vs \<Rightarrow> Inr (test_callout cl (fwps_layer sdk l v) (fwpm_layer sdk l v) sublayer vs s))"

definition test_bind_ipv4 ::
  "fwp_sdk \<Rightarrow> classify_behaviour \<Rightarrow> fwp_classify_parameters \<Rightarrow> fwp_state \<Rightarrow> (u32 \<times> u64 option \<times> fwp_state) result" where
  "test_bind_ipv4 sdk cl p s =
     (let F = \<lambda>f x. (Ale_Resource_Assignment, V4, f, x)
      in run_hook sdk cl Ale_Resource_Assignment V4 (default_sublayer (engine s))
           [F Ip_Local_Port (Fwp_U16 (destination_port p)),
            F Ip_Local_Address (Fwp_U32 (destination_ipv4_address p)),
            F Ip_Protocol (Fwp_U8 (protocol p)),
            F Ale_App_Id (Fwp_Blob (app_id p)),
            F Compartment_Id (Fwp_U32 (compartment_id p)),
            F Ip_Local_Interface (Fwp_U64 (interface_luid p)),
            F Ale_User_Id (Fwp_Blob (user_id p))] s)"

definition test_bind_ipv6 ::
  "fwp_sdk \<Rightarrow> classify_behaviour \<Rightarrow> fwp_classify_parameters \<Rightarrow> fwp_state \<Rightarrow> (u32 \<times> u64 option \<times> fwp_state) result" where
  "test_bind_ipv6 sdk cl p s =
     (let F = \<lambda>f x. (Ale_Resource_Assignment, V6, f, x)
      in run_hook sdk cl Ale_Resource_Assignment V6 (default_sublayer (engine s))
           [F Ip_Local_Port (Fwp_U16 (destination_port p)),
            F Ip_Local_Address (Fwp_Bytes16 (destination_ipv6_address p)),
            F Ip_Protocol (Fwp_U8 (protocol p)),
            F Ale_App_Id (Fwp_Blob (app_id p)),
            F Compartment_Id (Fwp_U32 (compartment_id p)),
            F Ip_Local_Interface (Fwp_U64 (interface_luid p)),
            F Ale_User_Id (Fwp_Blob (user_id p))] s)"

text \<open>
  The receive and accept hook. The last assignment indexes the array of the receive and accept layer with the
  \<^verbatim>\<open>FLAGS\<close> field of the connect layer.
\<close>

definition test_cgroup_inet4_recv_accept ::
  "fwp_sdk \<Rightarrow> classify_behaviour \<Rightarrow> fwp_classify_parameters \<Rightarrow> fwp_state \<Rightarrow> (u32 \<times> u64 option \<times> fwp_state) result" where
  "test_cgroup_inet4_recv_accept sdk cl p s =
     (let F = \<lambda>f x. (Ale_Auth_Recv_Accept, V4, f, x)
      in run_hook sdk cl Ale_Auth_Recv_Accept V4 (default_sublayer (engine s))
           [F Ip_Local_Address (Fwp_U32 (destination_ipv4_address p)),
            F Ip_Local_Port (Fwp_U16 (destination_port p)),
            F Ip_Remote_Address (Fwp_U32 (source_ipv4_address p)),
            F Ip_Remote_Port (Fwp_U16 (source_port p)),
            F Ip_Protocol (Fwp_U8 (protocol p)),
            F Compartment_Id (Fwp_U32 (compartment_id p)),
            F Ip_Local_Interface (Fwp_U64 (interface_luid p)),
            F Ale_App_Id (Fwp_Blob (app_id p)),
            F Ale_User_Id (Fwp_Blob (user_id p)),
            (Ale_Auth_Connect, V4, Flags, Fwp_U32 (reauthorization_flag p))] s)"

definition test_cgroup_inet6_recv_accept ::
  "fwp_sdk \<Rightarrow> classify_behaviour \<Rightarrow> fwp_classify_parameters \<Rightarrow> fwp_state \<Rightarrow> (u32 \<times> u64 option \<times> fwp_state) result" where
  "test_cgroup_inet6_recv_accept sdk cl p s =
     (let F = \<lambda>f x. (Ale_Auth_Recv_Accept, V6, f, x)
      in run_hook sdk cl Ale_Auth_Recv_Accept V6 (default_sublayer (engine s))
           [F Ip_Local_Address (Fwp_Bytes16 (destination_ipv6_address p)),
            F Ip_Local_Port (Fwp_U16 (destination_port p)),
            F Ip_Remote_Address (Fwp_Bytes16 (source_ipv6_address p)),
            F Ip_Remote_Port (Fwp_U16 (source_port p)),
            F Ip_Protocol (Fwp_U8 (protocol p)),
            F Compartment_Id (Fwp_U32 (compartment_id p)),
            F Ip_Local_Interface (Fwp_U64 (interface_luid p)),
            F Ale_App_Id (Fwp_Blob (app_id p)),
            F Ale_User_Id (Fwp_Blob (user_id p)),
            (Ale_Auth_Connect, V6, Flags, Fwp_U32 (reauthorization_flag p))] s)"

definition test_sock_ops_v4 ::
  "fwp_sdk \<Rightarrow> classify_behaviour \<Rightarrow> fwp_classify_parameters \<Rightarrow> fwp_state \<Rightarrow> (u32 \<times> u64 option \<times> fwp_state) result" where
  "test_sock_ops_v4 sdk cl p s =
     (let F = \<lambda>f x. (Ale_Flow_Established, V4, f, x)
      in run_hook sdk cl Ale_Flow_Established V4 (default_sublayer (engine s))
           [F Ip_Local_Address (Fwp_U32 (destination_ipv4_address p)),
            F Ip_Local_Port (Fwp_U16 (destination_port p)),
            F Ip_Remote_Address (Fwp_U32 (source_ipv4_address p)),
            F Ip_Remote_Port (Fwp_U16 (source_port p)),
            F Ip_Protocol (Fwp_U8 (protocol p)),
            F Compartment_Id (Fwp_U32 (compartment_id p)),
            F Ip_Local_Interface (Fwp_U64 (interface_luid p)),
            F Ale_App_Id (Fwp_Blob (app_id p))] s)"

definition test_sock_ops_v6 ::
  "fwp_sdk \<Rightarrow> classify_behaviour \<Rightarrow> fwp_classify_parameters \<Rightarrow> fwp_state \<Rightarrow> (u32 \<times> u64 option \<times> fwp_state) result" where
  "test_sock_ops_v6 sdk cl p s =
     (let F = \<lambda>f x. (Ale_Flow_Established, V6, f, x)
      in run_hook sdk cl Ale_Flow_Established V6 (default_sublayer (engine s))
           [F Ip_Local_Address (Fwp_Bytes16 (destination_ipv6_address p)),
            F Ip_Local_Port (Fwp_U16 (destination_port p)),
            F Ip_Remote_Address (Fwp_Bytes16 (source_ipv6_address p)),
            F Ip_Remote_Port (Fwp_U16 (source_port p)),
            F Ip_Protocol (Fwp_U8 (protocol p)),
            F Compartment_Id (Fwp_U32 (compartment_id p)),
            F Ip_Local_Interface (Fwp_U64 (interface_luid p)),
            F Ale_App_Id (Fwp_Blob (app_id p))] s)"

definition test_cgroup_inet4_listen ::
  "fwp_sdk \<Rightarrow> classify_behaviour \<Rightarrow> fwp_classify_parameters \<Rightarrow> fwp_state \<Rightarrow> (u32 \<times> u64 option \<times> fwp_state) result" where
  "test_cgroup_inet4_listen sdk cl p s =
     (let F = \<lambda>f x. (Ale_Auth_Listen, V4, f, x)
      in run_hook sdk cl Ale_Auth_Listen V4 (default_sublayer (engine s))
           [F Ip_Local_Address (Fwp_U32 (destination_ipv4_address p)),
            F Ip_Local_Port (Fwp_U16 (destination_port p)),
            F Compartment_Id (Fwp_U32 (compartment_id p)),
            F Ip_Local_Interface (Fwp_U64 (interface_luid p)),
            F Ale_App_Id (Fwp_Blob (app_id p))] s)"

definition test_cgroup_inet6_listen ::
  "fwp_sdk \<Rightarrow> classify_behaviour \<Rightarrow> fwp_classify_parameters \<Rightarrow> fwp_state \<Rightarrow> (u32 \<times> u64 option \<times> fwp_state) result" where
  "test_cgroup_inet6_listen sdk cl p s =
     (let F = \<lambda>f x. (Ale_Auth_Listen, V6, f, x)
      in run_hook sdk cl Ale_Auth_Listen V6 (default_sublayer (engine s))
           [F Ip_Local_Address (Fwp_Bytes16 (destination_ipv6_address p)),
            F Ip_Local_Port (Fwp_U16 (destination_port p)),
            F Compartment_Id (Fwp_U32 (compartment_id p)),
            F Ip_Local_Interface (Fwp_U64 (interface_luid p)),
            F Ale_App_Id (Fwp_Blob (app_id p))] s)"

section \<open>Connection redirection\<close>

text \<open>\<^verbatim>\<open>_byteswap_ushort\<close> and \<^verbatim>\<open>_byteswap_ulong\<close>, the source's \<^verbatim>\<open>ntohs\<close> and \<^verbatim>\<open>ntohl\<close>.\<close>

definition ntohs :: "u16 \<Rightarrow> u16" where
  "ntohs x = or (push_bit 8 x) (drop_bit 8 x)"

definition ntohl :: "u32 \<Rightarrow> u32" where
  "ntohl x = or (or (push_bit 24 x) (push_bit 8 (and x 0xFF00))) (or (and (drop_bit 8 x) 0xFF00) (drop_bit 24 x))"

definition is_connection_redirected :: "fwp_classify_parameters \<Rightarrow> connect_request \<Rightarrow> bool \<times> u16" where
  "is_connection_redirected p r =
     (if destination_port p = sa_port r then (False, sa_port r)
      else if ss_family r = AF_INET
           then (destination_ipv4_address p \<noteq> sa_address4 r, sa_port r)
           else (destination_ipv6_address p \<noteq> sa_address6 r, sa_port r))"

definition allocate_and_initialize_connection_request ::
  "bool \<Rightarrow> u16 \<Rightarrow> fwp_classify_parameters \<Rightarrow> fwp_state \<Rightarrow> fwp_state result" where
  "allocate_and_initialize_connection_request alloc family p s =
     assert_that (connect_req s = None)
       (Inr (if alloc
             then s\<lparr>connect_req := Some \<lparr>ss_family = family, sa_port = destination_port p,
                                          sa_address4 = 0, sa_address6 = 0\<rparr>\<rparr>
             else s))"

definition free_connection_request :: "fwp_state \<Rightarrow> fwp_state" where
  "free_connection_request s = s\<lparr>connect_req := None\<rparr>"

definition redirect_values_v4 :: "fwp_classify_parameters \<Rightarrow> (fwp_layer \<times> ip_version \<times> fwp_field \<times> fwp_value) list" where
  "redirect_values_v4 p =
     (let R = \<lambda>f x. (Ale_Connect_Redirect, V4, f, x)
      in [R Ip_Local_Address (Fwp_U32 (source_ipv4_address p)),
          R Ip_Local_Port (Fwp_U16 (source_port p)),
          R Ip_Remote_Address (Fwp_U32 (destination_ipv4_address p)),
          R Ip_Remote_Port (Fwp_U16 (destination_port p)),
          R Ip_Protocol (Fwp_U8 (protocol p)),
          R Compartment_Id (Fwp_U32 (compartment_id p)),
          R Ale_App_Id (Fwp_Blob (app_id p)),
          R Ale_User_Id (Fwp_Blob (user_id p))])"

definition connect_values_v4 :: "fwp_classify_parameters \<Rightarrow> (fwp_layer \<times> ip_version \<times> fwp_field \<times> fwp_value) list" where
  "connect_values_v4 p =
     (let C = \<lambda>f x. (Ale_Auth_Connect, V4, f, x)
      in [C Ip_Local_Address (Fwp_U32 (source_ipv4_address p)),
          C Ip_Local_Port (Fwp_U16 (source_port p)),
          C Ip_Remote_Address (Fwp_U32 (destination_ipv4_address p)),
          C Ip_Remote_Port (Fwp_U16 (destination_port p)),
          C Ip_Protocol (Fwp_U8 (protocol p)),
          C Compartment_Id (Fwp_U32 (compartment_id p)),
          C Ale_App_Id (Fwp_Blob (app_id p)),
          C Ale_User_Id (Fwp_Blob (user_id p)),
          C Ip_Local_Interface (Fwp_U64 (interface_luid p)),
          C Flags (Fwp_U32 (reauthorization_flag p)),
          C Interface_Type (Fwp_U32 IF_TYPE_ETHERNET_CSMACD),
          C Tunnel_Type (Fwp_U32 TUNNEL_TYPE_NONE),
          C Ip_Nexthop_Interface (Fwp_U64 (interface_luid p)),
          C Sub_Interface_Index (Fwp_U32 0)])"

definition redirect_values_v6 :: "fwp_classify_parameters \<Rightarrow> (fwp_layer \<times> ip_version \<times> fwp_field \<times> fwp_value) list" where
  "redirect_values_v6 p =
     (let R = \<lambda>f x. (Ale_Connect_Redirect, V6, f, x)
      in [R Ip_Local_Address (Fwp_Bytes16 (source_ipv6_address p)),
          R Ip_Local_Port (Fwp_U16 (source_port p)),
          R Ip_Remote_Address (Fwp_Bytes16 (destination_ipv6_address p)),
          R Ip_Remote_Port (Fwp_U16 (destination_port p)),
          R Ip_Protocol (Fwp_U8 (protocol p)),
          R Compartment_Id (Fwp_U32 (compartment_id p)),
          R Ale_App_Id (Fwp_Blob (app_id p)),
          R Ale_User_Id (Fwp_Blob (user_id p))])"

definition connect_values_v6 :: "fwp_classify_parameters \<Rightarrow> (fwp_layer \<times> ip_version \<times> fwp_field \<times> fwp_value) list" where
  "connect_values_v6 p =
     (let C = \<lambda>f x. (Ale_Auth_Connect, V6, f, x)
      in [C Ip_Local_Address (Fwp_Bytes16 (source_ipv6_address p)),
          C Ip_Local_Port (Fwp_U16 (source_port p)),
          C Ip_Remote_Address (Fwp_Bytes16 (destination_ipv6_address p)),
          C Ip_Remote_Port (Fwp_U16 (destination_port p)),
          C Ip_Protocol (Fwp_U8 (protocol p)),
          C Compartment_Id (Fwp_U32 (compartment_id p)),
          C Ale_App_Id (Fwp_Blob (app_id p)),
          C Ale_User_Id (Fwp_Blob (user_id p)),
          C Ip_Local_Interface (Fwp_U64 (interface_luid p)),
          C Flags (Fwp_U32 (reauthorization_flag p)),
          C Interface_Type (Fwp_U32 IF_TYPE_ETHERNET_CSMACD),
          C Tunnel_Type (Fwp_U32 TUNNEL_TYPE_NONE),
          C Ip_Nexthop_Interface (Fwp_U64 (interface_luid p)),
          C Sub_Interface_Index (Fwp_U32 0)])"

definition redirected_values :: "ip_version \<Rightarrow> u16 \<Rightarrow> connect_request \<Rightarrow>
    (fwp_layer \<times> ip_version \<times> fwp_field \<times> fwp_value) list" where
  "redirected_values v port r =
     [(Ale_Auth_Connect, v, Ip_Remote_Port, Fwp_U16 (ntohs port)),
      (Ale_Auth_Connect, v, Ip_Remote_Address,
        (case v of V4 \<Rightarrow> Fwp_U32 (ntohl (sa_address4 r)) | V6 \<Rightarrow> Fwp_Bytes16 (sa_address6 r)))]"

definition passes :: "bool \<Rightarrow> u32 \<Rightarrow> bool" where
  "passes fault_injection_enabled action \<longleftrightarrow>
     action = FWP_ACTION_PERMIT \<or> action = FWP_ACTION_CONTINUE \<or> fault_injection_enabled"

text \<open>
  The part of the connect hooks after the redirect callout: one call of the connect callout, and a second one
  with the redirected destination. The destination is read through a pointer into the request, so the second
  call sees what the first one left there.
\<close>

definition authorize_connect ::
  "fwp_sdk \<Rightarrow> classify_behaviour \<Rightarrow> bool \<Rightarrow> ip_version \<Rightarrow> fwp_value list \<Rightarrow> bool \<times> u16 \<Rightarrow> fwp_state \<Rightarrow> (u32 \<times> fwp_state) result" where
  "authorize_connect sdk cl fi v vs red s =
     (let call = \<lambda>vs s. test_callout cl (fwps_layer sdk Ale_Auth_Connect v) (fwpm_layer sdk Ale_Auth_Connect v)
                              (default_sublayer (engine s)) vs s;
          (action, _, s1) = call vs s
      in if \<not> fst red then Inr (action, free_connection_request s1)
         else assert_that (passes fi action)
           (case connect_req s1 of
              None \<Rightarrow> Inl Out_Of_Bounds
            | Some r \<Rightarrow>
                (case put_values sdk (redirected_values v (snd red) r) vs of
                   Inl x \<Rightarrow> Inl x
                 | Inr vs' \<Rightarrow>
                     let (action, _, s2) = call vs' s1 in Inr (action, free_connection_request s2))))"

definition test_cgroup_inet_connect ::
  "fwp_sdk \<Rightarrow> classify_behaviour \<Rightarrow> bool \<Rightarrow> bool \<Rightarrow> ip_version \<Rightarrow> u16 \<Rightarrow> guid \<Rightarrow>
   (fwp_layer \<times> ip_version \<times> fwp_field \<times> fwp_value) list \<Rightarrow> (fwp_layer \<times> ip_version \<times> fwp_field \<times> fwp_value) list \<Rightarrow>
   fwp_classify_parameters \<Rightarrow> fwp_state \<Rightarrow> (u32 \<times> fwp_state) result" where
  "test_cgroup_inet_connect sdk cl fi alloc v family redirect_sublayer rvs cvs p s =
     (case allocate_and_initialize_connection_request alloc family p s of
        Inl x \<Rightarrow> Inl x
      | Inr s0 \<Rightarrow>
          (case run_hook sdk cl Ale_Connect_Redirect v redirect_sublayer rvs s0 of
             Inl x \<Rightarrow> Inl x
           | Inr (action, _, s1) \<Rightarrow>
               assert_that (passes fi action)
                 (let red = (case connect_req s1 of None \<Rightarrow> (False, 0) | Some r \<Rightarrow> is_connection_redirected p r)
                  in case incoming_values sdk Ale_Auth_Connect v cvs of
                       Inl x \<Rightarrow> Inl x
                     | Inr vs \<Rightarrow> authorize_connect sdk cl fi v vs red s1)))"

definition test_cgroup_inet4_connect ::
  "fwp_sdk \<Rightarrow> classify_behaviour \<Rightarrow> bool \<Rightarrow> bool \<Rightarrow> fwp_classify_parameters \<Rightarrow> fwp_state \<Rightarrow> (u32 \<times> fwp_state) result" where
  "test_cgroup_inet4_connect sdk cl fi alloc p s =
     test_cgroup_inet_connect sdk cl fi alloc V4 AF_INET (default_sublayer (engine s))
       (redirect_values_v4 p) (connect_values_v4 p) p s"

definition test_cgroup_inet6_connect ::
  "fwp_sdk \<Rightarrow> classify_behaviour \<Rightarrow> bool \<Rightarrow> bool \<Rightarrow> fwp_classify_parameters \<Rightarrow> fwp_state \<Rightarrow> (u32 \<times> fwp_state) result" where
  "test_cgroup_inet6_connect sdk cl fi alloc p s =
     test_cgroup_inet_connect sdk cl fi alloc V6 AF_INET6 (connect_v6_sublayer (engine s))
       (redirect_values_v6 p) (connect_values_v6 p) p s"

section \<open>Flow contexts\<close>

definition test_remove_flow_context :: "u64 \<Rightarrow> u16 \<Rightarrow> guid \<Rightarrow> fwp_state \<Rightarrow> fwp_state result" where
  "test_remove_flow_context flow_id layer_id layer_guid s =
     (let callout_id = (case get_callout_key_from_layer_guid layer_guid (engine s) of
                          None \<Rightarrow> 0 | Some key \<Rightarrow> (ucast (get_callout_id_from_key key (engine s)) :: u32))
      in assert_that (callout_id \<noteq> 0)
           (if map_of (fwpm_flow_contexts (engine s)) flow_id = None then Inr s
            else case delete_flow_context flow_id layer_id callout_id (engine s) of
                   Inl x \<Rightarrow> Inl x
                 | Inr (evs, e) \<Rightarrow> Inr (s\<lparr>engine := e, fwp_log := fwp_log s @ evs\<rparr>)))"

definition test_sock_ops_v4_remove_flow_context :: "fwp_sdk \<Rightarrow> u64 \<Rightarrow> fwp_state \<Rightarrow> fwp_state result" where
  "test_sock_ops_v4_remove_flow_context sdk flow_id s =
     test_remove_flow_context flow_id (fwps_layer sdk Ale_Flow_Established V4) (fwpm_layer sdk Ale_Flow_Established V4) s"

definition test_sock_ops_v6_remove_flow_context :: "fwp_sdk \<Rightarrow> u64 \<Rightarrow> fwp_state \<Rightarrow> fwp_state result" where
  "test_sock_ops_v6_remove_flow_context sdk flow_id s =
     test_remove_flow_context flow_id (fwps_layer sdk Ale_Flow_Established V6) (fwpm_layer sdk Ale_Flow_Established V6) s"

section \<open>Entry points\<close>

text \<open>
  \<open>fault\<close> is the answer of \<^verbatim>\<open>cxplat_fault_injection_inject_fault()\<close>. The engine handle of the \<^verbatim>\<open>Fwpm\<close> calls is
  the single engine object.
\<close>

definition FwpmFilterAdd0 ::
  "layout \<Rightarrow> bool \<Rightarrow> fwpm_filter \<Rightarrow> fwp_state \<Rightarrow> (ntstatus \<times> u64 option \<times> fwp_state) result" where
  "FwpmFilterAdd0 h fault flt s =
     (if fault then Inr (STATUS_NO_MEMORY, None, s)
      else case add_fwpm_filter h flt (engine s) of
             Inl x \<Rightarrow> Inl x
           | Inr (i, evs, e) \<Rightarrow>
               Inr (STATUS_SUCCESS, Some (ucast i), s\<lparr>engine := e, fwp_log := fwp_log s @ evs\<rparr>))"

definition FwpmFilterDeleteById0 :: "u64 \<Rightarrow> fwp_state \<Rightarrow> (ntstatus \<times> fwp_state) result" where
  "FwpmFilterDeleteById0 i s =
     (case remove_fwpm_filter i (engine s) of
        Inl x \<Rightarrow> Inl x
      | Inr (found, evs, e) \<Rightarrow>
          Inr (if found then STATUS_SUCCESS else STATUS_INVALID_PARAMETER,
               s\<lparr>engine := e, fwp_log := fwp_log s @ evs\<rparr>))"

definition FwpmTransactionBegin0 :: "bool \<Rightarrow> fwp_state \<Rightarrow> ntstatus \<times> fwp_state" where
  "FwpmTransactionBegin0 fault s = (if fault then STATUS_NO_MEMORY else STATUS_SUCCESS, s)"

definition FwpmTransactionCommit0 :: "fwp_state \<Rightarrow> ntstatus \<times> fwp_state" where
  "FwpmTransactionCommit0 s = (STATUS_SUCCESS, s)"

definition FwpmTransactionAbort0 :: "fwp_state \<Rightarrow> ntstatus \<times> fwp_state" where
  "FwpmTransactionAbort0 s = (STATUS_SUCCESS, s)"

definition FwpmCalloutAdd0 ::
  "layout \<Rightarrow> bool \<Rightarrow> fwpm_callout \<Rightarrow> fwp_state \<Rightarrow> ntstatus \<times> u32 option \<times> fwp_state" where
  "FwpmCalloutAdd0 h fault callout s =
     (if fault then (STATUS_NO_MEMORY, None, s)
      else let (i, e) = add_fwpm_callout h callout (engine s) in (STATUS_SUCCESS, Some i, s\<lparr>engine := e\<rparr>))"

definition FwpmCalloutDeleteByKey0 :: "bool \<Rightarrow> guid \<Rightarrow> fwp_state \<Rightarrow> ntstatus \<times> fwp_state" where
  "FwpmCalloutDeleteByKey0 fault key s =
     (if fault then (STATUS_NO_MEMORY, s)
      else let (found, e) = remove_fwpm_callout_by_key key (engine s)
           in (if found then STATUS_SUCCESS else STATUS_NOT_FOUND, s\<lparr>engine := e\<rparr>))"

text \<open>\<open>engine_ptr\<close> is the address of the single engine.\<close>

definition FwpmEngineOpen0 :: "bool \<Rightarrow> ptr \<Rightarrow> ntstatus \<times> ptr option" where
  "FwpmEngineOpen0 fault engine_ptr = (if fault then (STATUS_NO_MEMORY, None) else (STATUS_SUCCESS, Some engine_ptr))"

definition FwpmEngineClose0 :: "bool \<Rightarrow> ptr \<Rightarrow> ptr \<Rightarrow> ntstatus" where
  "FwpmEngineClose0 fault engine_ptr engine_handle =
     (if fault then STATUS_NO_MEMORY else if engine_handle \<noteq> engine_ptr then STATUS_INVALID_PARAMETER else STATUS_SUCCESS)"

text \<open>Providers are not recorded; the delete injects a second fault after the removal.\<close>

definition FwpmProviderAdd0 :: "bool \<Rightarrow> fwp_state \<Rightarrow> ntstatus \<times> fwp_state" where
  "FwpmProviderAdd0 fault s = (if fault then STATUS_NO_MEMORY else STATUS_SUCCESS, s)"

definition FwpmProviderDeleteByKey0 :: "bool \<Rightarrow> bool \<Rightarrow> guid \<Rightarrow> fwp_state \<Rightarrow> ntstatus \<times> fwp_state" where
  "FwpmProviderDeleteByKey0 fault fault2 key s =
     (if fault then STATUS_NO_MEMORY else if fault2 then STATUS_NOT_FOUND else STATUS_SUCCESS, s)"

definition FwpmSubLayerAdd0 :: "layout \<Rightarrow> bool \<Rightarrow> fwpm_sublayer \<Rightarrow> fwp_state \<Rightarrow> ntstatus \<times> fwp_state" where
  "FwpmSubLayerAdd0 h fault sub_layer s =
     (if fault then (STATUS_NO_MEMORY, s)
      else (STATUS_SUCCESS, s\<lparr>engine := snd (add_fwpm_sub_layer h sub_layer (engine s))\<rparr>))"

definition FwpmSubLayerDeleteByKey0 :: "bool \<Rightarrow> guid \<Rightarrow> fwp_state \<Rightarrow> ntstatus \<times> fwp_state" where
  "FwpmSubLayerDeleteByKey0 fault key s =
     (if fault then (STATUS_NO_MEMORY, s)
      else let (found, e) = remove_fwpm_sub_layer_by_key key (engine s)
           in (if found then STATUS_SUCCESS else STATUS_NOT_FOUND, s\<lparr>engine := e\<rparr>))"

definition FwpsCalloutRegister3 ::
  "layout \<Rightarrow> bool \<Rightarrow> fwps_callout \<Rightarrow> fwp_state \<Rightarrow> ntstatus \<times> u32 option \<times> fwp_state" where
  "FwpsCalloutRegister3 h fault callout s =
     (if fault then (STATUS_NO_MEMORY, None, s)
      else let (i, e) = register_fwps_callout h callout (engine s) in (STATUS_SUCCESS, Some i, s\<lparr>engine := e\<rparr>))"

definition FwpsCalloutUnregisterById0 :: "bool \<Rightarrow> u32 \<Rightarrow> fwp_state \<Rightarrow> ntstatus \<times> fwp_state" where
  "FwpsCalloutUnregisterById0 fault i s =
     (if fault then (STATUS_NO_MEMORY, s)
      else let (found, e) = remove_fwps_callout (ucast i) (engine s)
           in (if found then STATUS_SUCCESS else STATUS_INVALID_PARAMETER, s\<lparr>engine := e\<rparr>))"

text \<open>\<open>p\<close> is the address that \<^verbatim>\<open>make_unique\<close> returns; assigning to the pointer frees the old handle.\<close>

definition FwpsInjectionHandleCreate0 ::
  "bool \<Rightarrow> ptr \<Rightarrow> u16 \<Rightarrow> u32 \<Rightarrow> fwp_state \<Rightarrow> ntstatus \<times> ptr option \<times> fwp_state" where
  "FwpsInjectionHandleCreate0 fault p family flags s =
     (if fault then (STATUS_NO_MEMORY, None, s)
      else (STATUS_SUCCESS, Some p, s\<lparr>injection_handle := Some (p, family, flags)\<rparr>))"

definition FwpsInjectionHandleDestroy0 :: "bool \<Rightarrow> ptr \<Rightarrow> fwp_state \<Rightarrow> ntstatus \<times> fwp_state" where
  "FwpsInjectionHandleDestroy0 fault p s =
     (if fault then (STATUS_NO_MEMORY, s)
      else if p \<noteq> (case injection_handle s of None \<Rightarrow> nullptr | Some (q, _) \<Rightarrow> q) then (STATUS_INVALID_PARAMETER, s)
      else (STATUS_SUCCESS, s\<lparr>injection_handle := None\<rparr>))"

definition FwpsFlowRemoveContext0 :: "u64 \<Rightarrow> u16 \<Rightarrow> u32 \<Rightarrow> fwp_state \<Rightarrow> (ntstatus \<times> fwp_state) result" where
  "FwpsFlowRemoveContext0 flow_id layer_id callout_id s =
     (case delete_flow_context flow_id layer_id callout_id (engine s) of
        Inl x \<Rightarrow> Inl x
      | Inr (evs, e) \<Rightarrow> Inr (STATUS_SUCCESS, s\<lparr>engine := e, fwp_log := fwp_log s @ evs\<rparr>))"

definition FwpsFlowAssociateContext0 ::
  "layout \<Rightarrow> bool \<Rightarrow> u64 \<Rightarrow> u16 \<Rightarrow> u32 \<Rightarrow> u64 \<Rightarrow> fwp_state \<Rightarrow> ntstatus \<times> fwp_state" where
  "FwpsFlowAssociateContext0 h fault flow_id layer_id callout_id flow_context s =
     (if fault then (STATUS_NO_MEMORY, s)
      else (STATUS_SUCCESS, s\<lparr>engine := associate_flow_context h flow_id callout_id flow_context (engine s)\<rparr>))"

definition FwpsAcquireWritableLayerDataPointer0 :: "bool \<Rightarrow> fwp_state \<Rightarrow> ntstatus \<times> connect_request option" where
  "FwpsAcquireWritableLayerDataPointer0 fault s =
     (if fault then (STATUS_NO_MEMORY, None)
      else (if connect_req s = None then STATUS_INSUFFICIENT_RESOURCES else STATUS_SUCCESS, connect_req s))"

definition FwpsAcquireClassifyHandle0 :: "bool \<Rightarrow> ntstatus \<times> u64 option" where
  "FwpsAcquireClassifyHandle0 fault = (if fault then (STATUS_NO_MEMORY, None) else (STATUS_SUCCESS, Some 0))"

definition FwpsApplyModifiedLayerData0 :: "ptr \<Rightarrow> fwp_state \<Rightarrow> fwp_state result" where
  "FwpsApplyModifiedLayerData0 modifiedLayerData s = assert_that (modifiedLayerData \<noteq> nullptr) (Inr s)"

datatype redirect_state = FWPS_CONNECTION_NOT_REDIRECTED | FWPS_CONNECTION_REDIRECTED_BY_SELF

definition FwpsQueryConnectionRedirectState0 :: "bool \<Rightarrow> redirect_state" where
  "FwpsQueryConnectionRedirectState0 fault =
     (if fault then FWPS_CONNECTION_REDIRECTED_BY_SELF else FWPS_CONNECTION_NOT_REDIRECTED)"

section \<open>The laws of the tables\<close>

text \<open>
  What the engine relies on in its containers. \<open>ok\<close> is the representation invariant, \<open>good\<close> the layouts
  that are allowed.
\<close>

locale keyed_table =
  fixes lookup :: "'t \<Rightarrow> u64 \<Rightarrow> 'v option"
    and ok :: "'t \<Rightarrow> bool"
    and good :: "'h \<Rightarrow> bool"
    and ins :: "'h \<Rightarrow> u64 \<Rightarrow> 'v \<Rightarrow> 't \<Rightarrow> 't"
    and del :: "u64 \<Rightarrow> 't \<Rightarrow> bool \<times> 't"
    and fnd :: "('v \<Rightarrow> bool) \<Rightarrow> 't \<Rightarrow> (u64 \<times> 'v) option"
  assumes ins_ok: "good h \<Longrightarrow> ok t \<Longrightarrow> ok (ins h k v t)"
    and ins_lookup: "good h \<Longrightarrow> ok t \<Longrightarrow>
          lookup (ins h k v t) = (if lookup t k = None then (lookup t)(k \<mapsto> v) else lookup t)"
    and del_ok: "ok t \<Longrightarrow> ok (snd (del k t))"
    and del_lookup: "ok t \<Longrightarrow> lookup (snd (del k t)) = (lookup t)(k := None)"
    and del_found: "fst (del k t) \<longleftrightarrow> lookup t k \<noteq> None"
    and fnd_sound: "ok t \<Longrightarrow> fnd P t = Some (k, v) \<Longrightarrow> lookup t k = Some v \<and> P v"
    and fnd_none: "ok t \<Longrightarrow> lookup t k = Some v \<Longrightarrow> P v \<Longrightarrow> fnd P t \<noteq> None"
begin

lemma ins_del_restores:
  assumes "good h" "ok t" "lookup t k = None"
  shows "fst (del k (ins h k v t)) \<and> lookup (snd (del k (ins h k v t))) = lookup t"
  using assms by (auto simp: del_found del_lookup ins_lookup ins_ok)

lemma ins_keeps_first:
  assumes "good h" "ok t" "good h'"
  shows "lookup (ins h' k w (ins h k v t)) = lookup (ins h k v t)"
  using assms by (auto simp: ins_lookup ins_ok)

lemma fnd_unique:
  assumes "ok t" "lookup t k = Some v" "P v" "\<And>k' v'. lookup t k' = Some v' \<Longrightarrow> P v' \<Longrightarrow> k' = k"
  shows "fnd P t = Some (k, v)"
proof -
  obtain k' v' where f: "fnd P t = Some (k', v')" using fnd_none [of t k v P] assms(1-3) by fastforce
  with fnd_sound [OF assms(1) f] assms(2,4) show ?thesis by fastforce
qed

end

lemma um_insert_lookup:
  assumes "layout_ok h"
  shows "map_of (um_insert h k v t) = (if map_of t k = None then (map_of t)(k \<mapsto> v) else map_of t)"
proof (cases "map_of t k = None")
  case True
  let ?t = "(k, v) # t"
  have s: "set (h (map fst ?t)) = fst ` set ?t" using assms by (metis layout_ok_def list.set_map)
  have "map_of (map (\<lambda>k. (k, the (map_of ?t k))) (h (map fst ?t))) x = map_of ?t x" for x
  proof (cases "x \<in> fst ` set ?t")
    case True
    then have "map_of ?t x \<noteq> None" by (metis map_of_eq_None_iff)
    then show ?thesis using True s by (simp add: map_of_map_restrict restrict_map_def)
  next
    case False
    then have "map_of ?t x = None" by (metis map_of_eq_None_iff)
    then show ?thesis using False s by (simp add: map_of_map_restrict restrict_map_def)
  qed
  then show ?thesis using True by (auto simp: um_insert_def Let_def)
qed (auto simp: um_insert_def)

lemma um_insert_distinct:
  assumes "layout_ok h" "distinct (map fst t)"
  shows "distinct (map fst (um_insert h k v t))"
proof (cases "map_of t k = None")
  case True
  then have "distinct (map fst ((k, v) # t))" using assms(2) by (simp add: map_of_eq_None_iff)
  then have "distinct (h (map fst ((k, v) # t)))" using assms(1) layout_ok_def by blast
  then show ?thesis using True by (simp add: um_insert_def Let_def o_def)
qed (use assms in \<open>simp add: um_insert_def\<close>)

lemma um_erase_simps:
  "fst (um_erase k t) \<longleftrightarrow> map_of t k \<noteq> None"
  "map_of (snd (um_erase k t)) = (map_of t)(k := None)"
  "distinct (map fst t) \<Longrightarrow> distinct (map fst (snd (um_erase k t)))"
  unfolding um_erase_def by (auto simp: map_of_filter_in distinct_map_filter fun_eq_iff map_of_eq_None_iff
      intro: inj_on_subset) (induction t; auto)+

lemma um_find_sound:
  "distinct (map fst t) \<Longrightarrow> um_find P t = Some (k, v) \<Longrightarrow> map_of t k = Some v \<and> P v"
  by (auto simp: um_find_def find_Some_iff) (metis nth_mem map_of_is_SomeI)

lemma um_find_none: "map_of t k = Some v \<Longrightarrow> P v \<Longrightarrow> um_find P t \<noteq> None"
  by (auto simp: um_find_def find_None_iff dest!: map_of_SomeD)

interpretation um: keyed_table map_of "\<lambda>t. distinct (map fst t)" layout_ok um_insert um_erase um_find
proof unfold_locales
  fix t P k and v :: 'a
  show "distinct (map fst t) \<Longrightarrow> um_find P t = Some (k, v) \<Longrightarrow> map_of t k = Some v \<and> P v"
    by (rule um_find_sound)
  show "distinct (map fst t) \<Longrightarrow> map_of t k = Some v \<Longrightarrow> P v \<Longrightarrow> um_find P t \<noteq> None"
    by (rule um_find_none)
qed (simp_all add: um_insert_lookup um_insert_distinct um_erase_simps)

section \<open>Reachable engines\<close>

text \<open>
  The engine states that the entry points reach, each insertion with a layout of its own. The identifier counter
  has 32 bits; the steps are those before it wraps.
\<close>

inductive fwp_reachable :: "fwp_engine \<Rightarrow> bool" where
  start: "fwp_reachable new_engine"
| sublayers: "fwp_reachable e \<Longrightarrow> fwp_reachable (set_sublayer_guids d v4 v6 e)"
| callout_add: "fwp_reachable e \<Longrightarrow> layout_ok h \<Longrightarrow> next_id e \<noteq> - 1 \<Longrightarrow> fwp_reachable (snd (add_fwpm_callout h mc e))"
| callout_del: "fwp_reachable e \<Longrightarrow> fwp_reachable (snd (remove_fwpm_callout_by_key key e))"
| callout_reg: "fwp_reachable e \<Longrightarrow> layout_ok h \<Longrightarrow> next_id e \<noteq> - 1 \<Longrightarrow> fwp_reachable (snd (register_fwps_callout h sc e))"
| callout_unreg: "fwp_reachable e \<Longrightarrow> fwp_reachable (snd (remove_fwps_callout i e))"
| filter_add: "fwp_reachable e \<Longrightarrow> layout_ok h \<Longrightarrow> next_id e \<noteq> - 1 \<Longrightarrow> add_fwpm_filter h f e = Inr (j, evs, e') \<Longrightarrow>
    fwp_reachable e'"
| filter_del: "fwp_reachable e \<Longrightarrow> remove_fwpm_filter i e = Inr (b, evs, e') \<Longrightarrow> fwp_reachable e'"
| sub_layer_add: "fwp_reachable e \<Longrightarrow> layout_ok h \<Longrightarrow> next_id e \<noteq> - 1 \<Longrightarrow> fwp_reachable (snd (add_fwpm_sub_layer h sl e))"
| sub_layer_del: "fwp_reachable e \<Longrightarrow> fwp_reachable (snd (remove_fwpm_sub_layer_by_key key e))"
| flow_add: "fwp_reachable e \<Longrightarrow> layout_ok h \<Longrightarrow> fwp_reachable (associate_flow_context h fl c ctx e)"
| flow_del: "fwp_reachable e \<Longrightarrow> delete_flow_context fl l c e = Inr (evs, e') \<Longrightarrow> fwp_reachable e'"
| classified: "fwp_reachable e \<Longrightarrow> fwp_reachable (e\<lparr>next_flow_id := next_flow_id e + 1\<rparr>)"

definition table_inv :: "u32 \<Rightarrow> 'v table \<Rightarrow> bool" where
  "table_inv n t \<longleftrightarrow> distinct (map fst t) \<and> (\<forall>k. map_of t k \<noteq> None \<longrightarrow> k < ucast n)"

definition engine_inv :: "fwp_engine \<Rightarrow> bool" where
  "engine_inv e \<longleftrightarrow> table_inv (next_id e) (fwps_callouts e) \<and> table_inv (next_id e) (fwpm_callouts e) \<and>
     table_inv (next_id e) (fwpm_filters e) \<and> table_inv (next_id e) (fwpm_sub_layers e) \<and>
     distinct (map fst (fwpm_flow_contexts e)) \<and> next_id e \<noteq> 0"

lemma next_id_grows:
  assumes "n \<noteq> - 1"
  shows "(ucast n :: u64) < ucast (n + 1)" "n + 1 \<noteq> (0 :: u32)"
proof -
  have "unat (n + 1) = unat n + 1" using assms by (metis Suc_eq_plus1 add.commute unatSuc eq_neg_iff_add_eq_0 add.inverse_inverse)
  moreover have "unat (ucast x :: u64) = unat x" for x :: u32
    using unsigned_less [of x, where 'a = nat] by (simp add: unsigned_ucast_eq take_bit_nat_eq_self)
  ultimately show "(ucast n :: u64) < ucast (n + 1)" "n + 1 \<noteq> 0"
    by (auto simp: word_less_nat_alt)
qed

lemma table_inv_fresh: "table_inv n t \<Longrightarrow> map_of t (ucast n) = None"
  unfolding table_inv_def by (meson less_irrefl)

lemma table_inv_mono: "table_inv n t \<Longrightarrow> n \<noteq> - 1 \<Longrightarrow> table_inv (n + 1) t"
  using next_id_grows(1) by (fastforce simp: table_inv_def)

lemma table_inv_insert:
  assumes "table_inv n t" "layout_ok h" "n \<noteq> - 1"
  shows "table_inv (n + 1) (um_insert h (ucast n) v t)"
  using assms(1) next_id_grows(1) [OF assms(3)] table_inv_mono [OF assms(1,3)]
  by (auto simp: table_inv_def um.ins_ok [OF assms(2)] um_insert_lookup [OF assms(2)] split: if_splits)

lemma table_inv_erase: "table_inv n t \<Longrightarrow> table_inv n (snd (um_erase k t))"
  by (auto simp: table_inv_def um_erase_simps split: if_splits)

lemma engine_invD:
  assumes "engine_inv e"
  shows "distinct (map fst (fwps_callouts e))" "distinct (map fst (fwpm_callouts e))"
    "distinct (map fst (fwpm_filters e))" "distinct (map fst (fwpm_sub_layers e))"
    "distinct (map fst (fwpm_flow_contexts e))" "map_of (fwpm_filters e) (ucast (next_id e)) = None"
  using assms table_inv_fresh by (auto simp: engine_inv_def table_inv_def)

lemma fwp_reachable_inv: "fwp_reachable e \<Longrightarrow> engine_inv e"
proof (induction rule: fwp_reachable.induct)
  case start
  then show ?case by (simp add: engine_inv_def new_engine_def table_inv_def)
next
  case (flow_add e h fl c ctx)
  then show ?case by (simp add: engine_inv_def associate_flow_context_def um_insert_distinct)
next
  case (flow_del e fl l c evs e')
  then show ?case
    by (auto simp: engine_inv_def delete_flow_context_def um_erase_simps split: option.splits)
qed (auto simp: engine_inv_def set_sublayer_guids_def add_fwpm_callout_def remove_fwpm_callout_by_key_def
    register_fwps_callout_def remove_fwps_callout_def add_fwpm_filter_def remove_fwpm_filter_def
    add_fwpm_sub_layer_def remove_fwpm_sub_layer_by_key_def Let_def next_id_grows(2)
    intro: table_inv_insert table_inv_mono table_inv_erase split: option.splits)

section \<open>Filters and callouts\<close>

lemma get_fwps_callout_by_key_frame [simp]:
  "get_fwps_callout_by_key k (e\<lparr>next_id := n, fwpm_filters := t\<rparr>) = get_fwps_callout_by_key k e"
  by (simp add: get_fwps_callout_by_key_def)

text \<open>
  C16: a filter that is added and then deleted leaves the filters as they were. In every reachable engine, with
  a callout registered for the key of the filter, \<^verbatim>\<open>FwpmFilterAdd0\<close> returns an identifier under which exactly this
  filter is stored, \<^verbatim>\<open>FwpmFilterDeleteById0\<close> with it succeeds, and a callout registered for that key is notified
  once of the addition and once of the deletion, with the context of the filter. This holds for every layout
  of the hash tables.
\<close>
theorem filter_add_delete_roundtrip:
  assumes "fwp_reachable (engine s)" "layout_ok h"
    and "get_fwps_callout_by_key (action_calloutKey f) (engine s) = Some c"
  shows "\<exists>i s1 s2. FwpmFilterAdd0 h False f s = Inr (STATUS_SUCCESS, Some i, s1) \<and>
           map_of (fwpm_filters (engine s1)) = (map_of (fwpm_filters (engine s)))(i \<mapsto> f) \<and>
           map_of (fwpm_filters (engine s)) i = None \<and>
           FwpmFilterDeleteById0 i s1 = Inr (STATUS_SUCCESS, s2) \<and>
           map_of (fwpm_filters (engine s2)) = map_of (fwpm_filters (engine s)) \<and>
           fwp_log s2 = fwp_log s @ [Notify_Add_Filter (notifyFn c) (action_calloutKey f) (rawContext f),
                                     Notify_Delete_Filter (notifyFn c) (action_calloutKey f) (rawContext f)] \<and>
           s_calloutKey c = action_calloutKey f"
proof -
  have inv: "engine_inv (engine s)" using assms(1) by (rule fwp_reachable_inv)
  note d = engine_invD [OF inv]
  let ?t = "um_insert h (ucast (next_id (engine s))) f (fwpm_filters (engine s))"
  have key: "s_calloutKey c = action_calloutKey f"
    using assms(3) um_find_sound [OF d(1)] by (auto simp: get_fwps_callout_by_key_def)
  have look: "map_of ?t = (map_of (fwpm_filters (engine s)))(ucast (next_id (engine s)) \<mapsto> f)"
    by (simp add: um_insert_lookup assms(2) d(6))
  note del = um.ins_del_restores [OF assms(2) d(3) d(6), of f]
  let ?i = "ucast (next_id (engine s)) :: u64"
  let ?e1 = "(engine s)\<lparr>next_id := next_id (engine s) + 1, fwpm_filters := ?t\<rparr>"
  let ?s1 = "s\<lparr>engine := ?e1, fwp_log := fwp_log s @ [Notify_Add_Filter (notifyFn c) (action_calloutKey f) (rawContext f)]\<rparr>"
  let ?s2 = "?s1\<lparr>engine := ?e1\<lparr>fwpm_filters := snd (um_erase ?i ?t)\<rparr>,
               fwp_log := fwp_log ?s1 @ [Notify_Delete_Filter (notifyFn c) (action_calloutKey f) (rawContext f)]\<rparr>"
  have "FwpmFilterAdd0 h False f s = Inr (STATUS_SUCCESS, Some ?i, ?s1)"
    using assms(3) by (simp add: FwpmFilterAdd0_def add_fwpm_filter_def Let_def)
  moreover have "FwpmFilterDeleteById0 ?i ?s1 = Inr (STATUS_SUCCESS, ?s2)"
    using assms(3) look del key by (simp add: FwpmFilterDeleteById0_def remove_fwpm_filter_def)
  ultimately show ?thesis using look del d(6) key by (intro exI [of _ ?i] exI [of _ ?s1] exI [of _ ?s2]) simp
qed

definition sample_layout :: layout where
  "sample_layout ks = rev ks"

definition sample_callout :: fwps_callout where
  "sample_callout = \<lparr>s_calloutKey = 7, classifyFn = 0x1000, notifyFn = 0x2000, flowDeleteFn = 0x3000\<rparr>"

definition sample_filter :: fwpm_filter where
  "sample_filter = \<lparr>layerKey = 20, f_subLayerKey = 30, action_calloutKey = 7, rawContext = 99\<rparr>"

definition sample_engine :: fwp_engine where
  "sample_engine = snd (register_fwps_callout sample_layout sample_callout new_engine)"

definition sample_fwp :: fwp_state where
  "sample_fwp = \<lparr>engine = sample_engine, connect_req = None, injection_handle = None, fwp_log = []\<rparr>"

lemma sample_layout_ok: "layout_ok sample_layout"
  by (simp add: layout_ok_def sample_layout_def)

lemma sample_engine_reachable: "fwp_reachable sample_engine"
  unfolding sample_engine_def
  by (intro fwp_reachable.callout_reg fwp_reachable.start sample_layout_ok) (simp add: new_engine_def)

lemmas fwp_eval = sample_engine_def register_fwps_callout_def new_engine_def um_insert_def sample_layout_def
  get_fwps_callout_by_key_def um_find_def sample_callout_def sample_filter_def sample_fwp_def Let_def

theorem filter_add_delete_roundtrip_witness:
  "\<exists>i s1 s2. FwpmFilterAdd0 sample_layout False sample_filter sample_fwp = Inr (STATUS_SUCCESS, Some i, s1) \<and>
     FwpmFilterDeleteById0 i s1 = Inr (STATUS_SUCCESS, s2) \<and>
     fwp_log s2 = [Notify_Add_Filter 0x2000 7 99, Notify_Delete_Filter 0x2000 7 99]"
proof -
  have r: "fwp_reachable (engine sample_fwp)" using sample_engine_reachable by (simp add: sample_fwp_def)
  have c: "get_fwps_callout_by_key (action_calloutKey sample_filter) (engine sample_fwp) = Some sample_callout"
    by (simp add: fwp_eval)
  from filter_add_delete_roundtrip [OF r sample_layout_ok c] show ?thesis
    by (auto simp: sample_callout_def sample_filter_def sample_fwp_def)
qed

definition matching :: "guid \<Rightarrow> guid \<Rightarrow> fwpm_filter \<Rightarrow> bool" where
  "matching layer sublayer f \<longleftrightarrow> layerKey f = layer \<and> f_subLayerKey f = sublayer \<and> rawContext f \<noteq> 0"

lemma get_fwpm_filter_with_context_eq:
  "get_fwpm_filter_with_context layer sublayer e = map_option snd (um_find (matching layer sublayer) (fwpm_filters e))"
  by (simp add: get_fwpm_filter_with_context_def matching_def [abs_def])

text \<open>
  which callout classifies. If exactly one filter with a non-zero context matches layer and sublayer and
  exactly one registered callout has its key, \<^verbatim>\<open>test_callout\<close> calls the classify function of that callout once,
  with the context of that filter, a new flow handle and the given values, and returns its action, in
  whatever order the tables are iterated. If no filter matches, nothing is called, the engine is
  unchanged and the action is \<^verbatim>\<open>FWP_ACTION_CALLOUT_UNKNOWN\<close>.
\<close>
theorem test_callout_selects:
  assumes "fwp_reachable (engine s)"
  shows "(\<forall>i f j c. map_of (fwpm_filters (engine s)) i = Some f \<and> matching layer sublayer f \<and>
            (\<forall>i' f'. map_of (fwpm_filters (engine s)) i' = Some f' \<longrightarrow> matching layer sublayer f' \<longrightarrow> i' = i) \<and>
            map_of (fwps_callouts (engine s)) j = Some c \<and> s_calloutKey c = action_calloutKey f \<and>
            (\<forall>j' c'. map_of (fwps_callouts (engine s)) j' = Some c' \<longrightarrow> s_calloutKey c' = action_calloutKey f \<longrightarrow> j' = j)
          \<longrightarrow> (let flow = next_flow_id (engine s) + 1;
                   r = cl \<lparr>cc_fn = classifyFn c, cc_layer = layer_id, cc_values = vs, cc_flow = ucast flow,
                           cc_context = rawContext f\<rparr> (s\<lparr>engine := (engine s)\<lparr>next_flow_id := flow\<rparr>\<rparr>)
               in test_callout cl layer_id layer sublayer vs s = (fst r, Some (ucast flow), snd r))) \<and>
         ((\<forall>i f. map_of (fwpm_filters (engine s)) i = Some f \<longrightarrow> \<not> matching layer sublayer f)
          \<longrightarrow> test_callout cl layer_id layer sublayer vs s = (FWP_ACTION_CALLOUT_UNKNOWN, None, s))"
proof -
  note d = engine_invD [OF fwp_reachable_inv [OF assms]]
  show ?thesis
  proof (intro conjI allI impI, elim conjE)
    fix i f j c
    assume f: "map_of (fwpm_filters (engine s)) i = Some f" "matching layer sublayer f"
        "\<forall>i' f'. map_of (fwpm_filters (engine s)) i' = Some f' \<longrightarrow> matching layer sublayer f' \<longrightarrow> i' = i"
      and c: "map_of (fwps_callouts (engine s)) j = Some c" "s_calloutKey c = action_calloutKey f"
        "\<forall>j' c'. map_of (fwps_callouts (engine s)) j' = Some c' \<longrightarrow> s_calloutKey c' = action_calloutKey f \<longrightarrow> j' = j"
    have "um_find (matching layer sublayer) (fwpm_filters (engine s)) = Some (i, f)"
      by (rule um.fnd_unique [OF d(3) f(1), of "matching layer sublayer"]) (use f(2,3) in blast)+
    moreover have "um_find (\<lambda>c. s_calloutKey c = action_calloutKey f) (fwps_callouts (engine s)) = Some (j, c)"
      by (rule um.fnd_unique [OF d(1) c(1), of "\<lambda>c. s_calloutKey c = action_calloutKey f"]) (use c(2,3) in blast)+
    ultimately show "let flow = next_flow_id (engine s) + 1;
                   r = cl \<lparr>cc_fn = classifyFn c, cc_layer = layer_id, cc_values = vs, cc_flow = ucast flow,
                           cc_context = rawContext f\<rparr> (s\<lparr>engine := (engine s)\<lparr>next_flow_id := flow\<rparr>\<rparr>)
               in test_callout cl layer_id layer sublayer vs s = (fst r, Some (ucast flow), snd r)"
      by (simp add: test_callout_def get_fwpm_filter_with_context_eq get_callout_from_key_def Let_def
          split: prod.split)
  next
    assume none: "\<forall>i f. map_of (fwpm_filters (engine s)) i = Some f \<longrightarrow> \<not> matching layer sublayer f"
    have "um_find (matching layer sublayer) (fwpm_filters (engine s)) = None"
      using none um_find_sound [OF d(3), of "matching layer sublayer"]
      by (cases "um_find (matching layer sublayer) (fwpm_filters (engine s))") fastforce+
    then show "test_callout cl layer_id layer sublayer vs s = (FWP_ACTION_CALLOUT_UNKNOWN, None, s)"
      by (simp add: test_callout_def get_fwpm_filter_with_context_eq)
  qed
qed

theorem test_callout_selects_witness:
  "\<exists>s. fwp_reachable (engine s) \<and> fwpm_filters (engine s) \<noteq> [] \<and>
       fst (test_callout (\<lambda>call s. (FWP_ACTION_PERMIT, s)) 1 20 30 [] s) = FWP_ACTION_PERMIT \<and>
       test_callout (\<lambda>call s. (FWP_ACTION_PERMIT, s)) 1 20 31 [] s = (FWP_ACTION_CALLOUT_UNKNOWN, None, s)"
proof -
  let ?e = "sample_engine\<lparr>next_id := 3, fwpm_filters := [(2, sample_filter)]\<rparr>"
  let ?s = "sample_fwp\<lparr>engine := ?e\<rparr>"
  have "add_fwpm_filter sample_layout sample_filter sample_engine =
      Inr (2, [Notify_Add_Filter 0x2000 7 99], ?e)"
    by (simp add: fwp_eval add_fwpm_filter_def)
  then have r: "fwp_reachable (engine ?s)"
    using fwp_reachable.filter_add [OF sample_engine_reachable sample_layout_ok] by (simp add: fwp_eval)
  have "fst (test_callout (\<lambda>call s. (FWP_ACTION_PERMIT, s)) 1 20 30 [] ?s) = FWP_ACTION_PERMIT"
    using test_callout_selects [OF r, of 20 30 "\<lambda>call s. (FWP_ACTION_PERMIT, s)" 1 "[]"]
    by (simp add: Let_def matching_def fwp_eval split: if_splits)
  moreover have "test_callout (\<lambda>call s. (FWP_ACTION_PERMIT, s)) 1 20 31 [] ?s = (FWP_ACTION_CALLOUT_UNKNOWN, None, ?s)"
    using test_callout_selects [OF r, of 20 31 "\<lambda>call s. (FWP_ACTION_PERMIT, s)" 1 "[]"]
    by (simp add: matching_def fwp_eval)
  ultimately show ?thesis using r by (intro exI [of _ ?s]) simp
qed

section \<open>Flow contexts and field values\<close>

text \<open>
  the life of a flow context. In a reachable engine with no context for the flow, a context that is
  associated twice keeps the first value (\<^verbatim>\<open>insert\<close> does not overwrite, although both calls succeed); removing the
  flow through the test hook tells the callout of the layer exactly that first value and forgets it; removing
  it again calls nobody; and \<^verbatim>\<open>FwpsFlowRemoveContext0\<close> for a flow without a context fails its assertion.
\<close>
theorem flow_context_lifecycle:
  assumes "fwp_reachable (engine s)" "layout_ok h" "layout_ok h'"
    and "map_of (fwpm_flow_contexts (engine s)) fl = None"
    and "get_callout_key_from_layer_guid (fwpm_layer sdk Ale_Flow_Established V4) (engine s) = Some key"
    and "i = (ucast (get_callout_id_from_key key (engine s)) :: u32)" "i \<noteq> 0"
    and "get_fwps_callout_by_id i (engine s) = Some c"
  shows "\<exists>s1 s2 s3. FwpsFlowAssociateContext0 h False fl l i ctx s = (STATUS_SUCCESS, s1) \<and>
           FwpsFlowAssociateContext0 h' False fl l i ctx' s1 = (STATUS_SUCCESS, s2) \<and>
           test_sock_ops_v4_remove_flow_context sdk fl s2 = Inr s3 \<and>
           fwp_log s3 = fwp_log s @ [Flow_Delete (flowDeleteFn c) (fwps_layer sdk Ale_Flow_Established V4) i ctx] \<and>
           map_of (fwpm_flow_contexts (engine s3)) = map_of (fwpm_flow_contexts (engine s)) \<and>
           test_sock_ops_v4_remove_flow_context sdk fl s3 = Inr s3 \<and>
           FwpsFlowRemoveContext0 fl l i s3 = Inl Assert_Failed"
proof -
  note d = engine_invD [OF fwp_reachable_inv [OF assms(1)]]
  let ?t = "um_insert h fl ctx (fwpm_flow_contexts (engine s))"
  let ?t' = "um_insert h' fl ctx' ?t"
  have t: "map_of ?t' = (map_of (fwpm_flow_contexts (engine s)))(fl \<mapsto> ctx)"
    using um.ins_keeps_first [OF assms(2) d(5) assms(3)] assms(4) by (simp add: um_insert_lookup assms(2))
  let ?e = "\<lambda>t. (engine s)\<lparr>fwpm_flow_contexts := t\<rparr>"
  have frame: "get_callout_key_from_layer_guid g (?e t) = get_callout_key_from_layer_guid g (engine s)"
      "get_callout_id_from_key k (?e t) = get_callout_id_from_key k (engine s)"
      "get_fwps_callout_by_id j (?e t) = get_fwps_callout_by_id j (engine s)" for g k t j
    by (simp_all add: get_callout_key_from_layer_guid_def get_callout_id_from_key_def get_fwps_callout_by_id_def)
  let ?s2 = "s\<lparr>engine := ?e ?t'\<rparr>"
  let ?s3 = "s\<lparr>engine := ?e (snd (um_erase fl ?t')),
               fwp_log := fwp_log s @ [Flow_Delete (flowDeleteFn c) (fwps_layer sdk Ale_Flow_Established V4) i ctx]\<rparr>"
  have a: "FwpsFlowAssociateContext0 h False fl l i ctx s = (STATUS_SUCCESS, s\<lparr>engine := ?e ?t\<rparr>)"
      "FwpsFlowAssociateContext0 h' False fl l i ctx' (s\<lparr>engine := ?e ?t\<rparr>) = (STATUS_SUCCESS, ?s2)"
    by (simp_all add: FwpsFlowAssociateContext0_def associate_flow_context_def)
  have r: "test_sock_ops_v4_remove_flow_context sdk fl ?s2 = Inr ?s3"
    using assms(5-8) t by (simp add: test_sock_ops_v4_remove_flow_context_def test_remove_flow_context_def
        delete_flow_context_def frame Let_def)
  have e: "map_of (snd (um_erase fl ?t')) = map_of (fwpm_flow_contexts (engine s))"
    using t assms(4) by (simp add: um_erase_simps fun_upd_idem)
  have "test_sock_ops_v4_remove_flow_context sdk fl ?s3 = Inr ?s3"
    using assms(4-8) e by (simp add: test_sock_ops_v4_remove_flow_context_def test_remove_flow_context_def frame Let_def)
  moreover have "FwpsFlowRemoveContext0 fl l i ?s3 = Inl Assert_Failed"
    using assms(4) e by (simp add: FwpsFlowRemoveContext0_def delete_flow_context_def)
  ultimately show ?thesis using a r e by fastforce
qed

definition sample_sdk :: fwp_sdk where
  "sample_sdk = \<lparr>field_index = (\<lambda>l v f. (case f of Ip_Local_Address \<Rightarrow> 0 | Ip_Local_Port \<Rightarrow> 1 | Ip_Remote_Address \<Rightarrow> 2
       | Ip_Remote_Port \<Rightarrow> 3 | Ip_Protocol \<Rightarrow> 4 | Compartment_Id \<Rightarrow> 5 | Ip_Local_Interface \<Rightarrow> 6 | Ale_App_Id \<Rightarrow> 7
       | Ale_User_Id \<Rightarrow> 8 | Flags \<Rightarrow> (if l = Ale_Auth_Connect then 10 else 9) | Interface_Type \<Rightarrow> 11 | Tunnel_Type \<Rightarrow> 12
       | Ip_Nexthop_Interface \<Rightarrow> 13 | Sub_Interface_Index \<Rightarrow> 14 | Interface_Index \<Rightarrow> 15)),
     field_max = (\<lambda>l v. 16), fwps_layer = (\<lambda>l v. 1), fwpm_layer = (\<lambda>l v. 20)\<rparr>"

theorem flow_context_lifecycle_witness:
  "\<exists>s s1 s2 s3. fwp_reachable (engine s) \<and>
     FwpsFlowAssociateContext0 sample_layout False 5 1 1 111 s = (STATUS_SUCCESS, s1) \<and>
     FwpsFlowAssociateContext0 sample_layout False 5 1 1 222 s1 = (STATUS_SUCCESS, s2) \<and>
     test_sock_ops_v4_remove_flow_context sample_sdk 5 s2 = Inr s3 \<and>
     fwp_log s3 = [Flow_Delete 0x3000 1 1 111]"
proof -
  define s where "s = sample_fwp\<lparr>engine := snd (add_fwpm_callout sample_layout
    \<lparr>m_calloutKey = 7, applicableLayer = 20\<rparr> sample_engine)\<rparr>"
  have r: "fwp_reachable (engine s)"
    using fwp_reachable.callout_add [OF sample_engine_reachable sample_layout_ok] by (simp add: fwp_eval s_def)
  have "\<exists>s1 s2 s3. FwpsFlowAssociateContext0 sample_layout False 5 1 1 111 s = (STATUS_SUCCESS, s1) \<and>
           FwpsFlowAssociateContext0 sample_layout False 5 1 1 222 s1 = (STATUS_SUCCESS, s2) \<and>
           test_sock_ops_v4_remove_flow_context sample_sdk 5 s2 = Inr s3 \<and>
           fwp_log s3 = fwp_log s @ [Flow_Delete (flowDeleteFn sample_callout) (fwps_layer sample_sdk Ale_Flow_Established V4) 1 111] \<and>
           map_of (fwpm_flow_contexts (engine s3)) = map_of (fwpm_flow_contexts (engine s)) \<and>
           test_sock_ops_v4_remove_flow_context sample_sdk 5 s3 = Inr s3 \<and>
           FwpsFlowRemoveContext0 5 1 1 s3 = Inl Assert_Failed"
    by (rule flow_context_lifecycle [OF r sample_layout_ok sample_layout_ok, where key = 7])
      (simp_all add: s_def fwp_eval sample_sdk_def add_fwpm_callout_def get_callout_key_from_layer_guid_def
        get_callout_id_from_key_def get_fwps_callout_by_id_def)
  moreover have "fwp_log s = []" "flowDeleteFn sample_callout = 0x3000" "fwps_layer sample_sdk Ale_Flow_Established V4 = 1"
    by (simp_all add: s_def sample_callout_def sample_sdk_def sample_fwp_def)
  ultimately show ?thesis using r by auto
qed

text \<open>The Windows headers number the fields of one layer differently and within the size of its array.\<close>

definition sdk_ok :: "fwp_sdk \<Rightarrow> bool" where
  "sdk_ok sdk \<longleftrightarrow> (\<forall>l v. inj (field_index sdk l v) \<and> (\<forall>f. field_index sdk l v f < field_max sdk l v))"

lemma put_values_length: "put_values sdk as vs = Inr ws \<Longrightarrow> length ws = length vs"
  by (induction as arbitrary: vs) (auto split: if_splits)

lemma put_values_total:
  "\<forall>(l, v, f, x) \<in> set as. field_index sdk l v f < length vs \<Longrightarrow> \<exists>ws. put_values sdk as vs = Inr ws"
  by (induction as arbitrary: vs) auto

lemma put_values_untouched:
  "put_values sdk as vs = Inr ws \<Longrightarrow> \<forall>(l, v, f, x) \<in> set as. field_index sdk l v f \<noteq> i \<Longrightarrow> ws ! i = vs ! i"
proof (induction as arbitrary: vs)
  case (Cons a as)
  obtain l v f x where [simp]: "a = (l, v, f, x)" by (metis prod_cases4)
  show ?case using Cons.IH [of "vs[field_index sdk l v f := x]"] Cons.prems by (auto split: if_splits)
qed simp

text \<open>
  the receive and accept hooks do not pass the reauthorization flag in the \<^verbatim>\<open>FLAGS\<close> field of their layer. The
  source indexes the values with the field number of the connect layer; whenever the two numbers differ,
  the callout finds the \<^verbatim>\<open>FLAGS\<close> field empty, whatever the flag is.
\<close>
theorem recv_accept_flag_misplaced:
  assumes "sdk_ok sdk"
    and "field_index sdk Ale_Auth_Connect V4 Flags < field_max sdk Ale_Auth_Recv_Accept V4"
    and "field_index sdk Ale_Auth_Connect V4 Flags \<noteq> field_index sdk Ale_Auth_Recv_Accept V4 Flags"
  shows "\<exists>vs. test_cgroup_inet4_recv_accept sdk cl p s =
                 Inr (test_callout cl (fwps_layer sdk Ale_Auth_Recv_Accept V4) (fwpm_layer sdk Ale_Auth_Recv_Accept V4)
                        (default_sublayer (engine s)) vs s) \<and>
              vs ! field_index sdk Ale_Auth_Recv_Accept V4 Flags = Fwp_Empty"
proof -
  have i: "field_index sdk Ale_Auth_Recv_Accept V4 f < field_max sdk Ale_Auth_Recv_Accept V4"
      "field_index sdk Ale_Auth_Recv_Accept V4 f = field_index sdk Ale_Auth_Recv_Accept V4 g \<longleftrightarrow> f = g" for f g
    using assms(1) by (auto simp: sdk_ok_def inj_eq)
  let ?F = "\<lambda>f x. (Ale_Auth_Recv_Accept, V4, f, x)"
  let ?as = "[?F Ip_Local_Address (Fwp_U32 (destination_ipv4_address p)), ?F Ip_Local_Port (Fwp_U16 (destination_port p)),
    ?F Ip_Remote_Address (Fwp_U32 (source_ipv4_address p)), ?F Ip_Remote_Port (Fwp_U16 (source_port p)),
    ?F Ip_Protocol (Fwp_U8 (protocol p)), ?F Compartment_Id (Fwp_U32 (compartment_id p)),
    ?F Ip_Local_Interface (Fwp_U64 (interface_luid p)), ?F Ale_App_Id (Fwp_Blob (app_id p)), ?F Ale_User_Id (Fwp_Blob (user_id p)),
    (Ale_Auth_Connect, V4, Flags, Fwp_U32 (reauthorization_flag p))]"
  let ?vs = "replicate (field_max sdk Ale_Auth_Recv_Accept V4) Fwp_Empty"
  obtain ws where ws: "put_values sdk ?as ?vs = Inr ws"
    using put_values_total [of ?as sdk ?vs] i(1) assms(2) by auto
  have "ws ! field_index sdk Ale_Auth_Recv_Accept V4 Flags = Fwp_Empty"
    using put_values_untouched [OF ws, of "field_index sdk Ale_Auth_Recv_Accept V4 Flags"] i assms(3) by simp
  with ws show ?thesis
    unfolding test_cgroup_inet4_recv_accept_def run_hook_def incoming_values_def Let_def
    by (intro exI [of _ ws]) simp
qed

lemma sample_sdk_ok: "sdk_ok sample_sdk"
  by (auto simp: sdk_ok_def sample_sdk_def inj_def split: fwp_field.splits if_splits)

definition sample_parameters :: fwp_classify_parameters where
  "sample_parameters = \<lparr>destination_ipv4_address = 1, destination_ipv6_address = 0, destination_port = 80,
     source_ipv4_address = 2, source_ipv6_address = 0, source_port = 90, protocol = 6, compartment_id = 1, app_id = 5,
     interface_luid = 6, user_id = 8, reauthorization_flag = 1\<rparr>"

lemma sample_sdk_simps:
  "field_max sample_sdk l v = 16" "fwps_layer sample_sdk l v = 1" "fwpm_layer sample_sdk l v = 20"
  "field_index sample_sdk Ale_Auth_Connect v Flags = 10" "field_index sample_sdk Ale_Auth_Recv_Accept v Flags = 9"
  by (simp_all add: sample_sdk_def)

theorem recv_accept_flag_misplaced_witness:
  "\<exists>vs. test_cgroup_inet4_recv_accept sample_sdk (\<lambda>c s. (FWP_ACTION_PERMIT, s)) sample_parameters sample_fwp =
        Inr (test_callout (\<lambda>c s. (FWP_ACTION_PERMIT, s)) 1 20 (default_sublayer (engine sample_fwp)) vs sample_fwp) \<and>
        vs ! 9 = Fwp_Empty"
  using recv_accept_flag_misplaced [OF sample_sdk_ok, of "\<lambda>c s. (FWP_ACTION_PERMIT, s)" sample_parameters sample_fwp]
  by (simp add: sample_sdk_simps)

section \<open>The connect hooks\<close>

text \<open>
  A classify function that behaves: it permits, leaves the engine alone and does not free the thread's request.
\<close>

definition well_behaved :: "classify_behaviour \<Rightarrow> bool" where
  "well_behaved cl \<longleftrightarrow> (\<forall>c s. fst (cl c s) \<in> {FWP_ACTION_PERMIT, FWP_ACTION_CONTINUE} \<and>
     engine (snd (cl c s)) = engine s \<and> (connect_req (snd (cl c s)) = None \<longleftrightarrow> connect_req s = None))"

definition hooked :: "guid \<Rightarrow> guid \<Rightarrow> fwp_engine \<Rightarrow> bool" where
  "hooked layer sublayer e \<longleftrightarrow> (\<exists>f. get_fwpm_filter_with_context layer sublayer e = Some f \<and>
     get_callout_from_key (action_calloutKey f) e \<noteq> None)"

lemma hooked_flow [simp]: "hooked layer sublayer (e\<lparr>next_flow_id := n\<rparr>) = hooked layer sublayer e"
  by (simp add: hooked_def get_fwpm_filter_with_context_def get_callout_from_key_def)

lemma test_callout_permits:
  assumes "well_behaved cl" "hooked layer sublayer (engine s)"
  shows "\<exists>a fl s'. test_callout cl l layer sublayer vs s = (a, fl, s') \<and> passes fi a \<and>
           a \<in> {FWP_ACTION_PERMIT, FWP_ACTION_CONTINUE} \<and>
           engine s' = (engine s)\<lparr>next_flow_id := next_flow_id (engine s) + 1\<rparr> \<and>
           (connect_req s' = None \<longleftrightarrow> connect_req s = None)"
proof -
  obtain f c where fc: "get_fwpm_filter_with_context layer sublayer (engine s) = Some f"
      "get_callout_from_key (action_calloutKey f) (engine s) = Some c"
    using assms(2) by (auto simp: hooked_def)
  let ?s1 = "s\<lparr>engine := (engine s)\<lparr>next_flow_id := next_flow_id (engine s) + 1\<rparr>\<rparr>"
  obtain a s' where r: "cl \<lparr>cc_fn = classifyFn c, cc_layer = l, cc_values = vs,
      cc_flow = ucast (next_flow_id (engine s) + 1), cc_context = rawContext f\<rparr> ?s1 = (a, s')" by fastforce
  have "fst (a, s') \<in> {FWP_ACTION_PERMIT, FWP_ACTION_CONTINUE} \<and> engine (snd (a, s')) = engine ?s1 \<and>
      (connect_req (snd (a, s')) = None \<longleftrightarrow> connect_req ?s1 = None)"
    using assms(1) r unfolding well_behaved_def by metis
  with fc r show ?thesis by (auto simp: test_callout_def Let_def passes_def)
qed

text \<open>The state after the redirect callout of the connect hook.\<close>

definition redirect_call :: "fwp_sdk \<Rightarrow> classify_behaviour \<Rightarrow> fwp_classify_parameters \<Rightarrow> fwp_state \<Rightarrow> fwp_state" where
  "redirect_call sdk cl p s =
     (case allocate_and_initialize_connection_request True AF_INET p s of
        Inl x \<Rightarrow> s
      | Inr s0 \<Rightarrow> (case run_hook sdk cl Ale_Connect_Redirect V4 (default_sublayer (engine s)) (redirect_values_v4 p) s0 of
                    Inl x \<Rightarrow> s | Inr (a, fl, s1) \<Rightarrow> s1))"

lemma authorize_connect_permits:
  assumes "well_behaved cl" "sdk_ok sdk" "hooked (fwpm_layer sdk Ale_Auth_Connect v) (default_sublayer (engine s)) (engine s)"
    and "fst red \<longrightarrow> connect_req s \<noteq> None" "length vs = field_max sdk Ale_Auth_Connect v"
  shows "\<exists>a s'. authorize_connect sdk cl fi v vs red s = Inr (a, s') \<and> a \<in> {FWP_ACTION_PERMIT, FWP_ACTION_CONTINUE} \<and>
           connect_req s' = None \<and>
           engine s' = (engine s)\<lparr>next_flow_id := next_flow_id (engine s) + (if fst red then 2 else 1)\<rparr>"
proof -
  let ?L = "fwpm_layer sdk Ale_Auth_Connect v" and ?l = "fwps_layer sdk Ale_Auth_Connect v"
  obtain a1 fl1 s1 where s1: "test_callout cl ?l ?L (default_sublayer (engine s)) vs s = (a1, fl1, s1)" "passes fi a1"
      "a1 \<in> {FWP_ACTION_PERMIT, FWP_ACTION_CONTINUE}" "engine s1 = (engine s)\<lparr>next_flow_id := next_flow_id (engine s) + 1\<rparr>"
      "connect_req s1 = None \<longleftrightarrow> connect_req s = None"
    using test_callout_permits [OF assms(1,3)] by metis
  show ?thesis
  proof (cases "fst red")
    case False
    then show ?thesis using s1 by (auto simp: authorize_connect_def free_connection_request_def Let_def)
  next
    case True
    then obtain r where r: "connect_req s1 = Some r" using s1(5) assms(4) by auto
    have idx: "field_index sdk Ale_Auth_Connect v f < length vs" for f
      using assms(2,5) by (simp add: sdk_ok_def)
    obtain vs' where vs': "put_values sdk (redirected_values v (snd red) r) vs = Inr vs'"
      using put_values_total [of "redirected_values v (snd red) r" sdk vs] idx by (auto simp: redirected_values_def)
    have h1: "hooked ?L (default_sublayer (engine s1)) (engine s1)" using assms(3) s1(4) by simp
    obtain a2 fl2 s2 where s2: "test_callout cl ?l ?L (default_sublayer (engine s1)) vs' s1 = (a2, fl2, s2)"
        "a2 \<in> {FWP_ACTION_PERMIT, FWP_ACTION_CONTINUE}" "engine s2 = (engine s1)\<lparr>next_flow_id := next_flow_id (engine s1) + 1\<rparr>"
      using test_callout_permits [OF assms(1) h1] by metis
    then show ?thesis using True s1 r vs' by (auto simp: authorize_connect_def free_connection_request_def Let_def)
  qed
qed

text \<open>
  the IPv4 connect hook. If classify functions behave and filters are present at the redirect and the
  connect layer, the hook returns a permitting action without failing an assertion, frees the thread's
  request, and calls the callouts two times, or three times if the connection was redirected. The
  connection counts as redirected exactly when the redirect callout changed both the port and the address: a
  callout that redirects to another host on the same port is not noticed.
\<close>
theorem connect_hook_calls:
  assumes "well_behaved cl" "sdk_ok sdk" "connect_req s = None"
    and "hooked (fwpm_layer sdk Ale_Connect_Redirect V4) (default_sublayer (engine s)) (engine s)"
    and "hooked (fwpm_layer sdk Ale_Auth_Connect V4) (default_sublayer (engine s)) (engine s)"
  shows "\<exists>a s' r. test_cgroup_inet4_connect sdk cl fi True p s = Inr (a, s') \<and>
           a \<in> {FWP_ACTION_PERMIT, FWP_ACTION_CONTINUE} \<and> connect_req s' = None \<and>
           connect_req (redirect_call sdk cl p s) = Some r \<and>
           next_flow_id (engine s') = next_flow_id (engine s) +
             (if sa_port r \<noteq> destination_port p \<and>
                 (if ss_family r = AF_INET then sa_address4 r \<noteq> destination_ipv4_address p
                  else sa_address6 r \<noteq> destination_ipv6_address p) then 3 else 2)"
proof -
  define s0 where "s0 = s\<lparr>connect_req := Some \<lparr>ss_family = AF_INET, sa_port = destination_port p,
                                          sa_address4 = 0, sa_address6 = 0\<rparr>\<rparr>"
  have s0: "allocate_and_initialize_connection_request True AF_INET p s = Inr s0" "engine s0 = engine s" "connect_req s0 \<noteq> None"
    using assms(3) by (simp_all add: allocate_and_initialize_connection_request_def s0_def)
  have idx: "field_index sdk l v f < field_max sdk l v" for l v f using assms(2) by (simp add: sdk_ok_def)
  obtain rvs where rvs: "incoming_values sdk Ale_Connect_Redirect V4 (redirect_values_v4 p) = Inr rvs"
    using put_values_total [of "redirect_values_v4 p" sdk "replicate (field_max sdk Ale_Connect_Redirect V4) Fwp_Empty"] idx
    by (auto simp: incoming_values_def redirect_values_v4_def Let_def)
  obtain cvs where cvs: "incoming_values sdk Ale_Auth_Connect V4 (connect_values_v4 p) = Inr cvs"
    using put_values_total [of "connect_values_v4 p" sdk "replicate (field_max sdk Ale_Auth_Connect V4) Fwp_Empty"] idx
    by (auto simp: incoming_values_def connect_values_v4_def Let_def)
  have len: "length cvs = field_max sdk Ale_Auth_Connect V4"
    using put_values_length cvs by (fastforce simp: incoming_values_def)
  obtain a1 fl1 s1 where s1: "test_callout cl (fwps_layer sdk Ale_Connect_Redirect V4) (fwpm_layer sdk Ale_Connect_Redirect V4)
        (default_sublayer (engine s)) rvs s0 = (a1, fl1, s1)" "passes fi a1"
      "engine s1 = (engine s)\<lparr>next_flow_id := next_flow_id (engine s) + 1\<rparr>" "connect_req s1 \<noteq> None"
    using test_callout_permits [OF assms(1), of "fwpm_layer sdk Ale_Connect_Redirect V4" "default_sublayer (engine s)" s0]
      assms(4) s0(2,3) by metis
  then obtain r where r: "connect_req s1 = Some r" by auto
  have call: "redirect_call sdk cl p s = s1"
    using s0(1) rvs s1(1) by (simp add: redirect_call_def run_hook_def)
  let ?red = "is_connection_redirected p r"
  have h: "hooked (fwpm_layer sdk Ale_Auth_Connect V4) (default_sublayer (engine s1)) (engine s1)"
    using assms(5) s1(3) by simp
  obtain a s' where res: "authorize_connect sdk cl fi V4 cvs ?red s1 = Inr (a, s')"
      "a \<in> {FWP_ACTION_PERMIT, FWP_ACTION_CONTINUE}" "connect_req s' = None"
      "engine s' = (engine s1)\<lparr>next_flow_id := next_flow_id (engine s1) + (if fst ?red then 2 else 1)\<rparr>"
    using authorize_connect_permits [OF assms(1,2) h, of ?red cvs fi] r len by auto
  have "test_cgroup_inet4_connect sdk cl fi True p s = Inr (a, s')"
    using s0(1) rvs s1(1,2) r cvs res(1)
    by (simp add: test_cgroup_inet4_connect_def test_cgroup_inet_connect_def run_hook_def)
  moreover have "fst ?red \<longleftrightarrow> sa_port r \<noteq> destination_port p \<and>
      (if ss_family r = AF_INET then sa_address4 r \<noteq> destination_ipv4_address p
       else sa_address6 r \<noteq> destination_ipv6_address p)"
    by (auto simp: is_connection_redirected_def)
  ultimately show ?thesis using res(2-4) r call s1(3) by (auto simp: algebra_simps)
qed

text \<open>A redirect callout that sends the connection to another address on the same port.\<close>

definition sample_redirect :: classify_behaviour where
  "sample_redirect c s = (FWP_ACTION_PERMIT,
     s\<lparr>connect_req := map_option (\<lambda>r. r\<lparr>sa_address4 := 0x7F000001\<rparr>) (connect_req s)\<rparr>)"

theorem connect_hook_calls_witness:
  "\<exists>s a s'. test_cgroup_inet4_connect sample_sdk sample_redirect False True sample_parameters s = Inr (a, s') \<and>
     next_flow_id (engine s') = next_flow_id (engine s) + 2"
proof -
  define s where "s = sample_fwp\<lparr>engine := sample_engine\<lparr>default_sublayer := 30, fwpm_filters := [(2, sample_filter)]\<rparr>\<rparr>"
  have wb: "well_behaved sample_redirect" by (simp add: well_behaved_def sample_redirect_def)
  have hk: "hooked 20 30 (engine s)"
    by (simp add: hooked_def s_def fwp_eval get_fwpm_filter_with_context_def get_callout_from_key_def)
  have ds: "default_sublayer (engine s) = 30" "connect_req s = None" by (simp_all add: s_def sample_fwp_def)
  obtain a s' r where r: "test_cgroup_inet4_connect sample_sdk sample_redirect False True sample_parameters s = Inr (a, s')"
      "connect_req (redirect_call sample_sdk sample_redirect sample_parameters s) = Some r"
      "next_flow_id (engine s') = next_flow_id (engine s) +
             (if sa_port r \<noteq> destination_port sample_parameters \<and>
                 (if ss_family r = AF_INET then sa_address4 r \<noteq> destination_ipv4_address sample_parameters
                  else sa_address6 r \<noteq> destination_ipv6_address sample_parameters) then 3 else 2)"
    using connect_hook_calls [OF wb sample_sdk_ok ds(2), of False sample_parameters] hk ds(1)
    by (auto simp: sample_sdk_simps)
  have "sa_port r = destination_port sample_parameters"
    using r(2) hk ds
    by (auto simp: redirect_call_def allocate_and_initialize_connection_request_def run_hook_def test_callout_def
        hooked_def sample_redirect_def Let_def sample_sdk_simps split: sum.splits prod.splits option.splits)
  with r show ?thesis by auto
qed

end
