(* ===== verification/Symbol_Decoder.thy ===== *)
theory Symbol_Decoder
  imports Processor
begin

text \<open>
  The text for an address in the program, \<^verbatim>\<open>_cxplat_decode_symbol\<close> of \<^verbatim>\<open>cxplat/src/cxplat_winuser/symbol_decoder.h\<close>, which the fault log and the
  leak report print. The library \<^verbatim>\<open>DbgHelp\<close> is a parameter: what \<^verbatim>\<open>SymFromAddr\<close> and \<^verbatim>\<open>SymGetLineFromAddr64\<close> answer for an address, and whether
  the buffer for the name can be allocated.
\<close>

record dbghelp =
  sym_from_addr :: "u64 \<Rightarrow> u32 + string \<times> u64"
  sym_line_from_addr :: "u64 \<Rightarrow> (u32 \<times> string) option"
  sym_out_of_memory :: bool

text \<open>The name, the displacement from it and, if it is known, the line number with the file name; these are set only if the call succeeds.\<close>

type_synonym decoded_symbol = "string \<times> u64 \<times> (u32 \<times> string) option"

definition cxplat_decode_symbol :: "dbghelp \<Rightarrow> u64 \<Rightarrow> cxplat_status \<times> decoded_symbol option" where
  "cxplat_decode_symbol dbg address =
     (if sym_out_of_memory dbg then (Cxplat_No_Memory, None)
      else case sym_from_addr dbg address of
             Inl e \<Rightarrow> (Cxplat_From_Win32 e, None)
           | Inr (name, displacement) \<Rightarrow> (Cxplat_Success, Some (name, displacement, sym_line_from_addr dbg address)))"

text \<open>A library that knows no address.\<close>

definition no_symbols :: dbghelp where
  "no_symbols = \<lparr>sym_from_addr = \<lambda>_. Inl 487, sym_line_from_addr = \<lambda>_. None, sym_out_of_memory = False\<rparr>"

end
