(* ===== verification/Fault_Injection.thy ===== *)
theory Fault_Injection
  imports Symbol_Decoder
begin

text \<open>
  Fault injection: \<^verbatim>\<open>cxplat/src/cxplat_winuser/fault_injection.cpp\<close>. Every allocation and many entry points ask
  \<^verbatim>\<open>cxplat_fault_injection_inject_fault\<close> whether to fail. The injector fails each call path once: it
  identifies a path by the offsets of its frames in the modules under test, remembers the paths it has failed,
  and keeps them in a log file, so that the next run of the process goes on where this one stopped.

  The log file is the list of its lines; symbols and file names are taken to be in one line. The captured stack, the sizes of modules and
  the symbols of theory \<open>Symbol_Decoder\<close> come from the operating system and are parameters.
\<close>

unbundle bit_operations_syntax

section \<open>Numbers in text\<close>

definition hex_value :: "char \<Rightarrow> nat option" where
  "hex_value c = (let k = (of_char c :: nat) in
     if 48 \<le> k \<and> k < 58 then Some (k - 48)
     else if 97 \<le> k \<and> k < 103 then Some (k - 87)
     else if 65 \<le> k \<and> k < 71 then Some (k - 55) else None)"

definition is_space :: "char \<Rightarrow> bool" where
  "is_space c = (let k = (of_char c :: nat) in k = 32 \<or> 9 \<le> k \<and> k \<le> 13)"

text \<open>\<^verbatim>\<open>std::stoull(s, nullptr, 16)\<close>.\<close>

definition stoull16 :: "string \<Rightarrow> u64 result" where
  "stoull16 s =
     (let s1 = dropWhile is_space s;
          neg = (s1 \<noteq> [] \<and> hd s1 = CHR ''-'');
          s2 = (if s1 \<noteq> [] \<and> hd s1 \<in> {CHR ''-'', CHR ''+''} then tl s1 else s1);
          s3 = (if take 2 s2 \<in> {''0x'', ''0X''} \<and> length s2 > 2 \<and> hex_value (s2 ! 2) \<noteq> None then drop 2 s2 else s2);
          ds = takeWhile (\<lambda>c. hex_value c \<noteq> None) s3;
          n = foldl (\<lambda>a c. 16 * a + the (hex_value c)) 0 ds
      in if ds = [] then Inl (Runtime_Error ''invalid stoull argument'')
         else if n \<ge> 2 ^ 64 then Inl (Runtime_Error ''stoull argument out of range'')
         else Inr (if neg then - word_of_nat n else word_of_nat n))"

text \<open>The pieces that \<^verbatim>\<open>std::getline(stream, frame, ' ')\<close> returns one after the other.\<close>

function getline_pieces :: "string \<Rightarrow> string list" where
  "getline_pieces s = (if s = [] then []
     else takeWhile (\<lambda>c. c \<noteq> CHR 0x20) s # getline_pieces (drop 1 (dropWhile (\<lambda>c. c \<noteq> CHR 0x20) s)))"
  by pat_completeness auto
termination
proof (relation "measure length")
  fix s :: string assume "s \<noteq> []"
  then show "(drop 1 (dropWhile (\<lambda>c. c \<noteq> CHR 0x20) s), s) \<in> measure length"
    using length_dropWhile_le [of "\<lambda>c. c \<noteq> CHR 0x20" s] by (cases s) (auto simp del: length_dropWhile_le)
qed simp

declare getline_pieces.simps [simp del]

section \<open>State\<close>

text \<open>\<^verbatim>\<open>_modules_under_test\<close> is a \<^verbatim>\<open>std::map\<close> on pairs of start and end address: a list in the order of its keys.\<close>

type_synonym module_table = "((u64 \<times> u64) \<times> u64) list"

record fault_injection =
  modules_under_test :: module_table
  iteration :: u64
  log_file :: "string list"
  fault_hash :: "u64 list set"
  stack_depth :: u64
  recursion :: int
  last_fault_stack :: "string list"

definition CXPLAT_FAULT_STACK_CAPTURE_FRAME_COUNT :: nat where
  "CXPLAT_FAULT_STACK_CAPTURE_FRAME_COUNT = 16"

definition CXPLAT_FAULT_STACK_CAPTURE_FRAME_COUNT_FOR_HASH :: u64 where
  "CXPLAT_FAULT_STACK_CAPTURE_FRAME_COUNT_FOR_HASH = 4"

definition key_less :: "u64 \<times> u64 \<Rightarrow> u64 \<times> u64 \<Rightarrow> bool" where
  "key_less p q \<longleftrightarrow> fst p < fst q \<or> fst p = fst q \<and> snd p < snd q"

text \<open>\<^verbatim>\<open>m[key]++\<close> and the decrement of \<^verbatim>\<open>std::map\<close> entries.\<close>

fun map_increment :: "u64 \<times> u64 \<Rightarrow> module_table \<Rightarrow> module_table" where
  "map_increment k [] = [(k, 1)]"
| "map_increment k ((k', n) # m) =
     (if key_less k k' then (k, 1) # (k', n) # m
      else if k = k' then (k', n + 1) # m else (k', n) # map_increment k m)"

fun map_decrement :: "u64 \<times> u64 \<Rightarrow> module_table \<Rightarrow> module_table" where
  "map_decrement k [] = []"
| "map_decrement k ((k', n) # m) =
     (if k = k' then (if n - 1 = 0 then m else (k', n - 1) # m) else (k', n) # map_decrement k m)"

section \<open>Operations\<close>

definition add_module_under_test :: "u64 \<Rightarrow> u64 \<Rightarrow> fault_injection \<Rightarrow> fault_injection" where
  "add_module_under_test module_base_address module_size s =
     s\<lparr>modules_under_test := map_increment (module_base_address, module_base_address + module_size) (modules_under_test s)\<rparr>"

definition remove_module_under_test :: "u64 \<Rightarrow> u64 \<Rightarrow> fault_injection \<Rightarrow> fault_injection" where
  "remove_module_under_test module_base_address module_size s =
     s\<lparr>modules_under_test := map_decrement (module_base_address, module_base_address + module_size) (modules_under_test s)\<rparr>"

text \<open>
  \<^verbatim>\<open>find_base_address\<close>: \<^verbatim>\<open>lower_bound\<close> of \<open>(address, 0)\<close>, one step back. The second component of a key is the end
  of the module, and the last line adds it to the start.
\<close>

definition find_base_address :: "module_table \<Rightarrow> u64 \<Rightarrow> u64" where
  "find_base_address m address =
     (case takeWhile (\<lambda>(k, n). key_less k (address, 0)) m of
        [] \<Rightarrow> 0
      | before \<Rightarrow>
          let (first, second) = fst (last before)
          in if address \<ge> first \<and> address < first + second then first else 0)"

definition canonical_frame :: "module_table \<Rightarrow> u64 \<Rightarrow> u64 list" where
  "canonical_frame m frame = (let b = find_base_address m frame in if b \<noteq> 0 then [frame - b] else [])"

definition canonical_stack :: "fault_injection \<Rightarrow> u64 list \<Rightarrow> u64 list result" where
  "canonical_stack s stack =
     (if unat (stack_depth s) \<le> length stack
      then Inr (concat (map (canonical_frame (modules_under_test s)) (take (unat (stack_depth s)) stack)))
      else Inl Out_Of_Bounds)"

text \<open>
  A frame in the log, and in \<^verbatim>\<open>_last_fault_stack\<close>. The stream is switched to hexadecimal for the address and stays so for the displacement and
  the line number; the other text has them in decimal.
\<close>

definition log_frame :: "dbghelp \<Rightarrow> u64 \<Rightarrow> string" where
  "log_frame dbg frame =
     (case cxplat_decode_symbol dbg frame of
        (Cxplat_Success, Some (name, displacement, line)) \<Rightarrow>
          num_str 16 (unat frame) @ '' '' @ name @ '' + '' @ num_str 16 (unat displacement) @
          (case line of None \<Rightarrow> '''' | Some (line_number, file_name) \<Rightarrow> '' '' @ file_name @ '' '' @ num_str 16 (unat line_number))
      | _ \<Rightarrow> '''')"

definition string_stack_frame :: "dbghelp \<Rightarrow> u64 \<Rightarrow> string" where
  "string_stack_frame dbg frame =
     (case cxplat_decode_symbol dbg frame of
        (Cxplat_Success, Some (name, displacement, line)) \<Rightarrow>
          name @ '' + '' @ num_str 10 (unat displacement) @
          (case line of None \<Rightarrow> '''' | Some (line_number, file_name) \<Rightarrow> '' '' @ file_name @ '' '' @ num_str 10 (unat line_number))
      | _ \<Rightarrow> '''')"

definition log_record :: "dbghelp \<Rightarrow> u64 list \<Rightarrow> u64 list \<Rightarrow> string list" where
  "log_record dbg canonical stack =
     [concat (map (\<lambda>i. num_str 16 (unat i) @ '' '') canonical)] @
     map (\<lambda>frame. ''# '' @ log_frame dbg frame) (takeWhile (\<lambda>f. f \<noteq> 0) stack) @ ['''']"

definition log_stack_trace :: "dbghelp \<Rightarrow> u64 list \<Rightarrow> u64 list \<Rightarrow> fault_injection \<Rightarrow> fault_injection" where
  "log_stack_trace dbg canonical stack s =
     s\<lparr>last_fault_stack := map (string_stack_frame dbg) (takeWhile (\<lambda>f. f \<noteq> 0) stack),
       log_file := log_file s @ log_record dbg canonical stack\<rparr>"

text \<open>
  \<^verbatim>\<open>is_new_stack\<close>: \<open>frames\<close> are the frames that \<^verbatim>\<open>CaptureStackBackTrace\<close> wrote, at most sixteen; the rest of the
  vector stays zero.
\<close>

definition captured :: "u64 list \<Rightarrow> u64 list" where
  "captured frames = frames @ replicate (CXPLAT_FAULT_STACK_CAPTURE_FRAME_COUNT - length frames) 0"

text \<open>
  \<^verbatim>\<open>cxplat_fault_injection_recursion_guard\<close>: its constructor, its destructor, which runs on every return from
  \<^verbatim>\<open>is_new_stack\<close>, and its test.
\<close>

definition recursion_guard_enter :: "fault_injection \<Rightarrow> fault_injection" where
  "recursion_guard_enter s = s\<lparr>recursion := recursion s + 1\<rparr>"

definition recursion_guard_leave :: "fault_injection \<Rightarrow> fault_injection" where
  "recursion_guard_leave s = s\<lparr>recursion := recursion s - 1\<rparr>"

definition is_recursing :: "fault_injection \<Rightarrow> bool" where
  "is_recursing s \<longleftrightarrow> recursion s > 1"

definition is_new_stack :: "dbghelp \<Rightarrow> u64 list \<Rightarrow> fault_injection \<Rightarrow> (bool \<times> fault_injection) result" where
  "is_new_stack dbg frames s0 =
     (let s = recursion_guard_enter s0 in
      if is_recursing s then Inr (False, recursion_guard_leave s)
      else if frames = [] then Inr (False, recursion_guard_leave s)
      else case canonical_stack s (captured frames) of
             Inl x \<Rightarrow> Inl x
           | Inr canonical \<Rightarrow>
               if canonical \<in> fault_hash s then Inr (False, recursion_guard_leave s)
               else Inr (True, recursion_guard_leave (log_stack_trace dbg canonical (captured frames)
                                 (s\<lparr>fault_hash := insert canonical (fault_hash s)\<rparr>))))"

text \<open>
  \<^verbatim>\<open>_stack_hasher\<close>, with \<^verbatim>\<open>std::hash\<close> of an address as a parameter. It is the hash of the set of known paths, which compares paths of equal hash.
\<close>

definition stack_hasher :: "(u64 \<Rightarrow> u64) \<Rightarrow> u64 list \<Rightarrow> u64" where
  "stack_hasher std_hash key = foldl (\<lambda>hash_value value. hash_value XOR std_hash value) 0 key"

definition inject_fault :: "dbghelp \<Rightarrow> u64 list \<Rightarrow> fault_injection \<Rightarrow> (bool \<times> fault_injection) result" where
  "inject_fault dbg frames s = is_new_stack dbg frames s"

definition fault_reset :: "fault_injection \<Rightarrow> fault_injection" where
  "fault_reset s = s\<lparr>fault_hash := {}, iteration := 0, log_file := []\<rparr>"

section \<open>The log file\<close>

fun all_results :: "'a result list \<Rightarrow> 'a list result" where
  "all_results [] = Inr []"
| "all_results (Inl e # xs) = Inl e"
| "all_results (Inr x # xs) = (case all_results xs of Inl e \<Rightarrow> Inl e | Inr ys \<Rightarrow> Inr (x # ys))"

definition parse_stack :: "string \<Rightarrow> u64 list result" where
  "parse_stack line = all_results (map stoull16 (getline_pieces line))"

definition starts_with :: "string \<Rightarrow> string \<Rightarrow> bool" where
  "starts_with line p \<longleftrightarrow> take (length p) line = p"

fun load_lines :: "string list \<Rightarrow> u64 \<times> u64 list set \<Rightarrow> (u64 \<times> u64 list set) result" where
  "load_lines [] st = Inr st"
| "load_lines (line # lines) (it, known) =
     (if starts_with line ''# Iteration: '' then load_lines lines (it + 1, known)
      else if starts_with line ''#'' then load_lines lines (it, known)
      else case parse_stack line of
             Inl e \<Rightarrow> Inl e
           | Inr st \<Rightarrow> load_lines lines (it, insert st known))"

definition load_fault_log :: "fault_injection \<Rightarrow> fault_injection result" where
  "load_fault_log s =
     (case load_lines (log_file s) (iteration s, fault_hash s) of
        Inl e \<Rightarrow> Inl e
      | Inr (it, known) \<Rightarrow>
          Inr (s\<lparr>iteration := it + 1, fault_hash := known,
                log_file := log_file s @ [''# Iteration: '' @ num_str 10 (unat (it + 1))]\<rparr>))"

text \<open>The constructor, for a process whose log file has the given lines.\<close>

definition fault_injection_construct :: "u64 \<Rightarrow> string list \<Rightarrow> fault_injection result" where
  "fault_injection_construct depth lines =
     load_fault_log \<lparr>modules_under_test = [], iteration = 0, log_file = lines, fault_hash = {},
       stack_depth = (if depth = 0 then CXPLAT_FAULT_STACK_CAPTURE_FRAME_COUNT_FOR_HASH else depth), recursion = 0, last_fault_stack = []\<rparr>"

section \<open>The singleton\<close>

datatype fault_status = Fault_Success | Fault_No_Memory | Fault_Invalid_State

type_synonym fault_singleton = "fault_injection option"

text \<open>\<open>lines\<close> is the log file of the process when the injector is created.\<close>

definition cxplat_fault_injection_initialize ::
  "u64 \<Rightarrow> string list \<Rightarrow> fault_singleton \<Rightarrow> fault_status \<times> fault_singleton" where
  "cxplat_fault_injection_initialize depth lines g =
     (case g of
        Some s \<Rightarrow> (Fault_Invalid_State, g)
      | None \<Rightarrow> (case fault_injection_construct depth lines of
                   Inl e \<Rightarrow> (Fault_No_Memory, None)
                 | Inr s \<Rightarrow> (Fault_Success, Some s)))"

definition cxplat_fault_injection_uninitialize :: "fault_singleton \<Rightarrow> fault_singleton" where
  "cxplat_fault_injection_uninitialize g = None"

definition cxplat_fault_injection_inject_fault ::
  "dbghelp \<Rightarrow> u64 list \<Rightarrow> fault_singleton \<Rightarrow> (bool \<times> fault_singleton) result" where
  "cxplat_fault_injection_inject_fault dbg frames g =
     (case g of
        None \<Rightarrow> Inr (False, None)
      | Some s \<Rightarrow> (case inject_fault dbg frames s of
                     Inl e \<Rightarrow> Inl e
                   | Inr (b, s') \<Rightarrow> Inr (b, Some s')))"

definition cxplat_fault_injection_is_enabled :: "fault_singleton \<Rightarrow> bool" where
  "cxplat_fault_injection_is_enabled g \<longleftrightarrow> g \<noteq> None"

definition cxplat_fault_injection_reset :: "fault_singleton \<Rightarrow> fault_singleton" where
  "cxplat_fault_injection_reset g = map_option fault_reset g"

text \<open>\<open>info\<close> is what \<^verbatim>\<open>GetModuleInformation\<close> reports for the module: its base and size, or a failure.\<close>

definition cxplat_fault_injection_add_module ::
  "(u64 \<times> u32) option \<Rightarrow> fault_singleton \<Rightarrow> fault_status \<times> fault_singleton" where
  "cxplat_fault_injection_add_module info g =
     (case (g, info) of
        (None, _) \<Rightarrow> (Fault_Success, g)
      | (Some s, None) \<Rightarrow> (Fault_No_Memory, g)
      | (Some s, Some (b, n)) \<Rightarrow> (Fault_Success, Some (add_module_under_test b (ucast n) s)))"

definition cxplat_fault_injection_remove_module ::
  "(u64 \<times> u32) option \<Rightarrow> fault_singleton \<Rightarrow> fault_status \<times> fault_singleton" where
  "cxplat_fault_injection_remove_module info g =
     (case (g, info) of
        (None, _) \<Rightarrow> (Fault_Success, g)
      | (Some s, None) \<Rightarrow> (Fault_No_Memory, g)
      | (Some s, Some (b, n)) \<Rightarrow> (Fault_Success, Some (remove_module_under_test b (ucast n) s)))"

section \<open>The recursion guard and the hash of a path\<close>

text \<open>The guard is balanced on every return: what remains of it is the test of the counter on entry.\<close>

lemma is_new_stack_unguarded:
  "is_new_stack dbg frames s =
     (if recursion s > 0 then Inr (False, s)
      else if frames = [] then Inr (False, s)
      else case canonical_stack s (captured frames) of
             Inl x \<Rightarrow> Inl x
           | Inr canonical \<Rightarrow>
               if canonical \<in> fault_hash s then Inr (False, s)
               else Inr (True, log_stack_trace dbg canonical (captured frames)
                                 (s\<lparr>fault_hash := insert canonical (fault_hash s)\<rparr>)))"
proof -
  have "canonical_stack (recursion_guard_enter s) = canonical_stack s"
    by (simp add: recursion_guard_enter_def canonical_stack_def fun_eq_iff)
  then show ?thesis
    by (simp add: is_new_stack_def is_recursing_def recursion_guard_enter_def recursion_guard_leave_def log_stack_trace_def Let_def
        split: sum.split)
qed

lemma stack_hasher_append: "stack_hasher h (xs @ ys) = stack_hasher h xs XOR stack_hasher h ys"
proof -
  have "foldl (\<lambda>v x. v XOR h x) a ys = a XOR foldl (\<lambda>v x. v XOR h x) 0 ys" for a
  proof (induction ys arbitrary: a)
    case (Cons y ys)
    have "foldl (\<lambda>v x. v XOR h x) (0 XOR h y) ys = h y XOR foldl (\<lambda>v x. v XOR h x) 0 ys" by (simp only: xor.left_neutral Cons [of "h y"])
    then show ?case by (simp only: foldl_Cons Cons [of "a XOR h y"] xor.assoc)
  qed simp
  then show ?thesis unfolding stack_hasher_def foldl_append by blast
qed

text \<open>
  The hash forgets the order of the frames, and a frame that occurs twice in a row vanishes from it: different paths collide, and it is the
  comparison of the paths that tells them apart.
\<close>

lemma stack_hasher_collisions:
  "stack_hasher h (xs @ ys) = stack_hasher h (ys @ xs)"
  "stack_hasher h (xs @ [f, f] @ ys) = stack_hasher h (xs @ ys)"
proof -
  have "stack_hasher h [f, f] = 0" by (simp add: stack_hasher_def)
  then show "stack_hasher h (xs @ [f, f] @ ys) = stack_hasher h (xs @ ys)" by (simp only: stack_hasher_append) simp
qed (simp add: stack_hasher_append xor.commute)

section \<open>Printing and parsing numbers\<close>

lemma hex_value_digit: "d < 16 \<Longrightarrow> hex_value (digit_char d) = Some d"
  by (auto simp: hex_value_def digit_char_def Let_def)

lemma hex_value_other: "hex_value CHR 0x20 = None" "hex_value CHR ''-'' = None" "hex_value CHR ''+'' = None"
  "hex_value CHR ''x'' = None" "hex_value CHR ''X'' = None" "hex_value CHR ''#'' = None"
  by (simp_all add: hex_value_def Let_def)

lemma is_space_no_digit: "is_space c \<Longrightarrow> hex_value c = None"
  by (auto simp: is_space_def hex_value_def Let_def)

lemma num_str_hex:
  "num_str 16 n \<noteq> [] \<and> (\<forall>c \<in> set (num_str 16 n). hex_value c \<noteq> None) \<and>
   foldl (\<lambda>a c. 16 * a + the (hex_value c)) 0 (num_str 16 n) = n"
proof (induction n rule: less_induct)
  case (less n)
  show ?case
  proof (cases "n < 16")
    case True
    then show ?thesis by (simp add: num_str.simps [of 16 n] hex_value_digit)
  next
    case False
    then have "n div 16 < n" by simp
    from less.IH [OF this] False show ?thesis
      by (auto simp: num_str.simps [of 16 n] hex_value_digit)
  qed
qed

lemma stoull16_num_str: "stoull16 (num_str 16 (unat i)) = Inr i"
proof -
  let ?s = "num_str 16 (unat i)"
  note h = num_str_hex [of "unat i"]
  obtain c cs where s: "?s = c # cs" using h by (cases ?s) auto
  have c: "hex_value c \<noteq> None" "\<forall>x \<in> set ?s. hex_value x \<noteq> None" using h s by auto
  have sp: "dropWhile is_space ?s = ?s" using s c(1) is_space_no_digit by auto
  have sg: "hd ?s \<noteq> CHR ''-''" "hd ?s \<notin> {CHR ''-'', CHR ''+''}" using s c(1) hex_value_other by auto
  have px: "take 2 ?s \<notin> {''0x'', ''0X''}"
  proof
    assume "take 2 ?s \<in> {''0x'', ''0X''}"
    then have "CHR ''x'' \<in> set ?s \<or> CHR ''X'' \<in> set ?s"
      by (metis insertE list.set_intros(1,2) in_set_takeD singletonD)
    then show False using c(2) hex_value_other by blast
  qed
  have tw: "takeWhile (\<lambda>c. \<exists>y. hex_value c = Some y) ?s = ?s" using c(2) by (simp add: takeWhile_eq_all_conv)
  have "unat i < 2 ^ 64" using unsigned_less [of i, where 'a = nat] by simp
  then show ?thesis using h sg px unfolding stoull16_def sp Let_def by (simp add: tw)
qed

lemma getline_pieces_word:
  assumes "CHR 0x20 \<notin> set w"
  shows "getline_pieces (w @ CHR 0x20 # r) = w # getline_pieces r"
proof -
  have "takeWhile (\<lambda>c. c \<noteq> CHR 0x20) (w @ CHR 0x20 # r) = w"
    "dropWhile (\<lambda>c. c \<noteq> CHR 0x20) (w @ CHR 0x20 # r) = CHR 0x20 # r"
    using assms by (induction w) auto
  then show ?thesis by (simp add: getline_pieces.simps [of "w @ CHR 0x20 # r"])
qed

lemma num_str_no_space: "CHR 0x20 \<notin> set (num_str 16 n)"
  using num_str_hex [of n] hex_value_other by auto

lemma parse_stack_line: "parse_stack (concat (map (\<lambda>i. num_str 16 (unat i) @ '' '') c)) = Inr c"
proof (induction c)
  case Nil
  then show ?case by (simp add: parse_stack_def getline_pieces.simps [of "[]"])
next
  case (Cons i c)
  then show ?case
    by (simp add: parse_stack_def getline_pieces_word [OF num_str_no_space] stoull16_num_str)
qed

lemma stack_line_no_comment: "\<not> starts_with (concat (map (\<lambda>i. num_str 16 (unat i) @ '' '') c)) ''#''"
proof (cases c)
  case (Cons i js)
  obtain x xs where x: "num_str 16 (unat i) = x # xs" using num_str_hex [of "unat i"] by (cases "num_str 16 (unat i)") auto
  have "x \<noteq> CHR ''#''" using num_str_hex [of "unat i"] x hex_value_other by auto
  then show ?thesis by (simp add: Cons x starts_with_def)
qed (simp add: starts_with_def)

section \<open>Reloading the log\<close>

lemma load_lines_append:
  "load_lines (a @ b) st = (case load_lines a st of Inl e \<Rightarrow> Inl e | Inr st' \<Rightarrow> load_lines b st')"
  by (induction a st rule: load_lines.induct) (auto split: sum.splits)

lemma log_frame_no_iteration: "\<not> starts_with (log_frame dbg f) ''Iteration: ''"
proof -
  obtain x xs where x: "num_str 16 (unat f) = x # xs" using num_str_hex [of "unat f"] by (cases "num_str 16 (unat f)") auto
  have "x \<noteq> CHR ''I''" using num_str_hex [of "unat f"] x by (auto simp: hex_value_def Let_def)
  then show ?thesis by (auto simp: log_frame_def cxplat_decode_symbol_def starts_with_def x split: sum.splits)
qed

lemma load_lines_comments: "load_lines (map (\<lambda>f. ''# '' @ log_frame dbg f) fs) st = Inr st"
proof (induction fs)
  case (Cons f fs)
  obtain it known where "st = (it, known)" by fastforce
  then show ?case using Cons log_frame_no_iteration [of dbg f] by (auto simp: starts_with_def)
qed simp

lemma load_log_record: "load_lines (log_record dbg c stack) (it, known) = Inr (it, {[], c} \<union> known)"
proof -
  have n: "\<not> starts_with l ''# Iteration: ''" if "\<not> starts_with l ''#''" for l
    using that by (cases l) (auto simp: starts_with_def)
  have "load_lines [''''] (it, k) = Inr (it, insert [] k)" for k
    by (simp add: starts_with_def parse_stack_def getline_pieces.simps [of "[]"])
  then show ?thesis
    using n [OF stack_line_no_comment] stack_line_no_comment [of c]
    by (auto simp: log_record_def load_lines_append
        load_lines_comments [simplified] parse_stack_line starts_with_def [of "[]"] parse_stack_def [of "[]"]
        getline_pieces.simps [of "[]"])
qed

text \<open>The states of the injector, across restarts of the process.\<close>

inductive fault_reachable :: "dbghelp \<Rightarrow> fault_injection \<Rightarrow> bool" for dbg where
  first_run: "fault_injection_construct depth [] = Inr s \<Longrightarrow> fault_reachable dbg s"
| restart: "fault_reachable dbg s \<Longrightarrow> fault_injection_construct depth (log_file s) = Inr s' \<Longrightarrow> fault_reachable dbg s'"
| inject: "fault_reachable dbg s \<Longrightarrow> inject_fault dbg frames s = Inr (b, s') \<Longrightarrow> fault_reachable dbg s'"
| add_module: "fault_reachable dbg s \<Longrightarrow> fault_reachable dbg (add_module_under_test m n s)"
| remove_module: "fault_reachable dbg s \<Longrightarrow> fault_reachable dbg (remove_module_under_test m n s)"
| reset: "fault_reachable dbg s \<Longrightarrow> fault_reachable dbg (fault_reset s)"

definition log_complete :: "fault_injection \<Rightarrow> bool" where
  "log_complete s \<longleftrightarrow> (\<exists>known. load_lines (log_file s) (0, {}) = Inr (iteration s, known) \<and>
     fault_hash s \<subseteq> known \<and> known \<subseteq> insert [] (fault_hash s))"

lemma construct_complete: "fault_injection_construct depth lines = Inr s \<Longrightarrow> log_complete s"
  by (auto simp: fault_injection_construct_def load_fault_log_def log_complete_def load_lines_append starts_with_def
      split: sum.splits)

lemma log_reachable_complete:
  assumes "fault_reachable dbg s"
  shows "log_complete s"
  using assms
proof induction
  case (inject s frames b s')
  then obtain known where k: "load_lines (log_file s) (0, {}) = Inr (iteration s, known)"
      "fault_hash s \<subseteq> known" "known \<subseteq> insert [] (fault_hash s)" by (auto simp: log_complete_def)
  then show ?case using inject
    by (auto simp: inject_fault_def is_new_stack_unguarded log_stack_trace_def log_complete_def load_lines_append
        load_log_record split: sum.splits if_splits)
qed (auto simp: log_complete_def fault_reset_def add_module_under_test_def remove_module_under_test_def
    dest: construct_complete)

text \<open>
  C10: no fault path is failed twice, not even by the next run of the process. From every reachable state
  of the injector, across any number of restarts, an injector constructed on the log file that it left
  parses the log without an error, continues the iteration count, and knows every path that was failed before. It
  knows in addition only the empty path, which the blank line at the end of each record adds.
\<close>
theorem fault_log_roundtrip:
  assumes "fault_reachable dbg s"
  shows "\<exists>s'. fault_injection_construct depth (log_file s) = Inr s' \<and> iteration s' = iteration s + 1 \<and>
          fault_hash s \<subseteq> fault_hash s' \<and> fault_hash s' \<subseteq> insert [] (fault_hash s) \<and>
          (\<forall>frames c. recursion s' = 0 \<longrightarrow> canonical_stack s' (captured frames) = Inr c \<longrightarrow> c \<in> fault_hash s \<longrightarrow>
             inject_fault dbg frames s' = Inr (False, s'))"
proof -
  obtain known where k: "load_lines (log_file s) (0, {}) = Inr (iteration s, known)"
      "fault_hash s \<subseteq> known" "known \<subseteq> insert [] (fault_hash s)"
    using log_reachable_complete [OF assms] by (auto simp: log_complete_def)
  then show ?thesis
    by (auto simp: fault_injection_construct_def load_fault_log_def inject_fault_def is_new_stack_unguarded)
qed

lemma first_construct:
  "fault_injection_construct 2 [] = Inr \<lparr>modules_under_test = [], iteration = 1, log_file = [''# Iteration: 1''],
     fault_hash = {}, stack_depth = 2, recursion = 0, last_fault_stack = []\<rparr>"
  by (simp add: fault_injection_construct_def load_fault_log_def num_str.simps [of 10 "Suc 0"] digit_char_def char_of_def bit_0)

definition sample_injector :: fault_injection where
  "sample_injector = \<lparr>modules_under_test = [((0x400000, 0x401000), 1)], iteration = 1, log_file = [''# Iteration: 1''],
     fault_hash = {}, stack_depth = 2, recursion = 0, last_fault_stack = []\<rparr>"

lemma sample_injector_reachable: "fault_reachable dbg sample_injector"
proof -
  have "sample_injector = add_module_under_test 0x400000 0x1000 \<lparr>modules_under_test = [], iteration = 1,
     log_file = [''# Iteration: 1''], fault_hash = {}, stack_depth = 2, recursion = 0, last_fault_stack = []\<rparr>"
    by (simp add: sample_injector_def add_module_under_test_def)
  then show ?thesis by (metis fault_reachable.add_module fault_reachable.first_run first_construct)
qed

lemmas fault_eval = sample_injector_def inject_fault_def is_new_stack_unguarded canonical_stack_def captured_def
  canonical_frame_def find_base_address_def key_less_def CXPLAT_FAULT_STACK_CAPTURE_FRAME_COUNT_def Let_def
  log_stack_trace_def

lemma sample_canonical: "canonical_stack sample_injector (captured [0x400010, 0x900000]) = Inr [0x10]"
  by (simp add: fault_eval)

theorem fault_log_roundtrip_witness:
  "\<exists>s s'. inject_fault no_symbols [0x400010, 0x900000] sample_injector = Inr (True, s) \<and>
     fault_injection_construct 2 (log_file s) = Inr s' \<and> [0x10] \<in> fault_hash s' \<and> iteration s' = 2"
proof -
  define s where "s = log_stack_trace no_symbols [0x10] (captured [0x400010, 0x900000])
    (sample_injector\<lparr>fault_hash := {[0x10]}\<rparr>)"
  have i: "recursion sample_injector = 0" "fault_hash sample_injector = {}" by (simp_all add: sample_injector_def)
  have s: "inject_fault no_symbols [0x400010, 0x900000] sample_injector = Inr (True, s)"
    by (simp add: inject_fault_def is_new_stack_unguarded sample_canonical i s_def)
  have h: "fault_hash s = {[0x10]}" "iteration s = 1" by (simp_all add: s_def log_stack_trace_def sample_injector_def)
  have r: "fault_reachable no_symbols s" using fault_reachable.inject [OF sample_injector_reachable s] .
  from fault_log_roundtrip [OF r, of 2] s h show ?thesis by auto
qed

text \<open>
  each fault path is failed exactly once within a run. If the capture is not empty, the configured depth fits the
  capture buffer and the thread is not already inside the injector, a call fails exactly when its path has not been
  failed before, and afterwards every call with the same path succeeds. A thread inside the injector never
  fails, and a configured depth beyond the sixteen captured frames reads outside the buffer.
\<close>
theorem fault_injected_once:
  assumes "length frames \<le> CXPLAT_FAULT_STACK_CAPTURE_FRAME_COUNT" "frames \<noteq> []"
  shows "(recursion s = 0 \<and> unat (stack_depth s) \<le> CXPLAT_FAULT_STACK_CAPTURE_FRAME_COUNT \<longrightarrow>
            (\<exists>c s'. canonical_stack s (captured frames) = Inr c \<and>
               inject_fault dbg frames s = Inr (c \<notin> fault_hash s, s') \<and>
               fault_hash s' = insert c (fault_hash s) \<and>
               (\<forall>frames'. canonical_stack s (captured frames') = Inr c \<longrightarrow> inject_fault dbg frames' s' = Inr (False, s')))) \<and>
         (0 < recursion s \<longrightarrow> inject_fault dbg frames s = Inr (False, s)) \<and>
         (recursion s = 0 \<and> CXPLAT_FAULT_STACK_CAPTURE_FRAME_COUNT < unat (stack_depth s) \<longrightarrow>
            inject_fault dbg frames s = Inl Out_Of_Bounds)"
proof (intro conjI impI; (elim conjE)?)
  assume r: "recursion s = 0" "unat (stack_depth s) \<le> CXPLAT_FAULT_STACK_CAPTURE_FRAME_COUNT"
  have len: "length (captured frames) = CXPLAT_FAULT_STACK_CAPTURE_FRAME_COUNT" using assms(1) by (simp add: captured_def)
  then obtain c where c: "canonical_stack s (captured frames) = Inr c" using r(2) by (simp add: canonical_stack_def)
  define s' where "s' = (if c \<in> fault_hash s then s else
    log_stack_trace dbg c (captured frames) (s\<lparr>fault_hash := insert c (fault_hash s)\<rparr>))"
  have frame: "recursion s' = 0" "fault_hash s' = insert c (fault_hash s)" "canonical_stack s' = canonical_stack s"
    using r(1) by (auto simp: s'_def log_stack_trace_def canonical_stack_def fun_eq_iff)
  have "inject_fault dbg frames s = Inr (c \<notin> fault_hash s, s')"
    using r(1) c assms(2) by (simp add: inject_fault_def is_new_stack_unguarded s'_def)
  moreover have "inject_fault dbg frames' s' = Inr (False, s')" if "canonical_stack s (captured frames') = Inr c" for frames'
    using that frame by (simp add: inject_fault_def is_new_stack_unguarded)
  ultimately show "\<exists>c s'. canonical_stack s (captured frames) = Inr c \<and>
               inject_fault dbg frames s = Inr (c \<notin> fault_hash s, s') \<and>
               fault_hash s' = insert c (fault_hash s) \<and>
               (\<forall>frames'. canonical_stack s (captured frames') = Inr c \<longrightarrow> inject_fault dbg frames' s' = Inr (False, s'))"
    using c frame(2) by blast
next
  assume "0 < recursion s"
  then show "inject_fault dbg frames s = Inr (False, s)" by (simp add: inject_fault_def is_new_stack_unguarded)
next
  assume "recursion s = 0" "CXPLAT_FAULT_STACK_CAPTURE_FRAME_COUNT < unat (stack_depth s)"
  then show "inject_fault dbg frames s = Inl Out_Of_Bounds"
    using assms by (simp add: inject_fault_def is_new_stack_unguarded canonical_stack_def captured_def)
qed

theorem fault_injected_once_witness:
  "\<exists>s'. inject_fault no_symbols [0x400010, 0x900000] sample_injector = Inr (True, s') \<and>
        inject_fault no_symbols [0x400010, 0x900000] s' = Inr (False, s')"
proof -
  have a: "length [0x400010, 0x900000 :: u64] \<le> CXPLAT_FAULT_STACK_CAPTURE_FRAME_COUNT" "[0x400010, 0x900000 :: u64] \<noteq> []"
      "recursion sample_injector = 0" "unat (stack_depth sample_injector) \<le> CXPLAT_FAULT_STACK_CAPTURE_FRAME_COUNT"
      "fault_hash sample_injector = {}"
    by (simp_all add: CXPLAT_FAULT_STACK_CAPTURE_FRAME_COUNT_def sample_injector_def)
  show ?thesis using fault_injected_once [OF a(1,2), of sample_injector no_symbols] a(3-5) sample_canonical by fastforce
qed

section \<open>Modules under test\<close>

lemma key_less_trans: "key_less a b \<Longrightarrow> key_less b c \<Longrightarrow> key_less a c"
  by (auto simp: key_less_def)

lemma key_less_total: "\<not> key_less a b \<Longrightarrow> a \<noteq> b \<Longrightarrow> key_less b a"
  by (auto simp: key_less_def prod_eq_iff)

lemma key_less_irrefl [simp]: "\<not> key_less a a"
  by (simp add: key_less_def)

lemma map_increment_keys: "x \<in> set (map_increment k m) \<Longrightarrow> fst x = k \<or> (\<exists>y \<in> set m. fst y = fst x)"
  by (induction k m rule: map_increment.induct) (auto split: if_splits)

lemma map_increment_sorted: "sorted_wrt key_less (map fst m) \<Longrightarrow> sorted_wrt key_less (map fst (map_increment k m))"
proof (induction k m rule: map_increment.induct)
  case (2 k k' n m)
  have k': "\<forall>x \<in> set m. key_less k' (fst x)" "sorted_wrt key_less (map fst m)" using 2(2) by auto
  show ?case
  proof (cases "key_less k k'")
    case True
    then have "\<forall>x \<in> set m. key_less k (fst x)" using k'(1) key_less_trans by blast
    then show ?thesis using True 2(2) by simp
  next
    case False
    show ?thesis
    proof (cases "k = k'")
      case True
      then show ?thesis using 2(2) by simp
    next
      case F: False
      have "key_less k' (fst x)" if "x \<in> set (map_increment k m)" for x
        using map_increment_keys [OF that] k'(1) key_less_total [OF False F] by metis
      then show ?thesis using False F 2(1) [OF False F k'(2)] by simp
    qed
  qed
qed simp

lemma map_decrement_keys: "x \<in> set (map_decrement k m) \<Longrightarrow> \<exists>y \<in> set m. fst y = fst x"
  by (induction k m rule: map_decrement.induct) (auto split: if_splits)

lemma map_decrement_sorted: "sorted_wrt key_less (map fst m) \<Longrightarrow> sorted_wrt key_less (map fst (map_decrement k m))"
proof (induction k m rule: map_decrement.induct)
  case (2 k k' n m)
  then show ?case using map_decrement_keys [of _ k m] by (auto; fastforce)
qed simp

lemma fault_reachable_sorted: "fault_reachable dbg s \<Longrightarrow> sorted_wrt key_less (map fst (modules_under_test s))"
  by (induction rule: fault_reachable.induct)
    (auto simp: fault_injection_construct_def load_fault_log_def inject_fault_def is_new_stack_unguarded log_stack_trace_def
      add_module_under_test_def remove_module_under_test_def fault_reset_def map_increment_sorted map_decrement_sorted
      split: sum.splits if_splits)

lemma find_base_address_last:
  assumes "sorted_wrt key_less (map fst m)" "((b, e), n) \<in> set m" "b < a"
    and "\<And>k. k \<in> fst ` set m \<Longrightarrow> key_less (b, e) k \<Longrightarrow> a \<le> fst k"
  shows "find_base_address m a = (if a < b + e then b else 0)"
proof -
  obtain xs ys where m: "m = xs @ ((b, e), n) # ys" using split_list [OF assms(2)] by blast
  have lt: "key_less (b, e) (a, 0)" using assms(3) by (simp add: key_less_def)
  have xs: "\<forall>(k, n) \<in> set xs. key_less k (a, 0)"
    using assms(1) lt key_less_trans unfolding m by (fastforce simp: sorted_wrt_append)
  have ys: "\<not> key_less (fst y) (a, 0)" if y: "y \<in> set ys" for y
  proof -
    have "key_less (b, e) (fst y)" using assms(1) y unfolding m by (simp add: sorted_wrt_append)
    then have "a \<le> fst (fst y)" using assms(4) y unfolding m by simp
    then show ?thesis by (auto simp: key_less_def)
  qed
  have "takeWhile (\<lambda>(k, n). key_less k (a, 0)) m = xs @ [((b, e), n)]"
    using xs ys lt unfolding m by (cases ys) (auto simp: takeWhile_append2 case_prod_unfold)
  then show ?thesis using assms(3) by (cases xs) (simp_all add: find_base_address_def less_imp_le)
qed

text \<open>
  which module a frame belongs to. In every reachable state, a frame strictly inside a module that overlaps
  no other module under test is attributed to that module. A frame beyond the end of a module is attributed
  to it as well, up to the sum of its start and end address, when no other module starts in between: the table
  stores the end of a module where the check expects its size. Addresses are assumed to be in the lower
  half of the address space, so that this sum does not wrap.
\<close>
theorem find_base_address_modules:
  assumes "fault_reachable dbg s" "((b, e), n) \<in> set (modules_under_test s)" "unat b + unat e < 2 ^ 64"
  shows "(\<forall>a. b < a \<and> a < e \<and> (\<forall>b' e' n'. ((b', e'), n') \<in> set (modules_under_test s) \<longrightarrow>
                 (b', e') = (b, e) \<or> b' \<le> e' \<and> (e' \<le> b \<or> e \<le> b')) \<longrightarrow>
            find_base_address (modules_under_test s) a = b) \<and>
         (\<forall>a. e \<le> a \<and> b < a \<and> unat a < unat b + unat e \<and>
              (\<forall>b' e' n'. ((b', e'), n') \<in> set (modules_under_test s) \<longrightarrow> (b', e') = (b, e) \<or> b' < b \<or> a \<le> b') \<longrightarrow>
            find_base_address (modules_under_test s) a = b)"
proof -
  note sorted = fault_reachable_sorted [OF assms(1)]
  have sum: "unat (b + e) = unat b + unat e" using assms(3) by (simp add: unat_word_ariths)
  show ?thesis
  proof (intro conjI allI impI; elim conjE)
    fix a assume a: "b < a" "a < e"
      and dis: "\<forall>b' e' n'. ((b', e'), n') \<in> set (modules_under_test s) \<longrightarrow> (b', e') = (b, e) \<or> b' \<le> e' \<and> (e' \<le> b \<or> e \<le> b')"
    have "a \<le> fst k" if "k \<in> fst ` set (modules_under_test s)" "key_less (b, e) k" for k
      using that dis a by (fastforce simp: key_less_def)
    moreover have "a < b + e" using a sum by (simp add: word_less_nat_alt)
    ultimately show "find_base_address (modules_under_test s) a = b"
      using find_base_address_last [OF sorted assms(2) a(1)] by simp
  next
    fix a assume a: "b < a" "unat a < unat b + unat e"
      and dis: "\<forall>b' e' n'. ((b', e'), n') \<in> set (modules_under_test s) \<longrightarrow> (b', e') = (b, e) \<or> b' < b \<or> a \<le> b'"
    have "a \<le> fst k" if "k \<in> fst ` set (modules_under_test s)" "key_less (b, e) k" for k
      using that dis a by (fastforce simp: key_less_def)
    moreover have "a < b + e" using a sum by (simp add: word_less_nat_alt)
    ultimately show "find_base_address (modules_under_test s) a = b"
      using find_base_address_last [OF sorted assms(2) a(1)] by simp
  qed
qed

theorem find_base_address_modules_witness:
  "find_base_address (modules_under_test sample_injector) 0x400010 = 0x400000 \<and>
   find_base_address (modules_under_test sample_injector) 0x500000 = 0x400000"
proof -
  have m: "((0x400000, 0x401000), 1) \<in> set (modules_under_test sample_injector)" by (simp add: sample_injector_def)
  from find_base_address_modules [OF sample_injector_reachable m] show ?thesis by (simp add: sample_injector_def)
qed

end
