(* ===== verification/Sync.thy ===== *)
theory Sync
  imports Dpc_Queue Irql
begin

text \<open>
  Synchronization objects of \<^verbatim>\<open>src/ke.cpp\<close>: events with \<^verbatim>\<open>_wait_for_kevent\<close>, semaphore waits, and timers that queue
  a DPC. An event operation runs under the event's spin lock and is one atomic step; a wait is a loop
  whose blocking call \<^verbatim>\<open>WaitOnAddress\<close> ends as the environment says. Timers share the DPC queues of
  \<open>Dpc_Queue\<close>. An \<^verbatim>\<open>ASSERT\<close> of this file is \<^verbatim>\<open>KeBugCheckCPP(0)\<close>.
\<close>

datatype object_type = Type_Unknown | Type_Semaphore | Type_Timer | Type_Event

section \<open>Events\<close>

datatype event_type = NotificationEvent | SynchronizationEvent

record kevent =
  ev_object_type :: object_type
  ev_type :: event_type
  ev_signaled :: bool

definition KeInitializeEvent :: "event_type \<Rightarrow> bool \<Rightarrow> kevent" where
  "KeInitializeEvent ty initial_state = \<lparr>ev_object_type = Type_Event, ev_type = ty, ev_signaled = initial_state\<rparr>"

definition KeSetEvent :: "kevent \<Rightarrow> (int \<times> kevent) result" where
  "KeSetEvent event =
     (if ev_object_type event \<noteq> Type_Event then Inl (Bug_Check 0)
      else Inr (if ev_signaled event then 1 else 0, event\<lparr>ev_signaled := True\<rparr>))"

definition KeClearEvent :: "kevent \<Rightarrow> kevent result" where
  "KeClearEvent event =
     (if ev_object_type event \<noteq> Type_Event then Inl (Bug_Check 0) else Inr (event\<lparr>ev_signaled := False\<rparr>))"

text \<open>The critical section of one iteration of the wait: whether the event was taken, and the event after it.\<close>

definition wait_attempt :: "kevent \<Rightarrow> bool \<times> kevent" where
  "wait_attempt event =
     (if ev_signaled event
      then (True, if ev_type event = SynchronizationEvent then event\<lparr>ev_signaled := False\<rparr> else event)
      else (False, event))"

definition wait_end_time :: "int option \<Rightarrow> u64 \<Rightarrow> u64" where
  "wait_end_time timeout start_time =
     (case timeout of
        None \<Rightarrow> - 1
      | Some t \<Rightarrow> if t > 0 then word_of_int t else start_time - word_of_int t)"

definition wait_timeout_ms :: "u64 \<Rightarrow> u64 \<Rightarrow> u32" where
  "wait_timeout_ms end_time start_time = ucast ((end_time - start_time) div 10000)"

text \<open>
  The loop of \<^verbatim>\<open>_wait_for_kevent\<close>. Each element of the list describes one blocking call: what other threads do
  to the event meanwhile, whether \<^verbatim>\<open>WaitOnAddress\<close> returns TRUE, and the time read after it. With no element
  left the thread is blocked for the given number of milliseconds.
\<close>

datatype wait_outcome = Returned ntstatus kevent | Blocked u32 kevent

fun wait_loop :: "((kevent \<Rightarrow> kevent) \<times> bool \<times> u64) list \<Rightarrow> u64 \<Rightarrow> u64 \<Rightarrow> kevent \<Rightarrow> wait_outcome" where
  "wait_loop obs start_time end_time event =
     (case wait_attempt event of
        (True, event') \<Rightarrow> Returned STATUS_SUCCESS event'
      | (False, event') \<Rightarrow>
          (case obs of
             [] \<Rightarrow> Blocked (wait_timeout_ms end_time start_time) event'
           | (env, woken, now) # obs' \<Rightarrow>
               if \<not> woken then Returned STATUS_TIMEOUT (env event')
               else if now \<ge> end_time then Returned STATUS_TIMEOUT (env event')
               else wait_loop obs' now end_time (env event')))"

declare wait_loop.simps [simp del]

definition wait_for_kevent ::
  "int option \<Rightarrow> u64 \<Rightarrow> ((kevent \<Rightarrow> kevent) \<times> bool \<times> u64) list \<Rightarrow> kevent \<Rightarrow> wait_outcome" where
  "wait_for_kevent timeout start_time obs event = wait_loop obs start_time (wait_end_time timeout start_time) event"

section \<open>Waiting for a semaphore\<close>

abbreviation INFINITE :: u32 where "INFINITE \<equiv> 0xFFFFFFFF"
abbreviation WAIT_OBJECT_0 :: u32 where "WAIT_OBJECT_0 \<equiv> 0"
abbreviation WAIT_TIMEOUT :: u32 where "WAIT_TIMEOUT \<equiv> 0x102"

text \<open>C++ division of the signed timeout rounds toward zero; the cast keeps the low 32 bits.\<close>

definition semaphore_timeout_ms :: "int option \<Rightarrow> u32" where
  "semaphore_timeout_ms timeout =
     (case timeout of None \<Rightarrow> INFINITE
      | Some t \<Rightarrow> word_of_int (if t < 0 then - (- t div 10000) else t div 10000))"

definition semaphore_wait_status :: "u32 \<Rightarrow> ntstatus" where
  "semaphore_wait_status r =
     (if r = WAIT_OBJECT_0 then STATUS_SUCCESS else if r = WAIT_TIMEOUT then STATUS_TIMEOUT else STATUS_UNSUCCESSFUL)"

datatype waitable = Wait_Semaphore "u32 \<Rightarrow> u32" | Wait_Event kevent | Wait_Other

text \<open>
  \<^verbatim>\<open>KeWaitForSingleObject\<close>: a semaphore is the answer of \<^verbatim>\<open>WaitForSingleObject\<close> to a timeout in milliseconds.
\<close>

datatype wait_result = Semaphore_Wait ntstatus | Event_Wait wait_outcome

definition KeWaitForSingleObject ::
  "waitable \<Rightarrow> int option \<Rightarrow> u64 \<Rightarrow> ((kevent \<Rightarrow> kevent) \<times> bool \<times> u64) list \<Rightarrow> wait_result result" where
  "KeWaitForSingleObject ob timeout start_time obs =
     (case ob of
        Wait_Semaphore wait \<Rightarrow> Inr (Semaphore_Wait (semaphore_wait_status (wait (semaphore_timeout_ms timeout))))
      | Wait_Event event \<Rightarrow> Inr (Event_Wait (wait_for_kevent timeout start_time obs event))
      | Wait_Other \<Rightarrow> Inl (Bug_Check 0))"

section \<open>Timers\<close>

record ktimer =
  t_object_type :: object_type
  threadpool_timer :: ptr
  t_dpc :: ptr
  t_signaled :: bool

text \<open>
  \<open>ktimers\<close> are the \<^verbatim>\<open>KTIMER\<close> structures by address, \<open>threadpool_timers\<close> is \<^verbatim>\<open>g_usersim_threadpool_timers\<close> (\<open>None\<close> when
  the pointer is null) and \<open>armed\<close> what \<^verbatim>\<open>SetThreadpoolTimer\<close> was last told for a handle. The handles on the list are those that are open; to use a handle that has been closed is
  to use freed memory.
\<close>

record timer_state =
  dpcs :: dpc_state
  ktimers :: "ptr \<rightharpoonup> ktimer"
  threadpool_timers :: "ptr list option"
  armed :: "ptr \<rightharpoonup> int \<times> u32 \<times> u32"

definition KeInitializeTimer :: "ptr \<Rightarrow> timer_state \<Rightarrow> timer_state" where
  "KeInitializeTimer timer s =
     s\<lparr>ktimers := (ktimers s)(timer \<mapsto> \<lparr>t_object_type = Type_Timer, threadpool_timer = nullptr, t_dpc = nullptr,
                                         t_signaled = False\<rparr>)\<rparr>"

definition ktimer_at :: "ptr \<Rightarrow> timer_state \<Rightarrow> ktimer result" where
  "ktimer_at timer s =
     (case ktimers s timer of
        None \<Rightarrow> Inl Out_Of_Bounds
      | Some t \<Rightarrow> if t_object_type t = Type_Timer then Inr t else Inl (Bug_Check 0))"

definition handles_of :: "timer_state \<Rightarrow> ptr set" where
  "handles_of s = (case threadpool_timers s of None \<Rightarrow> {} | Some hs \<Rightarrow> set hs)"

text \<open>\<open>h\<close> is the handle that \<^verbatim>\<open>CreateThreadpoolTimer\<close> returns if it is called.\<close>

definition KeSetCoalescableTimer ::
  "ptr \<Rightarrow> ptr \<Rightarrow> int \<Rightarrow> u32 \<Rightarrow> u32 \<Rightarrow> ptr \<Rightarrow> timer_state \<Rightarrow> (bool \<times> timer_state) result" where
  "KeSetCoalescableTimer h timer due_time period tolerable_delay dpc s =
     (if dpc = nullptr then Inl (Bug_Check 0)
      else case ktimer_at timer s of
        Inl e \<Rightarrow> Inl e
      | Inr t \<Rightarrow>
          if due_time \<ge> 0 then Inl (Bug_Check 0)
          else if threadpool_timer t \<noteq> nullptr
          then if threadpool_timer t \<notin> handles_of s then Inl Out_Of_Bounds
               else Inr (True, s\<lparr>ktimers := (ktimers s)(timer \<mapsto> t\<lparr>t_signaled := False, t_dpc := dpc\<rparr>),
                                armed := (armed s)(threadpool_timer t \<mapsto> (due_time, period, tolerable_delay))\<rparr>)
          else if h = nullptr then Inl (Bug_Check 0)
          else Inr (False, s\<lparr>ktimers := (ktimers s)(timer \<mapsto> t\<lparr>threadpool_timer := h, t_signaled := False, t_dpc := dpc\<rparr>),
                            threadpool_timers := Some (case threadpool_timers s of None \<Rightarrow> [h] | Some hs \<Rightarrow> hs @ [h]),
                            armed := (armed s)(h \<mapsto> (due_time, period, tolerable_delay))\<rparr>))"

definition KeSetTimerEx :: "ptr \<Rightarrow> ptr \<Rightarrow> int \<Rightarrow> u32 \<Rightarrow> ptr \<Rightarrow> timer_state \<Rightarrow> (bool \<times> timer_state) result" where
  "KeSetTimerEx h timer due_time period dpc s = KeSetCoalescableTimer h timer due_time period 0 dpc s"

definition KeSetTimer :: "ptr \<Rightarrow> ptr \<Rightarrow> int \<Rightarrow> ptr \<Rightarrow> timer_state \<Rightarrow> (bool \<times> timer_state) result" where
  "KeSetTimer h timer due_time dpc s = KeSetCoalescableTimer h timer due_time 0 0 dpc s"

definition usersim_timer_callback :: "ptr \<Rightarrow> timer_state \<Rightarrow> timer_state result" where
  "usersim_timer_callback timer s =
     (if timer = nullptr then Inr s
      else case ktimer_at timer s of
        Inl e \<Rightarrow> Inl e
      | Inr t \<Rightarrow>
          let s1 = s\<lparr>ktimers := (ktimers s)(timer \<mapsto> t\<lparr>t_signaled := True\<rparr>)\<rparr>
          in if t_dpc t = nullptr then Inr s1
             else case KeInsertQueueDpc (t_dpc t) (parameter_1 (kdpcs (dpcs s) (t_dpc t)))
                         (parameter_2 (kdpcs (dpcs s) (t_dpc t))) (dpcs s) of
                    Inl e \<Rightarrow> Inl e
                  | Inr (r, d) \<Rightarrow> Inr (s1\<lparr>dpcs := d\<rparr>))"

definition usersim_free_threadpool_timers :: "timer_state \<Rightarrow> timer_state" where
  "usersim_free_threadpool_timers s =
     (case threadpool_timers s of
        None \<Rightarrow> s
      | Some hs \<Rightarrow> s\<lparr>threadpool_timers := None, armed := (\<lambda>h. if h \<in> set hs then None else armed s h)\<rparr>)"

definition KeCancelTimer :: "ptr \<Rightarrow> timer_state \<Rightarrow> (bool \<times> timer_state) result" where
  "KeCancelTimer timer s =
     (case ktimer_at timer s of
        Inl e \<Rightarrow> Inl e
      | Inr t \<Rightarrow>
          let h = threadpool_timer t
          in if h = nullptr then Inr (False, s)
             else if h \<notin> handles_of s then Inl Out_Of_Bounds
             else let s1 = s\<lparr>armed := (armed s)(h := None)\<rparr>
                  in case threadpool_timers s1 of
                       None \<Rightarrow> Inl Out_Of_Bounds
                     | Some hs \<Rightarrow>
                         if h \<notin> set hs then Inl (Bug_Check 0)
                         else Inr (\<not> t_signaled t,
                                   s1\<lparr>ktimers := (ktimers s1)(timer \<mapsto> t\<lparr>threadpool_timer := nullptr, t_signaled := False\<rparr>),
                                      threadpool_timers := Some (remove1 h hs)\<rparr>))"

definition KeReadStateTimer :: "ptr \<Rightarrow> timer_state \<Rightarrow> bool result" where
  "KeReadStateTimer timer s = (case ktimer_at timer s of Inl e \<Rightarrow> Inl e | Inr t \<Rightarrow> Inr (t_signaled t))"

text \<open>\<^verbatim>\<open>KeSetTargetProcessorDpcEx\<close> finds the CPU of a DPC from a processor number.\<close>

definition KeSetTargetProcessorDpcEx :: "u32 list \<Rightarrow> ptr \<Rightarrow> processor_number \<Rightarrow> dpc_state \<Rightarrow> (ntstatus \<times> dpc_state) result" where
  "KeSetTargetProcessorDpcEx gmap dpc proc_number s =
     (case KeGetProcessorIndexFromNumber gmap proc_number of
        Inl e \<Rightarrow> Inl e
      | Inr i \<Rightarrow> Inr (STATUS_SUCCESS, s\<lparr>kdpcs := (kdpcs s)(dpc := (kdpcs s dpc)\<lparr>cpu_id := i\<rparr>)\<rparr>))"

section \<open>Timer invariant\<close>

text \<open>
  The reachable states. Drivers initialize, set and cancel timers, timers fire, and a shutdown closes the handles (the library can be started again). A \<^verbatim>\<open>KTIMER\<close> that has a
  handle at that time keeps the closed handle. \<open>C\<close> is the set of the timers that may be used: a timer that had a handle at a shutdown is not, until it is initialized again. The thread
  pool returns a handle that is not open; it may have been open before.
\<close>

inductive timer_reachable :: "ptr set \<Rightarrow> timer_state \<Rightarrow> bool" where
  timer_start: "ktimers s = Map.empty \<Longrightarrow> threadpool_timers s = None \<Longrightarrow> timer_reachable {} s"
| timer_init: "timer_reachable C s \<Longrightarrow> timer_reachable (insert p C) (KeInitializeTimer p s)"
| timer_set: "timer_reachable C s \<Longrightarrow> p \<in> C \<Longrightarrow> h \<notin> handles_of s \<Longrightarrow>
    KeSetCoalescableTimer h p due period delay dpc s = Inr (r, s') \<Longrightarrow> timer_reachable C s'"
| timer_fire: "timer_reachable C s \<Longrightarrow> usersim_timer_callback p s = Inr s' \<Longrightarrow> timer_reachable C s'"
| timer_cancel: "timer_reachable C s \<Longrightarrow> p \<in> C \<Longrightarrow> KeCancelTimer p s = Inr (r, s') \<Longrightarrow> timer_reachable C s'"
| timer_free: "timer_reachable C s \<Longrightarrow>
    timer_reachable {p \<in> C. \<forall>t. ktimers s p = Some t \<longrightarrow> threadpool_timer t = nullptr} (usersim_free_threadpool_timers s)"

definition timer_inv :: "ptr set \<Rightarrow> timer_state \<Rightarrow> bool" where
  "timer_inv C s \<longleftrightarrow> (\<forall>hs. threadpool_timers s = Some hs \<longrightarrow> distinct hs) \<and>
     (\<forall>p t. ktimers s p = Some t \<longrightarrow> t_object_type t = Type_Timer \<and>
        (p \<in> C \<longrightarrow> threadpool_timer t \<noteq> nullptr \<longrightarrow> threadpool_timer t \<in> handles_of s)) \<and>
     (\<forall>p \<in> C. \<forall>q \<in> C. \<forall>t u. ktimers s p = Some t \<longrightarrow> ktimers s q = Some u \<longrightarrow> threadpool_timer t \<noteq> nullptr \<longrightarrow>
        threadpool_timer t = threadpool_timer u \<longrightarrow> p = q)"

lemma timer_invD:
  assumes "timer_inv C s" "ktimers s p = Some t"
  shows "t_object_type t = Type_Timer" "p \<in> C \<Longrightarrow> threadpool_timer t \<noteq> nullptr \<Longrightarrow> threadpool_timer t \<in> handles_of s"
    "p \<in> C \<Longrightarrow> q \<in> C \<Longrightarrow> ktimers s q = Some u \<Longrightarrow> threadpool_timer t \<noteq> nullptr \<Longrightarrow> threadpool_timer t = threadpool_timer u \<Longrightarrow> p = q"
  using assms by (auto simp: timer_inv_def)

lemma timer_inv_upd:
  assumes inv: "timer_inv C s" and upd: "ktimers s' = (ktimers s)(p \<mapsto> t')" and ty: "t_object_type t' = Type_Timer"
    and own: "p \<in> C' \<Longrightarrow> threadpool_timer t' \<noteq> nullptr \<Longrightarrow> threadpool_timer t' \<in> handles_of s'"
    and other: "\<And>q u. q \<noteq> p \<Longrightarrow> q \<in> C \<Longrightarrow> ktimers s q = Some u \<Longrightarrow> threadpool_timer u \<noteq> nullptr \<Longrightarrow>
          threadpool_timer u \<in> handles_of s' \<and> (p \<in> C' \<longrightarrow> threadpool_timer u \<noteq> threadpool_timer t')"
    and dist: "\<And>hs. threadpool_timers s' = Some hs \<Longrightarrow> distinct hs" and sub: "C' \<subseteq> insert p C"
  shows "timer_inv C' s'"
  unfolding timer_inv_def
proof (intro conjI allI impI ballI)
  fix q u assume u: "ktimers s' q = Some u"
  show "t_object_type u = Type_Timer" using u upd ty timer_invD(1) [OF inv] by (auto split: if_splits)
  show "threadpool_timer u \<in> handles_of s'" if "q \<in> C'" "threadpool_timer u \<noteq> nullptr"
    using u upd own other that sub by (auto split: if_splits)
next
  fix q q' u u' assume u: "ktimers s' q = Some u" "ktimers s' q' = Some u'" "threadpool_timer u \<noteq> nullptr"
    "threadpool_timer u = threadpool_timer u'" and C': "q \<in> C'" "q' \<in> C'"
  show "q = q'"
  proof (rule ccontr)
    assume ne: "q \<noteq> q'"
    consider "q = p" | "q' = p" | "q \<noteq> p" "q' \<noteq> p" by blast
    then show False
    proof cases
      case 1
      then have "u = t'" "ktimers s q' = Some u'" "q' \<in> C" using u(1,2) upd ne C' sub by auto
      then show False using other [of q' u'] u(3,4) 1 ne C' by simp
    next
      case 2
      then have "u' = t'" "ktimers s q = Some u" "q \<in> C" using u(1,2) upd ne C' sub by auto
      then show False using other [of q u] u(3,4) 2 ne C' by simp
    next
      case 3
      then have "ktimers s q = Some u" "ktimers s q' = Some u'" "q \<in> C" "q' \<in> C" using u(1,2) upd C' sub by auto
      then show False using timer_invD(3) [OF inv, of q u q' u'] u(3,4) ne by simp
    qed
  qed
qed (rule dist)

lemma timer_same_handle_inv:
  assumes "timer_inv C s" "ktimers s p = Some t" "threadpool_timer t' = threadpool_timer t"
    "t_object_type t' = Type_Timer" "threadpool_timers s' = threadpool_timers s" "ktimers s' = (ktimers s)(p \<mapsto> t')"
  shows "timer_inv C s'"
proof (rule timer_inv_upd [OF assms(1,6,4)])
  have h: "handles_of s' = handles_of s" using assms(5) by (simp add: handles_of_def)
  show "p \<in> C \<Longrightarrow> threadpool_timer t' \<noteq> nullptr \<Longrightarrow> threadpool_timer t' \<in> handles_of s'"
    using timer_invD(2) [OF assms(1,2)] assms(3) h by simp
  show "threadpool_timer u \<in> handles_of s' \<and> (p \<in> C \<longrightarrow> threadpool_timer u \<noteq> threadpool_timer t')"
    if "q \<noteq> p" "q \<in> C" "ktimers s q = Some u" "threadpool_timer u \<noteq> nullptr" for q u
    using timer_invD(2) [OF assms(1) that(3,2,4)] timer_invD(3) [OF assms(1) that(3,2) _ assms(2) that(4)] that(1) assms(3) h by auto
qed (use assms(1,5) in \<open>auto simp: timer_inv_def\<close>)

lemma timer_init_inv:
  assumes "timer_inv C s"
  shows "timer_inv (insert p C) (KeInitializeTimer p s)"
proof (rule timer_inv_upd [OF assms])
  have h: "handles_of (KeInitializeTimer p s) = handles_of s" by (simp add: handles_of_def KeInitializeTimer_def)
  show "threadpool_timer u \<in> handles_of (KeInitializeTimer p s) \<and>
      (p \<in> insert p C \<longrightarrow> threadpool_timer u \<noteq>
         threadpool_timer \<lparr>t_object_type = Type_Timer, threadpool_timer = nullptr, t_dpc = nullptr, t_signaled = False\<rparr>)"
    if "q \<in> C" "ktimers s q = Some u" "threadpool_timer u \<noteq> nullptr" for q u
    using timer_invD(2) [OF assms that(2,1,3)] that(3) h by simp
qed (use assms in \<open>auto simp: timer_inv_def KeInitializeTimer_def\<close>)

lemma timer_set_inv:
  assumes "timer_inv C s" "p \<in> C" "h \<notin> handles_of s" "KeSetCoalescableTimer h p due period delay dpc s = Inr (r, s')"
  shows "timer_inv C s'"
proof -
  obtain t where t: "ktimers s p = Some t"
    using assms(4) by (auto simp: KeSetCoalescableTimer_def ktimer_at_def split: if_splits option.splits)
  have ty: "t_object_type t = Type_Timer" by (rule timer_invD(1) [OF assms(1) t])
  show ?thesis
  proof (cases "threadpool_timer t = nullptr")
    case False
    then show ?thesis using assms(4) t ty
      by (auto simp: KeSetCoalescableTimer_def ktimer_at_def split: if_splits
          intro!: timer_same_handle_inv [OF assms(1) t, where t' = "t\<lparr>t_signaled := False, t_dpc := dpc\<rparr>"])
  next
    case True
    have s': "ktimers s' = (ktimers s)(p \<mapsto> t\<lparr>threadpool_timer := h, t_signaled := False, t_dpc := dpc\<rparr>)"
        "handles_of s' = insert h (handles_of s)" "\<forall>hs. threadpool_timers s' = Some hs \<longrightarrow> distinct hs" "h \<noteq> nullptr"
      using assms t ty True
      by (auto simp: KeSetCoalescableTimer_def ktimer_at_def handles_of_def timer_inv_def split: if_splits option.splits)
    show ?thesis
    proof (rule timer_inv_upd [OF assms(1) s'(1)])
      show "threadpool_timer u \<in> handles_of s' \<and>
          (p \<in> C \<longrightarrow> threadpool_timer u \<noteq> threadpool_timer (t\<lparr>threadpool_timer := h, t_signaled := False, t_dpc := dpc\<rparr>))"
        if "q \<in> C" "ktimers s q = Some u" "threadpool_timer u \<noteq> nullptr" for q u
        using timer_invD(2) [OF assms(1) that(2,1,3)] assms(3) s'(2) by auto
    qed (use s'(2,3) ty in auto)
  qed
qed

lemma timer_cancel_inv:
  assumes "timer_inv C s" "p \<in> C" "KeCancelTimer p s = Inr (r, s')"
  shows "timer_inv C s'"
proof -
  obtain t where t: "ktimers s p = Some t"
    using assms(3) by (auto simp: KeCancelTimer_def ktimer_at_def split: if_splits option.splits)
  have ty: "t_object_type t = Type_Timer" by (rule timer_invD(1) [OF assms(1) t])
  show ?thesis
  proof (cases "threadpool_timer t = nullptr")
    case True
    then show ?thesis using assms t ty by (simp add: KeCancelTimer_def ktimer_at_def)
  next
    case False
    then obtain hs where hs: "threadpool_timers s = Some hs" "threadpool_timer t \<in> set hs" "distinct hs"
      using timer_invD(2) [OF assms(1) t assms(2)] assms(1) by (auto simp: handles_of_def timer_inv_def split: option.splits)
    have s': "ktimers s' = (ktimers s)(p \<mapsto> t\<lparr>threadpool_timer := nullptr, t_signaled := False\<rparr>)"
        "threadpool_timers s' = Some (remove1 (threadpool_timer t) hs)"
      using assms(3) t ty False hs by (auto simp: KeCancelTimer_def ktimer_at_def Let_def handles_of_def)
    have "threadpool_timer u \<noteq> threadpool_timer t" if "ktimers s q = Some u" "q \<noteq> p" "q \<in> C" for q u
      using timer_invD(3) [OF assms(1) t assms(2) that(3,1) False] that(2) by metis
    moreover have "threadpool_timer u \<in> set hs" if "ktimers s q = Some u" "q \<in> C" "threadpool_timer u \<noteq> nullptr" for q u
      using timer_invD(2) [OF assms(1) that] hs(1) by (simp add: handles_of_def)
    ultimately show ?thesis
      by (intro timer_inv_upd [OF assms(1) s'(1)]) (use s'(2) hs ty in \<open>auto simp: handles_of_def\<close>)
  qed
qed

lemma timer_fire_inv:
  assumes "timer_inv C s" "usersim_timer_callback p s = Inr s'"
  shows "timer_inv C s'"
proof (cases "p = nullptr")
  case True
  then show ?thesis using assms by (simp add: usersim_timer_callback_def)
next
  case False
  obtain t where t: "ktimers s p = Some t"
    using assms(2) False by (auto simp: usersim_timer_callback_def ktimer_at_def split: if_splits option.splits)
  show ?thesis using assms t False timer_invD(1) [OF assms(1) t]
    by (auto simp: usersim_timer_callback_def ktimer_at_def Let_def split: if_splits sum.splits prod.splits
        intro!: timer_same_handle_inv [OF assms(1) t, where t' = "t\<lparr>t_signaled := True\<rparr>"])
qed

lemma free_timers_simps:
  "ktimers (usersim_free_threadpool_timers s) = ktimers s" "threadpool_timers (usersim_free_threadpool_timers s) = None"
  by (simp_all add: usersim_free_threadpool_timers_def split: option.splits)

lemma timer_free_inv:
  assumes "timer_inv C s"
  shows "timer_inv {p \<in> C. \<forall>t. ktimers s p = Some t \<longrightarrow> threadpool_timer t = nullptr} (usersim_free_threadpool_timers s)"
  unfolding timer_inv_def free_timers_simps using timer_invD(1) [OF assms] by simp

lemma timer_reachable_inv: "timer_reachable C s \<Longrightarrow> timer_inv C s"
proof (induction rule: timer_reachable.induct)
  case (timer_start s)
  then show ?case by (simp add: timer_inv_def)
next
  case (timer_init C s p)
  then show ?case by (simp add: timer_init_inv)
next
  case (timer_set C s p h due period delay dpc r s')
  show ?case by (rule timer_set_inv [OF timer_set.IH timer_set.hyps(2-4)])
next
  case (timer_fire C s p s')
  show ?case by (rule timer_fire_inv [OF timer_fire.IH timer_fire.hyps(2)])
next
  case (timer_cancel C s p r s')
  show ?case by (rule timer_cancel_inv [OF timer_cancel.IH timer_cancel.hyps(2-3)])
next
  case (timer_free C s)
  show ?case by (rule timer_free_inv [OF timer_free.IH])
qed

section \<open>A timer that fires\<close>

text \<open>The DPC is queued with the parameters it has, behind the DPCs of its CPU; while it is queued, firing again changes no queue.\<close>

lemma timer_fire_queues:
  assumes "dpc_rel D q (dpcs s)" "ktimer_at p s = Inr t" "p \<noteq> nullptr" "t_dpc t = d" "d \<noteq> nullptr" "d \<in> D"
    and "i = unat (cpu_id (kdpcs (dpcs s) d))" "i < length (emulated_dpcs (dpcs s))"
    and "\<And>j. j < length (emulated_dpcs (dpcs s)) \<Longrightarrow> d \<notin> set (q j)"
  shows "\<exists>s'. usersim_timer_callback p s = Inr s' \<and> dpc_rel D (q(i := q i @ [d])) (dpcs s') \<and> same_cpus (dpcs s) (dpcs s') \<and>
           kdpcs (dpcs s') = kdpcs (dpcs s) \<and> ktimer_at p s' = Inr (t\<lparr>t_signaled := True\<rparr>)"
proof -
  let ?k = "kdpcs (dpcs s) d"
  obtain e where e: "dpc_insert d (parameter_1 ?k) (parameter_2 ?k) (dpcs s) = Inr (True, e)" "dpc_rel D (q(i := q i @ [d])) e"
    "same_cpus (dpcs s) e" "kdpcs e = kdpcs (dpcs s)"
    using insert_unqueued [OF assms(1,6-8) assms(9), of "parameter_1 ?k" "parameter_2 ?k"] by auto
  have "t_object_type t = Type_Timer" using assms(2) by (auto simp: ktimer_at_def split: option.splits if_splits)
  then show ?thesis using assms(2-5) e by (simp add: usersim_timer_callback_def KeInsertQueueDpc_def ktimer_at_def Let_def)
qed

lemma timer_fire_queued:
  assumes "dpc_rel D q (dpcs s)" "ktimer_at p s = Inr t" "p \<noteq> nullptr" "t_dpc t = d" "d \<noteq> nullptr" "d \<in> D"
    and "unat (cpu_id (kdpcs (dpcs s) d)) < length (emulated_dpcs (dpcs s))"
    and "j < length (emulated_dpcs (dpcs s))" "d \<in> set (q j)"
  shows "\<exists>s'. usersim_timer_callback p s = Inr s' \<and> dpcs s' = dpcs s"
  using assms(2-5) insert_queued [OF assms(1,6-9)] by (simp add: usersim_timer_callback_def KeInsertQueueDpc_def Let_def)

section \<open>Properties\<close>

text \<open>
  C26: setting and cancelling a timer, in every reachable state of the timers and for a timer that has been initialized since the last shutdown or had no handle at it.
  \<^verbatim>\<open>KeSetCoalescableTimer\<close> with a DPC and a relative due time succeeds and tells whether the timer already had a handle; it arms the handle of the timer (its own, or the new one that the thread
  pool returned) with exactly the due time, the period and the delay of the call, and no other. \<^verbatim>\<open>KeCancelTimer\<close> after it fails no assertion, returns TRUE, disarms this
  handle and no other, and takes it off the list of open handles; a second cancel returns FALSE and changes nothing. If the timer fires in between, the state is signaled and the cancel returns FALSE and disarms
  the handle as well.
\<close>
theorem timer_set_cancel:
  assumes "timer_reachable C s" "p \<in> C" "ktimers s p = Some t" "p \<noteq> nullptr" "dpc \<noteq> nullptr" "due < 0" "h \<noteq> nullptr" "h \<notin> handles_of s"
    and "k = (if threadpool_timer t \<noteq> nullptr then threadpool_timer t else h)"
  shows "\<exists>s1 s2. KeSetCoalescableTimer h p due period delay dpc s = Inr (threadpool_timer t \<noteq> nullptr, s1) \<and>
           armed s1 = (armed s)(k \<mapsto> (due, period, delay)) \<and> k \<in> handles_of s1 \<and> KeReadStateTimer p s1 = Inr False \<and>
           KeCancelTimer p s1 = Inr (True, s2) \<and> KeReadStateTimer p s2 = Inr False \<and>
           armed s2 = (armed s)(k := None) \<and> k \<notin> handles_of s2 \<and>
           KeCancelTimer p s2 = Inr (False, s2) \<and>
           (\<forall>s3. usersim_timer_callback p s1 = Inr s3 \<longrightarrow> KeReadStateTimer p s3 = Inr True \<and>
              (\<exists>s4. KeCancelTimer p s3 = Inr (False, s4) \<and> KeReadStateTimer p s4 = Inr False \<and>
                    armed s4 = (armed s)(k := None) \<and> k \<notin> handles_of s4))"
proof -
  have inv: "timer_inv C s" by (rule timer_reachable_inv [OF assms(1)])
  have ty: "t_object_type t = Type_Timer" by (rule timer_invD(1) [OF inv assms(3)])
  have own: "threadpool_timer t \<noteq> nullptr \<Longrightarrow> threadpool_timer t \<in> handles_of s" by (rule timer_invD(2) [OF inv assms(3,2)])
  obtain s1 where s1: "KeSetCoalescableTimer h p due period delay dpc s = Inr (threadpool_timer t \<noteq> nullptr, s1)"
      "armed s1 = (armed s)(k \<mapsto> (due, period, delay))"
    using assms(3-7,9) ty own by (cases "threadpool_timer t = nullptr") (auto simp: KeSetCoalescableTimer_def ktimer_at_def)
  have inv1: "timer_inv C s1" by (rule timer_set_inv [OF inv assms(2,8) s1(1)])
  obtain t1 where t1: "ktimers s1 p = Some t1" "\<not> t_signaled t1" "threadpool_timer t1 = k" "k \<noteq> nullptr"
    using s1(1) assms(3-7,9) ty by (auto simp: KeSetCoalescableTimer_def ktimer_at_def split: if_splits)
  have ty1: "t_object_type t1 = Type_Timer" by (rule timer_invD(1) [OF inv1 t1(1)])
  obtain hs where hs: "threadpool_timers s1 = Some hs" "k \<in> set hs" "distinct hs"
    using timer_invD(2) [OF inv1 t1(1) assms(2)] t1(3,4) inv1 by (auto simp: handles_of_def timer_inv_def split: option.splits)
  have cancel: "\<exists>s4. KeCancelTimer p s3 = Inr (\<not> b, s4) \<and> KeReadStateTimer p s4 = Inr False \<and> KeCancelTimer p s4 = Inr (False, s4) \<and>
      armed s4 = (armed s)(k := None) \<and> k \<notin> handles_of s4"
    if "ktimers s3 p = Some (t1\<lparr>t_signaled := b\<rparr>)" "threadpool_timers s3 = Some hs" "armed s3 = armed s1" for s3 b
    using that t1(3,4) ty1 hs(2,3) s1(2) by (simp add: KeReadStateTimer_def KeCancelTimer_def ktimer_at_def Let_def handles_of_def)
  have fired: "KeReadStateTimer p s3 = Inr True \<and> ktimers s3 p = Some (t1\<lparr>t_signaled := True\<rparr>) \<and> threadpool_timers s3 = Some hs \<and> armed s3 = armed s1"
    if "usersim_timer_callback p s1 = Inr s3" for s3
    using that t1(1) ty1 assms(4) hs(1)
    by (auto simp: usersim_timer_callback_def KeReadStateTimer_def ktimer_at_def Let_def split: if_splits sum.splits prod.splits)
  have same: "t1\<lparr>t_signaled := False\<rparr> = t1" using t1(2) by simp
  obtain s2 where "KeCancelTimer p s1 = Inr (True, s2)" "KeReadStateTimer p s2 = Inr False" "KeCancelTimer p s2 = Inr (False, s2)"
      "armed s2 = (armed s)(k := None)" "k \<notin> handles_of s2"
    using cancel [of s1 False] t1(1) hs(1) same by auto
  moreover have "KeReadStateTimer p s1 = Inr False" using t1(1,2) ty1 by (simp add: KeReadStateTimer_def ktimer_at_def)
  moreover have "k \<in> handles_of s1" using hs(1,2) by (simp add: handles_of_def)
  moreover have "\<exists>s4. KeCancelTimer p s3 = Inr (False, s4) \<and> KeReadStateTimer p s4 = Inr False \<and> armed s4 = (armed s)(k := None) \<and> k \<notin> handles_of s4"
    if "usersim_timer_callback p s1 = Inr s3" for s3
    using cancel [of s3 True] fired [OF that] by auto
  ultimately show ?thesis using s1 fired by blast
qed

definition sample_timers :: timer_state where
  "sample_timers = KeInitializeTimer 0x500 \<lparr>dpcs = sample_dpcs, ktimers = Map.empty, threadpool_timers = None, armed = Map.empty\<rparr>"

theorem timer_set_cancel_witness:
  "\<exists>s1 s2. KeSetCoalescableTimer 0x900 0x500 (- 100) 0 0 256 sample_timers = Inr (False, s1) \<and> armed s1 0x900 = Some (- 100, 0, 0) \<and>
     KeCancelTimer 0x500 s1 = Inr (True, s2) \<and> armed s2 0x900 = None \<and> KeCancelTimer 0x500 s2 = Inr (False, s2)"
proof -
  have r: "timer_reachable {0x500} sample_timers"
    unfolding sample_timers_def by (intro timer_reachable.timer_init timer_reachable.timer_start) simp_all
  have t: "ktimers sample_timers 0x500 = Some \<lparr>t_object_type = Type_Timer, threadpool_timer = nullptr, t_dpc = nullptr, t_signaled = False\<rparr>"
      "threadpool_timers sample_timers = None"
    by (simp_all add: sample_timers_def KeInitializeTimer_def)
  from timer_set_cancel [OF r _ t(1), of 256 "- 100" "0x900" "0x900" 0 0] t(2) show ?thesis by (auto simp: handles_of_def)
qed

text \<open>
  C40: timer objects stay well formed. In every reachable state an initialized timer carries the type tag of a timer, which the operations
  check; and a handle that a timer holds is on the list of thread pool timers exactly once, is not null and belongs to no other timer, so cancelling
  one timer never closes the handle of another. A shutdown closes all handles and leaves them in their \<^verbatim>\<open>KTIMER\<close>s: the statement about handles is for the timers that have been initialized since or
  had no handle at the shutdown, and as long as only these are used.
\<close>
theorem timer_objects_well_formed:
  assumes "timer_reachable C s" and "ktimers s p = Some t"
  shows "ktimer_at p s = Inr t \<and>
         (p \<in> C \<and> threadpool_timer t \<noteq> nullptr \<longrightarrow>
            (\<exists>hs. threadpool_timers s = Some hs \<and> distinct hs \<and> threadpool_timer t \<in> set hs) \<and>
            (\<forall>q \<in> C. \<forall>u. ktimers s q = Some u \<longrightarrow> threadpool_timer u = threadpool_timer t \<longrightarrow> q = p))"
proof -
  have inv: "timer_inv C s" by (rule timer_reachable_inv [OF assms(1)])
  have "\<exists>hs. threadpool_timers s = Some hs \<and> distinct hs \<and> threadpool_timer t \<in> set hs" if "p \<in> C" "threadpool_timer t \<noteq> nullptr"
    using timer_invD(2) [OF inv assms(2) that] inv by (cases "threadpool_timers s") (auto simp: handles_of_def timer_inv_def)
  moreover have "q = p" if "p \<in> C" "threadpool_timer t \<noteq> nullptr" "q \<in> C" "ktimers s q = Some u" "threadpool_timer u = threadpool_timer t" for q u
    using timer_invD(3) [OF inv assms(2) that(1,3,4,2)] that(5) by simp
  moreover have "ktimer_at p s = Inr t" using timer_invD(1) [OF inv assms(2)] assms(2) by (simp add: ktimer_at_def)
  ultimately show ?thesis by blast
qed

theorem timer_objects_well_formed_witness:
  "\<exists>s1 t. KeSetCoalescableTimer 0x900 0x500 (- 100) 0 0 256 sample_timers = Inr (False, s1) \<and> timer_reachable {0x500} s1 \<and> ktimer_at 0x500 s1 = Inr t \<and>
     threadpool_timer t = 0x900 \<and> threadpool_timers s1 = Some [0x900]"
proof -
  have r: "timer_reachable {0x500} sample_timers"
    unfolding sample_timers_def by (intro timer_reachable.timer_init timer_reachable.timer_start) simp_all
  obtain s1 t where s1: "KeSetCoalescableTimer 0x900 0x500 (- 100) 0 0 256 sample_timers = Inr (False, s1)" "ktimers s1 0x500 = Some t"
    "threadpool_timer t = 0x900" "threadpool_timers s1 = Some [0x900]"
    by (simp add: KeSetCoalescableTimer_def ktimer_at_def sample_timers_def KeInitializeTimer_def)
  have r1: "timer_reachable {0x500} s1"
    by (rule timer_reachable.timer_set [OF r _ _ s1(1)]) (simp_all add: sample_timers_def KeInitializeTimer_def handles_of_def)
  from timer_objects_well_formed [OF r1 s1(2)] s1 r1 show ?thesis by blast
qed

text \<open>After a shutdown a timer that had a handle keeps it although it is closed, and setting or cancelling the timer uses the closed handle.\<close>

lemma stale_timer:
  assumes "ktimers s p = Some t" "t_object_type t = Type_Timer" "threadpool_timer t \<in> handles_of s" "threadpool_timer t \<noteq> nullptr"
    and "dpc \<noteq> nullptr" "due < 0"
  shows "KeSetCoalescableTimer h p due period delay dpc (usersim_free_threadpool_timers s) = Inl Out_Of_Bounds"
    "KeCancelTimer p (usersim_free_threadpool_timers s) = Inl Out_Of_Bounds"
  using assms
  by (auto simp: KeSetCoalescableTimer_def KeCancelTimer_def usersim_free_threadpool_timers_def ktimer_at_def handles_of_def Let_def
      split: option.splits)

text \<open>A history of operations on one event: how many waits took it.\<close>

datatype event_op = Op_Set | Op_Clear | Op_Wait

fun run_event :: "event_op list \<Rightarrow> kevent \<Rightarrow> (nat \<times> kevent) result" where
  "run_event [] event = Inr (0, event)"
| "run_event (Op_Set # ops) event = (case KeSetEvent event of Inl e \<Rightarrow> Inl e | Inr (_, event') \<Rightarrow> run_event ops event')"
| "run_event (Op_Clear # ops) event = (case KeClearEvent event of Inl e \<Rightarrow> Inl e | Inr event' \<Rightarrow> run_event ops event')"
| "run_event (Op_Wait # ops) event =
     (case wait_attempt event of (taken, event') \<Rightarrow>
        (case run_event ops event' of Inl e \<Rightarrow> Inl e
         | Inr (n, event'') \<Rightarrow> Inr (if taken then n + 1 else n, event'')))"

lemma run_event_total:
  "ev_object_type event = Type_Event \<Longrightarrow>
   \<exists>n event'. run_event ops event = Inr (n, event') \<and> ev_object_type event' = Type_Event \<and> ev_type event' = ev_type event"
proof (induction ops arbitrary: event)
  case (Cons op ops)
  have a: "ev_object_type (snd (wait_attempt event)) = Type_Event" "ev_type (snd (wait_attempt event)) = ev_type event"
    using Cons.prems by (simp_all add: wait_attempt_def)
  show ?case
  proof (cases op)
    case Op_Wait
    then show ?thesis using Cons.IH [OF a(1)] a(2) by (fastforce split: prod.splits)
  qed (use Cons.prems Cons.IH [of "event\<lparr>ev_signaled := True\<rparr>"] Cons.IH [of "event\<lparr>ev_signaled := False\<rparr>"] in
      \<open>auto simp: KeSetEvent_def KeClearEvent_def\<close>)
qed simp

lemma run_event_append:
  "run_event (xs @ ys) event =
     (case run_event xs event of Inl e \<Rightarrow> Inl e
      | Inr (n, event') \<Rightarrow> (case run_event ys event' of Inl e \<Rightarrow> Inl e | Inr (m, event'') \<Rightarrow> Inr (n + m, event'')))"
  by (induction xs event rule: run_event.induct) (auto split: sum.splits prod.splits)

text \<open>
  What a wait that follows the operations \<open>ops\<close> finds: a synchronization event lets it pass if the last operation was a set, since a wait that passes resets
  the event; a notification event if there has been a set and no clear since.
\<close>

definition lets_pass :: "event_type \<Rightarrow> event_op list \<Rightarrow> bool" where
  "lets_pass ty ops \<longleftrightarrow>
     (case ty of
        SynchronizationEvent \<Rightarrow> ops \<noteq> [] \<and> last ops = Op_Set
      | NotificationEvent \<Rightarrow> (\<exists>us vs. ops = us @ Op_Set # vs \<and> Op_Clear \<notin> set vs))"

definition passing_waits :: "event_type \<Rightarrow> event_op list \<Rightarrow> nat set" where
  "passing_waits ty ops = {j. j < length ops \<and> ops ! j = Op_Wait \<and> lets_pass ty (take j ops)}"

lemma lets_pass_snoc:
  "lets_pass ty (ops @ [op]) \<longleftrightarrow>
     (case op of Op_Set \<Rightarrow> True | Op_Clear \<Rightarrow> False | Op_Wait \<Rightarrow> ty = NotificationEvent \<and> lets_pass ty ops)"
proof (cases ty)
  case NotificationEvent
  have "(\<exists>us vs. ops @ [op] = us @ Op_Set # vs \<and> Op_Clear \<notin> set vs) \<longleftrightarrow>
      op = Op_Set \<or> op \<noteq> Op_Clear \<and> (\<exists>us vs. ops = us @ Op_Set # vs \<and> Op_Clear \<notin> set vs)"
  proof (intro iffI)
    assume "\<exists>us vs. ops @ [op] = us @ Op_Set # vs \<and> Op_Clear \<notin> set vs"
    then obtain us vs where e: "ops @ [op] = us @ Op_Set # vs" "Op_Clear \<notin> set vs" by blast
    then show "op = Op_Set \<or> op \<noteq> Op_Clear \<and> (\<exists>us vs. ops = us @ Op_Set # vs \<and> Op_Clear \<notin> set vs)"
      by (cases vs rule: rev_cases) auto
  next
    assume "op = Op_Set \<or> op \<noteq> Op_Clear \<and> (\<exists>us vs. ops = us @ Op_Set # vs \<and> Op_Clear \<notin> set vs)"
    then show "\<exists>us vs. ops @ [op] = us @ Op_Set # vs \<and> Op_Clear \<notin> set vs"
      by (metis append.assoc append_Cons empty_iff empty_set set_ConsD rotate1.simps(2) set_rotate1)
  qed
  then show ?thesis using NotificationEvent by (auto simp: lets_pass_def split: event_op.splits)
qed (auto simp: lets_pass_def split: event_op.splits)

lemma passing_waits_snoc:
  "card (passing_waits ty (ops @ [op])) = card (passing_waits ty ops) + (if op = Op_Wait \<and> lets_pass ty ops then 1 else 0)"
proof -
  have "passing_waits ty (ops @ [op]) = passing_waits ty ops \<union> (if op = Op_Wait \<and> lets_pass ty ops then {length ops} else {})"
    by (auto simp: passing_waits_def nth_append less_Suc_eq)
  moreover have "finite (passing_waits ty ops)" "length ops \<notin> passing_waits ty ops" by (auto simp: passing_waits_def)
  ultimately show ?thesis by simp
qed

lemma run_event_exact:
  "\<exists>event'. run_event ops (KeInitializeEvent ty False) = Inr (card (passing_waits ty ops), event') \<and>
     ev_object_type event' = Type_Event \<and> ev_type event' = ty \<and> (ev_signaled event' \<longleftrightarrow> lets_pass ty ops)"
proof (induction ops rule: rev_induct)
  case Nil
  show ?case by (cases ty) (simp_all add: KeInitializeEvent_def passing_waits_def lets_pass_def)
next
  case (snoc op ops)
  then obtain event' where e: "run_event ops (KeInitializeEvent ty False) = Inr (card (passing_waits ty ops), event')"
      "ev_object_type event' = Type_Event" "ev_type event' = ty" "ev_signaled event' \<longleftrightarrow> lets_pass ty ops"
    by blast
  show ?case
  proof (cases op)
    case Op_Wait
    then show ?thesis using e by (cases ty) (auto simp: run_event_append lets_pass_snoc passing_waits_snoc wait_attempt_def)
  qed (use e in \<open>simp_all add: run_event_append lets_pass_snoc passing_waits_snoc KeSetEvent_def KeClearEvent_def\<close>)
qed



text \<open>
  a wait without a timeout can time out. The end time of such a wait is the largest 64-bit number, but the remaining
  time is passed to \<^verbatim>\<open>WaitOnAddress\<close> in milliseconds cut to 32 bits, so the wait is bounded: after it, the caller gets
  \<^verbatim>\<open>STATUS_TIMEOUT\<close> although it asked to wait forever. Less than 37 days after boot there is a time at which the
  wait is for zero milliseconds.
\<close>
theorem null_timeout_can_time_out:
  assumes "\<not> ev_signaled event"
  shows "wait_for_kevent None start [(env, False, now)] event = Returned STATUS_TIMEOUT (env event) \<and>
         (\<exists>start. unat start < 37 * 24 * 3600 * 10000000 \<and> wait_for_kevent None start [] event = Blocked 0 event)"
proof
  show "wait_for_kevent None start [(env, False, now)] event = Returned STATUS_TIMEOUT (env event)"
    using assms by (simp add: wait_for_kevent_def wait_loop.simps [of "[(env, False, now)]"] wait_attempt_def)
  have "wait_timeout_ms (- 1) 31336081391615 = 0" by (simp add: wait_timeout_ms_def)
  then have "wait_for_kevent None 31336081391615 [] event = Blocked 0 event"
    using assms by (simp add: wait_for_kevent_def wait_loop.simps [of "[]"] wait_attempt_def wait_end_time_def)
  then show "\<exists>start. unat start < 37 * 24 * 3600 * 10000000 \<and> wait_for_kevent None start [] event = Blocked 0 event"
    by (intro exI [of _ 31336081391615]) simp
qed

theorem null_timeout_can_time_out_witness:
  "\<exists>start. wait_for_kevent None start [] (KeInitializeEvent SynchronizationEvent False) =
     Blocked 0 (KeInitializeEvent SynchronizationEvent False)"
  using null_timeout_can_time_out [of "KeInitializeEvent SynchronizationEvent False" 0 id 0]
  by (auto simp: KeInitializeEvent_def)

end
