(* ===== verification/Wdf.thy ===== *)
theory Wdf
  imports Usersim_Prelude
begin

text \<open>
  The driver framework of \<^verbatim>\<open>src/wdf.cpp\<close> with the sample driver \<^verbatim>\<open>sample/driver.c\<close>. The state holds the driver globals,
  the devices of the driver in the order of its vector, the live \<^verbatim>\<open>WDFDEVICE_INIT\<close> allocations and the live device
  objects by address. A device object starts with its \<^verbatim>\<open>WDFDEVICE_INIT\<close>, so one record serves for both. The address
  that \<^verbatim>\<open>cxplat_allocate\<close> returns is an argument, \<open>nullptr\<close> when it fails, and freeing an address
  that is not live fails the assertion of the leak detector. Driver callbacks are parameters; the sample
  driver provides concrete ones.
\<close>

section \<open>State\<close>

record wdfdevice_init =
  device_type :: u32
  device_characteristics :: u32
  device_name_length :: u16
  device_name_buffer :: ptr
  file_object_config :: ptr
  file_object_attributes :: ptr
  evt_device_wdm_irp_preprocess :: ptr
  minor_functions :: "ptr list"
  num_minor_functions :: "u32 list"
  EvtIoDeviceControl :: ptr

definition IRP_MJ_MAXIMUM_FUNCTION :: nat where
  "IRP_MJ_MAXIMUM_FUNCTION = 0x1b"

text \<open>What \<^verbatim>\<open>cxplat_allocate\<close> returns is zeroed.\<close>

definition zero_init :: wdfdevice_init where
  "zero_init = \<lparr>device_type = 0, device_characteristics = 0, device_name_length = 0, device_name_buffer = nullptr,
     file_object_config = nullptr, file_object_attributes = nullptr, evt_device_wdm_irp_preprocess = nullptr,
     minor_functions = replicate IRP_MJ_MAXIMUM_FUNCTION nullptr,
     num_minor_functions = replicate IRP_MJ_MAXIMUM_FUNCTION 0, EvtIoDeviceControl = nullptr\<rparr>"

record wdf_state =
  globals_addr :: ptr
  wdf_driver :: ptr
  EvtDriverDeviceAdd :: ptr
  devices :: "ptr list"
  inits :: "ptr \<rightharpoonup> wdfdevice_init"
  device_objects :: "ptr \<rightharpoonup> wdfdevice_init"

section \<open>Device initialization\<close>

definition WdfControlDeviceInitAllocate :: "ptr \<Rightarrow> wdf_state \<Rightarrow> ptr \<times> wdf_state" where
  "WdfControlDeviceInitAllocate p s = (if p = nullptr then (nullptr, s) else (p, s\<lparr>inits := (inits s)(p \<mapsto> zero_init)\<rparr>))"

definition WdfDeviceInitFree :: "ptr \<Rightarrow> wdf_state \<Rightarrow> wdf_state result" where
  "WdfDeviceInitFree p s =
     (if p = nullptr then Inr s
      else case inits s p of None \<Rightarrow> Inl Assert_Failed | Some i \<Rightarrow> Inr (s\<lparr>inits := (inits s)(p := None)\<rparr>))"

definition upd_init :: "ptr \<Rightarrow> (wdfdevice_init \<Rightarrow> wdfdevice_init) \<Rightarrow> wdf_state \<Rightarrow> wdf_state result" where
  "upd_init p f s = (case inits s p of None \<Rightarrow> Inl Out_Of_Bounds | Some i \<Rightarrow> Inr (s\<lparr>inits := (inits s)(p \<mapsto> f i)\<rparr>))"

definition WdfDeviceInitSetDeviceType :: "ptr \<Rightarrow> u32 \<Rightarrow> wdf_state \<Rightarrow> wdf_state result" where
  "WdfDeviceInitSetDeviceType p ty s = upd_init p (\<lambda>i. i\<lparr>device_type := ty\<rparr>) s"

definition WdfDeviceInitSetCharacteristics :: "ptr \<Rightarrow> u32 \<Rightarrow> bool \<Rightarrow> wdf_state \<Rightarrow> wdf_state result" where
  "WdfDeviceInitSetCharacteristics p ch or_in_values s =
     upd_init p (\<lambda>i. i\<lparr>device_characteristics := or (if or_in_values then device_characteristics i else 0) ch\<rparr>) s"

definition WdfDeviceInitAssignName ::
  "bool \<Rightarrow> ptr \<Rightarrow> ptr \<Rightarrow> (u16 \<times> ptr) option \<Rightarrow> wdf_state \<Rightarrow> (ntstatus \<times> wdf_state) result" where
  "WdfDeviceInitAssignName fault driver_globals p name s =
     (if driver_globals \<noteq> globals_addr s then Inr (STATUS_INVALID_PARAMETER, s)
      else if fault then Inr (STATUS_INSUFFICIENT_RESOURCES, s)
      else case name of
             None \<Rightarrow> Inr (STATUS_SUCCESS, s)
           | Some (n, b) \<Rightarrow>
               (case upd_init p (\<lambda>i. i\<lparr>device_name_length := n, device_name_buffer := b\<rparr>) s of
                  Inl e \<Rightarrow> Inl e | Inr s' \<Rightarrow> Inr (STATUS_SUCCESS, s')))"

definition WdfDeviceInitSetFileObjectConfig :: "ptr \<Rightarrow> ptr \<Rightarrow> ptr \<Rightarrow> wdf_state \<Rightarrow> wdf_state result" where
  "WdfDeviceInitSetFileObjectConfig p config attributes s =
     upd_init p (\<lambda>i. i\<lparr>file_object_config := config, file_object_attributes := attributes\<rparr>) s"

text \<open>The table is read before the index is checked.\<close>

definition WdfDeviceInitAssignWdmIrpPreprocessCallback ::
  "bool \<Rightarrow> ptr \<Rightarrow> ptr \<Rightarrow> ptr \<Rightarrow> u8 \<Rightarrow> ptr \<Rightarrow> u32 \<Rightarrow> wdf_state \<Rightarrow> (ntstatus \<times> wdf_state) result" where
  "WdfDeviceInitAssignWdmIrpPreprocessCallback fault driver_globals p evt major minors n s =
     (if driver_globals \<noteq> globals_addr s then Inr (STATUS_INVALID_PARAMETER, s)
      else case inits s p of
        None \<Rightarrow> Inl Out_Of_Bounds
      | Some i \<Rightarrow>
          if unat major \<ge> length (minor_functions i) then Inl Out_Of_Bounds
          else if minor_functions i ! unat major \<noteq> nullptr then Inr (STATUS_INVALID_DEVICE_REQUEST, s)
          else if unat major \<ge> IRP_MJ_MAXIMUM_FUNCTION then Inr (STATUS_INVALID_PARAMETER, s)
          else if fault then Inr (STATUS_INSUFFICIENT_RESOURCES, s)
          else Inr (STATUS_SUCCESS,
                 s\<lparr>inits := (inits s)(p \<mapsto> i\<lparr>evt_device_wdm_irp_preprocess := evt,
                     minor_functions := (minor_functions i)[unat major := minors],
                     num_minor_functions := (num_minor_functions i)[unat major := n]\<rparr>)\<rparr>))"

section \<open>Devices\<close>

text \<open>
  \<^verbatim>\<open>_WdfDeviceCreate\<close>: on success the initialization structure is copied into the device and freed, and the caller's
  pointer becomes null. \<open>p\<close> is the address of the device object.
\<close>

definition WdfDeviceCreate ::
  "ptr \<Rightarrow> ptr \<Rightarrow> ptr \<Rightarrow> wdf_state \<Rightarrow> (ntstatus \<times> ptr option \<times> ptr \<times> wdf_state) result" where
  "WdfDeviceCreate p driver_globals device_init s =
     (if driver_globals \<noteq> globals_addr s then Inr (STATUS_INVALID_PARAMETER, None, device_init, s)
      else if p = nullptr then Inr (STATUS_INSUFFICIENT_RESOURCES, None, device_init, s)
      else if wdf_driver s = nullptr then Inl Out_Of_Bounds
      else case inits s device_init of
        None \<Rightarrow> Inl Out_Of_Bounds
      | Some i \<Rightarrow>
          (case WdfDeviceInitFree device_init
                  (s\<lparr>devices := devices s @ [p], device_objects := (device_objects s)(p \<mapsto> i)\<rparr>) of
             Inl e \<Rightarrow> Inl e
           | Inr s' \<Rightarrow> Inr (STATUS_SUCCESS, Some p, nullptr, s')))"

definition WdfDeviceCreateSymbolicLink :: "bool \<Rightarrow> ptr \<Rightarrow> wdf_state \<Rightarrow> ntstatus" where
  "WdfDeviceCreateSymbolicLink fault driver_globals s =
     (if driver_globals \<noteq> globals_addr s then STATUS_INVALID_PARAMETER
      else if fault then STATUS_INSUFFICIENT_RESOURCES else STATUS_SUCCESS)"

text \<open>\<^verbatim>\<open>_WdfIoQueueCreate\<close> stores the configuration before it checks anything.\<close>

definition WdfIoQueueCreate ::
  "bool \<Rightarrow> ptr \<Rightarrow> ptr \<Rightarrow> ptr \<Rightarrow> wdf_state \<Rightarrow> (ntstatus \<times> ptr option \<times> wdf_state) result" where
  "WdfIoQueueCreate fault driver_globals device evt s =
     (case device_objects s device of
        None \<Rightarrow> Inl Out_Of_Bounds
      | Some i \<Rightarrow>
          let s' = s\<lparr>device_objects := (device_objects s)(device \<mapsto> i\<lparr>EvtIoDeviceControl := evt\<rparr>)\<rparr>
          in if driver_globals \<noteq> globals_addr s then Inr (STATUS_INVALID_PARAMETER, None, s')
             else if fault then Inr (STATUS_INSUFFICIENT_RESOURCES, None, s')
             else Inr (STATUS_SUCCESS, Some device, s'))"

definition WdfIoQueueGetDevice :: "ptr \<Rightarrow> ptr" where
  "WdfIoQueueGetDevice queue = queue"

definition WdfDeviceWdmGetDeviceObject :: "ptr \<Rightarrow> ptr" where
  "WdfDeviceWdmGetDeviceObject device = device"

definition WdfObjectDelete :: "ptr \<Rightarrow> wdf_state \<Rightarrow> wdf_state result" where
  "WdfObjectDelete ob s =
     (let s1 = (if wdf_driver s \<noteq> nullptr then s\<lparr>devices := remove1 ob (devices s)\<rparr> else s)
      in if ob = nullptr then Inr s1
         else case device_objects s1 ob of
                None \<Rightarrow> Inl Assert_Failed
              | Some i \<Rightarrow> Inr (s1\<lparr>device_objects := (device_objects s1)(ob := None)\<rparr>))"

text \<open>
  The loop that deletes the devices beyond the first \<open>n\<close>, newest first. Each deletion shortens the vector by one, so as many
  rounds as there are devices suffice.
\<close>

fun delete_new_devices :: "nat \<Rightarrow> nat \<Rightarrow> wdf_state \<Rightarrow> wdf_state result" where
  "delete_new_devices 0 n s = Inr s"
| "delete_new_devices (Suc k) n s =
     (if length (devices s) > n
      then case WdfObjectDelete (last (devices s)) s of Inl e \<Rightarrow> Inl e | Inr s' \<Rightarrow> delete_new_devices k n s'
      else Inr s)"

section \<open>Drivers\<close>

type_synonym device_add = "ptr \<Rightarrow> ptr \<Rightarrow> wdf_state \<Rightarrow> (ntstatus \<times> wdf_state) result"

definition WdfDriverCreate ::
  "(ptr \<Rightarrow> device_add) \<Rightarrow> ptr \<Rightarrow> ptr \<Rightarrow> ptr \<Rightarrow> ptr \<Rightarrow> wdf_state \<Rightarrow> (ntstatus \<times> wdf_state) result" where
  "WdfDriverCreate code p driver_globals driver_object evt s =
     (if driver_globals \<noteq> globals_addr s then Inr (STATUS_INVALID_PARAMETER, s)
      else if wdf_driver s \<noteq> nullptr then Inr (STATUS_DRIVER_INTERNAL_ERROR, s)
      else let s1 = s\<lparr>wdf_driver := driver_object, EvtDriverDeviceAdd := evt\<rparr>
           in if evt = nullptr then Inr (STATUS_SUCCESS, s1)
              else case WdfControlDeviceInitAllocate p s1 of (device_init, s2) \<Rightarrow>
                if device_init = nullptr then Inr (STATUS_NO_MEMORY, s2)
                else case code evt driver_object device_init s2 of
                       Inl e \<Rightarrow> Inl e
                     | Inr (status, s3) \<Rightarrow>
                         if NT_SUCCESS status then Inr (status, s3)
                         else if length (devices s3) > length (devices s2)
                         then (case delete_new_devices (length (devices s3)) (length (devices s2)) s3 of
                                 Inl e \<Rightarrow> Inl e | Inr s4 \<Rightarrow> Inr (status, s4))
                         else (case WdfDeviceInitFree device_init s3 of
                                 Inl e \<Rightarrow> Inl e | Inr s4 \<Rightarrow> Inr (status, s4)))"

text \<open>\<open>mem a n\<close> are the \<open>n\<close> bytes at an address.\<close>

definition usersim_get_device_by_name :: "(ptr \<Rightarrow> nat \<Rightarrow> u8 list) \<Rightarrow> (u16 \<times> ptr) option \<Rightarrow> wdf_state \<Rightarrow> ptr" where
  "usersim_get_device_by_name mem name s =
     (case name of
        None \<Rightarrow> (case devices s of [] \<Rightarrow> nullptr | d # _ \<Rightarrow> d)
      | Some (n, b) \<Rightarrow>
          (case List.find (\<lambda>d. case device_objects s d of
                                 None \<Rightarrow> False
                               | Some i \<Rightarrow> device_name_length i = n \<and> mem (device_name_buffer i) (unat n) = mem b (unat n))
                  (devices s) of
             None \<Rightarrow> nullptr | Some d \<Rightarrow> d))"
section \<open>Requests\<close>

record wdfrequest =
  rq_status :: ntstatus
  rq_information :: u64
  rq_buffer_size :: u64
  rq_buffer :: "u8 list"

definition WdfRequestCompleteWithInformation :: "ntstatus \<Rightarrow> u64 \<Rightarrow> wdfrequest \<Rightarrow> wdfrequest" where
  "WdfRequestCompleteWithInformation status info r = r\<lparr>rq_status := status, rq_information := info\<rparr>"

text \<open>
  The retrieve functions return the status and the length; the buffer is that of the request. Without a place for the
  length, the output variant reads through a null pointer.
\<close>

definition WdfRequestRetrieveInputBuffer :: "u64 \<Rightarrow> bool \<Rightarrow> wdfrequest \<Rightarrow> ntstatus \<times> u64 option" where
  "WdfRequestRetrieveInputBuffer minimum want_length r =
     (if rq_buffer_size r < minimum then (STATUS_BUFFER_TOO_SMALL, None)
      else (STATUS_SUCCESS, if want_length then Some (rq_buffer_size r) else None))"

definition WdfRequestRetrieveOutputBuffer :: "u64 \<Rightarrow> bool \<Rightarrow> wdfrequest \<Rightarrow> (ntstatus \<times> u64) result" where
  "WdfRequestRetrieveOutputBuffer minimum want_length r =
     (if \<not> want_length then Inl Out_Of_Bounds
      else Inr (if rq_buffer_size r < minimum then STATUS_BUFFER_TOO_SMALL else STATUS_SUCCESS, rq_buffer_size r))"

type_synonym io_control = "ptr \<Rightarrow> wdfrequest \<Rightarrow> u64 \<Rightarrow> u64 \<Rightarrow> u32 \<Rightarrow> wdfrequest result"

text \<open>
  \<^verbatim>\<open>usersim_device_io_control\<close>: the result, the number of bytes returned (\<open>None\<close> if it is not written) and the new contents of the output
  buffer. \<open>out\<close> is the output buffer before the call; \<open>alloc\<close> tells whether the request could be allocated.
\<close>

definition usersim_device_io_control ::
  "(ptr \<Rightarrow> io_control) \<Rightarrow> bool \<Rightarrow> ptr \<Rightarrow> u32 \<Rightarrow> u8 list \<Rightarrow> u8 list \<Rightarrow> wdf_state \<Rightarrow> (bool \<times> u32 option \<times> u8 list) result" where
  "usersim_device_io_control code alloc device io_control_code input out s =
     (case device_objects s device of
        None \<Rightarrow> Inl Out_Of_Bounds
      | Some i \<Rightarrow>
          if EvtIoDeviceControl i = nullptr then Inr (False, None, out)
          else if \<not> alloc then Inr (False, None, out)
          else let buffer_size = max (max (length input) (length out)) 1;
                   request = \<lparr>rq_status = 0, rq_information = 0, rq_buffer_size = word_of_nat (length input),
                              rq_buffer = input @ replicate (buffer_size - length input) 0\<rparr>
               in case code (EvtIoDeviceControl i) device request (word_of_nat (length out)) (word_of_nat (length input))
                         io_control_code of
                    Inl e \<Rightarrow> Inl e
                  | Inr r \<Rightarrow>
                      let n = unat (ucast (rq_information r) :: u32)
                      in if n > length (rq_buffer r) \<or> n > length out then Inl Out_Of_Bounds
                         else Inr (NT_SUCCESS (rq_status r), Some (ucast (rq_information r)),
                                   take n (rq_buffer r) @ drop n out))"

section \<open>The sample driver\<close>

definition IOCTL_KMDF_HELLO_WORLD_CTL_METHOD_BUFFERED :: u32 where
  "IOCTL_KMDF_HELLO_WORLD_CTL_METHOD_BUFFERED = 1"

definition hello_status :: "wdfrequest \<Rightarrow> u64 \<Rightarrow> u64 \<Rightarrow> u32 \<Rightarrow> (ntstatus \<times> u8 list) result" where
  "hello_status r output_length input_length io_control_code =
     (if io_control_code \<noteq> IOCTL_KMDF_HELLO_WORLD_CTL_METHOD_BUFFERED then Inr (STATUS_INVALID_PARAMETER, rq_buffer r)
      else if input_length = 0 then Inr (STATUS_INVALID_PARAMETER, rq_buffer r)
      else case WdfRequestRetrieveInputBuffer input_length True r of
        (status, len) \<Rightarrow>
          if \<not> NT_SUCCESS status then Inr (status, rq_buffer r)
          else case len of
            None \<Rightarrow> Inr (STATUS_INVALID_PARAMETER, rq_buffer r)
          | Some actual_input \<Rightarrow>
              if actual_input < 8 \<or> output_length < 8 then Inr (STATUS_INVALID_PARAMETER, rq_buffer r)
              else (case WdfRequestRetrieveOutputBuffer output_length True r of
                Inl e \<Rightarrow> Inl e
              | Inr (status, actual_output) \<Rightarrow>
                  if \<not> NT_SUCCESS status then Inr (status, rq_buffer r)
                  else if actual_output < 8 then Inr (STATUS_BUFFER_TOO_SMALL, rq_buffer r)
                  else let i = unat actual_input; j = unat actual_output
                       in Inr (STATUS_SUCCESS,
                            (if actual_output > actual_input
                             then take i (rq_buffer r) @ replicate (j - i) 0 @ drop j (rq_buffer r)
                             else rq_buffer r))))"

text \<open>Input and output are the same buffer, so copying one to the other leaves it unchanged.\<close>

definition KmdfHelloWorldIoDeviceControl :: io_control where
  "KmdfHelloWorldIoDeviceControl queue r output_length input_length io_control_code =
     (case hello_status r output_length input_length io_control_code of
        Inl e \<Rightarrow> Inl e
      | Inr (status, buf) \<Rightarrow>
          Inr (if status \<noteq> STATUS_PENDING
               then WdfRequestCompleteWithInformation status output_length (r\<lparr>rq_buffer := buf\<rparr>)
               else r\<lparr>rq_buffer := buf\<rparr>))"

text \<open>\<open>p\<close> is the address for the device object, \<open>evt\<close> the address of the control callback.\<close>

definition KmdfHelloWorldEvtDeviceAdd :: "ptr \<Rightarrow> bool \<Rightarrow> ptr \<Rightarrow> device_add" where
  "KmdfHelloWorldEvtDeviceAdd p fault evt driver device_init s =
     (case WdfDeviceCreate p (globals_addr s) device_init s of
        Inl e \<Rightarrow> Inl e
      | Inr (status, device, _, s1) \<Rightarrow>
          if \<not> NT_SUCCESS status then Inr (status, s1)
          else case WdfIoQueueCreate fault (globals_addr s1) (the device) evt s1 of
                 Inl e \<Rightarrow> Inl e
               | Inr (status, _, s2) \<Rightarrow> Inr (status, s2))"

definition DriverEntry :: "ptr \<Rightarrow> ptr \<Rightarrow> bool \<Rightarrow> ptr \<Rightarrow> ptr \<Rightarrow> ptr \<Rightarrow> wdf_state \<Rightarrow> (ntstatus \<times> wdf_state) result" where
  "DriverEntry p_init p_device fault evt_add evt_control driver_object s =
     WdfDriverCreate (\<lambda>_. KmdfHelloWorldEvtDeviceAdd p_device fault evt_control) p_init (globals_addr s) driver_object evt_add s"

section \<open>Properties\<close>

lemma delete_new_devices_all:
  assumes "wdf_driver s \<noteq> nullptr" "devices s = ds @ new" "distinct (devices s)" "length new \<le> k"
    and "\<forall>d \<in> set new. d \<noteq> nullptr \<and> device_objects s d \<noteq> None"
  shows "delete_new_devices k (length ds) s =
    Inr (s\<lparr>devices := ds, device_objects := (\<lambda>d. if d \<in> set new then None else device_objects s d)\<rparr>)"
  using assms
proof (induction new arbitrary: s k rule: rev_induct)
  case Nil
  then show ?case by (cases k) simp_all
next
  case (snoc d new)
  obtain k' where k: "k = Suc k'" using snoc.prems(4) by (cases k) auto
  let ?s = "s\<lparr>devices := ds @ new, device_objects := (device_objects s)(d := None)\<rparr>"
  have rem: "remove1 d (ds @ new @ [d]) = ds @ new" using snoc.prems(2,3) by (simp add: remove1_append remove1_idem)
  have del: "WdfObjectDelete (last (devices s)) s = Inr ?s"
    using snoc.prems(1,2,5) rem by (auto simp: WdfObjectDelete_def Let_def)
  have "delete_new_devices k' (length ds) ?s =
      Inr (?s\<lparr>devices := ds, device_objects := (\<lambda>x. if x \<in> set new then None else device_objects ?s x)\<rparr>)"
    by (rule snoc.IH) (use snoc.prems k in auto)
  moreover have "(\<lambda>x. if x \<in> set new then None else device_objects ?s x) =
      (\<lambda>x. if x \<in> set (new @ [d]) then None else device_objects s x)" by (auto simp: fun_eq_iff)
  ultimately show ?case using k del snoc.prems(2) by simp
qed

text \<open>
  C30: a driver whose device addition fails leaves nothing behind. If the callback fails after it created the devices \<open>new\<close>
  (the initialization structure being consumed if it created any), \<^verbatim>\<open>WdfDriverCreate\<close> returns its status, the vector
  of devices is what it was, exactly the new device objects are freed, and the initialization structure is
  freed if no device took it over. The driver stays registered all the same, so a second attempt fails
  with \<^verbatim>\<open>STATUS_DRIVER_INTERNAL_ERROR\<close>.
\<close>
theorem driver_create_failure_cleans_up:
  assumes "wdf_driver s = nullptr" "driver_object \<noteq> nullptr" "evt \<noteq> nullptr" "p \<noteq> nullptr"
    and "code evt driver_object p (s\<lparr>wdf_driver := driver_object, EvtDriverDeviceAdd := evt, inits := (inits s)(p \<mapsto> zero_init)\<rparr>) =
           Inr (status, s3)"
    and "\<not> NT_SUCCESS status" "devices s3 = devices s @ new" "distinct (devices s3)" "wdf_driver s3 = driver_object"
    and "globals_addr s3 = globals_addr s"
    and "\<forall>d \<in> set new. d \<noteq> nullptr \<and> device_objects s3 d \<noteq> None" "new = [] \<longrightarrow> inits s3 p \<noteq> None"
  shows "\<exists>s'. WdfDriverCreate code p (globals_addr s) driver_object evt s = Inr (status, s') \<and>
           devices s' = devices s \<and>
           device_objects s' = (\<lambda>d. if d \<in> set new then None else device_objects s3 d) \<and>
           inits s' = (if new = [] then (inits s3)(p := None) else inits s3) \<and>
           WdfDriverCreate code p (globals_addr s) driver_object evt s' = Inr (STATUS_DRIVER_INTERNAL_ERROR, s')"
proof -
  let ?s2 = "s\<lparr>wdf_driver := driver_object, EvtDriverDeviceAdd := evt, inits := (inits s)(p \<mapsto> zero_init)\<rparr>"
  define s4 where "s4 = (if new = [] then s3\<lparr>inits := (inits s3)(p := None)\<rparr>
    else s3\<lparr>devices := devices s, device_objects := (\<lambda>d. if d \<in> set new then None else device_objects s3 d)\<rparr>)"
  have free: "WdfDeviceInitFree p s3 = Inr s4" if "new = []"
    using that assms(4,12) by (auto simp: WdfDeviceInitFree_def s4_def)
  have del: "delete_new_devices (length (devices s3)) (length (devices s)) s3 = Inr s4" if "new \<noteq> []"
    unfolding s4_def if_not_P [OF that] by (rule delete_new_devices_all) (use assms in auto)
  have len: "length (devices s3) > length (devices ?s2) \<longleftrightarrow> new \<noteq> []" using assms(7) by simp
  have run: "WdfDriverCreate code p (globals_addr s) driver_object evt s = Inr (status, s4)"
    unfolding WdfDriverCreate_def WdfControlDeviceInitAllocate_def Let_def
    using assms(1,3-6) len free del by (cases "new = []") simp_all
  have "wdf_driver s4 = driver_object" "globals_addr s4 = globals_addr s"
    unfolding s4_def using assms(9,10) by simp_all
  then have again: "WdfDriverCreate code p (globals_addr s) driver_object evt s4 = Inr (STATUS_DRIVER_INTERNAL_ERROR, s4)"
    using assms(2) by (simp add: WdfDriverCreate_def)
  show ?thesis
    by (rule exI [of _ s4], intro conjI run again) (use assms(7) in \<open>simp_all add: s4_def\<close>)
qed

definition sample_wdf :: wdf_state where
  "sample_wdf = \<lparr>globals_addr = 0x100, wdf_driver = nullptr, EvtDriverDeviceAdd = nullptr, devices = [],
     inits = Map.empty, device_objects = Map.empty\<rparr>"

text \<open>The sample driver, whose queue creation fails after the device was created.\<close>

theorem driver_create_failure_cleans_up_witness:
  "\<exists>s'. DriverEntry 0x1000 0x2000 True 0x30 0x40 0x500 sample_wdf = Inr (STATUS_INSUFFICIENT_RESOURCES, s') \<and>
        devices s' = [] \<and> device_objects s' 0x2000 = None \<and> inits s' 0x1000 = None"
proof -
  let ?code = "\<lambda>_ :: ptr. KmdfHelloWorldEvtDeviceAdd 0x2000 True 0x40"
  let ?s2 = "sample_wdf\<lparr>wdf_driver := 0x500, EvtDriverDeviceAdd := 0x30, inits := (inits sample_wdf)(0x1000 \<mapsto> zero_init)\<rparr>"
  let ?s3 = "sample_wdf\<lparr>wdf_driver := 0x500, EvtDriverDeviceAdd := 0x30, devices := [0x2000],
    device_objects := [0x2000 \<mapsto> zero_init\<lparr>EvtIoDeviceControl := 0x40\<rparr>]\<rparr>"
  have call: "?code 0x30 0x500 0x1000 ?s2 = Inr (STATUS_INSUFFICIENT_RESOURCES, ?s3)"
    by (simp add: KmdfHelloWorldEvtDeviceAdd_def WdfDeviceCreate_def WdfDeviceInitFree_def WdfIoQueueCreate_def sample_wdf_def
        Let_def)
  have "\<exists>s'. WdfDriverCreate ?code 0x1000 (globals_addr sample_wdf) 0x500 0x30 sample_wdf = Inr (STATUS_INSUFFICIENT_RESOURCES, s') \<and>
      devices s' = devices sample_wdf \<and>
      device_objects s' = (\<lambda>d. if d \<in> set [0x2000] then None else device_objects ?s3 d) \<and>
      inits s' = (if [0x2000 :: ptr] = [] then (inits ?s3)(0x1000 := None) else inits ?s3) \<and>
      WdfDriverCreate ?code 0x1000 (globals_addr sample_wdf) 0x500 0x30 s' = Inr (STATUS_DRIVER_INTERNAL_ERROR, s')"
    by (rule driver_create_failure_cleans_up [where code = ?code and evt = "0x30" and driver_object = "0x500" and p = "0x1000"
          and s = sample_wdf and status = STATUS_INSUFFICIENT_RESOURCES and ?s3.0 = ?s3 and new = "[0x2000]"])
      (rule call | simp add: sample_wdf_def)+
  then show ?thesis by (auto simp: DriverEntry_def sample_wdf_def)
qed

lemma hello_reply:
  assumes "length input < 2 ^ 32" "length out < 2 ^ 32" "8 \<le> length input" "8 \<le> length out"
    and "rq_buffer_size r = word_of_nat (length input)"
  shows "hello_status r (word_of_nat (length out)) (word_of_nat (length input)) 1 =
     Inr (if length out \<le> length input then STATUS_SUCCESS else STATUS_BUFFER_TOO_SMALL, rq_buffer r)"
proof -
  have u: "unat (word_of_nat n :: u64) = n" if "n < 2 ^ 32" for n
    using that by (simp add: unsigned_of_nat take_bit_nat_eq_self)
  have le: "(word_of_nat m :: u64) < word_of_nat n \<longleftrightarrow> m < n" if "m < 2 ^ 32" "n < 2 ^ 32" for m n
    using u that by (simp add: word_less_nat_alt)
  have n0: "(word_of_nat (length input) :: u64) \<noteq> 0" using u [OF assms(1)] assms(3) by (metis unsigned_0 not_numeral_le_zero)
  have e: "(word_of_nat (length input) :: u64) < 8 \<longleftrightarrow> False" "(word_of_nat (length out) :: u64) < 8 \<longleftrightarrow> False"
    using le [of "length input" 8] le [of "length out" 8] assms by simp_all
  show ?thesis using n0 e le [OF assms(1,2)] assms(5)
    by (auto simp: hello_status_def IOCTL_KMDF_HELLO_WORLD_CTL_METHOD_BUFFERED_def WdfRequestRetrieveInputBuffer_def
        WdfRequestRetrieveOutputBuffer_def NT_SUCCESS_def Let_def)
qed

text \<open>
  a control request to the sample driver. With input and output of at least eight bytes, a request whose output
  is no longer than its input succeeds and returns the first bytes of the input. A request whose output is longer
  fails, although the request's buffer has room for it: the framework reports the length of the input
  as the length of the output buffer. The output buffer is overwritten with the input and zeros all the
  same, and the number of bytes returned is the length of the output.
\<close>
theorem io_control_echo:
  assumes "device_objects s device = Some i" "EvtIoDeviceControl i \<noteq> nullptr"
    and "length input < 2 ^ 32" "length out < 2 ^ 32" "8 \<le> length input" "8 \<le> length out"
  shows "usersim_device_io_control (\<lambda>_. KmdfHelloWorldIoDeviceControl) True device 1 input out s =
     Inr (length out \<le> length input, Some (word_of_nat (length out)),
          take (length out) (input @ replicate (length out - length input) 0))"
proof -
  define r where "r = \<lparr>rq_status = 0, rq_information = 0, rq_buffer_size = word_of_nat (length input),
    rq_buffer = input @ replicate (max (max (length input) (length out)) 1 - length input) 0\<rparr>"
  have h: "hello_status r (word_of_nat (length out)) (word_of_nat (length input)) 1 =
     Inr (if length out \<le> length input then STATUS_SUCCESS else STATUS_BUFFER_TOO_SMALL, rq_buffer r)"
    by (rule hello_reply [OF assms(3-6)]) (simp add: r_def)
  have c: "unat (ucast (word_of_nat (length out) :: u64) :: u32) = length out"
    using assms(4) by (simp add: unsigned_ucast_eq unsigned_of_nat take_bit_nat_eq_self)
  have c2: "(ucast (word_of_nat (length out) :: u64) :: u32) = word_of_nat (length out)"
    using c by (metis of_nat_unat ucast_id)
  have b: "length out \<le> length (rq_buffer r)" "take (length out) (rq_buffer r) =
      take (length out) (input @ replicate (length out - length input) 0)"
    by (auto simp: r_def max_def)
  show ?thesis
    unfolding usersim_device_io_control_def assms(1) option.case r_def [symmetric] Let_def
    using assms(2) h c c2 b
    by (auto simp: KmdfHelloWorldIoDeviceControl_def WdfRequestCompleteWithInformation_def NT_SUCCESS_def)
qed

theorem io_control_echo_witness:
  "\<exists>s. usersim_device_io_control (\<lambda>_. KmdfHelloWorldIoDeviceControl) True 0x2000 1 [1,2,3,4,5,6,7,8] (replicate 9 0xFF) s =
         Inr (False, Some 9, [1,2,3,4,5,6,7,8,0])"
proof -
  let ?s = "sample_wdf\<lparr>device_objects := [0x2000 \<mapsto> zero_init\<lparr>EvtIoDeviceControl := 0x40\<rparr>]\<rparr>"
  have "usersim_device_io_control (\<lambda>_. KmdfHelloWorldIoDeviceControl) True 0x2000 1 [1,2,3,4,5,6,7,8] (replicate 9 0xFF) ?s =
      Inr (length (replicate 9 (0xFF :: u8)) \<le> length [1,2,3,4,5,6,7,8 :: u8], Some (word_of_nat (length (replicate 9 (0xFF :: u8)))),
        take (length (replicate 9 (0xFF :: u8))) ([1,2,3,4,5,6,7,8] @ replicate (length (replicate 9 (0xFF :: u8)) - length [1,2,3,4,5,6,7,8 :: u8]) 0))"
    by (rule io_control_echo [where i = "zero_init\<lparr>EvtIoDeviceControl := 0x40\<rparr>"]) simp_all
  then show ?thesis by (intro exI [of _ ?s]) simp
qed

end
