(* ===== verification/Mdl.thy ===== *)
theory Mdl
  imports Memory
begin

text \<open>
  Memory descriptor lists: \<^verbatim>\<open>src/mm.cpp\<close>, the MDL routines of \<^verbatim>\<open>src/io.cpp\<close>, the macro \<^verbatim>\<open>MmInitializeMdl\<close> of
  \<^verbatim>\<open>inc/usersim/mm.h\<close>, and the net buffers of \<^verbatim>\<open>src/ndis_um.cpp\<close> that read their data through an MDL. The
  descriptors are kept by address beside the allocator's state; \<^verbatim>\<open>unsigned long\<close> has 32 bits.
\<close>

section \<open>Descriptors\<close>

record mdl =
  md_next :: ptr
  md_size :: u64
  md_flags :: u64
  start_va :: ptr
  byte_offset :: u32
  byte_count :: u32

abbreviation MDL_FLAG_MAPPED :: u64 where "MDL_FLAG_MAPPED \<equiv> 1"
abbreviation USERSIM_TAG_MDL :: u32 where "USERSIM_TAG_MDL \<equiv> 0x646D7375"

definition PAGE_ALIGN :: "ptr \<Rightarrow> ptr" where
  "PAGE_ALIGN va = va AND NOT 0xFFF"

definition BYTE_OFFSET :: "ptr \<Rightarrow> u32" where
  "BYTE_OFFSET va = ucast (va AND 0xFFF)"

definition ADDRESS_AND_SIZE_TO_SPAN_PAGES :: "ptr \<Rightarrow> u32 \<Rightarrow> u32" where
  "ADDRESS_AND_SIZE_TO_SPAN_PAGES va sz =
     drop_bit 12 (sz - 1) + drop_bit 12 (((sz - 1) AND 0xFFF) + (ucast va AND 0xFFF)) + 1"

definition MmInitializeMdl :: "ptr \<Rightarrow> u32 \<Rightarrow> mdl" where
  "MmInitializeMdl base_va len =
     \<lparr>md_next = nullptr,
      md_size = ucast (ucast (40 + 4 * ucast (ADDRESS_AND_SIZE_TO_SPAN_PAGES base_va len) :: u64) :: u16),
      md_flags = 0, start_va = PAGE_ALIGN base_va, byte_offset = BYTE_OFFSET base_va, byte_count = len\<rparr>"

definition MmGetMdlByteOffset :: "mdl \<Rightarrow> u32" where "MmGetMdlByteOffset = byte_offset"
definition MmGetMdlBaseVa :: "mdl \<Rightarrow> ptr" where "MmGetMdlBaseVa = start_va"
definition MmGetMdlByteCount :: "mdl \<Rightarrow> u32" where "MmGetMdlByteCount = byte_count"

definition MmGetMdlVirtualAddress :: "mdl \<Rightarrow> ptr" where
  "MmGetMdlVirtualAddress d = start_va d + ucast (byte_offset d)"

text \<open>\<open>fault\<close> is the answer of the fault injector; \<open>kernel_mode\<close> whether the access mode is \<^verbatim>\<open>KernelMode\<close>.\<close>

definition MmMapLockedPagesSpecifyCache :: "bool \<Rightarrow> bool \<Rightarrow> bool \<Rightarrow> mdl \<Rightarrow> (ptr \<times> mdl) result" where
  "MmMapLockedPagesSpecifyCache fault kernel_mode bug_check_on_failure d =
     (if md_flags d AND MDL_FLAG_MAPPED \<noteq> 0 then Inl (Bug_Check 0)
      else if fault then (if bug_check_on_failure \<and> kernel_mode then Inl (Bug_Check 0) else Inr (nullptr, d))
      else Inr (start_va d, d\<lparr>md_flags := md_flags d OR MDL_FLAG_MAPPED\<rparr>))"

definition MmGetSystemAddressForMdlSafe :: "bool \<Rightarrow> mdl \<Rightarrow> (ptr \<times> mdl) result" where
  "MmGetSystemAddressForMdlSafe fault d =
     (if md_flags d AND MDL_FLAG_MAPPED = 0
      then (case MmMapLockedPagesSpecifyCache fault True False d of
              Inl e \<Rightarrow> Inl e
            | Inr (p, d') \<Rightarrow> Inr (if p = nullptr then nullptr else start_va d' + ucast (byte_offset d'), d'))
      else Inr (start_va d + ucast (byte_offset d), d))"

abbreviation DRIVER_UNMAPPING_INVALID_VIEW :: u32 where "DRIVER_UNMAPPING_INVALID_VIEW \<equiv> 0xD7"

definition MmUnmapLockedPagesCPP :: "mdl \<Rightarrow> mdl result" where
  "MmUnmapLockedPagesCPP d =
     (if md_flags d AND MDL_FLAG_MAPPED = 0 then Inl (Bug_Check DRIVER_UNMAPPING_INVALID_VIEW)
      else Inr (d\<lparr>md_flags := md_flags d AND NOT MDL_FLAG_MAPPED\<rparr>))"

text \<open>\<open>ok\<close> is the result of \<^verbatim>\<open>VirtualProtect\<close> and \<^verbatim>\<open>VirtualFree\<close>.\<close>

definition MmProtectMdlSystemAddress :: "bool \<Rightarrow> ntstatus" where
  "MmProtectMdlSystemAddress ok = (if ok then STATUS_SUCCESS else STATUS_INVALID_PARAMETER)"

definition MmFreePagesFromMdl :: "bool \<Rightarrow> mdl \<Rightarrow> mdl" where
  "MmFreePagesFromMdl ok d = (if ok then d\<lparr>start_va := nullptr, byte_count := 0\<rparr> else d)"

definition IoBuildPartialMdl :: "mdl \<Rightarrow> mdl \<Rightarrow> ptr \<Rightarrow> u32 \<Rightarrow> mdl" where
  "IoBuildPartialMdl source_mdl target_mdl virtual_address len =
     (let offset = ucast (virtual_address - start_va source_mdl) - byte_offset source_mdl
      in target_mdl\<lparr>start_va := PAGE_ALIGN virtual_address,
                    byte_count := (if len = 0 then byte_count source_mdl - offset else len),
                    byte_offset := BYTE_OFFSET virtual_address, md_flags := md_flags source_mdl\<rparr>)"

section \<open>Allocation\<close>

record mdl_state =
  heap :: mem_state
  mdls :: "ptr \<rightharpoonup> mdl"

definition IoAllocateMdl :: "bool \<Rightarrow> ptr \<Rightarrow> backtrace \<Rightarrow> ptr \<Rightarrow> u32 \<Rightarrow> mdl_state \<Rightarrow> (ptr \<times> mdl_state) result" where
  "IoAllocateMdl fault p bt virtual_address len s =
     (case cxplat_allocate fault p bt CXPLAT_POOL_FLAG_NON_PAGED 40 USERSIM_TAG_MDL (heap s) of
        Inl e \<Rightarrow> Inl e
      | Inr (m, h) \<Rightarrow>
          if m = nullptr then Inr (nullptr, s\<lparr>heap := h\<rparr>)
          else Inr (m, s\<lparr>heap := h, mdls := (mdls s)(m \<mapsto> MmInitializeMdl virtual_address len)\<rparr>))"

definition IoFreeMdl :: "backtrace \<Rightarrow> ptr \<Rightarrow> mdl_state \<Rightarrow> mdl_state result" where
  "IoFreeMdl bt m s =
     (case cxplat_free bt m CXPLAT_POOL_FLAG_NON_PAGED USERSIM_TAG_MDL (heap s) of
        Inl e \<Rightarrow> Inl e
      | Inr h \<Rightarrow> Inr (s\<lparr>heap := h, mdls := (mdls s)(m := None)\<rparr>))"

text \<open>\<open>va\<close> is what \<^verbatim>\<open>VirtualAlloc\<close> returns.\<close>

definition MmAllocatePagesForMdlEx ::
  "bool \<Rightarrow> ptr \<Rightarrow> backtrace \<Rightarrow> backtrace \<Rightarrow> ptr \<Rightarrow> u64 \<Rightarrow> mdl_state \<Rightarrow> (ptr \<times> mdl_state) result" where
  "MmAllocatePagesForMdlEx fault p bt bt' va total_bytes s =
     (if total_bytes > 0xFFFFFFFF then Inr (nullptr, s)
      else case ExAllocatePoolUninitializedCPP fault p bt NonPagedPoolNx 40 USERSIM_TAG_MDL (heap s) of
        Inl e \<Rightarrow> Inl e
      | Inr (m, h) \<Rightarrow>
          if m = nullptr then Inr (nullptr, s\<lparr>heap := h\<rparr>)
          else if va = nullptr
          then (case ExFreePoolCPP bt' m h of Inl e \<Rightarrow> Inl e | Inr h' \<Rightarrow> Inr (nullptr, s\<lparr>heap := h'\<rparr>))
          else Inr (m, s\<lparr>heap := h, mdls := (mdls s)(m \<mapsto>
                 \<lparr>md_next = nullptr, md_size = 0, md_flags = 0, start_va = va, byte_offset = 0,
                  byte_count = ucast total_bytes\<rparr>)\<rparr>))"

section \<open>Probing\<close>

text \<open>\<open>query a\<close> is the protection that \<^verbatim>\<open>VirtualQuery\<close> reports at an address, 0 if it reports none.\<close>

definition ProbeForReadCPP :: "(u64 \<Rightarrow> u32) \<Rightarrow> ptr \<Rightarrow> u64 \<Rightarrow> u32 \<Rightarrow> unit result" where
  "ProbeForReadCPP query address len alignment =
     (if alignment = 0 then Inl Out_Of_Bounds
      else if address mod ucast alignment \<noteq> 0 then Inl (Raised STATUS_DATATYPE_MISALIGNMENT)
      else let protect = query (address + len - 1)
           in if protect AND 0xE6 \<noteq> 0 \<and> protect AND 0x100 = 0 then Inr ()
              else Inl (Raised STATUS_ACCESS_VIOLATION))"

definition ProbeForWriteCPP :: "(u64 \<Rightarrow> u32) \<Rightarrow> ptr \<Rightarrow> u64 \<Rightarrow> u32 \<Rightarrow> unit result" where
  "ProbeForWriteCPP = ProbeForReadCPP"

section \<open>Net buffers\<close>

text \<open>Net buffers live in the C run-time heap; \<open>p\<close> is what \<^verbatim>\<open>malloc\<close> returns.\<close>

record net_buffer =
  DataLength :: u32
  MdlChain :: ptr

record ndis_state =
  nb_mdls :: "ptr \<rightharpoonup> mdl"
  net_buffers :: "ptr \<rightharpoonup> net_buffer"
  FirstNetBuffer :: "ptr \<rightharpoonup> ptr"

definition NdisAllocateNetBuffer :: "bool \<Rightarrow> ptr \<Rightarrow> ptr \<Rightarrow> u64 \<Rightarrow> ndis_state \<Rightarrow> ptr \<times> ndis_state" where
  "NdisAllocateNetBuffer fault p mdl_chain data_length s =
     (if fault then (nullptr, s)
      else if p = nullptr then (nullptr, s)
      else (p, s\<lparr>net_buffers := (net_buffers s)(p \<mapsto> \<lparr>DataLength = ucast data_length, MdlChain = mdl_chain\<rparr>)\<rparr>))"

definition NdisFreeNetBuffer :: "ptr \<Rightarrow> ndis_state \<Rightarrow> ndis_state" where
  "NdisFreeNetBuffer p s = s\<lparr>net_buffers := (net_buffers s)(p := None)\<rparr>"

text \<open>A new list is not initialized: its first buffer is unknown, here null.\<close>

definition NdisAllocateNetBufferList :: "bool \<Rightarrow> ptr \<Rightarrow> ndis_state \<Rightarrow> ptr \<times> ndis_state" where
  "NdisAllocateNetBufferList fault p s =
     (if fault then (nullptr, s)
      else if p = nullptr then (nullptr, s)
      else (p, s\<lparr>FirstNetBuffer := (FirstNetBuffer s)(p \<mapsto> nullptr)\<rparr>))"

definition NdisFreeNetBufferList :: "ptr \<Rightarrow> ndis_state \<Rightarrow> ndis_state" where
  "NdisFreeNetBufferList p s = s\<lparr>FirstNetBuffer := (FirstNetBuffer s)(p := None)\<rparr>"

text \<open>The three answers of the fault injector are those of this call and of the two allocations.\<close>

definition NdisAllocateCloneNetBufferList ::
  "bool \<Rightarrow> bool \<Rightarrow> bool \<Rightarrow> ptr \<Rightarrow> ptr \<Rightarrow> ptr \<Rightarrow> ndis_state \<Rightarrow> (ptr \<times> ndis_state) result" where
  "NdisAllocateCloneNetBufferList fault fault_list fault_buffer p_list p_buffer original s =
     (if fault then Inr (nullptr, s)
      else case NdisAllocateNetBufferList fault_list p_list s of
        (nbl, s1) \<Rightarrow>
          if nbl = nullptr then Inr (nullptr, s1)
          else case FirstNetBuffer s1 original of
            None \<Rightarrow> Inl Out_Of_Bounds
          | Some original_nb \<Rightarrow>
              (case net_buffers s1 original_nb of
                 None \<Rightarrow> Inl Out_Of_Bounds
               | Some b \<Rightarrow>
                   (case NdisAllocateNetBuffer fault_buffer p_buffer (MdlChain b) (ucast (DataLength b)) s1 of
                      (nb, s2) \<Rightarrow>
                        if nb = nullptr then Inr (nullptr, NdisFreeNetBufferList nbl s2)
                        else Inr (nbl, s2\<lparr>FirstNetBuffer := (FirstNetBuffer s2)(nbl \<mapsto> nb)\<rparr>))))"

definition NdisFreeCloneNetBufferList :: "ptr \<Rightarrow> ndis_state \<Rightarrow> ndis_state" where
  "NdisFreeCloneNetBufferList p s = NdisFreeNetBufferList p s"

definition nb_mdl :: "ptr \<Rightarrow> ndis_state \<Rightarrow> (ptr \<times> mdl) result" where
  "nb_mdl nb s =
     (case net_buffers s nb of
        None \<Rightarrow> Inl Out_Of_Bounds
      | Some b \<Rightarrow> (case nb_mdls s (MdlChain b) of None \<Rightarrow> Inl Out_Of_Bounds | Some d \<Rightarrow> Inr (MdlChain b, d)))"

definition NdisGetDataBuffer :: "bool \<Rightarrow> bool \<Rightarrow> ptr \<Rightarrow> u32 \<Rightarrow> ndis_state \<Rightarrow> (ptr \<times> ndis_state) result" where
  "NdisGetDataBuffer fault fault_map nb bytes_needed s =
     (if fault then Inr (nullptr, s)
      else case nb_mdl nb s of
        Inl e \<Rightarrow> Inl e
      | Inr (m, d) \<Rightarrow>
          if MmGetMdlByteCount d \<ge> bytes_needed
          then (case MmGetSystemAddressForMdlSafe fault_map d of
                  Inl e \<Rightarrow> Inl e
                | Inr (p, d') \<Rightarrow> Inr (p, s\<lparr>nb_mdls := (nb_mdls s)(m \<mapsto> d')\<rparr>))
          else Inr (nullptr, s))"

definition NdisRetreatNetBufferDataStart :: "ptr \<Rightarrow> u32 \<Rightarrow> ntstatus" where
  "NdisRetreatNetBufferDataStart nb delta = STATUS_NOT_IMPLEMENTED"

definition NdisAdvanceNetBufferDataStart :: "ptr \<Rightarrow> u32 \<Rightarrow> ndis_state \<Rightarrow> ndis_state result" where
  "NdisAdvanceNetBufferDataStart nb delta s =
     (case nb_mdl nb s of
        Inl e \<Rightarrow> Inl e
      | Inr (m, d) \<Rightarrow> Inr (s\<lparr>nb_mdls := (nb_mdls s)(m \<mapsto> d\<lparr>byte_offset := byte_offset d + delta\<rparr>)\<rparr>))"

section \<open>Address lemmas\<close>

lemma ucast_page_offset: "ucast (BYTE_OFFSET va) = va AND 0xFFF"
proof -
  have m: "(0xFFF :: 'a::len word) = mask 12" by (simp add: mask_eq_exp_minus_1)
  have "va AND 0xFFF = take_bit 12 va" by (simp add: m take_bit_eq_mask)
  then show ?thesis by (simp add: BYTE_OFFSET_def unsigned_ucast_eq unsigned_take_bit_eq word_eq_iff_unsigned take_bit_nat_eq_self_iff
      flip: take_bit_eq_mask)
qed

lemma page_split: "PAGE_ALIGN va + ucast (BYTE_OFFSET va) = va"
proof -
  have "(va AND NOT 0xFFF) AND (va AND 0xFFF) = 0" by (simp add: bit_eq_iff bit_simps)
  then have "(va AND NOT 0xFFF) + (va AND 0xFFF) = (va AND NOT 0xFFF) OR (va AND 0xFFF)"
    by (rule disjunctive_add_eq_or)
  also have "\<dots> = va" by (auto simp: bit_eq_iff bit_simps)
  finally show ?thesis by (simp add: ucast_page_offset PAGE_ALIGN_def)
qed

lemma MmInitializeMdl_address [simp]:
  "MmGetMdlVirtualAddress (MmInitializeMdl va len) = va"
  "byte_count (MmInitializeMdl va len) = len" "md_flags (MmInitializeMdl va len) = 0"
  "start_va (MmInitializeMdl va len) = PAGE_ALIGN va"
  using page_split [of va] by (simp_all add: MmGetMdlVirtualAddress_def MmInitializeMdl_def)

lemma ucast_add_low: "(ucast (a + b :: u64) :: u32) = ucast a + ucast b"
proof (rule word_unat_eq_iff [THEN iffD2])
  have d: "(4294967296 :: nat) dvd 18446744073709551616" by simp
  have "unat (ucast (a + b) :: u32) = (unat a + unat b) mod 4294967296"
    by (simp add: unsigned_ucast_eq unat_word_ariths take_bit_eq_mod mod_mod_cancel [OF d])
  also have "\<dots> = unat (ucast a + ucast b :: u32)"
    by (simp add: unsigned_ucast_eq unat_word_ariths take_bit_eq_mod mod_simps)
  finally show "unat (ucast (a + b) :: u32) = unat (ucast a + ucast b :: u32)" .
qed

lemma ucast_up_down [simp]: "ucast (ucast (a :: u32) :: u64) = a"
  by (simp add: word_unat_eq_iff unsigned_ucast_eq take_bit_word_eq_self)

lemma mapped_flag [simp]: "(f OR MDL_FLAG_MAPPED) AND MDL_FLAG_MAPPED = 1"
  by (simp add: bit_eq_iff bit_simps)

lemma unmapped_flag: "f AND MDL_FLAG_MAPPED = 0 \<Longrightarrow> (f OR MDL_FLAG_MAPPED) AND NOT MDL_FLAG_MAPPED = f"
  by (auto simp: bit_eq_iff bit_simps)

lemma system_address_unmapped:
  assumes "md_flags d AND MDL_FLAG_MAPPED = 0" "start_va d \<noteq> nullptr"
  shows "MmGetSystemAddressForMdlSafe False d =
    Inr (MmGetMdlVirtualAddress d, d\<lparr>md_flags := md_flags d OR MDL_FLAG_MAPPED\<rparr>)"
  using assms by (simp add: MmGetSystemAddressForMdlSafe_def MmMapLockedPagesSpecifyCache_def MmGetMdlVirtualAddress_def)

lemma system_address_mapped:
  assumes "md_flags d AND MDL_FLAG_MAPPED \<noteq> 0"
  shows "MmGetSystemAddressForMdlSafe fault d = Inr (MmGetMdlVirtualAddress d, d)"
  using assms by (simp add: MmGetSystemAddressForMdlSafe_def MmGetMdlVirtualAddress_def)

section \<open>Properties\<close>

text \<open>
  C35: the life of a descriptor. A descriptor from \<^verbatim>\<open>IoAllocateMdl\<close> has the requested length; its system address is the address
  it was made for, again without a second mapping when it is asked for once more; mapping it while it is mapped, or
  unmapping it when it is not, stops the system; unmapping restores it; and \<^verbatim>\<open>IoFreeMdl\<close> gives its memory
  back, leaving no leak.
\<close>
theorem mdl_lifecycle:
  assumes "IoAllocateMdl fault p bt va len s = Inr (m, s1)" "m \<noteq> nullptr" "blocks (heap s) p = None"
    and "PAGE_ALIGN va \<noteq> nullptr"
  shows "\<exists>d d1 s2. mdls s1 m = Some d \<and> MmGetMdlByteCount d = len \<and>
           MmGetSystemAddressForMdlSafe False d = Inr (va, d1) \<and>
           (\<forall>f. MmGetSystemAddressForMdlSafe f d1 = Inr (va, d1)) \<and>
           (\<forall>f k b. MmMapLockedPagesSpecifyCache f k b d1 = Inl (Bug_Check 0)) \<and>
           MmUnmapLockedPagesCPP d1 = Inr d \<and>
           MmUnmapLockedPagesCPP d = Inl (Bug_Check DRIVER_UNMAPPING_INVALID_VIEW) \<and>
           IoFreeMdl bt' m s1 = Inr s2 \<and> blocks (heap s2) = blocks (heap s) \<and>
           map_option allocations (leaks (heap s2)) = map_option (\<lambda>d. (allocations d)(m := None)) (leaks (heap s))"
proof -
  obtain h where h: "cxplat_allocate fault p bt CXPLAT_POOL_FLAG_NON_PAGED 40 USERSIM_TAG_MDL (heap s) = Inr (m, h)"
    "s1 = s\<lparr>heap := h, mdls := (mdls s)(m \<mapsto> MmInitializeMdl va len)\<rparr>"
    using assms(1,2) by (auto simp: IoAllocateMdl_def split: sum.splits if_splits)
  obtain h2 where h2: "cxplat_free bt' m CXPLAT_POOL_FLAG_NON_PAGED USERSIM_TAG_MDL h = Inr h2" "blocks h2 = blocks (heap s)"
    "map_option allocations (leaks h2) = map_option (\<lambda>d. (allocations d)(m := None)) (leaks (heap s))"
    using allocate_free [OF h(1) assms(2,3)] by blast
  let ?d = "MmInitializeMdl va len" let ?d1 = "MmInitializeMdl va len\<lparr>md_flags := 1\<rparr>"
  have v: "MmGetMdlVirtualAddress ?d1 = va"
    using MmInitializeMdl_address(1) [of va len] by (simp add: MmGetMdlVirtualAddress_def)
  have "MmGetSystemAddressForMdlSafe False ?d = Inr (va, ?d1)"
    using assms(4) by (simp add: system_address_unmapped)
  moreover have "MmGetSystemAddressForMdlSafe f ?d1 = Inr (va, ?d1)" for f
    using v by (simp add: system_address_mapped)
  moreover have "MmUnmapLockedPagesCPP ?d1 = Inr ?d"
    by (simp add: MmUnmapLockedPagesCPP_def MmInitializeMdl_def)
  ultimately show ?thesis
    using h(2) h2 by (intro exI [of _ ?d] exI [of _ ?d1] exI [of _ "s\<lparr>heap := h2, mdls := (mdls s)(m := None)\<rparr>"])
      (simp add: MmMapLockedPagesSpecifyCache_def MmUnmapLockedPagesCPP_def IoFreeMdl_def MmGetMdlByteCount_def)
qed

definition sample_mdls :: mdl_state where
  "sample_mdls = \<lparr>heap = sample_heap, mdls = Map.empty\<rparr>"

theorem mdl_lifecycle_witness:
  "\<exists>s1 d. IoAllocateMdl False 4096 None 0x12345 100 sample_mdls = Inr (4112, s1) \<and> mdls s1 4112 = Some d \<and>
          (\<exists>d1. MmGetSystemAddressForMdlSafe False d = Inr (0x12345, d1))"
proof -
  obtain s1 where s1: "IoAllocateMdl False 4096 None 0x12345 100 sample_mdls = Inr (4112, s1)"
    by (simp add: IoAllocateMdl_def sample_mdls_def cxplat_allocate_def sample_heap_def pointer_defs has_flag_def Let_def)
  have b: "blocks (heap sample_mdls) 4096 = None" by (simp add: sample_mdls_def sample_heap_def)
  have "PAGE_ALIGN 0x12345 \<noteq> nullptr" by (simp add: PAGE_ALIGN_def)
  from mdl_lifecycle [OF s1 _ b this, where bt' = None] s1 show ?thesis by auto
qed

text \<open>
  a partial descriptor describes the part of its source that starts at the given address. If the source describes
  the bytes from \<open>a\<close> on and \<open>off\<close> is at most its length, the partial descriptor for \<open>a + off\<close> has that address and, when
  no length is given, reaches exactly to the end of the source. A given length is taken as it is, even beyond the
  end of the source. Taking a part of a part is taking a part at the sum of the offsets.
\<close>
theorem partial_mdl_describes:
  fixes off off' :: u32
  assumes "off \<le> byte_count d"
  shows "(let va = MmGetMdlVirtualAddress d + ucast off; part = IoBuildPartialMdl d t va len
          in MmGetMdlVirtualAddress part = va \<and>
             unat (byte_count part) = (if len = 0 then unat (byte_count d) - unat off else unat len)) \<and>
         (let va = MmGetMdlVirtualAddress d + ucast off; va' = va + ucast off'
          in IoBuildPartialMdl (IoBuildPartialMdl d t va 0) t va' 0 = IoBuildPartialMdl d t va' 0)"
proof -
  have addr: "MmGetMdlVirtualAddress (IoBuildPartialMdl d t va len) = va" for d va len
    using page_split [of va] by (simp add: IoBuildPartialMdl_def MmGetMdlVirtualAddress_def Let_def)
  have offs: "ucast (MmGetMdlVirtualAddress d + x - start_va d) - byte_offset d = (ucast x :: u32)" for x d
    by (simp add: MmGetMdlVirtualAddress_def ucast_add_low)
  have cnt: "byte_count (IoBuildPartialMdl d t (MmGetMdlVirtualAddress d + x) len) = (if len = 0 then byte_count d - ucast x else len)"
    for d x len by (simp add: IoBuildPartialMdl_def Let_def offs)
  let ?va = "MmGetMdlVirtualAddress d + ucast off" let ?va' = "?va + ucast off'"
  let ?part = "IoBuildPartialMdl d t ?va 0"
  have two: "byte_count (IoBuildPartialMdl ?part t ?va' 0) = byte_count (IoBuildPartialMdl d t ?va' 0)"
    using cnt [of ?part "ucast off'" 0] cnt [of d "ucast off" 0] cnt [of d "ucast off + ucast off'" 0]
    by (simp add: addr ucast_add_low add.assoc diff_diff_eq)
  have "IoBuildPartialMdl ?part t ?va' 0 = t\<lparr>start_va := PAGE_ALIGN ?va', byte_count := byte_count (IoBuildPartialMdl ?part t ?va' 0),
      byte_offset := BYTE_OFFSET ?va', md_flags := md_flags d\<rparr>" by (simp add: IoBuildPartialMdl_def Let_def)
  moreover have "IoBuildPartialMdl d t ?va' 0 = t\<lparr>start_va := PAGE_ALIGN ?va', byte_count := byte_count (IoBuildPartialMdl d t ?va' 0),
      byte_offset := BYTE_OFFSET ?va', md_flags := md_flags d\<rparr>" by (simp add: IoBuildPartialMdl_def Let_def)
  ultimately have "IoBuildPartialMdl ?part t ?va' 0 = IoBuildPartialMdl d t ?va' 0" using two by metis
  moreover have "unat (byte_count d - off) = unat (byte_count d) - unat off" using assms by (simp add: unat_sub)
  ultimately show ?thesis using cnt [of d "ucast off" len] by (simp add: Let_def addr)
qed

theorem partial_mdl_describes_witness:
  "(let d = MmInitializeMdl 0x12FF0 100; va = MmGetMdlVirtualAddress d + ucast (0x20 :: u32)
    in unat (byte_count (IoBuildPartialMdl d d va 0)) = 100 - 32 \<and>
       IoBuildPartialMdl (IoBuildPartialMdl d d va 0) d (va + ucast (5 :: u32)) 0 = IoBuildPartialMdl d d (va + ucast (5 :: u32)) 0)"
proof -
  have "(0x20 :: u32) \<le> byte_count (MmInitializeMdl 0x12FF0 100)" by simp
  from partial_mdl_describes [OF this, where t = "MmInitializeMdl 0x12FF0 100" and len = 0 and off' = 5] show ?thesis by (simp add: Let_def)
qed

text \<open>
  Reading a net buffer. \<^verbatim>\<open>NdisGetDataBuffer\<close> returns the address of the data exactly when the descriptor is long enough,
  and advancing the start of the data by \<open>delta\<close> moves that address by \<open>delta\<close>. The length does not shrink: after the
  advance a request for the whole original length still succeeds, and its last \<open>delta\<close> bytes are not described
  by the descriptor.
\<close>
theorem net_buffer_advance_keeps_length:
  assumes "net_buffers s nb = Some b" "nb_mdls s (MdlChain b) = Some d" "start_va d \<noteq> nullptr"
    and "unat (byte_offset d) + unat delta < 2 ^ 32"
  shows "(\<exists>s1. NdisGetDataBuffer False False nb n s =
             Inr (if n \<le> byte_count d then MmGetMdlVirtualAddress d else nullptr, s1)) \<and>
         (\<exists>s1 s2. NdisAdvanceNetBufferDataStart nb delta s = Inr s1 \<and>
             NdisGetDataBuffer False False nb n s1 =
               Inr (if n \<le> byte_count d then MmGetMdlVirtualAddress d + ucast delta else nullptr, s2))"
proof -
  have get: "\<exists>s1. NdisGetDataBuffer False False nb n s =
      Inr (if n \<le> byte_count d then MmGetMdlVirtualAddress d else nullptr, s1)"
    if "net_buffers s nb = Some b" "nb_mdls s (MdlChain b) = Some d" "start_va d \<noteq> nullptr" for s d
    using that system_address_unmapped [of d] system_address_mapped [of d False]
    by (cases "md_flags d AND MDL_FLAG_MAPPED = 0")
      (auto simp: NdisGetDataBuffer_def nb_mdl_def MmGetMdlByteCount_def)
  let ?d = "d\<lparr>byte_offset := byte_offset d + delta\<rparr>" let ?s = "s\<lparr>nb_mdls := (nb_mdls s)(MdlChain b \<mapsto> ?d)\<rparr>"
  have "(ucast (byte_offset d + delta) :: u64) = ucast (byte_offset d) + ucast delta"
    by (rule word_unat_eq_iff [THEN iffD2]) (use assms(4) in \<open>simp add: unsigned_ucast_eq unat_word_ariths take_bit_eq_mod\<close>)
  then have "MmGetMdlVirtualAddress ?d = MmGetMdlVirtualAddress d + ucast delta" by (simp add: MmGetMdlVirtualAddress_def add.assoc)
  moreover have "NdisAdvanceNetBufferDataStart nb delta s = Inr ?s"
    using assms(1,2) by (simp add: NdisAdvanceNetBufferDataStart_def nb_mdl_def)
  ultimately show ?thesis using get [OF assms(1-3)] get [of ?s ?d] assms(1,3) by (cases "n \<le> byte_count d") simp_all
qed

definition sample_ndis :: ndis_state where
  "sample_ndis = \<lparr>nb_mdls = [0x50 \<mapsto> MmInitializeMdl 0x12000 64], net_buffers = [0x60 \<mapsto> \<lparr>DataLength = 64, MdlChain = 0x50\<rparr>],
     FirstNetBuffer = Map.empty\<rparr>"

theorem net_buffer_advance_keeps_length_witness:
  "\<exists>s1 s2. NdisAdvanceNetBufferDataStart 0x60 14 sample_ndis = Inr s1 \<and>
           NdisGetDataBuffer False False 0x60 64 s1 = Inr (0x1200E, s2)"
proof -
  have "start_va (MmInitializeMdl 0x12000 64) \<noteq> nullptr" "unat (byte_offset (MmInitializeMdl 0x12000 64)) + unat (14 :: u32) < 2 ^ 32"
    by (simp_all add: MmInitializeMdl_def PAGE_ALIGN_def BYTE_OFFSET_def)
  from net_buffer_advance_keeps_length [OF _ _ this, of sample_ndis "0x60" "\<lparr>DataLength = 64, MdlChain = 0x50\<rparr>" 64]
  show ?thesis by (simp add: sample_ndis_def)
qed

section \<open>The pages of a descriptor\<close>

lemma div_split_low: "(a + b) div 4096 = a div 4096 + (a mod 4096 + b) div (4096 :: nat)"
proof -
  have "a + b = (a mod 4096 + b) + a div 4096 * 4096" by simp
  then show ?thesis by (metis add.commute div_mult_self1 zero_neq_numeral)
qed

lemma pages_of_range:
  fixes va n :: nat
  assumes "0 < n"
  shows "card ((\<lambda>i. (va + i) div 4096) ` {..< n}) = (va mod 4096 + (n - 1)) div 4096 + 1"
proof -
  have "(\<lambda>i. (va + i) div 4096) ` {..< n} = {va div 4096 .. (va + (n - 1)) div 4096}"
  proof (intro equalityI subsetI)
    fix p assume p: "p \<in> {va div 4096 .. (va + (n - 1)) div 4096}"
    show "p \<in> (\<lambda>i. (va + i) div 4096) ` {..< n}"
    proof (cases "p = va div 4096")
      case True
      then show ?thesis using assms by (intro image_eqI [of _ _ 0]) simp_all
    next
      case False
      then have "va < p * 4096" using p by (metis atLeastAtMost_iff div_less_iff_less_mult le_neq_implies_less zero_less_numeral)
      moreover have "p * 4096 \<le> va + (n - 1)" using p by (metis atLeastAtMost_iff less_eq_div_iff_mult_less_eq zero_less_numeral)
      ultimately show ?thesis using assms by (intro image_eqI [of _ _ "p * 4096 - va"]) simp_all
    qed
  qed (use assms in \<open>auto intro!: div_le_mono\<close>)
  moreover have "(va + (n - 1)) div 4096 = va div 4096 + (va mod 4096 + (n - 1)) div 4096"
    by (rule div_split_low)
  ultimately show ?thesis by simp
qed

lemma page_offset: "unat (BYTE_OFFSET va) = unat va mod 4096" "unat (ucast va AND 0xFFF :: u32) = unat va mod 4096"
proof -
  have "va AND 0xFFF = take_bit 12 va" by (simp add: take_bit_eq_mask mask_eq_exp_minus_1)
  then have "unat (va AND 0xFFF) = unat va mod 4096" by (simp add: take_bit_eq_mod unat_mod)
  moreover have "unat va mod 4096 < 4096" by simp
  ultimately show "unat (BYTE_OFFSET va) = unat va mod 4096"
    by (simp add: BYTE_OFFSET_def unsigned_ucast_eq take_bit_nat_eq_self)
  have "(ucast va AND 0xFFF :: u32) = take_bit 12 (ucast va)" by (simp add: take_bit_eq_mask mask_eq_exp_minus_1)
  then have "unat (ucast va AND 0xFFF :: u32) = unat va mod 2 ^ 32 mod 4096" by (simp add: unsigned_ucast_eq take_bit_eq_mod unat_mod)
  also have "\<dots> = unat va mod 4096" by (simp add: mod_mod_cancel)
  finally show "unat (ucast va AND 0xFFF :: u32) = unat va mod 4096" .
qed

lemma span_pages_nat:
  "unat (ADDRESS_AND_SIZE_TO_SPAN_PAGES va sz) = (unat va mod 4096 + unat (sz - 1)) div 4096 + 1"
proof -
  let ?m = "unat (sz - 1)" and ?o = "unat va mod 4096"
  have m: "?m < 2 ^ 32" using unsigned_less [of "sz - 1"] by simp
  have "(sz - 1) AND 0xFFF = take_bit 12 (sz - 1)" by (simp add: take_bit_eq_mask mask_eq_exp_minus_1)
  then have low: "unat ((sz - 1) AND 0xFFF) = ?m mod 4096" by (simp add: take_bit_eq_mod unat_mod)
  have s: "unat (((sz - 1) AND 0xFFF) + (ucast va AND 0xFFF)) = ?m mod 4096 + ?o"
    using page_offset(2) [of va] low mod_less_divisor [of 4096 ?m] mod_less_divisor [of 4096 "unat va"]
    by (simp add: unat_word_ariths take_bit_nat_eq_self)
  have a: "unat (drop_bit 12 (sz - 1)) = ?m div 4096" by (simp add: drop_bit_eq_div unat_div)
  have b: "unat (drop_bit 12 (((sz - 1) AND 0xFFF) + (ucast va AND 0xFFF))) = (?m mod 4096 + ?o) div 4096"
    by (simp add: drop_bit_eq_div unat_div s)
  have "?m div 4096 < 2 ^ 20" "(?m mod 4096 + ?o) div 4096 < 2"
    using m mod_less_divisor [of 4096 ?m] mod_less_divisor [of 4096 "unat va"] by (simp_all add: div_less_iff_less_mult)
  then have "unat (ADDRESS_AND_SIZE_TO_SPAN_PAGES va sz) = ?m div 4096 + (?m mod 4096 + ?o) div 4096 + 1"
    unfolding ADDRESS_AND_SIZE_TO_SPAN_PAGES_def by (simp add: unat_word_ariths a b take_bit_nat_eq_self)
  also have "?m div 4096 + (?m mod 4096 + ?o) div 4096 = (?o + ?m) div 4096"
    using div_split_low [of ?m ?o] by (simp add: add.commute)
  finally show ?thesis .
qed

text \<open>
  C19: a descriptor covers its memory. For a buffer that is not empty, the number of pages that the macro computes in 32 bits is
  the number of different pages that hold its bytes, the start address and the offset add up to the address of the buffer, and the pages from the start
  address on contain all its bytes. The size of the descriptor is cut to 16 bits: it is 40 bytes and 4 for every page exactly when there
  are at most 16373 pages. For an empty buffer the computation wraps, and the macro answers at least a million pages.
\<close>
theorem mdl_pages_bounds:
  fixes va :: ptr and sz :: u32
  defines "pages \<equiv> card ((\<lambda>i. (unat va + i) div 4096) ` {..< unat sz})" and "d \<equiv> MmInitializeMdl va sz"
  shows "(sz \<noteq> 0 \<longrightarrow> unat (ADDRESS_AND_SIZE_TO_SPAN_PAGES va sz) = pages \<and> unat (byte_offset d) + unat sz \<le> 4096 * pages \<and>
            (unat (md_size d) = 40 + 4 * pages \<longleftrightarrow> pages \<le> 16373)) \<and>
         unat (start_va d) + unat (byte_offset d) = unat va \<and> unat (start_va d) mod 4096 = 0 \<and>
         2 ^ 20 \<le> unat (ADDRESS_AND_SIZE_TO_SPAN_PAGES va 0)"
proof (intro conjI impI)
  let ?s = "unat (ADDRESS_AND_SIZE_TO_SPAN_PAGES va sz)"
  have o: "unat (byte_offset d) = unat va mod 4096" by (simp add: d_def MmInitializeMdl_def page_offset)
  {
    assume nz: "sz \<noteq> 0"
    then have p: "0 < unat sz" "unat (sz - 1) = unat sz - 1" by (simp_all add: unat_gt_0 unat_minus_one)
    show s: "?s = pages" unfolding pages_def span_pages_nat pages_of_range [OF p(1)] p(2) ..
    have pg: "pages = (unat va mod 4096 + (unat sz - 1)) div 4096 + 1" unfolding pages_def by (rule pages_of_range [OF p(1)])
    show "unat (byte_offset d) + unat sz \<le> 4096 * pages"
      using p(1) div_mult_mod_eq [of "unat va mod 4096 + (unat sz - 1)" 4096] mod_less_divisor [of 4096 "unat va mod 4096 + (unat sz - 1)"]
      unfolding o pg by simp
    have "?s < 2 ^ 32" using unsigned_less [of "ADDRESS_AND_SIZE_TO_SPAN_PAGES va sz"] by simp
    then have "unat (md_size d) = (40 + 4 * pages) mod 2 ^ 16"
      by (simp add: d_def MmInitializeMdl_def unsigned_ucast_eq unat_word_ariths take_bit_eq_mod s)
    then show "unat (md_size d) = 40 + 4 * pages \<longleftrightarrow> pages \<le> 16373" by (auto simp: mod_eq_self_iff_div_eq_0 div_eq_0_iff)
  }
  have "unat (ucast (BYTE_OFFSET va) :: u64) = unat va mod 4096"
    using page_offset(1) [of va] unat_ucast_32_64 [of "BYTE_OFFSET va"] by simp
  moreover have sv: "start_va d = va - ucast (BYTE_OFFSET va)"
    using page_split [of va] by (simp add: d_def MmInitializeMdl_def eq_diff_eq)
  ultimately have st: "unat (start_va d) = unat va - unat va mod 4096"
    using unat_sub [of "ucast (BYTE_OFFSET va)" va] by (simp add: word_le_nat_alt)
  show "unat (start_va d) + unat (byte_offset d) = unat va" using mod_less_eq_dividend [of "unat va" 4096] unfolding st o by simp
  show "unat (start_va d) mod 4096 = 0" unfolding st by (simp add: minus_mod_eq_mult_div)
  show "2 ^ 20 \<le> unat (ADDRESS_AND_SIZE_TO_SPAN_PAGES va 0)"
    unfolding span_pages_nat by (simp add: unsigned_minus_1_eq_mask mask_eq_exp_minus_1 less_eq_div_iff_mult_less_eq)
qed

theorem mdl_pages_bounds_witness:
  "unat (ADDRESS_AND_SIZE_TO_SPAN_PAGES 0x12FF0 0x20) = card ((\<lambda>i. (0x12FF0 + i) div 4096) ` {..< 32 :: nat}) \<and>
   card ((\<lambda>i. (0x12FF0 + i) div 4096) ` {..< 32 :: nat}) = 2 \<and> unat (md_size (MmInitializeMdl 0x12FF0 0x20)) = 48"
proof -
  have two: "card ((\<lambda>i. (0x12FF0 + i) div 4096) ` {..< 32 :: nat}) = 2" using pages_of_range [of 32 "0x12FF0"] by simp
  from mdl_pages_bounds [of "0x20" "0x12FF0"] two show ?thesis by simp
qed

end
