(* ===== verification/Pool.thy ===== *)
theory Pool
  imports Memory
begin

text \<open>
  The contract of the pool routines as their clients use it. A client allocates with
  \<^verbatim>\<open>ExAllocatePoolUninitialized\<close> and releases with \<^verbatim>\<open>ExFreePool\<close>; what it relies on is that an allocation adds one heap
  block and keeps the others, and that releasing a block it owns succeeds and takes exactly that block away. The
  locale states this contract, its lemmas hold for every client, and the interpretation shows that the
  routines of \<^verbatim>\<open>src/ex.cpp\<close> keep it.
\<close>

locale pool_interface =
  fixes alloc :: "'a \<Rightarrow> 's \<Rightarrow> (ptr \<times> 's) result"
    and free :: "'b \<Rightarrow> ptr \<Rightarrow> 's \<Rightarrow> 's result"
    and owned :: "'s \<Rightarrow> ptr \<Rightarrow> bool"
    and view :: "'s \<Rightarrow> ptr \<rightharpoonup> 'i"
    and blk :: "ptr \<Rightarrow> ptr"
    and fresh :: "'a \<Rightarrow> 's \<Rightarrow> bool"
  assumes alloc_ok: "alloc a s = Inr (m, s1) \<Longrightarrow> m \<noteq> nullptr \<Longrightarrow> fresh a s \<Longrightarrow>
      owned s1 m \<and> view s (blk m) = None \<and> (\<exists>i. view s1 = (view s)(blk m \<mapsto> i))"
    and alloc_keeps: "alloc a s = Inr (m, s1) \<Longrightarrow> fresh a s \<Longrightarrow> owned s m' \<Longrightarrow> owned s1 m'"
    and alloc_fail: "alloc a s = Inr (nullptr, s1) \<Longrightarrow> fresh a s \<Longrightarrow> view s1 = view s"
    and owned_view: "owned s m \<Longrightarrow> m \<noteq> nullptr \<and> view s (blk m) \<noteq> None"
    and blk_inj: "blk m = blk m' \<Longrightarrow> m = m'"
    and free_ok: "owned s m \<Longrightarrow>
      \<exists>s1. free b m s = Inr s1 \<and> view s1 = (view s)(blk m := None) \<and> (\<forall>m'. m' \<noteq> m \<longrightarrow> owned s m' \<longrightarrow> owned s1 m')"
begin

text \<open>One temporary buffer.\<close>

lemma one_buffer:
  assumes "alloc a s = Inr (m, s1)" "m \<noteq> nullptr" "fresh a s"
  shows "\<exists>s2. free b m s1 = Inr s2 \<and> view s2 = view s"
proof -
  note A = alloc_ok [OF assms]
  obtain s2 where "free b m s1 = Inr s2" "view s2 = (view s1)(blk m := None)" using free_ok [of s1 m b] A by blast
  then show ?thesis using A by (auto simp: fun_upd_idem)
qed

text \<open>Two temporary buffers, released in the order of their allocation.\<close>

lemma two_buffers:
  assumes "alloc a s = Inr (m, s1)" "m \<noteq> nullptr" "fresh a s"
    and "alloc a' s1 = Inr (m', s2)" "m' \<noteq> nullptr" "fresh a' s1"
  shows "\<exists>s3 s4. free b m s2 = Inr s3 \<and> free b' m' s3 = Inr s4 \<and> view s4 = view s"
proof -
  note A = alloc_ok [OF assms(1-3)] and B = alloc_ok [OF assms(4-6)]
  have own: "owned s2 m" "owned s2 m'" using alloc_keeps [OF assms(4,6)] A B by blast+
  have ne: "m' \<noteq> m" using A B owned_view [of s1 m] by auto
  obtain s3 where s3: "free b m s2 = Inr s3" "view s3 = (view s2)(blk m := None)" "owned s3 m'"
    using free_ok [OF own(1), of b] own(2) ne by blast
  obtain s4 where s4: "free b' m' s3 = Inr s4" "view s4 = (view s3)(blk m' := None)"
    using free_ok [OF s3(3), of b'] by blast
  obtain i i' where "view s1 = (view s)(blk m \<mapsto> i)" "view s2 = (view s1)(blk m' \<mapsto> i')" using A B by blast
  then have "view s4 = view s" using s3(2) s4(2) A B blk_inj [of m m'] ne by (auto simp: fun_eq_iff)
  then show ?thesis using s3(1) s4(1) by blast
qed

text \<open>Two objects, released in the reverse order.\<close>

lemma nested_objects:
  assumes "alloc a s = Inr (m, s1)" "m \<noteq> nullptr" "fresh a s"
    and "alloc a' s1 = Inr (m', s2)" "m' \<noteq> nullptr" "fresh a' s1"
  shows "\<exists>s3 s4. free b' m' s2 = Inr s3 \<and> free b m s3 = Inr s4 \<and> view s4 = view s"
proof -
  note A = alloc_ok [OF assms(1-3)] and B = alloc_ok [OF assms(4-6)]
  have own: "owned s2 m" "owned s2 m'" using alloc_keeps [OF assms(4,6)] A B by blast+
  have ne: "m \<noteq> m'" using A B owned_view [of s1 m] by auto
  obtain s3 where s3: "free b' m' s2 = Inr s3" "view s3 = (view s2)(blk m' := None)" "owned s3 m"
    using free_ok [OF own(2), of b'] own(1) ne by blast
  obtain s4 where s4: "free b m s3 = Inr s4" "view s4 = (view s3)(blk m := None)"
    using free_ok [OF s3(3), of b] by blast
  have "view s4 = view s" using s3(2) s4(2) A B by (auto simp: fun_eq_iff)
  then show ?thesis using s3(1) s4(1) by blast
qed

text \<open>A second allocation that fails leaves the first buffer, whose release restores the heap.\<close>

lemma second_fails:
  assumes "alloc a s = Inr (m, s1)" "m \<noteq> nullptr" "fresh a s" "alloc a' s1 = Inr (nullptr, s2)" "fresh a' s1"
  shows "\<exists>s3. free b m s2 = Inr s3 \<and> view s3 = view s"
proof -
  note A = alloc_ok [OF assms(1-3)]
  have own: "owned s2 m" using alloc_keeps [OF assms(4,5)] A by blast
  obtain s3 where "free b m s2 = Inr s3" "view s3 = (view s2)(blk m := None)" using free_ok [OF own, of b] by blast
  then show ?thesis using A alloc_fail [OF assms(4,5)] by (auto simp: fun_upd_idem)
qed

end

section \<open>The routines of ex.cpp\<close>

type_synonym pool_request = "bool \<times> ptr \<times> backtrace \<times> u64 \<times> u32"

definition np_alloc :: "pool_request \<Rightarrow> mem_state \<Rightarrow> (ptr \<times> mem_state) result" where
  "np_alloc a s = (case a of (fault, p, bt, n, tag) \<Rightarrow> ExAllocatePoolUninitializedCPP fault p bt NonPagedPoolNx n tag s)"

text \<open>
  The flags of uninitialized non-paged memory, the block of a pool pointer, and what the client owns. A request is
  fresh if the heap answers with a block that is not in use and whose end does not wrap around.
\<close>

abbreviation NP_FLAGS :: u32 where "NP_FLAGS \<equiv> 0x42"

definition np_blk :: "ptr \<Rightarrow> ptr" where "np_blk m = m - 80"

definition np_owned :: "mem_state \<Rightarrow> ptr \<Rightarrow> bool" where
  "np_owned s m \<longleftrightarrow> m \<noteq> nullptr \<and> (\<exists>n tag. live (m - 64) (np_blk m) NP_FLAGS n tag s) \<and> pool_headers s (m - 64) = NP_FLAGS"

definition np_fresh :: "pool_request \<Rightarrow> mem_state \<Rightarrow> bool" where
  "np_fresh a s \<longleftrightarrow> (case a of (fault, p, bt, n, tag) \<Rightarrow> blocks s p = None \<and> p + 16 \<noteq> nullptr \<and> p + 80 \<noteq> nullptr)"

lemma np_flags: "\<not> has_flag NP_FLAGS CXPLAT_POOL_FLAG_CACHE_ALIGNED" "user_pointer NP_FLAGS p = p + 16"
  by (simp_all add: has_flag_def user_pointer_def pointer_offset_def)

lemma np_owned_iff:
  "np_owned s m \<longleftrightarrow> m \<noteq> nullptr \<and> m \<noteq> 64 \<and> pool_headers s (m - 64) = NP_FLAGS \<and>
     (\<exists>n tag. blocks s (m - 80) = Some (16 + n, False) \<and> headers s (m - 80) = new_header NP_FLAGS tag n) \<and>
     (\<forall>d. leaks s = Some d \<longrightarrow> allocations d (m - 64) \<noteq> None)"
  by (auto simp: np_owned_def live_def np_blk_def np_flags pointer_offset_def)

lemma np_alloc_cases:
  assumes "np_alloc (fault, p, bt, n, tag) s = Inr (m, s1)" "blocks s p = None" "p + 16 \<noteq> nullptr" "p + 80 \<noteq> nullptr"
  obtains (fails) "m = nullptr" "s1 = s"
  | (succeeds) s0 where "cxplat_allocate fault p bt NP_FLAGS (64 + n) tag s = Inr (p + 16, s0)" "m = p + 80"
      "s1 = s0\<lparr>pool_headers := (pool_headers s0)(p + 16 := NP_FLAGS)\<rparr>"
proof -
  have f: "pool_type_to_flags NonPagedPoolNx False = Inr NP_FLAGS" by (simp add: pool_type_to_flags_def)
  obtain h s0 where h: "cxplat_allocate fault p bt NP_FLAGS (64 + n) tag s = Inr (h, s0)"
      "m = (if h \<noteq> nullptr then h + 64 else nullptr)"
      "s1 = (if h \<noteq> nullptr then s0\<lparr>pool_headers := (pool_headers s0)(h := NP_FLAGS)\<rparr> else s0)"
    using assms(1) f
    by (auto simp: np_alloc_def ExAllocatePoolUninitializedCPP_def pool_allocate_def split: sum.splits if_splits)
  show ?thesis
  proof (cases "h = nullptr")
    case True
    have "user_pointer NP_FLAGS p \<noteq> nullptr" using assms(3) by (simp add: np_flags)
    then have "s0 = s" using allocate_failure h(1) True by blast
    then show ?thesis using h True by (intro fails) simp_all
  next
    case False
    have "h = p + 16" using allocate_success(3) [OF h(1) False] by (simp add: np_flags)
    then show ?thesis using h False by (intro succeeds) simp_all
  qed
qed

lemma np_live_keeps:
  assumes "cxplat_allocate fault p bt NP_FLAGS k tag s = Inr (p + 16, s0)" "p + 16 \<noteq> nullptr" "blocks s p = None"
    and "np_owned s m'"
  shows "np_owned (s0\<lparr>pool_headers := (pool_headers s0)(p + 16 := NP_FLAGS)\<rparr>) m'"
proof -
  note A = allocate_success [OF assms(1,2)]
  have "m' - 80 \<noteq> p" using assms(3,4) by (auto simp: np_owned_iff)
  moreover have "m' - 64 = p + 16 \<longleftrightarrow> m' - 80 = p" by (simp add: algebra_simps)
  ultimately have ne: "m' - 80 \<noteq> p" "m' - 64 \<noteq> p + 16" by simp_all
  have "allocations d (m' - 64) \<noteq> None" if "leaks s0 = Some d" for d
    using that assms(4) ne(2) A(4) by (cases "leaks s") (auto simp: np_owned_iff)
  moreover have "blocks s0 (m' - 80) = blocks s (m' - 80)" "headers s0 (m' - 80) = headers s (m' - 80)"
    "pool_headers s0 = pool_headers s" using A(4) ne by simp_all
  ultimately show ?thesis using assms(4) ne(2) by (simp add: np_owned_iff)
qed

lemma np_free_ok:
  assumes "np_owned s m"
  shows "\<exists>s1. ExFreePoolCPP b m s = Inr s1 \<and> blocks s1 = (blocks s)(np_blk m := None) \<and>
              (\<forall>m'. m' \<noteq> m \<longrightarrow> np_owned s m' \<longrightarrow> np_owned s1 m')"
proof -
  obtain n tag where L: "live (m - 64) (np_blk m) NP_FLAGS n tag s" "pool_headers s (m - 64) = NP_FLAGS" "m \<noteq> nullptr"
    using assms by (auto simp: np_owned_def)
  obtain s1 where s1: "cxplat_free b (m - 64) NP_FLAGS 0 s = Inr s1" "blocks s1 = (blocks s)(np_blk m := None)"
      "headers s1 = headers s" "pool_headers s1 = pool_headers s"
      "map_option allocations (leaks s1) = map_option (\<lambda>d. (allocations d)(m - 64 := None)) (leaks s)"
    using free_live [of "m - 64" NP_FLAGS "np_blk m" s "pointer_offset NP_FLAGS + n" tag n 0 b] L(1) unfolding live_def by blast
  have "np_owned s1 m'" if "m' \<noteq> m" "np_owned s m'" for m'
  proof -
    have ne: "m' - 80 \<noteq> np_blk m" "m' - 64 \<noteq> m - 64" using that(1) by (simp_all add: np_blk_def)
    have "allocations d (m' - 64) \<noteq> None" if "leaks s1 = Some d" for d
      using s1(5) that ne(2) \<open>np_owned s m'\<close> by (cases "leaks s") (auto simp: np_owned_iff)
    then show ?thesis using that(2) s1(2-4) ne by (simp add: np_owned_iff)
  qed
  then show ?thesis using s1(1,2) L by (auto simp: ExFreePoolCPP_def Let_def)
qed

interpretation np: pool_interface np_alloc ExFreePoolCPP np_owned blocks np_blk np_fresh
proof unfold_locales
  fix a s m s1
  assume a: "np_alloc a s = Inr (m, s1)" and f: "np_fresh a s"
  obtain fault p bt n tag where aeq: "a = (fault, p, bt, n, tag)" by (cases a) auto
  note C = np_alloc_cases [OF a [unfolded aeq]]
  have f': "blocks s p = None" "p + 16 \<noteq> nullptr" "p + 80 \<noteq> nullptr" using f by (simp_all add: np_fresh_def aeq)
  show "np_owned s1 m \<and> blocks s (np_blk m) = None \<and> (\<exists>i. blocks s1 = (blocks s)(np_blk m \<mapsto> i))" if "m \<noteq> nullptr"
  proof (rule C [OF f'])
    fix s0 assume c: "cxplat_allocate fault p bt NP_FLAGS (64 + n) tag s = Inr (p + 16, s0)" "m = p + 80"
      "s1 = s0\<lparr>pool_headers := (pool_headers s0)(p + 16 := NP_FLAGS)\<rparr>"
    note A = allocate_success [OF c(1) f'(2)]
    have L: "live (p + 16) p NP_FLAGS (64 + n) tag s0" by (rule allocate_live [OF c(1) f'(2)])
    have k: "m - 64 = p + 16" "m - 80 = p" "m \<noteq> 64" using c(2) f'(2) by (auto simp: algebra_simps)
    have "headers s0 p = new_header NP_FLAGS tag (64 + n)" "blocks s0 p = Some (16 + (64 + n), False)"
      "\<forall>d. leaks s0 = Some d \<longrightarrow> allocations d (p + 16) \<noteq> None"
      using L unfolding live_def by (auto simp: np_flags pointer_offset_def)
    then have "np_owned s1 m" using c(2,3) f'(3) k unfolding np_owned_iff k by auto
    then show ?thesis using A(4) c(2,3) f'(1) by (auto simp: np_blk_def)
  qed (use that in simp)
  show "np_owned s1 m'" if "np_owned s m'" for m'
    by (rule C [OF f']) (use np_live_keeps f' that in auto)
next
  fix a s s1
  assume a: "np_alloc a s = Inr (nullptr, s1)" and f: "np_fresh a s"
  obtain fault p bt n tag where aeq: "a = (fault, p, bt, n, tag)" by (cases a) auto
  have f': "blocks s p = None" "p + 16 \<noteq> nullptr" "p + 80 \<noteq> nullptr" using f by (simp_all add: np_fresh_def aeq)
  show "blocks s1 = blocks s" by (rule np_alloc_cases [OF a [unfolded aeq] f']) (use f' in auto)
next
  fix s m show "np_owned s m \<Longrightarrow> m \<noteq> nullptr \<and> blocks s (np_blk m) \<noteq> None" by (auto simp: np_owned_def live_def)
next
  fix m m' :: ptr show "np_blk m = np_blk m' \<Longrightarrow> m = m'" by (simp add: np_blk_def)
next
  fix s m b
  show "np_owned s m \<Longrightarrow> \<exists>s1. ExFreePoolCPP b m s = Inr s1 \<and> blocks s1 = (blocks s)(np_blk m := None) \<and>
      (\<forall>m'. m' \<noteq> m \<longrightarrow> np_owned s m' \<longrightarrow> np_owned s1 m')" by (rule np_free_ok)
qed

section \<open>The routines of the cross-platform layer\<close>

text \<open>
  The same contract for \<^verbatim>\<open>cxplat_allocate\<close> and \<^verbatim>\<open>cxplat_free\<close> with non-paged memory and one tag: the objects that the
  components allocate for themselves.
\<close>

type_synonym object_request = "bool \<times> ptr \<times> backtrace \<times> u64"

definition cx_alloc :: "u32 \<Rightarrow> object_request \<Rightarrow> mem_state \<Rightarrow> (ptr \<times> mem_state) result" where
  "cx_alloc tag a s = (case a of (fault, p, bt, n) \<Rightarrow> cxplat_allocate fault p bt CXPLAT_POOL_FLAG_NON_PAGED n tag s)"

definition cx_free :: "u32 \<Rightarrow> backtrace \<Rightarrow> ptr \<Rightarrow> mem_state \<Rightarrow> mem_state result" where
  "cx_free tag bt m s = cxplat_free bt m CXPLAT_POOL_FLAG_NON_PAGED tag s"

definition cx_blk :: "ptr \<Rightarrow> ptr" where "cx_blk m = m - 16"

definition cx_owned :: "u32 \<Rightarrow> mem_state \<Rightarrow> ptr \<Rightarrow> bool" where
  "cx_owned tag s m \<longleftrightarrow> (\<exists>n. live m (cx_blk m) CXPLAT_POOL_FLAG_NON_PAGED n tag s)"

definition cx_fresh :: "object_request \<Rightarrow> mem_state \<Rightarrow> bool" where
  "cx_fresh a s \<longleftrightarrow> (case a of (fault, p, bt, n) \<Rightarrow> blocks s p = None \<and> p + 16 \<noteq> nullptr)"

lemma cx_flags: "\<not> has_flag CXPLAT_POOL_FLAG_NON_PAGED CXPLAT_POOL_FLAG_CACHE_ALIGNED"
  "user_pointer CXPLAT_POOL_FLAG_NON_PAGED p = p + 16"
  by (simp_all add: has_flag_def user_pointer_def pointer_offset_def)

lemma cx_owned_iff:
  "cx_owned tag s m \<longleftrightarrow> m \<noteq> nullptr \<and>
     (\<exists>n. blocks s (m - 16) = Some (16 + n, False) \<and> headers s (m - 16) = new_header CXPLAT_POOL_FLAG_NON_PAGED tag n) \<and>
     (\<forall>d. leaks s = Some d \<longrightarrow> allocations d m \<noteq> None)"
  by (auto simp: cx_owned_def live_def cx_blk_def cx_flags pointer_offset_def)

lemma cx_alloc_ok:
  assumes A: "cx_alloc tag a s = Inr (m, s1)" and m: "m \<noteq> nullptr" and F: "cx_fresh a s"
  shows "cx_owned tag s1 m \<and> blocks s (cx_blk m) = None \<and> (\<exists>i. blocks s1 = (blocks s)(cx_blk m \<mapsto> i))"
proof -
  obtain fault p bt n where a: "a = (fault, p, bt, n)" by (cases a)
  have al: "cxplat_allocate fault p bt CXPLAT_POOL_FLAG_NON_PAGED n tag s = Inr (m, s1)" using A a by (simp add: cx_alloc_def)
  note S = allocate_success [OF al m]
  have "m = p + 16" using S(3) by (simp add: cx_flags)
  then show ?thesis using allocate_live [OF al m] F S(4) by (auto simp: cx_owned_def cx_blk_def cx_fresh_def a)
qed

lemma cx_alloc_keeps:
  assumes A: "cx_alloc tag a s = Inr (m, s1)" and F: "cx_fresh a s" and O: "cx_owned tag s m'"
  shows "cx_owned tag s1 m'"
proof -
  obtain fault p bt n where a: "a = (fault, p, bt, n)" by (cases a)
  have al: "cxplat_allocate fault p bt CXPLAT_POOL_FLAG_NON_PAGED n tag s = Inr (m, s1)" using A a by (simp add: cx_alloc_def)
  have p: "blocks s p = None" "user_pointer CXPLAT_POOL_FLAG_NON_PAGED p \<noteq> nullptr" using F by (simp_all add: cx_fresh_def a cx_flags)
  show ?thesis
  proof (cases "m = nullptr")
    case True
    then show ?thesis using allocate_failure [of fault p bt _ n tag s s1] al p(2) O by auto
  next
    case False
    note S = allocate_success [OF al False]
    have "m = p + 16" using S(3) by (simp add: cx_flags)
    moreover have "m' - 16 \<noteq> p" using O p(1) by (auto simp: cx_owned_iff)
    ultimately show ?thesis using O by (auto simp: cx_owned_iff S(4))
  qed
qed

text \<open>What releasing an object changes: its block and its record in the leak detector.\<close>

lemma cx_free_effect:
  assumes "cx_owned tag s m"
  obtains s1 where "cx_free tag bt m s = Inr s1" "blocks s1 = (blocks s)(m - 16 := None)" "headers s1 = headers s"
    "pool_headers s1 = pool_headers s" "map_option allocations (leaks s1) = map_option (\<lambda>d. (allocations d)(m := None)) (leaks s)"
proof -
  obtain n where L: "live m (cx_blk m) CXPLAT_POOL_FLAG_NON_PAGED n tag s" using assms by (auto simp: cx_owned_def)
  have "\<exists>s2. cxplat_free bt m CXPLAT_POOL_FLAG_NON_PAGED tag s = Inr s2 \<and> blocks s2 = (blocks s)(cx_blk m := None) \<and>
          bytes s2 = bytes s \<and> headers s2 = headers s \<and> pool_headers s2 = pool_headers s \<and>
          map_option allocations (leaks s2) = map_option (\<lambda>d. (allocations d)(m := None)) (leaks s)"
    using L by (intro free_live [where n = n and tag = tag]) (auto simp: live_def)
  then show ?thesis using that by (auto simp: cx_free_def cx_blk_def)
qed

lemma cx_free_ok:
  assumes "cx_owned tag s m"
  shows "\<exists>s1. cx_free tag bt m s = Inr s1 \<and> blocks s1 = (blocks s)(cx_blk m := None) \<and>
           (\<forall>m'. m' \<noteq> m \<longrightarrow> cx_owned tag s m' \<longrightarrow> cx_owned tag s1 m')"
proof -
  obtain s1 where s1: "cx_free tag bt m s = Inr s1" "blocks s1 = (blocks s)(m - 16 := None)" "headers s1 = headers s"
      "map_option allocations (leaks s1) = map_option (\<lambda>d. (allocations d)(m := None)) (leaks s)"
    by (rule cx_free_effect [OF assms, of bt])
  have "cx_owned tag s1 m'" if "m' \<noteq> m" "cx_owned tag s m'" for m'
    using that s1 by (cases "leaks s"; cases "leaks s1") (auto simp: cx_owned_iff)
  then show ?thesis using s1(1,2) by (auto simp: cx_blk_def)
qed

interpretation cx: pool_interface "cx_alloc tag" "cx_free tag" "cx_owned tag" blocks cx_blk cx_fresh for tag
proof unfold_locales
  fix a s s1
  assume "cx_alloc tag a s = Inr (nullptr, s1)" "cx_fresh a s"
  then show "blocks s1 = blocks s" by (cases a) (auto simp: cx_alloc_def cx_fresh_def cx_flags dest!: allocate_failure)
qed (fact cx_alloc_ok cx_alloc_keeps cx_free_ok | fastforce simp: cx_owned_iff cx_blk_def)+

end
