(* ===== verification/Security.thy ===== *)
theory Security
  imports Pool
begin

text \<open>
  Access tokens, SIDs and subject contexts of \<^verbatim>\<open>src/se.cpp\<close>, the SID and ACL routines of \<^verbatim>\<open>src/rtl.cpp\<close>, and the conversion of
  Win32 errors in \<^verbatim>\<open>src/utilities.h\<close>. What the operating system answers (\<^verbatim>\<open>GetTokenInformation\<close>, \<^verbatim>\<open>LookupAccountSidW\<close>) is an
  argument; memory comes from the pool of theory \<open>Pool\<close>.
\<close>

section \<open>Win32 errors\<close>

abbreviation ERROR_SUCCESS :: u32 where "ERROR_SUCCESS \<equiv> 0"
abbreviation ERROR_INSUFFICIENT_BUFFER :: u32 where "ERROR_INSUFFICIENT_BUFFER \<equiv> 122"
abbreviation ERROR_OBJECT_NAME_EXISTS :: u32 where "ERROR_OBJECT_NAME_EXISTS \<equiv> 698"
abbreviation ERROR_IO_PENDING :: u32 where "ERROR_IO_PENDING \<equiv> 997"

text \<open>The switch as a table, in the order of its cases.\<close>

definition error_table :: "(u32 \<times> ntstatus) list" where
  "error_table =
     [(14, STATUS_NO_MEMORY), (8, STATUS_NO_MEMORY), (3, STATUS_OBJECT_PATH_NOT_FOUND), (1168, STATUS_NOT_FOUND),
      (87, STATUS_INVALID_PARAMETER), (259, STATUS_NO_MORE_MATCHES), (626, STATUS_NO_MORE_MATCHES), (6, STATUS_INVALID_HANDLE),
      (50, STATUS_NOT_SUPPORTED), (234, STATUS_BUFFER_OVERFLOW), (2, STATUS_NO_SUCH_FILE), (1247, STATUS_ALREADY_INITIALIZED),
      (5010, STATUS_OBJECTID_EXISTS), (537, STATUS_VERIFIER_STOP), (1332, STATUS_NONE_MAPPED),
      (2001, STATUS_DRIVER_UNABLE_TO_LOAD), (1, STATUS_INVALID_DEVICE_REQUEST), (56, STATUS_TOO_MANY_COMMANDS),
      (1726, RPC_NT_CALL_FAILED), (193, STATUS_INVALID_IMAGE_FORMAT), (5, STATUS_ACCESS_DENIED),
      (288, STATUS_RESOURCE_NOT_OWNED), (1296, STATUS_CONTENT_BLOCKED), (534, STATUS_INTEGER_OVERFLOW),
      (14109, STATUS_GENERIC_COMMAND_FAILED), (1242, STATUS_ALREADY_REGISTERED), (1359, STATUS_ALREADY_REGISTERED),
      (68, STATUS_TOO_MANY_NODES), (1450, STATUS_INSUFFICIENT_RESOURCES), (995, STATUS_CANCELLED),
      (998, STATUS_ACCESS_VIOLATION)]"

definition win32_error_to_usersim_error :: "u32 \<Rightarrow> ntstatus" where
  "win32_error_to_usersim_error error = (case map_of error_table error of Some r \<Rightarrow> r | None \<Rightarrow> STATUS_UNSUCCESSFUL)"

definition win32_error_code_to_usersim_result :: "u32 \<Rightarrow> ntstatus" where
  "win32_error_code_to_usersim_result error =
     (if error = ERROR_SUCCESS then STATUS_SUCCESS
      else if error = ERROR_IO_PENDING then STATUS_PENDING
      else if error = ERROR_OBJECT_NAME_EXISTS then STATUS_OBJECT_NAME_EXISTS
      else win32_error_to_usersim_error error)"

section \<open>SIDs\<close>

text \<open>A SID is a sequence of bytes in memory; its second byte is the number of sub-authorities.\<close>

type_synonym memory = "ptr \<Rightarrow> u8"

definition RtlLengthSid :: "memory \<Rightarrow> ptr \<Rightarrow> u32" where
  "RtlLengthSid mem sid = 8 + 4 * ucast (mem (sid + 1))"

definition RtlValidSid :: "ptr \<Rightarrow> bool" where
  "RtlValidSid sid \<longleftrightarrow> sid \<noteq> nullptr"

definition RtlCopySid :: "u32 \<Rightarrow> ptr \<Rightarrow> ptr \<Rightarrow> memory \<Rightarrow> ntstatus \<times> memory" where
  "RtlCopySid destination_length destination source mem =
     (let n = RtlLengthSid mem source
      in if destination_length < n then (STATUS_BUFFER_TOO_SMALL, mem)
         else (STATUS_SUCCESS, (\<lambda>a. if a - destination < ucast n then mem (source + (a - destination)) else mem a)))"

definition dword_at :: "memory \<Rightarrow> ptr \<Rightarrow> u32" where
  "dword_at mem a = ucast (mem a) + push_bit 8 (ucast (mem (a + 1))) + push_bit 16 (ucast (mem (a + 2))) +
     push_bit 24 (ucast (mem (a + 3)))"

text \<open>The length of a SID is a multiple of four, so the loop adds all of its double words.\<close>

fun sid_hash :: "nat \<Rightarrow> memory \<Rightarrow> ptr \<Rightarrow> u64" where
  "sid_hash 0 mem a = 0"
| "sid_hash (Suc n) mem a = ucast (dword_at mem a) + sid_hash n mem (a + 4)"

definition usersim_convert_sid_to_luid :: "memory \<Rightarrow> ptr \<Rightarrow> u64" where
  "usersim_convert_sid_to_luid mem sid = sid_hash (2 + unat (mem (sid + 1))) mem sid"

definition RtlCreateAcl :: "u32 \<Rightarrow> ptr \<Rightarrow> memory \<Rightarrow> ntstatus \<times> memory" where
  "RtlCreateAcl acl_length acl mem =
     (if acl_length < 8 then (STATUS_BUFFER_TOO_SMALL, mem)
      else (STATUS_SUCCESS, (\<lambda>a. if a - acl < ucast acl_length then 0 else mem a)))"

definition RtlAddAccessAllowedAce :: "bool \<Rightarrow> ntstatus" where
  "RtlAddAccessAllowedAce fault = (if fault then STATUS_INSUFFICIENT_RESOURCES else STATUS_SUCCESS)"

section \<open>Subject contexts\<close>

record subject_context =
  process_token :: ptr
  thread_token :: ptr
  lock_count :: u64

definition SeCaptureSubjectContext :: "ptr \<Rightarrow> ptr \<Rightarrow> subject_context" where
  "SeCaptureSubjectContext process thread = \<lparr>process_token = process, thread_token = thread, lock_count = 0\<rparr>"

definition SeLockSubjectContext :: "subject_context \<Rightarrow> subject_context" where
  "SeLockSubjectContext c = c\<lparr>lock_count := lock_count c + 1\<rparr>"

definition SeUnlockSubjectContext :: "subject_context \<Rightarrow> subject_context result" where
  "SeUnlockSubjectContext c =
     (if lock_count c - 1 = - 1 then Inl (Bug_Check 0) else Inr (c\<lparr>lock_count := lock_count c - 1\<rparr>))"

section \<open>Access checks\<close>

text \<open>The result, the granted access and the status.\<close>

definition SeAccessCheckFromState :: "bool \<Rightarrow> u32 \<Rightarrow> bool \<times> u32 \<times> ntstatus" where
  "SeAccessCheckFromState fault desired_access =
     (if fault then (False, desired_access, STATUS_ACCESS_DENIED) else (True, desired_access, STATUS_SUCCESS))"

abbreviation USERSIM_TAG_TOKEN_ACCESS_INFORMATION :: u32 where "USERSIM_TAG_TOKEN_ACCESS_INFORMATION \<equiv> 0x61747375"

text \<open>
  \<open>(ok, len, error)\<close> is the answer of \<^verbatim>\<open>GetTokenInformation\<close> to the size query, \<open>p\<close> the block of the heap, and the two
  \<open>fault\<close>s the answers of the fault injector to the allocation and to the check.
\<close>

definition access_check_locked ::
  "bool \<times> u32 \<times> u32 \<Rightarrow> bool \<Rightarrow> ptr \<Rightarrow> backtrace \<Rightarrow> backtrace \<Rightarrow> bool \<Rightarrow> u32 \<Rightarrow> mem_state \<Rightarrow>
   ((bool \<times> u32 \<times> ntstatus) \<times> mem_state) result" where
  "access_check_locked os fault_alloc p bt bt' fault desired_access h =
     (case os of (ok, len, error) \<Rightarrow>
        if error \<noteq> ERROR_INSUFFICIENT_BUFFER \<or> len = 0
        then Inr ((ok, 0, win32_error_to_usersim_error error), h)
        else case cxplat_allocate fault_alloc p bt CXPLAT_POOL_FLAG_NON_PAGED (ucast len) USERSIM_TAG_TOKEN_ACCESS_INFORMATION h of
               Inl e \<Rightarrow> Inl e
             | Inr (m, h1) \<Rightarrow>
                 (let r = (if m = nullptr then (ok, 0, STATUS_NO_MEMORY) else SeAccessCheckFromState fault desired_access)
                  in case cxplat_free bt' m CXPLAT_POOL_FLAG_NON_PAGED USERSIM_TAG_TOKEN_ACCESS_INFORMATION h1 of
                       Inl e \<Rightarrow> Inl e | Inr h2 \<Rightarrow> Inr (r, h2)))"

definition SeAccessCheck ::
  "bool \<times> u32 \<times> u32 \<Rightarrow> bool \<Rightarrow> ptr \<Rightarrow> backtrace \<Rightarrow> backtrace \<Rightarrow> bool \<Rightarrow> bool \<Rightarrow> u32 \<Rightarrow> subject_context \<Rightarrow> mem_state \<Rightarrow>
   ((bool \<times> u32 \<times> ntstatus) \<times> subject_context \<times> mem_state) result" where
  "SeAccessCheck os fault_alloc p bt bt' fault subject_context_locked desired_access c h =
     (let c1 = (if subject_context_locked then c else SeLockSubjectContext c)
      in case access_check_locked os fault_alloc p bt bt' fault desired_access h of
           Inl e \<Rightarrow> Inl e
         | Inr (r, h1) \<Rightarrow>
             if subject_context_locked then Inr (r, c1, h1)
             else (case SeUnlockSubjectContext c1 of Inl e \<Rightarrow> Inl e | Inr c2 \<Rightarrow> Inr (r, c2, h1)))"

section \<open>Token queries\<close>

text \<open>\<open>owner\<close> is the SID of the owner, or the error of \<^verbatim>\<open>GetTokenInformation\<close>.\<close>

definition SeQueryAuthenticationIdToken :: "bool \<Rightarrow> (u32, ptr) sum \<Rightarrow> memory \<Rightarrow> (ntstatus, u64) sum" where
  "SeQueryAuthenticationIdToken fault owner mem =
     (if fault then Inl STATUS_UNSUCCESSFUL
      else case owner of
             Inl error \<Rightarrow> Inl (win32_error_to_usersim_error error)
           | Inr sid \<Rightarrow> Inr (usersim_convert_sid_to_luid mem sid))"

text \<open>The size query answers \<open>(needed, error)\<close>, the query itself \<open>(ok, error2)\<close>.\<close>

definition SeQueryInformationToken ::
  "bool \<Rightarrow> u32 \<times> u32 \<Rightarrow> bool \<times> u32 \<Rightarrow> bool \<Rightarrow> ptr \<Rightarrow> backtrace \<Rightarrow> backtrace \<Rightarrow> mem_state \<Rightarrow> (ntstatus \<times> ptr \<times> mem_state) result" where
  "SeQueryInformationToken fault sizing query fault_alloc p bt bt' h =
     (if fault then Inr (STATUS_UNSUCCESSFUL, nullptr, h)
      else if snd sizing \<noteq> ERROR_INSUFFICIENT_BUFFER \<or> fst sizing = 0
      then Inr (win32_error_to_usersim_error (snd sizing), nullptr, h)
      else case np_alloc (fault_alloc, p, bt, ucast (fst sizing), USERSIM_TAG_TOKEN_ACCESS_INFORMATION) h of
             Inl e \<Rightarrow> Inl e
           | Inr (m, h1) \<Rightarrow>
               if m = nullptr then Inr (STATUS_NO_MEMORY, nullptr, h1)
               else if \<not> fst query
               then (case ExFreePoolCPP bt' m h1 of
                       Inl e \<Rightarrow> Inl e | Inr h2 \<Rightarrow> Inr (win32_error_to_usersim_error (snd query), nullptr, h2))
               else Inr (STATUS_SUCCESS, m, h1))"

section \<open>Account names\<close>

record unicode_string =
  Length :: u16
  MaximumLength :: u16
  Buffer :: "u8 list option"

text \<open>Characters have 16 bits and are stored low byte first.\<close>

definition wchar_bytes :: "u16 list \<Rightarrow> u8 list" where
  "wchar_bytes cs = concat (map (\<lambda>c. [ucast c, ucast (drop_bit 8 c)]) cs)"

text \<open>
  Copying one of the names to the caller: the number of bytes it needs, whether it was cut, and the caller's string. The
  number of bytes is taken modulo \<open>2 ^ 16\<close> before it is compared with the size of the buffer.
\<close>

definition copy_account :: "u16 list \<Rightarrow> unicode_string option \<Rightarrow> (u32 \<times> bool \<times> unicode_string option) result" where
  "copy_account cs str =
     (case str of
        None \<Rightarrow> Inr (0, False, None)
      | Some u \<Rightarrow>
          (case Buffer u of
             None \<Rightarrow> Inr (0, False, str)
           | Some b \<Rightarrow>
               if cs = [] then Inr (0, False, str)
               else let required = word_of_nat (length cs) * 2 :: u32;
                        truncated = ucast required > MaximumLength u;
                        byte_len = (if truncated then MaximumLength u else ucast required)
                    in if unat byte_len > length b then Inl Out_Of_Bounds
                       else Inr (required, truncated,
                              Some (u\<lparr>Buffer := Some (take (unat byte_len) (wchar_bytes cs) @ drop (unat byte_len) b),
                                      Length := byte_len\<rparr>))))"

text \<open>
  The answers of \<^verbatim>\<open>LookupAccountSidW\<close>: the error and the sizes of the first call, then the result of the second call with the
  names it stores.
\<close>

record account_os =
  lookup_error :: u32
  name_chars :: u32
  domain_chars :: u32
  name_use :: u32
  lookup_ok :: bool
  lookup_error2 :: u32
  name_out :: "u16 list"
  domain_out :: "u16 list"

record lookup_result =
  lk_status :: ntstatus
  NameSize :: "u32 option"
  DomainSize :: "u32 option"
  NameUse :: "u32 option"
  NameBuffer :: "unicode_string option"
  DomainBuffer :: "unicode_string option"

abbreviation USERSIM_TAG_ACCOUNT_NAME :: u32 where "USERSIM_TAG_ACCOUNT_NAME \<equiv> 0x616E7375"

text \<open>A temporary buffer for \<open>n\<close> characters, none if \<open>n\<close> is 0, and its release if there is one.\<close>

definition temp_buffer :: "bool \<times> ptr \<times> backtrace \<Rightarrow> u32 \<Rightarrow> mem_state \<Rightarrow> (ptr option \<times> mem_state) result" where
  "temp_buffer req n h =
     (if n = 0 then Inr (None, h)
      else case req of (fault, p, bt) \<Rightarrow>
        (case np_alloc (fault, p, bt, ucast n * 2, USERSIM_TAG_ACCOUNT_NAME) h of
           Inl e \<Rightarrow> Inl e | Inr (m, h1) \<Rightarrow> Inr (Some m, h1)))"

definition free_temp :: "backtrace \<Rightarrow> ptr option \<Rightarrow> mem_state \<Rightarrow> mem_state result" where
  "free_temp bt m h = (case m of None \<Rightarrow> Inr h | Some q \<Rightarrow> ExFreePoolCPP bt q h)"

definition chars_to_bytes :: "u32 \<Rightarrow> u32" where
  "chars_to_bytes n = (if n > 0 then (n - 1) * 2 else 0)"

definition SecLookupAccountSid ::
  "bool \<Rightarrow> bool \<Rightarrow> account_os \<Rightarrow> bool \<times> ptr \<times> backtrace \<Rightarrow> bool \<times> ptr \<times> backtrace \<Rightarrow> backtrace \<Rightarrow>
   unicode_string option \<Rightarrow> unicode_string option \<Rightarrow> mem_state \<Rightarrow> (lookup_result \<times> mem_state) result" where
  "SecLookupAccountSid fault pointers_ok os req_n req_d bt name_buffer domain_buffer h =
     (let failed = (\<lambda>st. \<lparr>lk_status = st, NameSize = None, DomainSize = None, NameUse = None,
                          NameBuffer = name_buffer, DomainBuffer = domain_buffer\<rparr>)
      in if fault then Inr (failed STATUS_UNSUCCESSFUL, h)
         else if \<not> pointers_ok then Inr (failed STATUS_INVALID_PARAMETER, h)
         else if lookup_error os \<noteq> ERROR_INSUFFICIENT_BUFFER
         then Inr (failed (win32_error_to_usersim_error (lookup_error os)), h)
         else if name_buffer = None \<and> domain_buffer = None
         then Inr (\<lparr>lk_status = STATUS_BUFFER_TOO_SMALL, NameSize = Some (chars_to_bytes (name_chars os)),
                   DomainSize = Some (chars_to_bytes (domain_chars os)), NameUse = Some (name_use os),
                   NameBuffer = None, DomainBuffer = None\<rparr>, h)
         else case temp_buffer req_n (name_chars os) h of
           Inl e \<Rightarrow> Inl e
         | Inr (n, h1) \<Rightarrow>
             if n = Some nullptr then Inr (failed STATUS_NO_MEMORY, h1)
             else (case temp_buffer req_d (domain_chars os) h1 of
               Inl e \<Rightarrow> Inl e
             | Inr (d, h2) \<Rightarrow>
                 if d = Some nullptr
                 then (case ExFreePoolCPP bt (case n of None \<Rightarrow> nullptr | Some q \<Rightarrow> q) h2 of
                         Inl e \<Rightarrow> Inl e | Inr h3 \<Rightarrow> Inr (failed STATUS_NO_MEMORY, h3))
                 else let release = (\<lambda>r. case free_temp bt n h2 of
                              Inl e \<Rightarrow> Inl e
                            | Inr h3 \<Rightarrow> (case free_temp bt d h3 of Inl e \<Rightarrow> Inl e | Inr h4 \<Rightarrow> Inr (r, h4)))
                      in if \<not> lookup_ok os then release (failed (win32_error_to_usersim_error (lookup_error2 os)))
                         else (case copy_account (name_out os) name_buffer of
                                 Inl e \<Rightarrow> Inl e
                               | Inr (ns, nt, nb) \<Rightarrow>
                                   (case copy_account (domain_out os) domain_buffer of
                                      Inl e \<Rightarrow> Inl e
                                    | Inr (dz, dt, db) \<Rightarrow>
                                        release \<lparr>lk_status = (if nt \<or> dt then STATUS_BUFFER_TOO_SMALL else STATUS_SUCCESS),
                                                NameSize = Some ns, DomainSize = Some dz, NameUse = Some (name_use os),
                                                NameBuffer = nb, DomainBuffer = db\<rparr>))))"

section \<open>Properties\<close>

lemma error_table_fails: "\<forall>(e, r) \<in> set error_table. \<not> NT_SUCCESS r"
  by (simp add: error_table_def NT_SUCCESS_def)

lemma win32_error_fails [simp]: "\<not> NT_SUCCESS (win32_error_to_usersim_error e)"
  using error_table_fails by (auto simp: win32_error_to_usersim_error_def dest: map_of_SomeD split: option.splits)

text \<open>
  the conversion of a Win32 error code is a success exactly for the three codes that stand for one: no error, a pending
  operation and an existing name. Every other code becomes a failure, also when the code is unknown.
\<close>
theorem error_conversion_sound:
  "NT_SUCCESS (win32_error_code_to_usersim_result e) \<longleftrightarrow> e \<in> {ERROR_SUCCESS, ERROR_IO_PENDING, ERROR_OBJECT_NAME_EXISTS}"
  by (simp add: win32_error_code_to_usersim_result_def) (simp add: NT_SUCCESS_def)

text \<open>
  C36: an access check leaves nothing behind. Whatever the operating system, the heap and the fault injector answer, the
  lock count of the subject context is what it was and the heap has the blocks it had; the
  result tells whether the status is a success, and a success grants the desired access. An access that the check
  denies is reported as granted all the same.
\<close>
theorem access_check_balanced:
  assumes "blocks h p = None" "p + 16 \<noteq> nullptr" "subject_context_locked \<or> lock_count c \<noteq> - 1"
  shows "\<exists>res granted st h'.
           SeAccessCheck (False, len, error) fault_alloc p bt bt' fault subject_context_locked desired c h =
             Inr ((res, granted, st), c, h') \<and>
           blocks h' = blocks h \<and> (res \<longleftrightarrow> NT_SUCCESS st) \<and> (res \<longrightarrow> granted = desired) \<and>
           (\<not> res \<longrightarrow> granted = (if error = ERROR_INSUFFICIENT_BUFFER \<and> len \<noteq> 0 \<and> st = STATUS_ACCESS_DENIED then desired else 0))"
proof -
  let ?os = "(False, len, error)"
  have "\<exists>res granted st h'. access_check_locked ?os fault_alloc p bt bt' fault desired h = Inr ((res, granted, st), h') \<and>
      blocks h' = blocks h \<and> (res \<longleftrightarrow> NT_SUCCESS st) \<and> (res \<longrightarrow> granted = desired) \<and>
      (\<not> res \<longrightarrow> granted = (if error = ERROR_INSUFFICIENT_BUFFER \<and> len \<noteq> 0 \<and> st = STATUS_ACCESS_DENIED then desired else 0))"
  proof (cases "error \<noteq> ERROR_INSUFFICIENT_BUFFER \<or> len = 0")
    case True
    then show ?thesis by (auto simp: access_check_locked_def)
  next
    case False
    let ?t = USERSIM_TAG_TOKEN_ACCESS_INFORMATION
    have pos: "0 < (ucast len :: u64)"
      using False by (simp add: word_less_nat_alt unat_ucast_32_64 unat_gt_0)
    obtain m h1 where a: "cxplat_allocate fault_alloc p bt CXPLAT_POOL_FLAG_NON_PAGED (ucast len) ?t h = Inr (m, h1)"
      using pos by (fastforce simp: cxplat_allocate_def Let_def)
    show ?thesis
    proof (cases "m = nullptr")
      case True
      have "user_pointer CXPLAT_POOL_FLAG_NON_PAGED p \<noteq> nullptr"
        using assms(2) by (simp add: user_pointer_def pointer_offset_def has_flag_def)
      then have "h1 = h" using allocate_failure a True by blast
      moreover have "\<not> NT_SUCCESS STATUS_NO_MEMORY" by simp
      ultimately show ?thesis using a False True
        by (auto simp: access_check_locked_def cxplat_free_def)
    next
      case m: False
      obtain h2 where "cxplat_free bt' m CXPLAT_POOL_FLAG_NON_PAGED ?t h1 = Inr h2" "blocks h2 = blocks h"
        using allocate_free [OF a m assms(1)] by blast
      then show ?thesis using a False m
        by (simp add: access_check_locked_def SeAccessCheckFromState_def NT_SUCCESS_def)
    qed
  qed
  then obtain res granted st h' where r: "access_check_locked ?os fault_alloc p bt bt' fault desired h = Inr ((res, granted, st), h')"
      "blocks h' = blocks h \<and> (res \<longleftrightarrow> NT_SUCCESS st) \<and> (res \<longrightarrow> granted = desired) \<and>
       (\<not> res \<longrightarrow> granted = (if error = ERROR_INSUFFICIENT_BUFFER \<and> len \<noteq> 0 \<and> st = STATUS_ACCESS_DENIED then desired else 0))"
    by blast
  have "SeAccessCheck ?os fault_alloc p bt bt' fault subject_context_locked desired c h = Inr ((res, granted, st), c, h')"
    using r(1) assms(3) by (auto simp: SeAccessCheck_def SeLockSubjectContext_def SeUnlockSubjectContext_def Let_def)
  then show ?thesis using r(2) by blast
qed

theorem access_check_balanced_witness:
  "\<exists>h'. SeAccessCheck (False, 24, ERROR_INSUFFICIENT_BUFFER) False 4096 None None True False 0x20000
          (SeCaptureSubjectContext 1 2) sample_heap =
          Inr ((False, 0x20000, STATUS_ACCESS_DENIED), SeCaptureSubjectContext 1 2, h') \<and> blocks h' = Map.empty"
proof -
  let ?c = "SeCaptureSubjectContext 1 2"
  have "blocks sample_heap 4096 = None" "(4096 :: ptr) + 16 \<noteq> nullptr" "False \<or> lock_count ?c \<noteq> - 1"
    by (simp_all add: sample_heap_def SeCaptureSubjectContext_def)
  from access_check_balanced [OF this, of 24 ERROR_INSUFFICIENT_BUFFER False None None True "0x20000"]
  obtain res granted st h' where r: "SeAccessCheck (False, 24, ERROR_INSUFFICIENT_BUFFER) False 4096 None None True False 0x20000 ?c
      sample_heap = Inr ((res, granted, st), ?c, h')" "blocks h' = blocks sample_heap" by blast
  moreover have "(res, granted, st) = (False, 0x20000, STATUS_ACCESS_DENIED)"
    using r(1) by (auto simp: SeAccessCheck_def access_check_locked_def SeAccessCheckFromState_def cxplat_allocate_def
        sample_heap_def pointer_defs has_flag_def Let_def split: sum.splits)
  ultimately show ?thesis by (auto simp: sample_heap_def)
qed

text \<open>
  A token query owns its buffer exactly when it succeeds. A success returns a buffer that the caller
  owns, one block more than before; every failure returns a null pointer, a failure status and the heap's blocks as they were.
\<close>
theorem token_query_memory:
  assumes "np_fresh (fault_alloc, p, bt, ucast (fst sizing), USERSIM_TAG_TOKEN_ACCESS_INFORMATION) h"
    and "SeQueryInformationToken fault sizing query fault_alloc p bt bt' h = Inr (status, m, h')"
  shows "(if NT_SUCCESS status
          then m \<noteq> nullptr \<and> np_owned h' m \<and> (\<exists>i. blocks h' = (blocks h)(np_blk m \<mapsto> i)) \<and> blocks h (np_blk m) = None
          else m = nullptr \<and> blocks h' = blocks h)"
proof (cases "fault \<or> snd sizing \<noteq> ERROR_INSUFFICIENT_BUFFER \<or> fst sizing = 0")
  case True
  then show ?thesis using assms(2) by (auto simp: SeQueryInformationToken_def split: if_splits)
next
  case False
  let ?a = "(fault_alloc, p, bt, ucast (fst sizing), USERSIM_TAG_TOKEN_ACCESS_INFORMATION)"
  obtain q h1 where q: "np_alloc ?a h = Inr (q, h1)"
    using assms(2) False by (auto simp: SeQueryInformationToken_def split: sum.splits)
  show ?thesis
  proof (cases "q = nullptr")
    case True
    then show ?thesis using assms(2) False q np.alloc_fail [OF _ assms(1)] by (simp add: SeQueryInformationToken_def)
  next
    case q0: False
    note A = np.alloc_ok [OF q q0 assms(1)]
    show ?thesis
    proof (cases "fst query")
      case True
      then show ?thesis using assms(2) False q q0 A by (auto simp: SeQueryInformationToken_def)
    next
      case failed: False
      obtain h2 where "ExFreePoolCPP bt' q h1 = Inr h2" "blocks h2 = blocks h"
        using np.one_buffer [OF q q0 assms(1), of bt'] by blast
      then show ?thesis using assms(2) False q q0 failed by (auto simp: SeQueryInformationToken_def)
    qed
  qed
qed

theorem token_query_memory_witness:
  "\<exists>h'. SeQueryInformationToken False (16, ERROR_INSUFFICIENT_BUFFER) (False, 5) False 4096 None None sample_heap =
          Inr (STATUS_ACCESS_DENIED, nullptr, h') \<and> blocks h' = Map.empty"
proof -
  have f: "np_fresh (False, 4096, None, ucast (fst (16 :: u32, ERROR_INSUFFICIENT_BUFFER)), USERSIM_TAG_TOKEN_ACCESS_INFORMATION) sample_heap"
    by (simp add: np_fresh_def sample_heap_def)
  obtain h' where h': "SeQueryInformationToken False (16, ERROR_INSUFFICIENT_BUFFER) (False, 5) False 4096 None None sample_heap =
      Inr (STATUS_ACCESS_DENIED, nullptr, h')"
    by (simp add: SeQueryInformationToken_def np_alloc_def ExAllocatePoolUninitializedCPP_def pool_type_to_flags_def pool_allocate_def
        ExFreePoolCPP_def cxplat_free_def cxplat_allocate_def sample_heap_def pointer_defs has_flag_def Let_def heap_free_def
        unregister_allocation_def register_allocation_def remember_stack_def empty_leaks_def bt_hash_def
        win32_error_to_usersim_error_def error_table_def)
  have "\<not> NT_SUCCESS STATUS_ACCESS_DENIED" by (simp add: NT_SUCCESS_def)
  with token_query_memory [OF f h'] h' show ?thesis by (auto simp: sample_heap_def)
qed

section \<open>Account lookup\<close>

lemma wchar_bytes_length [simp]: "length (wchar_bytes cs) = 2 * length cs"
  by (induction cs) (simp_all add: wchar_bytes_def)

lemma required_bytes:
  assumes "2 * length (cs :: u16 list) < 2 ^ 16"
  shows "unat (word_of_nat (length cs) * 2 :: u32) = 2 * length cs"
    "unat (ucast (word_of_nat (length cs) * 2 :: u32) :: u16) = 2 * length cs"
proof -
  show "unat (word_of_nat (length cs) * 2 :: u32) = 2 * length cs"
    using assms by (simp add: unat_word_ariths unsigned_of_nat take_bit_nat_eq_self)
  then show "unat (ucast (word_of_nat (length cs) * 2 :: u32) :: u16) = 2 * length cs"
    using assms by (simp add: unsigned_ucast_eq take_bit_nat_eq_self)
qed

lemma copy_account_fits:
  assumes "cs \<noteq> []" "2 * length cs < 2 ^ 16" "Buffer u = Some b" "unat (MaximumLength u) = length b" "2 * length cs \<le> length b"
  shows "copy_account cs (Some u) = Inr (word_of_nat (length cs) * 2, False,
     Some (u\<lparr>Buffer := Some (wchar_bytes cs @ drop (2 * length cs) b), Length := ucast (word_of_nat (length cs) * 2 :: u32)\<rparr>))"
proof -
  have "\<not> (ucast (word_of_nat (length cs) * 2 :: u32) :: u16) > MaximumLength u"
    using required_bytes(2) [OF assms(2)] assms(4,5) by (simp add: word_less_nat_alt)
  then show ?thesis using assms required_bytes(2) [OF assms(2)] by (simp add: copy_account_def Let_def)
qed

lemma copy_account_cut:
  assumes "2 * length cs < 2 ^ 16" "Buffer u = Some b" "unat (MaximumLength u) = length b" "length b < 2 * length cs"
  shows "copy_account cs (Some u) = Inr (word_of_nat (length cs) * 2, True,
     Some (u\<lparr>Buffer := Some (take (length b) (wchar_bytes cs)), Length := MaximumLength u\<rparr>))"
proof -
  have "(ucast (word_of_nat (length cs) * 2 :: u32) :: u16) > MaximumLength u"
    using required_bytes(2) [OF assms(1)] assms(3,4) by (simp add: word_less_nat_alt)
  then show ?thesis using assms by (auto simp: copy_account_def Let_def)
qed

text \<open>
  A name of \<open>2 ^ 15\<close> characters needs \<open>2 ^ 16\<close> bytes, which is 0 in the 16 bits that are compared with the size of the buffer:
  nothing is copied, and the copy counts as complete.
\<close>

theorem long_name_counts_as_copied:
  assumes "length cs = 2 ^ 15" "Buffer u = Some b"
  shows "copy_account cs (Some u) = Inr (2 ^ 16, False, Some (u\<lparr>Length := 0\<rparr>))"
proof -
  have "cs \<noteq> []" using assms(1) by auto
  moreover have "\<not> x < (65536 :: u16)" for x by (simp add: word_less_nat_alt)
  ultimately show ?thesis using assms by (simp add: copy_account_def Let_def)
qed

text \<open>
  What the operating system documents of a lookup that succeeds: the size query fails with the sizes including the terminator, and the
  second call stores the names.
\<close>

definition account_documented :: "account_os \<Rightarrow> bool" where
  "account_documented os \<longleftrightarrow> lookup_error os = ERROR_INSUFFICIENT_BUFFER \<and> lookup_ok os \<and>
     name_chars os = word_of_nat (Suc (length (name_out os))) \<and> domain_chars os = word_of_nat (Suc (length (domain_out os)))"

lemma chars_to_bytes_Suc:
  assumes "2 * length (cs :: u16 list) < 2 ^ 16"
  shows "chars_to_bytes (word_of_nat (Suc (length cs))) = word_of_nat (length cs) * 2" "(word_of_nat (Suc (length cs)) :: u32) \<noteq> 0"
proof -
  have "unat (word_of_nat (Suc (length cs)) :: u32) = Suc (length cs)"
    using assms by (simp only: unsigned_of_nat) (simp add: take_bit_nat_eq_self)
  then have "(word_of_nat (Suc (length cs)) :: u32) > 0" by (simp only: word_less_nat_alt) simp
  then show "chars_to_bytes (word_of_nat (Suc (length cs))) = word_of_nat (length cs) * 2" "(word_of_nat (Suc (length cs)) :: u32) \<noteq> 0"
    by (simp_all only: chars_to_bytes_def if_True) (simp_all)
qed

text \<open>
  looking up an account by the protocol of its documentation works and leaks nothing. A first call
  without buffers returns the sizes of both names; a second call with buffers of those sizes succeeds, fills them with the
  names, reports their lengths, and gives both temporary buffers back. With a name buffer that is too small the second call reports
  that, with the size it needs, and fills the buffer with the beginning of the name.
\<close>
theorem lookup_account_roundtrip:
  assumes os: "account_documented os" "name_out os \<noteq> []" "domain_out os \<noteq> []"
      "2 * length (name_out os) < 2 ^ 16" "2 * length (domain_out os) < 2 ^ 16"
    and n: "np_alloc (fn, pn, btn, ucast (name_chars os) * 2, USERSIM_TAG_ACCOUNT_NAME) h = Inr (qn, h1)" "qn \<noteq> nullptr"
      "np_fresh (fn, pn, btn, ucast (name_chars os) * 2, USERSIM_TAG_ACCOUNT_NAME) h"
    and d: "np_alloc (fd, pd, btd, ucast (domain_chars os) * 2, USERSIM_TAG_ACCOUNT_NAME) h1 = Inr (qd, h2)" "qd \<noteq> nullptr"
      "np_fresh (fd, pd, btd, ucast (domain_chars os) * 2, USERSIM_TAG_ACCOUNT_NAME) h1"
    and u: "Buffer u = Some b" "unat (MaximumLength u) = length b"
    and v: "Buffer v = Some c" "unat (MaximumLength v) = length c" "length c = 2 * length (domain_out os)"
  shows "\<exists>ns ds h'.
           unat ns = 2 * length (name_out os) \<and> unat ds = 2 * length (domain_out os) \<and>
           SecLookupAccountSid False True os (fn, pn, btn) (fd, pd, btd) bt None None h =
             Inr (\<lparr>lk_status = STATUS_BUFFER_TOO_SMALL, NameSize = Some ns, DomainSize = Some ds, NameUse = Some (name_use os),
                   NameBuffer = None, DomainBuffer = None\<rparr>, h) \<and>
           SecLookupAccountSid False True os (fn, pn, btn) (fd, pd, btd) bt (Some u) (Some v) h =
             Inr (\<lparr>lk_status = (if length b < 2 * length (name_out os) then STATUS_BUFFER_TOO_SMALL else STATUS_SUCCESS),
                   NameSize = Some ns, DomainSize = Some ds, NameUse = Some (name_use os),
                   NameBuffer = Some (u\<lparr>Buffer := Some (take (length b) (wchar_bytes (name_out os)) @ drop (2 * length (name_out os)) b),
                                        Length := (if length b < 2 * length (name_out os) then MaximumLength u else ucast ns)\<rparr>),
                   DomainBuffer = Some (v\<lparr>Buffer := Some (wchar_bytes (domain_out os)), Length := ucast ds\<rparr>)\<rparr>, h') \<and>
           blocks h' = blocks h"
proof -
  let ?ns = "word_of_nat (length (name_out os)) * 2 :: u32" let ?ds = "word_of_nat (length (domain_out os)) * 2 :: u32"
  have chars: "name_chars os = word_of_nat (Suc (length (name_out os)))" "domain_chars os = word_of_nat (Suc (length (domain_out os)))"
    using os(1) by (simp_all only: account_documented_def)
  note cn = chars_to_bytes_Suc [OF os(4), folded chars(1)] and cd = chars_to_bytes_Suc [OF os(5), folded chars(2)]
  have e: "lookup_error os = ERROR_INSUFFICIENT_BUFFER" "lookup_ok os"
    "name_chars os \<noteq> 0" "domain_chars os \<noteq> 0" "chars_to_bytes (name_chars os) = ?ns" "chars_to_bytes (domain_chars os) = ?ds"
    using os(1) cn cd unfolding account_documented_def by blast+
  have tn: "temp_buffer (fn, pn, btn) (name_chars os) h = Inr (Some qn, h1)"
    and td: "temp_buffer (fd, pd, btd) (domain_chars os) h1 = Inr (Some qd, h2)"
    using n(1) d(1) e(3,4) by (simp_all add: temp_buffer_def)
  obtain h3 h4 where free: "ExFreePoolCPP bt qn h2 = Inr h3" "ExFreePoolCPP bt qd h3 = Inr h4" "blocks h4 = blocks h"
    using np.two_buffers [OF n d, of bt bt] by blast
  let ?nb = "Some (u\<lparr>Buffer := Some (take (length b) (wchar_bytes (name_out os)) @ drop (2 * length (name_out os)) b),
      Length := (if length b < 2 * length (name_out os) then MaximumLength u else ucast ?ns)\<rparr>)"
  have name: "copy_account (name_out os) (Some u) = Inr (?ns, length b < 2 * length (name_out os), ?nb)"
  proof (cases "length b < 2 * length (name_out os)")
    case True
    then show ?thesis using copy_account_cut [OF os(4) u] by simp
  next
    case False
    then show ?thesis using copy_account_fits [OF os(2,4) u] by simp
  qed
  have dom: "copy_account (domain_out os) (Some v) =
      Inr (?ds, False, Some (v\<lparr>Buffer := Some (wchar_bytes (domain_out os)), Length := ucast ?ds\<rparr>))"
    using copy_account_fits [OF os(3,5) v(1,2)] v(3) by simp
  show ?thesis
    by (rule exI [of _ ?ns], rule exI [of _ ?ds], rule exI [of _ h4], intro conjI required_bytes(1) [OF os(4)] required_bytes(1) [OF os(5)])
      (simp_all add: SecLookupAccountSid_def e tn td n(2) d(2) name dom free free_temp_def Let_def)
qed

definition sample_account :: account_os where
  "sample_account = \<lparr>lookup_error = ERROR_INSUFFICIENT_BUFFER, name_chars = 3, domain_chars = 2, name_use = 1, lookup_ok = True,
     lookup_error2 = 0, name_out = [0x61, 0x62], domain_out = [0x64]\<rparr>"

lemmas pool_eval = np_alloc_def ExAllocatePoolUninitializedCPP_def pool_type_to_flags_def pool_allocate_def cxplat_allocate_def
  sample_heap_def pointer_defs has_flag_def

theorem lookup_account_roundtrip_witness:
  "\<exists>h'. SecLookupAccountSid False True sample_account (False, 4096, None) (False, 8192, None) None
          (Some \<lparr>Length = 0, MaximumLength = 4, Buffer = Some [0, 0, 0, 0]\<rparr>)
          (Some \<lparr>Length = 0, MaximumLength = 2, Buffer = Some [0, 0]\<rparr>) sample_heap =
        Inr (\<lparr>lk_status = STATUS_SUCCESS, NameSize = Some 4, DomainSize = Some 2, NameUse = Some 1,
              NameBuffer = Some \<lparr>Length = 4, MaximumLength = 4, Buffer = Some [0x61, 0, 0x62, 0]\<rparr>,
              DomainBuffer = Some \<lparr>Length = 2, MaximumLength = 2, Buffer = Some [0x64, 0]\<rparr>\<rparr>, h') \<and> blocks h' = Map.empty"
proof -
  let ?u = "\<lparr>Length = 0, MaximumLength = 4, Buffer = Some [0, 0, 0, 0]\<rparr>" let ?v = "\<lparr>Length = 0, MaximumLength = 2, Buffer = Some [0, 0]\<rparr>"
  let ?rn = "(False, 4096, None, ucast (name_chars sample_account) * 2, USERSIM_TAG_ACCOUNT_NAME)"
  let ?rd = "(False, 8192, None, ucast (domain_chars sample_account) * 2, USERSIM_TAG_ACCOUNT_NAME)"
  have os: "account_documented sample_account" "name_out sample_account \<noteq> []" "domain_out sample_account \<noteq> []"
      "2 * length (name_out sample_account) < 2 ^ 16" "2 * length (domain_out sample_account) < 2 ^ 16"
    by (simp_all add: account_documented_def sample_account_def)
  obtain h1 where n: "np_alloc ?rn sample_heap = Inr (4176, h1)" by (simp add: pool_eval sample_account_def Let_def)
  have b: "blocks h1 = [4096 \<mapsto> (86, False)]" "fuzzing_memory_limit h1 = - 1"
    using n by (auto simp: pool_eval sample_account_def Let_def)
  obtain h2 where d: "np_alloc ?rd h1 = Inr (8272, h2)" using b by (simp add: pool_eval sample_account_def Let_def)
  have f: "np_fresh ?rn sample_heap" "np_fresh ?rd h1" using b by (simp_all add: np_fresh_def sample_heap_def)
  from lookup_account_roundtrip [OF os n _ f(1) d _ f(2), of ?u "[0, 0, 0, 0]" ?v "[0, 0]" None]
  obtain ns ds h' where r: "unat ns = 4" "unat ds = 2" "blocks h' = blocks sample_heap"
    "SecLookupAccountSid False True sample_account (False, 4096, None) (False, 8192, None) None (Some ?u) (Some ?v) sample_heap =
       Inr (\<lparr>lk_status = STATUS_SUCCESS, NameSize = Some ns, DomainSize = Some ds, NameUse = Some 1,
             NameBuffer = Some (?u\<lparr>Buffer := Some (wchar_bytes [0x61, 0x62]), Length := ucast ns\<rparr>),
             DomainBuffer = Some (?v\<lparr>Buffer := Some (wchar_bytes [0x64]), Length := ucast ds\<rparr>)\<rparr>, h')"
    by (auto simp: sample_account_def)
  have "ns = 4" "ds = 2" using r(1,2) by (simp_all add: word_unat_eq_iff)
  then show ?thesis using r(3,4) by (auto simp: wchar_bytes_def sample_heap_def)
qed

end
