(* ===== verification/Objects.thy ===== *)
theory Objects
  imports Usersim_Prelude
begin

text \<open>
  Object references of \<^verbatim>\<open>src/ob.cpp\<close> and the process routines of \<^verbatim>\<open>src/ps.cpp\<close>. The table of references is a map from objects
  to 32-bit counts; \<open>closed\<close> lists the handles given to \<^verbatim>\<open>CloseHandle\<close>. A callback is an address, null when it is not set,
  and \<open>call\<close> stands for what the client's function returns.
\<close>

section \<open>Object references\<close>

record object_state =
  references :: "ptr \<rightharpoonup> u32"
  closed :: "ptr list"

definition ObfReferenceObject :: "ptr \<Rightarrow> object_state \<Rightarrow> u64 \<times> object_state" where
  "ObfReferenceObject ob s =
     (let n = (case references s ob of None \<Rightarrow> 1 | Some n \<Rightarrow> n + 1)
      in (ucast n, s\<lparr>references := (references s)(ob \<mapsto> n)\<rparr>))"

text \<open>An object that is not in the table enters it with count 0 before the count is decremented.\<close>

definition ObfDereferenceObject :: "ptr \<Rightarrow> object_state \<Rightarrow> u64 \<times> object_state" where
  "ObfDereferenceObject ob s =
     (let remaining = (case references s ob of None \<Rightarrow> 0 | Some n \<Rightarrow> n) - 1
      in if remaining = 0 then (0, s\<lparr>references := (references s)(ob := None), closed := closed s @ [ob]\<rparr>)
         else (ucast remaining, s\<lparr>references := (references s)(ob \<mapsto> remaining)\<rparr>))"

definition ObReferenceObjectByHandle :: "bool \<Rightarrow> ptr \<Rightarrow> object_state \<Rightarrow> ntstatus \<times> ptr \<times> object_state" where
  "ObReferenceObjectByHandle handle_information handle s =
     (if handle_information then (STATUS_NOT_SUPPORTED, handle, s)
      else (STATUS_SUCCESS, handle, snd (ObfReferenceObject handle s)))"

definition ObCloseHandle :: "ptr \<Rightarrow> object_state \<Rightarrow> ntstatus \<times> object_state" where
  "ObCloseHandle handle s = (STATUS_SUCCESS, snd (ObfDereferenceObject handle s))"

section \<open>Processes\<close>

record ps_state =
  primary_token_ref_count :: u32
  process_start_key_callback :: ptr
  process_exit_status_callback :: ptr
  process_create_time_callback :: ptr
  thread_create_time_callback :: ptr
  process_exit_time_callback :: ptr
  process_creation_notify_routine :: ptr

definition PsReferencePrimaryToken :: "ptr \<Rightarrow> ps_state \<Rightarrow> ptr \<times> ps_state" where
  "PsReferencePrimaryToken token s = (token, s\<lparr>primary_token_ref_count := primary_token_ref_count s + 1\<rparr>)"

definition PsDereferencePrimaryToken :: "ps_state \<Rightarrow> ps_state result" where
  "PsDereferencePrimaryToken s =
     assert_that (primary_token_ref_count s > 0) (Inr (s\<lparr>primary_token_ref_count := primary_token_ref_count s - 1\<rparr>))"

definition usersim_clean_up_ps :: "ps_state \<Rightarrow> ps_state result" where
  "usersim_clean_up_ps s = assert_that (primary_token_ref_count s = 0) (Inr (s\<lparr>primary_token_ref_count := 0\<rparr>))"

definition PsSetCreateProcessNotifyRoutineEx :: "ptr \<Rightarrow> bool \<Rightarrow> ps_state \<Rightarrow> ntstatus \<times> ps_state" where
  "PsSetCreateProcessNotifyRoutineEx notify_routine remove s =
     (if notify_routine = nullptr then (STATUS_INVALID_PARAMETER, s)
      else if remove
      then (if process_creation_notify_routine s = nullptr then (STATUS_INVALID_PARAMETER, s)
            else (STATUS_SUCCESS, s\<lparr>process_creation_notify_routine := nullptr\<rparr>))
      else if process_creation_notify_routine s \<noteq> nullptr then (STATUS_INVALID_PARAMETER, s)
      else (STATUS_SUCCESS, s\<lparr>process_creation_notify_routine := notify_routine\<rparr>))"

text \<open>The routine that is called, if any, with its arguments.\<close>

definition usersime_invoke_process_creation_notify_routine ::
  "ptr \<Rightarrow> ptr \<Rightarrow> ptr \<Rightarrow> ps_state \<Rightarrow> (ptr \<times> ptr \<times> ptr \<times> ptr) option" where
  "usersime_invoke_process_creation_notify_routine process process_id create_info s =
     (if process_creation_notify_routine s \<noteq> nullptr
      then Some (process_creation_notify_routine s, process, process_id, create_info) else None)"

definition usersime_set_process_start_key_callback :: "ptr \<Rightarrow> ps_state \<Rightarrow> ps_state" where
  "usersime_set_process_start_key_callback cb s = s\<lparr>process_start_key_callback := cb\<rparr>"

text \<open>\<open>telemetry\<close> is the status and the key that \<^verbatim>\<open>NtQueryInformationProcess\<close> answers.\<close>

definition PsGetProcessStartKey :: "(ptr \<Rightarrow> ptr \<Rightarrow> u64) \<Rightarrow> ntstatus \<times> u64 \<Rightarrow> ptr \<Rightarrow> ps_state \<Rightarrow> u64" where
  "PsGetProcessStartKey call telemetry process s =
     (if process_start_key_callback s \<noteq> nullptr then call (process_start_key_callback s) process
      else if NT_SUCCESS (fst telemetry) then snd telemetry else 0)"

definition usersime_set_process_exit_status_callback :: "ptr \<Rightarrow> ps_state \<Rightarrow> ps_state" where
  "usersime_set_process_exit_status_callback cb s = s\<lparr>process_exit_status_callback := cb\<rparr>"

definition PsGetProcessExitStatus :: "(ptr \<Rightarrow> ptr \<Rightarrow> ntstatus) \<Rightarrow> ptr \<Rightarrow> ps_state \<Rightarrow> ntstatus" where
  "PsGetProcessExitStatus call process s =
     (if process_exit_status_callback s \<noteq> nullptr then call (process_exit_status_callback s) process else - 1)"

definition usersime_set_process_create_time_quadpart_callback :: "ptr \<Rightarrow> ps_state \<Rightarrow> ps_state" where
  "usersime_set_process_create_time_quadpart_callback cb s = s\<lparr>process_create_time_callback := cb\<rparr>"

definition PsGetProcessCreateTimeQuadPart :: "(ptr \<Rightarrow> ptr \<Rightarrow> u64) \<Rightarrow> ptr \<Rightarrow> ps_state \<Rightarrow> u64" where
  "PsGetProcessCreateTimeQuadPart call process s =
     (if process_create_time_callback s \<noteq> nullptr then call (process_create_time_callback s) process else 0)"

definition usersime_set_thread_create_time_callback :: "ptr \<Rightarrow> ps_state \<Rightarrow> ps_state" where
  "usersime_set_thread_create_time_callback cb s = s\<lparr>thread_create_time_callback := cb\<rparr>"

text \<open>\<open>created\<close> is the creation time \<open>(low, high)\<close> that \<^verbatim>\<open>GetThreadTimes\<close> reports for the current thread, if it succeeds.\<close>

definition PsGetThreadCreateTime :: "(ptr \<Rightarrow> ptr \<Rightarrow> u64) \<Rightarrow> (u32 \<times> u32) option \<Rightarrow> ptr \<Rightarrow> ps_state \<Rightarrow> u64" where
  "PsGetThreadCreateTime call created thread s =
     (if thread_create_time_callback s \<noteq> nullptr then call (thread_create_time_callback s) thread
      else case created of None \<Rightarrow> 0 | Some (low, high) \<Rightarrow> or (ucast low) (push_bit 32 (ucast high)))"

definition usersime_set_process_exit_time_callback :: "ptr \<Rightarrow> ps_state \<Rightarrow> ps_state" where
  "usersime_set_process_exit_time_callback cb s = s\<lparr>process_exit_time_callback := cb\<rparr>"

definition PsGetProcessExitTime :: "(ptr \<Rightarrow> u64) \<Rightarrow> ps_state \<Rightarrow> u64" where
  "PsGetProcessExitTime call s =
     (if process_exit_time_callback s \<noteq> nullptr then call (process_exit_time_callback s) else 0)"

section \<open>Properties\<close>

fun reference_n :: "nat \<Rightarrow> ptr \<Rightarrow> object_state \<Rightarrow> object_state" where
  "reference_n 0 ob s = s"
| "reference_n (Suc n) ob s = snd (ObfReferenceObject ob (reference_n n ob s))"

fun dereference_n :: "nat \<Rightarrow> ptr \<Rightarrow> object_state \<Rightarrow> object_state" where
  "dereference_n 0 ob s = s"
| "dereference_n (Suc n) ob s = snd (ObfDereferenceObject ob (dereference_n n ob s))"

definition count_map :: "ptr \<Rightarrow> nat \<Rightarrow> object_state \<Rightarrow> object_state" where
  "count_map ob n s = s\<lparr>references := (references s)(ob := if n = 0 then None else Some (word_of_nat n))\<rparr>"

lemma word_of_nat_neq0: "0 < n \<Longrightarrow> n < 2 ^ 32 \<Longrightarrow> (word_of_nat n :: u32) \<noteq> 0"
  by (simp add: word_unat_eq_iff unsigned_of_nat take_bit_nat_eq_self)

lemma reference_n_count:
  "references s ob = None \<Longrightarrow> n < 2 ^ 32 \<Longrightarrow> reference_n n ob s = count_map ob n s"
proof (induction n)
  case 0
  have "(references s)(ob := None) = references s" using 0 by (auto simp: fun_eq_iff)
  then show ?case by (simp add: count_map_def)
next
  case (Suc n)
  then show ?case by (simp add: count_map_def ObfReferenceObject_def Let_def add.commute)
qed

lemma dereference_step:
  assumes "0 < j" "Suc j < 2 ^ 32"
  shows "snd (ObfDereferenceObject ob (count_map ob (Suc j) s)) = count_map ob j s"
proof -
  have "(word_of_nat j :: u32) \<noteq> 0" by (rule word_of_nat_neq0) (use assms in auto)
  then show ?thesis using assms(1) by (simp add: count_map_def ObfDereferenceObject_def Let_def)
qed

lemma dereference_n_count:
  assumes "references s ob = None" "n < 2 ^ 32" "k < n"
  shows "dereference_n k ob (count_map ob n s) = count_map ob (n - k) s"
  using assms(3)
proof (induction k)
  case 0
  then show ?case by simp
next
  case (Suc k)
  have "n - k = Suc (n - Suc k)" using Suc.prems by simp
  then show ?case using Suc dereference_step [of "n - Suc k" ob s] assms(2) by simp
qed

text \<open>
  references are counted. For an object that has no entry, after \<open>n\<close> references the count is \<open>n\<close>; fewer than \<open>n\<close>
  dereferences close nothing, and the \<open>n\<close>-th removes the entry and closes the handle, once. A dereference without a
  reference leaves a count of \<open>2 ^ 32 - 1\<close>, and does not close anything. So a handle that was opened, referenced through
  \<^verbatim>\<open>ObReferenceObjectByHandle\<close> and released again is closed already, and \<^verbatim>\<open>ObCloseHandle\<close> then leaves such a count.
\<close>
theorem object_references_counted:
  assumes "references s ob = None" "0 < n" "n < 2 ^ 32" "k < n"
  shows "references (reference_n n ob s) ob = Some (word_of_nat n) \<and>
         closed (dereference_n k ob (reference_n n ob s)) = closed s \<and>
         references (dereference_n k ob (reference_n n ob s)) ob = Some (word_of_nat (n - k)) \<and>
         dereference_n n ob (reference_n n ob s) = s\<lparr>closed := closed s @ [ob]\<rparr> \<and>
         ObfDereferenceObject ob s = (2 ^ 32 - 1, s\<lparr>references := (references s)(ob \<mapsto> - 1)\<rparr>)"
proof -
  have up: "reference_n n ob s = count_map ob n s" by (rule reference_n_count [OF assms(1,3)])
  have down: "dereference_n k ob (count_map ob n s) = count_map ob (n - k) s" if "k < n" for k
    by (rule dereference_n_count [OF assms(1,3) that])
  have "dereference_n n ob (count_map ob n s) = snd (ObfDereferenceObject ob (count_map ob 1 s))"
    using down [of "n - 1"] assms(2) by (cases n) (simp_all del: dereference_n.simps(1))
  moreover have "(references s)(ob := None) = references s" using assms(1) by (auto simp: fun_eq_iff)
  ultimately have "dereference_n n ob (count_map ob n s) = s\<lparr>closed := closed s @ [ob]\<rparr>"
    by (simp add: ObfDereferenceObject_def count_map_def Let_def)
  moreover have "(ucast (- 1 :: u32) :: u64) = 2 ^ 32 - 1"
    by (simp add: word_unat_eq_iff unat_ucast_32_64 unsigned_minus_1_eq_mask mask_eq_exp_minus_1)
  ultimately show ?thesis using up down [OF assms(4)] assms
    by (simp add: count_map_def ObfDereferenceObject_def Let_def)
qed

theorem object_references_counted_witness:
  "\<exists>s. references s = Map.empty \<and> references (reference_n 3 0x10 s) 0x10 = Some 3 \<and>
       dereference_n 3 0x10 (reference_n 3 0x10 s) = s\<lparr>closed := [0x10]\<rparr>"
proof -
  let ?s = "\<lparr>references = Map.empty, closed = []\<rparr>"
  have "references ?s 0x10 = None" "0 < (3 :: nat)" "(3 :: nat) < 2 ^ 32" "1 < (3 :: nat)" by simp_all
  from object_references_counted [OF this] show ?thesis by (intro exI [of _ ?s]) simp
qed

text \<open>
  Setting and removing the notification routine: one routine at a time, called until it is removed; removal takes any routine.
\<close>

theorem notify_routine_roundtrip:
  assumes "process_creation_notify_routine s = nullptr" "r \<noteq> nullptr" "r' \<noteq> nullptr"
  shows "\<exists>s1. PsSetCreateProcessNotifyRoutineEx r False s = (STATUS_SUCCESS, s1) \<and>
              usersime_invoke_process_creation_notify_routine p i c s1 = Some (r, p, i, c) \<and>
              PsSetCreateProcessNotifyRoutineEx r' False s1 = (STATUS_INVALID_PARAMETER, s1) \<and>
              PsSetCreateProcessNotifyRoutineEx r' True s1 = (STATUS_SUCCESS, s) \<and>
              usersime_invoke_process_creation_notify_routine p i c s = None"
  using assms by (simp add: PsSetCreateProcessNotifyRoutineEx_def usersime_invoke_process_creation_notify_routine_def)

end
