(* ===== verification/Cxplat.thy ===== *)
theory Cxplat
  imports Work_Item Memory Fault_Injection
begin

text \<open>
  Start and end of the cross-platform layer: \<^verbatim>\<open>cxplat/src/cxplat_winuser/cxplat_winuser.cpp\<close> with its debugging features, which
  \<^verbatim>\<open>cxplat_winuser.h\<close> always enables, and the start of \<^verbatim>\<open>symbol_decoder.h\<close>. The state is made of the states of
  the components it starts. The answers of the operating system and the environment variables are arguments.
\<close>

section \<open>Environment variables\<close>

type_synonym environment = "string \<Rightarrow> string option"

definition get_environment_variable_as_string :: "environment \<Rightarrow> string \<Rightarrow> string" where
  "get_environment_variable_as_string env name = (case env name of None \<Rightarrow> [] | Some v \<Rightarrow> v)"

text \<open>\<^verbatim>\<open>std::tolower\<close> in the C locale.\<close>

definition to_lower :: "char \<Rightarrow> char" where
  "to_lower c = (let k = (of_char c :: nat) in if 65 \<le> k \<and> k \<le> 90 then char_of (k + 32) else c)"

definition get_environment_variable_as_bool :: "environment \<Rightarrow> string \<Rightarrow> bool" where
  "get_environment_variable_as_bool env name =
     (let v = get_environment_variable_as_string env name
      in if v = [] then False
         else let w = map to_lower v in if w = ''false'' then False else if w = ''0'' then False else True)"

definition dec_value :: "char \<Rightarrow> nat option" where
  "dec_value c = (let k = (of_char c :: nat) in if 48 \<le> k \<and> k < 58 then Some (k - 48) else None)"

text \<open>\<^verbatim>\<open>std::stoull\<close> in base 10. It takes the longest numeral after blanks and a sign, and throws if there is none or it is too large.\<close>

definition stoull10 :: "string \<Rightarrow> u64 result" where
  "stoull10 s =
     (let s1 = dropWhile is_space s;
          neg = (s1 \<noteq> [] \<and> hd s1 = CHR ''-'');
          s2 = (if s1 \<noteq> [] \<and> hd s1 \<in> {CHR ''-'', CHR ''+''} then tl s1 else s1);
          ds = takeWhile (\<lambda>c. dec_value c \<noteq> None) s2;
          n = foldl (\<lambda>a c. 10 * a + the (dec_value c)) 0 ds
      in if ds = [] then Inl (Runtime_Error ''invalid stoull argument'')
         else if n \<ge> 2 ^ 64 then Inl (Runtime_Error ''stoull argument out of range'')
         else Inr (if neg then - word_of_nat n else word_of_nat n))"

definition get_environment_variable_as_size_t :: "environment \<Rightarrow> string \<Rightarrow> u64" where
  "get_environment_variable_as_size_t env name =
     (let v = get_environment_variable_as_string env name
      in if v = [] then 0 else case stoull10 v of Inl _ \<Rightarrow> 0 | Inr n \<Rightarrow> n)"

abbreviation FAULT_INJECTION_VARIABLE :: string where "FAULT_INJECTION_VARIABLE \<equiv> ''CXPLAT_FAULT_INJECTION_SIMULATION''"
abbreviation LEAK_DETECTION_VARIABLE :: string where "LEAK_DETECTION_VARIABLE \<equiv> ''CXPLAT_MEMORY_LEAK_DETECTION''"

section \<open>The layer\<close>

text \<open>
  \<open>fault_injector\<close> is the singleton of theory \<open>Fault_Injection\<close>; \<open>detector\<close> is \<^verbatim>\<open>_cxplat_leak_detector_ptr\<close>; \<open>decoder_open\<close> tells
  whether \<^verbatim>\<open>SymInitialize\<close> has succeeded without a \<^verbatim>\<open>SymCleanup\<close> after it.
\<close>

record cxplat_runtime =
  initialization_count :: u32
  pool :: work_pool
  group_info :: "processor_group_info list option"
  fault_injector :: fault_singleton
  fuzzing_enabled :: bool
  detector :: "leak_detector option"
  symbol_decoder_initialized :: bool
  decoder_open :: bool

text \<open>
  What the operating system answers while the layer starts: \<open>os_module\<close> is the base and size of the calling module, \<open>os_log\<close> the
  fault log of earlier runs, \<open>os_detector\<close> whether the leak detector can be allocated.
\<close>

record cxplat_os =
  os_env :: environment
  os_module :: "(u64 \<times> u32) option"
  os_log :: "string list"
  os_symbols :: "u32 + unit"
  os_detector :: bool
  os_processors :: "cxplat_status \<times> processor_group_info list option"
  os_pool :: "u32 + unit"
  os_minimum :: "u32 + unit"
  os_group :: "u32 + unit"

abbreviation WIN32_INVALID_PARAMETER :: u32 where "WIN32_INVALID_PARAMETER \<equiv> 87"

definition cxplat_symbol_decoder_initialize :: "u32 + unit \<Rightarrow> cxplat_runtime \<Rightarrow> cxplat_status \<times> cxplat_runtime" where
  "cxplat_symbol_decoder_initialize res x =
     (case res of
        Inl e \<Rightarrow> (if e = WIN32_INVALID_PARAMETER then Cxplat_Success else Cxplat_From_Win32 e, x)
      | Inr _ \<Rightarrow> (Cxplat_Success, x\<lparr>symbol_decoder_initialized := True, decoder_open := True\<rparr>))"

definition cxplat_symbol_decoder_deinitialize :: "cxplat_runtime \<Rightarrow> cxplat_runtime" where
  "cxplat_symbol_decoder_deinitialize x = (if symbol_decoder_initialized x then x\<lparr>decoder_open := False\<rparr> else x)"

definition empty_detector :: leak_detector where
  "empty_detector = \<lparr>stack_hashes = Map.empty, allocations = Map.empty, freed_allocations = Map.empty, in_memory_log = []\<rparr>"

text \<open>The debugging part of the first start: symbols, fault injection, leak detection.\<close>

definition start_fault_injection :: "cxplat_os \<Rightarrow> u64 \<Rightarrow> cxplat_runtime \<Rightarrow> cxplat_status \<times> cxplat_runtime" where
  "start_fault_injection os depth x =
     (if depth = 0 \<or> cxplat_fault_injection_is_enabled (fault_injector x) then (Cxplat_Success, x)
      else case cxplat_fault_injection_initialize depth (os_log os) (fault_injector x) of
        (st, g) \<Rightarrow>
          if st \<noteq> Fault_Success then (Cxplat_No_Memory, x\<lparr>fault_injector := g\<rparr>)
          else case cxplat_fault_injection_add_module (os_module os) g of
            (st', g') \<Rightarrow>
              if st' \<noteq> Fault_Success then (Cxplat_No_Memory, x\<lparr>fault_injector := g'\<rparr>)
              else (Cxplat_Success, x\<lparr>fault_injector := g', fuzzing_enabled := True\<rparr>))"

definition start_debugging :: "cxplat_os \<Rightarrow> cxplat_runtime \<Rightarrow> cxplat_status \<times> cxplat_runtime" where
  "start_debugging os x =
     (let depth = get_environment_variable_as_size_t (os_env os) FAULT_INJECTION_VARIABLE;
          leak = get_environment_variable_as_bool (os_env os) LEAK_DETECTION_VARIABLE
      in case (if depth \<noteq> 0 \<or> leak then cxplat_symbol_decoder_initialize (os_symbols os) x else (Cxplat_Success, x)) of
        (st, x1) \<Rightarrow>
          if st \<noteq> Cxplat_Success then (st, x1)
          else case start_fault_injection os depth x1 of
            (st, x2) \<Rightarrow>
              if st \<noteq> Cxplat_Success then (st, x2)
              else if \<not> leak then (Cxplat_Success, x2)
              else if \<not> os_detector os then (Cxplat_No_Memory, x2)
              else (Cxplat_Success, x2\<lparr>detector := Some empty_detector\<rparr>))"

definition cxplat_initialize :: "cxplat_os \<Rightarrow> cxplat_runtime \<Rightarrow> cxplat_status \<times> cxplat_runtime" where
  "cxplat_initialize os x =
     (if initialization_count x > 0
      then if cxplat_fault_injection_is_enabled (fault_injector x)
           then case cxplat_fault_injection_add_module (os_module os) (fault_injector x) of
             (st, g) \<Rightarrow>
               if st \<noteq> Fault_Success then (Cxplat_No_Memory, x\<lparr>fault_injector := g\<rparr>)
               else (Cxplat_Success, x\<lparr>fault_injector := g, initialization_count := initialization_count x + 1\<rparr>)
           else (Cxplat_Success, x\<lparr>initialization_count := initialization_count x + 1\<rparr>)
      else case start_debugging os x of
        (st, x1) \<Rightarrow>
          if st \<noteq> Cxplat_Success then (st, x1)
          else case os_processors os of
            (status, info) \<Rightarrow>
              if status \<noteq> Cxplat_Success then (status, x1)
              else case cxplat_winuser_initialize_thread_pool (os_pool os) (os_minimum os) (os_group os) (pool x1) of
                (status, w) \<Rightarrow>
                  if status \<noteq> Cxplat_Success then (status, x1\<lparr>pool := w, group_info := None\<rparr>)
                  else (Cxplat_Success, x1\<lparr>pool := w, group_info := info, initialization_count := initialization_count x1 + 1\<rparr>))"

text \<open>\<open>order\<close> is the order in which the leak detector visits its table.\<close>

definition cxplat_cleanup :: "(u64 \<times> u32) option \<Rightarrow> ptr list \<Rightarrow> cxplat_runtime \<Rightarrow> cxplat_runtime result" where
  "cxplat_cleanup module order x =
     assert_that (initialization_count x > 0)
       (let n = initialization_count x - 1; x1 = x\<lparr>initialization_count := n\<rparr>
        in if n > 0
           then Inr (x1\<lparr>fault_injector := snd (cxplat_fault_injection_remove_module module (fault_injector x1))\<rparr>)
           else let x2 = x1\<lparr>pool := cxplat_winuser_clean_up_thread_pool (pool x1), group_info := None\<rparr>
                in case detector x2 of
                     None \<Rightarrow> Inr (cxplat_symbol_decoder_deinitialize x2)
                   | Some d \<Rightarrow>
                       (case dump_leaks order d of
                          Inl e \<Rightarrow> Inl e
                        | Inr _ \<Rightarrow> Inr (cxplat_symbol_decoder_deinitialize (x2\<lparr>detector := None\<rparr>))))"

section \<open>Reading the options\<close>

lemma dec_value_digit: "d < 10 \<Longrightarrow> dec_value (digit_char d) = Some d"
  by (simp add: dec_value_def digit_char_def)

lemma num_str_dec:
  "num_str 10 n \<noteq> [] \<and> (\<forall>c \<in> set (num_str 10 n). dec_value c \<noteq> None) \<and>
   foldl (\<lambda>a c. 10 * a + the (dec_value c)) 0 (num_str 10 n) = n"
proof (induction n rule: less_induct)
  case (less n)
  show ?case
  proof (cases "n < 10")
    case True
    then show ?thesis by (simp add: num_str.simps [of 10 n] dec_value_digit)
  next
    case False
    then have "n div 10 < n" by simp
    from less.IH [OF this] False show ?thesis
      by (auto simp: num_str.simps [of 10 n] dec_value_digit)
  qed
qed

text \<open>A number in the environment is read back, also with text behind it; a variable that holds no number counts as 0.\<close>
lemma stoull10_number:
  assumes "n < 2 ^ 64" and "rest = [] \<or> dec_value (hd rest) = None"
  shows "stoull10 (num_str 10 n @ rest) = Inr (word_of_nat n)"
proof -
  let ?s = "num_str 10 n"
  obtain c cs where s: "?s = c # cs" using num_str_dec [of n] by (cases ?s) auto
  have c: "dec_value c \<noteq> None" using num_str_dec [of n] s by auto
  have o: "\<not> is_space c" "c \<noteq> CHR ''-''" "c \<noteq> CHR ''+''"
    using c by (auto simp: is_space_def dec_value_def Let_def split: if_splits)
  have "takeWhile (\<lambda>c. dec_value c \<noteq> None) (?s @ rest) = ?s"
    using num_str_dec [of n] assms(2) by (cases rest) (auto simp: takeWhile_append)
  then show ?thesis using o s num_str_dec [of n] assms(1) by (simp add: stoull10_def Let_def)
qed

lemma to_lower_zero: "to_lower c = CHR ''0'' \<longleftrightarrow> c = CHR ''0''"
proof -
  have "(of_char (to_lower c) :: nat) = (let k = of_char c in if 65 \<le> k \<and> k \<le> 90 then k + 32 else k)"
    by (simp add: to_lower_def Let_def)
  moreover have "to_lower c = CHR ''0'' \<longleftrightarrow> (of_char (to_lower c) :: nat) = of_char (CHR ''0'')" by (rule of_char_eq_iff [symmetric])
  moreover have "c = CHR ''0'' \<longleftrightarrow> (of_char c :: nat) = of_char (CHR ''0'')" by (rule of_char_eq_iff [symmetric])
  ultimately show ?thesis by (auto simp: Let_def split: if_splits)
qed

text \<open>
  the options of the environment. A fault injection depth that is written as a decimal number below \<open>2^64\<close> is read
  exactly, also with text behind it, an unset variable reads as 0, and leak detection is off exactly if its variable is unset,
  empty, \<open>0\<close> or a spelling of \<open>false\<close> in any mixture of cases.
\<close>
theorem debug_options_read:
  assumes "n < 2 ^ 64" and "rest = [] \<or> dec_value (hd rest) = None"
  shows "(env v = Some (num_str 10 n @ rest) \<longrightarrow> get_environment_variable_as_size_t env v = word_of_nat n) \<and>
         (env v = None \<longrightarrow> get_environment_variable_as_size_t env v = 0) \<and>
         (\<not> get_environment_variable_as_bool env v \<longleftrightarrow>
            env v = None \<or> env v = Some [] \<or> env v = Some ''0'' \<or> (\<exists>w. env v = Some w \<and> map to_lower w = ''false''))"
proof (intro conjI impI)
  assume v: "env v = Some (num_str 10 n @ rest)"
  show "get_environment_variable_as_size_t env v = word_of_nat n"
    using v stoull10_number [OF assms] num_str_dec [of n]
    by (simp add: get_environment_variable_as_size_t_def get_environment_variable_as_string_def Let_def)
next
  assume "env v = None"
  then show "get_environment_variable_as_size_t env v = 0"
    by (simp add: get_environment_variable_as_size_t_def get_environment_variable_as_string_def Let_def)
next
  have z: "map to_lower w = ''0'' \<longleftrightarrow> w = ''0''" for w by (auto simp: map_eq_Cons_conv to_lower_zero)
  show "\<not> get_environment_variable_as_bool env v \<longleftrightarrow>
          env v = None \<or> env v = Some [] \<or> env v = Some ''0'' \<or> (\<exists>w. env v = Some w \<and> map to_lower w = ''false'')"
    by (cases "env v") (auto simp: get_environment_variable_as_bool_def get_environment_variable_as_string_def Let_def z)
qed

theorem debug_options_read_witness:
  "get_environment_variable_as_size_t (\<lambda>_. Some ''10 frames'') FAULT_INJECTION_VARIABLE = 10 \<and>
   \<not> get_environment_variable_as_bool (\<lambda>_. Some ''FALSE'') LEAK_DETECTION_VARIABLE"
proof -
  have ten: "num_str 10 10 = ''10''" by (simp add: num_str.simps digit_char_def char_of_def bit_0 bit_Suc)
  have r: "(10 :: nat) < 2 ^ 64" "'' frames'' = [] \<or> dec_value (hd '' frames'') = None" by (simp_all add: dec_value_def)
  have "map to_lower ''FALSE'' = ''false''" by (simp add: to_lower_def char_of_def bit_0 bit_Suc)
  then show ?thesis
    using debug_options_read [OF r, of "\<lambda>_. Some ''10 frames''" FAULT_INJECTION_VARIABLE] ten
      debug_options_read [OF r, of "\<lambda>_. Some ''FALSE''" LEAK_DETECTION_VARIABLE] by simp
qed

section \<open>Starting and ending the layer\<close>

definition leak_free :: "cxplat_runtime \<Rightarrow> bool" where
  "leak_free x \<longleftrightarrow> (case detector x of None \<Rightarrow> True | Some d \<Rightarrow> allocations d = Map.empty)"

lemma dump_leaks_empty: "allocations d = Map.empty \<Longrightarrow> \<exists>d'. dump_leaks order d = Inr d'"
  by (simp add: dump_leaks_def Let_def)

lemma cxplat_cleanup_last:
  assumes "initialization_count x = 1" and "leak_free x"
  shows "\<exists>x'. cxplat_cleanup module order x = Inr x' \<and> initialization_count x' = 0 \<and> \<not> pool_open (pool x') \<and>
           detector x' = None \<and> group_info x' = None \<and> fault_injector x' = fault_injector x \<and>
           fuzzing_enabled x' = fuzzing_enabled x \<and> symbol_decoder_initialized x' = symbol_decoder_initialized x"
  using assms dump_leaks_empty [of "the (detector x)" order]
  by (cases "detector x") (auto simp: cxplat_cleanup_def cxplat_symbol_decoder_deinitialize_def leak_free_def Let_def
      cxplat_winuser_clean_up_thread_pool_def)

lemma cxplat_cleanup_other:
  assumes "initialization_count x > 1"
  shows "\<exists>g. cxplat_cleanup module order x = Inr (x\<lparr>initialization_count := initialization_count x - 1, fault_injector := g\<rparr>)"
proof -
  have n: "initialization_count x \<noteq> 0" using assms by auto
  then have "initialization_count x - 1 > 0" "initialization_count x > 0"
    using assms unat_minus_one [OF n] by (simp_all add: word_less_nat_alt word_neq_0_conv)
  then show ?thesis by (auto simp: cxplat_cleanup_def Let_def)
qed

fun cxplat_starts :: "nat \<Rightarrow> cxplat_os \<Rightarrow> cxplat_runtime \<Rightarrow> cxplat_runtime" where
  "cxplat_starts 0 os x = x"
| "cxplat_starts (Suc n) os x = cxplat_starts n os (snd (cxplat_initialize os x))"

fun cxplat_stops :: "nat \<Rightarrow> (u64 \<times> u32) option \<Rightarrow> ptr list \<Rightarrow> cxplat_runtime \<Rightarrow> cxplat_runtime result" where
  "cxplat_stops 0 module order x = Inr x"
| "cxplat_stops (Suc n) module order x =
     (case cxplat_cleanup module order x of Inl e \<Rightarrow> Inl e | Inr x' \<Rightarrow> cxplat_stops n module order x')"

text \<open>The layer with \<open>n\<close> clients: it counts them, its pool is open, and nothing it allocated is still registered as a leak.\<close>

definition cxplat_up :: "nat \<Rightarrow> cxplat_runtime \<Rightarrow> bool" where
  "cxplat_up n x \<longleftrightarrow> initialization_count x = of_nat n \<and> pool_open (pool x) \<and> leak_free x"

lemma cxplat_initialize_again:
  assumes "0 < initialization_count x" and "os_module os \<noteq> None"
  shows "\<exists>g. cxplat_initialize os x = (Cxplat_Success, x\<lparr>initialization_count := initialization_count x + 1, fault_injector := g\<rparr>)"
proof (cases "fault_injector x")
  case None
  then have "cxplat_initialize os x = (Cxplat_Success, x\<lparr>initialization_count := initialization_count x + 1, fault_injector := None\<rparr>)"
    using assms(1) by (simp add: cxplat_initialize_def cxplat_fault_injection_is_enabled_def)
  then show ?thesis by blast
next
  case (Some a)
  obtain b n where "os_module os = Some (b, n)" using assms(2) by auto
  then show ?thesis using assms(1) Some
    by (intro exI [of _ "Some (add_module_under_test b (ucast n) a)"])
      (simp add: cxplat_initialize_def cxplat_fault_injection_is_enabled_def cxplat_fault_injection_add_module_def)
qed

lemma cxplat_up_count: "cxplat_up n x \<Longrightarrow> 0 < n \<Longrightarrow> n < 2 ^ 32 \<Longrightarrow> 0 < initialization_count x"
  by (simp add: cxplat_up_def word_less_nat_alt unsigned_of_nat take_bit_nat_eq_self)

lemma cxplat_up_start:
  assumes "cxplat_up n x" and "0 < n" and "n < 2 ^ 32" and "os_module os \<noteq> None"
  shows "cxplat_up (Suc n) (snd (cxplat_initialize os x)) \<and> pool (snd (cxplat_initialize os x)) = pool x"
  using cxplat_initialize_again [OF cxplat_up_count [OF assms(1-3)] assms(4)] assms(1)
  by (auto simp: cxplat_up_def leak_free_def algebra_simps)

lemma cxplat_up_starts:
  assumes "cxplat_up n x" and "0 < n" and "n + k < 2 ^ 32" and "os_module os \<noteq> None"
  shows "cxplat_up (n + k) (cxplat_starts k os x) \<and> pool (cxplat_starts k os x) = pool x"
  using assms
proof (induction k arbitrary: n x)
  case (Suc k)
  then show ?case using cxplat_up_start [of n x os] Suc.IH [of "Suc n" "snd (cxplat_initialize os x)"] by simp
qed simp

lemma cxplat_up_stop:
  assumes "cxplat_up (Suc n) x" and "0 < n" and "Suc n < 2 ^ 32"
  shows "\<exists>x'. cxplat_cleanup module order x = Inr x' \<and> cxplat_up n x' \<and> pool x' = pool x"
proof -
  have "1 < initialization_count x"
    using assms by (simp add: cxplat_up_def word_less_nat_alt unsigned_of_nat take_bit_nat_eq_self del: of_nat_Suc)
  from cxplat_cleanup_other [OF this, of module order] show ?thesis using assms(1) by (auto simp: cxplat_up_def leak_free_def)
qed

lemma cxplat_up_stops:
  assumes "cxplat_up (k + n) x" and "0 < n" and "k + n < 2 ^ 32"
  shows "\<exists>x'. cxplat_stops k module order x = Inr x' \<and> cxplat_up n x' \<and> pool x' = pool x"
  using assms
proof (induction k arbitrary: x)
  case (Suc k)
  then obtain x1 where "cxplat_cleanup module order x = Inr x1" "cxplat_up (k + n) x1" "pool x1 = pool x"
    using cxplat_up_stop [of "k + n" x module order] by auto
  then show ?case using Suc by fastforce
qed simp

lemma cxplat_stops_add:
  "cxplat_stops (j + k) module order x =
     (case cxplat_stops j module order x of Inl e \<Rightarrow> Inl e | Inr x' \<Rightarrow> cxplat_stops k module order x')"
  by (induction j arbitrary: x) (auto split: sum.splits)

text \<open>
  the layer is reference counted. After \<open>n\<close> clients have started it and as long as one of them has not ended it, the pool it
  runs work items on is the one the first client opened; the last client closes it and drops the leak detector,
  and one more end fails its assertion.
\<close>
theorem cxplat_layer_counted:
  assumes "cxplat_up 1 x" and "0 < n" and "n < 2 ^ 32" and "os_module os \<noteq> None"
  shows "(\<forall>k < n. \<exists>y. cxplat_stops k module order (cxplat_starts (n - 1) os x) = Inr y \<and> cxplat_up (n - k) y \<and> pool y = pool x) \<and>
         (\<exists>z. cxplat_stops n module order (cxplat_starts (n - 1) os x) = Inr z \<and> initialization_count z = 0 \<and>
              \<not> pool_open (pool z) \<and> detector z = None) \<and>
         cxplat_stops (Suc n) module order (cxplat_starts (n - 1) os x) = Inl Assert_Failed"
proof -
  let ?x = "cxplat_starts (n - 1) os x"
  have x: "cxplat_up n ?x" "pool ?x = pool x" using cxplat_up_starts [of 1 x "n - 1" os] assms by auto
  have k: "\<exists>y. cxplat_stops k module order ?x = Inr y \<and> cxplat_up (n - k) y \<and> pool y = pool x" if "k < n" for k
    using cxplat_up_stops [of k "n - k" ?x module order] x that assms(3) by simp
  obtain y where y: "cxplat_stops (n - 1) module order ?x = Inr y" "cxplat_up 1 y" using k [of "n - 1"] assms(2) by auto
  then obtain z where z: "cxplat_cleanup module order y = Inr z" "initialization_count z = 0" "\<not> pool_open (pool z)" "detector z = None"
    using cxplat_cleanup_last [of y module order] by (auto simp: cxplat_up_def)
  have "cxplat_stops n module order ?x = Inr z"
    using cxplat_stops_add [of "n - 1" 1 module order ?x] y z assms(2) by simp
  moreover have "cxplat_stops (Suc n) module order ?x = Inl Assert_Failed"
    using cxplat_stops_add [of n 1 module order ?x] z(2) calculation by (simp add: cxplat_cleanup_def)
  ultimately show ?thesis using k z by blast
qed

definition sample_runtime :: cxplat_runtime where
  "sample_runtime = \<lparr>initialization_count = 0,
     pool = \<lparr>rundown = Map.empty, rundown_reference = 0x70, pool_open = False, cleanup_group_open = False,
             items = Map.empty, submitted = [], calls = []\<rparr>,
     group_info = None, fault_injector = None, fuzzing_enabled = False, detector = None, symbol_decoder_initialized = False,
     decoder_open = False\<rparr>"

definition sample_cxplat_os :: "environment \<Rightarrow> cxplat_os" where
  "sample_cxplat_os env = \<lparr>os_env = env, os_module = Some (0x400000, 0x1000), os_log = [], os_symbols = Inr (), os_detector = True,
     os_processors = (Cxplat_Success, Some []), os_pool = Inr (), os_minimum = Inr (), os_group = Inr ()\<rparr>"

lemma sample_cxplat_up: "cxplat_up 1 (snd (cxplat_initialize (sample_cxplat_os (\<lambda>_. Some ''1'')) sample_runtime))"
proof -
  have one: "stoull10 ''1'' = Inr 1" using stoull10_number [of 1 "[]"] by (simp add: num_str.simps digit_char_def char_of_def bit_0 bit_Suc)
  obtain f where f: "fault_injection_construct 1 [] = Inr f"
    by (simp add: fault_injection_construct_def load_fault_log_def)
  show ?thesis
    by (simp add: cxplat_initialize_def sample_runtime_def sample_cxplat_os_def start_debugging_def start_fault_injection_def
        get_environment_variable_as_size_t_def get_environment_variable_as_bool_def get_environment_variable_as_string_def
        one f to_lower_def cxplat_symbol_decoder_initialize_def cxplat_fault_injection_is_enabled_def
        cxplat_fault_injection_initialize_def cxplat_fault_injection_add_module_def cxplat_winuser_initialize_thread_pool_def
        cxplat_up_def leak_free_def empty_detector_def Let_def)
qed

theorem cxplat_layer_counted_witness:
  "\<exists>z. cxplat_stops 2 None [] (cxplat_starts 1 (sample_cxplat_os (\<lambda>_. Some ''1''))
           (snd (cxplat_initialize (sample_cxplat_os (\<lambda>_. Some ''1'')) sample_runtime))) = Inr z \<and> \<not> pool_open (pool z)"
  using cxplat_layer_counted [OF sample_cxplat_up, of 2 "sample_cxplat_os (\<lambda>_. Some ''1'')" None "[]"]
  by (auto simp: sample_cxplat_os_def)

end
