(* ===== verification/Exports.thy ===== *)
theory Exports
  imports Security
begin

text \<open>
  Tables that the library fills when it starts and that drivers then read: the well-known SIDs of \<^verbatim>\<open>SeExports\<close> (\<^verbatim>\<open>_initialize_sid\<close> and
  \<^verbatim>\<open>usersim_initialize_se\<close> of \<^verbatim>\<open>src/se.cpp\<close>, \<^verbatim>\<open>SE_EXPORTS\<close> of \<^verbatim>\<open>inc/usersim/se.h\<close>) and the function table of the driver framework
  (\<^verbatim>\<open>usersim_initialize_wdf\<close> of \<^verbatim>\<open>src/wdf.cpp\<close>, \<^verbatim>\<open>WDFFUNCENUM\<close> of \<^verbatim>\<open>inc/usersim/wdf.h\<close>). Drivers call the framework
  through the indices of that table, so a wrong slot calls the wrong function.
\<close>

section \<open>Well-known SIDs\<close>

text \<open>The values of \<^verbatim>\<open>WELL_KNOWN_SID_TYPE\<close> that the library asks for, and the members of \<^verbatim>\<open>SE_EXPORTS\<close> that point to a SID.\<close>

datatype well_known_sid_type =
    WinNullSid | WinWorldSid | WinLocalSid | WinCreatorOwnerSid | WinCreatorGroupSid | WinNtAuthoritySid | WinDialupSid
  | WinNetworkSid | WinBatchSid | WinInteractiveSid | WinLocalSystemSid | WinBuiltinAdministratorsSid | WinBuiltinUsersSid
  | WinBuiltinGuestsSid | WinBuiltinPowerUsersSid | WinBuiltinAccountOperatorsSid | WinBuiltinSystemOperatorsSid
  | WinBuiltinPrintOperatorsSid | WinBuiltinBackupOperatorsSid | WinAuthenticatedUserSid | WinRestrictedCodeSid
  | WinAnonymousSid | WinLocalServiceSid | WinNetworkServiceSid | WinIUserSid | WinUntrustedLabelSid | WinLowLabelSid
  | WinMediumLabelSid | WinHighLabelSid | WinSystemLabelSid | WinCreatorOwnerRightsSid | WinBuiltinAnyPackageSid
  | WinUserModeDriversSid

datatype se_export =
    SeNullSid | SeWorldSid | SeLocalSid | SeCreatorOwnerSid | SeCreatorGroupSid | SeNtAuthoritySid | SeDialupSid
  | SeNetworkSid | SeBatchSid | SeInteractiveSid | SeLocalSystemSid | SeAliasAdminsSid | SeAliasUsersSid | SeAliasGuestsSid
  | SeAliasPowerUsersSid | SeAliasAccountOpsSid | SeAliasSystemOpsSid | SeAliasPrintOpsSid | SeAliasBackupOpsSid
  | SeAuthenticatedUsersSid | SeRestrictedSid | SeAnonymousLogonSid | SeLocalServiceSid | SeNetworkServiceSid | SeIUserSid
  | SeUntrustedMandatorySid | SeLowMandatorySid | SeMediumMandatorySid | SeHighMandatorySid | SeSystemMandatorySid
  | SeOwnerRightsSid | SeAllAppPackagesSid | SeUserModeDriversSid | SeProcTrustWinTcbSid | SeTrustedInstallerSid
  | SeAppSiloSid | SeAppSiloVolumeRootMinimalCapabilitySid | SeAppSiloProfilesRootMinimalCapabilitySid

text \<open>
  What the operating system answers for a type: the size and the error of the size query, the block of \<^verbatim>\<open>malloc\<close> (null on failure) and
  the SID that the second call stores, if it succeeds. \<open>sid_blocks\<close> are the live blocks.
\<close>

record sid_os =
  sid_size :: "well_known_sid_type \<Rightarrow> u32 \<times> u32"
  sid_malloc :: "well_known_sid_type \<Rightarrow> ptr"
  sid_create :: "well_known_sid_type \<Rightarrow> u8 list option"

record se_state =
  SeExports :: "se_export \<Rightarrow> ptr"
  sid_blocks :: "ptr \<rightharpoonup> u8 list"

definition initialize_sid :: "sid_os \<Rightarrow> well_known_sid_type \<Rightarrow> se_export \<Rightarrow> se_state \<Rightarrow> se_state" where
  "initialize_sid os type psid s =
     (let s0 = s\<lparr>SeExports := (SeExports s)(psid := nullptr)\<rparr>; (sz, error) = sid_size os type
      in if error \<noteq> ERROR_INSUFFICIENT_BUFFER then s0
         else let actual_sid = sid_malloc os type
              in if actual_sid = nullptr then s0
                 else case sid_create os type of
                        None \<Rightarrow> s0\<lparr>sid_blocks := (sid_blocks s0)(actual_sid := None)\<rparr>
                      | Some sid \<Rightarrow> s0\<lparr>sid_blocks := (sid_blocks s0)(actual_sid \<mapsto> sid),
                                      SeExports := (SeExports s0)(psid := actual_sid)\<rparr>)"

text \<open>The calls of \<^verbatim>\<open>usersim_initialize_se\<close>, in their order.\<close>

definition se_calls :: "(well_known_sid_type \<times> se_export) list" where
  "se_calls =
     [(WinNullSid, SeNullSid), (WinWorldSid, SeWorldSid), (WinLocalSid, SeLocalSid), (WinCreatorOwnerSid, SeCreatorOwnerSid),
     (WinCreatorGroupSid, SeCreatorGroupSid), (WinNtAuthoritySid, SeNtAuthoritySid), (WinDialupSid, SeDialupSid),
     (WinNetworkSid, SeNetworkSid), (WinBatchSid, SeBatchSid), (WinInteractiveSid, SeInteractiveSid),
     (WinLocalSystemSid, SeLocalSystemSid), (WinBuiltinAdministratorsSid, SeAliasAdminsSid),
     (WinBuiltinUsersSid, SeAliasUsersSid), (WinBuiltinGuestsSid, SeAliasGuestsSid),
     (WinBuiltinPowerUsersSid, SeAliasPowerUsersSid), (WinBuiltinAccountOperatorsSid, SeAliasAccountOpsSid),
     (WinBuiltinSystemOperatorsSid, SeAliasSystemOpsSid), (WinBuiltinPrintOperatorsSid, SeAliasPrintOpsSid),
     (WinBuiltinBackupOperatorsSid, SeAliasBackupOpsSid), (WinAuthenticatedUserSid, SeAuthenticatedUsersSid),
     (WinRestrictedCodeSid, SeRestrictedSid), (WinAnonymousSid, SeAnonymousLogonSid),
     (WinLocalServiceSid, SeLocalServiceSid), (WinNetworkServiceSid, SeNetworkServiceSid), (WinIUserSid, SeIUserSid),
     (WinUntrustedLabelSid, SeUntrustedMandatorySid), (WinLowLabelSid, SeLowMandatorySid),
     (WinMediumLabelSid, SeMediumMandatorySid), (WinHighLabelSid, SeHighMandatorySid),
     (WinSystemLabelSid, SeSystemMandatorySid), (WinCreatorOwnerRightsSid, SeOwnerRightsSid),
     (WinBuiltinAnyPackageSid, SeAllAppPackagesSid), (WinUserModeDriversSid, SeUserModeDriversSid)]"

fun initialize_sids :: "sid_os \<Rightarrow> (well_known_sid_type \<times> se_export) list \<Rightarrow> se_state \<Rightarrow> se_state" where
  "initialize_sids os [] s = s"
| "initialize_sids os ((type, psid) # calls) s = initialize_sids os calls (initialize_sid os type psid s)"

definition usersim_initialize_se :: "sid_os \<Rightarrow> se_state \<Rightarrow> se_state" where
  "usersim_initialize_se os s = initialize_sids os se_calls s"

section \<open>The function table of the driver framework\<close>

datatype wdffunc =
    WdfControlDeviceInitAllocate_func | WdfControlFinishInitializing_func | WdfDeviceWdmGetDeviceObject_func
  | WdfDeviceInitFree_func | WdfDeviceInitSetDeviceType_func | WdfDeviceInitAssignName_func
  | WdfDeviceInitSetCharacteristics_func | WdfDeviceInitSetFileObjectConfig_func
  | WdfDeviceInitAssignWdmIrpPreprocessCallback_func | WdfDeviceCreate_func | WdfDeviceCreateSymbolicLink_func
  | WdfDriverCreate_func | WdfIoQueueCreate_func | WdfIoQueueGetDevice_func | WdfObjectDelete_func
  | WdfRequestCompleteWithInformation_func | WdfRequestRetrieveInputBuffer_func | WdfRequestRetrieveOutputBuffer_func

definition wdf_function_index :: "wdffunc \<Rightarrow> nat" where
  "wdf_function_index f =
     (case f of
          WdfControlDeviceInitAllocate_func \<Rightarrow> 25 | WdfControlFinishInitializing_func \<Rightarrow> 27
        | WdfDeviceWdmGetDeviceObject_func \<Rightarrow> 31 | WdfDeviceInitFree_func \<Rightarrow> 54
        | WdfDeviceInitSetDeviceType_func \<Rightarrow> 66 | WdfDeviceInitAssignName_func \<Rightarrow> 67
        | WdfDeviceInitSetCharacteristics_func \<Rightarrow> 70 | WdfDeviceInitSetFileObjectConfig_func \<Rightarrow> 71
        | WdfDeviceInitAssignWdmIrpPreprocessCallback_func \<Rightarrow> 73 | WdfDeviceCreate_func \<Rightarrow> 75
        | WdfDeviceCreateSymbolicLink_func \<Rightarrow> 80 | WdfDriverCreate_func \<Rightarrow> 116
        | WdfIoQueueCreate_func \<Rightarrow> 152 | WdfIoQueueGetDevice_func \<Rightarrow> 157
        | WdfObjectDelete_func \<Rightarrow> 208 | WdfRequestCompleteWithInformation_func \<Rightarrow> 265
        | WdfRequestRetrieveInputBuffer_func \<Rightarrow> 269 | WdfRequestRetrieveOutputBuffer_func \<Rightarrow> 270)"

abbreviation WdfFunctionTableNumEntries :: nat where "WdfFunctionTableNumEntries \<equiv> 444"

text \<open>The assignments of \<^verbatim>\<open>usersim_initialize_wdf\<close>, in their order: the slot and the function. An empty slot is \<open>None\<close>.\<close>

definition wdf_assignments :: "(nat \<times> wdffunc) list" where
  "wdf_assignments = map (\<lambda>f. (wdf_function_index f, f))
     [WdfControlDeviceInitAllocate_func, WdfControlFinishInitializing_func, WdfDeviceWdmGetDeviceObject_func,
     WdfDeviceInitFree_func, WdfDeviceInitSetDeviceType_func, WdfDeviceInitAssignName_func,
     WdfDeviceInitSetCharacteristics_func, WdfDeviceInitSetFileObjectConfig_func,
     WdfDeviceInitAssignWdmIrpPreprocessCallback_func, WdfDeviceCreate_func, WdfDeviceCreateSymbolicLink_func,
     WdfDriverCreate_func, WdfIoQueueCreate_func, WdfIoQueueGetDevice_func, WdfObjectDelete_func,
     WdfRequestCompleteWithInformation_func, WdfRequestRetrieveInputBuffer_func, WdfRequestRetrieveOutputBuffer_func]"

fun assign_functions :: "(nat \<times> wdffunc) list \<Rightarrow> wdffunc option list \<Rightarrow> wdffunc option list result" where
  "assign_functions [] table = Inr table"
| "assign_functions ((i, f) # rest) table =
     (if i < length table then assign_functions rest (table[i := Some f]) else Inl Out_Of_Bounds)"

definition usersim_initialize_wdf :: "wdffunc option list \<Rightarrow> wdffunc option list result" where
  "usersim_initialize_wdf table = assign_functions wdf_assignments table"

text \<open>A call through the table, as the inline functions of the framework's headers make it.\<close>

definition wdf_function_at :: "nat \<Rightarrow> wdffunc option list \<Rightarrow> wdffunc result" where
  "wdf_function_at i table =
     (if i < length table then case table ! i of None \<Rightarrow> Inl Out_Of_Bounds | Some f \<Rightarrow> Inr f else Inl Out_Of_Bounds)"

section \<open>What the tables hold\<close>

text \<open>The SID that the library obtains for a type, with its block.\<close>

definition obtained_sid :: "sid_os \<Rightarrow> well_known_sid_type \<Rightarrow> (ptr \<times> u8 list) option" where
  "obtained_sid os type =
     (if snd (sid_size os type) = ERROR_INSUFFICIENT_BUFFER \<and> sid_malloc os type \<noteq> nullptr
      then map_option (Pair (sid_malloc os type)) (sid_create os type) else None)"

text \<open>What C promises of \<^verbatim>\<open>malloc\<close>: every call returns null or a block that is not in use.\<close>

fun sids_fresh :: "sid_os \<Rightarrow> (well_known_sid_type \<times> se_export) list \<Rightarrow> se_state \<Rightarrow> bool" where
  "sids_fresh os [] s \<longleftrightarrow> True"
| "sids_fresh os ((type, psid) # calls) s \<longleftrightarrow>
     (sid_malloc os type \<noteq> nullptr \<longrightarrow> sid_blocks s (sid_malloc os type) = None) \<and> sids_fresh os calls (initialize_sid os type psid s)"

lemma initialize_sid_effect:
  assumes "sid_malloc os type \<noteq> nullptr \<longrightarrow> sid_blocks s (sid_malloc os type) = None"
  shows "SeExports (initialize_sid os type psid s) =
           (SeExports s)(psid := (case obtained_sid os type of None \<Rightarrow> nullptr | Some (p, sid) \<Rightarrow> p))"
    and "sid_blocks (initialize_sid os type psid s) =
           (case obtained_sid os type of None \<Rightarrow> sid_blocks s | Some (p, sid) \<Rightarrow> (sid_blocks s)(p \<mapsto> sid))"
  using assms by (auto simp: initialize_sid_def obtained_sid_def Let_def fun_upd_idem split: prod.splits option.splits)

text \<open>The state after some calls, for members that are set once each.\<close>

definition sids_set :: "sid_os \<Rightarrow> (well_known_sid_type \<times> se_export) list \<Rightarrow> se_state \<Rightarrow> se_state \<Rightarrow> bool" where
  "sids_set os calls s s' \<longleftrightarrow>
     (\<forall>(type, psid) \<in> set calls. case obtained_sid os type of
        None \<Rightarrow> SeExports s' psid = nullptr | Some (p, sid) \<Rightarrow> SeExports s' psid = p \<and> sid_blocks s' p = Some sid \<and> sid_blocks s p = None) \<and>
     (\<forall>psid. psid \<notin> snd ` set calls \<longrightarrow> SeExports s' psid = SeExports s psid) \<and> sid_blocks s \<subseteq>\<^sub>m sid_blocks s' \<and>
     (\<forall>p. sid_blocks s' p \<noteq> None \<longrightarrow> sid_blocks s p \<noteq> None \<or> (\<exists>type \<in> fst ` set calls. \<exists>sid. obtained_sid os type = Some (p, sid)))"

lemma initialize_sids_set:
  assumes "distinct (map snd calls)" "sids_fresh os calls s"
  shows "sids_set os calls s (initialize_sids os calls s)"
  using assms
proof (induction calls arbitrary: s)
  case Nil
  then show ?case by (simp add: sids_set_def)
next
  case (Cons c calls)
  obtain type psid where c: "c = (type, psid)" by fastforce
  let ?s1 = "initialize_sid os type psid s" let ?s' = "initialize_sids os calls ?s1"
  have fr: "sid_malloc os type \<noteq> nullptr \<longrightarrow> sid_blocks s (sid_malloc os type) = None" using Cons.prems(2) c by simp
  note E = initialize_sid_effect [OF fr, of psid]
  have IH: "sids_set os calls ?s1 ?s'" using Cons c by simp
  have keep: "sid_blocks s \<subseteq>\<^sub>m sid_blocks ?s1"
    using E(2) fr by (auto simp: map_le_def obtained_sid_def split: option.splits if_splits)
  have new: "psid \<notin> snd ` set calls" using Cons.prems(1) c by auto
  have here: "case obtained_sid os type of
        None \<Rightarrow> SeExports ?s' psid = nullptr | Some (p, sid) \<Rightarrow> SeExports ?s' psid = p \<and> sid_blocks ?s' p = Some sid \<and> sid_blocks s p = None"
    using IH new E fr by (auto simp: sids_set_def map_le_def obtained_sid_def split: option.splits if_splits)
  have old: "sid_blocks ?s1 p = None \<Longrightarrow> sid_blocks s p = None" for p using keep by (metis domIff map_le_implies_dom_le subsetD)
  have rest: "\<forall>(ty, f) \<in> set calls. case obtained_sid os ty of
        None \<Rightarrow> SeExports ?s' f = nullptr | Some (p, sid) \<Rightarrow> SeExports ?s' f = p \<and> sid_blocks ?s' p = Some sid \<and> sid_blocks s p = None"
    using IH old unfolding sids_set_def by (fastforce split: option.splits)
  have others: "SeExports ?s' f = SeExports s f" if "f \<notin> snd ` set (c # calls)" for f
    using IH that E(1) c by (auto simp: sids_set_def)
  have only: "sid_blocks s p \<noteq> None \<or> (\<exists>ty \<in> fst ` set (c # calls). \<exists>sid. obtained_sid os ty = Some (p, sid))"
    if "sid_blocks ?s' p \<noteq> None" for p
  proof -
    have "sid_blocks ?s1 p \<noteq> None \<or> (\<exists>ty \<in> fst ` set calls. \<exists>sid. obtained_sid os ty = Some (p, sid))"
      using IH that by (simp add: sids_set_def)
    moreover have "sid_blocks ?s1 p \<noteq> None \<Longrightarrow> sid_blocks s p \<noteq> None \<or> (\<exists>sid. obtained_sid os type = Some (p, sid))"
      using E(2) by (auto split: option.splits if_splits)
    ultimately show ?thesis using c by auto
  qed
  have "sid_blocks s \<subseteq>\<^sub>m sid_blocks ?s'" using keep IH map_le_trans by (auto simp: sids_set_def)
  then show ?case using here rest others only c by (auto simp: sids_set_def)
qed

lemma sids_set_cases:
  assumes "sids_set os calls s s'" "psid \<in> snd ` set calls"
  obtains "SeExports s' psid = nullptr"
  | type sid where "type \<in> fst ` set calls" "obtained_sid os type = Some (SeExports s' psid, sid)" "sid_blocks s (SeExports s' psid) = None"
      "sid_blocks s' (SeExports s' psid) = Some sid"
  using assms by (fastforce simp: sids_set_def split: option.splits)

lemma initialize_sids_distinct:
  assumes "distinct (map snd calls)" "sids_fresh os calls s" "psid \<in> snd ` set calls" "psid' \<in> snd ` set calls" "psid \<noteq> psid'"
    and "SeExports (initialize_sids os calls s) psid = SeExports (initialize_sids os calls s) psid'"
  shows "SeExports (initialize_sids os calls s) psid = nullptr"
  using assms
proof (induction calls arbitrary: s psid psid')
  case (Cons c calls)
  obtain type f where c: "c = (type, f)" by fastforce
  let ?s1 = "initialize_sid os type f s" let ?s' = "initialize_sids os calls ?s1"
  have fr: "sid_malloc os type \<noteq> nullptr \<longrightarrow> sid_blocks s (sid_malloc os type) = None" "sids_fresh os calls ?s1"
    using Cons.prems(2) c by simp_all
  have d: "distinct (map snd calls)" "f \<notin> snd ` set calls" using Cons.prems(1) c by auto
  have S: "sids_set os calls ?s1 ?s'" by (rule initialize_sids_set [OF d(1) fr(2)])
  have f: "SeExports ?s' f = SeExports ?s1 f" using S d(2) by (simp add: sids_set_def)
  have first: "SeExports ?s' g = nullptr" if "g \<in> snd ` set calls" "SeExports ?s' g = SeExports ?s' f" for g
  proof (rule sids_set_cases [OF S that(1)])
    assume "SeExports ?s' g = nullptr" then show ?thesis .
  next
    assume "sid_blocks ?s1 (SeExports ?s' g) = None"
    then show ?thesis using that(2) f initialize_sid_effect [OF fr(1), of f] by (auto split: option.splits)
  qed
  have run: "initialize_sids os (c # calls) s = ?s'" using c by simp
  have mem: "psid = f \<or> psid \<in> snd ` set calls" "psid' = f \<or> psid' \<in> snd ` set calls" using Cons.prems(3,4) c by auto
  show ?case unfolding run
    using mem first [of psid] first [of psid'] Cons.IH [OF d(1) fr(2), of psid psid'] Cons.prems(5) Cons.prems(6) [unfolded run] by metis
qed simp

lemma se_calls_distinct: "distinct (map snd se_calls)" "distinct (map fst se_calls)"
  by (simp_all add: se_calls_def)

text \<open>
  after the start every member of \<^verbatim>\<open>SeExports\<close> is the SID of its own type, or null. For each of the 33 types: if the system knows the
  type, has memory and creates the SID, the member points to a block of its own that holds the SID, a block that was free before;
  otherwise it is null. The five members without a type are untouched, blocks that were live stay, and no other block is
  left behind, so a SID that could not be created has been freed.
\<close>
theorem se_exports_filled:
  assumes fresh: "sids_fresh os se_calls s"
  defines "s' \<equiv> usersim_initialize_se os s"
  shows "(\<forall>(type, psid) \<in> set se_calls. case obtained_sid os type of
            None \<Rightarrow> SeExports s' psid = nullptr
          | Some (p, sid) \<Rightarrow> SeExports s' psid = p \<and> sid_blocks s' p = Some sid \<and> sid_blocks s p = None) \<and>
         (\<forall>psid \<in> {SeProcTrustWinTcbSid, SeTrustedInstallerSid, SeAppSiloSid, SeAppSiloVolumeRootMinimalCapabilitySid,
                    SeAppSiloProfilesRootMinimalCapabilitySid}. SeExports s' psid = SeExports s psid) \<and>
         (\<forall>psid psid'. psid \<in> snd ` set se_calls \<longrightarrow> psid' \<in> snd ` set se_calls \<longrightarrow> psid \<noteq> psid' \<longrightarrow>
            SeExports s' psid = SeExports s' psid' \<longrightarrow> SeExports s' psid = nullptr) \<and>
         sid_blocks s \<subseteq>\<^sub>m sid_blocks s' \<and>
         dom (sid_blocks s') = dom (sid_blocks s) \<union> ({p. \<exists>psid \<in> snd ` set se_calls. SeExports s' psid = p} - {nullptr})"
proof -
  have S: "sids_set os se_calls s s'" unfolding s'_def usersim_initialize_se_def by (rule initialize_sids_set [OF se_calls_distinct(1) fresh])
  have others: "psid \<notin> snd ` set se_calls" if "psid \<in> {SeProcTrustWinTcbSid, SeTrustedInstallerSid, SeAppSiloSid,
      SeAppSiloVolumeRootMinimalCapabilitySid, SeAppSiloProfilesRootMinimalCapabilitySid}" for psid
    using that by (auto simp: se_calls_def)
  have own: "SeExports s' psid = nullptr" if "psid \<in> snd ` set se_calls" "psid' \<in> snd ` set se_calls" "psid \<noteq> psid'"
      "SeExports s' psid = SeExports s' psid'" for psid psid'
    using initialize_sids_distinct [OF se_calls_distinct(1) fresh that(1-3)] that(4) by (simp add: s'_def usersim_initialize_se_def)
  have A: "p \<in> dom (sid_blocks s')" if "psid \<in> snd ` set se_calls" "SeExports s' psid = p" "p \<noteq> nullptr" for psid p
    by (rule sids_set_cases [OF S that(1)]) (use that(2,3) in auto)
  have B: "\<exists>psid \<in> snd ` set se_calls. SeExports s' psid = p \<and> p \<noteq> nullptr"
    if t: "type \<in> fst ` set se_calls" "obtained_sid os type = Some (p, sid)" for type p sid
  proof -
    obtain c where c: "c \<in> set se_calls" "type = fst c" using t(1) by blast
    have "case c of (type, psid) \<Rightarrow> (case obtained_sid os type of None \<Rightarrow> SeExports s' psid = nullptr
        | Some (p, sid) \<Rightarrow> SeExports s' psid = p \<and> sid_blocks s' p = Some sid \<and> sid_blocks s p = None)"
      using S c(1) unfolding sids_set_def by blast
    then have "SeExports s' (snd c) = p" using t(2) c(2) by (simp add: case_prod_unfold)
    moreover have "p \<noteq> nullptr" using t(2) by (auto simp: obtained_sid_def split: if_splits)
    ultimately show ?thesis using c(1) by blast
  qed
  have le: "sid_blocks s \<subseteq>\<^sub>m sid_blocks s'" using S by (simp add: sids_set_def)
  have "p \<in> dom (sid_blocks s) \<or> (\<exists>psid \<in> snd ` set se_calls. SeExports s' psid = p \<and> p \<noteq> nullptr)" if "p \<in> dom (sid_blocks s')" for p
    using S B that unfolding sids_set_def by (meson domIff)
  then have D: "dom (sid_blocks s') = dom (sid_blocks s) \<union> ({p. \<exists>psid \<in> snd ` set se_calls. SeExports s' psid = p} - {nullptr})"
    using A map_le_implies_dom_le [OF le] by blast
  show ?thesis
    by (intro conjI D le) (use S others own in \<open>unfold sids_set_def, blast+\<close>)
qed

text \<open>A system that knows one type and refuses the others.\<close>

definition sample_sid_os :: sid_os where
  "sample_sid_os = \<lparr>sid_size = \<lambda>type. if type = WinWorldSid then (12, ERROR_INSUFFICIENT_BUFFER) else (0, 87),
     sid_malloc = \<lambda>type. if type = WinWorldSid then 0x100 else 0, sid_create = \<lambda>type. Some [1, 1, 0, 0, 0, 0, 0, 1, 0, 0, 0, 0]\<rparr>"

definition empty_se :: se_state where
  "empty_se = \<lparr>SeExports = \<lambda>_. nullptr, sid_blocks = Map.empty\<rparr>"

lemma sample_sids_fresh:
  "(WinWorldSid \<in> fst ` set calls \<longrightarrow> sid_blocks s 0x100 = None) \<Longrightarrow> distinct (map fst calls) \<Longrightarrow> sids_fresh sample_sid_os calls s"
proof (induction calls arbitrary: s)
  case (Cons c calls)
  obtain type f where c: "c = (type, f)" by fastforce
  have "sid_blocks (initialize_sid sample_sid_os type f s) 0x100 = sid_blocks s 0x100" if "type \<noteq> WinWorldSid"
    using that by (simp add: initialize_sid_def sample_sid_os_def)
  then show ?case using Cons c by (auto simp: sample_sid_os_def)
qed simp

theorem se_exports_filled_witness:
  "SeExports (usersim_initialize_se sample_sid_os empty_se) SeWorldSid = 0x100 \<and>
   dom (sid_blocks (usersim_initialize_se sample_sid_os empty_se)) =
     {p. \<exists>psid \<in> snd ` set se_calls. SeExports (usersim_initialize_se sample_sid_os empty_se) psid = p} - {nullptr}"
proof -
  have "sids_fresh sample_sid_os se_calls empty_se" by (rule sample_sids_fresh) (simp_all add: empty_se_def se_calls_distinct)
  note T = se_exports_filled [OF this]
  have "(WinWorldSid, SeWorldSid) \<in> set se_calls" by (simp add: se_calls_def)
  with T have "case obtained_sid sample_sid_os WinWorldSid of
      None \<Rightarrow> True | Some (p, sid) \<Rightarrow> SeExports (usersim_initialize_se sample_sid_os empty_se) SeWorldSid = p" by (fastforce split: option.splits)
  then show ?thesis using T by (simp add: obtained_sid_def sample_sid_os_def empty_se_def)
qed

text \<open>
  The shutdown does not free the SIDs, and a second start does not either: the blocks of the first start stay in use, and no member
  that the second start sets refers to them.
\<close>
lemma second_start_leaks_sids:
  assumes "sids_fresh os se_calls s" and "sids_fresh os' se_calls (usersim_initialize_se os s)" and "psid \<in> snd ` set se_calls"
  defines "p \<equiv> SeExports (usersim_initialize_se os s) psid"
  defines "s2 \<equiv> usersim_initialize_se os' (usersim_initialize_se os s)"
  assumes "p \<noteq> nullptr"
  shows "sid_blocks s2 p \<noteq> None \<and> (\<forall>psid' \<in> snd ` set se_calls. SeExports s2 psid' \<noteq> p)"
proof -
  have S: "sids_set os se_calls s (usersim_initialize_se os s)" "sids_set os' se_calls (usersim_initialize_se os s) s2"
    unfolding s2_def usersim_initialize_se_def
    using initialize_sids_set [OF se_calls_distinct(1)] assms(1,2) by (simp_all add: usersim_initialize_se_def)
  obtain sid where live: "sid_blocks (usersim_initialize_se os s) p = Some sid"
    by (rule sids_set_cases [OF S(1) assms(3)]) (use assms(6) p_def in auto)
  have "sid_blocks (usersim_initialize_se os s) \<subseteq>\<^sub>m sid_blocks s2" using S(2) by (simp add: sids_set_def)
  then have "sid_blocks s2 p = Some sid" using live by (metis domI map_le_def)
  moreover have "SeExports s2 psid' \<noteq> p" if "psid' \<in> snd ` set se_calls" for psid'
    by (rule sids_set_cases [OF S(2) that]) (use assms(6) live in auto)
  ultimately show ?thesis by blast
qed

section \<open>Calls through the function table\<close>

lemma assign_functions_ok:
  assumes "distinct (map fst as)" "\<forall>i \<in> fst ` set as. i < length table"
  shows "\<exists>table'. assign_functions as table = Inr table' \<and> length table' = length table \<and>
           (\<forall>i f. (i, f) \<in> set as \<longrightarrow> table' ! i = Some f) \<and> (\<forall>i < length table. i \<notin> fst ` set as \<longrightarrow> table' ! i = table ! i)"
  using assms
proof (induction as arbitrary: table)
  case (Cons a as)
  obtain i f where a: "a = (i, f)" by fastforce
  have "distinct (map fst as)" "\<forall>j \<in> fst ` set as. j < length (table[i := Some f])" "i \<notin> fst ` set as" "i < length table"
    using Cons.prems a by auto
  with Cons.IH [OF this(1,2)] a show ?case by (fastforce simp: nth_list_update)
qed simp

lemma wdf_assignments_ok:
  "distinct (map fst wdf_assignments)" "\<forall>i \<in> fst ` set wdf_assignments. i < WdfFunctionTableNumEntries"
  "(wdf_function_index f, f) \<in> set wdf_assignments"
proof -
  show "distinct (map fst wdf_assignments)" "\<forall>i \<in> fst ` set wdf_assignments. i < WdfFunctionTableNumEntries"
    by (simp_all add: wdf_assignments_def wdf_function_index_def)
  show "(wdf_function_index f, f) \<in> set wdf_assignments" by (cases f) (simp_all add: wdf_assignments_def)
qed

lemma initialize_wdf_ok:
  assumes "length table = WdfFunctionTableNumEntries"
  shows "\<exists>table'. usersim_initialize_wdf table = Inr table' \<and> length table' = WdfFunctionTableNumEntries \<and>
           (\<forall>f. wdf_function_at (wdf_function_index f) table' = Inr f) \<and>
           (\<forall>i < WdfFunctionTableNumEntries. i \<notin> range wdf_function_index \<longrightarrow> table' ! i = table ! i)"
proof -
  have sub: "fst ` set wdf_assignments \<subseteq> range wdf_function_index" by (auto simp: wdf_assignments_def)
  have lt: "wdf_function_index f < WdfFunctionTableNumEntries" for f using wdf_assignments_ok(2,3) by (metis fst_conv imageI)
  obtain table' where T: "usersim_initialize_wdf table = Inr table'" "length table' = length table"
    "\<And>i f. (i, f) \<in> set wdf_assignments \<Longrightarrow> table' ! i = Some f" "\<And>i. i < length table \<Longrightarrow> i \<notin> fst ` set wdf_assignments \<Longrightarrow> table' ! i = table ! i"
    using assign_functions_ok [OF wdf_assignments_ok(1), of table] wdf_assignments_ok(2) assms unfolding usersim_initialize_wdf_def by auto
  have "wdf_function_at (wdf_function_index f) table' = Inr f" for f
    using T(2) T(3) [OF wdf_assignments_ok(3)] lt assms by (simp add: wdf_function_at_def)
  moreover have "table' ! i = table ! i" if "i < WdfFunctionTableNumEntries" "i \<notin> range wdf_function_index" for i
    using T(4) [of i] that sub assms by auto
  ultimately show ?thesis using T(1,2) assms by auto
qed

text \<open>
  a driver that calls the framework reaches the function it names. After the start, in a table of 444 entries, the entry at the index of every framework
  function is that function, no assignment is outside the table, and every entry that is not the index of a function is as before.
\<close>
theorem wdf_table_dispatches:
  assumes "length table = WdfFunctionTableNumEntries"
  shows "\<exists>table'. usersim_initialize_wdf table = Inr table' \<and> length table' = WdfFunctionTableNumEntries \<and>
           (\<forall>f. wdf_function_at (wdf_function_index f) table' = Inr f) \<and>
           (\<forall>i < WdfFunctionTableNumEntries. i \<notin> range wdf_function_index \<longrightarrow> table' ! i = table ! i)"
  by (rule initialize_wdf_ok [OF assms])

theorem wdf_table_dispatches_witness:
  "\<exists>table'. usersim_initialize_wdf (replicate 444 None) = Inr table' \<and> wdf_function_at 116 table' = Inr WdfDriverCreate_func"
proof -
  have "length (replicate 444 (None :: wdffunc option)) = WdfFunctionTableNumEntries" by simp
  from wdf_table_dispatches [OF this] obtain table' where "usersim_initialize_wdf (replicate 444 None) = Inr table'"
    "wdf_function_at (wdf_function_index WdfDriverCreate_func) table' = Inr WdfDriverCreate_func" by blast
  then show ?thesis by (auto simp: wdf_function_index_def)
qed

end
