(* ===== verification/Platform.thy ===== *)
theory Platform
  imports Sync Cxplat Objects Exports
begin

text \<open>
  Start and shutdown of the library: \<^verbatim>\<open>src/platform_user.cpp\<close>, \<^verbatim>\<open>usersim_initialize_irql\<close> and \<^verbatim>\<open>usersim_clean_up_irql\<close> of \<^verbatim>\<open>src/ke.cpp\<close>,
  and the ring buffer allocation. The state is made of the states of the components; the answers of the operating system are arguments, \<open>Inl e\<close> a failure
  with last error \<open>e\<close>.
\<close>

section \<open>The thread pool of the kernel routines\<close>

record irql_runtime =
  threadpool_open :: bool
  callback_environment :: bool
  original_priority_class :: u32
  dispatch_lock_count :: nat

record irql_start =
  st_pool :: "u32 + unit"
  st_minimum :: "u32 + unit"
  st_priority_class :: u32
  st_set_class :: bool
  st_error :: u32
  st_processors :: nat
  st_locks :: bool

text \<open>
  \<open>st_priority_class\<close> is 0 when \<^verbatim>\<open>GetPriorityClass\<close> fails; \<open>st_error\<close> is the last error then, or when the class cannot be set.
  \<open>st_locks\<close> tells whether the vector of dispatch locks can be allocated. If not, \<^verbatim>\<open>std::bad_alloc\<close> leaves the function (\<open>None\<close>) past its own
  clean-up.
\<close>

definition usersim_initialize_irql :: "irql_start \<Rightarrow> irql_runtime \<Rightarrow> ntstatus option \<times> irql_runtime" where
  "usersim_initialize_irql os r =
     (let failed = (\<lambda>e r. (Some (win32_error_to_usersim_error e), r\<lparr>callback_environment := False, threadpool_open := False\<rparr>))
      in case st_pool os of
           Inl e \<Rightarrow> failed e (r\<lparr>threadpool_open := False\<rparr>)
         | Inr _ \<Rightarrow>
             (case st_minimum os of
                Inl e \<Rightarrow> failed e r
              | Inr _ \<Rightarrow>
                  let r1 = r\<lparr>threadpool_open := True, callback_environment := True, original_priority_class := st_priority_class os\<rparr>
                  in if st_priority_class os = 0 then failed (st_error os) r1
                     else if \<not> st_set_class os then failed (st_error os) r1
                     else if \<not> st_locks os then (None, r1)
                     else (Some STATUS_SUCCESS, r1\<lparr>dispatch_lock_count := st_processors os\<rparr>)))"

definition usersim_clean_up_irql :: "bool \<Rightarrow> irql_runtime \<Rightarrow> irql_runtime result" where
  "usersim_clean_up_irql restore_ok r =
     (if original_priority_class r \<noteq> 0 \<and> \<not> restore_ok then Inl (Bug_Check 0)
      else Inr (r\<lparr>original_priority_class := 0, callback_environment := False, threadpool_open := False\<rparr>))"

section \<open>The platform\<close>

text \<open>
  \<open>initiate_count\<close> is a signed 32-bit integer, \<open>semaphore_handles\<close> is \<^verbatim>\<open>g_usersim_semaphore_handles\<close>, and \<open>timers\<close> holds the timers
  and, in its field \<open>dpcs\<close>, the DPC queues. \<open>se\<close> and \<open>wdf_functions\<close> are the tables of theory \<open>Exports\<close>. \<open>group_index_map\<close> is \<^verbatim>\<open>_usersim_platform_group_to_index_map\<close>.
\<close>

record platform =
  initiate_count :: "32 word"
  cxplat_initialized :: bool
  cxplat :: cxplat_runtime
  irql :: irql_runtime
  timers :: timer_state
  ps :: ps_state
  semaphore_handles :: "ptr list option"
  maximum_group_count :: u32
  maximum_processor_count :: u32
  group_index_map :: "u32 list"
  se :: se_state
  wdf_functions :: "wdffunc option list"

definition usersim_get_cpu_count :: "platform \<Rightarrow> u32" where
  "usersim_get_cpu_count s = maximum_processor_count s"

definition usersim_free_semaphores :: "platform \<Rightarrow> platform" where
  "usersim_free_semaphores s = s\<lparr>semaphore_handles := None\<rparr>"

text \<open>
  What the operating system answers while the platform stops: whether the priority class can be restored, the module of the caller,
  and the order of the leak detector's table. The call blocks while work items are outstanding.
\<close>

record shutdown_os =
  priority_restored :: bool
  stop_module :: "(u64 \<times> u32) option"
  leak_order :: "ptr list"

definition usersim_platform_terminate :: "shutdown_os \<Rightarrow> platform \<Rightarrow> platform outcome result" where
  "usersim_platform_terminate sd s =
     (case cxplat_wait_for_preemptible_work_items_complete (pool (cxplat s)) of
        Inl e \<Rightarrow> Inl e
      | Inr w \<Rightarrow>
          if \<not> work_items_complete w then Inr Blocks
          else let s1 = usersim_free_semaphores (s\<lparr>cxplat := (cxplat s)\<lparr>pool := w\<rparr>\<rparr>);
                   s2 = s1\<lparr>timers := usersim_free_threadpool_timers (timers s1)\<rparr>
               in case usersim_clean_up_ps (ps s2) of
                    Inl e \<Rightarrow> Inl e
                  | Inr q \<Rightarrow>
                      let s3 = s2\<lparr>ps := q, timers := (timers s2)\<lparr>dpcs := snd (usersim_clean_up_dpcs (dpcs (timers s2)))\<rparr>\<rparr>
                      in case usersim_clean_up_irql (priority_restored sd) (irql s3) of
                           Inl e \<Rightarrow> Inl e
                         | Inr r \<Rightarrow>
                             (case (if cxplat_initialized s3 then cxplat_cleanup (stop_module sd) (leak_order sd) (cxplat s3) else Inr (cxplat s3)) of
                                Inl e \<Rightarrow> Inl e
                              | Inr x \<Rightarrow>
                                  let s4 = s3\<lparr>irql := r, cxplat := x, cxplat_initialized := False,
                                              initiate_count := initiate_count s3 - 1\<rparr>
                                  in if sint (initiate_count s4) < 0 then Inl (Bug_Check 0) else Inr (Returns s4)))"

record platform_os =
  start_cxplat :: cxplat_os
  start_irql :: irql_start
  dpc_nodes :: "nat \<Rightarrow> ptr \<times> ptr"
  dpc_bad_alloc :: "nat option"
  group_map_allocated :: bool
  group_count :: u32
  processor_count :: u32
  group_size :: "u16 \<Rightarrow> u32"
  start_sids :: sid_os
  stop :: shutdown_os

text \<open>
  \<open>dpc_nodes\<close> gives the addresses of the two list heads of each DPC queue. Memory may run out at three points, each with what was started before
  it: in the vector of dispatch locks, at the queue \<open>k\<close> of \<open>dpc_bad_alloc = Some k\<close>, when those before it exist already, and in the group table.
\<close>

definition initiate_failed :: "platform_os \<Rightarrow> ntstatus \<Rightarrow> platform \<Rightarrow> (ntstatus \<times> platform) outcome result" where
  "initiate_failed os status s =
     (case usersim_platform_terminate (stop os) s of
        Inl e \<Rightarrow> Inl e
      | Inr Blocks \<Rightarrow> Inr Blocks
      | Inr (Returns s') \<Rightarrow> Inr (Returns (status, s')))"

definition usersim_platform_initiate :: "platform_os \<Rightarrow> platform \<Rightarrow> (ntstatus \<times> platform) outcome result" where
  "usersim_platform_initiate os s =
     (let s0 = s\<lparr>initiate_count := initiate_count s + 1\<rparr>
      in if sint (initiate_count s0) > 1 then Inr (Returns (STATUS_SUCCESS, s0))
         else case cxplat_initialize (start_cxplat os) (cxplat s0) of
           (status, x) \<Rightarrow>
             if status \<noteq> Cxplat_Success then initiate_failed os STATUS_NO_MEMORY (s0\<lparr>cxplat := x\<rparr>)
             else let s1 = s0\<lparr>cxplat := x, cxplat_initialized := True, maximum_group_count := group_count os,
                             maximum_processor_count := processor_count os\<rparr>
                  in case usersim_initialize_irql (start_irql os) (irql s1) of
                    (None, r) \<Rightarrow> initiate_failed os STATUS_NO_MEMORY (s1\<lparr>irql := r\<rparr>)
                  | (Some result, r) \<Rightarrow>
                      let s2 = s1\<lparr>irql := r\<rparr>; cpus = unat (usersim_get_cpu_count s2);
                          built = (case dpc_bad_alloc os of None \<Rightarrow> cpus | Some k \<Rightarrow> min k cpus);
                          s3 = s2\<lparr>timers := (timers s2)\<lparr>dpcs := usersim_initialize_dpcs (map (dpc_nodes os) [0..<built]) (dpcs (timers s2))\<rparr>\<rparr>
                      in if result \<noteq> STATUS_SUCCESS then initiate_failed os result s2
                         else if built < cpus then initiate_failed os STATUS_NO_MEMORY s3
                         else if \<not> group_map_allocated os then initiate_failed os STATUS_NO_MEMORY s3
                         else
                             let s4 = s3\<lparr>group_index_map := group_to_index_map (group_size os) (maximum_group_count s3),
                                         se := usersim_initialize_se (start_sids os) (se s3)\<rparr>
                             in case usersim_initialize_wdf (wdf_functions s4) of
                                  Inl e \<Rightarrow> Inl e
                                | Inr table \<Rightarrow> Inr (Returns (STATUS_SUCCESS, s4\<lparr>wdf_functions := table\<rparr>)))"

section \<open>Ring buffers\<close>

record ring_descriptor =
  primary_view :: ptr
  secondary_view :: ptr
  ring_length :: u64

record ring_os =
  granularity :: u64
  descriptor_ptr :: ptr
  reserve :: ptr
  split_ok :: bool
  section_handle :: ptr
  view_1 :: ptr
  view_2 :: ptr

text \<open>What the call does to the resources of the operating system while it cleans up.\<close>

datatype ring_event = Free_Descriptor ptr | Close_Section ptr | Release_Region ptr | Unmap ptr

definition ring_cleanup ::
  "bool \<Rightarrow> ptr \<Rightarrow> ptr \<Rightarrow> ptr \<Rightarrow> ptr \<Rightarrow> ptr \<Rightarrow> ptr \<Rightarrow> ring_event list" where
  "ring_cleanup result descriptor section_h placeholder1 placeholder2 view1 view2 =
     (if \<not> result \<and> descriptor \<noteq> nullptr then [Free_Descriptor descriptor] else []) @
     (if section_h \<noteq> nullptr then [Close_Section section_h] else []) @
     (if placeholder1 \<noteq> nullptr then [Release_Region placeholder1] else []) @
     (if placeholder2 \<noteq> nullptr then [Release_Region placeholder2] else []) @
     (if view1 \<noteq> nullptr then [Unmap view1] else []) @ (if view2 \<noteq> nullptr then [Unmap view2] else [])"

text \<open>
  \<^verbatim>\<open>usersim_allocate_ring_buffer_memory\<close>: the descriptor that is returned, with its contents, and the cleanup. The descriptor is zeroed
  memory. The variable \<^verbatim>\<open>result\<close> holds the outcome of splitting the reserved region from there on.
\<close>

definition usersim_allocate_ring_buffer_memory ::
  "ring_os \<Rightarrow> u64 \<Rightarrow> ((ptr \<times> ring_descriptor) option \<times> ring_event list) result" where
  "usersim_allocate_ring_buffer_memory os len =
     (let d = descriptor_ptr os; empty = \<lparr>primary_view = nullptr, secondary_view = nullptr, ring_length = len\<rparr>
      in if len = 0 then Inr (None, [])
         else if granularity os = 0 then Inl Out_Of_Bounds
         else if len mod granularity os \<noteq> 0 then Inr (None, [])
         else if d = nullptr then Inr (None, ring_cleanup False d nullptr nullptr nullptr nullptr nullptr)
         else if reserve os = nullptr then Inr (None, ring_cleanup False d nullptr nullptr nullptr nullptr nullptr)
         else if \<not> split_ok os then Inr (None, ring_cleanup False d nullptr (reserve os) nullptr nullptr nullptr)
         else let p1 = reserve os; p2 = reserve os + len
              in if section_handle os = nullptr then Inr (Some (d, empty), ring_cleanup True d nullptr p1 p2 nullptr nullptr)
                 else if view_1 os = nullptr
                 then Inr (Some (d, empty), ring_cleanup True d (section_handle os) p1 p2 nullptr nullptr)
                 else if view_2 os = nullptr
                 then Inr (Some (d, empty), ring_cleanup True d (section_handle os) nullptr p2 (view_1 os) nullptr)
                 else Inr (Some (d, empty\<lparr>primary_view := view_1 os, secondary_view := view_2 os\<rparr>),
                           ring_cleanup True d (section_handle os) nullptr nullptr nullptr nullptr))"

definition usersim_ring_descriptor_get_base_address :: "ring_descriptor \<Rightarrow> ptr" where
  "usersim_ring_descriptor_get_base_address d = primary_view d"

definition usersim_free_ring_buffer_memory :: "(ptr \<times> ring_descriptor) option \<Rightarrow> ring_event list" where
  "usersim_free_ring_buffer_memory ring =
     (case ring of
        None \<Rightarrow> []
      | Some (d, c) \<Rightarrow> [Unmap (primary_view c), Unmap (secondary_view c), Free_Descriptor d])"

section \<open>Security descriptors and access checks\<close>

text \<open>\<open>descriptor\<close> is what the operating system says of it: valid, its control word if it can be read, its length.\<close>

definition usersim_validate_security_descriptor :: "bool \<Rightarrow> bool \<times> u16 option \<times> u32 \<Rightarrow> u64 \<Rightarrow> ntstatus" where
  "usersim_validate_security_descriptor fault descriptor len =
     (if fault then STATUS_NO_MEMORY
      else case descriptor of
        (valid, control, n) \<Rightarrow>
          if \<not> valid then STATUS_INVALID_PARAMETER
          else case control of
            None \<Rightarrow> STATUS_INVALID_PARAMETER
          | Some c \<Rightarrow>
              if c AND 0x8000 = 0 then STATUS_INVALID_PARAMETER
              else if ucast n \<noteq> len then STATUS_INVALID_PARAMETER else STATUS_SUCCESS)"

text \<open>The status, and whether the token was closed and the impersonation reverted.\<close>

definition usersim_access_check :: "bool \<Rightarrow> bool \<Rightarrow> bool \<Rightarrow> bool option \<Rightarrow> ntstatus \<times> bool \<times> bool" where
  "usersim_access_check fault impersonate open_token check =
     (if fault then (STATUS_ACCESS_DENIED, False, False)
      else if \<not> impersonate then (STATUS_ACCESS_DENIED, False, False)
      else if \<not> open_token then (STATUS_ACCESS_DENIED, False, True)
      else case check of
             None \<Rightarrow> (STATUS_ACCESS_DENIED, True, True)
           | Some granted \<Rightarrow> (if granted then STATUS_SUCCESS else STATUS_ACCESS_DENIED, True, True))"

section \<open>Properties\<close>

text \<open>The platform with nothing running, and the same with no client left.\<close>

definition platform_down :: "platform \<Rightarrow> bool" where
  "platform_down s \<longleftrightarrow>
     \<not> cxplat_initialized s \<and> initialization_count (cxplat s) = 0 \<and> \<not> pool_open (pool (cxplat s)) \<and>
     \<not> threadpool_open (irql s) \<and> \<not> callback_environment (irql s) \<and> original_priority_class (irql s) = 0 \<and>
     emulated_dpcs (dpcs (timers s)) = [] \<and> threadpool_timers (timers s) = None \<and> semaphore_handles s = None \<and>
     primary_token_ref_count (ps s) = 0 \<and> length (wdf_functions s) = WdfFunctionTableNumEntries"

definition platform_off :: "platform \<Rightarrow> bool" where
  "platform_off s \<longleftrightarrow> platform_down s \<and> initiate_count s = 0 \<and> leak_free (cxplat s)"

text \<open>
  What a shutdown leaves as it is: the tables of the processors, the security identifiers, the function table, the dispatch locks, the timer objects
  of the clients, the state of the process services, and of the portability layer the fault injector, the fuzzing flag and the flag of the symbol decoder.
\<close>

definition platform_kept :: "platform \<Rightarrow> platform \<Rightarrow> bool" where
  "platform_kept s s' \<longleftrightarrow>
     maximum_group_count s' = maximum_group_count s \<and> maximum_processor_count s' = maximum_processor_count s \<and>
     group_index_map s' = group_index_map s \<and> se s' = se s \<and> wdf_functions s' = wdf_functions s \<and>
     dispatch_lock_count (irql s') = dispatch_lock_count (irql s) \<and> ktimers (timers s') = ktimers (timers s) \<and> ps s' = ps s \<and>
     fault_injector (cxplat s') = fault_injector (cxplat s) \<and> fuzzing_enabled (cxplat s') = fuzzing_enabled (cxplat s) \<and>
     symbol_decoder_initialized (cxplat s') = symbol_decoder_initialized (cxplat s)"

definition no_work :: "work_pool \<Rightarrow> bool" where
  "no_work w \<longleftrightarrow> pool_open w \<longrightarrow> (\<exists>b. rundown w (rundown_reference w) = Some (b, 0))"

lemma wait_no_work:
  assumes "no_work w"
  shows "\<exists>w'. cxplat_wait_for_preemptible_work_items_complete w = Inr w' \<and> work_items_complete w' \<and> pool_open w' = pool_open w"
  using assms
  by (auto simp: no_work_def cxplat_wait_for_preemptible_work_items_complete_def cxplat_wait_for_rundown_protection_release_def
      wait_for_rundown_ref_begin_def work_items_complete_def wait_for_rundown_ref_done_def)

lemma terminate_down:
  assumes "no_work (pool (cxplat s))" "primary_token_ref_count (ps s) = 0" "0 \<le> sint (initiate_count s - 1)"
    and sd: "priority_restored sd" and l: "leak_free (cxplat s)"
    and "if cxplat_initialized s then initialization_count (cxplat s) = 1
         else initialization_count (cxplat s) = 0 \<and> \<not> pool_open (pool (cxplat s))"
    and "length (wdf_functions s) = WdfFunctionTableNumEntries"
  shows "\<exists>s'. usersim_platform_terminate sd s = Inr (Returns s') \<and> platform_down s' \<and> leak_free (cxplat s') \<and>
               initiate_count s' = initiate_count s - 1 \<and> platform_kept s s'"
proof -
  have q: "(ps s)\<lparr>primary_token_ref_count := 0\<rparr> = ps s" using assms(2) by (cases "ps s") simp
  obtain w where w: "cxplat_wait_for_preemptible_work_items_complete (pool (cxplat s)) = Inr w" "work_items_complete w"
    "pool_open w = pool_open (pool (cxplat s))" using wait_no_work [OF assms(1)] by blast
  have t: "threadpool_timers (usersim_free_threadpool_timers x) = None" "ktimers (usersim_free_threadpool_timers x) = ktimers x" for x
    by (simp_all add: usersim_free_threadpool_timers_def split: option.splits)
  show ?thesis
  proof (cases "cxplat_initialized s")
    case True
    then have "initialization_count ((cxplat s)\<lparr>pool := w\<rparr>) = 1" "leak_free ((cxplat s)\<lparr>pool := w\<rparr>)"
      using assms(6) l by (simp_all add: leak_free_def)
    from cxplat_cleanup_last [OF this, of "stop_module sd" "leak_order sd"] show ?thesis
      using assms(2,3,7) sd w t q True
      by (auto simp: platform_kept_def usersim_platform_terminate_def usersim_free_semaphores_def usersim_clean_up_ps_def usersim_clean_up_irql_def
          usersim_clean_up_dpcs_def platform_down_def leak_free_def Let_def)
  next
    case False
    then show ?thesis
      using assms(2,3,6,7) sd l w t q
      by (auto simp: platform_kept_def usersim_platform_terminate_def usersim_free_semaphores_def usersim_clean_up_ps_def usersim_clean_up_irql_def
          usersim_clean_up_dpcs_def platform_down_def leak_free_def Let_def)
  qed
qed

lemma start_debugging_keeps:
  assumes "start_debugging os x = (st, x')" and "leak_free x"
  shows "initialization_count x' = initialization_count x \<and> pool x' = pool x \<and> leak_free x'"
proof -
  have f: "start_fault_injection os depth y = (st, y') \<Longrightarrow> initialization_count y' = initialization_count y \<and> pool y' = pool y \<and> detector y' = detector y"
    for depth y st y' by (auto simp: start_fault_injection_def split: prod.splits if_splits)
  have y: "cxplat_symbol_decoder_initialize r x = (st, y) \<Longrightarrow>
           initialization_count y = initialization_count x \<and> pool y = pool x \<and> detector y = detector x" for r st y
    by (auto simp: cxplat_symbol_decoder_initialize_def split: sum.splits)
  show ?thesis using assms
    by (auto simp: start_debugging_def Let_def leak_free_def empty_detector_def split: prod.splits if_splits dest!: f y)
qed

lemma cxplat_initialize_cases:
  assumes "initialization_count x = 0" "\<not> pool_open (pool x)" "leak_free x" "cxplat_initialize os x = (st, x')"
  shows "leak_free x' \<and>
         (if st = Cxplat_Success then initialization_count x' = 1 \<and> pool_open (pool x') \<and> no_work (pool x')
          else initialization_count x' = 0 \<and> \<not> pool_open (pool x'))"
proof -
  obtain sd y where y: "start_debugging os x = (sd, y)" by fastforce
  note k = start_debugging_keeps [OF y assms(3)]
  show ?thesis
  proof (cases "sd = Cxplat_Success \<and> fst (os_processors os) = Cxplat_Success")
    case False
    then show ?thesis using assms y k by (auto simp: cxplat_initialize_def split: prod.splits if_splits)
  next
    case True
    then show ?thesis using assms y k
      by (cases "os_processors os"; cases "os_pool os"; cases "os_minimum os"; cases "os_group os")
        (auto simp: cxplat_initialize_def cxplat_winuser_initialize_thread_pool_def no_work_def
          cxplat_initialize_rundown_protection_def initialize_rundown_ref_def leak_free_def Let_def)
  qed
qed

lemma irql_initialize_cases:
  "usersim_initialize_irql os r = (Some res, r') \<Longrightarrow> res = STATUS_SUCCESS \<or> \<not> NT_SUCCESS res"
  by (auto simp: usersim_initialize_irql_def Let_def split: sum.splits if_splits)

text \<open>The state after a successful start.\<close>

definition platform_up :: "platform \<Rightarrow> bool" where
  "platform_up s \<longleftrightarrow> initiate_count s = 1 \<and> cxplat_initialized s \<and> initialization_count (cxplat s) = 1 \<and>
     pool_open (pool (cxplat s)) \<and> no_work (pool (cxplat s)) \<and> leak_free (cxplat s) \<and> primary_token_ref_count (ps s) = 0 \<and>
     length (wdf_functions s) = WdfFunctionTableNumEntries \<and> (\<forall>f. wdf_function_at (wdf_function_index f) (wdf_functions s) = Inr f)"

text \<open>The tables of the processors, the DPC queues and the security identifiers, as a start from the state \<open>s\<close> sets them up.\<close>

definition platform_tables :: "platform_os \<Rightarrow> platform \<Rightarrow> platform \<Rightarrow> bool" where
  "platform_tables os s s1 \<longleftrightarrow> usersim_get_cpu_count s1 = processor_count os \<and> maximum_group_count s1 = group_count os \<and>
     group_index_map s1 = group_to_index_map (group_size os) (group_count os) \<and>
     timers s1 = (timers s)\<lparr>dpcs := usersim_initialize_dpcs (map (dpc_nodes os) [0..<unat (processor_count os)]) (dpcs (timers s))\<rparr> \<and>
     se s1 = usersim_initialize_se (start_sids os) (se s)"

text \<open>What a start that fails does not touch.\<close>

definition platform_untouched :: "platform \<Rightarrow> platform \<Rightarrow> bool" where
  "platform_untouched s s1 \<longleftrightarrow> se s1 = se s \<and> wdf_functions s1 = wdf_functions s \<and> group_index_map s1 = group_index_map s \<and>
     ps s1 = ps s \<and> ktimers (timers s1) = ktimers (timers s)"

lemma initiate_cases:
  assumes off: "platform_off s" and restore: "priority_restored (stop os)"
  obtains (up) s1 where "usersim_platform_initiate os s = Inr (Returns (STATUS_SUCCESS, s1))" "platform_up s1" "platform_tables os s s1"
  | (fails) r s1 where "usersim_platform_initiate os s = Inr (Returns (r, s1))" "\<not> NT_SUCCESS r" "platform_off s1" "platform_untouched s s1"
proof -
  let ?s0 = "s\<lparr>initiate_count := 1\<rparr>"
  have o: "initiate_count s = 0" "initialization_count (cxplat s) = 0" "\<not> pool_open (pool (cxplat s))" "\<not> cxplat_initialized s"
    "primary_token_ref_count (ps s) = 0" "leak_free (cxplat s)" "length (wdf_functions s) = WdfFunctionTableNumEntries"
    using off by (simp_all add: platform_off_def platform_down_def)
  obtain st x where x: "cxplat_initialize (start_cxplat os) (cxplat s) = (st, x)" by fastforce
  note X = cxplat_initialize_cases [OF o(2,3,6) x]
  have failed: "\<exists>s1. initiate_failed os status s' = Inr (Returns (status, s1)) \<and> platform_off s1 \<and> platform_untouched s s1"
    if "\<exists>s1. usersim_platform_terminate (stop os) s' = Inr (Returns s1) \<and> platform_down s1 \<and> leak_free (cxplat s1) \<and> initiate_count s1 = 0 \<and> platform_kept s' s1"
      and "platform_untouched s s'" for status s'
    using that restore by (auto simp: initiate_failed_def platform_off_def platform_kept_def platform_untouched_def)
  show ?thesis
  proof (cases "st = Cxplat_Success")
    case False
    have "\<exists>s1. initiate_failed os STATUS_NO_MEMORY (?s0\<lparr>cxplat := x\<rparr>) = Inr (Returns (STATUS_NO_MEMORY, s1)) \<and> platform_off s1 \<and> platform_untouched s s1"
      by (rule failed) (use terminate_down [of "?s0\<lparr>cxplat := x\<rparr>" "stop os"] X False o restore in \<open>simp_all add: no_work_def platform_untouched_def\<close>)
    moreover have "usersim_platform_initiate os s = initiate_failed os STATUS_NO_MEMORY (?s0\<lparr>cxplat := x\<rparr>)"
      using False x o(1) by (simp add: usersim_platform_initiate_def Let_def)
    ultimately show ?thesis using fails [of STATUS_NO_MEMORY] by auto
  next
    case True
    obtain res r where r: "usersim_initialize_irql (start_irql os) (irql s) = (res, r)" by fastforce
    let ?s2 = "?s0\<lparr>cxplat := x, cxplat_initialized := True, maximum_group_count := group_count os,
      maximum_processor_count := processor_count os, irql := r\<rparr>"
    let ?s3 = "\<lambda>k. ?s2\<lparr>timers := (timers s)\<lparr>dpcs := usersim_initialize_dpcs (map (dpc_nodes os) [0..<k]) (dpcs (timers s))\<rparr>\<rparr>"
    have t: "\<exists>s1. initiate_failed os status s' = Inr (Returns (status, s1)) \<and> platform_off s1 \<and> platform_untouched s s1"
      if "s' = ?s2 \<or> s' = ?s3 k" for status s' k
      by (rule failed) (use that terminate_down [of s' "stop os"] X True o restore in \<open>auto simp: platform_untouched_def\<close>)
    have nomem: thesis if "usersim_platform_initiate os s = initiate_failed os STATUS_NO_MEMORY s'" "s' = ?s2 \<or> s' = ?s3 k" for s' k
      using t [OF that(2), of STATUS_NO_MEMORY] that(1) fails [of STATUS_NO_MEMORY] by auto
    consider "res = None" | e where "res = Some e" "e \<noteq> STATUS_SUCCESS" "\<not> NT_SUCCESS e"
      | k where "res = Some STATUS_SUCCESS" "dpc_bad_alloc os = Some k" "k < unat (processor_count os)"
      | "res = Some STATUS_SUCCESS" "dpc_bad_alloc os = None \<or> (\<exists>k. dpc_bad_alloc os = Some k \<and> unat (processor_count os) \<le> k)" "\<not> group_map_allocated os"
      | "res = Some STATUS_SUCCESS" "dpc_bad_alloc os = None \<or> (\<exists>k. dpc_bad_alloc os = Some k \<and> unat (processor_count os) \<le> k)" "group_map_allocated os"
      using irql_initialize_cases [of "start_irql os" "irql s"] r by (cases res; cases "dpc_bad_alloc os") (auto simp: not_le [symmetric])
    then show ?thesis
    proof cases
      case 1
      then show ?thesis by (intro nomem) (use 1 True x r o(1) in \<open>auto simp: usersim_platform_initiate_def Let_def\<close>)
    next
      case (2 e)
      then have "usersim_platform_initiate os s = initiate_failed os e ?s2"
        using True x r o(1) by (simp add: usersim_platform_initiate_def Let_def)
      then show ?thesis using t [of ?s2 0 e] 2 fails [of e] by auto
    next
      case (3 k)
      then show ?thesis
        by (intro nomem [of "?s3 k" k]) (use True x r o(1) in \<open>auto simp: usersim_platform_initiate_def usersim_get_cpu_count_def Let_def\<close>)
    next
      case 4
      then show ?thesis
        by (intro nomem [of "?s3 (unat (processor_count os))" "unat (processor_count os)"])
          (use True x r o(1) in \<open>auto simp: usersim_platform_initiate_def usersim_get_cpu_count_def Let_def\<close>)
    next
      case 5
      obtain table where "usersim_initialize_wdf (wdf_functions s) = Inr table" "length table = WdfFunctionTableNumEntries"
        "\<forall>f. wdf_function_at (wdf_function_index f) table = Inr f" using initialize_wdf_ok [OF o(7)] by blast
      then show ?thesis using 5 True X o x r
        by (intro up) (auto simp: usersim_platform_initiate_def platform_up_def platform_tables_def usersim_get_cpu_count_def Let_def)
    qed
  qed
qed


text \<open>
  a shutdown ignores the other clients. When two clients have started the platform, the first shutdown stops everything although
  one client is left: the DPC queues are gone, so inserting a DPC accesses a missing queue, and a further start
  reports success without starting anything.
\<close>
theorem platform_terminate_ignores_count:
  assumes "platform_up s1" "priority_restored sd"
  shows "\<exists>s2 s3. usersim_platform_initiate os' s1 = Inr (Returns (STATUS_SUCCESS, s2)) \<and>
           usersim_platform_terminate sd s2 = Inr (Returns s3) \<and> initiate_count s3 = 1 \<and> platform_down s3 \<and>
           KeInsertQueueDpc d a b (dpcs (timers s3)) = Inl Out_Of_Bounds \<and>
           usersim_platform_initiate os' s3 = Inr (Returns (STATUS_SUCCESS, s3\<lparr>initiate_count := 2\<rparr>))"
proof -
  let ?s2 = "s1\<lparr>initiate_count := 2\<rparr>"
  have u: "initiate_count s1 = 1" using assms by (simp add: platform_up_def)
  have again: "usersim_platform_initiate os' s = Inr (Returns (STATUS_SUCCESS, s\<lparr>initiate_count := 2\<rparr>))" if "initiate_count s = 1" for s os'
    using that by (simp add: usersim_platform_initiate_def Let_def)
  obtain s3 where s3: "usersim_platform_terminate sd ?s2 = Inr (Returns s3)" "platform_down s3" "initiate_count s3 = 1"
    using terminate_down [of ?s2 sd] assms by (auto simp: platform_up_def)
  have "KeInsertQueueDpc d a b (dpcs (timers s3)) = Inl Out_Of_Bounds"
    using s3(2) by (simp add: platform_down_def KeInsertQueueDpc_def dpc_insert_def dpc_queue_def)
  then show ?thesis using again [OF u] again [OF s3(3)] s3 by blast
qed

definition sample_platform :: platform where
  "sample_platform = \<lparr>initiate_count = 0, cxplat_initialized = False,
     cxplat = sample_runtime,
     irql = \<lparr>threadpool_open = False, callback_environment = False, original_priority_class = 0, dispatch_lock_count = 0\<rparr>,
     timers = \<lparr>dpcs = \<lparr>entries = zero_links, kdpcs = \<lambda>_. sample_kdpc, emulated_dpcs = []\<rparr>, ktimers = Map.empty,
               threadpool_timers = None, armed = Map.empty\<rparr>,
     ps = \<lparr>primary_token_ref_count = 0, process_start_key_callback = 0, process_exit_status_callback = 0,
           process_create_time_callback = 0, thread_create_time_callback = 0, process_exit_time_callback = 0,
           process_creation_notify_routine = 0\<rparr>,
     semaphore_handles = None, maximum_group_count = 0, maximum_processor_count = 0, group_index_map = [], se = empty_se, wdf_functions = replicate 444 None\<rparr>"

text \<open>An operating system with two processors in one group; \<open>set_class\<close> tells whether it lets the process change its priority class.\<close>

definition sample_stop :: shutdown_os where
  "sample_stop = \<lparr>priority_restored = True, stop_module = None, leak_order = []\<rparr>"

definition sample_os :: "bool \<Rightarrow> platform_os" where
  "sample_os set_class = \<lparr>start_cxplat = sample_cxplat_os Map.empty,
     start_irql = \<lparr>st_pool = Inr (), st_minimum = Inr (), st_priority_class = 32, st_set_class = set_class, st_error = 5,
       st_processors = 2, st_locks = True\<rparr>,
     dpc_nodes = (\<lambda>i. (0x10 + 0x20 * of_nat i, 0x20 + 0x20 * of_nat i)), dpc_bad_alloc = None, group_map_allocated = True, group_count = 1, processor_count = 2, group_size = \<lambda>_. 2, start_sids = sample_sid_os, stop = sample_stop\<rparr>"

lemma sample_platform_off: "platform_off sample_platform"
  by (simp add: platform_off_def platform_down_def sample_platform_def sample_runtime_def leak_free_def)

lemma sample_initiate:
  "\<exists>s1. usersim_platform_initiate (sample_os True) sample_platform = Inr (Returns (STATUS_SUCCESS, s1))"
proof -
  obtain table where "usersim_initialize_wdf (replicate 444 None) = Inr table" using initialize_wdf_ok [of "replicate 444 None"] by auto
  then show ?thesis
    by (simp add: usersim_platform_initiate_def usersim_get_cpu_count_def sample_os_def sample_platform_def sample_runtime_def sample_cxplat_os_def
      cxplat_initialize_def start_debugging_def start_fault_injection_def get_environment_variable_as_size_t_def
      get_environment_variable_as_bool_def get_environment_variable_as_string_def Let_def cxplat_winuser_initialize_thread_pool_def usersim_initialize_irql_def)
qed


theorem platform_terminate_ignores_count_witness:
  "\<exists>s1 s2 s3. usersim_platform_initiate (sample_os True) sample_platform = Inr (Returns (STATUS_SUCCESS, s1)) \<and>
              usersim_platform_initiate (sample_os True) s1 = Inr (Returns (STATUS_SUCCESS, s2)) \<and>
              usersim_platform_terminate sample_stop s2 = Inr (Returns s3) \<and> initiate_count s3 = 1 \<and>
              KeInsertQueueDpc 0x50 0 0 (dpcs (timers s3)) = Inl Out_Of_Bounds"
proof -
  have r: "priority_restored (stop (sample_os True))" "priority_restored sample_stop" by (simp_all add: sample_os_def sample_stop_def)
  obtain s1 where s1: "usersim_platform_initiate (sample_os True) sample_platform = Inr (Returns (STATUS_SUCCESS, s1))" "platform_up s1"
  proof (rule initiate_cases [OF sample_platform_off r(1)])
    fix q s assume "usersim_platform_initiate (sample_os True) sample_platform = Inr (Returns (q, s))" "\<not> NT_SUCCESS q"
    then show thesis using sample_initiate by auto
  qed
  from platform_terminate_ignores_count [OF s1(2) r(2), of "sample_os True" "0x50" 0 0] s1(1) show ?thesis by blast
qed

text \<open>
  what a ring buffer allocation returns. Once its arguments are valid and the descriptor and the region exist, the descriptor is
  returned exactly when the region could be split. If the section and both views could be
  made as well, it holds the two views, and only the section handle is closed. If one of these last steps failed, the
  descriptor is returned all the same, with null views, although every region and view it was meant for
  has been released.
\<close>
theorem ring_buffer_descriptor:
  assumes "len \<noteq> 0" "granularity os \<noteq> 0" "len mod granularity os = 0" "descriptor_ptr os \<noteq> nullptr" "reserve os \<noteq> nullptr"
    and "reserve os + len \<noteq> nullptr"
  shows "\<exists>r ev. usersim_allocate_ring_buffer_memory os len = Inr (r, ev) \<and> (r \<noteq> None \<longleftrightarrow> split_ok os) \<and>
           (\<not> split_ok os \<longrightarrow> ev = [Free_Descriptor (descriptor_ptr os), Release_Region (reserve os)]) \<and>
           (split_ok os \<and> section_handle os \<noteq> nullptr \<and> view_1 os \<noteq> nullptr \<and> view_2 os \<noteq> nullptr \<longrightarrow>
              r = Some (descriptor_ptr os, \<lparr>primary_view = view_1 os, secondary_view = view_2 os, ring_length = len\<rparr>) \<and>
              ev = [Close_Section (section_handle os)]) \<and>
           (split_ok os \<and> (section_handle os = nullptr \<or> view_1 os = nullptr \<or> view_2 os = nullptr) \<longrightarrow>
              r = Some (descriptor_ptr os, \<lparr>primary_view = nullptr, secondary_view = nullptr, ring_length = len\<rparr>) \<and>
              Free_Descriptor (descriptor_ptr os) \<notin> set ev \<and> Release_Region (reserve os + len) \<in> set ev)"
  using assms by (auto simp: usersim_allocate_ring_buffer_memory_def ring_cleanup_def Let_def)

definition sample_ring_os :: ring_os where
  "sample_ring_os = \<lparr>granularity = 0x10000, descriptor_ptr = 0x500, reserve = 0x20000, split_ok = True, section_handle = 0x8,
     view_1 = 0x20000, view_2 = nullptr\<rparr>"

theorem ring_buffer_descriptor_witness:
  "\<exists>ev. usersim_allocate_ring_buffer_memory sample_ring_os 0x10000 =
          Inr (Some (0x500, \<lparr>primary_view = nullptr, secondary_view = nullptr, ring_length = 0x10000\<rparr>), ev)"
proof -
  have "(0x10000 :: u64) \<noteq> 0" "granularity sample_ring_os \<noteq> 0" "0x10000 mod granularity sample_ring_os = 0"
    "descriptor_ptr sample_ring_os \<noteq> nullptr" "reserve sample_ring_os \<noteq> nullptr" "reserve sample_ring_os + 0x10000 \<noteq> nullptr"
    by (simp_all add: sample_ring_os_def)
  from ring_buffer_descriptor [OF this] show ?thesis by (auto simp: sample_ring_os_def)
qed

end
