(* ===== verification/Trace_Log.thy ===== *)
theory Trace_Log
  imports Usersim_Prelude
begin

text \<open>
  Trace events: the replacements of the trace logging macros in \<^verbatim>\<open>inc/TraceLoggingProvider.h\<close>, the function
  \<^verbatim>\<open>usersim_trace_logging_write\<close> of \<^verbatim>\<open>src/platform_user.cpp\<close> that walks their variable arguments, and the logging functions and
  macros of \<^verbatim>\<open>src/tracelog.c\<close> and \<^verbatim>\<open>src/tracelog.h\<close>.

  An argument is a value with the type it was passed with. Reading it with \<^verbatim>\<open>va_arg\<close> at another type, or reading
  beyond the last one, is undefined behaviour in C and \<open>Inl Out_Of_Bounds\<close> here. The text that the operating system
  or the C library gives for a GUID, an address or a wide string is a parameter.
\<close>

unbundle bit_operations_syntax

section \<open>Arguments\<close>

datatype va_slot =
    VInt u32
  | VInt64 u64
  | Str string
  | Counted string
  | Wide_Str "u16 list"
  | Guid "128 word"
  | Address ptr
  | In6_Addr "128 word"

text \<open>\<open>uuid_text\<close> is \<open>None\<close> where \<^verbatim>\<open>UuidToStringA\<close> fails.\<close>

record va_text =
  uuid_text :: "128 word \<Rightarrow> string option"
  ipv4_text :: "u32 \<Rightarrow> string"
  ipv6_text :: "128 word \<Rightarrow> string"
  wide_text :: "u16 list \<Rightarrow> string"

datatype usersim_tlg_type =
    tlgLevel | tlgKeyword | tlgOpcode | tlgCountedUtf8String | tlgPsz | tlgPwsz | tlgPointer | tlgUInt64 | tlgUInt32
  | tlgUInt16 | tlgIPv4Address | tlgNTStatus | tlgWinError | tlgInt32 | tlgLong | tlgBool | tlgGuid | tlgIPv6Address | tlgBinary

definition tlg_types :: "usersim_tlg_type list" where
  "tlg_types = [tlgLevel, tlgKeyword, tlgOpcode, tlgCountedUtf8String, tlgPsz, tlgPwsz, tlgPointer, tlgUInt64, tlgUInt32,
     tlgUInt16, tlgIPv4Address, tlgNTStatus, tlgWinError, tlgInt32, tlgLong, tlgBool, tlgGuid, tlgIPv6Address, tlgBinary]"

definition tlg_of :: "u32 \<Rightarrow> usersim_tlg_type option" where
  "tlg_of w = (if unat w < length tlg_types then Some (tlg_types ! unat w) else None)"

fun tlg_code :: "usersim_tlg_type \<Rightarrow> u32" where
  "tlg_code tlgLevel = 0"
| "tlg_code tlgKeyword = 1"
| "tlg_code tlgOpcode = 2"
| "tlg_code tlgCountedUtf8String = 3"
| "tlg_code tlgPsz = 4"
| "tlg_code tlgPwsz = 5"
| "tlg_code tlgPointer = 6"
| "tlg_code tlgUInt64 = 7"
| "tlg_code tlgUInt32 = 8"
| "tlg_code tlgUInt16 = 9"
| "tlg_code tlgIPv4Address = 10"
| "tlg_code tlgNTStatus = 11"
| "tlg_code tlgWinError = 12"
| "tlg_code tlgInt32 = 13"
| "tlg_code tlgLong = 14"
| "tlg_code tlgBool = 15"
| "tlg_code tlgGuid = 16"
| "tlg_code tlgIPv6Address = 17"
| "tlg_code tlgBinary = 18"

section \<open>Writing an event\<close>

definition quoted :: "string \<Rightarrow> string" where
  "quoted s = CHR '','' # CHR 0x22 # s @ [CHR 0x22]"

definition signed_str :: "u32 \<Rightarrow> string" where
  "signed_str w = (if sint w < 0 then CHR ''-'' # num_str 10 (nat (- sint w)) else num_str 10 (nat (sint w)))"

definition upper_digit :: "nat \<Rightarrow> char" where
  "upper_digit d = (char_of (if d < 10 then 48 + d else 55 + d) :: char)"

text \<open>\<^verbatim>\<open>%p\<close>: sixteen digits.\<close>

definition pointer_str :: "ptr \<Rightarrow> string" where
  "pointer_str p = map (\<lambda>k. upper_digit (unat p div 16 ^ (15 - k) mod 16)) [0..<16]"

text \<open>
  What \<^verbatim>\<open>va_arg(valist, type)\<close> and the \<^verbatim>\<open>printf\<close> after it write for the first argument of a field, \<open>None\<close> if the argument
  has another type. The types without a format are those that \<^verbatim>\<open>usersim_trace_logging_write\<close> reads in other ways.
\<close>

definition int_text :: "(u32 \<Rightarrow> string) \<Rightarrow> va_slot \<Rightarrow> string option" where
  "int_text fmt x = (case x of VInt w \<Rightarrow> Some (fmt w) | _ \<Rightarrow> None)"

definition value_text :: "va_text \<Rightarrow> usersim_tlg_type \<Rightarrow> va_slot \<Rightarrow> string option" where
  "value_text e ty x =
     (case ty of
        tlgPsz \<Rightarrow> (case x of Str s \<Rightarrow> Some (quoted s) | _ \<Rightarrow> None)
      | tlgPwsz \<Rightarrow> (case x of Wide_Str s \<Rightarrow> Some (quoted (wide_text e s)) | _ \<Rightarrow> None)
      | tlgPointer \<Rightarrow> (case x of Address p \<Rightarrow> Some (CHR '','' # pointer_str p) | _ \<Rightarrow> None)
      | tlgUInt64 \<Rightarrow> (case x of VInt64 w \<Rightarrow> Some (CHR '','' # num_str 10 (unat w)) | _ \<Rightarrow> None)
      | tlgUInt32 \<Rightarrow> int_text (\<lambda>w. CHR '','' # num_str 10 (unat w)) x
      | tlgUInt16 \<Rightarrow> int_text (\<lambda>w. CHR '','' # num_str 10 (unat (ucast w :: u16))) x
      | tlgNTStatus \<Rightarrow> int_text (\<lambda>w. CHR '','' # num_str 16 (unat w)) x
      | tlgWinError \<Rightarrow> int_text (\<lambda>w. CHR '','' # signed_str w) x
      | tlgInt32 \<Rightarrow> int_text (\<lambda>w. CHR '','' # signed_str w) x
      | tlgLong \<Rightarrow> int_text (\<lambda>w. CHR '','' # signed_str w) x
      | tlgBool \<Rightarrow> int_text (\<lambda>w. CHR '','' # signed_str w) x
      | tlgGuid \<Rightarrow> (case x of Guid g \<Rightarrow> Some (case uuid_text e g of None \<Rightarrow> [] | Some s \<Rightarrow> CHR '','' # s) | _ \<Rightarrow> None)
      | tlgIPv4Address \<Rightarrow> int_text (\<lambda>w. quoted (ipv4_text e w)) x
      | tlgIPv6Address \<Rightarrow> (case x of In6_Addr a \<Rightarrow> Some (quoted (ipv6_text e a)) | _ \<Rightarrow> None)
      | _ \<Rightarrow> None)"

text \<open>The loop over the remaining arguments of a field, all of them \<^verbatim>\<open>const char*\<close>.\<close>

fun va_strings :: "nat \<Rightarrow> va_slot list \<Rightarrow> (string \<times> va_slot list) result" where
  "va_strings 0 xs = Inr ([], xs)"
| "va_strings (Suc n) (Str s # xs) =
     (case va_strings n xs of Inl e \<Rightarrow> Inl e | Inr (t, r) \<Rightarrow> Inr (quoted s @ t, r))"
| "va_strings (Suc n) _ = Inl Out_Of_Bounds"

text \<open>\<^verbatim>\<open>HANDLE_VARIABLE_TYPE\<close>, and the cases for GUIDs and addresses, which have its shape: the new \<^verbatim>\<open>i\<close>, the text and the rest.\<close>

fun handle_variable_type :: "va_text \<Rightarrow> usersim_tlg_type \<Rightarrow> u64 \<Rightarrow> va_slot list \<Rightarrow> (u64 \<times> string \<times> va_slot list) result" where
  "handle_variable_type e ty i (VInt cnt # xs) =
     (case (if sint cnt > 0
            then case xs of
                   [] \<Rightarrow> Inl Out_Of_Bounds
                 | x # ys \<Rightarrow> (case value_text e ty x of None \<Rightarrow> Inl Out_Of_Bounds | Some t \<Rightarrow> Inr (t, ys))
            else Inr ([], xs)) of
        Inl x \<Rightarrow> Inl x
      | Inr (t1, ys) \<Rightarrow>
          (case va_strings (nat (sint cnt - 1)) ys of
             Inl x \<Rightarrow> Inl x
           | Inr (t2, zs) \<Rightarrow> Inr (i + 1 + scast cnt, t1 @ t2, zs)))"
| "handle_variable_type e ty i _ = Inl Out_Of_Bounds"

text \<open>The case of a counted string: a negative size makes the constructor of \<^verbatim>\<open>std::string\<close> throw.\<close>

fun handle_counted :: "u64 \<Rightarrow> va_slot list \<Rightarrow> (u64 \<times> string \<times> va_slot list) result" where
  "handle_counted i (Counted s # VInt sz # xs) =
     (if sint sz < 0 then Inl (Runtime_Error ''string too long'')
      else if length s < nat (sint sz) then Inl Out_Of_Bounds
      else case xs of
             VInt cnt # ys \<Rightarrow>
               (case va_strings (nat (sint cnt)) ys of
                  Inl x \<Rightarrow> Inl x
                | Inr (t, zs) \<Rightarrow>
                    Inr (i + 3 + scast cnt, CHR '','' # takeWhile (\<lambda>c. c \<noteq> CHR 0x00) (take (nat (sint sz)) s) @ t, zs))
           | _ \<Rightarrow> Inl Out_Of_Bounds)"
| "handle_counted i _ = Inl Out_Of_Bounds"

text \<open>The body of the loop: the type of the item, and the switch over it.\<close>

fun trace_item :: "va_text \<Rightarrow> u64 \<Rightarrow> va_slot list \<Rightarrow> (u64 \<times> string \<times> va_slot list) result" where
  "trace_item e i (VInt w # xs) =
     (case tlg_of w of
        None \<Rightarrow> Inr (i, ''<type '' @ num_str 16 (unat w) @ ''>'', xs)
      | Some ty \<Rightarrow>
          if ty = tlgBinary then Inr (i, ''<type '' @ num_str 16 (unat w) @ ''>'', xs)
          else if ty \<in> {tlgLevel, tlgKeyword, tlgOpcode}
          then (case xs of VInt _ # ys \<Rightarrow> Inr (i + 1, [], ys) | _ \<Rightarrow> Inl Out_Of_Bounds)
          else if ty = tlgCountedUtf8String then handle_counted i xs
          else handle_variable_type e ty i xs)"
| "trace_item e i _ = Inl Out_Of_Bounds"

lemma va_strings_length: "va_strings n xs = Inr (t, r) \<Longrightarrow> length r \<le> length xs"
  by (induction n xs arbitrary: t r rule: va_strings.induct) (fastforce split: sum.splits)+

lemma handle_variable_length: "handle_variable_type e ty i xs = Inr (j, t, r) \<Longrightarrow> length r \<le> length xs"
  by (induction e ty i xs rule: handle_variable_type.induct)
    (auto split: sum.splits if_splits list.splits option.splits dest!: va_strings_length)

lemma handle_counted_length: "handle_counted i xs = Inr (j, t, r) \<Longrightarrow> length r \<le> length xs"
  by (induction i xs rule: handle_counted.induct)
    (auto split: sum.splits if_splits list.splits va_slot.splits dest!: va_strings_length)

lemma trace_item_length: "trace_item e i xs = Inr (j, t, r) \<Longrightarrow> length r < length xs"
  by (induction e i xs rule: trace_item.induct)
    (auto split: option.splits if_splits list.splits va_slot.splits dest!: handle_variable_length handle_counted_length)

text \<open>The loop. Every iteration reads at least one argument.\<close>

function trace_items :: "va_text \<Rightarrow> u64 \<Rightarrow> u64 \<Rightarrow> va_slot list \<Rightarrow> string result" where
  "trace_items e argc i xs =
     (if i < argc
      then case trace_item e i xs of
             Inl x \<Rightarrow> Inl x
           | Inr (j, t, ys) \<Rightarrow> (case trace_items e argc (j + 1) ys of Inl x \<Rightarrow> Inl x | Inr r \<Rightarrow> Inr (t @ r))
      else Inr [])"
  by pat_completeness auto
termination
  by (relation "measure (\<lambda>(e, argc, i, xs). length xs)") (auto dest: trace_item_length)

declare trace_items.simps [simp del]

record trace_state =
  trace_initiated :: bool
  logging_enabled :: bool
  event_level :: u8
  event_keyword :: u64

definition usersim_trace_logging_provider_enabled :: "u8 \<Rightarrow> u64 \<Rightarrow> trace_state \<Rightarrow> bool" where
  "usersim_trace_logging_provider_enabled lv kw s \<longleftrightarrow> lv \<le> event_level s \<and> event_keyword s AND kw \<noteq> 0"

definition usersim_trace_logging_set_enabled :: "bool \<Rightarrow> u8 \<Rightarrow> u64 \<Rightarrow> trace_state \<Rightarrow> trace_state" where
  "usersim_trace_logging_set_enabled enabled lv kw s =
     s\<lparr>logging_enabled := enabled, event_level := lv, event_keyword := kw\<rparr>"

definition usersim_trace_logging_write :: "va_text \<Rightarrow> trace_state \<Rightarrow> string \<Rightarrow> u64 \<Rightarrow> va_slot list \<Rightarrow> string result" where
  "usersim_trace_logging_write e s event_name argc xs =
     (if \<not> logging_enabled s then Inr []
      else case trace_items e argc 0 xs of
             Inl x \<Rightarrow> Inl x
           | Inr t \<Rightarrow> Inr (CHR ''{'' # event_name @ t @ [CHR ''}'', CHR 0x0A]))"

section \<open>The event macros\<close>

text \<open>
  \<^verbatim>\<open>USERSIM_VA_ARGC\<close>: the counting list ends at 22, and with more arguments than that the twenty-third one itself is taken for
  the count.
\<close>

definition USERSIM_VA_ARGC :: "va_slot list \<Rightarrow> va_slot" where
  "USERSIM_VA_ARGC xs = (if length xs \<le> 22 then VInt (of_nat (length xs)) else xs ! 22)"

text \<open>\<^verbatim>\<open>TraceLoggingWrite\<close>: the count becomes a \<^verbatim>\<open>size_t\<close>. An event whose count is no integer does not compile.\<close>

definition TraceLoggingWrite :: "va_text \<Rightarrow> trace_state \<Rightarrow> string \<Rightarrow> va_slot list list \<Rightarrow> string result" where
  "TraceLoggingWrite e s event_name items =
     (let xs = concat items
      in case USERSIM_VA_ARGC xs of
           VInt n \<Rightarrow> usersim_trace_logging_write e s event_name (scast n) xs
         | VInt64 n \<Rightarrow> usersim_trace_logging_write e s event_name n xs
         | _ \<Rightarrow> Inl Out_Of_Bounds)"

definition tlg_field :: "usersim_tlg_type \<Rightarrow> va_slot list \<Rightarrow> va_slot list" where
  "tlg_field ty args = VInt (tlg_code ty) # USERSIM_VA_ARGC args # args"

definition TraceLoggingLevel :: "u32 \<Rightarrow> va_slot list" where
  "TraceLoggingLevel lv = [VInt (tlg_code tlgLevel), VInt lv]"

definition TraceLoggingKeyword :: "u32 \<Rightarrow> va_slot list" where
  "TraceLoggingKeyword kw = [VInt (tlg_code tlgKeyword), VInt kw]"

definition TraceLoggingOpcode :: "u32 \<Rightarrow> va_slot list" where
  "TraceLoggingOpcode opcode = [VInt (tlg_code tlgOpcode), VInt opcode]"

definition TraceLoggingCountedUtf8String :: "string \<Rightarrow> u32 \<Rightarrow> va_slot list \<Rightarrow> va_slot list" where
  "TraceLoggingCountedUtf8String s n args =
     VInt (tlg_code tlgCountedUtf8String) # Counted s # VInt n # USERSIM_VA_ARGC args # args"

definition TraceLoggingBinary :: "ptr \<Rightarrow> u32 \<Rightarrow> va_slot list \<Rightarrow> va_slot list" where
  "TraceLoggingBinary p n args = VInt (tlg_code tlgBinary) # Address p # VInt n # USERSIM_VA_ARGC args # args"

definition TraceLoggingString :: "va_slot list \<Rightarrow> va_slot list" where "TraceLoggingString = tlg_field tlgPsz"
definition TraceLoggingWideString :: "va_slot list \<Rightarrow> va_slot list" where "TraceLoggingWideString = tlg_field tlgPwsz"
definition TraceLoggingNTStatus :: "va_slot list \<Rightarrow> va_slot list" where "TraceLoggingNTStatus = tlg_field tlgNTStatus"
definition TraceLoggingGuid :: "va_slot list \<Rightarrow> va_slot list" where "TraceLoggingGuid = tlg_field tlgGuid"
definition TraceLoggingUInt64 :: "va_slot list \<Rightarrow> va_slot list" where "TraceLoggingUInt64 = tlg_field tlgUInt64"
definition TraceLoggingUInt32 :: "va_slot list \<Rightarrow> va_slot list" where "TraceLoggingUInt32 = tlg_field tlgUInt32"
definition TraceLoggingInt32 :: "va_slot list \<Rightarrow> va_slot list" where "TraceLoggingInt32 = tlg_field tlgInt32"
definition TraceLoggingUInt16 :: "va_slot list \<Rightarrow> va_slot list" where "TraceLoggingUInt16 = tlg_field tlgUInt16"
definition TraceLoggingIPv4Address :: "va_slot list \<Rightarrow> va_slot list" where "TraceLoggingIPv4Address = tlg_field tlgIPv4Address"
definition TraceLoggingIPv6Address :: "va_slot list \<Rightarrow> va_slot list" where "TraceLoggingIPv6Address = tlg_field tlgIPv6Address"
definition TraceLoggingLong :: "va_slot list \<Rightarrow> va_slot list" where "TraceLoggingLong = tlg_field tlgLong"
definition TraceLoggingWinError :: "va_slot list \<Rightarrow> va_slot list" where "TraceLoggingWinError = tlg_field tlgWinError"
definition TraceLoggingPointer :: "va_slot list \<Rightarrow> va_slot list" where "TraceLoggingPointer = tlg_field tlgPointer"
definition TraceLoggingBool :: "va_slot list \<Rightarrow> va_slot list" where "TraceLoggingBool = tlg_field tlgBool"

section \<open>The logging functions\<close>

definition usersim_trace_initiate :: "u32 \<Rightarrow> trace_state \<Rightarrow> ntstatus \<times> trace_state" where
  "usersim_trace_initiate register_status s =
     (if trace_initiated s then (STATUS_SUCCESS, s)
      else if register_status \<noteq> 0 then (STATUS_NO_MEMORY, s)
      else (STATUS_SUCCESS, s\<lparr>trace_initiated := True\<rparr>))"

definition usersim_trace_terminate :: "trace_state \<Rightarrow> trace_state" where
  "usersim_trace_terminate s = (if trace_initiated s then s\<lparr>trace_initiated := False\<rparr> else s)"

text \<open>The enumerations of the keywords and the levels, with the values that C gives their members.\<close>

datatype usersim_tracelog_keyword_t =
    USERSIM_KEYWORD_FUNCTION_ENTRY_EXIT
  | USERSIM_KEYWORD_BASE
  | USERSIM_KEYWORD_ERROR
  | USERSIM_KEYWORD_EPOCH
  | USERSIM_KEYWORD_CORE
  | USERSIM_KEYWORD_LINK
  | USERSIM_KEYWORD_MAP
  | USERSIM_KEYWORD_PROGRAM
  | USERSIM_KEYWORD_API
  | USERSIM_KEYWORD_PRINTK
  | USERSIM_KEYWORD_NATIVE

fun keyword_code :: "usersim_tracelog_keyword_t \<Rightarrow> u32" where
  "keyword_code USERSIM_KEYWORD_FUNCTION_ENTRY_EXIT = 0"
| "keyword_code USERSIM_KEYWORD_BASE = 1"
| "keyword_code USERSIM_KEYWORD_ERROR = 2"
| "keyword_code USERSIM_KEYWORD_EPOCH = 3"
| "keyword_code USERSIM_KEYWORD_CORE = 4"
| "keyword_code USERSIM_KEYWORD_LINK = 5"
| "keyword_code USERSIM_KEYWORD_MAP = 6"
| "keyword_code USERSIM_KEYWORD_PROGRAM = 7"
| "keyword_code USERSIM_KEYWORD_API = 8"
| "keyword_code USERSIM_KEYWORD_PRINTK = 9"
| "keyword_code USERSIM_KEYWORD_NATIVE = 10"

datatype usersim_tracelog_level_t =
    USERSIM_LEVEL_LOG_ALWAYS
  | USERSIM_LEVEL_CRITICAL
  | USERSIM_LEVEL_ERROR
  | USERSIM_LEVEL_WARNING
  | USERSIM_LEVEL_INFO
  | USERSIM_LEVEL_VERBOSE

fun level_code :: "usersim_tracelog_level_t \<Rightarrow> u32" where
  "level_code USERSIM_LEVEL_LOG_ALWAYS = 0"
| "level_code USERSIM_LEVEL_CRITICAL = 1"
| "level_code USERSIM_LEVEL_ERROR = 2"
| "level_code USERSIM_LEVEL_WARNING = 3"
| "level_code USERSIM_LEVEL_INFO = 4"
| "level_code USERSIM_LEVEL_VERBOSE = 5"

text \<open>The cases of the switches over the keyword and the level: the value of the enumeration and the constant that is logged.\<close>

definition keyword_cases :: "(u32 \<times> u32) list" where
  "keyword_cases = [(0, 0x1), (1, 0x2), (2, 0x4), (3, 0x8), (4, 0x10), (5, 0x20), (6, 0x40), (7, 0x80), (8, 0x100), (9, 0x200), (10, 0x400)]"

definition keyword_switch :: "u32 \<Rightarrow> (u32 \<Rightarrow> string result) \<Rightarrow> string result" where
  "keyword_switch kw body = (case map_of keyword_cases kw of Some v \<Rightarrow> body v | None \<Rightarrow> Inr [])"

abbreviation WINEVENT_LEVEL_ERROR :: u32 where "WINEVENT_LEVEL_ERROR \<equiv> 2"
abbreviation WINEVENT_LEVEL_INFO :: u32 where "WINEVENT_LEVEL_INFO \<equiv> 4"
abbreviation WINEVENT_LEVEL_VERBOSE :: u32 where "WINEVENT_LEVEL_VERBOSE \<equiv> 5"

definition level_cases :: "(u32 \<times> u32) list" where
  "level_cases = [(0, 0), (1, 1), (2, 2), (3, 3), (4, 4), (5, 5)]"

definition level_switch :: "u32 \<Rightarrow> u32 \<Rightarrow> (u32 \<Rightarrow> u32 \<Rightarrow> string result) \<Rightarrow> string result" where
  "level_switch lv kw body = (case map_of level_cases lv of Some l \<Rightarrow> keyword_switch kw (body l) | None \<Rightarrow> Inr [])"

abbreviation EVENT_GENERIC_MESSAGE :: string where "EVENT_GENERIC_MESSAGE \<equiv> ''UsersimGenericMessage''"
abbreviation EVENT_GENERIC_ERROR :: string where "EVENT_GENERIC_ERROR \<equiv> ''UsersimGenericError''"
abbreviation EVENT_API_ERROR :: string where "EVENT_API_ERROR \<equiv> ''UsersimApiError''"
abbreviation EVENT_SUCCESS :: string where "EVENT_SUCCESS \<equiv> ''UsersimSuccess''"
abbreviation EVENT_RETURN :: string where "EVENT_RETURN \<equiv> ''UsersimReturn''"

text \<open>The fields that every event starts with.\<close>

definition tlg_header :: "u32 \<Rightarrow> u32 \<Rightarrow> va_slot list list" where
  "tlg_header lv kw = [TraceLoggingLevel lv, TraceLoggingKeyword kw]"

definition usersim_log_ntstatus_api_failure :: "va_text \<Rightarrow> trace_state \<Rightarrow> u32 \<Rightarrow> string \<Rightarrow> ntstatus \<Rightarrow> string result" where
  "usersim_log_ntstatus_api_failure e s keyword api_name status =
     keyword_switch keyword (\<lambda>kw. TraceLoggingWrite e s EVENT_API_ERROR
       (tlg_header WINEVENT_LEVEL_ERROR kw @ [TraceLoggingString [Str api_name, Str ''Api''], TraceLoggingNTStatus [VInt status]]))"

definition usersim_log_ntstatus_api_failure_message ::
  "va_text \<Rightarrow> trace_state \<Rightarrow> u32 \<Rightarrow> string \<Rightarrow> ntstatus \<Rightarrow> string \<Rightarrow> string result" where
  "usersim_log_ntstatus_api_failure_message e s keyword api_name status message =
     keyword_switch keyword (\<lambda>kw. TraceLoggingWrite e s EVENT_API_ERROR
       (tlg_header WINEVENT_LEVEL_ERROR kw @
        [TraceLoggingString [Str api_name, Str ''api''], TraceLoggingNTStatus [VInt status],
         TraceLoggingString [Str message, Str ''Message'']]))"

text \<open>The events of the message functions differ in the fields after the message.\<close>

definition log_message_event :: "va_text \<Rightarrow> trace_state \<Rightarrow> u32 \<Rightarrow> u32 \<Rightarrow> string \<Rightarrow> va_slot list list \<Rightarrow> string result" where
  "log_message_event e s trace_level keyword message items =
     level_switch trace_level keyword (\<lambda>lv kw. TraceLoggingWrite e s EVENT_GENERIC_MESSAGE
       (tlg_header lv kw @ TraceLoggingString [Str message, Str ''Message''] # items))"

definition usersim_log_message :: "va_text \<Rightarrow> trace_state \<Rightarrow> u32 \<Rightarrow> u32 \<Rightarrow> string \<Rightarrow> string result" where
  "usersim_log_message e s trace_level keyword message = log_message_event e s trace_level keyword message []"

definition usersim_log_message_string :: "va_text \<Rightarrow> trace_state \<Rightarrow> u32 \<Rightarrow> u32 \<Rightarrow> string \<Rightarrow> string \<Rightarrow> string result" where
  "usersim_log_message_string e s trace_level keyword message string_value =
     log_message_event e s trace_level keyword message [TraceLoggingString [Str string_value, Str ''string_value'']]"

text \<open>The length of a UTF-8 string is a \<^verbatim>\<open>size_t\<close> that is cut to an \<^verbatim>\<open>unsigned long\<close>.\<close>

definition usersim_log_message_utf8_string ::
  "va_text \<Rightarrow> trace_state \<Rightarrow> u32 \<Rightarrow> u32 \<Rightarrow> string \<Rightarrow> string \<times> u64 \<Rightarrow> string result" where
  "usersim_log_message_utf8_string e s trace_level keyword message str =
     log_message_event e s trace_level keyword message
       [TraceLoggingCountedUtf8String (fst str) (ucast (snd str)) [Str ''string'']]"

definition usersim_log_message_wstring :: "va_text \<Rightarrow> trace_state \<Rightarrow> u32 \<Rightarrow> u32 \<Rightarrow> string \<Rightarrow> u16 list \<Rightarrow> string result" where
  "usersim_log_message_wstring e s trace_level keyword message wstring =
     log_message_event e s trace_level keyword message [TraceLoggingWideString [Wide_Str wstring, Str ''wstring'']]"

definition usersim_log_message_guid_guid_string ::
  "va_text \<Rightarrow> trace_state \<Rightarrow> u32 \<Rightarrow> u32 \<Rightarrow> string \<Rightarrow> string \<Rightarrow> 128 word \<Rightarrow> 128 word \<Rightarrow> string result" where
  "usersim_log_message_guid_guid_string e s trace_level keyword message str guid1 guid2 =
     log_message_event e s trace_level keyword message
       [TraceLoggingString [Str str, Str ''string''], TraceLoggingGuid [Guid guid1, Str ''*guid1''],
        TraceLoggingGuid [Guid guid2, Str ''*guid2'']]"

definition usersim_log_message_guid_guid ::
  "va_text \<Rightarrow> trace_state \<Rightarrow> u32 \<Rightarrow> u32 \<Rightarrow> string \<Rightarrow> 128 word \<Rightarrow> 128 word \<Rightarrow> string result" where
  "usersim_log_message_guid_guid e s trace_level keyword message guid1 guid2 =
     log_message_event e s trace_level keyword message
       [TraceLoggingGuid [Guid guid1, Str ''*guid1''], TraceLoggingGuid [Guid guid2, Str ''*guid2'']]"

definition usersim_log_message_guid :: "va_text \<Rightarrow> trace_state \<Rightarrow> u32 \<Rightarrow> u32 \<Rightarrow> string \<Rightarrow> 128 word \<Rightarrow> string result" where
  "usersim_log_message_guid e s trace_level keyword message guid =
     log_message_event e s trace_level keyword message [TraceLoggingGuid [Guid guid, Str ''*guid'']]"

definition usersim_log_message_ntstatus :: "va_text \<Rightarrow> trace_state \<Rightarrow> u32 \<Rightarrow> u32 \<Rightarrow> string \<Rightarrow> ntstatus \<Rightarrow> string result" where
  "usersim_log_message_ntstatus e s trace_level keyword message status =
     log_message_event e s trace_level keyword message [TraceLoggingNTStatus [VInt status]]"

definition usersim_log_message_uint64 :: "va_text \<Rightarrow> trace_state \<Rightarrow> u32 \<Rightarrow> u32 \<Rightarrow> string \<Rightarrow> u64 \<Rightarrow> string result" where
  "usersim_log_message_uint64 e s trace_level keyword message value =
     log_message_event e s trace_level keyword message [TraceLoggingUInt64 [VInt64 value, Str ''value'']]"

definition usersim_log_message_uint64_uint64 ::
  "va_text \<Rightarrow> trace_state \<Rightarrow> u32 \<Rightarrow> u32 \<Rightarrow> string \<Rightarrow> u64 \<Rightarrow> u64 \<Rightarrow> string result" where
  "usersim_log_message_uint64_uint64 e s trace_level keyword message value1 value2 =
     log_message_event e s trace_level keyword message
       [TraceLoggingUInt64 [VInt64 value1, Str ''value1''], TraceLoggingUInt64 [VInt64 value2, Str ''value2'']]"

definition usersim_log_message_error :: "va_text \<Rightarrow> trace_state \<Rightarrow> u32 \<Rightarrow> u32 \<Rightarrow> string \<Rightarrow> ntstatus \<Rightarrow> string result" where
  "usersim_log_message_error e s trace_level keyword message err =
     log_message_event e s trace_level keyword message [TraceLoggingWinError [VInt err]]"

definition usersim_log_ntstatus_wstring_api :: "va_text \<Rightarrow> trace_state \<Rightarrow> u32 \<Rightarrow> u16 list \<Rightarrow> string \<Rightarrow> ntstatus \<Rightarrow> string result" where
  "usersim_log_ntstatus_wstring_api e s keyword wstring api status =
     keyword_switch keyword (\<lambda>kw. TraceLoggingWrite e s EVENT_API_ERROR
       (tlg_header WINEVENT_LEVEL_INFO kw @
        [TraceLoggingWideString [Wide_Str wstring, Str ''Message''], TraceLoggingString [Str api, Str ''Api''],
         TraceLoggingNTStatus [VInt status]]))"

text \<open>
  Every member of the two enumerations has a case: the constant of a keyword is the bit at its position, and the case of a level is labelled with the constant
  itself, which works because each level constant of the operating system equals the position of its member.
\<close>

lemma keyword_case: "map_of keyword_cases (keyword_code k) = Some (push_bit (unat (keyword_code k)) 1)"
  by (cases k) (simp_all add: keyword_cases_def)

lemma level_case: "map_of level_cases (level_code l) = Some (level_code l)"
  by (cases l) (simp_all add: level_cases_def)

lemma keyword_bits_disjoint: "k \<noteq> k' \<Longrightarrow> (push_bit (unat (keyword_code k)) 1 :: u32) AND push_bit (unat (keyword_code k')) 1 = 0"
  by (cases k; cases k') simp_all

section \<open>The logging macros\<close>

text \<open>
  A macro gets a constant such as \<^verbatim>\<open>USERSIM_TRACELOG_KEYWORD_BASE\<close> and pastes an underscore to its name for the value of the
  enumeration. \<open>lv\<close> and \<open>kw\<close> are the values of the enumeration here, and \<open>keyword_value\<close> and \<open>lv\<close> those of the constants.
\<close>

definition keyword_value :: "u32 \<Rightarrow> u64" where
  "keyword_value kw = (case map_of keyword_cases kw of Some v \<Rightarrow> ucast v | None \<Rightarrow> 0)"

definition when_enabled :: "u8 \<Rightarrow> u64 \<Rightarrow> trace_state \<Rightarrow> string result \<Rightarrow> string result" where
  "when_enabled lv kw s event = (if usersim_trace_logging_provider_enabled lv kw s then event else Inr [])"

definition USERSIM_LOG_FUNCTION_SUCCESS :: "va_text \<Rightarrow> trace_state \<Rightarrow> string \<Rightarrow> string result" where
  "USERSIM_LOG_FUNCTION_SUCCESS e s function_name =
     when_enabled 5 0x2 s (TraceLoggingWrite e s EVENT_SUCCESS
       (tlg_header WINEVENT_LEVEL_VERBOSE 0x2 @ [TraceLoggingString [Str (function_name @ '' returned success''), Str ''Message'']]))"

definition USERSIM_LOG_FUNCTION_ERROR :: "va_text \<Rightarrow> trace_state \<Rightarrow> string \<Rightarrow> u32 \<Rightarrow> string result" where
  "USERSIM_LOG_FUNCTION_ERROR e s function_name r =
     when_enabled 5 0x2 s (TraceLoggingWrite e s EVENT_GENERIC_ERROR
       (tlg_header WINEVENT_LEVEL_ERROR 0x2 @
        [TraceLoggingString [Str (function_name @ '' returned error''), Str ''ErrorMessage''],
         TraceLoggingLong [VInt r, Str ''Error'']]))"

definition USERSIM_LOG_ENTRY :: "va_text \<Rightarrow> trace_state \<Rightarrow> string \<Rightarrow> string result" where
  "USERSIM_LOG_ENTRY e s function_name =
     when_enabled 5 0x1 s (TraceLoggingWrite e s EVENT_GENERIC_MESSAGE
       (tlg_header WINEVENT_LEVEL_VERBOSE 0x1 @ [TraceLoggingOpcode 1, TraceLoggingString [Str function_name, Str ''Entry'']]))"

definition USERSIM_LOG_EXIT :: "va_text \<Rightarrow> trace_state \<Rightarrow> string \<Rightarrow> string result" where
  "USERSIM_LOG_EXIT e s function_name =
     when_enabled 5 0x1 s (TraceLoggingWrite e s EVENT_GENERIC_MESSAGE
       (tlg_header WINEVENT_LEVEL_VERBOSE 0x1 @ [TraceLoggingOpcode 2, TraceLoggingString [Str function_name, Str ''Exit'']]))"

text \<open>The macros that return: what they print, and the value.\<close>

definition USERSIM_RETURN_VOID :: "va_text \<Rightarrow> trace_state \<Rightarrow> string \<Rightarrow> string result" where
  "USERSIM_RETURN_VOID e s function_name = USERSIM_LOG_EXIT e s function_name"

definition USERSIM_RETURN_RESULT :: "va_text \<Rightarrow> trace_state \<Rightarrow> string \<Rightarrow> ntstatus \<Rightarrow> (string \<times> ntstatus) result" where
  "USERSIM_RETURN_RESULT e s function_name status =
     (case (if status = STATUS_SUCCESS then USERSIM_LOG_FUNCTION_SUCCESS e s function_name
            else USERSIM_LOG_FUNCTION_ERROR e s function_name status) of
        Inl x \<Rightarrow> Inl x | Inr t \<Rightarrow> Inr (t, status))"

definition USERSIM_RETURN_ERROR :: "va_text \<Rightarrow> trace_state \<Rightarrow> string \<Rightarrow> u32 \<Rightarrow> (string \<times> u32) result" where
  "USERSIM_RETURN_ERROR e s function_name err =
     (case (if err = 0 then USERSIM_LOG_FUNCTION_SUCCESS e s function_name else USERSIM_LOG_FUNCTION_ERROR e s function_name err) of
        Inl x \<Rightarrow> Inl x | Inr t \<Rightarrow> Inr (t, err))"

definition USERSIM_RETURN_NTSTATUS :: "va_text \<Rightarrow> trace_state \<Rightarrow> string \<Rightarrow> ntstatus \<Rightarrow> (string \<times> ntstatus) result" where
  "USERSIM_RETURN_NTSTATUS e s function_name status =
     (case (if NT_SUCCESS status then USERSIM_LOG_FUNCTION_SUCCESS e s function_name
            else USERSIM_LOG_FUNCTION_ERROR e s function_name status) of
        Inl x \<Rightarrow> Inl x | Inr t \<Rightarrow> Inr (t, status))"

definition return_event :: "va_text \<Rightarrow> trace_state \<Rightarrow> string \<Rightarrow> va_slot list \<Rightarrow> string result" where
  "return_event e s function_name field =
     TraceLoggingWrite e s EVENT_RETURN
       (tlg_header WINEVENT_LEVEL_VERBOSE 0x2 @ [TraceLoggingString [Str (function_name @ '' returned'')], field])"

definition USERSIM_RETURN_POINTER :: "va_text \<Rightarrow> trace_state \<Rightarrow> string \<Rightarrow> string \<Rightarrow> ptr \<Rightarrow> (string \<times> ptr) result" where
  "USERSIM_RETURN_POINTER e s function_name expr p =
     (case return_event e s function_name (TraceLoggingPointer [Address p, Str expr]) of Inl x \<Rightarrow> Inl x | Inr t \<Rightarrow> Inr (t, p))"

definition USERSIM_RETURN_BOOL :: "va_text \<Rightarrow> trace_state \<Rightarrow> string \<Rightarrow> string \<Rightarrow> bool \<Rightarrow> (string \<times> bool) result" where
  "USERSIM_RETURN_BOOL e s function_name expr b =
     (case return_event e s function_name (TraceLoggingBool [VInt (if b then 1 else 0), Str expr]) of
        Inl x \<Rightarrow> Inl x | Inr t \<Rightarrow> Inr (t, b))"

definition USERSIM_RETURN_FD :: "va_text \<Rightarrow> trace_state \<Rightarrow> string \<Rightarrow> string \<Rightarrow> u32 \<Rightarrow> (string \<times> u32) result" where
  "USERSIM_RETURN_FD e s function_name expr fd =
     (case return_event e s function_name (TraceLoggingInt32 [VInt fd, Str expr]) of Inl x \<Rightarrow> Inl x | Inr t \<Rightarrow> Inr (t, fd))"

definition win32_failure_event :: "va_text \<Rightarrow> trace_state \<Rightarrow> u32 \<Rightarrow> va_slot list list \<Rightarrow> string \<Rightarrow> u32 \<Rightarrow> string result" where
  "win32_failure_event e s kw items api last_error =
     TraceLoggingWrite e s EVENT_API_ERROR
       (tlg_header WINEVENT_LEVEL_ERROR kw @ items @ [TraceLoggingString [Str api, Str ''Api''], TraceLoggingWinError [VInt last_error]])"

definition USERSIM_LOG_WIN32_API_FAILURE :: "va_text \<Rightarrow> trace_state \<Rightarrow> u32 \<Rightarrow> string \<Rightarrow> u32 \<Rightarrow> string result" where
  "USERSIM_LOG_WIN32_API_FAILURE e s kw api last_error = win32_failure_event e s kw [] api last_error"

definition USERSIM_LOG_WIN32_STRING_API_FAILURE :: "va_text \<Rightarrow> trace_state \<Rightarrow> u32 \<Rightarrow> string \<Rightarrow> string \<Rightarrow> u32 \<Rightarrow> string result" where
  "USERSIM_LOG_WIN32_STRING_API_FAILURE e s kw message api last_error =
     win32_failure_event e s kw [TraceLoggingString [Str message, Str ''Message'']] api last_error"

definition USERSIM_LOG_WIN32_WSTRING_API_FAILURE :: "va_text \<Rightarrow> trace_state \<Rightarrow> u32 \<Rightarrow> u16 list \<Rightarrow> string \<Rightarrow> u32 \<Rightarrow> string result" where
  "USERSIM_LOG_WIN32_WSTRING_API_FAILURE e s kw wstring api last_error =
     win32_failure_event e s kw [TraceLoggingWideString [Wide_Str wstring, Str ''Message'']] api last_error"

definition USERSIM_LOG_WIN32_GUID_API_FAILURE ::
  "va_text \<Rightarrow> trace_state \<Rightarrow> u32 \<Rightarrow> 128 word \<Rightarrow> string \<Rightarrow> string \<Rightarrow> u32 \<Rightarrow> string result" where
  "USERSIM_LOG_WIN32_GUID_API_FAILURE e s kw guid expr api last_error =
     win32_failure_event e s kw [TraceLoggingGuid [Guid guid, Str expr]] api last_error"

definition USERSIM_LOG_MESSAGE_POINTER_ENUM ::
  "va_text \<Rightarrow> trace_state \<Rightarrow> u32 \<Rightarrow> u32 \<Rightarrow> string \<Rightarrow> ptr \<Rightarrow> string \<Rightarrow> u32 \<Rightarrow> string \<Rightarrow> string result" where
  "USERSIM_LOG_MESSAGE_POINTER_ENUM e s lv kw message p p_expr n n_expr =
     TraceLoggingWrite e s EVENT_GENERIC_MESSAGE
       (tlg_header lv kw @
        [TraceLoggingString [Str message, Str ''Message''], TraceLoggingPointer [Address p, Str p_expr],
         TraceLoggingUInt32 [VInt n, Str n_expr]])"

definition USERSIM_LOG_MESSAGE :: "va_text \<Rightarrow> trace_state \<Rightarrow> u32 \<Rightarrow> u32 \<Rightarrow> string \<Rightarrow> string result" where
  "USERSIM_LOG_MESSAGE e s lv kw message =
     when_enabled (ucast lv) (keyword_value kw) s (usersim_log_message e s lv kw message)"

definition USERSIM_LOG_MESSAGE_UINT64 :: "va_text \<Rightarrow> trace_state \<Rightarrow> u32 \<Rightarrow> u32 \<Rightarrow> string \<Rightarrow> u64 \<Rightarrow> string result" where
  "USERSIM_LOG_MESSAGE_UINT64 e s lv kw message value =
     when_enabled (ucast lv) (keyword_value kw) s (usersim_log_message_uint64 e s lv kw message value)"

definition USERSIM_LOG_NTSTATUS_API_FAILURE :: "va_text \<Rightarrow> trace_state \<Rightarrow> u32 \<Rightarrow> string \<Rightarrow> ntstatus \<Rightarrow> string result" where
  "USERSIM_LOG_NTSTATUS_API_FAILURE e s kw api status =
     when_enabled 0 (keyword_value kw) s (usersim_log_ntstatus_api_failure e s kw api status)"

definition USERSIM_LOG_NTSTATUS_API_FAILURE_MESSAGE ::
  "va_text \<Rightarrow> trace_state \<Rightarrow> u32 \<Rightarrow> string \<Rightarrow> ntstatus \<Rightarrow> string \<Rightarrow> string result" where
  "USERSIM_LOG_NTSTATUS_API_FAILURE_MESSAGE e s kw api status message =
     when_enabled 0 (keyword_value kw) s (usersim_log_ntstatus_api_failure_message e s kw api status message)"

definition USERSIM_LOG_NTSTATUS_WSTRING_API :: "va_text \<Rightarrow> trace_state \<Rightarrow> u32 \<Rightarrow> u16 list \<Rightarrow> string \<Rightarrow> ntstatus \<Rightarrow> string result" where
  "USERSIM_LOG_NTSTATUS_WSTRING_API e s kw wstring api status =
     when_enabled 0 (keyword_value kw) s (usersim_log_ntstatus_wstring_api e s kw wstring api status)"

definition USERSIM_LOG_MESSAGE_STRING :: "va_text \<Rightarrow> trace_state \<Rightarrow> u32 \<Rightarrow> u32 \<Rightarrow> string \<Rightarrow> string \<Rightarrow> string result" where
  "USERSIM_LOG_MESSAGE_STRING e s lv kw message value =
     when_enabled (ucast lv) (keyword_value kw) s (usersim_log_message_string e s lv kw message value)"

definition USERSIM_LOG_MESSAGE_UTF8_STRING ::
  "va_text \<Rightarrow> trace_state \<Rightarrow> u32 \<Rightarrow> u32 \<Rightarrow> string \<Rightarrow> string \<times> u64 \<Rightarrow> string result" where
  "USERSIM_LOG_MESSAGE_UTF8_STRING e s lv kw message value =
     when_enabled (ucast lv) (keyword_value kw) s (usersim_log_message_utf8_string e s lv kw message value)"

definition USERSIM_LOG_MESSAGE_NTSTATUS :: "va_text \<Rightarrow> trace_state \<Rightarrow> u32 \<Rightarrow> u32 \<Rightarrow> string \<Rightarrow> ntstatus \<Rightarrow> string result" where
  "USERSIM_LOG_MESSAGE_NTSTATUS e s lv kw message status =
     when_enabled (ucast lv) (keyword_value kw) s (usersim_log_message_ntstatus e s lv kw message status)"

definition USERSIM_LOG_MESSAGE_UINT64_UINT64 ::
  "va_text \<Rightarrow> trace_state \<Rightarrow> u32 \<Rightarrow> u32 \<Rightarrow> string \<Rightarrow> u64 \<Rightarrow> u64 \<Rightarrow> string result" where
  "USERSIM_LOG_MESSAGE_UINT64_UINT64 e s lv kw message value1 value2 =
     when_enabled (ucast lv) (keyword_value kw) s (usersim_log_message_uint64_uint64 e s lv kw message value1 value2)"

definition USERSIM_LOG_MESSAGE_ERROR :: "va_text \<Rightarrow> trace_state \<Rightarrow> u32 \<Rightarrow> u32 \<Rightarrow> string \<Rightarrow> ntstatus \<Rightarrow> string result" where
  "USERSIM_LOG_MESSAGE_ERROR e s lv kw message err =
     when_enabled (ucast lv) (keyword_value kw) s (usersim_log_message_error e s lv kw message err)"

definition USERSIM_LOG_MESSAGE_WSTRING :: "va_text \<Rightarrow> trace_state \<Rightarrow> u32 \<Rightarrow> u32 \<Rightarrow> string \<Rightarrow> u16 list \<Rightarrow> string result" where
  "USERSIM_LOG_MESSAGE_WSTRING e s lv kw message wstring =
     when_enabled (ucast lv) (keyword_value kw) s (usersim_log_message_wstring e s lv kw message wstring)"

definition USERSIM_LOG_MESSAGE_GUID_GUID_STRING ::
  "va_text \<Rightarrow> trace_state \<Rightarrow> u32 \<Rightarrow> u32 \<Rightarrow> string \<Rightarrow> string \<Rightarrow> 128 word \<Rightarrow> 128 word \<Rightarrow> string result" where
  "USERSIM_LOG_MESSAGE_GUID_GUID_STRING e s lv kw message str guid1 guid2 =
     when_enabled (ucast lv) (keyword_value kw) s (usersim_log_message_guid_guid_string e s lv kw message str guid1 guid2)"

definition USERSIM_LOG_MESSAGE_GUID_GUID ::
  "va_text \<Rightarrow> trace_state \<Rightarrow> u32 \<Rightarrow> u32 \<Rightarrow> string \<Rightarrow> 128 word \<Rightarrow> 128 word \<Rightarrow> string result" where
  "USERSIM_LOG_MESSAGE_GUID_GUID e s lv kw message guid1 guid2 =
     when_enabled (ucast lv) (keyword_value kw) s (usersim_log_message_guid_guid e s lv kw message guid1 guid2)"

definition USERSIM_LOG_MESSAGE_GUID :: "va_text \<Rightarrow> trace_state \<Rightarrow> u32 \<Rightarrow> u32 \<Rightarrow> string \<Rightarrow> 128 word \<Rightarrow> string result" where
  "USERSIM_LOG_MESSAGE_GUID e s lv kw message guid =
     when_enabled (ucast lv) (keyword_value kw) s (usersim_log_message_guid e s lv kw message guid)"

section \<open>What an event prints\<close>

text \<open>The fields of an event as their author means them, the arguments they become, and the text they should print.\<close>

datatype trace_field =
    F_Level u32
  | F_Keyword u32
  | F_Opcode u32
  | F_Counted string u32 "string list"
  | F_Value usersim_tlg_type va_slot "string list"

fun field_args :: "trace_field \<Rightarrow> va_slot list" where
  "field_args (F_Level l) = TraceLoggingLevel l"
| "field_args (F_Keyword k) = TraceLoggingKeyword k"
| "field_args (F_Opcode p) = TraceLoggingOpcode p"
| "field_args (F_Counted s n names) = TraceLoggingCountedUtf8String s n (map Str names)"
| "field_args (F_Value ty v names) = tlg_field ty (v # map Str names)"

fun field_text :: "va_text \<Rightarrow> trace_field \<Rightarrow> string" where
  "field_text e (F_Counted s n names) =
     CHR '','' # takeWhile (\<lambda>c. c \<noteq> CHR 0x00) (take (unat n) s) @ concat (map quoted names)"
| "field_text e (F_Value ty v names) = the (value_text e ty v) @ concat (map quoted names)"
| "field_text e _ = []"

fun field_ok :: "va_text \<Rightarrow> trace_field \<Rightarrow> bool" where
  "field_ok e (F_Counted s n names) \<longleftrightarrow> 0 \<le> sint n \<and> unat n \<le> length s"
| "field_ok e (F_Value ty v names) \<longleftrightarrow> value_text e ty v \<noteq> None"
| "field_ok e _ \<longleftrightarrow> True"

definition event_text :: "va_text \<Rightarrow> string \<Rightarrow> trace_field list \<Rightarrow> string" where
  "event_text e event_name fs = CHR ''{'' # event_name @ concat (map (field_text e) fs) @ [CHR ''}'', CHR 0x0A]"

lemma tlg_of_code [simp]: "tlg_of (tlg_code ty) = Some ty"
  by (cases ty) (simp_all add: tlg_of_def tlg_types_def)

declare tlg_code.simps [simp del]

lemma va_strings_names [simp]: "va_strings (length names) (map Str names @ xs) = Inr (concat (map quoted names), xs)"
  by (induction names) simp_all

lemma sint_small: "n < 2 ^ 31 \<Longrightarrow> sint (of_nat n :: u32) = int n"
  by (simp add: sint_uint unsigned_of_nat signed_take_bit_int_eq_self take_bit_nat_eq_self flip: of_nat_take_bit)

lemma scast_small: "n < 2 ^ 31 \<Longrightarrow> scast (of_nat n :: u32) = (of_nat n :: u64)"
  by (simp add: scast_eq sint_small)

lemma nat_sint: "0 \<le> sint (w :: u32) \<Longrightarrow> nat (sint w) = unat w"
  using sint_lt [of w] by (simp add: unat_eq_nat_uint uint_sint take_bit_int_eq_self)

lemma value_text_type:
  "value_text e ty v \<noteq> None \<Longrightarrow> ty \<notin> {tlgLevel, tlgKeyword, tlgOpcode, tlgCountedUtf8String, tlgBinary}"
  by (auto simp: value_text_def)

lemma trace_item_field:
  assumes "field_ok e f" and "length (field_args f) \<le> 22"
  shows "trace_item e i (field_args f @ xs) = Inr (i + of_nat (length (field_args f) - 1), field_text e f, xs)"
proof (cases f)
  case (F_Counted s n names)
  have n: "nat (sint n) = unat n" using assms(1) F_Counted by (simp add: nat_sint)
  have l: "length names \<le> 18" using assms(2) F_Counted by (simp add: TraceLoggingCountedUtf8String_def)
  then show ?thesis
    using assms(1) n F_Counted
    by (simp add: TraceLoggingCountedUtf8String_def USERSIM_VA_ARGC_def sint_small scast_small)
next
  case (F_Value ty v names)
  have l: "length names \<le> 19" using assms(2) F_Value by (simp add: tlg_field_def)
  have t: "ty \<notin> {tlgLevel, tlgKeyword, tlgOpcode, tlgCountedUtf8String, tlgBinary}"
    using assms(1) F_Value value_text_type [of e ty v] by simp
  have c: "sint (of_nat (Suc (length names)) :: u32) = int (Suc (length names))"
    "scast (of_nat (Suc (length names)) :: u32) = (of_nat (Suc (length names)) :: u64)"
    using l by (intro sint_small scast_small; simp)+
  have "nat (int (Suc (length names)) - 1) = length names" by simp
  then show ?thesis
    using assms(1) l t c F_Value of_nat_Suc [of "Suc (length names)", where 'a = u64]
    by (auto simp: tlg_field_def USERSIM_VA_ARGC_def simp del: of_nat_Suc)
qed (simp_all add: TraceLoggingLevel_def TraceLoggingKeyword_def TraceLoggingOpcode_def)

lemma trace_items_fields:
  assumes "list_all (field_ok e) fs" and "length (concat (map field_args fs)) \<le> 22 - k" and "k \<le> 22"
  shows "trace_items e (of_nat (k + length (concat (map field_args fs)))) (of_nat k) (concat (map field_args fs))
           = Inr (concat (map (field_text e) fs))"
  using assms
proof (induction fs arbitrary: k)
  case Nil
  then show ?case by (simp add: trace_items.simps)
next
  case (Cons f fs)
  let ?n = "length (field_args f)" and ?m = "length (concat (map field_args fs))"
  have f: "field_ok e f" "?n \<le> 22" and p: "0 < ?n"
    using Cons.prems by (auto simp: TraceLoggingLevel_def TraceLoggingKeyword_def TraceLoggingOpcode_def
        TraceLoggingCountedUtf8String_def tlg_field_def) (cases f; auto simp: TraceLoggingLevel_def
        TraceLoggingKeyword_def TraceLoggingOpcode_def TraceLoggingCountedUtf8String_def tlg_field_def)
  have b: "k + ?n + ?m \<le> 22" using Cons.prems by simp
  have lt: "(of_nat k :: u64) < of_nat (k + (?n + ?m))"
    using b p by (simp add: word_less_nat_alt unsigned_of_nat take_bit_nat_eq_self del: of_nat_add)
  have j: "(of_nat k :: u64) + (of_nat (?n - Suc 0) + 1) = of_nat (k + ?n)" using p by (cases ?n) (simp_all add: algebra_simps)
  have ih: "trace_items e (of_nat (k + ?n + ?m)) (of_nat (k + ?n)) (concat (map field_args fs)) = Inr (concat (map (field_text e) fs))"
    using Cons.prems by (intro Cons.IH) auto
  show ?case
    using lt ih trace_item_field [OF f, of "of_nat k" "concat (map field_args fs)"]
    by (subst trace_items.simps) (simp add: j add.assoc del: of_nat_add)
qed

lemma trace_event_printed_text:
  assumes "list_all (field_ok e) fs" and "length (concat (map field_args fs)) \<le> 22"
  shows "TraceLoggingWrite e s event_name (map field_args fs)
           = Inr (if logging_enabled s then event_text e event_name fs else [])"
proof -
  let ?xs = "concat (map field_args fs)"
  have "trace_items e (of_nat (length ?xs)) 0 ?xs = Inr (concat (map (field_text e) fs))"
    using trace_items_fields [of e fs 0] assms by simp
  then show ?thesis
    using assms(2)
    by (simp add: TraceLoggingWrite_def USERSIM_VA_ARGC_def scast_small usersim_trace_logging_write_def event_text_def
        del: length_concat)
qed

text \<open>
  C34: a trace event is printed field by field. For every list of fields whose arguments have the types their macros
  expect and which are at most 22 arguments together, the walk over the variable arguments ends exactly behind the last
  one, never reads an argument at a wrong type, and prints the name of the event, the value and the names of each field
  once and in order; while logging is off nothing is printed.
\<close>
theorem trace_event_printed:
  assumes "list_all (field_ok e) fs" and "length (concat (map field_args fs)) \<le> 22"
  shows "TraceLoggingWrite e s event_name (map field_args fs)
           = Inr (if logging_enabled s then event_text e event_name fs else [])"
  by (rule trace_event_printed_text [OF assms])

theorem trace_event_printed_witness:
  "TraceLoggingWrite \<lparr>uuid_text = \<lambda>_. None, ipv4_text = \<lambda>_. [], ipv6_text = \<lambda>_. [], wide_text = \<lambda>_. []\<rparr>
     \<lparr>trace_initiated = True, logging_enabled = True, event_level = 5, event_keyword = 1\<rparr> ''E''
     [TraceLoggingLevel 2, tlg_field tlgUInt32 [VInt 42, Str ''n''], TraceLoggingCountedUtf8String ''abc'' 2 []]
   = Inr ''{E,42,\"n\",ab}\<newline>''"
  using trace_event_printed [of
      "\<lparr>uuid_text = \<lambda>_. None, ipv4_text = \<lambda>_. [], ipv6_text = \<lambda>_. [], wide_text = \<lambda>_. []\<rparr>"
      "[F_Level 2, F_Value tlgUInt32 (VInt 42) [''n''], F_Counted ''abc'' 2 []]"
      "\<lparr>trace_initiated = True, logging_enabled = True, event_level = 5, event_keyword = 1\<rparr>" "''E''"]
  by (simp add: value_text_def int_text_def event_text_def quoted_def num_str.simps digit_char_def char_of_def bit_0 bit_Suc
      TraceLoggingLevel_def TraceLoggingCountedUtf8String_def tlg_field_def)

text \<open>A field of bytes has no case in the switch: its address is then read as the type of the next field.\<close>
lemma trace_binary_misread:
  assumes "logging_enabled s" and "length names \<le> 18"
  shows "TraceLoggingWrite e s event_name [TraceLoggingBinary p n (map Str names)] = Inl Out_Of_Bounds"
proof -
  let ?xs = "TraceLoggingBinary p n (map Str names)"
  have l: "length ?xs = 4 + length names" by (simp add: TraceLoggingBinary_def)
  have lt: "k < 4 \<Longrightarrow> (of_nat k :: u64) < of_nat (4 + length names)" for k
    using assms(2) by (simp add: word_less_nat_alt unsigned_of_nat take_bit_nat_eq_self del: of_nat_add)
  have "trace_items e (of_nat (length ?xs)) 0 ?xs = Inl Out_Of_Bounds"
    using lt [of 0] lt [of 1] unfolding l
    by (subst trace_items.simps, subst trace_items.simps) (simp add: TraceLoggingBinary_def)
  moreover have "USERSIM_VA_ARGC ?xs = VInt (of_nat (length ?xs))" using assms(2) l by (simp add: USERSIM_VA_ARGC_def)
  ultimately show ?thesis
    using assms l by (simp add: TraceLoggingWrite_def scast_small usersim_trace_logging_write_def del: of_nat_add)
qed

section \<open>What is logged\<close>

text \<open>The fields of the events of the logging functions, as values of \<open>trace_field\<close>.\<close>

lemma field_lists:
  "TraceLoggingLevel l = field_args (F_Level l)"
  "TraceLoggingKeyword k = field_args (F_Keyword k)"
  "TraceLoggingOpcode p = field_args (F_Opcode p)"
  "TraceLoggingCountedUtf8String t n [Str x] = field_args (F_Counted t n [x])"
  "tlg_field ty [v] = field_args (F_Value ty v [])"
  "tlg_field ty [v, Str x] = field_args (F_Value ty v [x])"
  by simp_all

lemmas macro_defs = TraceLoggingString_def TraceLoggingWideString_def TraceLoggingNTStatus_def TraceLoggingGuid_def
  TraceLoggingUInt64_def TraceLoggingUInt32_def TraceLoggingInt32_def TraceLoggingLong_def TraceLoggingWinError_def
  TraceLoggingPointer_def TraceLoggingBool_def

lemma field_args_length:
  "length (field_args f) = (case f of F_Counted t n names \<Rightarrow> 4 + length names | F_Value ty v names \<Rightarrow> 3 + length names | _ \<Rightarrow> 2)"
  by (cases f) (simp_all add: TraceLoggingLevel_def TraceLoggingKeyword_def TraceLoggingOpcode_def
      TraceLoggingCountedUtf8String_def tlg_field_def)

definition message_fields :: "string \<Rightarrow> trace_field list \<Rightarrow> trace_field list" where
  "message_fields message fs = F_Value tlgPsz (Str message) [''Message''] # fs"

lemma keyword_switch_known: "keyword_switch (of_nat k) body = (if k < 11 then body (2 ^ k) else Inr [])" if "k < 2 ^ 32"
proof -
  have "k \<in> {0, 1, 2, 3, 4, 5, 6, 7, 8, 9, 10} \<or> 11 \<le> k"
    unfolding insert_iff empty_iff by presburger
  then show ?thesis
  proof
    assume k: "11 \<le> k"
    have "map_of keyword_cases (of_nat k) = None"
      using k that
      by (simp add: keyword_cases_def word_unat_eq_iff unsigned_of_nat take_bit_nat_eq_self)
    then show ?thesis using k by (simp add: keyword_switch_def)
  qed (auto simp: keyword_switch_def keyword_cases_def)
qed

lemma level_switch_known:
  assumes "l < 6" and "k < 11"
  shows "level_switch (of_nat l) (of_nat k) body = body (of_nat l) (2 ^ k)"
proof -
  have "l \<in> {0, 1, 2, 3, 4, 5}" using assms(1) unfolding insert_iff empty_iff by presburger
  then have "map_of level_cases (of_nat l) = Some (of_nat l)" by (auto simp: level_cases_def)
  then show ?thesis using assms by (simp add: level_switch_def keyword_switch_known)
qed

lemma log_message_event_text:
  assumes "l < 6" and "k < 11" and "list_all (field_ok e) fs" and "length (concat (map field_args fs)) \<le> 14"
  shows "log_message_event e s (of_nat l) (of_nat k) message (map field_args fs)
           = Inr (if logging_enabled s
                  then event_text e EVENT_GENERIC_MESSAGE (F_Level (of_nat l) # F_Keyword (2 ^ k) # message_fields message fs) else [])"
proof -
  have "list_all (field_ok e) (F_Level (of_nat l) # F_Keyword (2 ^ k) # message_fields message fs)"
    using assms(3) by (simp add: message_fields_def value_text_def)
  from trace_event_printed_text [OF this, of s EVENT_GENERIC_MESSAGE] show ?thesis
    using assms
    by (simp add: log_message_event_def level_switch_known tlg_header_def macro_defs field_lists message_fields_def
        field_args_length del: field_args.simps)
qed

lemma keyword_value_known: "k < 11 \<Longrightarrow> keyword_value (of_nat k) = 2 ^ k"
proof -
  assume "k < 11"
  then have "k \<in> {0, 1, 2, 3, 4, 5, 6, 7, 8, 9, 10}" unfolding insert_iff empty_iff by presburger
  then show ?thesis by (auto simp: keyword_value_def keyword_cases_def)
qed

definition message_logged :: "trace_state \<Rightarrow> nat \<Rightarrow> nat \<Rightarrow> bool" where
  "message_logged s l k \<longleftrightarrow> logging_enabled s \<and> l \<le> unat (event_level s) \<and> bit (event_keyword s) k"

definition message_text :: "va_text \<Rightarrow> trace_state \<Rightarrow> nat \<Rightarrow> nat \<Rightarrow> string \<Rightarrow> trace_field list \<Rightarrow> string" where
  "message_text e s l k message fs =
     (if message_logged s l k
      then event_text e EVENT_GENERIC_MESSAGE (F_Level (of_nat l) # F_Keyword (2 ^ k) # message_fields message fs) else [])"

lemma when_enabled_known:
  assumes "l < 6" and "k < 11"
  shows "when_enabled (ucast (of_nat l :: u32)) (keyword_value (of_nat k)) s ev
           = (if l \<le> unat (event_level s) \<and> bit (event_keyword s) k then ev else Inr [])"
proof -
  have "ucast (of_nat l :: u32) \<le> event_level s \<longleftrightarrow> l \<le> unat (event_level s)"
    using assms(1) by (simp add: word_le_nat_alt unsigned_ucast_eq unsigned_of_nat take_bit_nat_eq_self)
  then show ?thesis
    using assms(2)
    by (simp add: when_enabled_def usersim_trace_logging_provider_enabled_def keyword_value_known and_exp_eq_0_iff_not_bit)
qed

lemma message_macro_text:
  assumes "l < 6" and "k < 11" and "list_all (field_ok e) fs" and "length (concat (map field_args fs)) \<le> 14"
    and "f = log_message_event e s (of_nat l) (of_nat k) message (map field_args fs)"
  shows "when_enabled (ucast (of_nat l :: u32)) (keyword_value (of_nat k)) s f = Inr (message_text e s l k message fs)"
  using assms(5) log_message_event_text [OF assms(1-4), of s message]
  by (simp add: when_enabled_known [OF assms(1,2)] message_text_def message_logged_def)

lemmas message_macro_defs =
  USERSIM_LOG_MESSAGE_def USERSIM_LOG_MESSAGE_STRING_def USERSIM_LOG_MESSAGE_WSTRING_def USERSIM_LOG_MESSAGE_NTSTATUS_def
  USERSIM_LOG_MESSAGE_ERROR_def USERSIM_LOG_MESSAGE_UINT64_def USERSIM_LOG_MESSAGE_UINT64_UINT64_def
  USERSIM_LOG_MESSAGE_GUID_def USERSIM_LOG_MESSAGE_GUID_GUID_def USERSIM_LOG_MESSAGE_GUID_GUID_STRING_def
  usersim_log_message_def usersim_log_message_string_def usersim_log_message_wstring_def usersim_log_message_ntstatus_def
  usersim_log_message_error_def usersim_log_message_uint64_def usersim_log_message_uint64_uint64_def
  usersim_log_message_guid_def usersim_log_message_guid_guid_def usersim_log_message_guid_guid_string_def

text \<open>
  a message is printed exactly when it should be, with its own text. For each of the six levels and eleven keywords,
  each message macro prints its event exactly when logging is on, the level is at most the enabled one and the bit of the
  keyword is enabled; it then prints the message and its further fields with their values and names, the event carries
  the level and the bit of the keyword it was called with, and nothing is printed otherwise.
\<close>
theorem log_message_macros:
  assumes "l < 6" and "k < 11"
  shows "USERSIM_LOG_MESSAGE e s (of_nat l) (of_nat k) m = Inr (message_text e s l k m []) \<and>
         USERSIM_LOG_MESSAGE_STRING e s (of_nat l) (of_nat k) m str
           = Inr (message_text e s l k m [F_Value tlgPsz (Str str) [''string_value'']]) \<and>
         USERSIM_LOG_MESSAGE_WSTRING e s (of_nat l) (of_nat k) m w
           = Inr (message_text e s l k m [F_Value tlgPwsz (Wide_Str w) [''wstring'']]) \<and>
         USERSIM_LOG_MESSAGE_NTSTATUS e s (of_nat l) (of_nat k) m status
           = Inr (message_text e s l k m [F_Value tlgNTStatus (VInt status) []]) \<and>
         USERSIM_LOG_MESSAGE_ERROR e s (of_nat l) (of_nat k) m status
           = Inr (message_text e s l k m [F_Value tlgWinError (VInt status) []]) \<and>
         USERSIM_LOG_MESSAGE_UINT64 e s (of_nat l) (of_nat k) m v
           = Inr (message_text e s l k m [F_Value tlgUInt64 (VInt64 v) [''value'']]) \<and>
         USERSIM_LOG_MESSAGE_UINT64_UINT64 e s (of_nat l) (of_nat k) m v v'
           = Inr (message_text e s l k m [F_Value tlgUInt64 (VInt64 v) [''value1''], F_Value tlgUInt64 (VInt64 v') [''value2'']]) \<and>
         USERSIM_LOG_MESSAGE_GUID e s (of_nat l) (of_nat k) m g
           = Inr (message_text e s l k m [F_Value tlgGuid (Guid g) [''*guid'']]) \<and>
         USERSIM_LOG_MESSAGE_GUID_GUID e s (of_nat l) (of_nat k) m g g'
           = Inr (message_text e s l k m [F_Value tlgGuid (Guid g) [''*guid1''], F_Value tlgGuid (Guid g') [''*guid2'']]) \<and>
         USERSIM_LOG_MESSAGE_GUID_GUID_STRING e s (of_nat l) (of_nat k) m str g g'
           = Inr (message_text e s l k m [F_Value tlgPsz (Str str) [''string''],
                    F_Value tlgGuid (Guid g) [''*guid1''], F_Value tlgGuid (Guid g') [''*guid2'']])"
  unfolding message_macro_defs
  by (intro conjI; rule message_macro_text [OF assms])
    (simp_all add: value_text_def int_text_def macro_defs tlg_field_def)

theorem log_message_macros_witness:
  "USERSIM_LOG_MESSAGE_UINT64 \<lparr>uuid_text = \<lambda>_. None, ipv4_text = \<lambda>_. [], ipv6_text = \<lambda>_. [], wide_text = \<lambda>_. []\<rparr>
     \<lparr>trace_initiated = True, logging_enabled = True, event_level = 2, event_keyword = 2\<rparr> 2 1 ''m'' 7
   = Inr ''{UsersimGenericMessage,\"m\",\"Message\",7,\"value\"}\<newline>''"
  using log_message_macros [of 2 1 "\<lparr>uuid_text = \<lambda>_. None, ipv4_text = \<lambda>_. [], ipv6_text = \<lambda>_. [], wide_text = \<lambda>_. []\<rparr>"
      "\<lparr>trace_initiated = True, logging_enabled = True, event_level = 2, event_keyword = 2\<rparr>" "''m''" "[]" "[]" 0 7 0 0 0]
  by (simp add: message_text_def message_logged_def message_fields_def event_text_def value_text_def quoted_def
      num_str.simps digit_char_def char_of_def bit_0 bit_Suc)

end
