(* ===== verification/Safe_Int.thy ===== *)
theory Safe_Int
  imports Usersim_Prelude
begin

text \<open>
  Checked arithmetic: \<^verbatim>\<open>cxplat/src/cxplat_winuser/size_winuser.cpp\<close> for the nine integer types of \<^verbatim>\<open>cxplat_size.h\<close>, and the \<^verbatim>\<open>RtlSizeT*\<close>
  and \<^verbatim>\<open>RtlULongAdd\<close> functions of \<^verbatim>\<open>src/rtl.cpp\<close>. Both only translate the status of an operation of the system header \<^verbatim>\<open>intsafe.h\<close>,
  which is a parameter here: a routine from two operands to a success flag and the stored result. What that header promises, the exact
  result when it is in the range of the type and failure otherwise, is the locale \<open>checked_operation\<close>. The unsigned and
  the signed operations, with the overflow tests that the documentation of the header describes, are interpretations of it.
\<close>

type_synonym 'w checked = "bool \<times> 'w word"

section \<open>The operations of the program\<close>

datatype safe_status = Safe_Success | Arithmetic_Overflow

definition safe_status :: "'w :: len checked \<Rightarrow> safe_status \<times> 'w word" where
  "safe_status r = (if fst r then Safe_Success else Arithmetic_Overflow, snd r)"

definition cxplat_safe_multiply :: "('w :: len word \<Rightarrow> 'w word \<Rightarrow> 'w checked) \<Rightarrow> 'w word \<Rightarrow> 'w word \<Rightarrow> safe_status \<times> 'w word" where
  "cxplat_safe_multiply Mult a b = safe_status (Mult a b)"

definition cxplat_safe_add :: "('w :: len word \<Rightarrow> 'w word \<Rightarrow> 'w checked) \<Rightarrow> 'w word \<Rightarrow> 'w word \<Rightarrow> safe_status \<times> 'w word" where
  "cxplat_safe_add Add a b = safe_status (Add a b)"

definition cxplat_safe_subtract :: "('w :: len word \<Rightarrow> 'w word \<Rightarrow> 'w checked) \<Rightarrow> 'w word \<Rightarrow> 'w word \<Rightarrow> safe_status \<times> 'w word" where
  "cxplat_safe_subtract Sub a b = safe_status (Sub a b)"

definition overflow_status :: "'w :: len checked \<Rightarrow> ntstatus \<times> 'w word" where
  "overflow_status r = (if fst r then STATUS_SUCCESS else STATUS_INTEGER_OVERFLOW, snd r)"

definition RtlULongAdd :: "(u32 \<Rightarrow> u32 \<Rightarrow> 32 checked) \<Rightarrow> u32 \<Rightarrow> u32 \<Rightarrow> ntstatus \<times> u32" where
  "RtlULongAdd ULongAdd a b = overflow_status (ULongAdd a b)"

definition RtlSizeTMult :: "(u64 \<Rightarrow> u64 \<Rightarrow> 64 checked) \<Rightarrow> u64 \<Rightarrow> u64 \<Rightarrow> ntstatus \<times> u64" where
  "RtlSizeTMult SizeTMult a b = overflow_status (SizeTMult a b)"

definition RtlSizeTAdd :: "(u64 \<Rightarrow> u64 \<Rightarrow> 64 checked) \<Rightarrow> u64 \<Rightarrow> u64 \<Rightarrow> ntstatus \<times> u64" where
  "RtlSizeTAdd SizeTAdd a b = overflow_status (SizeTAdd a b)"

definition RtlSizeTSub :: "(u64 \<Rightarrow> u64 \<Rightarrow> 64 checked) \<Rightarrow> u64 \<Rightarrow> u64 \<Rightarrow> ntstatus \<times> u64" where
  "RtlSizeTSub SizeTSub a b = overflow_status (SizeTSub a b)"

section \<open>The contract of the header\<close>

text \<open>The value of a word of a signed or an unsigned type, and the range of the type.\<close>

definition int_value :: "bool \<Rightarrow> 'w :: len word \<Rightarrow> int" where
  "int_value sgn_ty w = (if sgn_ty then sint w else uint w)"

definition in_type_range :: "bool \<Rightarrow> 'w :: len itself \<Rightarrow> int \<Rightarrow> bool" where
  "in_type_range sgn_ty T v \<longleftrightarrow>
     (if sgn_ty then - (2 ^ (LENGTH('w) - 1)) \<le> v \<and> v < 2 ^ (LENGTH('w) - 1) else 0 \<le> v \<and> v < 2 ^ LENGTH('w))"

locale checked_operation =
  fixes op :: "'w :: len word \<Rightarrow> 'w word \<Rightarrow> 'w checked" and sgn_ty :: bool and f :: "int \<Rightarrow> int \<Rightarrow> int"
  assumes succeeds: "fst (op a b) \<longleftrightarrow> in_type_range sgn_ty TYPE('w) (f (int_value sgn_ty a) (int_value sgn_ty b))"
    and exact: "fst (op a b) \<Longrightarrow> int_value sgn_ty (snd (op a b)) = f (int_value sgn_ty a) (int_value sgn_ty b)"
begin

lemma layer_operation:
  "fst (safe_status (op a b)) = Safe_Success \<longleftrightarrow> in_type_range sgn_ty TYPE('w) (f (int_value sgn_ty a) (int_value sgn_ty b))"
  "fst (safe_status (op a b)) = Safe_Success \<Longrightarrow>
     int_value sgn_ty (snd (safe_status (op a b))) = f (int_value sgn_ty a) (int_value sgn_ty b)"
  using succeeds exact by (auto simp: safe_status_def split: if_splits)

lemma rtl_operation:
  "fst (overflow_status (op a b)) = STATUS_SUCCESS \<longleftrightarrow> in_type_range sgn_ty TYPE('w) (f (int_value sgn_ty a) (int_value sgn_ty b))"
  "fst (overflow_status (op a b)) = STATUS_SUCCESS \<Longrightarrow>
     int_value sgn_ty (snd (overflow_status (op a b))) = f (int_value sgn_ty a) (int_value sgn_ty b)"
  using succeeds exact by (auto simp: overflow_status_def split: if_splits)

end

section \<open>Its implementations\<close>

text \<open>
  An unsigned sum overflowed when it wrapped below its first operand, a difference when the minuend is smaller, a product when the upper
  half of the double-width product is not zero; a signed operation is done in twice the width and must survive the conversion back.
\<close>

definition UIntAdd :: "'w :: len word \<Rightarrow> 'w word \<Rightarrow> 'w checked" where
  "UIntAdd a b = (if a + b \<ge> a then (True, a + b) else (False, - 1))"

definition UIntSub :: "'w :: len word \<Rightarrow> 'w word \<Rightarrow> 'w checked" where
  "UIntSub a b = (if a \<ge> b then (True, a - b) else (False, - 1))"

definition UIntMult :: "'w :: len word \<Rightarrow> 'w word \<Rightarrow> 'w checked" where
  "UIntMult a b = (if uint a * uint b div 2 ^ LENGTH('w) = 0 then (True, a * b) else (False, - 1))"

definition to_signed :: "int \<Rightarrow> 'w :: len checked" where
  "to_signed v = (if sint (word_of_int v :: 'w word) = v then (True, word_of_int v) else (False, - 1))"

lemma sint_in_range: "sint (word_of_int v :: 'w :: len word) = v \<longleftrightarrow> in_type_range True TYPE('w) v"
proof
  assume "sint (word_of_int v :: 'w word) = v"
  then show "in_type_range True TYPE('w) v"
    using sint_ge [of "word_of_int v :: 'w word"] sint_lt [of "word_of_int v :: 'w word"] by (simp add: in_type_range_def)
next
  assume "in_type_range True TYPE('w) v"
  then show "sint (word_of_int v :: 'w word) = v"
    by (simp add: in_type_range_def signed_of_int signed_take_bit_int_eq_self)
qed

interpretation signed_op: checked_operation "\<lambda>a b. to_signed (f (sint a) (sint b))" True f for f
  by unfold_locales (auto simp: to_signed_def int_value_def sint_in_range)

interpretation unsigned_add: checked_operation UIntAdd False "(+)"
proof unfold_locales
  fix a b :: "'w :: len word"
  have "a + b \<ge> a \<longleftrightarrow> uint a + uint b < 2 ^ LENGTH('w)"
    by (rule no_olen_add)
  moreover have "uint a + uint b < 2 ^ LENGTH('w) \<Longrightarrow> uint (a + b) = uint a + uint b"
    by (simp add: uint_word_ariths mod_pos_pos_trivial)
  ultimately show "fst (UIntAdd a b) = in_type_range False TYPE('w) (int_value False a + int_value False b)"
    "fst (UIntAdd a b) \<Longrightarrow> int_value False (snd (UIntAdd a b)) = int_value False a + int_value False b"
    by (auto simp: UIntAdd_def in_type_range_def int_value_def)
qed

interpretation unsigned_sub: checked_operation UIntSub False "(-)"
proof unfold_locales
  fix a b :: "'w :: len word"
  have "uint a - uint b < 2 ^ LENGTH('w)" using uint_lt2p [of a] uint_ge_0 [of b] by linarith
  then show "fst (UIntSub a b) = in_type_range False TYPE('w) (int_value False a - int_value False b)"
    "fst (UIntSub a b) \<Longrightarrow> int_value False (snd (UIntSub a b)) = int_value False a - int_value False b"
    by (auto simp: UIntSub_def in_type_range_def int_value_def word_le_def uint_sub_if')
qed

interpretation unsigned_mult: checked_operation UIntMult False "(*)"
proof unfold_locales
  fix a b :: "'w :: len word"
  have "uint a * uint b div 2 ^ LENGTH('w) = 0 \<longleftrightarrow> uint a * uint b < 2 ^ LENGTH('w)"
    using mult_nonneg_nonneg [OF uint_ge_0 uint_ge_0, of a b] zero_less_power [of "2 :: int" "LENGTH('w)"]
    unfolding zdiv_eq_0_iff by linarith
  moreover have "uint a * uint b < 2 ^ LENGTH('w) \<Longrightarrow> uint (a * b) = uint a * uint b"
    by (simp add: uint_word_ariths mod_pos_pos_trivial)
  ultimately show "fst (UIntMult a b) = in_type_range False TYPE('w) (int_value False a * int_value False b)"
    "fst (UIntMult a b) \<Longrightarrow> int_value False (snd (UIntMult a b)) = int_value False a * int_value False b"
    by (auto simp: UIntMult_def in_type_range_def int_value_def)
qed

text \<open>
  The size operations of the runtime library succeed exactly when the result fits in 64 bits, and then store it.
\<close>
lemma rtl_size_arithmetic:
  "fst (RtlSizeTAdd UIntAdd a b) = STATUS_SUCCESS \<longleftrightarrow> uint a + uint b < 2 ^ 64"
  "fst (RtlSizeTSub UIntSub a b) = STATUS_SUCCESS \<longleftrightarrow> uint b \<le> uint a"
  "fst (RtlSizeTMult UIntMult a b) = STATUS_SUCCESS \<longleftrightarrow> uint a * uint b < 2 ^ 64"
proof -
  have "uint a < 2 ^ 64" using uint_lt2p [of a] by simp
  then have "uint a - uint b < 2 ^ 64" using uint_ge_0 [of b] by linarith
  then show "fst (RtlSizeTAdd UIntAdd a b) = STATUS_SUCCESS \<longleftrightarrow> uint a + uint b < 2 ^ 64"
    "fst (RtlSizeTSub UIntSub a b) = STATUS_SUCCESS \<longleftrightarrow> uint b \<le> uint a"
    "fst (RtlSizeTMult UIntMult a b) = STATUS_SUCCESS \<longleftrightarrow> uint a * uint b < 2 ^ 64"
    by (auto simp: RtlSizeTAdd_def RtlSizeTSub_def RtlSizeTMult_def unsigned_add.rtl_operation(1) unsigned_sub.rtl_operation(1)
        unsigned_mult.rtl_operation(1) in_type_range_def int_value_def)
qed

end
