(* ===== verification/Io_Work.thy ===== *)
theory Io_Work
  imports Pool Work_Item
begin

text \<open>
  Work items of the I/O manager, \<^verbatim>\<open>IoAllocateWorkItem\<close>, \<^verbatim>\<open>IoQueueWorkItem\<close> and \<^verbatim>\<open>IoFreeWorkItem\<close> of \<^verbatim>\<open>src/io.cpp\<close>, on top of the preemptible
  work items of theory \<open>Work_Item\<close> and the allocator of theory \<open>Memory\<close>. The fields of the structures in the heap are
  kept in \<open>io_items\<close>; \<open>io_calls\<close> records the calls of worker routines as routine, device object and context.
  \<open>wrapper\<close> is the address of \<^verbatim>\<open>io_work_item_wrapper\<close>.
\<close>

section \<open>Operations\<close>

record io_workitem =
  device_object :: ptr
  cxplat_work_item :: ptr
  io_routine :: ptr
  io_context :: ptr

record io_state =
  io_heap :: mem_state
  io_pool :: work_pool
  io_items :: "ptr \<rightharpoonup> io_workitem"
  io_calls :: "(ptr \<times> ptr \<times> ptr) list"

abbreviation USERSIM_TAG_IO_WORK_ITEM :: u32 where "USERSIM_TAG_IO_WORK_ITEM \<equiv> 0x77697375"

definition io_work_item_wrapper :: "ptr \<Rightarrow> io_state \<Rightarrow> io_state result" where
  "io_work_item_wrapper context s =
     (if context = nullptr then Inr s
      else case io_items s context of
             None \<Rightarrow> Inl Out_Of_Bounds
           | Some it \<Rightarrow> Inr (s\<lparr>io_calls := io_calls s @ [(io_routine it, device_object it, io_context it)]\<rparr>))"

text \<open>\<open>wp\<close> and \<open>work\<close> are the answers to the inner allocation, as in theory \<open>Work_Item\<close>. New memory is zeroed.\<close>

definition IoAllocateWorkItem ::
  "ptr \<Rightarrow> object_request \<Rightarrow> backtrace \<Rightarrow> ptr \<Rightarrow> u32 + unit \<Rightarrow> ptr \<Rightarrow> io_state \<Rightarrow> (ptr \<times> io_state) result" where
  "IoAllocateWorkItem wrapper a bt wp work device s =
     (case cx_alloc USERSIM_TAG_IO_WORK_ITEM a (io_heap s) of
        Inl e \<Rightarrow> Inl e
      | Inr (m, h) \<Rightarrow>
          if m = nullptr then Inr (nullptr, s\<lparr>io_heap := h\<rparr>)
          else case cxplat_allocate_preemptible_work_item wp work wrapper m (io_pool s) of
            ((status, w), q) \<Rightarrow>
              if status \<noteq> Cxplat_Success
              then (case cx_free USERSIM_TAG_IO_WORK_ITEM bt m h of
                      Inl e \<Rightarrow> Inl e
                    | Inr h' \<Rightarrow> Inr (nullptr, s\<lparr>io_heap := h', io_pool := q\<rparr>))
              else Inr (m, s\<lparr>io_heap := h, io_pool := q, io_items := (io_items s)(m \<mapsto>
                     \<lparr>device_object = device, cxplat_work_item = w, io_routine = nullptr, io_context = nullptr\<rparr>)\<rparr>))"

definition IoQueueWorkItem :: "ptr \<Rightarrow> ptr \<Rightarrow> ptr \<Rightarrow> io_state \<Rightarrow> io_state result" where
  "IoQueueWorkItem m worker_routine context s =
     (case io_items s m of
        None \<Rightarrow> Inl Out_Of_Bounds
      | Some it \<Rightarrow>
          (case cxplat_queue_preemptible_work_item (cxplat_work_item it) (io_pool s) of
             Inl e \<Rightarrow> Inl e
           | Inr q \<Rightarrow> Inr (s\<lparr>io_items := (io_items s)(m \<mapsto> it\<lparr>io_routine := worker_routine, io_context := context\<rparr>),
                             io_pool := q\<rparr>)))"

definition IoFreeWorkItem :: "backtrace \<Rightarrow> ptr \<Rightarrow> io_state \<Rightarrow> io_state result" where
  "IoFreeWorkItem bt m s =
     (case io_items s m of
        None \<Rightarrow> Inl Out_Of_Bounds
      | Some it \<Rightarrow>
          (case cx_free USERSIM_TAG_IO_WORK_ITEM bt m (io_heap s) of
             Inl e \<Rightarrow> Inl e
           | Inr h \<Rightarrow> Inr (s\<lparr>io_pool := cxplat_free_preemptible_work_item (cxplat_work_item it) (io_pool s),
                             io_heap := h, io_items := (io_items s)(m := None)\<rparr>)))"

text \<open>One callback of the pool thread: the routine of the first submitted item, which for these items is the wrapper.\<close>

definition io_callback :: "ptr \<Rightarrow> io_state \<Rightarrow> io_state result" where
  "io_callback wrapper s =
     (case cxplat_preemptible_routine (io_pool s) of
        Inl e \<Rightarrow> Inl e
      | Inr q \<Rightarrow>
          (case drop (length (calls (io_pool s))) (calls q) of
             (r, w, context) # _ \<Rightarrow>
               if r = wrapper then (case io_work_item_wrapper context s of Inl e \<Rightarrow> Inl e | Inr s1 \<Rightarrow> Inr (s1\<lparr>io_pool := q\<rparr>))
               else Inr (s\<lparr>io_pool := q\<rparr>)
           | [] \<Rightarrow> Inr (s\<lparr>io_pool := q\<rparr>)))"

fun io_callbacks :: "nat \<Rightarrow> ptr \<Rightarrow> io_state \<Rightarrow> io_state result" where
  "io_callbacks 0 wrapper s = Inr s"
| "io_callbacks (Suc n) wrapper s = (case io_callback wrapper s of Inl e \<Rightarrow> Inl e | Inr s1 \<Rightarrow> io_callbacks n wrapper s1)"

section \<open>The queue\<close>

text \<open>The I/O work items are live allocations, and every submitted item that runs the wrapper belongs to one of them.\<close>

definition io_inv :: "ptr \<Rightarrow> io_state \<Rightarrow> bool" where
  "io_inv wrapper s \<longleftrightarrow> work_inv (io_pool s) \<and>
     (\<forall>m. io_items s m \<noteq> None \<longrightarrow> cx_owned USERSIM_TAG_IO_WORK_ITEM (io_heap s) m) \<and>
     (\<forall>w \<in> set (submitted (io_pool s)). \<forall>i. items (io_pool s) w = Some i \<longrightarrow> work_item_routine i = wrapper \<longrightarrow>
        io_items s (work_item_context i) \<noteq> None)"

text \<open>The call that an outstanding submission leads to.\<close>

definition io_call :: "ptr \<Rightarrow> io_state \<Rightarrow> ptr \<Rightarrow> (ptr \<times> ptr \<times> ptr) list" where
  "io_call wrapper s w =
     (case items (io_pool s) w of
        None \<Rightarrow> []
      | Some i \<Rightarrow>
          if work_item_routine i = wrapper \<and> work_item_context i \<noteq> nullptr
          then (case io_items s (work_item_context i) of
                  None \<Rightarrow> [] | Some it \<Rightarrow> [(io_routine it, device_object it, io_context it)])
          else [])"

lemma io_callback_Cons:
  assumes "io_inv wrapper s" and "submitted (io_pool s) = w # ws"
  shows "\<exists>s'. io_callback wrapper s = Inr s' \<and> io_inv wrapper s' \<and> submitted (io_pool s') = ws \<and>
           items (io_pool s') = items (io_pool s) \<and> io_items s' = io_items s \<and> io_heap s' = io_heap s \<and>
           io_calls s' = io_calls s @ io_call wrapper s w"
proof -
  have wi: "work_inv (io_pool s)" using assms(1) by (simp add: io_inv_def)
  from callback_Cons [OF wi assms(2)] obtain q i where q: "cxplat_preemptible_routine (io_pool s) = Inr q"
    "items (io_pool s) w = Some i" "work_inv q" "submitted q = ws" "items q = items (io_pool s)"
    "calls q = calls (io_pool s) @ [(work_item_routine i, w, work_item_context i)]" by blast
  have live: "work_item_routine i = wrapper \<Longrightarrow> io_items s (work_item_context i) \<noteq> None"
    using assms q(2) by (auto simp: io_inv_def)
  have sub: "io_inv wrapper (s'\<lparr>io_pool := q\<rparr>)" if "io_items s' = io_items s" "io_heap s' = io_heap s" for s'
    using assms q that by (auto simp: io_inv_def)
  show ?thesis
  proof (cases "work_item_routine i = wrapper")
    case True
    then obtain it where "io_items s (work_item_context i) = Some it" using live by blast
    then show ?thesis using q True sub
      by (cases "work_item_context i = nullptr") (simp_all add: io_callback_def io_work_item_wrapper_def io_call_def)
  next
    case False
    then show ?thesis using q sub by (simp add: io_callback_def io_call_def)
  qed
qed

lemma io_callbacks_all:
  assumes "io_inv wrapper s"
  shows "\<exists>s'. io_callbacks (length (submitted (io_pool s))) wrapper s = Inr s' \<and> io_inv wrapper s' \<and> submitted (io_pool s') = [] \<and>
           items (io_pool s') = items (io_pool s) \<and> io_items s' = io_items s \<and> io_heap s' = io_heap s \<and>
           io_calls s' = io_calls s @ concat (map (io_call wrapper s) (submitted (io_pool s)))"
  using assms
proof (induction "submitted (io_pool s)" arbitrary: s)
  case Nil
  then show ?case by simp
next
  case (Cons w ws)
  obtain s1 where s1: "io_callback wrapper s = Inr s1" "io_inv wrapper s1" "submitted (io_pool s1) = ws"
    "items (io_pool s1) = items (io_pool s)" "io_items s1 = io_items s" "io_heap s1 = io_heap s"
    "io_calls s1 = io_calls s @ io_call wrapper s w"
    using io_callback_Cons [OF Cons.prems Cons.hyps(2) [symmetric]] by blast
  have "io_call wrapper s1 = io_call wrapper s" using s1(4,5) by (intro ext) (simp add: io_call_def split: option.splits)
  then show ?case
    using Cons.hyps(1) [OF s1(3) [symmetric] s1(2)] s1 Cons.hyps(2) [symmetric] by auto
qed

section \<open>The life of a work item\<close>

lemma allocate_work_item_cases:
  assumes "IoAllocateWorkItem wrapper a bt wp work device s = Inr (m, s1)" and "cx_fresh a (io_heap s)"
  obtains (fails) "m = nullptr" "blocks (io_heap s1) = blocks (io_heap s)" "items (io_pool s1) = items (io_pool s)" "io_items s1 = io_items s"
  | (succeeds) h where "m \<noteq> nullptr" "wp \<noteq> nullptr" "cx_alloc USERSIM_TAG_IO_WORK_ITEM a (io_heap s) = Inr (m, h)"
      "s1 = s\<lparr>io_heap := h,
              io_pool := (io_pool s)\<lparr>items := (items (io_pool s))(wp \<mapsto> \<lparr>work_item_routine = wrapper, work_item_context = m\<rparr>)\<rparr>,
              io_items := (io_items s)(m \<mapsto>
                \<lparr>device_object = device, cxplat_work_item = wp, io_routine = nullptr, io_context = nullptr\<rparr>)\<rparr>"
proof -
  obtain n h where h: "cx_alloc USERSIM_TAG_IO_WORK_ITEM a (io_heap s) = Inr (n, h)"
    using assms(1) by (auto simp: IoAllocateWorkItem_def split: sum.splits)
  show ?thesis
  proof (cases "n = nullptr")
    case True
    then have "m = nullptr" "s1 = s\<lparr>io_heap := h\<rparr>" using assms(1) h by (simp_all add: IoAllocateWorkItem_def)
    then show ?thesis using cx.alloc_fail [of _ a "io_heap s" h] h True assms(2) by (intro fails) auto
  next
    case False
    obtain status w q where q: "cxplat_allocate_preemptible_work_item wp work wrapper n (io_pool s) = ((status, w), q)"
      by (metis prod.exhaust)
    show ?thesis
    proof (cases "status = Cxplat_Success")
      case True
      then have "wp \<noteq> nullptr" "w = wp"
        "q = (io_pool s)\<lparr>items := (items (io_pool s))(wp \<mapsto> \<lparr>work_item_routine = wrapper, work_item_context = n\<rparr>)\<rparr>"
        using q by (auto simp: cxplat_allocate_preemptible_work_item_def split: if_splits sum.splits)
      then show ?thesis using assms(1) h q False True by (intro succeeds [of h]) (auto simp: IoAllocateWorkItem_def)
    next
      case bad: False
      obtain h' where h': "cx_free USERSIM_TAG_IO_WORK_ITEM bt n h = Inr h'" "blocks h' = blocks (io_heap s)"
        using cx.one_buffer [OF h False assms(2), of bt] by blast
      have "q = io_pool s" using q bad by (auto simp: cxplat_allocate_preemptible_work_item_def split: if_splits sum.splits)
      then show ?thesis using assms(1) h q False bad h' by (intro fails) (auto simp: IoAllocateWorkItem_def)
    qed
  qed
qed

text \<open>Queueing an item while no shutdown is waiting.\<close>

lemma queue_item:
  assumes "work_inv p" "\<not> rundown_down (rundown_reference p) (rundown p)" "length (submitted p) < 2 ^ 64 - 1" "items p w \<noteq> None"
  obtains q where "cxplat_queue_preemptible_work_item w p = Inr q" "submitted q = submitted p @ [w]" "items q = items p" "work_inv q"
proof -
  have r: "rundown_ready (rundown_reference p) (rundown p)" "rundown_held (rundown_reference p) (rundown p) < 2 ^ 64 - 1"
    using assms(1,3) by (simp_all add: work_inv_def)
  obtain t where "cxplat_acquire_rundown_protection (rundown_reference p) (rundown p) = Inr (True, t)"
    using table_rundown.acquire_up [OF r(1) assms(2)] r(2) by auto
  then have q: "cxplat_queue_preemptible_work_item w p = Inr (p\<lparr>rundown := t, submitted := submitted p @ [w]\<rparr>)"
    by (simp add: cxplat_queue_preemptible_work_item_def)
  show ?thesis using that [OF q _ _ queue_inv [OF assms(1,4,3) q]] by simp
qed

lemma queue_new_item:
  assumes "work_inv p" "\<not> rundown_down (rundown_reference p) (rundown p)" "length (submitted p) < 2 ^ 64 - 1"
    and "p' = p\<lparr>items := (items p)(w \<mapsto> i)\<rparr>" "w \<noteq> nullptr"
  obtains q where "cxplat_queue_preemptible_work_item w p' = Inr q" "submitted q = submitted p @ [w]"
    "items q = (items p)(w \<mapsto> i)" "work_inv q"
  by (rule queue_item [of p' w]) (use assms in \<open>auto simp: work_inv_def\<close>)

text \<open>
  a queued I/O work item runs once and leaves nothing behind. If the allocation fails, in either of its two steps, the heap and
  the work items are as before. If it succeeds and the item is queued, the pool first runs the items that were queued before it
  and then calls the worker routine once, with the device object of the allocation and the context of the queueing; freeing
  the item afterwards succeeds, and the blocks of the heap and the work items are those from before the allocation.
\<close>
theorem io_work_item_lifecycle:
  assumes inv: "io_inv wrapper s" and up: "\<not> rundown_down (rundown_reference (io_pool s)) (rundown (io_pool s))"
    and few: "length (submitted (io_pool s)) < 2 ^ 64 - 1" and fresh: "cx_fresh a (io_heap s)" and wp: "items (io_pool s) wp = None"
    and al: "IoAllocateWorkItem wrapper a bt wp work device s = Inr (m, s1)"
  shows "if m = nullptr
         then blocks (io_heap s1) = blocks (io_heap s) \<and> items (io_pool s1) = items (io_pool s) \<and> io_items s1 = io_items s
         else \<exists>s2 s3 s4. IoQueueWorkItem m r c s1 = Inr s2 \<and>
                io_callbacks (Suc (length (submitted (io_pool s)))) wrapper s2 = Inr s3 \<and>
                io_calls s3 = io_calls s @ concat (map (io_call wrapper s) (submitted (io_pool s))) @ [(r, device, c)] \<and>
                IoFreeWorkItem bt' m s3 = Inr s4 \<and> blocks (io_heap s4) = blocks (io_heap s) \<and>
                items (io_pool s4) = items (io_pool s) \<and> io_items s4 = io_items s"
proof (rule allocate_work_item_cases [OF al fresh], goal_cases)
  case 1
  then show ?case by simp
next
  case (2 h)
  let ?T = USERSIM_TAG_IO_WORK_ITEM and ?i = "\<lparr>work_item_routine = wrapper, work_item_context = m\<rparr>"
  let ?it = "\<lparr>device_object = device, cxplat_work_item = wp, io_routine = r, io_context = c\<rparr>"
  note A = cx.alloc_ok [OF 2(3,1) fresh]
  have wi: "work_inv (io_pool s)" and own: "\<And>n. io_items s n \<noteq> None \<Longrightarrow> cx_owned ?T (io_heap s) n"
    using inv by (auto simp: io_inv_def)
  have m: "io_items s m = None" using own [of m] A cx.owned_view [of ?T "io_heap s" m] by (cases "io_items s m") auto
  have sub: "w \<noteq> wp" if "w \<in> set (submitted (io_pool s))" for w using wi wp that by (auto simp: work_inv_def)
  obtain q where q: "cxplat_queue_preemptible_work_item wp (io_pool s1) = Inr q" "submitted q = submitted (io_pool s) @ [wp]"
    "items q = (items (io_pool s))(wp \<mapsto> ?i)" "work_inv q"
    by (rule queue_new_item [OF wi up few, where p' = "io_pool s1" and w = wp and i = ?i]) (use 2 in simp_all)
  define s2 where "s2 = s1\<lparr>io_items := (io_items s1)(m \<mapsto> ?it), io_pool := q\<rparr>"
  have queued: "IoQueueWorkItem m r c s1 = Inr s2" using 2 q(1) by (simp add: IoQueueWorkItem_def s2_def)
  have h2: "io_heap s2 = h" "io_items s2 = (io_items s)(m \<mapsto> ?it)" "io_pool s2 = q" "io_calls s2 = io_calls s"
    by (simp_all add: s2_def 2)
  have inv2: "io_inv wrapper s2"
    using inv q sub A cx.alloc_keeps [OF 2(3) fresh] own by (auto simp: io_inv_def h2)
  obtain s3 where s3: "io_callbacks (Suc (length (submitted (io_pool s)))) wrapper s2 = Inr s3" "items (io_pool s3) = items q"
    "io_items s3 = io_items s2" "io_heap s3 = h"
    "io_calls s3 = io_calls s @ concat (map (io_call wrapper s2) (submitted (io_pool s) @ [wp]))"
    using io_callbacks_all [OF inv2] h2 q(2) by auto
  have same: "io_call wrapper s2 w = io_call wrapper s w" if "w \<in> set (submitted (io_pool s))" for w
    using inv sub [OF that] m that q(3) by (auto simp: io_call_def io_inv_def h2 split: option.splits)
  have "map (io_call wrapper s2) (submitted (io_pool s)) = map (io_call wrapper s) (submitted (io_pool s))" using same by simp
  moreover have "io_call wrapper s2 wp = [(r, device, c)]" using 2(1) by (simp add: io_call_def h2 q(3))
  ultimately have calls3: "io_calls s3 = io_calls s @ concat (map (io_call wrapper s) (submitted (io_pool s))) @ [(r, device, c)]"
    using s3(5) by (simp cong: map_cong)
  obtain h' where h': "cx_free ?T bt' m h = Inr h'" "blocks h' = blocks (io_heap s)"
    using cx.one_buffer [OF 2(3,1) fresh, of bt'] by blast
  define s4 where "s4 = s3\<lparr>io_pool := cxplat_free_preemptible_work_item wp (io_pool s3), io_heap := h', io_items := (io_items s3)(m := None)\<rparr>"
  have "IoFreeWorkItem bt' m s3 = Inr s4" using s3 h2 h' by (simp add: IoFreeWorkItem_def s4_def)
  moreover have "items (io_pool s4) = items (io_pool s)" "io_items s4 = io_items s" "blocks (io_heap s4) = blocks (io_heap s)"
    using s3 h2 h' q(3) wp m 2(2) by (simp_all add: s4_def cxplat_free_preemptible_work_item_def fun_upd_idem)
  ultimately show ?case using 2(1) queued s3(1) calls3 by auto
qed

definition sample_io :: "work_pool \<Rightarrow> io_state" where
  "sample_io q = \<lparr>io_heap = sample_heap, io_pool = q, io_items = Map.empty, io_calls = []\<rparr>"

lemma open_pool:
  obtains q where "submitted q = []" "items q = Map.empty" "\<not> rundown_down (rundown_reference q) (rundown q)" "work_inv q"
proof -
  obtain q where "cxplat_winuser_initialize_thread_pool (Inr ()) (Inr ()) (Inr ()) empty_pool = (Cxplat_Success, q)"
    "submitted q = []" "items q = Map.empty" "\<not> rundown_down (rundown_reference q) (rundown q)" "work_inv q"
    using init_inv [of empty_pool "Inr ()" "Inr ()" "Inr ()"]
    by (simp add: cxplat_winuser_initialize_thread_pool_def empty_pool_def Let_def rundown_defs initialize_rundown_ref_def rundown_down_def)
  then show thesis by (intro that [of q])
qed

theorem io_work_item_lifecycle_witness:
  "\<exists>s m s1 s2 s3 s4. IoAllocateWorkItem 9 (False, 4096, None, 32) None 64 (Inr ()) 7 s = Inr (m, s1) \<and> m = 4112 \<and>
     IoQueueWorkItem m 5 6 s1 = Inr s2 \<and> io_callbacks 1 9 s2 = Inr s3 \<and> io_calls s3 = [(5, 7, 6)] \<and>
     IoFreeWorkItem None m s3 = Inr s4 \<and> blocks (io_heap s4) = Map.empty"
proof -
  obtain q where q: "submitted q = []" "items q = Map.empty" "\<not> rundown_down (rundown_reference q) (rundown q)" "work_inv q"
    by (rule open_pool)
  let ?s = "sample_io q" and ?a = "(False, 4096 :: ptr, None :: backtrace, 32 :: u64)"
  have inv: "io_inv 9 ?s" using q by (simp add: io_inv_def sample_io_def)
  have fresh: "cx_fresh ?a (io_heap ?s)" by (simp add: cx_fresh_def sample_io_def sample_heap_def)
  obtain s1 where s1: "IoAllocateWorkItem 9 ?a None 64 (Inr ()) 7 ?s = Inr (4112, s1)"
    by (simp add: IoAllocateWorkItem_def cx_alloc_def cxplat_allocate_def sample_io_def sample_heap_def has_flag_def Let_def
        unaligned_pointer_from_memory_block_def cxplat_allocate_preemptible_work_item_def)
  have e: "submitted (io_pool ?s) = []" "io_calls ?s = []" "blocks (io_heap ?s) = Map.empty"
    by (simp_all add: sample_io_def q sample_heap_def)
  have pr: "\<not> rundown_down (rundown_reference (io_pool ?s)) (rundown (io_pool ?s))" "length (submitted (io_pool ?s)) < 2 ^ 64 - 1"
    "items (io_pool ?s) 64 = None" using q by (simp_all add: sample_io_def)
  have "4112 \<noteq> nullptr" by simp
  with io_work_item_lifecycle [OF inv pr(1,2) fresh pr(3) s1, of 5 6 None]
  obtain s2 s3 s4 where "IoQueueWorkItem 4112 5 6 s1 = Inr s2" "io_callbacks 1 9 s2 = Inr s3" "io_calls s3 = [(5, 7, 6)]"
    "IoFreeWorkItem None 4112 s3 = Inr s4" "blocks (io_heap s4) = Map.empty"
    unfolding e by (auto simp del: io_callbacks.simps)
  with s1 show ?thesis by blast
qed

end
