(* ===== verification/Locks.thy ===== *)
theory Locks
  imports Usersim_Prelude "HOL-Library.Multiset"
begin

text \<open>
  The reader-writer and exclusive locks of the library: push locks and executive spin locks of \<^verbatim>\<open>src/ex.cpp\<close>, \<^verbatim>\<open>usersim_lock_*\<close> of
  \<^verbatim>\<open>src/platform_user.cpp\<close> and the spin locks and queued spin locks of \<^verbatim>\<open>cxplat/src/cxplat_winuser/processor_winuser.cpp\<close>. All of them
  are slim reader-writer locks of the operating system, whose operations are a parameter (\<open>srw_api\<close>): an acquisition
  either returns the new state of the lock or blocks (\<open>None\<close>). The locale \<open>srw_laws\<close> states what the system
  documents of them. A client is a set of threads that acquire locks through any of the interfaces and release what
  they hold through the matching one.
\<close>

section \<open>The locks of the operating system\<close>

record 'l srw_api =
  InitializeSRWLock :: 'l
  AcquireSRWLockExclusive :: "nat \<Rightarrow> 'l \<Rightarrow> 'l option"
  AcquireSRWLockShared :: "nat \<Rightarrow> 'l \<Rightarrow> 'l option"
  ReleaseSRWLockExclusive :: "nat \<Rightarrow> 'l \<Rightarrow> 'l result"
  ReleaseSRWLockShared :: "nat \<Rightarrow> 'l \<Rightarrow> 'l result"

text \<open>
  The state of the process: the locks by address, the first word of each lock queue handle, and the thread-local interrupt
  level of the cross-platform layer.
\<close>

record 'l lock_state =
  srw :: "ptr \<Rightarrow> 'l"
  queue_handles :: "ptr \<Rightarrow> ptr"
  cxplat_current_irql :: "nat \<Rightarrow> u8"

definition acquire_at :: "(nat \<Rightarrow> 'l \<Rightarrow> 'l option) \<Rightarrow> nat \<Rightarrow> ptr \<Rightarrow> 'l lock_state \<Rightarrow> 'l lock_state option" where
  "acquire_at f t p s = (case f t (srw s p) of None \<Rightarrow> None | Some l \<Rightarrow> Some (s\<lparr>srw := (srw s)(p := l)\<rparr>))"

definition release_at :: "(nat \<Rightarrow> 'l \<Rightarrow> 'l result) \<Rightarrow> nat \<Rightarrow> ptr \<Rightarrow> 'l lock_state \<Rightarrow> 'l lock_state result" where
  "release_at f t p s = (case f t (srw s p) of Inl e \<Rightarrow> Inl e | Inr l \<Rightarrow> Inr (s\<lparr>srw := (srw s)(p := l)\<rparr>))"

section \<open>The operations of the library\<close>

text \<open>Locks of \<^verbatim>\<open>platform_user.cpp\<close>.\<close>

definition usersim_lock_create :: "'l srw_api \<Rightarrow> ptr \<Rightarrow> 'l lock_state \<Rightarrow> 'l lock_state" where
  "usersim_lock_create os p s = s\<lparr>srw := (srw s)(p := InitializeSRWLock os)\<rparr>"

definition usersim_lock_lock :: "'l srw_api \<Rightarrow> nat \<Rightarrow> ptr \<Rightarrow> 'l lock_state \<Rightarrow> (u8 \<times> 'l lock_state) option" where
  "usersim_lock_lock os t p s = map_option (Pair 0) (acquire_at (AcquireSRWLockExclusive os) t p s)"

definition usersim_lock_unlock :: "'l srw_api \<Rightarrow> nat \<Rightarrow> ptr \<Rightarrow> u8 \<Rightarrow> 'l lock_state \<Rightarrow> 'l lock_state result" where
  "usersim_lock_unlock os t p state s = release_at (ReleaseSRWLockExclusive os) t p s"

text \<open>Push locks and spin locks of \<^verbatim>\<open>ex.cpp\<close>.\<close>

definition ExAcquirePushLockExclusiveEx :: "'l srw_api \<Rightarrow> nat \<Rightarrow> ptr \<Rightarrow> 'l lock_state \<Rightarrow> 'l lock_state option" where
  "ExAcquirePushLockExclusiveEx os t p s = acquire_at (AcquireSRWLockExclusive os) t p s"

definition ExAcquirePushLockSharedEx :: "'l srw_api \<Rightarrow> nat \<Rightarrow> ptr \<Rightarrow> 'l lock_state \<Rightarrow> 'l lock_state option" where
  "ExAcquirePushLockSharedEx os t p s = acquire_at (AcquireSRWLockShared os) t p s"

definition ExReleasePushLockExclusiveEx :: "'l srw_api \<Rightarrow> nat \<Rightarrow> ptr \<Rightarrow> 'l lock_state \<Rightarrow> 'l lock_state result" where
  "ExReleasePushLockExclusiveEx os t p s = release_at (ReleaseSRWLockExclusive os) t p s"

definition ExReleasePushLockSharedEx :: "'l srw_api \<Rightarrow> nat \<Rightarrow> ptr \<Rightarrow> 'l lock_state \<Rightarrow> 'l lock_state result" where
  "ExReleasePushLockSharedEx os t p s = release_at (ReleaseSRWLockShared os) t p s"

abbreviation PASSIVE_IRQL :: u8 where "PASSIVE_IRQL \<equiv> 0"

definition ExAcquireSpinLockExclusiveEx :: "'l srw_api \<Rightarrow> nat \<Rightarrow> ptr \<Rightarrow> 'l lock_state \<Rightarrow> (u8 \<times> 'l lock_state) option" where
  "ExAcquireSpinLockExclusiveEx os t p s = map_option (Pair PASSIVE_IRQL) (acquire_at (AcquireSRWLockExclusive os) t p s)"

definition ExAcquireSpinLockExclusiveAtDpcLevelEx :: "'l srw_api \<Rightarrow> nat \<Rightarrow> ptr \<Rightarrow> 'l lock_state \<Rightarrow> 'l lock_state option" where
  "ExAcquireSpinLockExclusiveAtDpcLevelEx os t p s = acquire_at (AcquireSRWLockExclusive os) t p s"

definition ExAcquireSpinLockSharedEx :: "'l srw_api \<Rightarrow> nat \<Rightarrow> ptr \<Rightarrow> 'l lock_state \<Rightarrow> (u8 \<times> 'l lock_state) option" where
  "ExAcquireSpinLockSharedEx os t p s = map_option (Pair PASSIVE_IRQL) (acquire_at (AcquireSRWLockShared os) t p s)"

definition ExReleaseSpinLockExclusiveEx :: "'l srw_api \<Rightarrow> nat \<Rightarrow> ptr \<Rightarrow> u8 \<Rightarrow> 'l lock_state \<Rightarrow> 'l lock_state result" where
  "ExReleaseSpinLockExclusiveEx os t p old_irql s = release_at (ReleaseSRWLockExclusive os) t p s"

definition ExReleaseSpinLockExclusiveFromDpcLevelEx :: "'l srw_api \<Rightarrow> nat \<Rightarrow> ptr \<Rightarrow> 'l lock_state \<Rightarrow> 'l lock_state result" where
  "ExReleaseSpinLockExclusiveFromDpcLevelEx os t p s = release_at (ReleaseSRWLockExclusive os) t p s"

definition ExReleaseSpinLockSharedEx :: "'l srw_api \<Rightarrow> nat \<Rightarrow> ptr \<Rightarrow> u8 \<Rightarrow> 'l lock_state \<Rightarrow> 'l lock_state result" where
  "ExReleaseSpinLockSharedEx os t p old_irql s = release_at (ReleaseSRWLockShared os) t p s"

text \<open>Queued spin locks of \<^verbatim>\<open>processor_winuser.cpp\<close>: the handle remembers the lock, and the release finds it there.\<close>

definition cxplat_acquire_in_stack_queued_spin_lock ::
  "'l srw_api \<Rightarrow> nat \<Rightarrow> ptr \<Rightarrow> ptr \<Rightarrow> 'l lock_state \<Rightarrow> 'l lock_state option" where
  "cxplat_acquire_in_stack_queued_spin_lock os t p handle s =
     map_option (\<lambda>s. s\<lparr>queue_handles := (queue_handles s)(handle := p)\<rparr>) (acquire_at (AcquireSRWLockExclusive os) t p s)"

definition cxplat_release_in_stack_queued_spin_lock :: "'l srw_api \<Rightarrow> nat \<Rightarrow> ptr \<Rightarrow> 'l lock_state \<Rightarrow> 'l lock_state result" where
  "cxplat_release_in_stack_queued_spin_lock os t handle s =
     release_at (ReleaseSRWLockExclusive os) t (queue_handles s handle) s"

definition cxplat_acquire_in_stack_queued_spin_lock_at_dpc ::
  "'l srw_api \<Rightarrow> nat \<Rightarrow> ptr \<Rightarrow> ptr \<Rightarrow> 'l lock_state \<Rightarrow> 'l lock_state option" where
  "cxplat_acquire_in_stack_queued_spin_lock_at_dpc os t p handle s =
     map_option (\<lambda>s. s\<lparr>queue_handles := (queue_handles s)(handle := p)\<rparr>) (acquire_at (AcquireSRWLockExclusive os) t p s)"

definition cxplat_release_in_stack_queued_spin_lock_from_dpc ::
  "'l srw_api \<Rightarrow> nat \<Rightarrow> ptr \<Rightarrow> 'l lock_state \<Rightarrow> 'l lock_state result" where
  "cxplat_release_in_stack_queued_spin_lock_from_dpc os t handle s =
     release_at (ReleaseSRWLockExclusive os) t (queue_handles s handle) s"

text \<open>Interrupt level and spin locks of \<^verbatim>\<open>processor_winuser.cpp\<close>.\<close>

abbreviation DISPATCH_IRQL :: u8 where "DISPATCH_IRQL \<equiv> 2"

definition cxplat_raise_irql :: "nat \<Rightarrow> u8 \<Rightarrow> 'l lock_state \<Rightarrow> u8 \<times> 'l lock_state" where
  "cxplat_raise_irql t irql s =
     (cxplat_current_irql s t, s\<lparr>cxplat_current_irql := (cxplat_current_irql s)(t := irql)\<rparr>)"

definition cxplat_lower_irql :: "nat \<Rightarrow> u8 \<Rightarrow> 'l lock_state \<Rightarrow> 'l lock_state" where
  "cxplat_lower_irql t irql s = s\<lparr>cxplat_current_irql := (cxplat_current_irql s)(t := irql)\<rparr>"

definition cxplat_get_current_irql :: "nat \<Rightarrow> 'l lock_state \<Rightarrow> u8" where
  "cxplat_get_current_irql t s = cxplat_current_irql s t"

text \<open>A blocked acquisition has already raised the level; it is repeated as a whole once the lock is free.\<close>

definition cxplat_acquire_spin_lock :: "'l srw_api \<Rightarrow> nat \<Rightarrow> ptr \<Rightarrow> 'l lock_state \<Rightarrow> (u8 \<times> 'l lock_state) option" where
  "cxplat_acquire_spin_lock os t p s =
     (case cxplat_raise_irql t DISPATCH_IRQL s of
        (old_irql, s1) \<Rightarrow> map_option (Pair old_irql) (acquire_at (AcquireSRWLockExclusive os) t p s1))"

definition cxplat_release_spin_lock :: "'l srw_api \<Rightarrow> nat \<Rightarrow> ptr \<Rightarrow> u8 \<Rightarrow> 'l lock_state \<Rightarrow> 'l lock_state result" where
  "cxplat_release_spin_lock os t p old_irql s =
     (case release_at (ReleaseSRWLockExclusive os) t p s of
        Inl e \<Rightarrow> Inl e
      | Inr s1 \<Rightarrow> Inr (cxplat_lower_irql t old_irql s1))"

definition cxplat_acquire_spin_lock_at_dpc_level :: "'l srw_api \<Rightarrow> nat \<Rightarrow> ptr \<Rightarrow> 'l lock_state \<Rightarrow> 'l lock_state option" where
  "cxplat_acquire_spin_lock_at_dpc_level os t p s = acquire_at (AcquireSRWLockExclusive os) t p s"

definition cxplat_release_spin_lock_from_dpc_level :: "'l srw_api \<Rightarrow> nat \<Rightarrow> ptr \<Rightarrow> 'l lock_state \<Rightarrow> 'l lock_state result" where
  "cxplat_release_spin_lock_from_dpc_level os t p s = release_at (ReleaseSRWLockExclusive os) t p s"

section \<open>Clients\<close>

text \<open>One use of a lock: the interface, the thread, the lock, the handle of a queued lock and the level that was returned.\<close>

datatype lock_kind = Usersim_Lock | Push_Exclusive | Push_Shared | Ex_Exclusive | Ex_Exclusive_Dpc | Ex_Shared
  | Cx_Spin | Cx_Spin_Dpc | Cx_Queued | Cx_Queued_Dpc

record lock_use =
  use_kind :: lock_kind
  use_thread :: nat
  use_lock :: ptr
  use_handle :: ptr
  use_irql :: u8

definition shared_kind :: "lock_kind \<Rightarrow> bool" where
  "shared_kind k \<longleftrightarrow> k = Push_Shared \<or> k = Ex_Shared"

definition queued_kind :: "lock_kind \<Rightarrow> bool" where
  "queued_kind k \<longleftrightarrow> k = Cx_Queued \<or> k = Cx_Queued_Dpc"

definition acquire_use :: "'l srw_api \<Rightarrow> lock_kind \<Rightarrow> nat \<Rightarrow> ptr \<Rightarrow> ptr \<Rightarrow> 'l lock_state \<Rightarrow> (lock_use \<times> 'l lock_state) option" where
  "acquire_use os k t p handle s =
     map_option (\<lambda>(irql, s1). (\<lparr>use_kind = k, use_thread = t, use_lock = p, use_handle = handle, use_irql = irql\<rparr>, s1))
       (case k of
          Usersim_Lock \<Rightarrow> usersim_lock_lock os t p s
        | Push_Exclusive \<Rightarrow> map_option (Pair 0) (ExAcquirePushLockExclusiveEx os t p s)
        | Push_Shared \<Rightarrow> map_option (Pair 0) (ExAcquirePushLockSharedEx os t p s)
        | Ex_Exclusive \<Rightarrow> ExAcquireSpinLockExclusiveEx os t p s
        | Ex_Exclusive_Dpc \<Rightarrow> map_option (Pair 0) (ExAcquireSpinLockExclusiveAtDpcLevelEx os t p s)
        | Ex_Shared \<Rightarrow> ExAcquireSpinLockSharedEx os t p s
        | Cx_Spin \<Rightarrow> cxplat_acquire_spin_lock os t p s
        | Cx_Spin_Dpc \<Rightarrow> map_option (Pair 0) (cxplat_acquire_spin_lock_at_dpc_level os t p s)
        | Cx_Queued \<Rightarrow> map_option (Pair 0) (cxplat_acquire_in_stack_queued_spin_lock os t p handle s)
        | Cx_Queued_Dpc \<Rightarrow> map_option (Pair 0) (cxplat_acquire_in_stack_queued_spin_lock_at_dpc os t p handle s))"

definition release_use :: "'l srw_api \<Rightarrow> lock_use \<Rightarrow> 'l lock_state \<Rightarrow> 'l lock_state result" where
  "release_use os u s =
     (case use_kind u of
        Usersim_Lock \<Rightarrow> usersim_lock_unlock os (use_thread u) (use_lock u) (use_irql u) s
      | Push_Exclusive \<Rightarrow> ExReleasePushLockExclusiveEx os (use_thread u) (use_lock u) s
      | Push_Shared \<Rightarrow> ExReleasePushLockSharedEx os (use_thread u) (use_lock u) s
      | Ex_Exclusive \<Rightarrow> ExReleaseSpinLockExclusiveEx os (use_thread u) (use_lock u) (use_irql u) s
      | Ex_Exclusive_Dpc \<Rightarrow> ExReleaseSpinLockExclusiveFromDpcLevelEx os (use_thread u) (use_lock u) s
      | Ex_Shared \<Rightarrow> ExReleaseSpinLockSharedEx os (use_thread u) (use_lock u) (use_irql u) s
      | Cx_Spin \<Rightarrow> cxplat_release_spin_lock os (use_thread u) (use_lock u) (use_irql u) s
      | Cx_Spin_Dpc \<Rightarrow> cxplat_release_spin_lock_from_dpc_level os (use_thread u) (use_lock u) s
      | Cx_Queued \<Rightarrow> cxplat_release_in_stack_queued_spin_lock os (use_thread u) (use_handle u) s
      | Cx_Queued_Dpc \<Rightarrow> cxplat_release_in_stack_queued_spin_lock_from_dpc os (use_thread u) (use_handle u) s)"

text \<open>A handle is not used for a second lock while it holds the first. \<open>held\<close> lists the uses that are not yet released.\<close>

definition handle_free :: "lock_kind \<Rightarrow> ptr \<Rightarrow> lock_use list \<Rightarrow> bool" where
  "handle_free k handle held \<longleftrightarrow>
     (queued_kind k \<longrightarrow> (\<forall>u \<in> set held. queued_kind (use_kind u) \<longrightarrow> use_handle u \<noteq> handle))"

inductive lock_reachable :: "'l srw_api \<Rightarrow> 'l lock_state \<Rightarrow> lock_use list \<Rightarrow> bool" for os where
  start: "\<forall>p. srw s p = InitializeSRWLock os \<Longrightarrow> lock_reachable os s []"
| acquire: "lock_reachable os s held \<Longrightarrow> handle_free k handle held \<Longrightarrow> acquire_use os k t p handle s = Some (u, s1) \<Longrightarrow>
     lock_reachable os s1 (u # held)"
| release: "lock_reachable os s held \<Longrightarrow> u \<in> set held \<Longrightarrow> release_use os u s = Inr s1 \<Longrightarrow>
     lock_reachable os s1 (remove1 u held)"

text \<open>The mark that a use leaves on its lock, and the marks of all uses of a lock.\<close>

definition use_mark :: "lock_use \<Rightarrow> bool \<times> nat" where
  "use_mark u = (\<not> shared_kind (use_kind u), use_thread u)"

definition marks :: "ptr \<Rightarrow> lock_use list \<Rightarrow> (bool \<times> nat) multiset" where
  "marks p held = image_mset use_mark (mset (filter (\<lambda>u. use_lock u = p) held))"

lemma marks_simps [simp]:
  "marks p [] = {#}"
  "marks p (u # held) = (if use_lock u = p then add_mset (use_mark u) (marks p held) else marks p held)"
  by (simp_all add: marks_def)

lemma marks_remove1: "u \<in> set held \<Longrightarrow> marks p (remove1 u held) = (if use_lock u = p then marks p held - {#use_mark u#} else marks p held)"
  by (induction held) (auto simp: marks_def in_image_mset)

lemma mark_in: "u \<in> set held \<Longrightarrow> use_mark u \<in># marks (use_lock u) held"
  by (auto simp: marks_def)

definition srw_acquire :: "'l srw_api \<Rightarrow> lock_kind \<Rightarrow> nat \<Rightarrow> 'l \<Rightarrow> 'l option" where
  "srw_acquire os k = (if shared_kind k then AcquireSRWLockShared os else AcquireSRWLockExclusive os)"

definition srw_release :: "'l srw_api \<Rightarrow> lock_kind \<Rightarrow> nat \<Rightarrow> 'l \<Rightarrow> 'l result" where
  "srw_release os k = (if shared_kind k then ReleaseSRWLockShared os else ReleaseSRWLockExclusive os)"

lemmas lock_ops = usersim_lock_lock_def usersim_lock_unlock_def ExAcquirePushLockExclusiveEx_def ExAcquirePushLockSharedEx_def
  ExReleasePushLockExclusiveEx_def ExReleasePushLockSharedEx_def ExAcquireSpinLockExclusiveEx_def
  ExAcquireSpinLockExclusiveAtDpcLevelEx_def ExAcquireSpinLockSharedEx_def ExReleaseSpinLockExclusiveEx_def
  ExReleaseSpinLockExclusiveFromDpcLevelEx_def ExReleaseSpinLockSharedEx_def cxplat_acquire_in_stack_queued_spin_lock_def
  cxplat_release_in_stack_queued_spin_lock_def cxplat_acquire_in_stack_queued_spin_lock_at_dpc_def
  cxplat_release_in_stack_queued_spin_lock_from_dpc_def cxplat_acquire_spin_lock_def cxplat_release_spin_lock_def
  cxplat_acquire_spin_lock_at_dpc_level_def cxplat_release_spin_lock_from_dpc_level_def cxplat_raise_irql_def cxplat_lower_irql_def
  acquire_at_def release_at_def shared_kind_def queued_kind_def

text \<open>Every interface acquires its lock in its mode and leaves the other locks alone.\<close>

lemma acquire_use_srw:
  assumes "acquire_use os k t p handle s = Some (u, s1)"
  shows "use_kind u = k \<and> use_thread u = t \<and> use_lock u = p \<and> use_handle u = handle \<and>
     (\<exists>l. srw_acquire os k t (srw s p) = Some l \<and> srw s1 = (srw s)(p := l)) \<and>
     queue_handles s1 = (if queued_kind k then (queue_handles s)(handle := p) else queue_handles s)"
  using assms by (cases k) (auto simp: acquire_use_def srw_acquire_def lock_ops split: option.splits)

lemma acquire_use_free:
  assumes "srw_acquire os k t (srw s p) = Some l"
  shows "\<exists>u s1. acquire_use os k t p handle s = Some (u, s1)"
  using assms by (cases k) (auto simp: acquire_use_def srw_acquire_def lock_ops)

lemma release_use_srw:
  assumes "queued_kind (use_kind u) \<longrightarrow> queue_handles s (use_handle u) = use_lock u"
    and "srw_release os (use_kind u) (use_thread u) (srw s (use_lock u)) = Inr l"
  shows "\<exists>s1. release_use os u s = Inr s1 \<and> srw s1 = (srw s)(use_lock u := l) \<and> queue_handles s1 = queue_handles s"
  using assms by (cases "use_kind u") (auto simp: release_use_def srw_release_def lock_ops)

section \<open>The contract of the locks\<close>

text \<open>
  What the system documents: the lock is held exclusively by one thread or shared by several; a free lock can be acquired in both modes;
  a holder can release it. \<open>holders\<close> is the multiset of threads that hold a lock, with \<open>True\<close> for exclusive.
\<close>

locale srw_laws =
  fixes os :: "'l srw_api" and holders :: "'l \<Rightarrow> (bool \<times> nat) multiset"
  assumes init_free: "holders (InitializeSRWLock os) = {#}"
    and exclusive_alone: "AcquireSRWLockExclusive os t l = Some l1 \<Longrightarrow> holders l = {#} \<and> holders l1 = {#(True, t)#}"
    and exclusive_free: "holders l = {#} \<Longrightarrow> AcquireSRWLockExclusive os t l \<noteq> None"
    and shared_readers: "AcquireSRWLockShared os t l = Some l1 \<Longrightarrow>
       (\<forall>x \<in># holders l. \<not> fst x) \<and> holders l1 = add_mset (False, t) (holders l)"
    and shared_free: "holders l = {#} \<Longrightarrow> AcquireSRWLockShared os t l \<noteq> None"
    and release_exclusive: "(True, t) \<in># holders l \<Longrightarrow>
       \<exists>l1. ReleaseSRWLockExclusive os t l = Inr l1 \<and> holders l1 = holders l - {#(True, t)#}"
    and release_shared: "(False, t) \<in># holders l \<Longrightarrow>
       \<exists>l1. ReleaseSRWLockShared os t l = Inr l1 \<and> holders l1 = holders l - {#(False, t)#}"
begin

lemma acquire_marks:
  assumes "srw_acquire os k t l = Some l1"
  shows "(\<forall>x \<in># holders l. \<not> fst x \<and> shared_kind k) \<and> holders l1 = add_mset (\<not> shared_kind k, t) (holders l)"
  using assms exclusive_alone shared_readers by (auto simp: srw_acquire_def split: if_splits)

lemma acquire_free: "holders l = {#} \<Longrightarrow> \<exists>l1. srw_acquire os k t l = Some l1"
  using exclusive_free shared_free by (auto simp: srw_acquire_def)

lemma release_marks:
  assumes "use_mark u \<in># holders l"
  shows "\<exists>l1. srw_release os (use_kind u) (use_thread u) l = Inr l1 \<and> holders l1 = holders l - {#use_mark u#}"
  using assms release_exclusive release_shared by (cases "shared_kind (use_kind u)") (auto simp: srw_release_def use_mark_def)

definition lock_inv :: "'l lock_state \<Rightarrow> lock_use list \<Rightarrow> bool" where
  "lock_inv s held \<longleftrightarrow>
     (\<forall>p. holders (srw s p) = marks p held \<and> (\<forall>x \<in># marks p held. fst x \<longrightarrow> marks p held = {#x#})) \<and>
     (\<forall>u \<in> set held. queued_kind (use_kind u) \<longrightarrow> queue_handles s (use_handle u) = use_lock u)"

lemma release_held:
  assumes "lock_inv s held" "u \<in> set held"
  shows "\<exists>s1. release_use os u s = Inr s1 \<and> lock_inv s1 (remove1 u held)"
proof -
  have "use_mark u \<in># holders (srw s (use_lock u))" using assms mark_in by (auto simp: lock_inv_def)
  then obtain l where l: "srw_release os (use_kind u) (use_thread u) (srw s (use_lock u)) = Inr l"
    "holders l = holders (srw s (use_lock u)) - {#use_mark u#}" using release_marks by blast
  obtain s1 where s1: "release_use os u s = Inr s1" "srw s1 = (srw s)(use_lock u := l)" "queue_handles s1 = queue_handles s"
    using release_use_srw [OF _ l(1)] assms by (auto simp: lock_inv_def)
  have "fst x \<longrightarrow> marks p (remove1 u held) = {#x#}" if "x \<in># marks p (remove1 u held)" for p x
  proof
    assume "fst x"
    have "x \<in># marks p held" using that assms(2) by (auto simp: marks_remove1 split: if_splits dest: in_diffD)
    then have "marks p held = {#x#}" using assms(1) \<open>fst x\<close> by (auto simp: lock_inv_def)
    then show "marks p (remove1 u held) = {#x#}" using that assms(2) mark_in [OF assms(2)]
      by (auto simp: marks_remove1 split: if_splits)
  qed
  then have "lock_inv s1 (remove1 u held)"
    using assms l(2) s1(2,3) by (auto simp: lock_inv_def marks_remove1 dest: notin_set_remove1 set_remove1_subset [THEN subsetD])
  then show ?thesis using s1(1) by blast
qed

lemma acquire_held:
  assumes "lock_inv s held" "handle_free k handle held" "acquire_use os k t p handle s = Some (u, s1)"
  shows "lock_inv s1 (u # held)"
proof -
  note A = acquire_use_srw [OF assms(3)]
  obtain l where l: "srw_acquire os k t (srw s p) = Some l" "srw s1 = (srw s)(p := l)" using A by blast
  have M: "(\<forall>x \<in># marks p held. \<not> fst x \<and> shared_kind k)" "holders l = add_mset (use_mark u) (marks p held)"
    using acquire_marks [OF l(1)] assms(1) A by (auto simp: lock_inv_def use_mark_def)
  have "fst x \<longrightarrow> marks q (u # held) = {#x#}" if "x \<in># marks q (u # held)" for q x
  proof (cases "q = p")
    case True
    have "marks p held = {#}" if "\<not> shared_kind k" using M(1) that by (cases "marks p held") auto
    then show ?thesis using True M(1) that A by (auto simp: use_mark_def split: if_splits)
  next
    case False
    then show ?thesis using that assms(1) A by (auto simp: lock_inv_def split: if_splits)
  qed
  moreover have "queue_handles s1 (use_handle v) = use_lock v" if "v \<in> set (u # held)" "queued_kind (use_kind v)" for v
    using that assms(1,2) A by (auto simp: lock_inv_def handle_free_def)
  ultimately show ?thesis using assms(1) M(2) A l(2) by (auto simp: lock_inv_def)
qed

lemma reachable_inv: "lock_reachable os s held \<Longrightarrow> lock_inv s held"
proof (induction rule: lock_reachable.induct)
  case (start s)
  then show ?case by (simp add: lock_inv_def init_free)
next
  case (acquire s held k handle t p u s1)
  then show ?case by (intro acquire_held)
next
  case (release s held u s1)
  then show ?case using release_held [of s held u] by auto
qed

lemma exclusive_use_alone:
  assumes "lock_inv s held" "u \<in> set held" "\<not> shared_kind (use_kind u)"
  shows "filter (\<lambda>v. use_lock v = use_lock u) held = [u]"
proof -
  let ?f = "filter (\<lambda>v. use_lock v = use_lock u) held"
  have "marks (use_lock u) held = {#use_mark u#}"
    using assms mark_in [OF assms(2)] by (auto simp: lock_inv_def use_mark_def)
  then have "length ?f = 1" unfolding marks_def by (metis size_image_mset size_mset size_single)
  moreover have "u \<in> set ?f" using assms(2) by simp
  ultimately show ?thesis by (cases ?f) auto
qed

lemma free_lock_acquired:
  assumes "lock_inv s held" "\<forall>u \<in> set held. use_lock u \<noteq> p"
  shows "\<exists>u s1. acquire_use os k t p handle s = Some (u, s1)"
proof -
  have "marks p held = {#}" using assms(2) by (simp add: marks_def filter_empty_conv)
  then have "holders (srw s p) = {#}" using assms(1) by (simp add: lock_inv_def)
  then show ?thesis using acquire_free acquire_use_free by metis
qed

end

section \<open>Mutual exclusion\<close>

text \<open>
  C37: mutual exclusion of all locks of the library. Whatever the interfaces through which threads acquire and release locks, in every
  reachable state a lock that is held exclusively has no other use, every use that is held can be released through its interface
  (a queued lock through its handle), and a lock without uses can be acquired through every interface.
\<close>
theorem locks_exclude:
  assumes "srw_laws os holders" and "lock_reachable os s held"
  shows "(\<forall>u \<in> set held. \<not> shared_kind (use_kind u) \<longrightarrow> filter (\<lambda>v. use_lock v = use_lock u) held = [u]) \<and>
         (\<forall>u \<in> set held. \<exists>s1. release_use os u s = Inr s1) \<and>
         (\<forall>k t p handle. (\<forall>u \<in> set held. use_lock u \<noteq> p) \<longrightarrow> (\<exists>u s1. acquire_use os k t p handle s = Some (u, s1)))"
proof -
  have inv: "srw_laws.lock_inv holders s held" by (rule srw_laws.reachable_inv [OF assms])
  show ?thesis
    using srw_laws.exclusive_use_alone [OF assms(1) inv] srw_laws.release_held [OF assms(1) inv]
      srw_laws.free_lock_acquired [OF assms(1) inv] by blast
qed

text \<open>A spin lock of the cross-platform layer runs its holder at dispatch level and restores the level it found.\<close>

lemma cxplat_spin_lock_irql:
  assumes "acquire_use os Cx_Spin t p handle s = Some (u, s1)" "release_use os u s1 = Inr s2"
  shows "cxplat_get_current_irql t s1 = DISPATCH_IRQL \<and> cxplat_current_irql s2 = cxplat_current_irql s"
  using assms by (auto simp: acquire_use_def release_use_def lock_ops cxplat_get_current_irql_def split: option.splits sum.splits)

text \<open>A lock as the multiset of its holders, which keeps the laws.\<close>

definition simple_srw :: "(bool \<times> nat) multiset srw_api" where
  "simple_srw = \<lparr>InitializeSRWLock = {#},
     AcquireSRWLockExclusive = (\<lambda>t l. if l = {#} then Some {#(True, t)#} else None),
     AcquireSRWLockShared = (\<lambda>t l. if \<forall>x \<in># l. \<not> fst x then Some (add_mset (False, t) l) else None),
     ReleaseSRWLockExclusive = (\<lambda>t l. if (True, t) \<in># l then Inr (l - {#(True, t)#}) else Inl Assert_Failed),
     ReleaseSRWLockShared = (\<lambda>t l. if (False, t) \<in># l then Inr (l - {#(False, t)#}) else Inl Assert_Failed)\<rparr>"

interpretation simple_srw: srw_laws simple_srw "\<lambda>l. l"
  by unfold_locales (auto simp: simple_srw_def split: if_splits)

theorem locks_exclude_witness:
  "\<exists>s s1 s2 u. s = \<lparr>srw = \<lambda>_. {#}, queue_handles = \<lambda>_. 0, cxplat_current_irql = \<lambda>_. 0\<rparr> \<and>
     acquire_use simple_srw Cx_Queued 1 64 512 s = Some (u, s1) \<and> use_lock u = 64 \<and>
     acquire_use simple_srw Push_Shared 2 64 0 s1 = None \<and> release_use simple_srw u s1 = Inr s2"
proof -
  let ?s = "\<lparr>srw = \<lambda>_. {#}, queue_handles = \<lambda>_. 0, cxplat_current_irql = \<lambda>_. 0\<rparr> :: (bool \<times> nat) multiset lock_state"
  have r0: "lock_reachable simple_srw ?s []" by (rule lock_reachable.start) (simp add: simple_srw_def)
  obtain u s1 where a: "acquire_use simple_srw Cx_Queued 1 64 512 ?s = Some (u, s1)"
    using conjunct2 [OF conjunct2 [OF locks_exclude [OF simple_srw.srw_laws_axioms r0]]] by fastforce
  have u: "use_lock u = 64" using acquire_use_srw [OF a] by simp
  have r1: "lock_reachable simple_srw s1 [u]" by (rule lock_reachable.acquire [OF r0 _ a]) (simp add: handle_free_def)
  obtain s2 where "release_use simple_srw u s1 = Inr s2"
    using locks_exclude [OF simple_srw.srw_laws_axioms r1] by auto
  moreover have "acquire_use simple_srw Push_Shared 2 64 0 s1 = None"
    using a by (auto simp: acquire_use_def lock_ops simple_srw_def)
  ultimately show ?thesis using a u by blast
qed

end
