(* ===== verification/Buffers.thy ===== *)
theory Buffers
  imports Mdl Security
begin

text \<open>
  Objects that the library keeps in the pools on behalf of its callers: the net buffer lists and the redirect handles of
  \<^verbatim>\<open>src/fwp_um.cpp\<close>, the event etw_providers of \<^verbatim>\<open>src/etw.cpp\<close>, and the temporary and returned buffers of
  \<^verbatim>\<open>usersim_platform_get_authentication_id\<close> and \<^verbatim>\<open>usersim_utf8_string_to_unicode\<close> of \<^verbatim>\<open>src/platform_user.cpp\<close>. The memory
  comes from theory \<open>Memory\<close> through the contract of theory \<open>Pool\<close>; the fields of the structures in it are kept in maps.
\<close>

section \<open>Net buffer lists of the filter engine\<close>

record buffer_state =
  nb_heap :: mem_state
  nb_objects :: ndis_state

abbreviation USERSIM_TAG_NET_BUFFER :: u32 where "USERSIM_TAG_NET_BUFFER \<equiv> 0x32505746"
abbreviation USERSIM_TAG_NET_BUFFER_LIST :: u32 where "USERSIM_TAG_NET_BUFFER_LIST \<equiv> 0x31505746"

text \<open>The fields of a structure that has been released are gone.\<close>

definition FwpsFreeNetBufferList0 :: "backtrace \<Rightarrow> backtrace \<Rightarrow> ptr \<Rightarrow> buffer_state \<Rightarrow> buffer_state result" where
  "FwpsFreeNetBufferList0 bt bt' net_buffer_list s =
     (if net_buffer_list = nullptr then Inr s
      else case FirstNetBuffer (nb_objects s) net_buffer_list of
             None \<Rightarrow> Inl Out_Of_Bounds
           | Some first \<Rightarrow>
               (case (if first \<noteq> nullptr
                      then (case ExFreePoolWithTagCPP bt first USERSIM_TAG_NET_BUFFER (nb_heap s) of
                              Inl e \<Rightarrow> Inl e
                            | Inr h \<Rightarrow> Inr (h, NdisFreeNetBuffer first (nb_objects s)))
                      else Inr (nb_heap s, nb_objects s)) of
                  Inl e \<Rightarrow> Inl e
                | Inr (h, n) \<Rightarrow>
                    (case ExFreePoolWithTagCPP bt' net_buffer_list USERSIM_TAG_NET_BUFFER_LIST h of
                       Inl e \<Rightarrow> Inl e
                     | Inr h' \<Rightarrow> Inr \<lparr>nb_heap = h', nb_objects = NdisFreeNetBufferList net_buffer_list n\<rparr>)))"

text \<open>
  \<open>fault\<close> is the answer of the fault injector to the call itself; \<open>a\<close> and \<open>a'\<close> are the answers to the two allocations with the sizes
  of the two structures, which the network headers of the system define.
\<close>

type_synonym answer = "bool \<times> ptr \<times> backtrace \<times> u64"

definition pool_answer :: "answer \<Rightarrow> u32 \<Rightarrow> pool_request" where
  "pool_answer a tag = (case a of (fault, p, bt, n) \<Rightarrow> (fault, p, bt, n, tag))"

definition FwpsAllocateNetBufferAndNetBufferList0 ::
  "bool \<Rightarrow> answer \<Rightarrow> answer \<Rightarrow> backtrace \<Rightarrow> backtrace \<Rightarrow> ptr \<Rightarrow> u64 \<Rightarrow> buffer_state \<Rightarrow>
   (ntstatus \<times> ptr option \<times> buffer_state) result" where
  "FwpsAllocateNetBufferAndNetBufferList0 fault a a' bt bt' mdl_chain data_length s =
     (if fault then Inr (STATUS_NO_MEMORY, None, s)
      else case np_alloc (pool_answer a USERSIM_TAG_NET_BUFFER_LIST) (nb_heap s) of
        Inl e \<Rightarrow> Inl e
      | Inr (nbl, h) \<Rightarrow>
          if nbl = nullptr then Inr (STATUS_INSUFFICIENT_RESOURCES, None, s\<lparr>nb_heap := h\<rparr>)
          else
            let n = (nb_objects s)\<lparr>FirstNetBuffer := (FirstNetBuffer (nb_objects s))(nbl \<mapsto> nullptr)\<rparr>
            in case np_alloc (pool_answer a' USERSIM_TAG_NET_BUFFER) h of
                 Inl e \<Rightarrow> Inl e
               | Inr (nb, h') \<Rightarrow>
                   if nb = nullptr
                   then (case FwpsFreeNetBufferList0 bt bt' nbl \<lparr>nb_heap = h', nb_objects = n\<rparr> of
                           Inl e \<Rightarrow> Inl e
                         | Inr s' \<Rightarrow> Inr (STATUS_INSUFFICIENT_RESOURCES, None, s'))
                   else Inr (STATUS_SUCCESS, Some nbl, \<lparr>nb_heap = h', nb_objects =
                     n\<lparr>FirstNetBuffer := (FirstNetBuffer n)(nbl \<mapsto> nb),
                       net_buffers := (net_buffers n)(nb \<mapsto> \<lparr>DataLength = ucast data_length, MdlChain = mdl_chain\<rparr>)\<rparr>\<rparr>))"

definition FwpsFreeCloneNetBufferList0 :: "ptr \<Rightarrow> ndis_state \<Rightarrow> ndis_state" where
  "FwpsFreeCloneNetBufferList0 p s = NdisFreeCloneNetBufferList p s"

definition FwpsAllocateCloneNetBufferList0 ::
  "bool \<Rightarrow> bool \<Rightarrow> bool \<Rightarrow> ptr \<Rightarrow> ptr \<Rightarrow> ptr \<Rightarrow> ptr \<Rightarrow> ptr \<Rightarrow> ndis_state \<Rightarrow> (ntstatus \<times> ptr option \<times> ndis_state) result" where
  "FwpsAllocateCloneNetBufferList0 fault fault_list fault_buffer p_list p_buffer original list_pool buffer_pool s =
     (if list_pool = nullptr \<or> buffer_pool = nullptr then Inr (STATUS_INVALID_PARAMETER, None, s)
      else case NdisAllocateCloneNetBufferList fault fault_list fault_buffer p_list p_buffer original s of
             Inl e \<Rightarrow> Inl e
           | Inr (nbl, s1) \<Rightarrow> Inr (if nbl \<noteq> nullptr then STATUS_SUCCESS else STATUS_NO_MEMORY, Some nbl, s1))"

section \<open>Redirect handles\<close>

abbreviation USERSIM_TAG_HANDLE :: u32 where "USERSIM_TAG_HANDLE \<equiv> 0x61687375"

text \<open>A handle is one byte of memory.\<close>

definition FwpsRedirectHandleCreate0 :: "bool \<Rightarrow> ptr \<Rightarrow> backtrace \<Rightarrow> mem_state \<Rightarrow> (ntstatus \<times> ptr \<times> mem_state) result" where
  "FwpsRedirectHandleCreate0 fault p bt h =
     (case cx_alloc USERSIM_TAG_HANDLE (fault, p, bt, 1) h of
        Inl e \<Rightarrow> Inl e
      | Inr (m, h1) \<Rightarrow> Inr (if m = nullptr then STATUS_NO_MEMORY else STATUS_SUCCESS, m, h1))"

definition FwpsRedirectHandleDestroy0 :: "backtrace \<Rightarrow> ptr \<Rightarrow> mem_state \<Rightarrow> mem_state result" where
  "FwpsRedirectHandleDestroy0 bt redirectHandle h = cx_free USERSIM_TAG_HANDLE bt redirectHandle h"

section \<open>Event etw_providers\<close>

record etw_provider =
  provider_id :: "u8 list"
  enable_callback :: ptr
  callback_context :: ptr

record etw_state =
  etw_heap :: mem_state
  etw_providers :: "ptr \<rightharpoonup> etw_provider"

abbreviation USERSIM_TAG_ETW_PROVIDER :: u32 where "USERSIM_TAG_ETW_PROVIDER \<equiv> 0x70657375"

definition EtwRegister ::
  "object_request \<Rightarrow> u8 list \<Rightarrow> ptr \<Rightarrow> ptr \<Rightarrow> etw_state \<Rightarrow> (ntstatus \<times> ptr option \<times> etw_state) result" where
  "EtwRegister a guid callback context s =
     (case cx_alloc USERSIM_TAG_ETW_PROVIDER a (etw_heap s) of
        Inl e \<Rightarrow> Inl e
      | Inr (m, h) \<Rightarrow>
          if m = nullptr then Inr (STATUS_NO_MEMORY, None, s\<lparr>etw_heap := h\<rparr>)
          else Inr (STATUS_SUCCESS, Some m, s\<lparr>etw_heap := h, etw_providers := (etw_providers s)(m \<mapsto>
                 \<lparr>provider_id = guid, enable_callback = callback, callback_context = context\<rparr>)\<rparr>))"

definition EtwUnregister :: "backtrace \<Rightarrow> ptr \<Rightarrow> etw_state \<Rightarrow> (ntstatus \<times> etw_state) result" where
  "EtwUnregister bt reg_handle s =
     (case cx_free USERSIM_TAG_ETW_PROVIDER bt reg_handle (etw_heap s) of
        Inl e \<Rightarrow> Inl e
      | Inr h \<Rightarrow> Inr (STATUS_SUCCESS, s\<lparr>etw_heap := h, etw_providers := (etw_providers s)(reg_handle := None)\<rparr>))"

definition EtwWriteTransfer :: "ptr \<Rightarrow> etw_state \<Rightarrow> ntstatus" where "EtwWriteTransfer reg_handle s = STATUS_SUCCESS"
definition EtwSetInformation :: "ptr \<Rightarrow> etw_state \<Rightarrow> ntstatus" where "EtwSetInformation reg_handle s = STATUS_SUCCESS"

section \<open>Buffers of the platform layer\<close>

abbreviation USERSIM_TAG_TOKEN_GROUPS_AND_PRIVILEGES :: u32 where "USERSIM_TAG_TOKEN_GROUPS_AND_PRIVILEGES \<equiv> 0x67747375"
abbreviation USERSIM_TAG_UNICODE_STRING :: u32 where "USERSIM_TAG_UNICODE_STRING \<equiv> 0x73757375"

text \<open>
  The size query answers \<open>(needed, error)\<close>; the query itself the identifier, or the error. \<open>last_error\<close> is what \<^verbatim>\<open>GetLastError\<close> answers
  after the failure of the first query has been logged.
\<close>

definition usersim_platform_get_authentication_id ::
  "bool \<Rightarrow> u32 \<times> u32 \<Rightarrow> u32 \<Rightarrow> (u32, u64) sum \<Rightarrow> bool \<Rightarrow> ptr \<Rightarrow> backtrace \<Rightarrow> backtrace \<Rightarrow> mem_state \<Rightarrow>
   ((ntstatus, u64) sum \<times> mem_state) result" where
  "usersim_platform_get_authentication_id fault sizing last_error query fault_alloc p bt bt' h =
     (if fault then Inr (Inl STATUS_NO_MEMORY, h)
      else if snd sizing \<noteq> ERROR_INSUFFICIENT_BUFFER then Inr (Inl (win32_error_to_usersim_error last_error), h)
      else case cx_alloc USERSIM_TAG_TOKEN_GROUPS_AND_PRIVILEGES (fault_alloc, p, bt, ucast (fst sizing)) h of
             Inl e \<Rightarrow> Inl e
           | Inr (privileges, h1) \<Rightarrow>
               if privileges = nullptr then Inr (Inl STATUS_NO_MEMORY, h1)
               else (case cx_free USERSIM_TAG_TOKEN_GROUPS_AND_PRIVILEGES bt' privileges h1 of
                       Inl e \<Rightarrow> Inl e
                     | Inr h2 \<Rightarrow> Inr (case query of Inl error \<Rightarrow> Inl (win32_error_to_usersim_error error) | Inr i \<Rightarrow> Inr i, h2)))"

text \<open>\<open>needed\<close> and \<open>converted\<close> are the two answers of \<^verbatim>\<open>MultiByteToWideChar\<close>, both signed.\<close>

definition usersim_utf8_string_to_unicode ::
  "u32 \<Rightarrow> u32 \<Rightarrow> bool \<Rightarrow> ptr \<Rightarrow> backtrace \<Rightarrow> backtrace \<Rightarrow> mem_state \<Rightarrow> (ntstatus \<times> ptr option \<times> mem_state) result" where
  "usersim_utf8_string_to_unicode needed converted fault p bt bt' h =
     (let done = (\<lambda>status output unicode_string h. case cx_free USERSIM_TAG_UNICODE_STRING bt' unicode_string h of
                    Inl e \<Rightarrow> Inl e | Inr h' \<Rightarrow> Inr (status, output, h'))
      in if sint needed \<le> 0 then done STATUS_INVALID_PARAMETER None nullptr h
         else case cx_alloc USERSIM_TAG_UNICODE_STRING (fault, p, bt, scast (needed + 1) * 2) h of
                Inl e \<Rightarrow> Inl e
              | Inr (unicode_string, h1) \<Rightarrow>
                  if unicode_string = nullptr then done STATUS_NO_MEMORY None nullptr h1
                  else if converted = 0 then done STATUS_INVALID_PARAMETER None unicode_string h1
                  else done STATUS_SUCCESS (Some unicode_string) nullptr h1)"

section \<open>Tags\<close>

text \<open>A pool object can be released with the tag of its allocation, and other objects keep their tags.\<close>

definition np_tag :: "mem_state \<Rightarrow> ptr \<Rightarrow> u32" where
  "np_tag s m = hd_tag (headers s (m - 80))"

lemma free_with_tag: "np_tag s m = tag \<Longrightarrow> ExFreePoolWithTagCPP bt m tag s = ExFreePoolCPP bt m s"
  by (simp add: ExFreePoolWithTagCPP_def ExFreePoolCPP_def cxplat_free_def np_tag_def header_from_pointer_def Let_def)

lemma np_alloc_tag:
  assumes "np_alloc (pool_answer a tag) s = Inr (m, s1)" "np_fresh (pool_answer a tag) s" "m \<noteq> nullptr"
  shows "np_tag s1 m = tag" "np_owned s m' \<Longrightarrow> np_tag s1 m' = np_tag s m'"
proof -
  obtain fault p bt n where a: "a = (fault, p, bt, n)" by (cases a)
  have f: "blocks s p = None" "p + 16 \<noteq> nullptr" "p + 80 \<noteq> nullptr" using assms(2) by (simp_all add: np_fresh_def pool_answer_def a)
  have al: "np_alloc (fault, p, bt, n, tag) s = Inr (m, s1)" using assms(1) by (simp add: pool_answer_def a)
  obtain s0 where c: "cxplat_allocate fault p bt NP_FLAGS (64 + n) tag s = Inr (p + 16, s0)" "m = p + 80"
      "s1 = s0\<lparr>pool_headers := (pool_headers s0)(p + 16 := NP_FLAGS)\<rparr>"
    by (rule np_alloc_cases [OF al f]) (use assms(3) in simp_all)
  note S = allocate_success [OF c(1) f(2)]
  show "np_tag s1 m = tag" using c(2,3) S(4) by (simp add: np_tag_def new_header_def)
  show "np_tag s1 m' = np_tag s m'" if "np_owned s m'"
    using that c(3) S(4) f(1) by (auto simp: np_tag_def np_owned_iff)
qed

lemma heap_free_headers: "heap_free b al s = Inr s1 \<Longrightarrow> headers s1 = headers s"
  by (auto simp: heap_free_def split: if_splits option.splits prod.splits)

lemma pool_free_tags: "ExFreePoolCPP bt m s = Inr s1 \<Longrightarrow> np_tag s1 m' = np_tag s m'"
  by (auto simp: ExFreePoolCPP_def cxplat_free_def np_tag_def Let_def heap_free_headers split: if_splits option.splits sum.splits
      dest!: heap_free_headers)

section \<open>The life of a net buffer list\<close>

text \<open>Every known list and buffer is a pool object.\<close>

definition buffers_inv :: "buffer_state \<Rightarrow> bool" where
  "buffers_inv s \<longleftrightarrow> (\<forall>m. FirstNetBuffer (nb_objects s) m \<noteq> None \<or> net_buffers (nb_objects s) m \<noteq> None \<longrightarrow> np_owned (nb_heap s) m)"

lemma fresh_object:
  assumes "buffers_inv s" "np_alloc a (nb_heap s) = Inr (m, h)" "m \<noteq> nullptr" "np_fresh a (nb_heap s)"
  shows "FirstNetBuffer (nb_objects s) m = None \<and> net_buffers (nb_objects s) m = None"
  using np.alloc_ok [OF assms(2-4)] np.owned_view [of "nb_heap s" m] assms(1) unfolding buffers_inv_def by metis

text \<open>
  The two ways the allocation goes on once it has the list: without memory for the buffer it releases the list again; with it, the
  list and its buffer are recorded, and releasing the list gives both blocks back.
\<close>
abbreviation list_recorded :: "ptr \<Rightarrow> ndis_state \<Rightarrow> ndis_state" where
  "list_recorded nbl n \<equiv> n\<lparr>FirstNetBuffer := (FirstNetBuffer n)(nbl \<mapsto> nullptr)\<rparr>"

lemma net_buffer_alloc_fails:
  assumes inv: "buffers_inv s"
    and A: "np_alloc (pool_answer a USERSIM_TAG_NET_BUFFER_LIST) (nb_heap s) = Inr (nbl, h)" "nbl \<noteq> nullptr"
           "np_fresh (pool_answer a USERSIM_TAG_NET_BUFFER_LIST) (nb_heap s)"
    and B: "np_alloc (pool_answer a' USERSIM_TAG_NET_BUFFER) h = Inr (nullptr, h')" "np_fresh (pool_answer a' USERSIM_TAG_NET_BUFFER) h"
    and al: "FwpsAllocateNetBufferAndNetBufferList0 False a a' bt bt' mdl_chain data_length s = Inr (status, out, s1)"
  shows "status = STATUS_INSUFFICIENT_RESOURCES \<and> out = None \<and> blocks (nb_heap s1) = blocks (nb_heap s) \<and> nb_objects s1 = nb_objects s"
proof -
  let ?n = "list_recorded nbl (nb_objects s)"
  obtain h3 where h3: "ExFreePoolCPP bt' nbl h' = Inr h3" "blocks h3 = blocks (nb_heap s)"
    using np.second_fails [OF A B, of bt'] by blast
  have "h' = h" using B np_alloc_cases by (cases a') (auto simp: pool_answer_def np_fresh_def elim!: np_alloc_cases)
  then have "np_tag h' nbl = USERSIM_TAG_NET_BUFFER_LIST" using np_alloc_tag(1) [OF A(1,3,2)] by simp
  then have "FwpsFreeNetBufferList0 bt bt' nbl \<lparr>nb_heap = h', nb_objects = ?n\<rparr> = Inr \<lparr>nb_heap = h3, nb_objects = NdisFreeNetBufferList nbl ?n\<rparr>"
    using A(2) h3(1) by (simp add: FwpsFreeNetBufferList0_def free_with_tag)
  then have "status = STATUS_INSUFFICIENT_RESOURCES" "out = None" "s1 = \<lparr>nb_heap = h3, nb_objects = NdisFreeNetBufferList nbl ?n\<rparr>"
    using al A B by (simp_all add: FwpsAllocateNetBufferAndNetBufferList0_def Let_def)
  then show ?thesis using h3(2) fresh_object [OF inv A] by (simp add: NdisFreeNetBufferList_def fun_upd_idem)
qed

lemma net_buffer_list_released:
  assumes inv: "buffers_inv s"
    and A: "np_alloc (pool_answer a USERSIM_TAG_NET_BUFFER_LIST) (nb_heap s) = Inr (nbl, h)" "nbl \<noteq> nullptr"
           "np_fresh (pool_answer a USERSIM_TAG_NET_BUFFER_LIST) (nb_heap s)"
    and B: "np_alloc (pool_answer a' USERSIM_TAG_NET_BUFFER) h = Inr (nb, h')" "nb \<noteq> nullptr"
           "np_fresh (pool_answer a' USERSIM_TAG_NET_BUFFER) h"
  shows "\<exists>s2. FwpsFreeNetBufferList0 bt2 bt2' nbl \<lparr>nb_heap = h', nb_objects = (list_recorded nbl (nb_objects s))
             \<lparr>FirstNetBuffer := (FirstNetBuffer (list_recorded nbl (nb_objects s)))(nbl \<mapsto> nb),
              net_buffers := (net_buffers (list_recorded nbl (nb_objects s)))(nb \<mapsto> buf)\<rparr>\<rparr> = Inr s2 \<and>
           blocks (nb_heap s2) = blocks (nb_heap s) \<and> nb_objects s2 = nb_objects s"
proof -
  note own = np.alloc_ok [OF A] and ownB = np.alloc_ok [OF B]
  have T: "np_tag h' nb = USERSIM_TAG_NET_BUFFER" "np_tag h' nbl = USERSIM_TAG_NET_BUFFER_LIST"
    using np_alloc_tag [OF B(1,3,2)] np_alloc_tag(1) [OF A(1,3,2)] own by simp_all
  have "nb \<noteq> nbl" using own ownB np.owned_view [of h nbl] by auto
  moreover have "net_buffers (nb_objects s) nb = None"
    using inv ownB np.owned_view [of h nb] np.alloc_keeps [OF A(1,3), of nb] unfolding buffers_inv_def by metis
  moreover obtain h3 h4 where h: "ExFreePoolCPP bt2 nb h' = Inr h3" "ExFreePoolCPP bt2' nbl h3 = Inr h4" "blocks h4 = blocks (nb_heap s)"
    using np.nested_objects [OF A B, of bt2 bt2'] by blast
  ultimately show ?thesis
    using A(2) B(2) T fresh_object [OF inv A] pool_free_tags [OF h(1), of nbl]
    by (simp add: FwpsFreeNetBufferList0_def free_with_tag NdisFreeNetBuffer_def NdisFreeNetBufferList_def fun_upd_idem)
qed

text \<open>
  C38: a net buffer list of the filter engine is created and released without a trace. If the call, or one of its two allocations, fails,
  the blocks of the heap and the known buffers are as before and no list is returned. Otherwise the list has one buffer with the
  caller's memory descriptor list and the length cut to 32 bits, and releasing the list, with the two tags checked,
  succeeds and restores the blocks and the known buffers.
\<close>
theorem net_buffer_list_lifecycle:
  assumes inv: "buffers_inv s" and fresh: "np_fresh (pool_answer a USERSIM_TAG_NET_BUFFER_LIST) (nb_heap s)"
    and fresh': "\<forall>m h. np_alloc (pool_answer a USERSIM_TAG_NET_BUFFER_LIST) (nb_heap s) = Inr (m, h) \<longrightarrow>
                   np_fresh (pool_answer a' USERSIM_TAG_NET_BUFFER) h"
    and al: "FwpsAllocateNetBufferAndNetBufferList0 fault a a' bt bt' mdl_chain data_length s = Inr (status, out, s1)"
  shows "case out of
           None \<Rightarrow> \<not> NT_SUCCESS status \<and> blocks (nb_heap s1) = blocks (nb_heap s) \<and> nb_objects s1 = nb_objects s
         | Some nbl \<Rightarrow> status = STATUS_SUCCESS \<and>
             (\<exists>nb. FirstNetBuffer (nb_objects s1) nbl = Some nb \<and>
                   net_buffers (nb_objects s1) nb = Some \<lparr>DataLength = ucast data_length, MdlChain = mdl_chain\<rparr>) \<and>
             (\<exists>s2. FwpsFreeNetBufferList0 bt2 bt2' nbl s1 = Inr s2 \<and> blocks (nb_heap s2) = blocks (nb_heap s) \<and>
                   nb_objects s2 = nb_objects s)"
proof (cases fault)
  case True
  then show ?thesis using al by (simp add: FwpsAllocateNetBufferAndNetBufferList0_def)
next
  case nf: False
  have al': "FwpsAllocateNetBufferAndNetBufferList0 False a a' bt bt' mdl_chain data_length s = Inr (status, out, s1)" using al nf by simp
  obtain nbl h where A: "np_alloc (pool_answer a USERSIM_TAG_NET_BUFFER_LIST) (nb_heap s) = Inr (nbl, h)"
    using al nf by (auto simp: FwpsAllocateNetBufferAndNetBufferList0_def split: sum.splits)
  have fr': "np_fresh (pool_answer a' USERSIM_TAG_NET_BUFFER) h" using fresh' A by blast
  show ?thesis
  proof (cases "nbl = nullptr")
    case True
    then show ?thesis using al nf A np.alloc_fail [OF _ fresh] by (auto simp: FwpsAllocateNetBufferAndNetBufferList0_def)
  next
    case L: False
    obtain nb h' where B: "np_alloc (pool_answer a' USERSIM_TAG_NET_BUFFER) h = Inr (nb, h')"
      using al nf A L by (auto simp: FwpsAllocateNetBufferAndNetBufferList0_def Let_def split: sum.splits)
    show ?thesis
    proof (cases "nb = nullptr")
      case True
      then show ?thesis using net_buffer_alloc_fails [OF inv A L fresh B [unfolded True] fr' al'] by auto
    next
      case N: False
      let ?n = "list_recorded nbl (nb_objects s)"
      have "status = STATUS_SUCCESS" "out = Some nbl" "s1 = \<lparr>nb_heap = h', nb_objects = ?n\<lparr>FirstNetBuffer := (FirstNetBuffer ?n)(nbl \<mapsto> nb),
          net_buffers := (net_buffers ?n)(nb \<mapsto> \<lparr>DataLength = ucast data_length, MdlChain = mdl_chain\<rparr>)\<rparr>\<rparr>"
        using al nf A L B N by (simp_all add: FwpsAllocateNetBufferAndNetBufferList0_def Let_def)
      then show ?thesis using net_buffer_list_released [OF inv A L fresh B N fr', of bt2 bt2'] by simp
    qed
  qed
qed

definition sample_buffers :: buffer_state where
  "sample_buffers = \<lparr>nb_heap = sample_heap, nb_objects = \<lparr>nb_mdls = Map.empty, net_buffers = Map.empty, FirstNetBuffer = Map.empty\<rparr>\<rparr>"

theorem net_buffer_list_lifecycle_witness:
  "\<exists>s1 s2. FwpsAllocateNetBufferAndNetBufferList0 False (False, 4096, None, 32) (False, 8192, None, 48) None None 0x50 0x100000007
             sample_buffers = Inr (STATUS_SUCCESS, Some 4176, s1) \<and>
           net_buffers (nb_objects s1) 8272 = Some \<lparr>DataLength = 7, MdlChain = 0x50\<rparr> \<and>
           FwpsFreeNetBufferList0 None None 4176 s1 = Inr s2 \<and> blocks (nb_heap s2) = Map.empty"
proof -
  let ?a = "(False, 4096, None, 32) :: answer" and ?a' = "(False, 8192, None, 48) :: answer"
  have inv: "buffers_inv sample_buffers" by (simp add: buffers_inv_def sample_buffers_def)
  have f: "np_fresh (pool_answer ?a USERSIM_TAG_NET_BUFFER_LIST) (nb_heap sample_buffers)"
    by (simp add: np_fresh_def pool_answer_def sample_buffers_def sample_heap_def)
  have f': "\<forall>m h. np_alloc (pool_answer ?a USERSIM_TAG_NET_BUFFER_LIST) (nb_heap sample_buffers) = Inr (m, h) \<longrightarrow>
              np_fresh (pool_answer ?a' USERSIM_TAG_NET_BUFFER) h"
    by (auto simp: np_fresh_def pool_answer_def sample_buffers_def sample_heap_def pool_eval)
  obtain s1 where s1: "FwpsAllocateNetBufferAndNetBufferList0 False ?a ?a' None None 0x50 0x100000007 sample_buffers =
      Inr (STATUS_SUCCESS, Some 4176, s1)" "net_buffers (nb_objects s1) 8272 = Some \<lparr>DataLength = 7, MdlChain = 0x50\<rparr>"
    by (simp add: FwpsAllocateNetBufferAndNetBufferList0_def pool_answer_def sample_buffers_def sample_heap_def pool_eval)
  from net_buffer_list_lifecycle [OF inv f f' s1(1), of None None] s1 show ?thesis
    by (auto simp: sample_buffers_def sample_heap_def)
qed

section \<open>The other objects\<close>

text \<open>
  A redirect handle and an event provider are one allocation each: creating and destroying them restores the blocks.
\<close>

lemma redirect_handle_roundtrip:
  assumes "FwpsRedirectHandleCreate0 fault p bt h = Inr (status, m, h1)" "cx_fresh (fault, p, bt, 1) h"
  shows "if status = STATUS_SUCCESS then \<exists>h2. FwpsRedirectHandleDestroy0 bt' m h1 = Inr h2 \<and> blocks h2 = blocks h
         else status = STATUS_NO_MEMORY \<and> m = nullptr \<and> blocks h1 = blocks h"
proof -
  obtain m' where m': "cx_alloc USERSIM_TAG_HANDLE (fault, p, bt, 1) h = Inr (m', h1)" "m = m'"
      "status = (if m' = nullptr then STATUS_NO_MEMORY else STATUS_SUCCESS)"
    using assms(1) by (auto simp: FwpsRedirectHandleCreate0_def split: sum.splits)
  then show ?thesis
    using cx.one_buffer [OF m'(1) _ assms(2), of bt'] cx.alloc_fail [of _ _ h h1] assms(2)
    by (auto simp: FwpsRedirectHandleDestroy0_def)
qed

lemma etw_provider_roundtrip:
  assumes "EtwRegister a guid callback context s = Inr (status, out, s1)" "cx_fresh a (etw_heap s)"
    and "\<forall>m. etw_providers s m \<noteq> None \<longrightarrow> cx_owned USERSIM_TAG_ETW_PROVIDER (etw_heap s) m"
  shows "case out of
           None \<Rightarrow> status = STATUS_NO_MEMORY \<and> blocks (etw_heap s1) = blocks (etw_heap s) \<and> etw_providers s1 = etw_providers s
         | Some m \<Rightarrow> status = STATUS_SUCCESS \<and>
             etw_providers s1 m = Some \<lparr>provider_id = guid, enable_callback = callback, callback_context = context\<rparr> \<and>
             (\<exists>s2. EtwUnregister bt m s1 = Inr (STATUS_SUCCESS, s2) \<and> blocks (etw_heap s2) = blocks (etw_heap s) \<and>
                   etw_providers s2 = etw_providers s)"
proof -
  obtain m h where A: "cx_alloc USERSIM_TAG_ETW_PROVIDER a (etw_heap s) = Inr (m, h)"
    using assms(1) by (auto simp: EtwRegister_def split: sum.splits)
  show ?thesis
  proof (cases "m = nullptr")
    case True
    then show ?thesis using assms(1,2) A cx.alloc_fail [of _ a "etw_heap s" h] by (auto simp: EtwRegister_def)
  next
    case False
    have "etw_providers s m = None"
      using assms(3) cx.alloc_ok [OF A False assms(2)] cx.owned_view [of USERSIM_TAG_ETW_PROVIDER "etw_heap s" m] by metis
    moreover obtain h2 where "cx_free USERSIM_TAG_ETW_PROVIDER bt m h = Inr h2" "blocks h2 = blocks (etw_heap s)"
      using cx.one_buffer [OF A False assms(2), of bt] by blast
    ultimately show ?thesis using assms(1) A False by (auto simp: EtwRegister_def EtwUnregister_def fun_upd_idem)
  qed
qed

text \<open>
  The identifier query keeps no buffer on any path, and the conversion of a string keeps one exactly when it succeeds.
\<close>

lemma authentication_id_memory:
  assumes "usersim_platform_get_authentication_id fault sizing last_error query fault_alloc p bt bt' h = Inr (r, h')"
    and "cx_fresh (fault_alloc, p, bt, ucast (fst sizing)) h"
  shows "blocks h' = blocks h \<and> (case r of Inl status \<Rightarrow> \<not> NT_SUCCESS status | Inr i \<Rightarrow> query = Inr i)"
proof (cases "fault \<or> snd sizing \<noteq> ERROR_INSUFFICIENT_BUFFER")
  case True
  then show ?thesis using assms(1) by (auto simp: usersim_platform_get_authentication_id_def split: if_splits)
next
  case False
  let ?T = USERSIM_TAG_TOKEN_GROUPS_AND_PRIVILEGES and ?a = "(fault_alloc, p, bt, ucast (fst sizing))"
  obtain m h1 where A: "cx_alloc ?T ?a h = Inr (m, h1)"
    using assms(1) False by (auto simp: usersim_platform_get_authentication_id_def split: sum.splits)
  show ?thesis
  proof (cases "m = nullptr")
    case True
    then show ?thesis using assms False A cx.alloc_fail [of ?T ?a h h1] by (auto simp: usersim_platform_get_authentication_id_def)
  next
    case m: False
    obtain h2 where "cx_free ?T bt' m h1 = Inr h2" "blocks h2 = blocks h" using cx.one_buffer [OF A m assms(2), of bt'] by blast
    then show ?thesis using assms(1) False A m
      by (auto simp: usersim_platform_get_authentication_id_def split: sum.splits)
  qed
qed

lemma unicode_conversion_memory:
  assumes "usersim_utf8_string_to_unicode needed converted fault p bt bt' h = Inr (status, out, h')"
    and "cx_fresh (fault, p, bt, scast (needed + 1) * 2) h"
  shows "case out of
           None \<Rightarrow> \<not> NT_SUCCESS status \<and> blocks h' = blocks h
         | Some m \<Rightarrow> status = STATUS_SUCCESS \<and> 0 < sint needed \<and> converted \<noteq> 0 \<and> cx_owned USERSIM_TAG_UNICODE_STRING h' m \<and>
             (\<exists>i. blocks h' = (blocks h)(cx_blk m \<mapsto> i))"
proof (cases "sint needed \<le> 0")
  case True
  then show ?thesis using assms(1) by (auto simp: usersim_utf8_string_to_unicode_def cx_free_def cxplat_free_def)
next
  case False
  let ?T = USERSIM_TAG_UNICODE_STRING and ?a = "(fault, p, bt, scast (needed + 1) * 2)"
  have null: "cx_free ?T bt' nullptr g = Inr g" for g by (simp add: cx_free_def cxplat_free_def)
  obtain m h1 where A: "cx_alloc ?T ?a h = Inr (m, h1)"
    using assms(1) False by (auto simp: usersim_utf8_string_to_unicode_def Let_def split: sum.splits)
  show ?thesis
  proof (cases "m = nullptr")
    case True
    then show ?thesis using assms False A cx.alloc_fail [of ?T ?a h h1] by (auto simp: usersim_utf8_string_to_unicode_def null)
  next
    case m: False
    obtain h2 where "cx_free ?T bt' m h1 = Inr h2" "blocks h2 = blocks h" using cx.one_buffer [OF A m assms(2), of bt'] by blast
    then show ?thesis using assms(1) False A m cx.alloc_ok [OF A m assms(2)]
      by (auto simp: usersim_utf8_string_to_unicode_def null split: if_splits) blast
  qed
qed

end
