(* ===== verification/Registry.thy ===== *)
theory Registry
  imports Security
begin

text \<open>
  \<^verbatim>\<open>ZwCreateKey\<close> of \<^verbatim>\<open>src/zw.cpp\<close>: the two registry roots that kernel code names by path, and the repetition under the
  user's root when the machine's root is denied. \<^verbatim>\<open>RegCreateKeyExW\<close> of the operating system is a parameter: from the root key, the
  path, the access mask and the state of the registry it answers an error code, the opened key with its disposition, and the new state.
  Names are lists of UTF-16 units. The class of a key is never passed on, because a call with a class is refused.
\<close>

section \<open>Paths\<close>

type_synonym wstring = "u16 list"

definition wide :: "string \<Rightarrow> wstring" where "wide = map (\<lambda>c. of_char c)"

definition hklm_path :: wstring where "hklm_path = wide (CHR 0x5C # ''Registry'' @ CHR 0x5C # ''Machine'' @ [CHR 0x5C])"
definition hkcu_path :: wstring where "hkcu_path = wide (CHR 0x5C # ''Registry'' @ CHR 0x5C # ''User'' @ [CHR 0x5C])"

text \<open>\<^verbatim>\<open>std::wstring::starts_with\<close>, and \<^verbatim>\<open>c_str\<close> as its reader sees it, up to the first null character.\<close>

fun starts_with :: "'a list \<Rightarrow> 'a list \<Rightarrow> bool" where
  "starts_with xs [] = True"
| "starts_with [] (p # ps) = False"
| "starts_with (x # xs) (p # ps) = (x = p \<and> starts_with xs ps)"

definition c_str :: "wstring \<Rightarrow> wstring" where "c_str s = takeWhile (\<lambda>c. c \<noteq> 0) s"

abbreviation ERROR_ACCESS_DENIED :: u32 where "ERROR_ACCESS_DENIED \<equiv> 5"
abbreviation HKEY_CURRENT_USER :: ptr where "HKEY_CURRENT_USER \<equiv> 0xFFFFFFFF80000001"
abbreviation HKEY_LOCAL_MACHINE :: ptr where "HKEY_LOCAL_MACHINE \<equiv> 0xFFFFFFFF80000002"

definition resolve_root :: "ptr \<Rightarrow> wstring \<Rightarrow> ptr \<times> wstring" where
  "resolve_root root_directory name =
     (if starts_with name hklm_path then (HKEY_LOCAL_MACHINE, drop (length hklm_path) name)
      else if starts_with name hkcu_path then (HKEY_CURRENT_USER, drop (length hkcu_path) name)
      else (root_directory, name))"

section \<open>Creating a key\<close>

type_synonym 'r reg_create = "ptr \<Rightarrow> wstring \<Rightarrow> u32 \<Rightarrow> 'r \<Rightarrow> u32 \<times> (ptr \<times> u32) option \<times> 'r"

text \<open>
  The object name is the first \<open>Length / 2\<close> units of its buffer. The disposition and the key are those of the last call.
\<close>

definition ZwCreateKey ::
  "'r reg_create \<Rightarrow> bool \<Rightarrow> u32 \<Rightarrow> ptr \<Rightarrow> u16 \<times> wstring \<Rightarrow> u32 \<Rightarrow> ptr \<Rightarrow> 'r \<Rightarrow> ntstatus \<times> (ptr \<times> u32) option \<times> 'r" where
  "ZwCreateKey RegCreateKeyExW fault desired_access root_directory object_name title_index class_string r =
     (if fault then (STATUS_INSUFFICIENT_RESOURCES, None, r)
      else if class_string \<noteq> nullptr \<or> title_index \<noteq> 0 then (STATUS_NOT_SUPPORTED, None, r)
      else
        let (root_key, relative_path) = resolve_root root_directory (take (unat (fst object_name) div 2) (snd object_name));
            (result, key, r1) = RegCreateKeyExW root_key (c_str relative_path) desired_access r;
            (result, key, r1) = (if result = ERROR_ACCESS_DENIED \<and> root_key = HKEY_LOCAL_MACHINE
                                 then RegCreateKeyExW HKEY_CURRENT_USER (c_str relative_path) desired_access r1
                                 else (result, key, r1))
        in (win32_error_code_to_usersim_result result, key, r1))"

section \<open>Which key is created\<close>

lemma starts_with_append [simp]: "starts_with (p @ xs) p"
  by (induction p) auto

lemma starts_with_take: "starts_with xs p \<longleftrightarrow> take (length p) xs = p"
  by (induction xs p rule: starts_with.induct) auto

lemma resolve_machine [simp]: "resolve_root d (hklm_path @ path) = (HKEY_LOCAL_MACHINE, path)"
  by (simp add: resolve_root_def)

lemma resolve_user [simp]: "resolve_root d (hkcu_path @ path) = (HKEY_CURRENT_USER, path)"
  by (simp add: resolve_root_def hklm_path_def hkcu_path_def wide_def)

text \<open>A name whose length field covers it completely.\<close>

definition counted_name :: "wstring \<Rightarrow> u16 \<times> wstring" where
  "counted_name name = (word_of_nat (2 * length name), name)"

lemma counted_name_units: "2 * length name < 2 ^ 16 \<Longrightarrow> take (unat (fst (counted_name name)) div 2) (snd (counted_name name)) = name"
  using unat_of_nat [of "2 * length name", where 'a = 16] by (simp add: counted_name_def)

text \<open>
  kernel code may create keys of the machine without its privileges. If the system answers access denied for a path under the
  machine's root, then \<^verbatim>\<open>ZwCreateKey\<close> of that path below \<^verbatim>\<open>\Registry\Machine\<close> is the same as of that path below \<^verbatim>\<open>\Registry\User\<close> in the
  registry the denial left: same status, same key, same registry. Any other answer is returned, converted, without a second attempt.
\<close>
theorem machine_key_falls_back:
  assumes "2 * length (hklm_path @ path) < 2 ^ 16" and "2 * length (hkcu_path @ path) < 2 ^ 16"
    and "reg HKEY_LOCAL_MACHINE (c_str path) desired_access r = (code, key, r1)"
  shows "ZwCreateKey reg False desired_access d (counted_name (hklm_path @ path)) 0 nullptr r =
           (if code = ERROR_ACCESS_DENIED then ZwCreateKey reg False desired_access d' (counted_name (hkcu_path @ path)) 0 nullptr r1
            else (win32_error_code_to_usersim_result code, key, r1))"
  using assms(3)
  by (cases "reg HKEY_CURRENT_USER (c_str path) desired_access r")
    (auto simp: ZwCreateKey_def counted_name_units [OF assms(1)] counted_name_units [OF assms(2)] split: prod.splits)

text \<open>Names outside the two roots stay relative to the caller's directory.\<close>

lemma relative_key:
  assumes "\<not> starts_with name hklm_path" "\<not> starts_with name hkcu_path" "d \<noteq> HKEY_LOCAL_MACHINE" "2 * length name < 2 ^ 16"
  shows "ZwCreateKey reg False desired_access d (counted_name name) 0 nullptr r =
           (case reg d (c_str name) desired_access r of (code, key, r1) \<Rightarrow> (win32_error_code_to_usersim_result code, key, r1))"
  using assms(1-3) by (auto simp: ZwCreateKey_def counted_name_units [OF assms(4)] resolve_root_def split: prod.splits)

text \<open>A registry that denies the machine's root and remembers the keys of the user.\<close>

definition user_registry :: "wstring list reg_create" where
  "user_registry root path access keys =
     (if root = HKEY_CURRENT_USER then (ERROR_SUCCESS, Some (0x40, if path \<in> set keys then 2 else 1), List.insert path keys)
      else (ERROR_ACCESS_DENIED, None, keys))"

theorem machine_key_falls_back_witness:
  "ZwCreateKey user_registry False 7 0 (counted_name (hklm_path @ [83, 87])) 0 nullptr [] = (STATUS_SUCCESS, Some (0x40, 1), [[83, 87]])"
proof -
  have l: "2 * length (hklm_path @ [83, 87]) < 2 ^ 16" "2 * length (hkcu_path @ [83, 87]) < 2 ^ 16"
    by (simp_all add: hklm_path_def hkcu_path_def wide_def)
  have d: "user_registry HKEY_LOCAL_MACHINE (c_str [83, 87]) 7 [] = (ERROR_ACCESS_DENIED, None, [])" by (simp add: user_registry_def)
  show ?thesis
    using machine_key_falls_back [where reg = user_registry, OF l d, of 0 0]
    by (simp add: ZwCreateKey_def counted_name_units [OF l(2)] user_registry_def c_str_def win32_error_code_to_usersim_result_def)
qed

end
