(* ===== verification/Driver_Dll.thy ===== *)
theory Driver_Dll
  imports Wdf
begin

text \<open>
  The entry point of a driver that was built as a DLL, \<^verbatim>\<open>usersim_dll_skeleton/dll_skeleton.cpp\<close>: loading the DLL runs the driver's entry
  routine against the framework of theory \<open>Wdf\<close>, unloading it runs the driver's unload callback, deletes its devices and unregisters
  the driver. The entry routine is a parameter, given the driver object of the DLL; \<open>unload\<close> is the callback of the registered
  configuration, if it has one. The answer of \<^verbatim>\<open>DllMain\<close> is paired with the state.
\<close>

section \<open>Operations\<close>

type_synonym driver_entry = "ptr \<Rightarrow> wdf_state \<Rightarrow> (ntstatus \<times> wdf_state) result"

definition UsersimStartDriver :: "driver_entry \<Rightarrow> ptr \<Rightarrow> wdf_state \<Rightarrow> (ntstatus \<times> wdf_state) result" where
  "UsersimStartDriver entry driver_object s = entry driver_object s"

definition usersim_dll_get_driver_from_module :: "wdf_state \<Rightarrow> ptr" where
  "usersim_dll_get_driver_from_module s = wdf_driver s"

text \<open>The loop over \<^verbatim>\<open>driver->devices\<close>; every round deletes one device, so as many rounds as there are devices suffice.\<close>

fun delete_devices :: "nat \<Rightarrow> wdf_state \<Rightarrow> wdf_state result" where
  "delete_devices k s =
     (if devices s = [] then Inr s
      else case k of
             0 \<Rightarrow> Inl Out_Of_Bounds
           | Suc k' \<Rightarrow> (case WdfObjectDelete (last (devices s)) s of Inl e \<Rightarrow> Inl e | Inr s' \<Rightarrow> delete_devices k' s'))"

declare delete_devices.simps [simp del]

text \<open>Without a registered driver the first line follows a null pointer.\<close>

definition UsersimStopDriver :: "(ptr \<Rightarrow> wdf_state \<Rightarrow> wdf_state result) option \<Rightarrow> wdf_state \<Rightarrow> wdf_state result" where
  "UsersimStopDriver unload s =
     (if wdf_driver s = nullptr then Inl Out_Of_Bounds
      else case (case unload of None \<Rightarrow> Inr s | Some f \<Rightarrow> f (wdf_driver s) s) of
             Inl e \<Rightarrow> Inl e
           | Inr s1 \<Rightarrow>
               (case delete_devices (length (devices s1)) s1 of
                  Inl e \<Rightarrow> Inl e
                | Inr s2 \<Rightarrow> Inr (s2\<lparr>wdf_driver := nullptr\<rparr>)))"

datatype dll_reason = DLL_PROCESS_ATTACH | DLL_THREAD_ATTACH | DLL_THREAD_DETACH | DLL_PROCESS_DETACH

definition DllMain ::
  "driver_entry \<Rightarrow> ptr \<Rightarrow> (ptr \<Rightarrow> wdf_state \<Rightarrow> wdf_state result) option \<Rightarrow> dll_reason \<Rightarrow> wdf_state \<Rightarrow> (bool \<times> wdf_state) result" where
  "DllMain entry driver_object unload reason s =
     (case reason of
        DLL_PROCESS_ATTACH \<Rightarrow>
          (case UsersimStartDriver entry driver_object s of
             Inl e \<Rightarrow> Inl e | Inr (status, s1) \<Rightarrow> Inr (NT_SUCCESS status, s1))
      | DLL_THREAD_ATTACH \<Rightarrow> Inr (True, s)
      | DLL_THREAD_DETACH \<Rightarrow> Inr (True, s)
      | DLL_PROCESS_DETACH \<Rightarrow> (case UsersimStopDriver unload s of Inl e \<Rightarrow> Inl e | Inr s1 \<Rightarrow> Inr (True, s1)))"

section \<open>Deleting all devices\<close>

lemma delete_devices_all:
  assumes "wdf_driver s \<noteq> nullptr" "distinct (devices s)" "\<forall>d \<in> set (devices s). d \<noteq> nullptr \<and> device_objects s d \<noteq> None"
    and "length (devices s) \<le> k"
  shows "delete_devices k s =
    Inr (s\<lparr>devices := [], device_objects := (\<lambda>d. if d \<in> set (devices s) then None else device_objects s d)\<rparr>)"
  using assms
proof (induction "devices s" arbitrary: s k rule: rev_induct)
  case Nil
  then show ?case by (simp add: delete_devices.simps)
next
  case (snoc d ds)
  note D = snoc.hyps(2) [symmetric]
  obtain k' where k: "k = Suc k'" "length ds \<le> k'" using snoc.prems(4) D by (cases k) auto
  let ?s = "s\<lparr>devices := ds, device_objects := (device_objects s)(d := None)\<rparr>"
  have "remove1 d (ds @ [d]) = ds" using snoc.prems(2) D by (simp add: remove1_append)
  then have del: "WdfObjectDelete (last (devices s)) s = Inr ?s"
    using snoc.prems(1,3) D by (auto simp: WdfObjectDelete_def Let_def)
  have "delete_devices k' ?s = Inr (?s\<lparr>devices := [], device_objects := (\<lambda>x. if x \<in> set (devices ?s) then None else device_objects ?s x)\<rparr>)"
    by (rule snoc.hyps(1)) (use snoc.prems D k in auto)
  moreover have "(\<lambda>x. if x \<in> set (devices ?s) then None else device_objects ?s x) =
      (\<lambda>x. if x \<in> set (devices s) then None else device_objects s x)" using D by (auto simp: fun_eq_iff)
  ultimately show ?case using k(1) del D by (simp add: delete_devices.simps [of "Suc k'"])
qed

text \<open>Stopping a driver without an unload callback.\<close>

lemma stop_driver:
  assumes "wdf_driver s \<noteq> nullptr" "distinct (devices s)" "\<forall>d \<in> set (devices s). d \<noteq> nullptr \<and> device_objects s d \<noteq> None"
  shows "UsersimStopDriver None s =
    Inr (s\<lparr>devices := [], device_objects := (\<lambda>d. if d \<in> set (devices s) then None else device_objects s d), wdf_driver := nullptr\<rparr>)"
  using assms by (simp add: UsersimStopDriver_def delete_devices_all)

section \<open>Loading and unloading\<close>

definition sample_entry :: "ptr \<Rightarrow> ptr \<Rightarrow> bool \<Rightarrow> ptr \<Rightarrow> ptr \<Rightarrow> driver_entry" where
  "sample_entry p_init p_device fault evt_add evt_control driver_object s =
     DriverEntry p_init p_device fault evt_add evt_control driver_object s"

text \<open>
  the sample driver can be loaded and unloaded. Loading it succeeds unless the creation of its queue fails, and then its one
  device exists; after a failure no device exists. In both cases the unload that follows (the system unloads a DLL whose load
  failed) deletes what is left: no driver, no devices, and the live structures are those from before the load.
\<close>
theorem driver_dll_roundtrip:
  assumes "wdf_driver s = nullptr" "devices s = []" "device_objects s p_device = None" "inits s p_init = None"
    and "driver_object \<noteq> nullptr" "evt_add \<noteq> nullptr" "p_init \<noteq> nullptr" "p_device \<noteq> nullptr"
  shows "\<exists>s1. DllMain (sample_entry p_init p_device fault evt_add evt_control) driver_object None DLL_PROCESS_ATTACH s = Inr (\<not> fault, s1) \<and>
     usersim_dll_get_driver_from_module s1 = driver_object \<and> devices s1 = (if fault then [] else [p_device]) \<and>
     DllMain (sample_entry p_init p_device fault evt_add evt_control) driver_object None DLL_PROCESS_DETACH s1 =
       Inr (True, s\<lparr>EvtDriverDeviceAdd := evt_add\<rparr>)"
proof -
  let ?i = "zero_init\<lparr>EvtIoDeviceControl := evt_control\<rparr>"
  let ?s1 = "s\<lparr>wdf_driver := driver_object, EvtDriverDeviceAdd := evt_add, devices := (if fault then [] else [p_device]),
      inits := inits s, device_objects := (if fault then device_objects s else (device_objects s)(p_device \<mapsto> ?i))\<rparr>"
  have "sample_entry p_init p_device fault evt_add evt_control driver_object s =
      Inr (if fault then STATUS_INSUFFICIENT_RESOURCES else STATUS_SUCCESS, ?s1)"
    using assms
    by (auto simp: sample_entry_def DriverEntry_def WdfDriverCreate_def WdfControlDeviceInitAllocate_def KmdfHelloWorldEvtDeviceAdd_def
        WdfDeviceCreate_def WdfDeviceInitFree_def WdfIoQueueCreate_def WdfObjectDelete_def Let_def fun_upd_idem)
  then have "DllMain (sample_entry p_init p_device fault evt_add evt_control) driver_object None DLL_PROCESS_ATTACH s = Inr (\<not> fault, ?s1)"
    by (simp add: DllMain_def UsersimStartDriver_def)
  moreover have "UsersimStopDriver None ?s1 = Inr (s\<lparr>EvtDriverDeviceAdd := evt_add\<rparr>)"
    using assms by (subst stop_driver) (auto simp: fun_eq_iff)
  ultimately show ?thesis by (intro exI [of _ ?s1]) (auto simp: DllMain_def usersim_dll_get_driver_from_module_def)
qed

theorem driver_dll_roundtrip_witness:
  "\<exists>s1. DllMain (sample_entry 256 512 False 1 2) 64 None DLL_PROCESS_ATTACH (sample_wdf\<lparr>wdf_driver := nullptr, devices := [], device_objects := Map.empty, inits := Map.empty\<rparr>) =
          Inr (True, s1) \<and> devices s1 = [512]"
  using driver_dll_roundtrip [of "sample_wdf\<lparr>wdf_driver := nullptr, devices := [], device_objects := Map.empty, inits := Map.empty\<rparr>"
      512 256 64 1 False 2] by auto

text \<open>
  A second driver DLL in the same process takes down the first. Its load fails because a driver is registered, the system then
  calls its entry point to unload it, and that unload deletes the devices of the driver that is registered, the first.
\<close>
lemma second_driver_stops_first:
  assumes "wdf_driver s \<noteq> nullptr" "distinct (devices s)" "\<forall>d \<in> set (devices s). d \<noteq> nullptr \<and> device_objects s d \<noteq> None"
  shows "DllMain (sample_entry p_init p_device fault evt_add evt_control) driver_object None DLL_PROCESS_ATTACH s = Inr (False, s)"
    and "\<exists>s1. DllMain (sample_entry p_init p_device fault evt_add evt_control) driver_object None DLL_PROCESS_DETACH s = Inr (True, s1) \<and>
           wdf_driver s1 = nullptr \<and> devices s1 = [] \<and> (\<forall>d \<in> set (devices s). device_objects s1 d = None)"
  using assms(1) stop_driver [OF assms]
  by (simp_all add: DllMain_def UsersimStartDriver_def sample_entry_def DriverEntry_def WdfDriverCreate_def)

end
