(* ===== verification/Semaphore.thy ===== *)
theory Semaphore
  imports Sync
begin

text \<open>
  Semaphores of \<^verbatim>\<open>src/ke.cpp\<close>: a \<^verbatim>\<open>KSEMAPHORE\<close> holds the handle of a semaphore of the operating system. The system is a parameter
  (\<open>sem_api\<close>) over a state of its own; the locale \<open>semaphore_laws\<close> states what it documents. A wait that has to block is outside
  the model: every wait here has a timeout, and the answer of the system says whether it ended in time.
\<close>

section \<open>The operating system\<close>

text \<open>
  \<^verbatim>\<open>CreateSemaphore\<close> answers the handle, null on failure; \<^verbatim>\<open>ReleaseSemaphore\<close> the previous count, or nothing on failure; a wait its result code.
\<close>

record 'o sem_api =
  CreateSemaphore :: "int \<Rightarrow> int \<Rightarrow> 'o \<Rightarrow> ptr \<times> 'o"
  ReleaseSemaphore :: "ptr \<Rightarrow> int \<Rightarrow> 'o \<Rightarrow> int option \<times> 'o"
  WaitForSingleObject :: "ptr \<Rightarrow> u32 \<Rightarrow> 'o \<Rightarrow> u32 \<times> 'o"
  CloseHandle :: "ptr \<Rightarrow> 'o \<Rightarrow> 'o"

record ksemaphore =
  sem_object_type :: object_type
  sem_handle :: ptr

record 'o sem_state =
  sem_os :: 'o
  usersim_semaphore_handles :: "ptr list option"

abbreviation INVALID_HANDLE_VALUE :: ptr where "INVALID_HANDLE_VALUE \<equiv> - 1"

section \<open>Operations\<close>

definition KeInitializeSemaphore :: "'o sem_api \<Rightarrow> int \<Rightarrow> int \<Rightarrow> 'o sem_state \<Rightarrow> (ksemaphore \<times> 'o sem_state) result" where
  "KeInitializeSemaphore api count limit s =
     (case CreateSemaphore api count limit (sem_os s) of
        (handle, os) \<Rightarrow>
          if handle = INVALID_HANDLE_VALUE then Inl (Bug_Check 0)
          else
            let handles = (case usersim_semaphore_handles s of None \<Rightarrow> [] | Some hs \<Rightarrow> hs)
            in Inr (\<lparr>sem_object_type = Type_Semaphore, sem_handle = handle\<rparr>,
                    \<lparr>sem_os = os, usersim_semaphore_handles = Some (handles @ [handle])\<rparr>))"

definition free_semaphore_handles :: "'o sem_api \<Rightarrow> 'o sem_state \<Rightarrow> 'o sem_state" where
  "free_semaphore_handles api s =
     (case usersim_semaphore_handles s of
        None \<Rightarrow> s
      | Some handles \<Rightarrow> \<lparr>sem_os = fold (CloseHandle api) handles (sem_os s), usersim_semaphore_handles = None\<rparr>)"

text \<open>\<open>garbage\<close> is what the uninitialized variable \<^verbatim>\<open>previous_count\<close> holds; it is returned when the release fails.\<close>

definition KeReleaseSemaphore :: "'o sem_api \<Rightarrow> int \<Rightarrow> int \<Rightarrow> ksemaphore \<Rightarrow> 'o sem_state \<Rightarrow> (int \<times> 'o sem_state) result" where
  "KeReleaseSemaphore api garbage adjustment semaphore s =
     (if sem_object_type semaphore \<noteq> Type_Semaphore then Inl (Bug_Check 0)
      else case ReleaseSemaphore api (sem_handle semaphore) adjustment (sem_os s) of
        (previous, os) \<Rightarrow>
          let previous_count = (case previous of None \<Rightarrow> garbage | Some c \<Rightarrow> c)
          in if previous_count < 0 then Inl (Bug_Check 0) else Inr (previous_count, s\<lparr>sem_os := os\<rparr>))"

definition KeReadStateSemaphore :: "'o sem_api \<Rightarrow> ksemaphore \<Rightarrow> 'o sem_state \<Rightarrow> (int \<times> 'o sem_state) result" where
  "KeReadStateSemaphore api semaphore s =
     (if sem_object_type semaphore \<noteq> Type_Semaphore then Inl (Bug_Check 0)
      else case WaitForSingleObject api (sem_handle semaphore) 0 (sem_os s) of
        (r, os) \<Rightarrow>
          if r = WAIT_TIMEOUT then Inr (0, s\<lparr>sem_os := os\<rparr>)
          else Inr (1, s\<lparr>sem_os := snd (ReleaseSemaphore api (sem_handle semaphore) 1 os)\<rparr>))"

text \<open>The wait of theory \<open>Sync\<close> on a semaphore.\<close>

definition wait_semaphore :: "'o sem_api \<Rightarrow> int option \<Rightarrow> ksemaphore \<Rightarrow> 'o sem_state \<Rightarrow> (ntstatus \<times> 'o sem_state) result" where
  "wait_semaphore api timeout semaphore s =
     (let wait = (\<lambda>ms. WaitForSingleObject api (sem_handle semaphore) ms (sem_os s))
      in case KeWaitForSingleObject (Wait_Semaphore (\<lambda>ms. fst (wait ms))) timeout 0 [] of
           Inl e \<Rightarrow> Inl e
         | Inr (Semaphore_Wait status) \<Rightarrow> Inr (status, s\<lparr>sem_os := snd (wait (semaphore_timeout_ms timeout))\<rparr>)
         | Inr (Event_Wait _) \<Rightarrow> Inl Out_Of_Bounds)"

section \<open>A counter\<close>

text \<open>
  What a client sees: a count between 0 and the limit. A wait here does not block. A release carries the value that the uninitialized
  variable of this call happens to hold: the caller gets it when the release is refused, and the assertion fails if it is negative.
\<close>

datatype sem_op = Sem_Release int int | Sem_Poll | Sem_Read

fun counter_step :: "int \<Rightarrow> sem_op \<Rightarrow> int \<Rightarrow> (int \<times> int) result" where
  "counter_step limit (Sem_Release garbage n) c =
     (if 0 < n \<and> c + n \<le> limit then Inr (c, c + n) else if garbage < 0 then Inl (Bug_Check 0) else Inr (garbage, c))"
| "counter_step limit Sem_Poll c = Inr (if 0 < c then (uint STATUS_SUCCESS, c - 1) else (uint STATUS_TIMEOUT, c))"
| "counter_step limit Sem_Read c = Inr (if 0 < c then 1 else 0, c)"

fun counter_run :: "int \<Rightarrow> sem_op list \<Rightarrow> int \<Rightarrow> (int list \<times> int) result" where
  "counter_run limit [] c = Inr ([], c)"
| "counter_run limit (x # xs) c =
     (case counter_step limit x c of
        Inl e \<Rightarrow> Inl e
      | Inr (r, c1) \<Rightarrow> (case counter_run limit xs c1 of Inl e \<Rightarrow> Inl e | Inr (rs, c2) \<Rightarrow> Inr (r # rs, c2)))"

definition sem_step :: "'o sem_api \<Rightarrow> ksemaphore \<Rightarrow> sem_op \<Rightarrow> 'o sem_state \<Rightarrow> (int \<times> 'o sem_state) result" where
  "sem_step api semaphore x s =
     (case x of
        Sem_Release garbage n \<Rightarrow> KeReleaseSemaphore api garbage n semaphore s
      | Sem_Poll \<Rightarrow> (case wait_semaphore api (Some 0) semaphore s of Inl e \<Rightarrow> Inl e | Inr (status, s1) \<Rightarrow> Inr (uint status, s1))
      | Sem_Read \<Rightarrow> KeReadStateSemaphore api semaphore s)"

fun sem_run :: "'o sem_api \<Rightarrow> ksemaphore \<Rightarrow> sem_op list \<Rightarrow> 'o sem_state \<Rightarrow> (int list \<times> 'o sem_state) result" where
  "sem_run api semaphore [] s = Inr ([], s)"
| "sem_run api semaphore (x # xs) s =
     (case sem_step api semaphore x s of
        Inl e \<Rightarrow> Inl e
      | Inr (r, s1) \<Rightarrow> (case sem_run api semaphore xs s1 of Inl e \<Rightarrow> Inl e | Inr (rs, s2) \<Rightarrow> Inr (r # rs, s2)))"

text \<open>A run of the code answers what the counter answers and leaves the system's count at the counter's.\<close>

definition sem_counts :: "('o \<Rightarrow> ptr \<rightharpoonup> int \<times> int) \<Rightarrow> ptr \<Rightarrow> int \<Rightarrow> 'o \<Rightarrow> ('x \<times> int) result \<Rightarrow> ('x \<times> 'o sem_state) result \<Rightarrow> bool" where
  "sem_counts sems h limit os spec run \<longleftrightarrow>
     (case spec of
        Inl e \<Rightarrow> run = Inl e
      | Inr (r, c) \<Rightarrow> \<exists>s1. run = Inr (r, s1) \<and> sems (sem_os s1) = (sems os)(h \<mapsto> (c, limit)) \<and> 0 \<le> c \<and> c \<le> limit)"

section \<open>The contract\<close>

locale semaphore_laws =
  fixes api :: "'o sem_api" and sems :: "'o \<Rightarrow> ptr \<rightharpoonup> int \<times> int"
  assumes created: "CreateSemaphore api c limit o1 = (h, o2) \<Longrightarrow> h \<noteq> nullptr \<Longrightarrow>
       0 \<le> c \<and> c \<le> limit \<and> 0 < limit \<and> sems o1 h = None \<and> sems o2 = (sems o1)(h \<mapsto> (c, limit)) \<and> h \<noteq> INVALID_HANDLE_VALUE"
    and not_created: "CreateSemaphore api c limit o1 = (nullptr, o2) \<Longrightarrow> sems o2 = sems o1"
    and released: "sems o1 h = Some (c, limit) \<Longrightarrow> ReleaseSemaphore api h n o1 = (r, o2) \<Longrightarrow>
       (if 0 < n \<and> c + n \<le> limit then r = Some c \<and> sems o2 = (sems o1)(h \<mapsto> (c + n, limit)) else r = None \<and> sems o2 = sems o1)"
    and waited: "sems o1 h = Some (c, limit) \<Longrightarrow> WaitForSingleObject api h ms o1 = (code, o2) \<Longrightarrow> 0 < c \<Longrightarrow>
       code = WAIT_OBJECT_0 \<and> sems o2 = (sems o1)(h \<mapsto> (c - 1, limit))"
    and polled: "sems o1 h = Some (0, limit) \<Longrightarrow> WaitForSingleObject api h 0 o1 = (code, o2) \<Longrightarrow> code = WAIT_TIMEOUT \<and> sems o2 = sems o1"
begin

lemma step_counts:
  assumes "sems (sem_os s) h = Some (c, limit)" "0 \<le> c" "c \<le> limit"
  shows "sem_counts sems h limit (sem_os s) (counter_step limit x c) (sem_step api \<lparr>sem_object_type = Type_Semaphore, sem_handle = h\<rparr> x s)"
proof (cases x)
  case (Sem_Release garbage n)
  obtain r o2 where r: "ReleaseSemaphore api h n (sem_os s) = (r, o2)" by fastforce
  then show ?thesis using released [OF assms(1) r] assms Sem_Release
    by (auto simp: sem_counts_def sem_step_def KeReleaseSemaphore_def fun_upd_idem split: if_splits)
next
  case Sem_Poll
  obtain r o2 where r: "WaitForSingleObject api h 0 (sem_os s) = (r, o2)" by fastforce
  have t: "semaphore_timeout_ms (Some 0) = 0" by (simp add: semaphore_timeout_ms_def)
  show ?thesis
  proof (cases "0 < c")
    case True
    then show ?thesis using waited [OF assms(1) r] assms Sem_Poll r t
      by (auto simp: sem_counts_def sem_step_def wait_semaphore_def KeWaitForSingleObject_def semaphore_wait_status_def Let_def)
  next
    case False
    then have c: "c = 0" using assms(2) by simp
    show ?thesis using polled [OF assms(1) [unfolded c] r] assms Sem_Poll r t c
      by (auto simp: sem_counts_def sem_step_def wait_semaphore_def KeWaitForSingleObject_def semaphore_wait_status_def Let_def fun_upd_idem)
  qed
next
  case Sem_Read
  obtain r o2 where r: "WaitForSingleObject api h 0 (sem_os s) = (r, o2)" by fastforce
  show ?thesis
  proof (cases "0 < c")
    case True
    have w: "r = WAIT_OBJECT_0" "sems o2 = (sems (sem_os s))(h \<mapsto> (c - 1, limit))" using waited [OF assms(1) r True] by simp_all
    obtain p o3 where p: "ReleaseSemaphore api h 1 o2 = (p, o3)" by fastforce
    have "sems o3 = (sems (sem_os s))(h \<mapsto> (c, limit))"
      using released [OF _ p, of "c - 1" limit] w(2) assms(3) by auto
    then show ?thesis using Sem_Read r w(1) p True assms by (auto simp: sem_counts_def sem_step_def KeReadStateSemaphore_def)
  next
    case False
    then have c: "c = 0" using assms(2) by simp
    show ?thesis using polled [OF assms(1) [unfolded c] r] assms Sem_Read r c
      by (auto simp: sem_counts_def sem_step_def KeReadStateSemaphore_def fun_upd_idem)
  qed
qed

lemma run_counts:
  assumes "sems (sem_os s) h = Some (c, limit)" "0 \<le> c" "c \<le> limit"
  shows "sem_counts sems h limit (sem_os s) (counter_run limit xs c) (sem_run api \<lparr>sem_object_type = Type_Semaphore, sem_handle = h\<rparr> xs s)"
  using assms
proof (induction xs arbitrary: s c)
  case Nil
  then show ?case by (simp add: sem_counts_def fun_upd_idem)
next
  case (Cons x xs)
  note C = step_counts [OF Cons.prems, of x]
  show ?case
  proof (cases "counter_step limit x c")
    case (Inl e)
    then show ?thesis using C by (simp add: sem_counts_def)
  next
    case (Inr rc)
    obtain r c1 where rc: "rc = (r, c1)" by fastforce
    obtain s1 where s1: "sem_step api \<lparr>sem_object_type = Type_Semaphore, sem_handle = h\<rparr> x s = Inr (r, s1)"
       "sems (sem_os s1) = (sems (sem_os s))(h \<mapsto> (c1, limit))" "0 \<le> c1" "c1 \<le> limit"
      using C Inr rc by (auto simp: sem_counts_def)
    have "sem_counts sems h limit (sem_os s1) (counter_run limit xs c1) (sem_run api \<lparr>sem_object_type = Type_Semaphore, sem_handle = h\<rparr> xs s1)"
      by (rule Cons.IH) (simp_all add: s1)
    then show ?thesis using Inr rc s1 by (auto simp: sem_counts_def split: sum.splits prod.splits)
  qed
qed

end

section \<open>Semaphores count\<close>

text \<open>
  C39: a semaphore is a bounded counter. After \<^verbatim>\<open>KeInitializeSemaphore\<close> with a count and a limit for which the system created
  the semaphore (its handle is not null), every sequence of releases, waits that do not block and state queries answers exactly what a
  bounded counter answers. A release of a positive number within the limit adds it and returns the previous count; any other release leaves
  the count as it was and returns whatever the uninitialized variable held, or stops the sequence by a failed assertion if that is
  negative. A wait succeeds and takes one while the count is positive and times out at zero; a query tells whether it is positive and leaves
  the count as it was. The count of the system's semaphore is the counter's, between 0 and the limit, and nothing else fails.
\<close>
theorem semaphore_counts:
  assumes "semaphore_laws api sems" and "KeInitializeSemaphore api count limit s = Inr (semaphore, s1)"
    and "sem_handle semaphore \<noteq> nullptr"
  shows "case counter_run limit xs count of
           Inl e \<Rightarrow> sem_run api semaphore xs s1 = Inl e
         | Inr (answers, c) \<Rightarrow> \<exists>s2. sem_run api semaphore xs s1 = Inr (answers, s2) \<and>
             sems (sem_os s2) = (sems (sem_os s))(sem_handle semaphore \<mapsto> (c, limit)) \<and> 0 \<le> c \<and> c \<le> limit"
proof -
  obtain h os where h: "CreateSemaphore api count limit (sem_os s) = (h, os)" by fastforce
  have sem: "semaphore = \<lparr>sem_object_type = Type_Semaphore, sem_handle = h\<rparr>" "sem_os s1 = os"
    using assms(2) h by (auto simp: KeInitializeSemaphore_def Let_def split: if_splits)
  have c: "0 \<le> count" "count \<le> limit" "sems os = (sems (sem_os s))(h \<mapsto> (count, limit))"
    using semaphore_laws.created [OF assms(1) h] assms(3) sem(1) by simp_all
  have k: "sems (sem_os s1) h = Some (count, limit)" using c(3) sem(2) by simp
  from semaphore_laws.run_counts [OF assms(1) k c(1,2), of xs] show ?thesis
    using c(3) sem by (auto simp: sem_counts_def split: sum.splits prod.splits)
qed

text \<open>A table of counts and limits, which keeps the laws; handles are given out in order.\<close>

definition simple_sems :: "(nat \<times> (ptr \<rightharpoonup> int \<times> int)) sem_api" where
  "simple_sems = \<lparr>
     CreateSemaphore = (\<lambda>c limit (n, m).
       let h = word_of_nat (Suc n)
       in if 0 \<le> c \<and> c \<le> limit \<and> 0 < limit \<and> m h = None \<and> h \<noteq> nullptr \<and> h \<noteq> INVALID_HANDLE_VALUE
          then (h, Suc n, m(h \<mapsto> (c, limit))) else (nullptr, n, m)),
     ReleaseSemaphore = (\<lambda>h k (n, m).
       case m h of
         None \<Rightarrow> (None, n, m)
       | Some (c, limit) \<Rightarrow> if 0 < k \<and> c + k \<le> limit then (Some c, n, m(h \<mapsto> (c + k, limit))) else (None, n, m)),
     WaitForSingleObject = (\<lambda>h ms (n, m).
       case m h of
         None \<Rightarrow> (0xFFFFFFFF, n, m)
       | Some (c, limit) \<Rightarrow> if 0 < c then (WAIT_OBJECT_0, n, m(h \<mapsto> (c - 1, limit))) else (WAIT_TIMEOUT, n, m)),
     CloseHandle = (\<lambda>h (n, m). (n, m(h := None)))\<rparr>"

interpretation simple_sems: semaphore_laws simple_sems snd
  by unfold_locales (auto simp: simple_sems_def Let_def split: if_splits option.splits prod.splits)

theorem semaphore_counts_witness:
  "\<exists>s1 s2. KeInitializeSemaphore simple_sems 1 3 \<lparr>sem_os = (0, Map.empty), usersim_semaphore_handles = None\<rparr> =
             Inr (\<lparr>sem_object_type = Type_Semaphore, sem_handle = 1\<rparr>, s1) \<and>
     sem_run simple_sems \<lparr>sem_object_type = Type_Semaphore, sem_handle = 1\<rparr>
       [Sem_Read, Sem_Poll, Sem_Poll, Sem_Release 7 2, Sem_Release 7 2, Sem_Read] s1 =
       Inr ([1, 0, 0x102, 0, 7, 1], s2) \<and> snd (sem_os s2) 1 = Some (2, 3) \<and>
     sem_run simple_sems \<lparr>sem_object_type = Type_Semaphore, sem_handle = 1\<rparr> [Sem_Release (- 5) 3] s1 = Inl (Bug_Check 0)"
proof -
  let ?xs = "[Sem_Read, Sem_Poll, Sem_Poll, Sem_Release 7 2, Sem_Release 7 2, Sem_Read]"
    and ?sem = "\<lparr>sem_object_type = Type_Semaphore, sem_handle = 1\<rparr>"
  let ?s = "\<lparr>sem_os = (0, Map.empty), usersim_semaphore_handles = None\<rparr> :: (nat \<times> (ptr \<rightharpoonup> int \<times> int)) sem_state"
  obtain s1 where s1: "KeInitializeSemaphore simple_sems 1 3 ?s = Inr (?sem, s1)"
    by (simp add: KeInitializeSemaphore_def simple_sems_def)
  note C = semaphore_counts [OF simple_sems.semaphore_laws_axioms s1]
  have "counter_run 3 ?xs 1 = Inr ([1, 0, 0x102, 0, 7, 1], 2)" "counter_run 3 [Sem_Release (- 5) 3] 1 = Inl (Bug_Check 0)"
    by simp_all
  with C [of ?xs] C [of "[Sem_Release (- 5) 3]"] s1 show ?thesis by auto
qed

text \<open>
  What the assertions do not catch. A semaphore that cannot be created has a null handle, not the invalid one the assertion looks
  for, so the initialization goes on with it. A release beyond the limit fails, and the caller gets the value of an uninitialized
  variable. A wait with a relative timeout of one millisecond waits for ever, because the negative quotient is the infinite timeout.
\<close>

lemma failed_semaphore_accepted:
  assumes "CreateSemaphore api count limit (sem_os s) = (nullptr, os)"
  shows "\<exists>s1. KeInitializeSemaphore api count limit s = Inr (\<lparr>sem_object_type = Type_Semaphore, sem_handle = nullptr\<rparr>, s1)"
  using assms by (simp add: KeInitializeSemaphore_def Let_def)

lemma release_over_limit:
  assumes "semaphore_laws api sems" "sems (sem_os s) h = Some (c, limit)" "limit < c + n" "0 \<le> garbage"
  shows "\<exists>s1. KeReleaseSemaphore api garbage n \<lparr>sem_object_type = Type_Semaphore, sem_handle = h\<rparr> s = Inr (garbage, s1)"
proof -
  obtain r o2 where r: "ReleaseSemaphore api h n (sem_os s) = (r, o2)" by fastforce
  then show ?thesis using semaphore_laws.released [OF assms(1,2) r] assms(3,4) by (simp add: KeReleaseSemaphore_def)
qed

lemma relative_timeout_is_infinite: "semaphore_timeout_ms (Some (- 10000)) = INFINITE"
  by (simp add: semaphore_timeout_ms_def)

end
