(* ===== verification/Exceptions.thy ===== *)
theory Exceptions
  imports Cxplat
begin

text \<open>
  The exceptions that end an operation: \<^verbatim>\<open>KeBugCheck\<close> and its variants of \<^verbatim>\<open>src/ke.cpp\<close>, \<^verbatim>\<open>RtlAssert\<close> of \<^verbatim>\<open>src/rtl.cpp\<close> and the \<^verbatim>\<open>ExRaise\<close>
  routines of \<^verbatim>\<open>src/ex.cpp\<close>. Each of them throws a \<^verbatim>\<open>std::exception\<close> whose message is all that a handler can see. The other
  theories use the values of type \<open>exn\<close> instead of messages; the theorem of this theory shows that nothing is lost: the messages tell those values apart.
\<close>

section \<open>Operations\<close>

text \<open>\<^verbatim>\<open>{:#0wx}\<close> of \<^verbatim>\<open>std::format\<close>: the prefix, then zeros up to the width, then the digits.\<close>

definition format_hex :: "nat \<Rightarrow> nat \<Rightarrow> string" where
  "format_hex w n = ''0x'' @ replicate (w - 2 - length (num_str 16 n)) CHR ''0'' @ num_str 16 n"

text \<open>A thrown exception is \<open>Inl\<close> with its message.\<close>

definition usersim_throw_exception :: "string \<Rightarrow> string + 'a" where
  "usersim_throw_exception message = Inl message"

definition KeBugCheckExCPP :: "u32 \<Rightarrow> u64 \<Rightarrow> u64 \<Rightarrow> u64 \<Rightarrow> u64 \<Rightarrow> string + 'a" where
  "KeBugCheckExCPP bug_check_code p1 p2 p3 p4 =
     usersim_throw_exception
       (''*** STOP '' @ format_hex 10 (unat bug_check_code) @ '' ('' @ format_hex 18 (unat p1) @ '','' @ format_hex 18 (unat p2) @ '','' @
        format_hex 18 (unat p3) @ '','' @ format_hex 18 (unat p4) @ '')'')"

definition KeBugCheckEx :: "u32 \<Rightarrow> u64 \<Rightarrow> u64 \<Rightarrow> u64 \<Rightarrow> u64 \<Rightarrow> string + 'a" where
  "KeBugCheckEx bug_check_code p1 p2 p3 p4 = KeBugCheckExCPP bug_check_code p1 p2 p3 p4"

definition KeBugCheck :: "u32 \<Rightarrow> string + 'a" where
  "KeBugCheck bug_check_code = KeBugCheckEx bug_check_code 0 0 0 0"

definition KeBugCheckCPP :: "u32 \<Rightarrow> string + 'a" where
  "KeBugCheckCPP bug_check_code = KeBugCheckExCPP bug_check_code 0 0 0 0"

text \<open>The text of the assertion, the file and the message are not used.\<close>

definition RtlAssertCPP :: "string \<Rightarrow> string \<Rightarrow> u32 \<Rightarrow> string option \<Rightarrow> string + 'a" where
  "RtlAssertCPP failed_assertion file_name line_number message = KeBugCheckEx 0 (ucast line_number) 0 0 0"

definition RtlAssert :: "string \<Rightarrow> string \<Rightarrow> u32 \<Rightarrow> string option \<Rightarrow> string + 'a" where
  "RtlAssert failed_assertion file_name line_number message = RtlAssertCPP failed_assertion file_name line_number message"

text \<open>\<^verbatim>\<open>NTSTATUS\<close> is a signed type, so the stream operator writes a signed number.\<close>

definition signed_str :: "int \<Rightarrow> string" where
  "signed_str i = (if i < 0 then CHR ''-'' # num_str 10 (nat (- i)) else num_str 10 (nat i))"

definition raise_status :: "ntstatus \<Rightarrow> string + 'a" where
  "raise_status status = usersim_throw_exception (''Exception: '' @ signed_str (sint status) @ [CHR 0x0A])"

definition ExRaiseAccessViolationCPP :: "string + 'a" where
  "ExRaiseAccessViolationCPP = raise_status STATUS_ACCESS_VIOLATION"

definition ExRaiseAccessViolation :: "string + 'a" where
  "ExRaiseAccessViolation = ExRaiseAccessViolationCPP"

definition ExRaiseDatatypeMisalignmentCPP :: "string + 'a" where
  "ExRaiseDatatypeMisalignmentCPP = raise_status STATUS_DATATYPE_MISALIGNMENT"

definition ExRaiseDatatypeMisalignment :: "string + 'a" where
  "ExRaiseDatatypeMisalignment = ExRaiseDatatypeMisalignmentCPP"

section \<open>The text of numbers\<close>

lemma num_str_inj: "num_str 16 m = num_str 16 n \<Longrightarrow> m = n" "num_str 10 m = num_str 10 n \<Longrightarrow> m = n"
  using num_str_hex num_str_dec by metis+

lemma num_str_length: "n < 16 ^ Suc k \<Longrightarrow> length (num_str 16 n) \<le> Suc k"
proof (induction k arbitrary: n)
  case 0
  then show ?case by (simp add: num_str.simps [of 16 n])
next
  case (Suc k)
  then have "length (num_str 16 (n div 16)) \<le> Suc k" by (simp add: Suc.IH)
  then show ?case by (simp add: num_str.simps [of 16 n])
qed

lemma format_hex_length: "n < 16 ^ Suc k \<Longrightarrow> length (format_hex (k + 3) n) = k + 3"
  using num_str_length [of n k] by (simp add: format_hex_def)

text \<open>Leading zeros do not change the value that is read back.\<close>

lemma format_hex_inj: "format_hex w m = format_hex w n \<Longrightarrow> m = n"
proof -
  assume e: "format_hex w m = format_hex w n"
  let ?v = "foldl (\<lambda>a c. 16 * a + the (hex_value c)) (0 :: nat)"
  have z: "?v (replicate k CHR ''0'') = 0" for k by (induction k) (simp_all add: hex_value_def)
  have "?v (drop 2 (format_hex w k)) = k" for k using num_str_hex [of k] by (simp add: format_hex_def z)
  with e show ?thesis by metis
qed

lemma format_hex_eq: "format_hex w m = format_hex w n \<longleftrightarrow> m = n"
  using format_hex_inj by blast

lemma signed_str_inj: "signed_str i = signed_str j \<Longrightarrow> i = j"
proof -
  have m: "dec_value CHR ''-'' = None" by (simp add: dec_value_def)
  have d: "CHR ''-'' # xs \<noteq> num_str 10 n" for n xs using num_str_dec [of n] m by (metis list.set_intros(1))
  assume "signed_str i = signed_str j"
  then show ?thesis using d d [symmetric] num_str_inj(2) [of "nat (- i)" "nat (- j)"] num_str_inj(2) [of "nat i" "nat j"]
    by (auto simp: signed_str_def split: if_splits)
qed

section \<open>What a handler can tell\<close>

lemma fields_inj:
  assumes "length a = length a'" "length b = length b'" "length c = length c'" "length d = length d'"
    and "pre @ a @ s1 @ b @ s2 @ c @ s2 @ d @ s2 @ e @ post = pre @ a' @ s1 @ b' @ s2 @ c' @ s2 @ d' @ s2 @ e' @ post"
  shows "a = a' \<and> b = b' \<and> c = c' \<and> d = d' \<and> e = e'"
  using assms by simp

lemma bug_check_message_inj:
  assumes "KeBugCheckEx c p1 p2 p3 p4 = (KeBugCheckEx c' q1 q2 q3 q4 :: string + 'a)"
  shows "c = c' \<and> p1 = q1 \<and> p2 = q2 \<and> p3 = q3 \<and> p4 = q4"
proof -
  have l: "length (format_hex 10 (unat x)) = 10" for x :: u32 using format_hex_length [of "unat x" 7] unsigned_less [of x] by simp
  have l': "length (format_hex 18 (unat x)) = 18" for x :: u64 using format_hex_length [of "unat x" 15] unsigned_less [of x] by simp
  note F = fields_inj [OF _ _ _ _ assms [unfolded KeBugCheckEx_def KeBugCheckExCPP_def usersim_throw_exception_def sum.inject]]
  have "format_hex 10 (unat c) = format_hex 10 (unat c') \<and> format_hex 18 (unat p1) = format_hex 18 (unat q1) \<and>
      format_hex 18 (unat p2) = format_hex 18 (unat q2) \<and> format_hex 18 (unat p3) = format_hex 18 (unat q3) \<and>
      format_hex 18 (unat p4) = format_hex 18 (unat q4)"
    by (rule F) (simp_all only: l l')
  then have "unat c = unat c' \<and> unat p1 = unat q1 \<and> unat p2 = unat q2 \<and> unat p3 = unat q3 \<and> unat p4 = unat q4"
    by (simp only: format_hex_eq)
  then show ?thesis by (simp only: word_unat_eq_iff)
qed

text \<open>
  the message of an exception identifies its cause. Two bug checks have the same message exactly if the code and all four
  parameters agree; two raised statuses have the same message exactly if they are the same status; a bug check is
  never taken for a raised status. Two failed assertions are told apart by their line number alone: the
  asserted text, the file and the message of the assertion leave no trace, and the assertion of \<^verbatim>\<open>src/ke.cpp\<close> looks like one in line 0.
\<close>
theorem exception_messages_identify:
  "(KeBugCheckEx c p1 p2 p3 p4 = (KeBugCheckEx c' q1 q2 q3 q4 :: string + 'a) \<longleftrightarrow> (c, p1, p2, p3, p4) = (c', q1, q2, q3, q4)) \<and>
   (raise_status st = (raise_status st' :: string + 'a) \<longleftrightarrow> st = st') \<and>
   KeBugCheckEx c p1 p2 p3 p4 \<noteq> (raise_status st :: string + 'a) \<and>
   (RtlAssert a f n m = (RtlAssert a' f' n' m' :: string + 'a) \<longleftrightarrow> n = n') \<and>
   KeBugCheckCPP 0 = (RtlAssert a f 0 m :: string + 'a)"
proof (intro conjI)
  show "KeBugCheckEx c p1 p2 p3 p4 = (KeBugCheckEx c' q1 q2 q3 q4 :: string + 'a) \<longleftrightarrow> (c, p1, p2, p3, p4) = (c', q1, q2, q3, q4)"
    using bug_check_message_inj by blast
  show "raise_status st = (raise_status st' :: string + 'a) \<longleftrightarrow> st = st'"
    using signed_str_inj signed_word_eqI by (auto simp: raise_status_def usersim_throw_exception_def)
  show "KeBugCheckEx c p1 p2 p3 p4 \<noteq> (raise_status st :: string + 'a)"
    by (simp add: KeBugCheckEx_def KeBugCheckExCPP_def raise_status_def usersim_throw_exception_def)
  have "(ucast n :: u64) = ucast n' \<Longrightarrow> n = n'" by (metis unat_ucast_32_64 unsigned_word_eqI)
  then show "RtlAssert a f n m = (RtlAssert a' f' n' m' :: string + 'a) \<longleftrightarrow> n = n'"
    unfolding RtlAssert_def RtlAssertCPP_def using bug_check_message_inj by metis
  show "KeBugCheckCPP 0 = (RtlAssert a f 0 m :: string + 'a)"
    by (simp add: KeBugCheckCPP_def RtlAssert_def RtlAssertCPP_def KeBugCheckEx_def)
qed

end
