(* ===== verification/Winkernel.thy ===== *)
theory Winkernel
  imports Pool Irql
begin

text \<open>
  The cross-platform layer as it is built for the kernel, \<^verbatim>\<open>cxplat/src/cxplat_winkernel\<close>: memory (\<^verbatim>\<open>memory_winkernel.c\<close>), the path of the module that
  contains an address (\<^verbatim>\<open>module_winkernel.c\<close>) and spin locks (\<^verbatim>\<open>processor_winkernel.c\<close>). It is written against the routines of the Windows
  kernel, which are parameters here (record \<open>kernel\<close>, and the records of answers below). What it relies on is
  the locale \<open>kernel_pool\<close>, and the pools that \<^verbatim>\<open>src/ex.cpp\<close> simulates are shown to provide it, so the layer also runs on this library's own kernel.
\<close>

unbundle bit_operations_syntax

section \<open>Memory\<close>

text \<open>
  \<^verbatim>\<open>ExAllocatePoolUninitialized\<close>, \<^verbatim>\<open>ExFreePoolWithTag\<close>, \<^verbatim>\<open>RtlZeroMemory\<close> and \<^verbatim>\<open>memcpy\<close>. The first argument of the first two stands for the
  choices of the system, for example the address of the new block.
\<close>

record ('a, 's) kernel =
  k_alloc :: "'a \<Rightarrow> u32 \<Rightarrow> u64 \<Rightarrow> u32 \<Rightarrow> 's \<Rightarrow> (ptr \<times> 's) result"
  k_free :: "'a \<Rightarrow> ptr \<Rightarrow> u32 \<Rightarrow> 's \<Rightarrow> 's result"
  k_zero :: "ptr \<Rightarrow> u64 \<Rightarrow> 's \<Rightarrow> 's"
  k_copy :: "ptr \<Rightarrow> ptr \<Rightarrow> u64 \<Rightarrow> 's \<Rightarrow> 's"

definition pool_flags_to_type :: "u32 \<Rightarrow> u32" where
  "pool_flags_to_type pool_flags =
     (let t0 = 0 :: u32;
          t1 = (if has_flag pool_flags CXPLAT_POOL_FLAG_PAGED then t0 OR PagedPool else t0);
          t2 = (if has_flag pool_flags CXPLAT_POOL_FLAG_CACHE_ALIGNED then t1 OR 4 else t1)
      in if has_flag pool_flags CXPLAT_POOL_FLAG_NON_PAGED then t2 OR NonPagedPoolNx else t2)"

definition winkernel_allocate :: "('a, 's) kernel \<Rightarrow> 'a \<Rightarrow> u32 \<Rightarrow> u64 \<Rightarrow> u32 \<Rightarrow> 's \<Rightarrow> (ptr \<times> 's) result" where
  "winkernel_allocate k a pool_flags sz tag s =
     (case k_alloc k a (pool_flags_to_type pool_flags) sz tag s of
        Inl e \<Rightarrow> Inl e
      | Inr (m, s1) \<Rightarrow>
          Inr (m, if m \<noteq> nullptr \<and> \<not> has_flag pool_flags CXPLAT_POOL_FLAG_UNINITIALIZED then k_zero k m sz s1 else s1))"

definition winkernel_free :: "('a, 's) kernel \<Rightarrow> 'a \<Rightarrow> ptr \<Rightarrow> u32 \<Rightarrow> u32 \<Rightarrow> 's \<Rightarrow> 's result" where
  "winkernel_free k a pointer pool_flags tag s = (if pointer \<noteq> nullptr then k_free k a pointer tag s else Inr s)"

definition winkernel_reallocate ::
  "('a, 's) kernel \<Rightarrow> 'a \<Rightarrow> 'a \<Rightarrow> ptr \<Rightarrow> u32 \<Rightarrow> u64 \<Rightarrow> u64 \<Rightarrow> u32 \<Rightarrow> 's \<Rightarrow> (ptr \<times> 's) result" where
  "winkernel_reallocate k a a' pointer pool_flags old_size new_size tag s =
     (case winkernel_allocate k a pool_flags new_size tag s of
        Inl e \<Rightarrow> Inl e
      | Inr (m, s1) \<Rightarrow>
          if m = nullptr then Inr (nullptr, s1)
          else case winkernel_free k a' pointer pool_flags tag (k_copy k m pointer (min old_size new_size) s1) of
                 Inl e \<Rightarrow> Inl e
               | Inr s2 \<Rightarrow> Inr (m, s2))"

section \<open>The module of an address\<close>

datatype module_status = Module_Success | Module_No_Memory | Module_Not_Found

abbreviation CXPLAT_TAG_MODULE_INFO :: u32 where "CXPLAT_TAG_MODULE_INFO \<equiv> 0x696d7863"

text \<open>
  The conversions of the system: \<^verbatim>\<open>RtlAnsiStringToUnicodeString\<close>, which also allocates the result, and \<^verbatim>\<open>RtlUnicodeToUTF8N\<close>, once for the size
  alone and once with a buffer. The state counts the converted strings that have not been freed with \<^verbatim>\<open>RtlFreeUnicodeString\<close> and keeps the
  text in the UTF-8 buffers.
\<close>

record string_os =
  ansi_to_unicode :: "u8 list \<Rightarrow> u16 list option"
  utf8_size :: "u16 list \<Rightarrow> u32 option"
  unicode_to_utf8 :: "u16 list \<Rightarrow> u32 \<Rightarrow> u8 list option"

record 's module_state =
  ms_kernel :: 's
  ms_unicode :: nat
  ms_strings :: "ptr \<rightharpoonup> u8 list"

text \<open>The length is computed in 32 bits.\<close>

definition convert_ansi_to_utf8_string ::
  "('a, 's) kernel \<Rightarrow> string_os \<Rightarrow> 'a \<Rightarrow> 'a \<Rightarrow> u8 list \<Rightarrow> 's module_state \<Rightarrow> ((module_status \<times> utf8_string) \<times> 's module_state) result" where
  "convert_ansi_to_utf8_string k os a a' ansi_string s =
     (case ansi_to_unicode os ansi_string of
        None \<Rightarrow> Inr ((Module_No_Memory, \<lparr>us_value = nullptr, us_length = 0\<rparr>), s)
      | Some unicode_str \<Rightarrow>
          let s1 = s\<lparr>ms_unicode := ms_unicode s + 1\<rparr>; free_unicode = (\<lambda>t. t\<lparr>ms_unicode := ms_unicode t - 1\<rparr>)
          in case utf8_size os unicode_str of
               None \<Rightarrow> Inr ((Module_No_Memory, \<lparr>us_value = nullptr, us_length = 0\<rparr>), free_unicode s1)
             | Some n \<Rightarrow>
                 let len = ucast (n + 1) :: u64
                 in case winkernel_allocate k a CXPLAT_POOL_FLAG_NON_PAGED len CXPLAT_TAG_UTF8_STRING (ms_kernel s1) of
                      Inl e \<Rightarrow> Inl e
                    | Inr (m, t) \<Rightarrow>
                        let s2 = s1\<lparr>ms_kernel := t\<rparr>
                        in if m = nullptr then Inr ((Module_No_Memory, \<lparr>us_value = nullptr, us_length = len\<rparr>), free_unicode s2)
                           else case unicode_to_utf8 os unicode_str n of
                             None \<Rightarrow>
                               (case winkernel_free k a' m CXPLAT_POOL_FLAG_NON_PAGED CXPLAT_TAG_UTF8_STRING (ms_kernel s2) of
                                  Inl e \<Rightarrow> Inl e
                                | Inr t' \<Rightarrow> Inr ((Module_No_Memory, \<lparr>us_value = nullptr, us_length = 0\<rparr>), free_unicode (s2\<lparr>ms_kernel := t'\<rparr>)))
                           | Some text \<Rightarrow>
                               Inr ((Module_Success, \<lparr>us_value = m, us_length = len\<rparr>),
                                    free_unicode (s2\<lparr>ms_strings := (ms_strings s2)(m \<mapsto> text @ [0])\<rparr>)))"

text \<open>The answers of \<^verbatim>\<open>AuxKlibInitialize\<close> and of the two calls of \<^verbatim>\<open>AuxKlibQueryModuleInformation\<close>; \<open>aux_entry\<close> is the size of an entry.\<close>

record module_info =
  mi_base :: u64
  mi_size :: u32
  mi_path :: "u8 list"

record module_os =
  aux_initialize :: bool
  aux_size :: u32
  aux_query :: "(u32 \<times> module_info list) option"
  aux_entry :: u32

fun find_module :: "u64 \<Rightarrow> module_info list \<Rightarrow> module_info option" where
  "find_module address [] = None"
| "find_module address (i # rest) =
     (let module_base = mi_base i; module_end = module_base + ucast (mi_size i)
      in if address \<ge> module_base \<and> address < module_end then Some i else find_module address rest)"

definition winkernel_get_module_path_from_address ::
  "('a, 's) kernel \<Rightarrow> string_os \<Rightarrow> module_os \<Rightarrow> 'a \<Rightarrow> 'a \<Rightarrow> 'a \<Rightarrow> 'a \<Rightarrow> u64 \<Rightarrow> 's module_state \<Rightarrow>
   ((module_status \<times> utf8_string option) \<times> 's module_state) result" where
  "winkernel_get_module_path_from_address k sos os a a' b b' address s =
     (if \<not> aux_initialize os then Inr ((Module_No_Memory, None), s)
      else if aux_size os = 0 then Inr ((Module_Not_Found, None), s)
      else case winkernel_allocate k a CXPLAT_POOL_FLAG_PAGED (ucast (aux_size os)) CXPLAT_TAG_MODULE_INFO (ms_kernel s) of
        Inl e \<Rightarrow> Inl e
      | Inr (m, t) \<Rightarrow>
          let s1 = s\<lparr>ms_kernel := t\<rparr>;
              leave = (\<lambda>r s. case winkernel_free k b m CXPLAT_POOL_FLAG_PAGED CXPLAT_TAG_MODULE_INFO (ms_kernel s) of
                               Inl e \<Rightarrow> Inl e | Inr t' \<Rightarrow> Inr (r, s\<lparr>ms_kernel := t'\<rparr>))
          in if m = nullptr then Inr ((Module_No_Memory, None), s1)
             else case aux_query os of
               None \<Rightarrow> leave (Module_Not_Found, None) s1
             | Some (buffer_size, module_infos) \<Rightarrow>
                 (case find_module address (take (unat (buffer_size div aux_entry os)) module_infos) of
                    None \<Rightarrow> leave (Module_Not_Found, None) s1
                  | Some i \<Rightarrow>
                      (case convert_ansi_to_utf8_string k sos a' b' (take (unat (word_of_nat (length (mi_path i)) :: u16)) (mi_path i)) s1 of
                         Inl e \<Rightarrow> Inl e
                       | Inr ((status, path), s2) \<Rightarrow> leave (status, Some path) s2)))"

text \<open>What the two functions should return: the text of a string, and the text of the path of the first module around an address.\<close>

definition converted :: "string_os \<Rightarrow> u8 list \<Rightarrow> (u32 \<times> u8 list) option" where
  "converted os ansi_string =
     Option.bind (ansi_to_unicode os ansi_string) (\<lambda>u. Option.bind (utf8_size os u) (\<lambda>n. map_option (Pair n) (unicode_to_utf8 os u n)))"

definition module_text :: "string_os \<Rightarrow> module_os \<Rightarrow> u64 \<Rightarrow> (u32 \<times> u8 list) option" where
  "module_text sos os address =
     Option.bind (aux_query os) (\<lambda>(z, ms). Option.bind (find_module address (take (unat (z div aux_entry os)) ms))
       (\<lambda>i. converted sos (take (unat (word_of_nat (length (mi_path i)) :: u16)) (mi_path i))))"

section \<open>What the layer relies on\<close>

lemma ucast_Suc_32_64:
  assumes "n \<noteq> (- 1 :: u32)"
  shows "0 < (ucast (n + 1) :: u64)" "(ucast (n + 1) :: u64) < 2 ^ 32" "(ucast (n + 1) :: u64) = ucast n + 1"
proof -
  have "1 + n \<noteq> 0" using assms by (metis add.commute eq_neg_iff_add_eq_0)
  then have s: "unat (n + 1) = Suc (unat n)" using unatSuc by (metis add.commute)
  have l: "unat (ucast (n + 1) :: u64) = Suc (unat n)" by (simp add: unat_ucast_32_64 s)
  have "unat (n + 1) < 2 ^ 32" using unsigned_less [of "n + 1"] by simp
  then have b: "Suc (unat n) < 2 ^ 32" by (simp only: s)
  show "0 < (ucast (n + 1) :: u64)" by (simp only: word_less_nat_alt l) simp
  show "(ucast (n + 1) :: u64) < 2 ^ 32" using b by (simp only: word_less_nat_alt l) simp
  have "unat (ucast n + 1 :: u64) = Suc (unat n)"
    using b by (simp add: unat_word_ariths unat_ucast_32_64 take_bit_nat_eq_self)
  then show "(ucast (n + 1) :: u64) = ucast n + 1" using l by (simp only: word_unat_eq_iff)
qed

text \<open>
  The pool of the kernel: \<open>view s\<close> are the blocks in use, \<open>owned tag s m\<close> says that the client holds \<open>m\<close>, allocated with that tag, and
  \<open>fresh\<close> that an answer of the system names memory that is not in use. Allocation may fail; a release of owned memory does not.
\<close>

locale kernel_pool =
  fixes k :: "('a, 's) kernel"
    and owned :: "u32 \<Rightarrow> 's \<Rightarrow> ptr \<Rightarrow> bool"
    and view :: "'s \<Rightarrow> ptr \<rightharpoonup> 'i"
    and blk :: "ptr \<Rightarrow> ptr"
    and fresh :: "'a \<Rightarrow> 's \<Rightarrow> bool"
  assumes alloc_returns: "ty \<in> {PagedPool, NonPagedPoolNx} \<Longrightarrow> tag \<noteq> 0 \<Longrightarrow> 0 < n \<Longrightarrow> n < 2 ^ 32 \<Longrightarrow> \<exists>m s1. k_alloc k a ty n tag s = Inr (m, s1)"
    and alloc_ok: "ty \<in> {PagedPool, NonPagedPoolNx} \<Longrightarrow> k_alloc k a ty n tag s = Inr (m, s1) \<Longrightarrow> m \<noteq> nullptr \<Longrightarrow> fresh a s \<Longrightarrow>
      owned tag s1 m \<and> view s (blk m) = None \<and> (\<exists>i. view s1 = (view s)(blk m \<mapsto> i))"
    and alloc_keeps: "ty \<in> {PagedPool, NonPagedPoolNx} \<Longrightarrow> k_alloc k a ty n tag s = Inr (m, s1) \<Longrightarrow> fresh a s \<Longrightarrow>
      owned tag' s m' \<Longrightarrow> owned tag' s1 m'"
    and alloc_fail: "ty \<in> {PagedPool, NonPagedPoolNx} \<Longrightarrow> k_alloc k a ty n tag s = Inr (nullptr, s1) \<Longrightarrow> fresh a s \<Longrightarrow> view s1 = view s"
    and owned_view: "owned tag s m \<Longrightarrow> m \<noteq> nullptr \<and> view s (blk m) \<noteq> None"
    and free_ok: "owned tag s m \<Longrightarrow> \<exists>s1. k_free k a m tag s = Inr s1 \<and> view s1 = (view s)(blk m := None) \<and>
      (\<forall>tag' m'. m' \<noteq> m \<longrightarrow> owned tag' s m' \<longrightarrow> owned tag' s1 m')"
    and zero_view: "view (k_zero k m n s) = view s" and zero_owned: "owned tag s m' \<Longrightarrow> owned tag (k_zero k m n s) m'"
    and copy_view: "view (k_copy k m m'' n s) = view s" and copy_owned: "owned tag s m' \<Longrightarrow> owned tag (k_copy k m m'' n s) m'"
    and fresh_view: "view s1 = view s \<Longrightarrow> fresh a s1 = fresh a s"
begin

lemma allocate_cases:
  assumes "fl \<in> {CXPLAT_POOL_FLAG_PAGED, CXPLAT_POOL_FLAG_NON_PAGED}" "tag \<noteq> 0" "0 < n" "n < 2 ^ 32" "fresh a s"
  obtains (fails) t where "winkernel_allocate k a fl n tag s = Inr (nullptr, t)" "view t = view s" "\<And>tag' m'. owned tag' s m' \<Longrightarrow> owned tag' t m'"
  | (succeeds) m t i where "winkernel_allocate k a fl n tag s = Inr (m, t)" "m \<noteq> nullptr" "owned tag t m" "view s (blk m) = None"
      "view t = (view s)(blk m \<mapsto> i)" "\<And>tag' m'. owned tag' s m' \<Longrightarrow> owned tag' t m'"
proof -
  have ty: "pool_flags_to_type fl \<in> {PagedPool, NonPagedPoolNx}" "\<not> has_flag fl CXPLAT_POOL_FLAG_UNINITIALIZED"
    using assms(1) by (auto simp: pool_flags_to_type_def has_flag_def)
  obtain m s1 where al: "k_alloc k a (pool_flags_to_type fl) n tag s = Inr (m, s1)" using alloc_returns [OF ty(1) assms(2-4)] by blast
  note keep = alloc_keeps [OF ty(1) al assms(5)]
  show ?thesis
  proof (cases "m = nullptr")
    case True
    show ?thesis by (rule fails [of s1]) (use True al alloc_fail [OF ty(1)] assms(5) keep in \<open>auto simp: winkernel_allocate_def\<close>)
  next
    case False
    obtain i where i: "owned tag s1 m" "view s (blk m) = None" "view s1 = (view s)(blk m \<mapsto> i)" using alloc_ok [OF ty(1) al False assms(5)] by blast
    show ?thesis by (rule succeeds [of m "k_zero k m n s1" i]) (use al False ty(2) i keep zero_view zero_owned in \<open>auto simp: winkernel_allocate_def\<close>)
  qed
qed

text \<open>A reallocation that succeeds moves the memory: the old block is gone and the new one is owned; one that fails keeps the old one.\<close>

lemma reallocate_cases:
  assumes "fl \<in> {CXPLAT_POOL_FLAG_PAGED, CXPLAT_POOL_FLAG_NON_PAGED}" "tag \<noteq> 0" "0 < n" "n < 2 ^ 32" "fresh a s" "owned tag s p"
  shows "\<exists>m t. winkernel_reallocate k a a' p fl old n tag s = Inr (m, t) \<and>
           (if m = nullptr then view t = view s \<and> owned tag t p
            else owned tag t m \<and> (\<exists>i. view t = (view s)(blk p := None, blk m \<mapsto> i)))"
proof (rule allocate_cases [OF assms(1-5)])
  fix t assume "winkernel_allocate k a fl n tag s = Inr (nullptr, t)" "view t = view s" "\<And>tag' m'. owned tag' s m' \<Longrightarrow> owned tag' t m'"
  then show ?thesis using assms(6) by (simp add: winkernel_reallocate_def)
next
  fix m t i assume c: "winkernel_allocate k a fl n tag s = Inr (m, t)" "m \<noteq> nullptr" "owned tag t m" "view s (blk m) = None"
      "view t = (view s)(blk m \<mapsto> i)" "\<And>tag' m'. owned tag' s m' \<Longrightarrow> owned tag' t m'"
  let ?t = "k_copy k m p (min old n) t"
  have ne: "blk p \<noteq> blk m" "p \<noteq> m" "p \<noteq> nullptr" using owned_view [OF assms(6)] c(4) by auto
  obtain t' where "k_free k a' p tag ?t = Inr t'" "view t' = (view ?t)(blk p := None)" "owned tag t' m"
    using free_ok [OF copy_owned [OF c(6) [OF assms(6)]], of a' m p "min old n"] copy_owned [OF c(3)] ne(2) by metis
  then show ?thesis using c(1,2,5) ne copy_view
    by (auto simp: winkernel_reallocate_def winkernel_free_def fun_upd_twist)
qed

text \<open>The buffer of a converted string is owned by the caller, who also gets its length and its text.\<close>

definition new_string :: "(u32 \<times> u8 list) option \<Rightarrow> utf8_string \<Rightarrow> 's module_state \<Rightarrow> 's module_state \<Rightarrow> bool" where
  "new_string txt path s s' \<longleftrightarrow>
     (\<exists>n bs i. txt = Some (n, bs) \<and> us_length path = ucast n + 1 \<and> ms_strings s' = (ms_strings s)(us_value path \<mapsto> bs @ [0]) \<and>
        owned CXPLAT_TAG_UTF8_STRING (ms_kernel s') (us_value path) \<and> view (ms_kernel s) (blk (us_value path)) = None \<and>
        view (ms_kernel s') = (view (ms_kernel s))(blk (us_value path) \<mapsto> i))"

definition nothing_new :: "'s module_state \<Rightarrow> 's module_state \<Rightarrow> bool" where
  "nothing_new s s' \<longleftrightarrow> view (ms_kernel s') = view (ms_kernel s) \<and> ms_strings s' = ms_strings s"

definition utf8_refused :: "'a \<Rightarrow> (u32 \<times> u8 list) option \<Rightarrow> 's \<Rightarrow> bool" where
  "utf8_refused a txt t \<longleftrightarrow>
     (\<exists>n bs t'. txt = Some (n, bs) \<and>
        winkernel_allocate k a CXPLAT_POOL_FLAG_NON_PAGED (ucast n + 1) CXPLAT_TAG_UTF8_STRING t = Inr (nullptr, t'))"

lemma convert_ok:
  assumes "fresh a (ms_kernel s)" and n: "\<And>u. utf8_size os u \<noteq> Some (- 1)"
  shows "\<exists>status path s'. convert_ansi_to_utf8_string k os a a' ansi s = Inr ((status, path), s') \<and> ms_unicode s' = ms_unicode s \<and>
           (\<forall>tag' m'. owned tag' (ms_kernel s) m' \<longrightarrow> owned tag' (ms_kernel s') m') \<and>
           (if status = Module_Success then new_string (converted os ansi) path s s'
            else us_value path = nullptr \<and> nothing_new s s' \<and> (converted os ansi = None \<or> utf8_refused a (converted os ansi) (ms_kernel s)))"
proof (cases "\<exists>u n. ansi_to_unicode os ansi = Some u \<and> utf8_size os u = Some n")
  case False
  then show ?thesis
    by (cases "ansi_to_unicode os ansi") (auto simp: convert_ansi_to_utf8_string_def converted_def nothing_new_def Let_def split: option.splits)
next
  case True
  then obtain u n where u: "ansi_to_unicode os ansi = Some u" "utf8_size os u = Some n" by blast
  have "n \<noteq> - 1" using assms(2) [of u] u(2) by auto
  note len = ucast_Suc_32_64 [OF this]
  have content: "converted os ansi = map_option (Pair n) (unicode_to_utf8 os u n)" using u by (simp add: converted_def)
  let ?r = "winkernel_allocate k a CXPLAT_POOL_FLAG_NON_PAGED (ucast (n + 1)) CXPLAT_TAG_UTF8_STRING (ms_kernel s)"
  show ?thesis
  proof (rule allocate_cases [of CXPLAT_POOL_FLAG_NON_PAGED CXPLAT_TAG_UTF8_STRING, OF _ _ len(1,2) assms(1)])
    fix t assume c: "?r = Inr (nullptr, t)" "view t = view (ms_kernel s)" "\<And>tag' m'. owned tag' (ms_kernel s) m' \<Longrightarrow> owned tag' t m'"
    have "converted os ansi = None \<or> utf8_refused a (converted os ansi) (ms_kernel s)"
      using c(1) [unfolded len(3)] content unfolding utf8_refused_def by (cases "unicode_to_utf8 os u n") auto
    then show ?thesis using u c by (auto simp: convert_ansi_to_utf8_string_def nothing_new_def Let_def)
  next
    fix m t i assume c: "?r = Inr (m, t)" "m \<noteq> nullptr" "owned CXPLAT_TAG_UTF8_STRING t m" "view (ms_kernel s) (blk m) = None"
      "view t = (view (ms_kernel s))(blk m \<mapsto> i)" "\<And>tag' m'. owned tag' (ms_kernel s) m' \<Longrightarrow> owned tag' t m'"
    show ?thesis
    proof (cases "unicode_to_utf8 os u n")
      case (Some bs)
      then show ?thesis using u c len(3) content by (auto simp: convert_ansi_to_utf8_string_def new_string_def Let_def)
    next
      case None
      obtain t' where t': "k_free k a' m CXPLAT_TAG_UTF8_STRING t = Inr t'" "view t' = (view t)(blk m := None)"
        "\<And>tag' m'. m' \<noteq> m \<Longrightarrow> owned tag' t m' \<Longrightarrow> owned tag' t' m'" using free_ok [OF c(3), of a'] by blast
      have keep: "owned tag' t' m'" if "owned tag' (ms_kernel s) m'" for tag' m'
        using t'(3) c(4,6) that owned_view [OF that] by metis
      have "view t' = view (ms_kernel s)" using t'(2) c(4,5) by (auto simp: fun_eq_iff)
      then show ?thesis using u c(1,2) t'(1) keep None content
        by (auto simp: convert_ansi_to_utf8_string_def winkernel_free_def nothing_new_def Let_def)
    qed
  qed simp_all
qed

text \<open>
  The list of the modules is in a buffer at \<open>m\<close>. Releasing the buffer after the conversion leaves of what is new only the string, and after a failure
  nothing.
\<close>

lemma converted_then_freed:
  assumes m: "view (ms_kernel s) (blk m) = None" "view t = (view (ms_kernel s))(blk m \<mapsto> i)"
    and s2: "if ok then new_string txt path (s\<lparr>ms_kernel := t\<rparr>) s2 else nothing_new (s\<lparr>ms_kernel := t\<rparr>) s2"
    and t': "view t' = (view (ms_kernel s2))(blk m := None)" "\<And>tag' m'. m' \<noteq> m \<Longrightarrow> owned tag' (ms_kernel s2) m' \<Longrightarrow> owned tag' t' m'"
  shows "if ok then new_string txt path s (s2\<lparr>ms_kernel := t'\<rparr>) else nothing_new s (s2\<lparr>ms_kernel := t'\<rparr>)"
proof (cases ok)
  case False
  have "(view t)(blk m := None) = view (ms_kernel s)" using m by (auto simp: fun_eq_iff)
  then show ?thesis using False t'(1) s2 by (simp add: nothing_new_def)
next
  case True
  then obtain n bs i' where R: "txt = Some (n, bs)" "us_length path = ucast n + 1"
      "ms_strings s2 = (ms_strings s)(us_value path \<mapsto> bs @ [0])" "owned CXPLAT_TAG_UTF8_STRING (ms_kernel s2) (us_value path)"
      "view t (blk (us_value path)) = None" "view (ms_kernel s2) = (view t)(blk (us_value path) \<mapsto> i')"
    using s2 by (auto simp: new_string_def)
  have ne: "us_value path \<noteq> m" "blk (us_value path) \<noteq> blk m" using R(5) m(2) by auto
  have "view t' = (view (ms_kernel s))(blk (us_value path) \<mapsto> i')" "view (ms_kernel s) (blk (us_value path)) = None"
    using t'(1) R(5,6) m ne by (auto simp: fun_eq_iff)
  then show ?thesis using True R(1-3) t'(2) [OF ne(1) R(4)] by (auto simp: new_string_def)
qed

lemma module_info_freed:
  assumes "owned CXPLAT_TAG_MODULE_INFO (ms_kernel x) m" "m \<noteq> nullptr"
  shows "\<exists>t'. winkernel_free k b m CXPLAT_POOL_FLAG_PAGED CXPLAT_TAG_MODULE_INFO (ms_kernel x) = Inr t' \<and>
    view t' = (view (ms_kernel x))(blk m := None) \<and> (\<forall>tag' m'. m' \<noteq> m \<longrightarrow> owned tag' (ms_kernel x) m' \<longrightarrow> owned tag' t' m')"
  using free_ok [OF assms(1), of b] assms(2) by (auto simp: winkernel_free_def)

lemma module_found:
  assumes init: "aux_initialize os" "aux_size os \<noteq> 0"
    and c: "winkernel_allocate k a CXPLAT_POOL_FLAG_PAGED (ucast (aux_size os)) CXPLAT_TAG_MODULE_INFO (ms_kernel s) = Inr (m, t)" "m \<noteq> nullptr"
      "owned CXPLAT_TAG_MODULE_INFO t m" "view (ms_kernel s) (blk m) = None" "view t = (view (ms_kernel s))(blk m \<mapsto> i)"
    and j: "aux_query os = Some (z, ms)" "find_module address (take (unat (z div aux_entry os)) ms) = Some j"
    and fresh: "fresh a' t" and size: "\<forall>u. utf8_size sos u \<noteq> Some (- 1)"
  shows "\<exists>status path s'. winkernel_get_module_path_from_address k sos os a a' b b' address s = Inr ((status, Some path), s') \<and>
           ms_unicode s' = ms_unicode s \<and>
           (if status = Module_Success then new_string (module_text sos os address) path s s'
            else nothing_new s s' \<and> (module_text sos os address = None \<or> utf8_refused a' (module_text sos os address) t))"
proof -
  let ?s1 = "s\<lparr>ms_kernel := t\<rparr>" and ?ansi = "take (unat (word_of_nat (length (mi_path j)) :: u16)) (mi_path j)"
  have content: "converted sos ?ansi = module_text sos os address" using j by (simp add: module_text_def)
  obtain status path s2 where s2: "convert_ansi_to_utf8_string k sos a' b' ?ansi ?s1 = Inr ((status, path), s2)"
      "ms_unicode s2 = ms_unicode s" "\<forall>tag' m'. owned tag' t m' \<longrightarrow> owned tag' (ms_kernel s2) m'"
      "if status = Module_Success then new_string (module_text sos os address) path ?s1 s2
       else us_value path = nullptr \<and> nothing_new ?s1 s2 \<and>
            (module_text sos os address = None \<or> utf8_refused a' (module_text sos os address) t)"
    using convert_ok [of a' ?s1 sos b' ?ansi] fresh size by (auto simp: content cong: if_cong)
  obtain t' where t': "winkernel_free k b m CXPLAT_POOL_FLAG_PAGED CXPLAT_TAG_MODULE_INFO (ms_kernel s2) = Inr t'"
      "view t' = (view (ms_kernel s2))(blk m := None)" "\<And>tag' m'. m' \<noteq> m \<Longrightarrow> owned tag' (ms_kernel s2) m' \<Longrightarrow> owned tag' t' m'"
    using module_info_freed [of s2 m b] s2(3) c(2,3) by blast
  have "winkernel_get_module_path_from_address k sos os a a' b b' address s = Inr ((status, Some path), s2\<lparr>ms_kernel := t'\<rparr>)"
    using init c(1,2) j s2(1) t'(1) by (simp add: winkernel_get_module_path_from_address_def Let_def)
  moreover have "if status = Module_Success then new_string (module_text sos os address) path s (s2\<lparr>ms_kernel := t'\<rparr>)
      else nothing_new s (s2\<lparr>ms_kernel := t'\<rparr>)"
    by (rule converted_then_freed [OF c(4,5) _ t'(2,3)]) (use s2(4) in \<open>simp_all split: if_splits\<close>)
  ultimately show ?thesis using s2(2,4) by (auto split: if_splits)
qed

text \<open>The path of a module: the buffer for the list of modules is gone whatever happens, and a path is returned with its text.\<close>

lemma module_path_ok:
  fixes a s os
  defines "r \<equiv> winkernel_allocate k a CXPLAT_POOL_FLAG_PAGED (ucast (aux_size os)) CXPLAT_TAG_MODULE_INFO (ms_kernel s)"
  assumes fresh: "fresh a (ms_kernel s)" and fresh': "\<forall>m t. r = Inr (m, t) \<longrightarrow> fresh a' t" and size: "\<forall>u. utf8_size sos u \<noteq> Some (- 1)"
  shows "\<exists>status path s'. winkernel_get_module_path_from_address k sos os a a' b b' address s = Inr ((status, path), s') \<and>
           ms_unicode s' = ms_unicode s \<and>
           (if status = Module_Success then \<exists>p. path = Some p \<and> new_string (module_text sos os address) p s s'
            else nothing_new s s' \<and> (\<not> aux_initialize os \<or> aux_size os = 0 \<or> module_text sos os address = None \<or>
                   (\<exists>m t. r = Inr (m, t) \<and> (m = nullptr \<or> utf8_refused a' (module_text sos os address) t))))"
proof (cases "aux_initialize os \<and> aux_size os \<noteq> 0")
  case False
  then show ?thesis by (auto simp: winkernel_get_module_path_from_address_def nothing_new_def)
next
  case True
  let ?n = "ucast (aux_size os) :: u64"
  have sz: "0 < ?n" "?n < 2 ^ 32" using True unsigned_less [of "aux_size os"]
    by (simp_all add: word_less_nat_alt unat_ucast_32_64 unat_gt_0)
  show ?thesis
  proof (rule allocate_cases [of CXPLAT_POOL_FLAG_PAGED CXPLAT_TAG_MODULE_INFO, OF _ _ sz fresh, folded r_def])
    fix t assume c: "r = Inr (nullptr, t)" "view t = view (ms_kernel s)"
    have "winkernel_get_module_path_from_address k sos os a a' b b' address s = Inr ((Module_No_Memory, None), s\<lparr>ms_kernel := t\<rparr>)"
      using True c(1) by (simp add: winkernel_get_module_path_from_address_def Let_def r_def)
    then show ?thesis using c
      by (intro exI [of _ Module_No_Memory] exI [of _ None] exI [of _ "s\<lparr>ms_kernel := t\<rparr>"]) (auto simp: nothing_new_def)
  next
    fix m t i assume c: "r = Inr (m, t)" "m \<noteq> nullptr" "owned CXPLAT_TAG_MODULE_INFO t m" "view (ms_kernel s) (blk m) = None"
      "view t = (view (ms_kernel s))(blk m \<mapsto> i)" "\<And>tag' m'. owned tag' (ms_kernel s) m' \<Longrightarrow> owned tag' t m'"
    show ?thesis
    proof (cases "\<exists>z ms j. aux_query os = Some (z, ms) \<and> find_module address (take (unat (z div aux_entry os)) ms) = Some j")
      case False
      then have none: "module_text sos os address = None"
        by (cases "aux_query os") (auto simp: module_text_def split: prod.splits option.splits)
      obtain t' where t': "winkernel_free k b m CXPLAT_POOL_FLAG_PAGED CXPLAT_TAG_MODULE_INFO t = Inr t'" "view t' = (view t)(blk m := None)"
        using module_info_freed [of "s\<lparr>ms_kernel := t\<rparr>" m b] c(2,3) by auto
      have "winkernel_get_module_path_from_address k sos os a a' b b' address s = Inr ((Module_Not_Found, None), s\<lparr>ms_kernel := t'\<rparr>)"
        using True c(1,2) False t'(1) by (auto simp: winkernel_get_module_path_from_address_def Let_def r_def split: option.splits)
      then show ?thesis using t'(2) c(4,5) none by (auto simp: nothing_new_def fun_eq_iff)
    next
      case found: True
      then obtain z ms j where j: "aux_query os = Some (z, ms)" "find_module address (take (unat (z div aux_entry os)) ms) = Some j" by blast
      from module_found [OF _ _ c(1) [unfolded r_def] c(2-5) j _ size, of a' b b'] fresh' True c(1)
      obtain status path s' where out: "winkernel_get_module_path_from_address k sos os a a' b b' address s = Inr ((status, Some path), s')"
          "ms_unicode s' = ms_unicode s"
          "if status = Module_Success then new_string (module_text sos os address) path s s'
           else nothing_new s s' \<and> (module_text sos os address = None \<or> utf8_refused a' (module_text sos os address) t)" by blast
      show ?thesis unfolding out(1) using out(2,3) c(1) by auto
    qed
  qed simp_all
qed

end

section \<open>The pools of this library provide it\<close>

definition usersim_kernel :: "(bool \<times> ptr \<times> backtrace, mem_state) kernel" where
  "usersim_kernel =
     \<lparr>k_alloc = \<lambda>(fault, p, bt) ty n tag s. ExAllocatePoolUninitializedCPP fault p bt ty n tag s,
      k_free = \<lambda>(fault, p, bt) m tag s. ExFreePoolWithTagCPP bt m tag s,
      k_zero = \<lambda>m n s. s\<lparr>bytes := mem_fill m 0 n (bytes s)\<rparr>,
      k_copy = \<lambda>m m' n s. s\<lparr>bytes := mem_copy m m' n (bytes s)\<rparr>\<rparr>"

text \<open>The flags that the two pool types become.\<close>

abbreviation plain_flags :: "u32 set" where "plain_flags \<equiv> {NP_FLAGS, 0x102}"

lemma plain_flags:
  assumes "fl \<in> plain_flags"
  shows "has_flag fl CXPLAT_POOL_FLAG_CACHE_ALIGNED = False" "user_pointer fl p = p + 16" "pointer_offset fl = 16"
  using assms by (auto simp: has_flag_def user_pointer_def pointer_offset_def)

lemma plain_pool_types:
  assumes "ty \<in> {PagedPool, NonPagedPoolNx}"
  obtains fl where "pool_type_to_flags ty False = Inr fl" "fl \<in> plain_flags"
  using assms by (auto simp: pool_type_to_flags_def)

definition kp_owned :: "u32 \<Rightarrow> mem_state \<Rightarrow> ptr \<Rightarrow> bool" where
  "kp_owned tag s m \<longleftrightarrow> m \<noteq> nullptr \<and> m \<noteq> 64 \<and> pool_headers s (m - 64) \<in> plain_flags \<and>
     (\<exists>n. blocks s (m - 80) = Some (16 + n, False) \<and> headers s (m - 80) = new_header (pool_headers s (m - 64)) tag n) \<and>
     (\<forall>d. leaks s = Some d \<longrightarrow> allocations d (m - 64) \<noteq> None)"

definition kp_fresh :: "bool \<times> ptr \<times> backtrace \<Rightarrow> mem_state \<Rightarrow> bool" where
  "kp_fresh a s \<longleftrightarrow> (case a of (fault, p, bt) \<Rightarrow> blocks s p = None \<and> p + 16 \<noteq> nullptr \<and> p + 80 \<noteq> nullptr)"

lemma kp_alloc_cases:
  assumes "ExAllocatePoolUninitializedCPP fault p bt ty n tag s = Inr (m, s1)" "ty \<in> {PagedPool, NonPagedPoolNx}" "p + 16 \<noteq> nullptr" "p + 80 \<noteq> nullptr"
  obtains (fails) "m = nullptr" "s1 = s"
  | (succeeds) fl where "m = p + 80" "fl \<in> plain_flags"
      "s1 = s\<lparr>blocks := (blocks s)(p \<mapsto> (16 + (64 + n), False)), bytes := mem_fill (p + 16) (fill_byte fl) (64 + n) (bytes s),
              headers := (headers s)(p := new_header fl tag (64 + n)), leaks := map_option (register_allocation bt (p + 16) (64 + n)) (leaks s),
              pool_headers := (pool_headers s)(p + 16 := fl)\<rparr>"
proof -
  obtain fl where fl: "pool_type_to_flags ty False = Inr fl" "fl \<in> plain_flags" using plain_pool_types [OF assms(2)] by blast
  note F = plain_flags [OF fl(2)]
  obtain h s0 where h: "cxplat_allocate fault p bt fl (64 + n) tag s = Inr (h, s0)" "m = (if h \<noteq> nullptr then h + 64 else nullptr)"
      "s1 = (if h \<noteq> nullptr then s0\<lparr>pool_headers := (pool_headers s0)(h := fl)\<rparr> else s0)"
    using assms(1) fl(1) by (auto simp: ExAllocatePoolUninitializedCPP_def pool_allocate_def split: sum.splits if_splits)
  show ?thesis
  proof (cases "h = nullptr")
    case True
    have "s0 = s" using allocate_failure [of fault p bt fl "64 + n" tag s s0] h(1) True assms(3) by (simp add: F)
    then show ?thesis using h True by (intro fails) simp_all
  next
    case False
    note A = allocate_success [OF h(1) False]
    have "h = p + 16" using A(3) by (simp add: F)
    then show ?thesis using h(2,3) False fl(2) A(4) by (intro succeeds [of fl]) (simp_all add: F)
  qed
qed

lemma kp_free_ok:
  fixes a :: "bool \<times> ptr \<times> backtrace"
  assumes o: "kp_owned tag s m"
  shows "\<exists>s1. k_free usersim_kernel a m tag s = Inr s1 \<and> blocks s1 = (blocks s)(np_blk m := None) \<and>
      (\<forall>tag' m'. m' \<noteq> m \<longrightarrow> kp_owned tag' s m' \<longrightarrow> kp_owned tag' s1 m')"
proof -
  obtain fault p bt where a: "a = (fault, p, bt)" by (cases a)
  let ?fl = "pool_headers s (m - 64)"
  note F = plain_flags [of ?fl]
  obtain n where n: "m \<noteq> nullptr" "m \<noteq> 64" "?fl \<in> plain_flags" "blocks s (m - 80) = Some (16 + n, False)"
    "headers s (m - 80) = new_header ?fl tag n" "\<And>d. leaks s = Some d \<Longrightarrow> allocations d (m - 64) \<noteq> None" using o by (auto simp: kp_owned_def)
  obtain s1 where s1: "cxplat_free bt (m - 64) ?fl tag s = Inr s1" "blocks s1 = (blocks s)(m - 80 := None)"
      "headers s1 = headers s" "pool_headers s1 = pool_headers s"
      "map_option allocations (leaks s1) = map_option (\<lambda>d. (allocations d)(m - 64 := None)) (leaks s)"
    using free_live [of "m - 64" ?fl "m - 80" s "16 + n" tag n tag bt] n F by auto
  have "kp_owned tag' s1 m'" if "m' \<noteq> m" "kp_owned tag' s m'" for tag' m'
    using that s1(2-5) by (cases "leaks s"; cases "leaks s1") (auto simp: kp_owned_def)
  then show ?thesis
    using s1(1,2) n(1) by (auto simp: usersim_kernel_def a ExFreePoolWithTagCPP_def np_blk_def Let_def)
qed

interpretation kp: kernel_pool usersim_kernel kp_owned blocks np_blk kp_fresh
proof unfold_locales
  fix ty tag :: u32 and n :: u64 and a :: "bool \<times> ptr \<times> backtrace" and s
  assume ty: "ty \<in> {PagedPool, NonPagedPoolNx}" and n: "tag \<noteq> 0" "0 < n" "n < 2 ^ 32"
  obtain fault p bt where a: "a = (fault, p, bt)" by (cases a)
  have "unat n < 2 ^ 32" using n(3) by (simp add: word_less_nat_alt)
  then have "unat (64 + n) = 64 + unat n" by (simp add: unat_word_ariths take_bit_nat_eq_self)
  then have pos: "0 < 64 + n" by (simp add: word_less_nat_alt)
  obtain fl where fl: "pool_type_to_flags ty False = Inr fl" using plain_pool_types [OF ty] by blast
  show "\<exists>m s1. k_alloc usersim_kernel a ty n tag s = Inr (m, s1)"
    using pos n(1) fl by (auto simp: usersim_kernel_def a ExAllocatePoolUninitializedCPP_def pool_allocate_def cxplat_allocate_def Let_def split: sum.splits)
next
  fix ty a n tag s m s1
  assume ty: "ty \<in> {PagedPool, NonPagedPoolNx}" and A: "k_alloc usersim_kernel a ty n tag s = Inr (m, s1)" and f: "kp_fresh a s"
  obtain fault p bt where a: "a = (fault, p, bt)" by (cases a)
  have A': "ExAllocatePoolUninitializedCPP fault p bt ty n tag s = Inr (m, s1)" using A by (simp add: usersim_kernel_def a)
  have f': "blocks s p = None" "p + 16 \<noteq> nullptr" "p + 80 \<noteq> nullptr" using f by (simp_all add: kp_fresh_def a)
  note C = kp_alloc_cases [OF A' ty f'(2,3)]
  show "kp_owned tag s1 m \<and> blocks s (np_blk m) = None \<and> (\<exists>i. blocks s1 = (blocks s)(np_blk m \<mapsto> i))" if "m \<noteq> nullptr"
    by (rule C) (use that f' in \<open>auto simp: kp_owned_def np_blk_def add_eq_0_iff\<close>)
  show "kp_owned tag' s1 m'" if "kp_owned tag' s m'" for tag' m'
    by (rule C) (use that f' in \<open>auto simp: kp_owned_def\<close>)
next
  fix ty a n tag s s1
  assume ty: "ty \<in> {PagedPool, NonPagedPoolNx}" and A: "k_alloc usersim_kernel a ty n tag s = Inr (nullptr, s1)" and f: "kp_fresh a s"
  obtain fault p bt where a: "a = (fault, p, bt)" by (cases a)
  show "blocks s1 = blocks s"
    by (rule kp_alloc_cases [of fault p bt ty n tag s nullptr s1]) (use A f ty in \<open>auto simp: usersim_kernel_def kp_fresh_def a\<close>)
next
  fix tag s m assume "kp_owned tag s m"
  then show "m \<noteq> nullptr \<and> blocks s (np_blk m) \<noteq> None" by (auto simp: kp_owned_def np_blk_def)
next
  fix tag s m and a :: "bool \<times> ptr \<times> backtrace" assume "kp_owned tag s m"
  then show "\<exists>s1. k_free usersim_kernel a m tag s = Inr s1 \<and> blocks s1 = (blocks s)(np_blk m := None) \<and>
      (\<forall>tag' m'. m' \<noteq> m \<longrightarrow> kp_owned tag' s m' \<longrightarrow> kp_owned tag' s1 m')"
    by (rule kp_free_ok)
qed (auto simp: usersim_kernel_def kp_owned_def kp_fresh_def)

section \<open>Properties\<close>

lemma find_module_first:
  "find_module address ms = List.find (\<lambda>i. mi_base i \<le> address \<and> address < mi_base i + ucast (mi_size i)) ms"
  by (induction ms) (simp_all add: Let_def)

text \<open>
  the path of the module around an address, in the kernel. On every kernel whose pool keeps its contract, the function returns, and
  the converted string of the system and the list of modules have been released. If it succeeds, the path is a
  new block that the caller owns, holding the UTF-8 text of the first module around the address with a null byte behind it, and its length counts
  that byte; all other memory is as before. If it fails, all memory is as before, and there was a reason: the list of
  modules is not available, no module contains the address, a conversion failed or one of the two allocations was refused.
\<close>
theorem kernel_module_path:
  fixes k :: "('a, 's) kernel" and a :: 'a and os :: module_os and s :: "'s module_state"
  defines "r \<equiv> winkernel_allocate k a CXPLAT_POOL_FLAG_PAGED (ucast (aux_size os)) CXPLAT_TAG_MODULE_INFO (ms_kernel s)"
  assumes pool: "kernel_pool k owned view blk fresh"
    and fresh: "fresh a (ms_kernel s)" "\<forall>m t. r = Inr (m, t) \<longrightarrow> fresh a' t" and size: "\<forall>u. utf8_size sos u \<noteq> Some (- 1)"
  shows "\<exists>status path s'. winkernel_get_module_path_from_address k sos os a a' b b' address s = Inr ((status, path), s') \<and>
           ms_unicode s' = ms_unicode s \<and>
           (if status = Module_Success
            then \<exists>p n bs i. path = Some \<lparr>us_value = p, us_length = ucast n + 1\<rparr> \<and> module_text sos os address = Some (n, bs) \<and>
                   ms_strings s' = (ms_strings s)(p \<mapsto> bs @ [0]) \<and> owned CXPLAT_TAG_UTF8_STRING (ms_kernel s') p \<and>
                   view (ms_kernel s) (blk p) = None \<and> view (ms_kernel s') = (view (ms_kernel s))(blk p \<mapsto> i)
            else view (ms_kernel s') = view (ms_kernel s) \<and> ms_strings s' = ms_strings s \<and>
                 (\<not> aux_initialize os \<or> aux_size os = 0 \<or> module_text sos os address = None \<or>
                  (\<exists>m t. r = Inr (m, t) \<and> (m = nullptr \<or> (\<exists>n bs t'. module_text sos os address = Some (n, bs) \<and>
                     winkernel_allocate k a' CXPLAT_POOL_FLAG_NON_PAGED (ucast n + 1) CXPLAT_TAG_UTF8_STRING t = Inr (nullptr, t'))))))"
proof -
  note M = kernel_pool.module_path_ok [where os = os and b = b and b' = b' and address = address, OF pool fresh(1) fresh(2) [unfolded r_def] size, folded r_def,
      unfolded kernel_pool.new_string_def [OF pool] kernel_pool.nothing_new_def [OF pool] kernel_pool.utf8_refused_def [OF pool]]
  obtain status path s' where run: "winkernel_get_module_path_from_address k sos os a a' b b' address s = Inr ((status, path), s')" "ms_unicode s' = ms_unicode s"
    and rest: "if status = Module_Success
        then \<exists>p. path = Some p \<and> (\<exists>n bs i. module_text sos os address = Some (n, bs) \<and> us_length p = ucast n + 1 \<and>
            ms_strings s' = (ms_strings s)(us_value p \<mapsto> bs @ [0]) \<and> owned CXPLAT_TAG_UTF8_STRING (ms_kernel s') (us_value p) \<and>
            view (ms_kernel s) (blk (us_value p)) = None \<and> view (ms_kernel s') = (view (ms_kernel s))(blk (us_value p) \<mapsto> i))
        else (view (ms_kernel s') = view (ms_kernel s) \<and> ms_strings s' = ms_strings s) \<and>
             (\<not> aux_initialize os \<or> aux_size os = 0 \<or> module_text sos os address = None \<or>
                  (\<exists>m t. r = Inr (m, t) \<and> (m = nullptr \<or> (\<exists>n bs t'. module_text sos os address = Some (n, bs) \<and>
                     winkernel_allocate k a' CXPLAT_POOL_FLAG_NON_PAGED (ucast n + 1) CXPLAT_TAG_UTF8_STRING t = Inr (nullptr, t')))))"
    using M by blast
  show ?thesis
  proof (cases "status = Module_Success")
    case True
    then obtain p n bs i where "path = Some p" "module_text sos os address = Some (n, bs)" "us_length p = ucast n + 1"
        "ms_strings s' = (ms_strings s)(us_value p \<mapsto> bs @ [0])" "owned CXPLAT_TAG_UTF8_STRING (ms_kernel s') (us_value p)"
        "view (ms_kernel s) (blk (us_value p)) = None" "view (ms_kernel s') = (view (ms_kernel s))(blk (us_value p) \<mapsto> i)"
      using rest by auto
    moreover obtain v l where "p = \<lparr>us_value = v, us_length = l\<rparr>" by (cases p)
    ultimately show ?thesis using run True by auto
  next
    case False
    then show ?thesis using run rest by (intro exI [of _ status] exI [of _ path] exI [of _ s']) simp
  qed
qed

text \<open>Two modules, of which the second contains the address, on the pools of this library.\<close>

definition sample_strings :: string_os where
  "sample_strings = \<lparr>ansi_to_unicode = \<lambda>bs. Some (map ucast bs), utf8_size = \<lambda>u. if length u = 2 then Some 2 else None,
     unicode_to_utf8 = \<lambda>u n. Some (map ucast u)\<rparr>"

definition sample_modules :: module_os where
  "sample_modules = \<lparr>aux_initialize = True, aux_size = 560,
     aux_query = Some (560, [\<lparr>mi_base = 0x1000, mi_size = 0x1000, mi_path = [0x61]\<rparr>, \<lparr>mi_base = 0x4000, mi_size = 0x1000, mi_path = [0x62, 0x63]\<rparr>]),
     aux_entry = 280\<rparr>"

theorem kernel_module_path_witness:
  "\<exists>p s'. winkernel_get_module_path_from_address usersim_kernel sample_strings sample_modules
        (False, 0x10000, None) (False, 0x20000, None) (False, 0, None) (False, 0, None) 0x4010
        \<lparr>ms_kernel = sample_heap, ms_unicode = 0, ms_strings = Map.empty\<rparr> =
      Inr ((Module_Success, Some \<lparr>us_value = p, us_length = 3\<rparr>), s') \<and>
    ms_strings s' p = Some [0x62, 0x63, 0] \<and> ms_unicode s' = 0 \<and> dom (blocks (ms_kernel s')) = {np_blk p}"
proof -
  let ?s = "\<lparr>ms_kernel = sample_heap, ms_unicode = 0, ms_strings = Map.empty\<rparr> :: mem_state module_state"
  let ?a = "(False, 0x10000 :: ptr, None :: backtrace)" and ?a' = "(False, 0x20000 :: ptr, None :: backtrace)"
  note ev = usersim_kernel_def sample_heap_def winkernel_allocate_def ExAllocatePoolUninitializedCPP_def pool_allocate_def cxplat_allocate_def
    pool_flags_to_type_def pool_type_to_flags_def has_flag_def pointer_defs Let_def
  have r: "\<exists>t. winkernel_allocate usersim_kernel ?a CXPLAT_POOL_FLAG_PAGED (ucast (aux_size sample_modules)) CXPLAT_TAG_MODULE_INFO (ms_kernel ?s) = Inr (0x10050, t) \<and>
      blocks t = [0x10000 \<mapsto> (640, False)] \<and> fuzzing_memory_limit t = fuzzing_memory_limit sample_heap"
    by (simp add: ev sample_modules_def)
  have f: "kp_fresh ?a (ms_kernel ?s)" by (simp add: kp_fresh_def sample_heap_def)
  have f': "\<forall>m t. winkernel_allocate usersim_kernel ?a CXPLAT_POOL_FLAG_PAGED (ucast (aux_size sample_modules))
      CXPLAT_TAG_MODULE_INFO (ms_kernel ?s) = Inr (m, t) \<longrightarrow> kp_fresh ?a' t"
    using r by (auto simp: kp_fresh_def)
  have sz: "\<forall>u. utf8_size sample_strings u \<noteq> Some (- 1)" by (simp add: sample_strings_def)
  have content: "module_text sample_strings sample_modules 0x4010 = Some (2, [0x62, 0x63])"
    by (simp add: module_text_def converted_def sample_modules_def sample_strings_def)
  note T = kernel_module_path [OF kp.kernel_pool_axioms f f' sz, where b = "(False, 0, None)" and b' = "(False, 0, None)" and address = "0x4010", unfolded content]
  have second: "winkernel_allocate usersim_kernel ?a' CXPLAT_POOL_FLAG_NON_PAGED (ucast (2 :: u32) + 1) CXPLAT_TAG_UTF8_STRING t \<noteq> Inr (nullptr, t')"
    if "fuzzing_memory_limit t = - 1" for t t' using that by (simp add: ev)
  have ok: "aux_initialize sample_modules" "aux_size sample_modules \<noteq> 0" "fuzzing_memory_limit sample_heap = - 1" "blocks sample_heap = Map.empty"
    by (simp_all add: sample_modules_def sample_heap_def)
  show ?thesis
  proof (rule exE [OF T], elim exE conjE)
    fix status path s'
    assume S: "winkernel_get_module_path_from_address usersim_kernel sample_strings sample_modules ?a ?a'
        (False, 0, None) (False, 0, None) 0x4010 ?s = Inr ((status, path), s')" "ms_unicode s' = ms_unicode ?s"
      and R: "if status = Module_Success
        then \<exists>p n bs i. path = Some \<lparr>us_value = p, us_length = ucast n + 1\<rparr> \<and> Some (2 :: u32, [0x62, 0x63 :: u8]) = Some (n, bs) \<and>
               ms_strings s' = (ms_strings ?s)(p \<mapsto> bs @ [0]) \<and> kp_owned CXPLAT_TAG_UTF8_STRING (ms_kernel s') p \<and>
               blocks (ms_kernel ?s) (np_blk p) = None \<and> blocks (ms_kernel s') = (blocks (ms_kernel ?s))(np_blk p \<mapsto> i)
        else blocks (ms_kernel s') = blocks (ms_kernel ?s) \<and> ms_strings s' = ms_strings ?s \<and>
             (\<not> aux_initialize sample_modules \<or> aux_size sample_modules = 0 \<or> Some (2 :: u32, [0x62, 0x63 :: u8]) = None \<or>
              (\<exists>m t. winkernel_allocate usersim_kernel ?a CXPLAT_POOL_FLAG_PAGED (ucast (aux_size sample_modules)) CXPLAT_TAG_MODULE_INFO (ms_kernel ?s) = Inr (m, t) \<and>
                (m = nullptr \<or> (\<exists>n bs t'. Some (2 :: u32, [0x62, 0x63 :: u8]) = Some (n, bs) \<and>
                  winkernel_allocate usersim_kernel ?a' CXPLAT_POOL_FLAG_NON_PAGED (ucast n + 1) CXPLAT_TAG_UTF8_STRING t = Inr (nullptr, t')))))"
    have ok': "status = Module_Success" using R r second ok(1-3) by (cases "status = Module_Success") auto
    then obtain p i where "path = Some \<lparr>us_value = p, us_length = 3\<rparr>" "ms_strings s' = [p \<mapsto> [0x62, 0x63, 0]]" "blocks (ms_kernel s') = [np_blk p \<mapsto> i]"
      using R ok(4) by auto
    then show ?thesis using S ok' by auto
  qed
qed

section \<open>The same function in user mode\<close>

text \<open>
  \<^verbatim>\<open>cxplat_get_module_path_from_address\<close> of \<^verbatim>\<open>cxplat/src/cxplat_winuser/module_winuser.cpp\<close>, over the allocator of the library. \<open>path\<close> is
  the structure of the caller, which the function does not initialize. The buffer for the file name has 260 units, but the system is
  told that it has 520, so a longer name is written beyond its end. The length query answers 0 if it fails.
\<close>

record name_os =
  module_handle :: bool
  module_file_name :: "u16 list option"
  wide_size :: "u16 list \<Rightarrow> u64"
  wide_to_utf8 :: "u16 list \<Rightarrow> u64 \<Rightarrow> u8 list option"

definition module_path_failed ::
  "backtrace \<Rightarrow> module_status \<Rightarrow> utf8_string \<Rightarrow> mem_state module_state \<Rightarrow> ((module_status \<times> utf8_string) \<times> mem_state module_state) result" where
  "module_path_failed bt status path s =
     (if us_value path \<noteq> nullptr
      then case cxplat_free bt (us_value path) CXPLAT_POOL_FLAG_NON_PAGED CXPLAT_TAG_STRING (ms_kernel s) of
             Inl e \<Rightarrow> Inl e
           | Inr h \<Rightarrow> Inr ((status, path\<lparr>us_value := nullptr\<rparr>), s\<lparr>ms_kernel := h\<rparr>)
      else Inr ((status, path), s))"

definition winuser_get_module_path_from_address ::
  "name_os \<Rightarrow> bool \<times> ptr \<times> backtrace \<Rightarrow> backtrace \<Rightarrow> utf8_string \<Rightarrow> mem_state module_state \<Rightarrow>
   ((module_status \<times> utf8_string) \<times> mem_state module_state) result" where
  "winuser_get_module_path_from_address os a bt path s =
     (if \<not> module_handle os then module_path_failed bt Module_Not_Found path s
      else case module_file_name os of
        None \<Rightarrow> Inr ((Module_Not_Found, path), s)
      | Some name \<Rightarrow>
          if 260 \<le> length name then Inl Out_Of_Bounds
          else let utf8_length = wide_size os name
               in if utf8_length = 0 then module_path_failed bt Module_No_Memory path s
                  else case a of (fault, p, bt') \<Rightarrow>
                    (case cxplat_allocate fault p bt' CXPLAT_POOL_FLAG_NON_PAGED (utf8_length + 1) CXPLAT_TAG_UTF8_STRING (ms_kernel s) of
                       Inl e \<Rightarrow> Inl e
                     | Inr (m, h) \<Rightarrow>
                         let path1 = \<lparr>us_value = m, us_length = utf8_length + 1\<rparr>; s1 = s\<lparr>ms_kernel := h\<rparr>
                         in if m = nullptr then module_path_failed bt Module_No_Memory path1 s1
                            else case wide_to_utf8 os name utf8_length of
                                   None \<Rightarrow> module_path_failed bt Module_No_Memory path1 s1
                                 | Some bs \<Rightarrow> Inr ((Module_Success, path1), s1\<lparr>ms_strings := (ms_strings s1)(m \<mapsto> bs @ [0])\<rparr>)))"

lemma allocate_returns: "0 < n \<Longrightarrow> \<exists>m h. cxplat_allocate fault p bt fl n tag s = Inr (m, h)"
  by (simp add: cxplat_allocate_def Let_def)

text \<open>
  With a handle, a name that fits and both conversions possible, the text is returned in a string that \<^verbatim>\<open>cxplat_free_utf8_string\<close> releases
  completely, or memory is exhausted and nothing is left.
\<close>

lemma winuser_module_path:
  assumes "module_handle os" "module_file_name os = Some name" "length name < 260" "wide_size os name \<noteq> 0" "wide_size os name < 2 ^ 32"
    and "wide_to_utf8 os name (wide_size os name) = Some bs" and fresh: "blocks (ms_kernel s) p = None" "p + 16 \<noteq> nullptr"
  shows "\<exists>status q s'. winuser_get_module_path_from_address os (fault, p, bt') bt path s = Inr ((status, q), s') \<and>
           (if status = Module_Success
            then ms_strings s' = (ms_strings s)(us_value q \<mapsto> bs @ [0]) \<and> us_length q = wide_size os name + 1 \<and>
                 (\<exists>e h. cxplat_free_utf8_string bt'' q (ms_kernel s') = Inr (e, h) \<and> blocks h = blocks (ms_kernel s))
            else us_value q = nullptr \<and> s' = s)"
proof -
  let ?n = "wide_size os name + 1"
  have "unat (wide_size os name) < 2 ^ 32" using assms(5) by (simp add: word_less_nat_alt)
  then have "unat ?n = unat (wide_size os name) + 1" by (simp add: unat_word_ariths take_bit_nat_eq_self)
  then have n: "0 < ?n" by (simp add: word_less_nat_alt)
  obtain m h where al: "cxplat_allocate fault p bt' CXPLAT_POOL_FLAG_NON_PAGED ?n CXPLAT_TAG_UTF8_STRING (ms_kernel s) = Inr (m, h)"
    using allocate_returns [OF n] by blast
  have F: "cx_fresh (fault, p, bt', ?n) (ms_kernel s)" using fresh by (simp add: cx_fresh_def)
  have A: "cx_alloc CXPLAT_TAG_UTF8_STRING (fault, p, bt', ?n) (ms_kernel s) = Inr (m, h)" using al by (simp add: cx_alloc_def)
  show ?thesis
  proof (cases "m = nullptr")
    case True
    then have "h = ms_kernel s" using allocate_failure [of fault p bt' _ ?n _ "ms_kernel s" h] al fresh(2) by (simp add: cx_flags)
    then show ?thesis using assms(1-4) al True by (auto simp: winuser_get_module_path_from_address_def module_path_failed_def Let_def)
  next
    case False
    obtain h' where "cxplat_free bt'' m CXPLAT_POOL_FLAG_NON_PAGED CXPLAT_TAG_UTF8_STRING h = Inr h'" "blocks h' = blocks (ms_kernel s)"
      using cx.one_buffer [OF A False F, of bt''] by (auto simp: cx_free_def)
    then show ?thesis using assms(1-4,6) al False by (auto simp: winuser_get_module_path_from_address_def cxplat_free_utf8_string_def Let_def)
  qed
qed

text \<open>
  When the second conversion fails, the buffer is freed with the tag of another kind of string, which fails the assertion of the allocator
  instead of reporting the error.
\<close>

lemma winuser_module_path_wrong_tag:
  assumes "module_handle os" "module_file_name os = Some name" "length name < 260" "wide_size os name \<noteq> 0" "wide_to_utf8 os name (wide_size os name) = None"
    and "cxplat_allocate fault p bt' CXPLAT_POOL_FLAG_NON_PAGED (wide_size os name + 1) CXPLAT_TAG_UTF8_STRING (ms_kernel s) = Inr (m, h)" "m \<noteq> nullptr"
  shows "winuser_get_module_path_from_address os (fault, p, bt') bt path s = Inl Assert_Failed"
proof -
  have "headers h (m - 16) = new_header CXPLAT_POOL_FLAG_NON_PAGED CXPLAT_TAG_UTF8_STRING (wide_size os name + 1)"
    using allocate_success(4) [OF assms(6,7)] by simp
  then have "cxplat_free bt m CXPLAT_POOL_FLAG_NON_PAGED CXPLAT_TAG_STRING h = Inl Assert_Failed"
    using assms(7) by (simp add: cxplat_free_def Let_def header_from_pointer_def new_header_def)
  then show ?thesis using assms by (simp add: winuser_get_module_path_from_address_def module_path_failed_def Let_def)
qed

text \<open>An address outside every module frees whatever pointer the caller's structure holds.\<close>

lemma winuser_module_path_frees_garbage:
  assumes "\<not> module_handle os" "live m p CXPLAT_POOL_FLAG_NON_PAGED n CXPLAT_TAG_STRING (ms_kernel s)" "us_value path = m"
  shows "\<exists>q s'. winuser_get_module_path_from_address os a bt path s = Inr ((Module_Not_Found, q), s') \<and> blocks (ms_kernel s') p = None"
  using assms free_live [of m CXPLAT_POOL_FLAG_NON_PAGED p "ms_kernel s" "pointer_offset CXPLAT_POOL_FLAG_NON_PAGED + n" CXPLAT_TAG_STRING n CXPLAT_TAG_STRING bt]
  by (auto simp: winuser_get_module_path_from_address_def module_path_failed_def live_def)

section \<open>Spin locks\<close>

text \<open>
  The spin locks of the kernel layer forward to the kernel, here the simulated one. The two functions for callers at
  dispatch level pass the address of their own parameter, \<open>frame\<close>, instead of the lock.
\<close>

definition winkernel_acquire_spin_lock :: "irql_os \<Rightarrow> nat \<Rightarrow> processor_number \<Rightarrow> ptr \<Rightarrow> irql_state \<Rightarrow> (u8 \<times> irql_state) attempt result" where
  "winkernel_acquire_spin_lock os tid processor spin_lock s = KeAcquireSpinLockRaiseToDpc os tid processor spin_lock s"

definition winkernel_acquire_spin_lock_at_dpc_level :: "nat \<Rightarrow> ptr \<Rightarrow> ptr \<Rightarrow> irql_state \<Rightarrow> irql_state outcome" where
  "winkernel_acquire_spin_lock_at_dpc_level tid frame spin_lock s = KeAcquireSpinLockAtDpcLevel tid frame s"

definition winkernel_release_spin_lock_from_dpc_level :: "ptr \<Rightarrow> ptr \<Rightarrow> irql_state \<Rightarrow> irql_state result" where
  "winkernel_release_spin_lock_from_dpc_level frame spin_lock s = KeReleaseSpinLockFromDpcLevel frame s"

text \<open>Two threads, whose parameters are at different addresses, both acquire a lock that neither has released, and the lock itself stays free.\<close>

lemma dpc_level_lock_excludes_nobody:
  assumes "spin_locks s f1 = None" "spin_locks s f2 = None" "f1 \<noteq> f2" "l \<noteq> f1" "l \<noteq> f2"
  shows "\<exists>s1 s2. winkernel_acquire_spin_lock_at_dpc_level t1 f1 l s = Returns s1 \<and> winkernel_acquire_spin_lock_at_dpc_level t2 f2 l s1 = Returns s2 \<and>
           spin_locks s2 l = spin_locks s l"
  using assms by (simp add: winkernel_acquire_spin_lock_at_dpc_level_def KeAcquireSpinLockAtDpcLevel_def)

section \<open>Pool types\<close>

text \<open>The pool type that the layer asks for is the one that the simulated pools turn back into the flags it was given, for every combination they accept.\<close>

lemma pool_types_agree:
  assumes "fl \<in> {CXPLAT_POOL_FLAG_NON_PAGED, CXPLAT_POOL_FLAG_PAGED, CXPLAT_POOL_FLAG_NON_PAGED OR CXPLAT_POOL_FLAG_CACHE_ALIGNED,
      CXPLAT_POOL_FLAG_PAGED OR CXPLAT_POOL_FLAG_CACHE_ALIGNED}"
  shows "pool_type_to_flags (pool_flags_to_type fl) True = Inr fl"
  using assms by (auto simp: pool_flags_to_type_def pool_type_to_flags_def has_flag_def)

end
