(* ===== verification/Winkernel_Work.thy ===== *)
theory Winkernel_Work
  imports Winkernel Io_Work
begin

text \<open>
  Preemptible work items in the kernel, \<^verbatim>\<open>cxplat/src/cxplat_winkernel/workitem_winkernel.c\<close>. The I/O manager of the system is a parameter (record
  \<open>io_manager\<close>); what the code relies on is the locale \<open>kernel_io\<close>, which extends \<open>kernel_pool\<close> because the I/O manager allocates from the same
  memory. The I/O work items that \<^verbatim>\<open>src/io.cpp\<close> simulates are shown to provide it. The fields of the structures are in \<open>kw_items\<close>, and \<open>kw_calls\<close>
  records the calls of work item routines as routine, work item and context. \<open>preemptible\<close> is the address of \<^verbatim>\<open>_cxplat_preemptible_routine\<close>.
\<close>

section \<open>Operations\<close>

record ('b, 's) io_manager =
  im_alloc :: "'b \<Rightarrow> ptr \<Rightarrow> 's \<Rightarrow> (ptr \<times> 's) result"
  im_queue :: "ptr \<Rightarrow> ptr \<Rightarrow> ptr \<Rightarrow> 's \<Rightarrow> 's result"
  im_free :: "'b \<Rightarrow> ptr \<Rightarrow> 's \<Rightarrow> 's result"

record kernel_work_item =
  kw_io :: ptr
  kw_routine :: ptr
  kw_context :: ptr

record 's kw_state =
  kw_kernel :: 's
  kw_items :: "ptr \<rightharpoonup> kernel_work_item"
  kw_calls :: "(ptr \<times> ptr \<times> ptr) list"

abbreviation CXPLAT_TAG_PREEMPTIBLE_WORK_ITEM :: u32 where "CXPLAT_TAG_PREEMPTIBLE_WORK_ITEM \<equiv> 0x77707863"

definition winkernel_preemptible_routine :: "ptr \<Rightarrow> ptr \<Rightarrow> 's kw_state \<Rightarrow> 's kw_state result" where
  "winkernel_preemptible_routine device context s =
     (if context = nullptr then Inr s
      else case kw_items s context of
             None \<Rightarrow> Inl Out_Of_Bounds
           | Some it \<Rightarrow> Inr (s\<lparr>kw_calls := kw_calls s @ [(kw_routine it, context, kw_context it)]\<rparr>))"

text \<open>The exit path releases the memory, which is a null pointer if it was refused. The structure has three pointers.\<close>

definition winkernel_allocate_work_item ::
  "('a, 's) kernel \<Rightarrow> ('b, 's) io_manager \<Rightarrow> 'a \<Rightarrow> 'a \<Rightarrow> 'b \<Rightarrow> ptr \<Rightarrow> ptr \<Rightarrow> ptr \<Rightarrow> 's kw_state \<Rightarrow>
   ((cxplat_status \<times> ptr) \<times> 's kw_state) result" where
  "winkernel_allocate_work_item k io a a' b caller_context routine context s =
     (case winkernel_allocate k a CXPLAT_POOL_FLAG_NON_PAGED 24 CXPLAT_TAG_PREEMPTIBLE_WORK_ITEM (kw_kernel s) of
        Inl e \<Rightarrow> Inl e
      | Inr (work_item, t) \<Rightarrow>
          let fail = (\<lambda>t. case winkernel_free k a' work_item CXPLAT_POOL_FLAG_NON_PAGED CXPLAT_TAG_PREEMPTIBLE_WORK_ITEM t of
                            Inl e \<Rightarrow> Inl e
                          | Inr t' \<Rightarrow> Inr ((Cxplat_No_Memory, nullptr), s\<lparr>kw_kernel := t'\<rparr>))
          in if work_item = nullptr then fail t
             else case im_alloc io b caller_context t of
               Inl e \<Rightarrow> Inl e
             | Inr (w, t1) \<Rightarrow>
                 if w = nullptr then fail t1
                 else Inr ((Cxplat_Success, work_item), s\<lparr>kw_kernel := t1, kw_items := (kw_items s)(work_item \<mapsto>
                        \<lparr>kw_io = w, kw_routine = routine, kw_context = context\<rparr>)\<rparr>))"

definition winkernel_queue_work_item :: "('b, 's) io_manager \<Rightarrow> ptr \<Rightarrow> ptr \<Rightarrow> 's kw_state \<Rightarrow> 's kw_state result" where
  "winkernel_queue_work_item io preemptible work_item s =
     (case kw_items s work_item of
        None \<Rightarrow> Inl Out_Of_Bounds
      | Some it \<Rightarrow>
          (case im_queue io (kw_io it) preemptible work_item (kw_kernel s) of
             Inl e \<Rightarrow> Inl e
           | Inr t \<Rightarrow> Inr (s\<lparr>kw_kernel := t\<rparr>)))"

definition winkernel_free_work_item :: "('a, 's) kernel \<Rightarrow> ('b, 's) io_manager \<Rightarrow> 'a \<Rightarrow> 'b \<Rightarrow> ptr \<Rightarrow> 's kw_state \<Rightarrow> 's kw_state result" where
  "winkernel_free_work_item k io a b work_item s =
     (if work_item = nullptr then Inr s
      else case kw_items s work_item of
        None \<Rightarrow> Inl Out_Of_Bounds
      | Some it \<Rightarrow>
          (case im_free io b (kw_io it) (kw_kernel s) of
             Inl e \<Rightarrow> Inl e
           | Inr t \<Rightarrow>
               (case winkernel_free k a work_item CXPLAT_POOL_FLAG_NON_PAGED CXPLAT_TAG_PREEMPTIBLE_WORK_ITEM t of
                  Inl e \<Rightarrow> Inl e
                | Inr t' \<Rightarrow> Inr (s\<lparr>kw_kernel := t', kw_items := (kw_items s)(work_item := None)\<rparr>))))"

definition winkernel_wait_for_work_items :: "'s kw_state \<Rightarrow> 's kw_state" where
  "winkernel_wait_for_work_items s = s"

text \<open>The calls that the I/O manager makes, as routine, device object and context: those of the routine above are executed.\<close>

fun kernel_calls :: "ptr \<Rightarrow> (ptr \<times> ptr \<times> ptr) list \<Rightarrow> 's kw_state \<Rightarrow> 's kw_state result" where
  "kernel_calls preemptible [] s = Inr s"
| "kernel_calls preemptible ((r, device, context) # cs) s =
     (if r = preemptible
      then (case winkernel_preemptible_routine device context s of Inl e \<Rightarrow> Inl e | Inr s1 \<Rightarrow> kernel_calls preemptible cs s1)
      else kernel_calls preemptible cs s)"

text \<open>The calls of routines that a call of the I/O manager leads to.\<close>

definition kernel_call :: "ptr \<Rightarrow> 's kw_state \<Rightarrow> ptr \<times> ptr \<times> ptr \<Rightarrow> (ptr \<times> ptr \<times> ptr) list" where
  "kernel_call preemptible s = (\<lambda>(r, device, context).
     if r = preemptible \<and> context \<noteq> nullptr
     then (case kw_items s context of None \<Rightarrow> [] | Some it \<Rightarrow> [(kw_routine it, context, kw_context it)])
     else [])"

definition calls_valid :: "ptr \<Rightarrow> (ptr \<times> ptr \<times> ptr) list \<Rightarrow> 's kw_state \<Rightarrow> bool" where
  "calls_valid preemptible cs s \<longleftrightarrow> (\<forall>(r, device, context) \<in> set cs. r = preemptible \<longrightarrow> context \<noteq> nullptr \<longrightarrow> kw_items s context \<noteq> None)"

lemma kernel_calls_all:
  "calls_valid preemptible cs s \<Longrightarrow>
   kernel_calls preemptible cs s = Inr (s\<lparr>kw_calls := kw_calls s @ concat (map (kernel_call preemptible s) cs)\<rparr>)"
proof (induction preemptible cs s rule: kernel_calls.induct)
  case (2 preemptible r device c cs s)
  have same: "kernel_call preemptible (s\<lparr>kw_calls := x\<rparr>) = kernel_call preemptible s" for x
    by (simp add: kernel_call_def fun_eq_iff)
  show ?case
  proof (cases "r = preemptible \<and> c \<noteq> nullptr")
    case True
    then obtain it where it: "kw_items s c = Some it" using "2.prems" by (auto simp: calls_valid_def)
    let ?s = "s\<lparr>kw_calls := kw_calls s @ [(kw_routine it, c, kw_context it)]\<rparr>"
    have "calls_valid preemptible cs ?s" using "2.prems" by (simp add: calls_valid_def)
    then show ?thesis using "2.IH"(1) [of ?s] True it same
      by (simp add: winkernel_preemptible_routine_def kernel_call_def)
  next
    case False
    then show ?thesis using "2.IH" "2.prems"
      by (cases "r = preemptible") (auto simp: winkernel_preemptible_routine_def kernel_call_def calls_valid_def)
  qed
qed simp

section \<open>What the code relies on\<close>

text \<open>
  The I/O manager: \<open>inv\<close> is its invariant, \<open>accepts s\<close> says that work may be queued, \<open>item s d w\<close> that \<open>w\<close> is a work item for the device
  object \<open>d\<close> and \<open>busy s w\<close> that it is queued; \<open>pending\<close> lists the calls of the queued items, and \<open>settle\<close> makes them. What a change of
  the memory keeps of all this is \<open>io_kept\<close>.
\<close>

record 's io_view =
  io_ok :: "'s \<Rightarrow> bool"
  accepts :: "'s \<Rightarrow> bool"
  pending :: "'s \<Rightarrow> (ptr \<times> ptr \<times> ptr) list"
  item :: "'s \<Rightarrow> ptr \<Rightarrow> ptr \<Rightarrow> bool"
  busy :: "'s \<Rightarrow> ptr \<Rightarrow> bool"

definition io_kept :: "'s io_view \<Rightarrow> 's \<Rightarrow> 's \<Rightarrow> bool" where
  "io_kept v s s1 \<longleftrightarrow> (io_ok v s \<longrightarrow> io_ok v s1) \<and> accepts v s1 = accepts v s \<and> pending v s1 = pending v s \<and>
     (\<forall>d w. item v s d w \<longrightarrow> item v s1 d w) \<and> (\<forall>w. busy v s1 w = busy v s w)"

locale kernel_io = kernel_pool k owned view blk fresh
  for k :: "('a, 's) kernel" and owned and view :: "'s \<Rightarrow> ptr \<rightharpoonup> 'i" and blk fresh +
  fixes io :: "('b, 's) io_manager" and v :: "'s io_view" and io_blk :: "ptr \<Rightarrow> ptr"
    and io_fresh :: "'b \<Rightarrow> 's \<Rightarrow> bool" and settle :: "'s \<Rightarrow> 's result"
  assumes io_alloc: "io_ok v s \<Longrightarrow> io_fresh b s \<Longrightarrow> \<exists>w s1. im_alloc io b d s = Inr (w, s1) \<and>
      (\<forall>tag m. owned tag s m \<longrightarrow> owned tag s1 m) \<and>
      (if w = nullptr then view s1 = view s
       else io_ok v s1 \<and> accepts v s1 = accepts v s \<and> pending v s1 = pending v s \<and>
            item v s1 d w \<and> \<not> busy v s1 w \<and> view s (io_blk w) = None \<and> (\<exists>i. view s1 = (view s)(io_blk w \<mapsto> i)))"
    and io_queue: "io_ok v s \<Longrightarrow> accepts v s \<Longrightarrow> item v s d w \<Longrightarrow> \<not> busy v s w \<Longrightarrow>
      \<exists>s1. im_queue io w r c s = Inr s1 \<and> io_ok v s1 \<and> view s1 = view s \<and> pending v s1 = pending v s @ [(r, d, c)] \<and>
        (\<forall>d w. item v s d w \<longrightarrow> item v s1 d w) \<and> (\<forall>tag m. owned tag s m \<longrightarrow> owned tag s1 m)"
    and io_settle: "io_ok v s \<Longrightarrow> \<exists>s1. settle s = Inr s1 \<and> io_ok v s1 \<and> view s1 = view s \<and> pending v s1 = [] \<and> (\<forall>w. \<not> busy v s1 w) \<and>
      (\<forall>d w. item v s d w \<longrightarrow> item v s1 d w) \<and> (\<forall>tag m. owned tag s m \<longrightarrow> owned tag s1 m)"
    and io_free: "io_ok v s \<Longrightarrow> item v s d w \<Longrightarrow> \<not> busy v s w \<Longrightarrow>
      \<exists>s1. im_free io b w s = Inr s1 \<and> view s1 = (view s)(io_blk w := None) \<and> (\<forall>tag m. owned tag s m \<longrightarrow> owned tag s1 m)"
    and pool_alloc_io: "ty \<in> {PagedPool, NonPagedPoolNx} \<Longrightarrow> k_alloc k a ty n tag s = Inr (m, s1) \<Longrightarrow> fresh a s \<Longrightarrow> io_kept v s s1"
    and pool_zero_io: "io_kept v s (k_zero k m n s)"
begin

lemma winkernel_allocate_io:
  assumes "winkernel_allocate k a CXPLAT_POOL_FLAG_NON_PAGED n tag s = Inr (m, s1)" "fresh a s"
  shows "io_kept v s s1"
proof -
  have ty: "pool_flags_to_type CXPLAT_POOL_FLAG_NON_PAGED \<in> {PagedPool, NonPagedPoolNx}" by (simp add: pool_flags_to_type_def has_flag_def)
  obtain t where t: "k_alloc k a (pool_flags_to_type CXPLAT_POOL_FLAG_NON_PAGED) n tag s = Inr (m, t)" "s1 = t \<or> s1 = k_zero k m n t"
    using assms(1) by (auto simp: winkernel_allocate_def split: sum.splits if_splits)
  have "io_kept v s t" by (rule pool_alloc_io [OF ty t(1) assms(2)])
  then show ?thesis using t(2) pool_zero_io [of t m n] by (auto simp: io_kept_def)
qed

text \<open>The memory after an allocation: that of before, the structure and the I/O work item.\<close>

lemma kernel_allocate_cases:
  assumes "io_ok v (kw_kernel s)" "fresh a (kw_kernel s)"
    and io: "\<forall>m t. winkernel_allocate k a CXPLAT_POOL_FLAG_NON_PAGED 24 CXPLAT_TAG_PREEMPTIBLE_WORK_ITEM (kw_kernel s) = Inr (m, t) \<longrightarrow> io_fresh b t"
  obtains (fails) s1 where "winkernel_allocate_work_item k io a a' b d r c s = Inr ((Cxplat_No_Memory, nullptr), s1)"
      "view (kw_kernel s1) = view (kw_kernel s)" "kw_items s1 = kw_items s"
  | (succeeds) m w t i j where "winkernel_allocate_work_item k io a a' b d r c s =
        Inr ((Cxplat_Success, m), s\<lparr>kw_kernel := t, kw_items := (kw_items s)(m \<mapsto> \<lparr>kw_io = w, kw_routine = r, kw_context = c\<rparr>)\<rparr>)"
      "m \<noteq> nullptr" "io_ok v t" "accepts v t = accepts v (kw_kernel s)" "pending v t = pending v (kw_kernel s)" "item v t d w" "\<not> busy v t w"
      "\<And>tag m. owned tag (kw_kernel s) m \<Longrightarrow> owned tag t m" "owned CXPLAT_TAG_PREEMPTIBLE_WORK_ITEM t m"
      "view (kw_kernel s) (blk m) = None" "view (kw_kernel s) (io_blk w) = None" "io_blk w \<noteq> blk m"
      "view t = (view (kw_kernel s))(blk m \<mapsto> i, io_blk w \<mapsto> j)"
proof (rule allocate_cases [of CXPLAT_POOL_FLAG_NON_PAGED CXPLAT_TAG_PREEMPTIBLE_WORK_ITEM 24 a "kw_kernel s"])
  fix t assume "winkernel_allocate k a CXPLAT_POOL_FLAG_NON_PAGED 24 CXPLAT_TAG_PREEMPTIBLE_WORK_ITEM (kw_kernel s) = Inr (nullptr, t)"
    "view t = view (kw_kernel s)"
  then show ?thesis by (intro fails [of "s\<lparr>kw_kernel := t\<rparr>"]) (simp_all add: winkernel_allocate_work_item_def winkernel_free_def)
next
  fix m t i assume c: "winkernel_allocate k a CXPLAT_POOL_FLAG_NON_PAGED 24 CXPLAT_TAG_PREEMPTIBLE_WORK_ITEM (kw_kernel s) = Inr (m, t)"
    "m \<noteq> nullptr" "owned CXPLAT_TAG_PREEMPTIBLE_WORK_ITEM t m" "view (kw_kernel s) (blk m) = None"
    "view t = (view (kw_kernel s))(blk m \<mapsto> i)" "\<And>tag' m'. owned tag' (kw_kernel s) m' \<Longrightarrow> owned tag' t m'"
  note K = winkernel_allocate_io [OF c(1) assms(2), unfolded io_kept_def]
  have io: "io_ok v t" "io_fresh b t" using K assms(1) io c(1) by blast+
  obtain w t1 where w: "im_alloc io b d t = Inr (w, t1)" "\<forall>tag m. owned tag t m \<longrightarrow> owned tag t1 m"
      "if w = nullptr then view t1 = view t
       else io_ok v t1 \<and> accepts v t1 = accepts v t \<and> pending v t1 = pending v t \<and>
            item v t1 d w \<and> \<not> busy v t1 w \<and> view t (io_blk w) = None \<and> (\<exists>i. view t1 = (view t)(io_blk w \<mapsto> i))"
    using io_alloc [OF io, of d] by blast
  show ?thesis
  proof (cases "w = nullptr")
    case True
    obtain t' where "k_free k a' m CXPLAT_TAG_PREEMPTIBLE_WORK_ITEM t1 = Inr t'" "view t' = (view t1)(blk m := None)"
      using free_ok [of CXPLAT_TAG_PREEMPTIBLE_WORK_ITEM t1 m a'] w(2) c(3) by blast
    then show ?thesis using True c w
      by (intro fails [of "s\<lparr>kw_kernel := t'\<rparr>"]) (auto simp: winkernel_allocate_work_item_def winkernel_free_def fun_eq_iff)
  next
    case False
    then obtain j where j: "view t1 = (view t)(io_blk w \<mapsto> j)" "view t (io_blk w) = None" using w(3) by auto
    have ne: "io_blk w \<noteq> blk m" "view (kw_kernel s) (io_blk w) = None" using j(2) c(5) by (auto split: if_splits)
    show ?thesis
      by (rule succeeds [of m w t1 i j]) (use False c w K j ne in \<open>simp_all add: winkernel_allocate_work_item_def\<close>)
  qed
qed (use assms(2) in simp_all)

text \<open>The structures are live allocations, and the calls that are pending for them find their structure.\<close>

definition kw_inv :: "ptr \<Rightarrow> 's kw_state \<Rightarrow> bool" where
  "kw_inv preemptible s \<longleftrightarrow> (\<forall>m. kw_items s m \<noteq> None \<longrightarrow> owned CXPLAT_TAG_PREEMPTIBLE_WORK_ITEM (kw_kernel s) m) \<and>
     calls_valid preemptible (pending v (kw_kernel s)) s"

lemma work_item_lifecycle:
  assumes "kw_inv preemptible s" "io_ok v (kw_kernel s)" "accepts v (kw_kernel s)" "fresh a (kw_kernel s)"
    and "\<forall>m t. winkernel_allocate k a CXPLAT_POOL_FLAG_NON_PAGED 24 CXPLAT_TAG_PREEMPTIBLE_WORK_ITEM (kw_kernel s) = Inr (m, t) \<longrightarrow> io_fresh b t"
  shows "\<exists>status m s1. winkernel_allocate_work_item k io a a' b d r c s = Inr ((status, m), s1) \<and>
           (if status = Cxplat_Success
            then \<exists>s2 t s3 s4. winkernel_queue_work_item io preemptible m s1 = Inr s2 \<and>
                   settle (kw_kernel s2) = Inr t \<and> kernel_calls preemptible (pending v (kw_kernel s2)) (s2\<lparr>kw_kernel := t\<rparr>) = Inr s3 \<and>
                   kw_calls s3 = kw_calls s @ concat (map (kernel_call preemptible s) (pending v (kw_kernel s))) @ [(r, m, c)] \<and>
                   winkernel_free_work_item k io a'' b' m s3 = Inr s4 \<and>
                   view (kw_kernel s4) = view (kw_kernel s) \<and> kw_items s4 = kw_items s
            else m = nullptr \<and> view (kw_kernel s1) = view (kw_kernel s) \<and> kw_items s1 = kw_items s)"
proof (rule kernel_allocate_cases [OF assms(2,4,5), where a' = a' and d = d and r = r and c = c])
  fix s1 assume "winkernel_allocate_work_item k io a a' b d r c s = Inr ((Cxplat_No_Memory, nullptr), s1)"
      "view (kw_kernel s1) = view (kw_kernel s)" "kw_items s1 = kw_items s"
  then show ?thesis by simp
next
  fix m w t i j
  let ?T = CXPLAT_TAG_PREEMPTIBLE_WORK_ITEM and ?it = "\<lparr>kw_io = w, kw_routine = r, kw_context = c\<rparr>"
  let ?s1 = "s\<lparr>kw_kernel := t, kw_items := (kw_items s)(m \<mapsto> ?it)\<rparr>" and ?cs = "pending v (kw_kernel s)"
  assume A: "winkernel_allocate_work_item k io a a' b d r c s = Inr ((Cxplat_Success, m), ?s1)"
    and m: "m \<noteq> nullptr" "io_ok v t" "accepts v t = accepts v (kw_kernel s)" "pending v t = ?cs" "item v t d w" "\<not> busy v t w"
      "owned ?T t m" "view (kw_kernel s) (blk m) = None" "view (kw_kernel s) (io_blk w) = None" "io_blk w \<noteq> blk m"
      "view t = (view (kw_kernel s))(blk m \<mapsto> i, io_blk w \<mapsto> j)"
  have new: "kw_items s m = None" using assms(1) owned_view [of ?T "kw_kernel s" m] m(8) by (auto simp: kw_inv_def)
  obtain t2 where t2: "im_queue io w preemptible m t = Inr t2" "io_ok v t2" "view t2 = view t" "pending v t2 = ?cs @ [(preemptible, d, m)]"
      "item v t2 d w" "owned ?T t2 m" using io_queue [OF m(2) _ m(5,6)] m(3,4,5,7) assms(3) by metis
  obtain t3 where t3: "settle t2 = Inr t3" "io_ok v t3" "view t3 = view t" "\<not> busy v t3 w" "item v t3 d w" "owned ?T t3 m"
    using io_settle [OF t2(2)] t2(3,5,6) by metis
  let ?s2 = "?s1\<lparr>kw_kernel := t2\<rparr>" and ?s3 = "?s1\<lparr>kw_kernel := t3\<rparr>"
  have q: "winkernel_queue_work_item io preemptible m ?s1 = Inr ?s2" using t2(1) by (simp add: winkernel_queue_work_item_def)
  have same: "kernel_call preemptible ?s3 x = kernel_call preemptible s x" if "x \<in> set ?cs" for x
    using assms(1) new that by (cases x) (auto simp: kernel_call_def kw_inv_def calls_valid_def)
  have "calls_valid preemptible (?cs @ [(preemptible, d, m)]) ?s3" using assms(1) by (auto simp: kw_inv_def calls_valid_def)
  note run = kernel_calls_all [OF this]
  have calls: "concat (map (kernel_call preemptible ?s3) (?cs @ [(preemptible, d, m)])) =
      concat (map (kernel_call preemptible s) ?cs) @ [(r, m, c)]"
    using same m(1) by (simp add: kernel_call_def cong: map_cong)
  obtain t4 where t4: "im_free io b' w t3 = Inr t4" "view t4 = (view t3)(io_blk w := None)" "owned ?T t4 m"
    using io_free [OF t3(2,5,4)] t3(6) by metis
  obtain t5 where t5: "k_free k a'' m ?T t4 = Inr t5" "view t5 = (view t4)(blk m := None)" using free_ok [OF t4(3)] by blast
  have "view t5 = view (kw_kernel s)" using t5(2) t4(2) t3(3) m(8-11) by (auto simp: fun_eq_iff)
  then show ?thesis using A m(1) q t2(4) t3(1) run calls t4(1) t5(1) new
    by (simp add: winkernel_free_work_item_def winkernel_free_def fun_upd_idem)
qed

end

section \<open>The I/O work items of this library provide it\<close>

definition io_kernel :: "(bool \<times> ptr \<times> backtrace, io_state) kernel" where
  "io_kernel =
     \<lparr>k_alloc = \<lambda>a ty n tag s. (case k_alloc usersim_kernel a ty n tag (io_heap s) of
        Inl e \<Rightarrow> Inl e | Inr (m, h) \<Rightarrow> Inr (m, s\<lparr>io_heap := h\<rparr>)),
      k_free = \<lambda>a m tag s. (case k_free usersim_kernel a m tag (io_heap s) of Inl e \<Rightarrow> Inl e | Inr h \<Rightarrow> Inr (s\<lparr>io_heap := h\<rparr>)),
      k_zero = \<lambda>m n s. s\<lparr>io_heap := k_zero usersim_kernel m n (io_heap s)\<rparr>,
      k_copy = \<lambda>m m' n s. s\<lparr>io_heap := k_copy usersim_kernel m m' n (io_heap s)\<rparr>\<rparr>"

abbreviation "io_owned \<equiv> \<lambda>tag (s :: io_state). kp_owned tag (io_heap s)"
abbreviation "io_blocks \<equiv> \<lambda>s :: io_state. blocks (io_heap s)"
abbreviation "io_pool_fresh \<equiv> \<lambda>a (s :: io_state). kp_fresh a (io_heap s)"

type_synonym io_request = "object_request \<times> backtrace \<times> ptr \<times> (u32 + unit)"

definition usersim_io :: "ptr \<Rightarrow> (io_request, io_state) io_manager" where
  "usersim_io wrapper =
     \<lparr>im_alloc = \<lambda>(a, bt, wp, work) device s. IoAllocateWorkItem wrapper a bt wp work device s,
      im_queue = IoQueueWorkItem,
      im_free = \<lambda>(a, bt, wp, work) m s. IoFreeWorkItem bt m s\<rparr>"

definition usersim_view :: "ptr \<Rightarrow> io_state io_view" where
  "usersim_view wrapper =
     \<lparr>io_ok = io_inv wrapper,
      accepts = \<lambda>s. \<not> rundown_down (rundown_reference (io_pool s)) (rundown (io_pool s)) \<and> length (submitted (io_pool s)) < 2 ^ 64 - 1,
      pending = \<lambda>s. concat (map (io_call wrapper s) (submitted (io_pool s))),
      item = \<lambda>s d w. w \<noteq> nullptr \<and> (\<exists>it. io_items s w = Some it \<and> device_object it = d \<and>
                items (io_pool s) (cxplat_work_item it) = Some \<lparr>work_item_routine = wrapper, work_item_context = w\<rparr>),
      busy = \<lambda>s w. \<exists>w' \<in> set (submitted (io_pool s)). \<exists>i. items (io_pool s) w' = Some i \<and> work_item_routine i = wrapper \<and> work_item_context i = w\<rparr>"

lemma usersim_view_simps:
  "io_ok (usersim_view wrapper) = io_inv wrapper"
  "accepts (usersim_view wrapper) s \<longleftrightarrow>
     \<not> rundown_down (rundown_reference (io_pool s)) (rundown (io_pool s)) \<and> length (submitted (io_pool s)) < 2 ^ 64 - 1"
  "pending (usersim_view wrapper) s = concat (map (io_call wrapper s) (submitted (io_pool s)))"
  by (simp_all add: usersim_view_def)

definition usersim_io_fresh :: "io_request \<Rightarrow> io_state \<Rightarrow> bool" where
  "usersim_io_fresh b s \<longleftrightarrow> (case b of ((fault, p, bt', n), bt, wp, work) \<Rightarrow>
     0 < n \<and> cx_fresh (fault, p, bt', n) (io_heap s) \<and> items (io_pool s) wp = None)"

lemma io_kernel_alloc:
  "k_alloc io_kernel a ty n tag s = Inr (m, s1) \<longleftrightarrow>
     (\<exists>h. k_alloc usersim_kernel a ty n tag (io_heap s) = Inr (m, h) \<and> s1 = s\<lparr>io_heap := h\<rparr>)"
  by (auto simp: io_kernel_def split: sum.splits)

interpretation iok: kernel_pool io_kernel io_owned io_blocks np_blk io_pool_fresh
proof unfold_locales
  fix ty tag :: u32 and n :: u64 and a and s :: io_state
  assume "ty \<in> {PagedPool, NonPagedPoolNx}" "tag \<noteq> 0" "0 < n" "n < 2 ^ 32"
  then obtain m h where "k_alloc usersim_kernel a ty n tag (io_heap s) = Inr (m, h)" using kp.alloc_returns by blast
  then show "\<exists>m s1. k_alloc io_kernel a ty n tag s = Inr (m, s1)" by (simp add: io_kernel_def)
next
  fix ty a n tag m and s s1 :: io_state
  assume ty: "ty \<in> {PagedPool, NonPagedPoolNx}" and f: "io_pool_fresh a s" and A: "k_alloc io_kernel a ty n tag s = Inr (m, s1)"
  obtain h where h: "k_alloc usersim_kernel a ty n tag (io_heap s) = Inr (m, h)" "s1 = s\<lparr>io_heap := h\<rparr>" using A by (auto simp: io_kernel_alloc)
  show "io_owned tag s1 m \<and> io_blocks s (np_blk m) = None \<and> (\<exists>i. io_blocks s1 = (io_blocks s)(np_blk m \<mapsto> i))" if "m \<noteq> nullptr"
    using kp.alloc_ok [OF ty h(1) that f] h(2) by simp
  show "io_owned tag' s1 m'" if "io_owned tag' s m'" for tag' m'
    using kp.alloc_keeps [OF ty h(1) f that] h(2) by simp
next
  fix ty a n tag and s s1 :: io_state
  assume ty: "ty \<in> {PagedPool, NonPagedPoolNx}" and f: "io_pool_fresh a s" and A: "k_alloc io_kernel a ty n tag s = Inr (nullptr, s1)"
  show "io_blocks s1 = io_blocks s" using kp.alloc_fail [OF ty _ f] A by (auto simp: io_kernel_alloc)
next
  fix tag m a and s :: io_state assume "io_owned tag s m"
  from kp.free_ok [OF this, of a] show "\<exists>s1. k_free io_kernel a m tag s = Inr s1 \<and> io_blocks s1 = (io_blocks s)(np_blk m := None) \<and>
      (\<forall>tag' m'. m' \<noteq> m \<longrightarrow> io_owned tag' s m' \<longrightarrow> io_owned tag' s1 m')"
    by (auto simp: io_kernel_def)
next
  fix tag m and s :: io_state assume "io_owned tag s m"
  then show "m \<noteq> nullptr \<and> io_blocks s (np_blk m) \<noteq> None" by (rule kp.owned_view)
next
  fix a and s s1 :: io_state assume "io_blocks s1 = io_blocks s"
  then show "io_pool_fresh a s1 = io_pool_fresh a s" by (rule kp.fresh_view)
qed (simp_all add: io_kernel_def kp.zero_view kp.zero_owned kp.copy_view kp.copy_owned)

text \<open>What the two allocators keep of each other's blocks, which differ in the flags of their headers.\<close>

lemma kp_alloc_keeps_cx:
  assumes "k_alloc usersim_kernel a ty n tag s = Inr (m, s1)" "ty \<in> {PagedPool, NonPagedPoolNx}" "kp_fresh a s" "cx_owned tag' s w"
  shows "cx_owned tag' s1 w"
proof -
  obtain fault p bt where a: "a = (fault, p, bt)" by (cases a)
  have A: "ExAllocatePoolUninitializedCPP fault p bt ty n tag s = Inr (m, s1)" using assms(1) by (simp add: usersim_kernel_def a)
  have f: "blocks s p = None" "p + 16 \<noteq> nullptr" "p + 80 \<noteq> nullptr" using assms(3) by (simp_all add: kp_fresh_def a)
  have "w - 16 \<noteq> p" using assms(4) f(1) by (auto simp: cx_owned_iff)
  then show ?thesis by (rule_tac kp_alloc_cases [OF A assms(2) f(2,3)]) (use assms(4) in \<open>auto simp: cx_owned_iff\<close>)
qed

lemma cx_alloc_keeps_kp:
  assumes "cx_alloc tag a s = Inr (m, s1)" "cx_fresh a s" "kp_owned tag' s w"
  shows "kp_owned tag' s1 w"
proof -
  obtain fault p bt n where a: "a = (fault, p, bt, n)" by (cases a)
  have al: "cxplat_allocate fault p bt CXPLAT_POOL_FLAG_NON_PAGED n tag s = Inr (m, s1)" using assms(1) a by (simp add: cx_alloc_def)
  have p: "blocks s p = None" "p + 16 \<noteq> nullptr" using assms(2) by (simp_all add: cx_fresh_def a)
  show ?thesis
  proof (cases "m = nullptr")
    case True
    then show ?thesis using allocate_failure [of fault p bt CXPLAT_POOL_FLAG_NON_PAGED n tag s s1] al p(2) assms(3) by (simp add: cx_flags)
  next
    case False
    note S = allocate_success [OF al False]
    have "m = p + 16" using S(3) by (simp add: cx_flags)
    moreover have "w - 80 \<noteq> p" using assms(3) p(1) by (auto simp: kp_owned_def)
    ultimately show ?thesis using assms(3) by (auto simp: kp_owned_def S(4))
  qed
qed

lemma cx_free_keeps_kp:
  assumes "cx_owned tag s m" "cx_free tag bt m s = Inr s1" "kp_owned tag' s w"
  shows "kp_owned tag' s1 w"
proof -
  have s1: "blocks s1 = (blocks s)(m - 16 := None)" "headers s1 = headers s" "pool_headers s1 = pool_headers s"
      "map_option allocations (leaks s1) = map_option (\<lambda>d. (allocations d)(m := None)) (leaks s)"
    by (rule cx_free_effect [OF assms(1), of bt]; use assms(2) in simp)+
  have "hd_pool_flags (headers s (w - 80)) \<noteq> hd_pool_flags (headers s (m - 16))"
    using assms(1,3) by (auto simp: kp_owned_def cx_owned_iff new_header_def)
  then have ne: "w - 80 \<noteq> m - 16" by auto
  then have "w - 64 \<noteq> m" by auto
  then show ?thesis using assms(3) s1 ne by (cases "leaks s"; cases "leaks s1") (auto simp: kp_owned_def)
qed

lemma io_call_heap [simp]: "io_call wrapper (s\<lparr>io_heap := h\<rparr>) = io_call wrapper s"
  by (simp add: io_call_def fun_eq_iff split: option.split)

text \<open>The calls of the submitted items do not depend on items that no submission names.\<close>

lemma pending_cong:
  assumes "\<And>w. w \<in> set ws \<Longrightarrow> items (io_pool s1) w = items (io_pool s) w"
    and "\<And>w i. w \<in> set ws \<Longrightarrow> items (io_pool s) w = Some i \<Longrightarrow> work_item_routine i = wrapper \<Longrightarrow> io_items s1 (work_item_context i) = io_items s (work_item_context i)"
  shows "concat (map (io_call wrapper s1) ws) = concat (map (io_call wrapper s) ws)"
proof -
  have "io_call wrapper s1 w = io_call wrapper s w" if "w \<in> set ws" for w
    using assms(1) [OF that] assms(2) [OF that] by (auto simp: io_call_def split: option.splits)
  then show ?thesis by (simp cong: map_cong)
qed

text \<open>The state after an allocation: a new item that no submission names.\<close>

lemma usersim_io_new_item:
  fixes d :: ptr
  assumes inv: "io_inv wrapper s" and h: "cx_alloc USERSIM_TAG_IO_WORK_ITEM a (io_heap s) = Inr (m, h)" "m \<noteq> nullptr" "cx_fresh a (io_heap s)"
    and wp: "wp \<noteq> nullptr" "items (io_pool s) wp = None"
  defines "s1 \<equiv> s\<lparr>io_heap := h, io_items := (io_items s)(m \<mapsto> \<lparr>device_object = d, cxplat_work_item = wp, io_routine = nullptr, io_context = nullptr\<rparr>),
      io_pool := (io_pool s)\<lparr>items := (items (io_pool s))(wp \<mapsto> \<lparr>work_item_routine = wrapper, work_item_context = m\<rparr>)\<rparr>\<rparr>"
  shows "io_inv wrapper s1" "pending (usersim_view wrapper) s1 = pending (usersim_view wrapper) s" "\<not> busy (usersim_view wrapper) s1 m"
proof -
  note A = cx.alloc_ok [OF h]
  have new: "io_items s m = None" using inv A cx.owned_view [of USERSIM_TAG_IO_WORK_ITEM "io_heap s" m] by (auto simp: io_inv_def)
  have sub: "x \<noteq> wp" if "x \<in> set (submitted (io_pool s))" for x using inv wp(2) that by (auto simp: io_inv_def work_inv_def)
  have ctx: "work_item_context i \<noteq> m"
    if "x \<in> set (submitted (io_pool s))" "items (io_pool s) x = Some i" "work_item_routine i = wrapper" for x i
    using inv new that by (auto simp: io_inv_def)
  have "work_inv (io_pool s1)" using inv wp by (auto simp: s1_def io_inv_def work_inv_def)
  then show "io_inv wrapper s1" using inv A cx.alloc_keeps [OF h(1,3)] sub ctx by (auto simp: s1_def io_inv_def)
  show "pending (usersim_view wrapper) s1 = pending (usersim_view wrapper) s"
    using pending_cong [of "submitted (io_pool s)" s1 s wrapper] sub ctx by (auto simp: s1_def usersim_view_def)
  show "\<not> busy (usersim_view wrapper) s1 m" using sub ctx by (auto simp: s1_def usersim_view_def)
qed

lemma usersim_io_alloc:
  assumes inv: "io_inv wrapper s" and b: "b = (a, bt, wp, work)" and f: "usersim_io_fresh b s"
  shows "\<exists>w s1. IoAllocateWorkItem wrapper a bt wp work d s = Inr (w, s1) \<and> (\<forall>tag m. io_owned tag s m \<longrightarrow> io_owned tag s1 m) \<and>
      (if w = nullptr then io_blocks s1 = io_blocks s
       else io_inv wrapper s1 \<and> accepts (usersim_view wrapper) s1 = accepts (usersim_view wrapper) s \<and>
            pending (usersim_view wrapper) s1 = pending (usersim_view wrapper) s \<and> item (usersim_view wrapper) s1 d w \<and>
            \<not> busy (usersim_view wrapper) s1 w \<and> io_blocks s (cx_blk w) = None \<and> (\<exists>i. io_blocks s1 = (io_blocks s)(cx_blk w \<mapsto> i)))"
proof -
  let ?T = USERSIM_TAG_IO_WORK_ITEM
  obtain fault p bt' n where a: "a = (fault, p, bt', n)" by (cases a)
  have fresh: "0 < n" "cx_fresh a (io_heap s)" "items (io_pool s) wp = None" using f by (simp_all add: usersim_io_fresh_def b a)
  obtain m h where h: "cx_alloc ?T a (io_heap s) = Inr (m, h)"
    using fresh(1) by (cases "cx_alloc ?T a (io_heap s)") (auto simp: cx_alloc_def a cxplat_allocate_def Let_def split: if_splits)
  have keep: "io_owned tag s w \<Longrightarrow> kp_owned tag h w" for tag w by (rule cx_alloc_keeps_kp [OF h fresh(2)])
  show ?thesis
  proof (cases "m = nullptr")
    case True
    then show ?thesis using h keep cx.alloc_fail [of ?T a "io_heap s" h] fresh(2) by (simp add: IoAllocateWorkItem_def)
  next
    case False
    note A = cx.alloc_ok [OF h False fresh(2)]
    obtain status w q where q: "cxplat_allocate_preemptible_work_item wp work wrapper m (io_pool s) = ((status, w), q)" by (metis prod.exhaust)
    show ?thesis
    proof (cases "status = Cxplat_Success")
      case bad: False
      obtain h' where h': "cx_free ?T bt m h = Inr h'" "blocks h' = io_blocks s" using cx.one_buffer [OF h False fresh(2), of bt] by blast
      have "kp_owned tag h' w" if "io_owned tag s w" for tag w
        using cx_free_keeps_kp [OF _ h'(1)] A keep [OF that] by blast
      then show ?thesis using h q False bad h' by (simp add: IoAllocateWorkItem_def)
    next
      case True
      then have wp: "wp \<noteq> nullptr" "w = wp"
          "q = (io_pool s)\<lparr>items := (items (io_pool s))(wp \<mapsto> \<lparr>work_item_routine = wrapper, work_item_context = m\<rparr>)\<rparr>"
        using q by (auto simp: cxplat_allocate_preemptible_work_item_def split: if_splits sum.splits)
      let ?s1 = "s\<lparr>io_heap := h, io_pool := q, io_items := (io_items s)(m \<mapsto>
                   \<lparr>device_object = d, cxplat_work_item = wp, io_routine = nullptr, io_context = nullptr\<rparr>)\<rparr>"
      have run: "IoAllocateWorkItem wrapper a bt wp work d s = Inr (m, ?s1)" using h q False True wp by (simp add: IoAllocateWorkItem_def)
      have "?s1 = s\<lparr>io_heap := h, io_items := (io_items s)(m \<mapsto> \<lparr>device_object = d, cxplat_work_item = wp, io_routine = nullptr, io_context = nullptr\<rparr>),
          io_pool := (io_pool s)\<lparr>items := (items (io_pool s))(wp \<mapsto> \<lparr>work_item_routine = wrapper, work_item_context = m\<rparr>)\<rparr>\<rparr>" by (simp add: wp(3))
      note N = usersim_io_new_item [OF inv h False fresh(2) wp(1) fresh(3), of d, folded this]
      show ?thesis using N run False keep A wp by (auto simp: usersim_view_def)
    qed
  qed
qed

lemma usersim_io_queue:
  assumes inv: "io_inv wrapper s" and ok: "accepts (usersim_view wrapper) s" and it: "item (usersim_view wrapper) s d w"
    and idle: "\<not> busy (usersim_view wrapper) s w"
  shows "\<exists>s1. IoQueueWorkItem w r c s = Inr s1 \<and> io_inv wrapper s1 \<and> io_heap s1 = io_heap s \<and>
           pending (usersim_view wrapper) s1 = pending (usersim_view wrapper) s @ [(r, d, c)] \<and>
           (\<forall>d w. item (usersim_view wrapper) s d w \<longrightarrow> item (usersim_view wrapper) s1 d w)"
proof -
  obtain x where x: "w \<noteq> nullptr" "io_items s w = Some x" "device_object x = d"
      "items (io_pool s) (cxplat_work_item x) = Some \<lparr>work_item_routine = wrapper, work_item_context = w\<rparr>"
    using it by (auto simp: usersim_view_def)
  obtain q where q: "cxplat_queue_preemptible_work_item (cxplat_work_item x) (io_pool s) = Inr q"
      "submitted q = submitted (io_pool s) @ [cxplat_work_item x]" "items q = items (io_pool s)" "work_inv q"
    by (rule queue_item [of "io_pool s" "cxplat_work_item x"]) (use inv ok x in \<open>auto simp: io_inv_def usersim_view_def\<close>)
  let ?x = "x\<lparr>io_routine := r, io_context := c\<rparr>"
  let ?s1 = "s\<lparr>io_items := (io_items s)(w \<mapsto> ?x), io_pool := q\<rparr>"
  have run: "IoQueueWorkItem w r c s = Inr ?s1" using x q(1) by (simp add: IoQueueWorkItem_def)
  have "concat (map (io_call wrapper ?s1) (submitted (io_pool s))) = concat (map (io_call wrapper s) (submitted (io_pool s)))"
    by (rule pending_cong) (use idle q(3) in \<open>auto simp: usersim_view_def\<close>)
  then have "pending (usersim_view wrapper) ?s1 = pending (usersim_view wrapper) s @ [(r, d, c)]"
    using x q(2,3) by (simp add: usersim_view_def) (simp add: io_call_def)
  moreover have "io_inv wrapper ?s1" using inv x q(2-4) by (auto simp: io_inv_def)
  moreover have "\<forall>d w. item (usersim_view wrapper) s d w \<longrightarrow> item (usersim_view wrapper) ?s1 d w"
    using x q(3) by (auto simp: usersim_view_def)
  ultimately show ?thesis using run by auto
qed

lemma heap_io_kept:
  assumes "\<And>w. cx_owned USERSIM_TAG_IO_WORK_ITEM (io_heap s) w \<Longrightarrow> cx_owned USERSIM_TAG_IO_WORK_ITEM h w"
  shows "io_kept (usersim_view wrapper) s (s\<lparr>io_heap := h\<rparr>)"
  using assms by (auto simp: io_kept_def usersim_view_def io_inv_def)

lemma usersim_io_free:
  fixes b :: io_request and s :: io_state
  assumes ok: "io_ok (usersim_view wrapper) s" "item (usersim_view wrapper) s d w"
  shows "\<exists>s1. im_free (usersim_io wrapper) b w s = Inr s1 \<and> io_blocks s1 = (io_blocks s)(cx_blk w := None) \<and>
      (\<forall>tag m. io_owned tag s m \<longrightarrow> io_owned tag s1 m)"
proof -
  obtain a bt wp work where b: "b = (a, bt, wp, work)" by (cases b)
  obtain x where x: "io_items s w = Some x" "cx_owned USERSIM_TAG_IO_WORK_ITEM (io_heap s) w"
    using ok by (auto simp: usersim_view_def io_inv_def)
  obtain h where "cx_free USERSIM_TAG_IO_WORK_ITEM bt w (io_heap s) = Inr h" "blocks h = (io_blocks s)(cx_blk w := None)"
    using cx.free_ok [OF x(2), of bt] by blast
  then show ?thesis
    using x cx_free_keeps_kp [OF x(2)] by (auto simp: usersim_io_def b IoFreeWorkItem_def)
qed

interpretation uio: kernel_io io_kernel io_owned io_blocks np_blk io_pool_fresh "usersim_io wrapper" "usersim_view wrapper"
  cx_blk usersim_io_fresh "\<lambda>s. io_callbacks (length (submitted (io_pool s))) wrapper s" for wrapper
proof unfold_locales
  fix b d and s :: io_state assume "io_ok (usersim_view wrapper) s" and f: "usersim_io_fresh b s"
  moreover obtain a bt wp work where b: "b = (a, bt, wp, work)" by (cases b)
  ultimately show "\<exists>w s1. im_alloc (usersim_io wrapper) b d s = Inr (w, s1) \<and> (\<forall>tag m. io_owned tag s m \<longrightarrow> io_owned tag s1 m) \<and>
      (if w = nullptr then io_blocks s1 = io_blocks s
       else io_ok (usersim_view wrapper) s1 \<and> accepts (usersim_view wrapper) s1 = accepts (usersim_view wrapper) s \<and>
            pending (usersim_view wrapper) s1 = pending (usersim_view wrapper) s \<and> item (usersim_view wrapper) s1 d w \<and>
            \<not> busy (usersim_view wrapper) s1 w \<and> io_blocks s (cx_blk w) = None \<and> (\<exists>i. io_blocks s1 = (io_blocks s)(cx_blk w \<mapsto> i)))"
    using usersim_io_alloc [OF _ b f, of wrapper d] by (simp only: usersim_view_simps(1) usersim_io_def io_manager.simps prod.case)
next
  fix d w r c and s :: io_state
  assume "io_ok (usersim_view wrapper) s" "accepts (usersim_view wrapper) s" "item (usersim_view wrapper) s d w" "\<not> busy (usersim_view wrapper) s w"
  then obtain s1 where "IoQueueWorkItem w r c s = Inr s1 \<and> io_inv wrapper s1 \<and> io_heap s1 = io_heap s \<and>
           pending (usersim_view wrapper) s1 = pending (usersim_view wrapper) s @ [(r, d, c)] \<and>
           (\<forall>d w. item (usersim_view wrapper) s d w \<longrightarrow> item (usersim_view wrapper) s1 d w)"
    using usersim_io_queue [of wrapper s d w r c] by (auto simp: usersim_view_def)
  then show "\<exists>s1. im_queue (usersim_io wrapper) w r c s = Inr s1 \<and> io_ok (usersim_view wrapper) s1 \<and> io_blocks s1 = io_blocks s \<and>
      pending (usersim_view wrapper) s1 = pending (usersim_view wrapper) s @ [(r, d, c)] \<and>
      (\<forall>d w. item (usersim_view wrapper) s d w \<longrightarrow> item (usersim_view wrapper) s1 d w) \<and> (\<forall>tag m. io_owned tag s m \<longrightarrow> io_owned tag s1 m)"
    by (intro exI [of _ s1]) (simp add: usersim_io_def, simp add: usersim_view_def)
next
  fix s :: io_state assume "io_ok (usersim_view wrapper) s"
  then obtain s1 where "io_callbacks (length (submitted (io_pool s))) wrapper s = Inr s1" "io_inv wrapper s1" "submitted (io_pool s1) = []"
      "items (io_pool s1) = items (io_pool s)" "io_items s1 = io_items s" "io_heap s1 = io_heap s"
    using io_callbacks_all [of wrapper s] by (auto simp: usersim_view_def)
  then show "\<exists>s1. io_callbacks (length (submitted (io_pool s))) wrapper s = Inr s1 \<and> io_ok (usersim_view wrapper) s1 \<and> io_blocks s1 = io_blocks s \<and>
      pending (usersim_view wrapper) s1 = [] \<and> (\<forall>w. \<not> busy (usersim_view wrapper) s1 w) \<and>
      (\<forall>d w. item (usersim_view wrapper) s d w \<longrightarrow> item (usersim_view wrapper) s1 d w) \<and> (\<forall>tag m. io_owned tag s m \<longrightarrow> io_owned tag s1 m)"
    by (simp add: usersim_view_def)
next
  fix d w and b :: io_request and s :: io_state
  assume "io_ok (usersim_view wrapper) s" "item (usersim_view wrapper) s d w"
  then show "\<exists>s1. im_free (usersim_io wrapper) b w s = Inr s1 \<and> io_blocks s1 = (io_blocks s)(cx_blk w := None) \<and>
      (\<forall>tag m. io_owned tag s m \<longrightarrow> io_owned tag s1 m)"
    by (rule usersim_io_free)
next
  fix ty a n tag m and s s1 :: io_state
  assume ty: "ty \<in> {PagedPool, NonPagedPoolNx}" and A: "k_alloc io_kernel a ty n tag s = Inr (m, s1)" and f: "io_pool_fresh a s"
  then obtain h where h: "k_alloc usersim_kernel a ty n tag (io_heap s) = Inr (m, h)" "s1 = s\<lparr>io_heap := h\<rparr>" by (auto simp: io_kernel_alloc)
  show "io_kept (usersim_view wrapper) s s1" unfolding h(2) by (rule heap_io_kept) (rule kp_alloc_keeps_cx [OF h(1) ty f])
next
  fix m n and s :: io_state
  show "io_kept (usersim_view wrapper) s (k_zero io_kernel m n s)"
    unfolding io_kernel_def kernel.simps by (rule heap_io_kept) (auto simp: usersim_kernel_def cx_owned_iff)
qed

section \<open>Properties\<close>

text \<open>
  C20: a preemptible work item of the kernel build runs once and leaves nothing behind, here with the I/O work items of this library as the I/O
  manager and its pools as the memory. The allocation returns; if it fails, in either of its two steps, the memory and the work items are as before. If it succeeds,
  the item can be queued; once the I/O manager has made the calls that were pending, the calls of the items queued before have been made and
  the routine has been called once, with the work item and the context of the allocation. The item can then be freed,
  and the blocks of the heap and the work items are those from before.
\<close>
theorem kernel_work_item_lifecycle:
  fixes s :: "io_state kw_state" and wrapper preemptible :: ptr
  defines "ws \<equiv> submitted (io_pool (kw_kernel s))"
  assumes inv: "\<forall>m. kw_items s m \<noteq> None \<longrightarrow> kp_owned CXPLAT_TAG_PREEMPTIBLE_WORK_ITEM (io_heap (kw_kernel s)) m" "io_inv wrapper (kw_kernel s)"
      "calls_valid preemptible (concat (map (io_call wrapper (kw_kernel s)) ws)) s"
    and up: "\<not> rundown_down (rundown_reference (io_pool (kw_kernel s))) (rundown (io_pool (kw_kernel s)))" "length ws < 2 ^ 64 - 1"
    and fresh: "kp_fresh a (io_heap (kw_kernel s))"
      "\<forall>m t. winkernel_allocate io_kernel a CXPLAT_POOL_FLAG_NON_PAGED 24 CXPLAT_TAG_PREEMPTIBLE_WORK_ITEM (kw_kernel s) = Inr (m, t) \<longrightarrow> usersim_io_fresh b t"
  shows "\<exists>status m s1. winkernel_allocate_work_item io_kernel (usersim_io wrapper) a a' b d r c s = Inr ((status, m), s1) \<and>
           (if status = Cxplat_Success
            then \<exists>s2 t s3 s4. winkernel_queue_work_item (usersim_io wrapper) preemptible m s1 = Inr s2 \<and>
                   io_callbacks (length (submitted (io_pool (kw_kernel s2)))) wrapper (kw_kernel s2) = Inr t \<and>
                   kernel_calls preemptible (concat (map (io_call wrapper (kw_kernel s2)) (submitted (io_pool (kw_kernel s2)))))
                     (s2\<lparr>kw_kernel := t\<rparr>) = Inr s3 \<and>
                   kw_calls s3 = kw_calls s @ concat (map (kernel_call preemptible s) (concat (map (io_call wrapper (kw_kernel s)) ws))) @ [(r, m, c)] \<and>
                   winkernel_free_work_item io_kernel (usersim_io wrapper) a'' b' m s3 = Inr s4 \<and>
                   blocks (io_heap (kw_kernel s4)) = blocks (io_heap (kw_kernel s)) \<and> kw_items s4 = kw_items s
            else m = nullptr \<and> blocks (io_heap (kw_kernel s1)) = blocks (io_heap (kw_kernel s)) \<and> kw_items s1 = kw_items s)"
  using uio.work_item_lifecycle [of wrapper preemptible s a b a' d r c a'' b'] inv up fresh
  unfolding uio.kw_inv_def usersim_view_simps ws_def by blast

theorem kernel_work_item_lifecycle_witness:
  "\<exists>s m s1 s2 t s3 s4. winkernel_allocate_work_item io_kernel (usersim_io 9) (False, 0x10000, None) (False, 0, None)
        ((False, 4096, None, 32), None, 64, Inr ()) 7 5 6 s = Inr ((Cxplat_Success, m), s1) \<and>
     winkernel_queue_work_item (usersim_io 9) 8 m s1 = Inr s2 \<and>
     io_callbacks (length (submitted (io_pool (kw_kernel s2)))) 9 (kw_kernel s2) = Inr t \<and>
     kernel_calls 8 (concat (map (io_call 9 (kw_kernel s2)) (submitted (io_pool (kw_kernel s2))))) (s2\<lparr>kw_kernel := t\<rparr>) = Inr s3 \<and>
     kw_calls s3 = [(5, m, 6)] \<and>
     winkernel_free_work_item io_kernel (usersim_io 9) (False, 0, None) ((False, 0, None, 1), None, 0, Inr ()) m s3 = Inr s4 \<and>
     blocks (io_heap (kw_kernel s4)) = Map.empty"
proof -
  obtain q where q: "submitted q = []" "items q = Map.empty" "\<not> rundown_down (rundown_reference q) (rundown q)" "work_inv q"
    by (rule open_pool)
  let ?s = "\<lparr>kw_kernel = sample_io q, kw_items = Map.empty, kw_calls = []\<rparr> :: io_state kw_state"
  let ?a = "(False, 0x10000 :: ptr, None :: backtrace)" and ?b = "((False, 4096 :: ptr, None :: backtrace, 32 :: u64), None :: backtrace, 64 :: ptr, Inr () :: u32 + unit)"
  let ?al = "winkernel_allocate io_kernel ?a CXPLAT_POOL_FLAG_NON_PAGED 24 CXPLAT_TAG_PREEMPTIBLE_WORK_ITEM (kw_kernel ?s)"
  note ev = io_kernel_def usersim_kernel_def sample_heap_def winkernel_allocate_def ExAllocatePoolUninitializedCPP_def pool_allocate_def
    cxplat_allocate_def pool_flags_to_type_def pool_type_to_flags_def has_flag_def pointer_defs Let_def sample_io_def
  have "\<exists>t. ?al = Inr (0x10050, t) \<and> blocks (io_heap t) = [0x10000 \<mapsto> (104, False)] \<and> fuzzing_memory_limit (io_heap t) = - 1 \<and>
      io_pool t = q \<and> io_items t = Map.empty"
    by (simp add: ev)
  then obtain t where al: "?al = Inr (0x10050, t)" "blocks (io_heap t) = [0x10000 \<mapsto> (104, False)]" "fuzzing_memory_limit (io_heap t) = - 1"
      "io_pool t = q" "io_items t = Map.empty" by blast
  have inv: "\<forall>m. kw_items ?s m \<noteq> None \<longrightarrow> kp_owned CXPLAT_TAG_PREEMPTIBLE_WORK_ITEM (io_heap (kw_kernel ?s)) m" "io_inv 9 (kw_kernel ?s)"
      "calls_valid 8 (concat (map (io_call 9 (kw_kernel ?s)) (submitted (io_pool (kw_kernel ?s))))) ?s"
    using q by (simp_all add: io_inv_def sample_io_def calls_valid_def)
  have up: "\<not> rundown_down (rundown_reference (io_pool (kw_kernel ?s))) (rundown (io_pool (kw_kernel ?s)))"
      "length (submitted (io_pool (kw_kernel ?s))) < 2 ^ 64 - 1" using q by (simp_all add: sample_io_def)
  have fresh: "kp_fresh ?a (io_heap (kw_kernel ?s))" by (simp add: kp_fresh_def sample_io_def sample_heap_def)
  have fresh': "\<forall>m t. ?al = Inr (m, t) \<longrightarrow> usersim_io_fresh ?b t"
    using al(2,4) q(2) unfolding al(1) by (auto simp: usersim_io_fresh_def cx_fresh_def)
  have ok: "\<exists>s1. winkernel_allocate_work_item io_kernel (usersim_io 9) ?a (False, 0, None) ?b 7 5 6 ?s = Inr ((Cxplat_Success, 0x10050), s1)"
    using al by (simp add: winkernel_allocate_work_item_def usersim_io_def IoAllocateWorkItem_def cx_alloc_def cxplat_allocate_def has_flag_def
        unaligned_pointer_from_memory_block_def cxplat_allocate_preemptible_work_item_def Let_def)
  have e: "kw_calls ?s = []" "submitted (io_pool (kw_kernel ?s)) = []" "blocks (io_heap (kw_kernel ?s)) = Map.empty"
    using q by (simp_all add: sample_io_def sample_heap_def)
  note T = kernel_work_item_lifecycle [OF inv up fresh fresh', where a' = "(False, 0, None)" and a'' = "(False, 0, None)" and d = 7 and r = 5 and c = 6
      and b' = "((False, 0, None, 1), None, 0, Inr ())", unfolded e]
  obtain s1 where s1: "winkernel_allocate_work_item io_kernel (usersim_io 9) ?a (False, 0, None) ?b 7 5 6 ?s = Inr ((Cxplat_Success, 0x10050), s1)"
    using ok by blast
  obtain s2 t s3 s4 where "winkernel_queue_work_item (usersim_io 9) 8 0x10050 s1 = Inr s2"
      "io_callbacks (length (submitted (io_pool (kw_kernel s2)))) 9 (kw_kernel s2) = Inr t"
      "kernel_calls 8 (concat (map (io_call 9 (kw_kernel s2)) (submitted (io_pool (kw_kernel s2))))) (s2\<lparr>kw_kernel := t\<rparr>) = Inr s3"
      "kw_calls s3 = [(5, 0x10050, 6)]"
      "winkernel_free_work_item io_kernel (usersim_io 9) (False, 0, None) ((False, 0, None, 1), None, 0, Inr ()) 0x10050 s3 = Inr s4"
      "blocks (io_heap (kw_kernel s4)) = Map.empty"
    using T unfolding s1 by auto
  with s1 show ?thesis by blast
qed

end
