(* ===== verification/Usersim_Dll.thy ===== *)
theory Usersim_Dll
  imports Platform Driver_Dll
begin

text \<open>
  The entry point of the library itself, \<^verbatim>\<open>src/dllmain.cpp\<close>: loading the DLL starts the platform of theory \<open>Platform\<close>, unloading it stops the
  platform. The loader of the system is \<open>load_library\<close>: when the entry point refuses to attach, the system calls it once more to detach.
\<close>

section \<open>Operations\<close>

definition usersim_DllMain :: "platform_os \<Rightarrow> shutdown_os \<Rightarrow> dll_reason \<Rightarrow> platform \<Rightarrow> (bool \<times> platform) outcome result" where
  "usersim_DllMain os sd reason s =
     (case reason of
        DLL_PROCESS_ATTACH \<Rightarrow>
          (case usersim_platform_initiate os s of
             Inl e \<Rightarrow> Inl e
           | Inr Blocks \<Rightarrow> Inr Blocks
           | Inr (Returns (status, s1)) \<Rightarrow> Inr (Returns (NT_SUCCESS status, s1)))
      | DLL_THREAD_ATTACH \<Rightarrow> Inr (Returns (True, s))
      | DLL_THREAD_DETACH \<Rightarrow> Inr (Returns (True, s))
      | DLL_PROCESS_DETACH \<Rightarrow>
          (case usersim_platform_terminate sd s of
             Inl e \<Rightarrow> Inl e
           | Inr Blocks \<Rightarrow> Inr Blocks
           | Inr (Returns s1) \<Rightarrow> Inr (Returns (True, s1))))"

definition load_library :: "platform_os \<Rightarrow> shutdown_os \<Rightarrow> platform \<Rightarrow> (bool \<times> platform) outcome result" where
  "load_library os sd s =
     (case usersim_DllMain os sd DLL_PROCESS_ATTACH s of
        Inl e \<Rightarrow> Inl e
      | Inr Blocks \<Rightarrow> Inr Blocks
      | Inr (Returns (attached, s1)) \<Rightarrow>
          if attached then Inr (Returns (True, s1))
          else (case usersim_DllMain os sd DLL_PROCESS_DETACH s1 of
                  Inl e \<Rightarrow> Inl e | Inr Blocks \<Rightarrow> Inr Blocks | Inr (Returns (_, s2)) \<Rightarrow> Inr (Returns (False, s2))))"

section \<open>Properties\<close>

text \<open>A termination without a start decrements the count below zero.\<close>

lemma terminate_off:
  assumes "platform_off s" "priority_restored sd"
  shows "usersim_platform_terminate sd s = Inl (Bug_Check 0)"
proof -
  have o: "\<not> pool_open (pool (cxplat s))" "\<not> cxplat_initialized s" "primary_token_ref_count (ps s) = 0"
    "original_priority_class (irql s) = 0" "initiate_count s = 0" using assms(1) by (simp_all add: platform_off_def platform_down_def)
  obtain w where "cxplat_wait_for_preemptible_work_items_complete (pool (cxplat s)) = Inr w" "work_items_complete w"
    using wait_no_work [of "pool (cxplat s)"] o(1) by (auto simp: no_work_def)
  then show ?thesis using o assms(2)
    by (simp add: usersim_platform_terminate_def usersim_free_semaphores_def usersim_clean_up_ps_def usersim_clean_up_irql_def Let_def)
qed

text \<open>
  loading and unloading the library. Loaded into a process in which the platform is off, the library either attaches, and then the
  platform is up, threads that come and go change nothing, and unloading turns the platform off again; or the platform
  could not be started, and then the detach call that follows ends in a bug check, because the failed start has already
  stopped the platform.
\<close>
theorem library_load_unload:
  assumes "platform_off s" "priority_restored (stop os)" "priority_restored sd"
  shows "(\<exists>s1 s2. load_library os sd s = Inr (Returns (True, s1)) \<and> platform_up s1 \<and>
            usersim_DllMain os sd DLL_THREAD_ATTACH s1 = Inr (Returns (True, s1)) \<and>
            usersim_DllMain os sd DLL_THREAD_DETACH s1 = Inr (Returns (True, s1)) \<and>
            usersim_DllMain os sd DLL_PROCESS_DETACH s1 = Inr (Returns (True, s2)) \<and> platform_off s2) \<or>
         (\<exists>status s1. usersim_platform_initiate os s = Inr (Returns (status, s1)) \<and> \<not> NT_SUCCESS status \<and> platform_off s1 \<and>
            load_library os sd s = Inl (Bug_Check 0))"
proof (rule initiate_cases [OF assms(1,2)])
  fix s1 assume s1: "usersim_platform_initiate os s = Inr (Returns (STATUS_SUCCESS, s1))" "platform_up s1"
  have "\<exists>s2. usersim_platform_terminate sd s1 = Inr (Returns s2) \<and> platform_down s2 \<and> leak_free (cxplat s2) \<and> initiate_count s2 = 0"
    using terminate_down [of s1 sd] s1(2) assms(3) by (auto simp: platform_up_def)
  then show ?thesis using s1 by (intro disjI1) (auto simp: load_library_def usersim_DllMain_def platform_off_def)
next
  fix r s1 assume "usersim_platform_initiate os s = Inr (Returns (r, s1))" "\<not> NT_SUCCESS r" "platform_off s1"
  then show ?thesis using terminate_off [OF _ assms(3)] by (intro disjI2) (auto simp: load_library_def usersim_DllMain_def)
qed

end
