(* ===== verification/Leak_Report.thy ===== *)
theory Leak_Report
  imports Memory Symbol_Decoder
begin

text \<open>
  What the leak detector prints, \<^verbatim>\<open>flush_output\<close>, \<^verbatim>\<open>output_stack_trace\<close> and the messages of \<^verbatim>\<open>unregister_allocation\<close> and \<^verbatim>\<open>dump_leaks\<close> in
  \<^verbatim>\<open>cxplat/src/cxplat_winuser/leak_detector.cpp\<close>, over the tables of theory \<open>Memory\<close> and the symbols of theory \<open>Symbol_Decoder\<close>. The texts go to
  \<^verbatim>\<open>std::cout\<close> and to a log in memory, and they stay there when the call ends in a failed assertion, so the operations below return the state
  beside their outcome.
\<close>

section \<open>Operations\<close>

record report =
  rp_detector :: leak_detector
  rp_log :: "string list"
  rp_cout :: string
  rp_output :: string

abbreviation endl :: string where "endl \<equiv> [CHR 0x0A]"

definition flush_output :: "report \<Rightarrow> report" where
  "flush_output r = r\<lparr>rp_log := rp_log r @ [rp_output r], rp_cout := rp_cout r @ rp_output r, rp_output := ''''\<rparr>"

text \<open>The line for a frame; nothing if the address cannot be decoded.\<close>

definition frame_text :: "dbghelp \<Rightarrow> u64 \<Rightarrow> string" where
  "frame_text dbg address =
     (case cxplat_decode_symbol dbg address of
        (Cxplat_Success, Some (name, displacement, line)) \<Rightarrow>
          ''    '' @ name @ '' + '' @ num_str 10 (unat displacement) @
          (case line of
             None \<Rightarrow> ''''
           | Some (line_number, file_name) \<Rightarrow> '' ('' @ file_name @ '':'' @ num_str 10 (unat line_number) @ '')'') @ endl
      | _ \<Rightarrow> '''')"

definition output_frame :: "dbghelp \<Rightarrow> report \<Rightarrow> u64 \<Rightarrow> report" where
  "output_frame dbg r address = flush_output (r\<lparr>rp_output := rp_output r @ frame_text dbg address\<rparr>)"

text \<open>\<^verbatim>\<open>_stack_hashes[stack_hash]\<close> creates an empty entry if there is none.\<close>

definition output_stack_trace :: "dbghelp \<Rightarrow> string \<Rightarrow> u32 \<Rightarrow> report \<Rightarrow> report" where
  "output_stack_trace dbg label stack_hash r =
     (let d = rp_detector r; stack = (case stack_hashes d stack_hash of None \<Rightarrow> [] | Some st \<Rightarrow> st)
      in foldl (output_frame dbg)
           (r\<lparr>rp_detector := d\<lparr>stack_hashes := (stack_hashes d)(stack_hash \<mapsto> stack)\<rparr>,
              rp_output := rp_output r @ ''  '' @ label @ '' stack:'' @ endl\<rparr>) stack)"

text \<open>The message of a double free is written before the assertion fails; for an address that was never allocated it names an allocation of zeros.\<close>

definition unregister_allocation_output :: "dbghelp \<Rightarrow> backtrace \<Rightarrow> ptr \<Rightarrow> report \<Rightarrow> report \<times> unit result" where
  "unregister_allocation_output dbg bt address r =
     (case unregister_allocation bt address (rp_detector r) of
        Inl e \<Rightarrow>
          let a = (case freed_allocations (rp_detector r) address of
                     None \<Rightarrow> \<lparr>al_address = 0, al_size = 0, alloc_stack_hash = 0, free_stack_hash = 0\<rparr> | Some a \<Rightarrow> a);
              r1 = flush_output (r\<lparr>rp_output := ''Double-free of '' @ num_str 10 (unat (al_size a)) @ '' bytes at '' @
                                                 num_str 10 (unat (al_address a)) @ endl\<rparr>);
              r2 = output_stack_trace dbg ''Allocation'' (alloc_stack_hash a) r1
          in (output_stack_trace dbg ''Free'' (free_stack_hash a) r2, Inl e)
      | Inr d \<Rightarrow> (r\<lparr>rp_detector := d\<rparr>, Inr ()))"

text \<open>One round of the loop of \<^verbatim>\<open>dump_leaks\<close>, which has a stream of its own.\<close>

definition output_leak :: "dbghelp \<Rightarrow> report \<Rightarrow> ptr \<Rightarrow> report" where
  "output_leak dbg r p =
     (case allocations (rp_detector r) p of
        None \<Rightarrow> r
      | Some a \<Rightarrow>
          output_stack_trace dbg ''Allocation'' (alloc_stack_hash a)
            (flush_output (r\<lparr>rp_output := ''Leak of '' @ num_str 10 (unat (al_size a)) @ '' bytes at '' @
                                           num_str 10 (unat (al_address a)) @ endl\<rparr>)))"

definition dump_leaks_output :: "dbghelp \<Rightarrow> ptr list \<Rightarrow> report \<Rightarrow> report \<times> unit result" where
  "dump_leaks_output dbg order r =
     (let r1 = foldl (output_leak dbg) r order
      in case dump_leaks order (rp_detector r1) of
           Inl e \<Rightarrow> (r1, Inl e)
         | Inr d \<Rightarrow> (r1\<lparr>rp_detector := d\<rparr>, Inr ()))"

section \<open>The printed text\<close>

definition trace_text :: "dbghelp \<Rightarrow> string \<Rightarrow> ptr list \<Rightarrow> string" where
  "trace_text dbg label stack = ''  '' @ label @ '' stack:'' @ endl @ concat (map (frame_text dbg) stack)"

lemma output_frames:
  "stack \<noteq> [] \<Longrightarrow>
   rp_detector (foldl (output_frame dbg) r stack) = rp_detector r \<and>
   rp_cout (foldl (output_frame dbg) r stack) = rp_cout r @ rp_output r @ concat (map (frame_text dbg) stack) \<and>
   rp_output (foldl (output_frame dbg) r stack) = ''''"
proof (induction stack arbitrary: r)
  case (Cons a stack)
  then show ?case by (cases "stack = []") (simp_all add: output_frame_def flush_output_def)
qed simp

text \<open>Every text that is printed is in the log, and only that.\<close>

definition log_agrees :: "report \<Rightarrow> bool" where "log_agrees r \<longleftrightarrow> rp_cout r = concat (rp_log r)"

lemma log_agrees_ops:
  "log_agrees r \<Longrightarrow> log_agrees (flush_output r)"
  "log_agrees r \<Longrightarrow> log_agrees (output_stack_trace dbg label h r)"
  "log_agrees r \<Longrightarrow> log_agrees (output_leak dbg r p)"
proof -
  show f: "log_agrees r \<Longrightarrow> log_agrees (flush_output r)" for r by (simp add: log_agrees_def flush_output_def)
  have "log_agrees (foldl (output_frame dbg) r stack)" if "log_agrees r" for r stack
    using that by (induction stack arbitrary: r) (simp_all add: output_frame_def flush_output_def log_agrees_def)
  then show t: "log_agrees r \<Longrightarrow> log_agrees (output_stack_trace dbg label h r)" for r h label
    by (simp add: output_stack_trace_def Let_def log_agrees_def)
  show "log_agrees r \<Longrightarrow> log_agrees (output_leak dbg r p)"
    using t f by (simp add: output_leak_def log_agrees_def flush_output_def split: option.splits)
qed

lemma output_known_stack:
  assumes "stack_hashes (rp_detector r) h = Some stack" "stack \<noteq> []"
  shows "rp_detector (output_stack_trace dbg label h r) = rp_detector r"
    "rp_cout (output_stack_trace dbg label h r) = rp_cout r @ rp_output r @ trace_text dbg label stack"
    "rp_output (output_stack_trace dbg label h r) = ''''"
  using assms output_frames [OF assms(2), of dbg] by (simp_all add: output_stack_trace_def Let_def trace_text_def fun_upd_idem)

text \<open>
  The runs of the detector, with two records beside it: \<open>B\<close> lists the backtraces that were captured, in order, and \<open>L\<close> gives for every live
  address its size and the backtrace of the call that allocated it. Nothing is assumed of the hashes.
\<close>

inductive leak_run :: "backtrace list \<Rightarrow> leak_detector \<Rightarrow> (ptr \<rightharpoonup> u64 \<times> backtrace) \<Rightarrow> bool" where
  start: "leak_run [] empty_leaks Map.empty"
| allocation: "leak_run B d L \<Longrightarrow> leak_run (B @ [bt]) (register_allocation bt m n d) (L(m \<mapsto> (n, bt)))"
| release: "leak_run B d L \<Longrightarrow> unregister_allocation bt m d = Inr d' \<Longrightarrow> leak_run (B @ [bt]) d' (L(m := None))"

text \<open>The stack of the first backtrace with a hash: later ones with the same hash are not stored.\<close>

definition first_stack :: "backtrace list \<Rightarrow> u32 \<Rightarrow> ptr list option" where
  "first_stack B h = map_option bt_stack (find (\<lambda>bt. bt_hash bt = h) B)"

lemma bt_stack_not_empty [simp]: "bt_stack bt \<noteq> []"
  by (auto simp: bt_stack_def split: option.splits)

lemma first_stack_snoc:
  "first_stack (B @ [bt]) = (if first_stack B (bt_hash bt) = None then (first_stack B)(bt_hash bt \<mapsto> bt_stack bt) else first_stack B)"
proof
  show "first_stack (B @ [bt]) h = (if first_stack B (bt_hash bt) = None then (first_stack B)(bt_hash bt \<mapsto> bt_stack bt) else first_stack B) h" for h
    by (induction B) (auto simp: first_stack_def)
qed

lemma first_stack_known: "bt \<in> set B \<Longrightarrow> \<exists>bt' \<in> set B. bt_hash bt' = bt_hash bt \<and> first_stack B (bt_hash bt) = Some (bt_stack bt')"
  by (induction B) (auto simp: first_stack_def)

definition leak_wf :: "backtrace list \<Rightarrow> leak_detector \<Rightarrow> (ptr \<rightharpoonup> u64 \<times> backtrace) \<Rightarrow> bool" where
  "leak_wf B d L \<longleftrightarrow> stack_hashes d = first_stack B \<and> dom L = dom (allocations d) \<and>
     (\<forall>m a. allocations d m = Some a \<longrightarrow>
        al_address a = m \<and> (\<exists>bt \<in> set B. L m = Some (al_size a, bt) \<and> alloc_stack_hash a = bt_hash bt))"

lemma leak_wfD:
  assumes "leak_wf B d L"
  shows "stack_hashes d = first_stack B" "dom L = dom (allocations d)"
    "allocations d m = Some a \<Longrightarrow> al_address a = m \<and> (\<exists>bt \<in> set B. L m = Some (al_size a, bt) \<and> alloc_stack_hash a = bt_hash bt)"
  using assms unfolding leak_wf_def by blast+

lemma leak_run_wf: "leak_run B d L \<Longrightarrow> leak_wf B d L"
proof (induction rule: leak_run.induct)
  case start
  show ?case by (simp add: leak_wf_def empty_leaks_def first_stack_def fun_eq_iff)
next
  case (allocation B d L bt m n)
  note W = leak_wfD [OF allocation.IH]
  have "stack_hashes (register_allocation bt m n d) = first_stack (B @ [bt])"
    by (simp add: register_allocation_def remember_stack_def first_stack_snoc W(1))
  moreover have "dom (L(m \<mapsto> (n, bt))) = dom (allocations (register_allocation bt m n d))" using W(2) by (simp add: dom_fun_upd)
  ultimately show ?case using W(3) by (auto simp: leak_wf_def)
next
  case (release B d L bt m d')
  note W = leak_wfD [OF release.IH]
  obtain a where a: "allocations d m = Some a" using release.hyps(2) by (auto simp: unregister_allocation_def split: option.splits)
  have d: "stack_hashes d' = first_stack (B @ [bt])" "allocations d' = (allocations d)(m := None)"
    using release.hyps(2) a by (auto simp: unregister_allocation_def remember_stack_def first_stack_snoc W(1))
  moreover have "dom (L(m := None)) = dom (allocations d')" using W(2) d(2) by (simp add: dom_fun_upd)
  moreover have "al_address b = x \<and> (\<exists>bt' \<in> set (B @ [bt]). (L(m := None)) x = Some (al_size b, bt') \<and> alloc_stack_hash b = bt_hash bt')"
    if "allocations d' x = Some b" for x b
    using that W(3) [of x b] by (auto simp: d(2) split: if_splits)
  ultimately show ?case unfolding leak_wf_def by blast
qed

text \<open>The entry for a live allocation, and the stack that it shows.\<close>

definition shown_stack :: "backtrace list \<Rightarrow> backtrace \<Rightarrow> ptr list" where
  "shown_stack B bt = (case first_stack B (bt_hash bt) of None \<Rightarrow> [] | Some stack \<Rightarrow> stack)"

definition leak_text :: "dbghelp \<Rightarrow> backtrace list \<Rightarrow> (ptr \<rightharpoonup> u64 \<times> backtrace) \<Rightarrow> ptr \<Rightarrow> string" where
  "leak_text dbg B L m =
     (case L m of
        None \<Rightarrow> ''''
      | Some (n, bt) \<Rightarrow> ''Leak of '' @ num_str 10 (unat n) @ '' bytes at '' @ num_str 10 (unat m) @ endl @
                        trace_text dbg ''Allocation'' (shown_stack B bt))"

lemma shown_known:
  assumes "bt \<in> set B"
  shows "first_stack B (bt_hash bt) = Some (shown_stack B bt)" "shown_stack B bt \<noteq> []"
    "\<exists>bt' \<in> set B. bt_hash bt' = bt_hash bt \<and> shown_stack B bt = bt_stack bt'"
  using first_stack_known [OF assms] by (auto simp: shown_stack_def)

lemma output_leaks:
  assumes "leak_wf B (rp_detector r) L"
  shows "rp_detector (foldl (output_leak dbg) r order) = rp_detector r \<and>
         rp_cout (foldl (output_leak dbg) r order) = rp_cout r @ concat (map (leak_text dbg B L) order)"
  using assms
proof (induction order arbitrary: r)
  case (Cons m order)
  have one: "rp_detector (output_leak dbg r m) = rp_detector r \<and> rp_cout (output_leak dbg r m) = rp_cout r @ leak_text dbg B L m"
  proof (cases "allocations (rp_detector r) m")
    case None
    then have "L m = None" using leak_wfD(2) [OF Cons.prems] by blast
    then show ?thesis using None by (simp add: output_leak_def leak_text_def)
  next
    case (Some a)
    let ?r = "flush_output (r\<lparr>rp_output := ''Leak of '' @ num_str 10 (unat (al_size a)) @ '' bytes at '' @ num_str 10 (unat (al_address a)) @ endl\<rparr>)"
    obtain bt where bt: "bt \<in> set B" "L m = Some (al_size a, bt)" "alloc_stack_hash a = bt_hash bt" "al_address a = m"
      using leak_wfD(3) [OF Cons.prems Some] by blast
    have "stack_hashes (rp_detector ?r) (alloc_stack_hash a) = Some (shown_stack B bt)"
      using leak_wfD(1) [OF Cons.prems] shown_known(1) [OF bt(1)] bt(3) by (simp add: flush_output_def)
    from output_known_stack [OF this shown_known(2) [OF bt(1)], of dbg "''Allocation''"] show ?thesis using Some bt
      by (simp add: output_leak_def leak_text_def flush_output_def)
  qed
  then show ?case using Cons by simp
qed simp

section \<open>Properties\<close>

text \<open>
  C18: the leak report is exact. After any run of allocations and releases, whatever backtraces were captured, the report names every
  allocation that is still live, in the order in which the table is visited, and no other: its size, its address and, for every frame of
  the stack it shows, the decoded symbol with the line if it is known. The stack shown for an allocation is the first of the run with the hash of
  the allocation's own stack; it is its own stack if no other stack of the run has that hash. The same texts are in the log. The report ends
  in a failed assertion if and only if something is live; otherwise it prints nothing and the tables are empty.
\<close>
theorem leak_report_exact:
  assumes "leak_run B (rp_detector r) L" "set order = dom L" "log_agrees r"
  shows "\<exists>r' res. dump_leaks_output dbg order r = (r', res) \<and>
           rp_cout r' = rp_cout r @ concat (map (leak_text dbg B L) order) \<and> log_agrees r' \<and>
           (\<forall>m n bt. L m = Some (n, bt) \<longrightarrow>
              (\<exists>bt' \<in> set B. bt_hash bt' = bt_hash bt \<and> shown_stack B bt = bt_stack bt') \<and>
              ((\<forall>bt' \<in> set B. bt_hash bt' = bt_hash bt \<longrightarrow> bt_stack bt' = bt_stack bt) \<longrightarrow> shown_stack B bt = bt_stack bt)) \<and>
           (if L = Map.empty then res = Inr () \<and> rp_cout r' = rp_cout r \<and> allocations (rp_detector r') = Map.empty \<and> stack_hashes (rp_detector r') = Map.empty
            else res = Inl Assert_Failed)"
proof -
  note W = leak_run_wf [OF assms(1)] and out = output_leaks [OF leak_run_wf [OF assms(1)], of dbg order]
  have dom: "dom (allocations (rp_detector r)) = set order" using leak_wfD(2) [OF W] assms(2) by simp
  have agrees: "log_agrees (foldl (output_leak dbg) r ms)" for ms using assms(3) log_agrees_ops(3) by (induction ms rule: rev_induct) simp_all
  have stacks: "(\<exists>bt' \<in> set B. bt_hash bt' = bt_hash bt \<and> shown_stack B bt = bt_stack bt') \<and>
      ((\<forall>bt' \<in> set B. bt_hash bt' = bt_hash bt \<longrightarrow> bt_stack bt' = bt_stack bt) \<longrightarrow> shown_stack B bt = bt_stack bt)"
    if "L m = Some (n, bt)" for m n bt
  proof -
    have "bt \<in> set B" using that leak_wfD(2) [OF W] leak_wfD(3) [OF W, of m] by (fastforce simp: dom_def)
    from shown_known(3) [OF this] show ?thesis by metis
  qed
  show ?thesis
  proof (cases "order = []")
    case True
    then have "L = Map.empty" using assms(2) by auto
    then show ?thesis using True out agrees [of "[]"] by (simp add: dump_leaks_output_def dump_leaks_def log_agrees_def Let_def)
  next
    case False
    then obtain m where "m \<in> set order" by (cases order) auto
    moreover from this have "allocations (rp_detector r) m \<noteq> None" using dom by blast
    ultimately have "dump_leaks order (rp_detector r) = Inl Assert_Failed"
      unfolding dump_leaks_def Let_def by (auto simp: assert_that_def)
    then have "dump_leaks_output dbg order r = (foldl (output_leak dbg) r order, Inl Assert_Failed)"
      using out by (simp add: dump_leaks_output_def)
    moreover have "L \<noteq> Map.empty" using False assms(2) by auto
    ultimately show ?thesis using out agrees [of order] stacks by simp
  qed
qed

text \<open>One leak of 32 bytes at address 64, from a stack whose first frame is known.\<close>

definition sample_symbols :: dbghelp where
  "sample_symbols = \<lparr>sym_from_addr = \<lambda>a. if a = 0x1000 then Inr (''f'', 2) else Inl 487, sym_line_from_addr = \<lambda>_. Some (7, ''f.c''), sym_out_of_memory = False\<rparr>"

definition sample_report :: report where
  "sample_report = \<lparr>rp_detector = register_allocation (Some ([0x1000], 5)) 64 32 empty_leaks, rp_log = [], rp_cout = '''', rp_output = ''''\<rparr>"

theorem leak_report_exact_witness:
  "\<exists>r'. dump_leaks_output sample_symbols [64] sample_report = (r', Inl Assert_Failed) \<and>
        rp_cout r' = ''Leak of 32 bytes at 64'' @ endl @ ''  Allocation stack:'' @ endl @ ''    f + 2 (f.c:7)'' @ endl"
proof -
  let ?bt = "Some ([0x1000], 5) :: backtrace" and ?L = "[64 \<mapsto> (32 :: u64, Some ([0x1000], 5) :: backtrace)]"
  have run: "leak_run [?bt] (rp_detector sample_report) ?L"
    using leak_run.allocation [OF leak_run.start, of ?bt 64 32] by (simp add: sample_report_def)
  have e: "log_agrees sample_report" "rp_cout sample_report = ''''" by (simp_all add: log_agrees_def sample_report_def)
  have shown: "shown_stack [?bt] ?bt = 0x1000 # replicate 32 0"
    by (simp add: shown_stack_def first_stack_def bt_stack_def take_Cons')
  have printed: "concat (map (leak_text sample_symbols [?bt] ?L) [64]) =
      ''Leak of 32 bytes at 64'' @ endl @ ''  Allocation stack:'' @ endl @ ''    f + 2 (f.c:7)'' @ endl"
    by (simp add: leak_text_def shown trace_text_def frame_text_def cxplat_decode_symbol_def sample_symbols_def num_str.simps digit_char_def char_of_def bit_0 bit_Suc)
  have d: "set [64] = dom ?L" by simp
  have ne: "?L \<noteq> Map.empty" by (simp add: fun_eq_iff)
  from leak_report_exact [OF run d e(1), of sample_symbols] show ?thesis
    unfolding printed e(2) if_not_P [OF ne] by auto
qed

text \<open>
  a double free is reported with its history: memory that was allocated and released once and is released again stops the program, after the size, the
  address, the stack of the allocation and the stack of the first release have been printed.
\<close>
theorem double_free_report:
  assumes "leak_run B d L" "log_agrees r"
    and "unregister_allocation bt' m (register_allocation bt m n d) = Inr (rp_detector r)"
  shows "\<exists>r'. unregister_allocation_output dbg bt'' m r = (r', Inl Assert_Failed) \<and> log_agrees r' \<and>
           rp_cout r' = rp_cout r @ ''Double-free of '' @ num_str 10 (unat n) @ '' bytes at '' @ num_str 10 (unat m) @ endl @
             trace_text dbg ''Allocation'' (shown_stack (B @ [bt, bt']) bt) @ trace_text dbg ''Free'' (shown_stack (B @ [bt, bt']) bt')"
proof -
  let ?d = "rp_detector r" and ?B = "B @ [bt, bt']"
  have run: "leak_run ?B ?d (L(m := None))"
    using leak_run.release [OF leak_run.allocation [OF assms(1), of bt m n] assms(3)] by simp
  let ?a = "\<lparr>al_address = m, al_size = n, alloc_stack_hash = bt_hash bt, free_stack_hash = bt_hash bt'\<rparr>"
  have a: "freed_allocations ?d m = Some ?a" "allocations ?d m = None"
    using assms(3) [symmetric] by (simp_all add: unregister_allocation_def register_allocation_def)
  have S: "x \<in> set ?B \<Longrightarrow> stack_hashes ?d (bt_hash x) = Some (shown_stack ?B x)" for x
    using leak_wfD(1) [OF leak_run_wf [OF run]] shown_known(1) by simp
  have st: "stack_hashes ?d (bt_hash bt) = Some (shown_stack ?B bt)" "stack_hashes ?d (bt_hash bt') = Some (shown_stack ?B bt')"
    using S [of bt] S [of bt'] by simp_all
  have ne: "shown_stack ?B bt \<noteq> []" "shown_stack ?B bt' \<noteq> []" by (rule shown_known(2), simp)+
  define r1 where "r1 = flush_output (r\<lparr>rp_output := ''Double-free of '' @ num_str 10 (unat n) @ '' bytes at '' @ num_str 10 (unat m) @ endl\<rparr>)"
  define r2 where "r2 = output_stack_trace dbg ''Allocation'' (bt_hash bt) r1"
  have d1: "rp_detector r1 = ?d" "rp_output r1 = ''''"
    "rp_cout r1 = rp_cout r @ ''Double-free of '' @ num_str 10 (unat n) @ '' bytes at '' @ num_str 10 (unat m) @ endl"
    by (simp_all add: r1_def flush_output_def)
  note O1 = output_known_stack [of r1, OF _ ne(1), unfolded d1(1), OF st(1), of dbg "''Allocation''", folded r2_def]
  note O2 = output_known_stack [of r2, OF _ ne(2), unfolded O1(1), OF st(2), of dbg "''Free''"]
  have agrees: "log_agrees (output_stack_trace dbg ''Free'' (bt_hash bt') r2)"
    unfolding r2_def r1_def by (intro log_agrees_ops(2) log_agrees_ops(1)) (use assms(2) in \<open>simp add: log_agrees_def\<close>)
  have "unregister_allocation_output dbg bt'' m r = (output_stack_trace dbg ''Free'' (bt_hash bt') r2, Inl Assert_Failed)"
    using a by (simp add: unregister_allocation_output_def unregister_allocation_def r1_def r2_def Let_def)
  then show ?thesis using agrees O2(2) O1(2,3) d1(2,3) by simp
qed

text \<open>
  Two calls whose stacks have the same hash: the report on the second shows the stack of the first. The hash of \<^verbatim>\<open>CaptureStackBackTrace\<close>
  has 32 bits and is not documented to be unique.
\<close>

lemma hash_collision_misleads:
  assumes "bt_hash bt' = bt_hash bt" "bt_stack bt' \<noteq> bt_stack bt"
  shows "shown_stack [bt, bt'] bt' = bt_stack bt \<and> shown_stack [bt, bt'] bt' \<noteq> bt_stack bt'"
  using assms by (simp add: shown_stack_def first_stack_def)

end
