(* ===== verification/Fwp_Api.thy ===== *)
theory Fwp_Api
  imports Fwp
begin

text \<open>
  The interface that a test uses to drive the filter engine, the functions \<^verbatim>\<open>usersim_fwp_*\<close> of \<^verbatim>\<open>src/fwp_um.cpp\<close>, and the engine object behind it, which
  \<^verbatim>\<open>fwp_engine_t::get\<close> of \<^verbatim>\<open>src/fwp_um.h\<close> creates at the first use. The injection calls that the simulation does not implement are here as
  well.
\<close>

section \<open>The engine object\<close>

text \<open>The engine of the process, if it exists, and the rest of the state, whose field \<open>engine\<close> is not read.\<close>

type_synonym fwp_process = "fwp_engine option \<times> fwp_state"

definition fwp_engine_get :: "fwp_process \<Rightarrow> fwp_state" where
  "fwp_engine_get g = (case g of (e, s) \<Rightarrow> s\<lparr>engine := (case e of None \<Rightarrow> new_engine | Some x \<Rightarrow> x)\<rparr>)"

definition engine_call :: "(fwp_state \<Rightarrow> ('a \<times> fwp_state) result) \<Rightarrow> fwp_process \<Rightarrow> ('a \<times> fwp_process) result" where
  "engine_call f g = (case f (fwp_engine_get g) of Inl e \<Rightarrow> Inl e | Inr (x, s) \<Rightarrow> Inr (x, (Some (engine s), s)))"

section \<open>The test interface\<close>

definition usersim_fwp_classify_packet ::
  "fwp_sdk \<Rightarrow> classify_behaviour \<Rightarrow> bool list \<Rightarrow> guid \<Rightarrow> u32 \<Rightarrow> fwp_process \<Rightarrow> (u32 \<times> fwp_process) result" where
  "usersim_fwp_classify_packet sdk cl alloc layer_guid if_index = engine_call (classify_test_packet sdk cl alloc layer_guid if_index)"

text \<open>The hooks at one layer; the flow handle is dropped except by the socket hooks.\<close>

definition action_only :: "(fwp_state \<Rightarrow> (u32 \<times> u64 option \<times> fwp_state) result) \<Rightarrow> fwp_state \<Rightarrow> (u32 \<times> fwp_state) result" where
  "action_only f s = (case f s of Inl e \<Rightarrow> Inl e | Inr (action, flow, s1) \<Rightarrow> Inr (action, s1))"

definition action_and_flow :: "(fwp_state \<Rightarrow> (u32 \<times> u64 option \<times> fwp_state) result) \<Rightarrow> fwp_state \<Rightarrow> ((u32 \<times> u64 option) \<times> fwp_state) result" where
  "action_and_flow f s = (case f s of Inl e \<Rightarrow> Inl e | Inr (action, flow, s1) \<Rightarrow> Inr ((action, flow), s1))"

definition usersim_fwp_bind_ipv4 :: "fwp_sdk \<Rightarrow> classify_behaviour \<Rightarrow> fwp_classify_parameters \<Rightarrow> fwp_process \<Rightarrow> (u32 \<times> fwp_process) result" where
  "usersim_fwp_bind_ipv4 sdk cl p = engine_call (action_only (test_bind_ipv4 sdk cl p))"

definition usersim_fwp_bind_ipv6 :: "fwp_sdk \<Rightarrow> classify_behaviour \<Rightarrow> fwp_classify_parameters \<Rightarrow> fwp_process \<Rightarrow> (u32 \<times> fwp_process) result" where
  "usersim_fwp_bind_ipv6 sdk cl p = engine_call (action_only (test_bind_ipv6 sdk cl p))"

definition usersim_fwp_cgroup_inet4_recv_accept :: "fwp_sdk \<Rightarrow> classify_behaviour \<Rightarrow> fwp_classify_parameters \<Rightarrow> fwp_process \<Rightarrow> (u32 \<times> fwp_process) result" where
  "usersim_fwp_cgroup_inet4_recv_accept sdk cl p = engine_call (action_only (test_cgroup_inet4_recv_accept sdk cl p))"

definition usersim_fwp_cgroup_inet6_recv_accept :: "fwp_sdk \<Rightarrow> classify_behaviour \<Rightarrow> fwp_classify_parameters \<Rightarrow> fwp_process \<Rightarrow> (u32 \<times> fwp_process) result" where
  "usersim_fwp_cgroup_inet6_recv_accept sdk cl p = engine_call (action_only (test_cgroup_inet6_recv_accept sdk cl p))"

definition usersim_fwp_cgroup_inet4_connect ::
  "fwp_sdk \<Rightarrow> classify_behaviour \<Rightarrow> bool \<Rightarrow> bool \<Rightarrow> fwp_classify_parameters \<Rightarrow> fwp_process \<Rightarrow> (u32 \<times> fwp_process) result" where
  "usersim_fwp_cgroup_inet4_connect sdk cl fi alloc p = engine_call (test_cgroup_inet4_connect sdk cl fi alloc p)"

definition usersim_fwp_cgroup_inet6_connect ::
  "fwp_sdk \<Rightarrow> classify_behaviour \<Rightarrow> bool \<Rightarrow> bool \<Rightarrow> fwp_classify_parameters \<Rightarrow> fwp_process \<Rightarrow> (u32 \<times> fwp_process) result" where
  "usersim_fwp_cgroup_inet6_connect sdk cl fi alloc p = engine_call (test_cgroup_inet6_connect sdk cl fi alloc p)"

definition usersim_fwp_sock_ops_v4 ::
  "fwp_sdk \<Rightarrow> classify_behaviour \<Rightarrow> fwp_classify_parameters \<Rightarrow> fwp_process \<Rightarrow> ((u32 \<times> u64 option) \<times> fwp_process) result" where
  "usersim_fwp_sock_ops_v4 sdk cl p = engine_call (action_and_flow (test_sock_ops_v4 sdk cl p))"

definition usersim_fwp_sock_ops_v6 ::
  "fwp_sdk \<Rightarrow> classify_behaviour \<Rightarrow> fwp_classify_parameters \<Rightarrow> fwp_process \<Rightarrow> ((u32 \<times> u64 option) \<times> fwp_process) result" where
  "usersim_fwp_sock_ops_v6 sdk cl p = engine_call (action_and_flow (test_sock_ops_v6 sdk cl p))"

definition usersim_fwp_cgroup_inet4_listen :: "fwp_sdk \<Rightarrow> classify_behaviour \<Rightarrow> fwp_classify_parameters \<Rightarrow> fwp_process \<Rightarrow> (u32 \<times> fwp_process) result" where
  "usersim_fwp_cgroup_inet4_listen sdk cl p = engine_call (action_only (test_cgroup_inet4_listen sdk cl p))"

definition usersim_fwp_cgroup_inet6_listen :: "fwp_sdk \<Rightarrow> classify_behaviour \<Rightarrow> fwp_classify_parameters \<Rightarrow> fwp_process \<Rightarrow> (u32 \<times> fwp_process) result" where
  "usersim_fwp_cgroup_inet6_listen sdk cl p = engine_call (action_only (test_cgroup_inet6_listen sdk cl p))"

definition state_only :: "(fwp_state \<Rightarrow> fwp_state result) \<Rightarrow> fwp_process \<Rightarrow> fwp_process result" where
  "state_only f g = (case f (fwp_engine_get g) of Inl e \<Rightarrow> Inl e | Inr s \<Rightarrow> Inr (Some (engine s), s))"

definition usersim_fwp_set_sublayer_guids :: "guid \<Rightarrow> guid \<Rightarrow> guid \<Rightarrow> fwp_process \<Rightarrow> fwp_process result" where
  "usersim_fwp_set_sublayer_guids d v4 v6 = state_only (\<lambda>s. Inr (s\<lparr>engine := set_sublayer_guids d v4 v6 (engine s)\<rparr>))"

definition usersim_fwp_sock_ops_v4_remove_flow_context :: "fwp_sdk \<Rightarrow> u64 \<Rightarrow> fwp_process \<Rightarrow> fwp_process result" where
  "usersim_fwp_sock_ops_v4_remove_flow_context sdk flow_id = state_only (test_sock_ops_v4_remove_flow_context sdk flow_id)"

definition usersim_fwp_sock_ops_v6_remove_flow_context :: "fwp_sdk \<Rightarrow> u64 \<Rightarrow> fwp_process \<Rightarrow> fwp_process result" where
  "usersim_fwp_sock_ops_v6_remove_flow_context sdk flow_id = state_only (test_sock_ops_v6_remove_flow_context sdk flow_id)"

section \<open>Providers and injection\<close>

text \<open>Providers are not recorded, and a classify handle has nothing to release. The injection calls look at none of their arguments.\<close>

definition add_fwpm_provider :: "ptr \<Rightarrow> fwp_engine \<Rightarrow> fwp_engine" where "add_fwpm_provider provider e = e"
definition remove_fwpm_provider :: "guid \<Rightarrow> fwp_engine \<Rightarrow> fwp_engine" where "remove_fwpm_provider key e = e"
definition FwpsReleaseClassifyHandle0 :: "u64 \<Rightarrow> fwp_state \<Rightarrow> fwp_state" where "FwpsReleaseClassifyHandle0 classify_handle s = s"

definition FwpsInjectMacReceiveAsync0 :: "ptr \<Rightarrow> ptr \<Rightarrow> fwp_state \<Rightarrow> ntstatus \<times> fwp_state" where
  "FwpsInjectMacReceiveAsync0 handle net_buffer_lists s = (STATUS_NOT_IMPLEMENTED, s)"

definition FwpsInjectMacSendAsync0 :: "ptr \<Rightarrow> ptr \<Rightarrow> fwp_state \<Rightarrow> ntstatus \<times> fwp_state" where
  "FwpsInjectMacSendAsync0 handle net_buffer_lists s = (STATUS_NOT_IMPLEMENTED, s)"

section \<open>A driver and a test\<close>

text \<open>What a driver does to be called for a bind: it registers a callout and adds a filter for it.\<close>

definition install :: "layout \<Rightarrow> layout \<Rightarrow> fwps_callout \<Rightarrow> fwpm_filter \<Rightarrow> fwp_process \<Rightarrow> ((ntstatus \<times> u32 option \<times> ntstatus \<times> u64 option) \<times> fwp_process) result" where
  "install h h' c f = engine_call (\<lambda>s. case FwpsCalloutRegister3 h False c s of
     (status, i, s1) \<Rightarrow> (case FwpmFilterAdd0 h' False f s1 of Inl e \<Rightarrow> Inl e | Inr (status', j, s2) \<Rightarrow> Inr ((status, i, status', j), s2)))"

definition bind_values :: "fwp_classify_parameters \<Rightarrow> (fwp_layer \<times> ip_version \<times> fwp_field \<times> fwp_value) list" where
  "bind_values p = (let F = \<lambda>f x. (Ale_Resource_Assignment, V4, f, x)
     in [F Ip_Local_Port (Fwp_U16 (destination_port p)),
         F Ip_Local_Address (Fwp_U32 (destination_ipv4_address p)),
         F Ip_Protocol (Fwp_U8 (protocol p)),
         F Ale_App_Id (Fwp_Blob (app_id p)),
         F Compartment_Id (Fwp_U32 (compartment_id p)),
         F Ip_Local_Interface (Fwp_U64 (interface_luid p)),
         F Ale_User_Id (Fwp_Blob (user_id p))])"

lemma test_bind_ipv4_eq:
  "test_bind_ipv4 sdk cl p s = run_hook sdk cl Ale_Resource_Assignment V4 (default_sublayer (engine s)) (bind_values p) s"
  by (simp add: test_bind_ipv4_def bind_values_def Let_def)

lemma bind_values_total: "sdk_ok sdk \<Longrightarrow> \<exists>vs. incoming_values sdk Ale_Resource_Assignment V4 (bind_values p) = Inr vs"
  unfolding incoming_values_def by (rule put_values_total) (auto simp: bind_values_def sdk_ok_def Let_def)

lemma install_engine:
  assumes "fwp_reachable (engine s)" "layout_ok h" "layout_ok h'" "next_id (engine s) \<noteq> - 1" "next_id (engine s) + 1 \<noteq> - 1"
    and "action_calloutKey f = s_calloutKey c" "s = fwp_engine_get g"
  obtains i j g1 where "install h h' c f g = Inr ((STATUS_SUCCESS, Some i, STATUS_SUCCESS, Some j), g1)"
    "fwp_reachable (engine (fwp_engine_get g1))" "default_sublayer (engine (fwp_engine_get g1)) = default_sublayer (engine s)"
    "map_of (fwps_callouts (engine (fwp_engine_get g1))) = (map_of (fwps_callouts (engine s)))(ucast i \<mapsto> c)"
    "map_of (fwpm_filters (engine (fwp_engine_get g1))) = (map_of (fwpm_filters (engine s)))(j \<mapsto> f)"
proof -
  define e1 where "e1 = snd (register_fwps_callout h c (engine s))"
  have r1: "fwp_reachable e1" unfolding e1_def by (rule fwp_reachable.callout_reg [OF assms(1,2,4)])
  have I: "engine_inv (engine s)" by (rule fwp_reachable_inv [OF assms(1)])
  have t: "table_inv (next_id (engine s)) (fwps_callouts (engine s))" "table_inv (next_id (engine s) + 1) (fwpm_filters (engine s))"
    using I table_inv_mono [OF _ assms(4)] unfolding engine_inv_def by blast+
  have c1: "map_of (fwps_callouts e1) = (map_of (fwps_callouts (engine s)))(ucast (next_id (engine s)) \<mapsto> c)"
    using table_inv_fresh [OF t(1)] by (simp add: e1_def register_fwps_callout_def um_insert_lookup [OF assms(2)])
  have f1: "map_of (um_insert h' (ucast (next_id e1)) f (fwpm_filters e1)) = (map_of (fwpm_filters (engine s)))(ucast (next_id e1) \<mapsto> f)"
    using table_inv_fresh [OF t(2)] by (simp add: e1_def register_fwps_callout_def um_insert_lookup [OF assms(3)])
  have n1: "next_id e1 \<noteq> - 1" using assms(5) by (simp add: e1_def register_fwps_callout_def)
  have "um_find (\<lambda>x. s_calloutKey x = s_calloutKey c) (fwps_callouts e1) \<noteq> None"
  proof
    assume "um_find (\<lambda>x. s_calloutKey x = s_calloutKey c) (fwps_callouts e1) = None"
    moreover have "(ucast (next_id (engine s)), c) \<in> set (fwps_callouts e1)" using c1 by (intro map_of_SomeD) simp
    ultimately show False by (auto simp: um_find_def find_None_iff)
  qed
  then obtain k where k: "get_fwps_callout_by_key (action_calloutKey f) e1 = Some k" using assms(6) by (auto simp: get_fwps_callout_by_key_def)
  define e2 where "e2 = e1\<lparr>next_id := next_id e1 + 1, fwpm_filters := um_insert h' (ucast (next_id e1)) f (fwpm_filters e1)\<rparr>"
  have add: "add_fwpm_filter h' f e1 = Inr (next_id e1, [Notify_Add_Filter (notifyFn k) (action_calloutKey f) (rawContext f)], e2)"
    using k by (simp add: add_fwpm_filter_def e2_def Let_def)
  have r2: "fwp_reachable e2" by (rule fwp_reachable.filter_add [OF r1 assms(3) n1 add])
  define s2 where "s2 = s\<lparr>engine := e2, fwp_log := fwp_log s @ [Notify_Add_Filter (notifyFn k) (action_calloutKey f) (rawContext f)]\<rparr>"
  have "install h h' c f g = Inr ((STATUS_SUCCESS, Some (next_id (engine s)), STATUS_SUCCESS, Some (ucast (next_id e1))), (Some (engine s2), s2))"
    unfolding install_def engine_call_def assms(7) [symmetric]
    using add by (simp add: FwpsCalloutRegister3_def FwpmFilterAdd0_def e1_def register_fwps_callout_def s2_def)
  moreover have "engine (fwp_engine_get (Some (engine s2), s2)) = e2" by (simp add: fwp_engine_get_def s2_def)
  moreover have "default_sublayer e2 = default_sublayer (engine s)" "fwps_callouts e2 = fwps_callouts e1"
    by (simp_all add: e2_def e1_def register_fwps_callout_def)
  ultimately show ?thesis using that [of "next_id (engine s)" "ucast (next_id e1)"] r2 c1 f1 by (simp add: e2_def)
qed

section \<open>Properties\<close>

text \<open>
  C17: from an installed callout to its verdict. In a process whose engine does not exist yet or is in a reachable state, with no callout under the
  key and no filter that matches, a simulated bind calls nobody and answers \<^verbatim>\<open>FWP_ACTION_CALLOUT_UNKNOWN\<close>. Once a driver has
  registered a callout and added a filter for it at the bind layer and the default sublayer, with a context that is
  not zero, the simulated bind calls the classify function of that callout once, with the context of the filter, a new flow handle
  and the values of the bind in the fields of the layer, and returns its verdict. This holds for every layout of the hash tables.
\<close>
theorem bind_hook_end_to_end:
  fixes g :: fwp_process
  defines "s \<equiv> fwp_engine_get g"
  assumes start: "fst g = None \<or> fwp_reachable (engine s)" and ids: "next_id (engine s) \<noteq> - 1" "next_id (engine s) + 1 \<noteq> - 1"
    and lay: "layout_ok h" "layout_ok h'" and sdk: "sdk_ok sdk"
    and key: "action_calloutKey f = s_calloutKey c" "\<forall>j c'. map_of (fwps_callouts (engine s)) j = Some c' \<longrightarrow> s_calloutKey c' \<noteq> s_calloutKey c"
    and flt: "matching (fwpm_layer sdk Ale_Resource_Assignment V4) (default_sublayer (engine s)) f"
      "\<forall>i f'. map_of (fwpm_filters (engine s)) i = Some f' \<longrightarrow> \<not> matching (fwpm_layer sdk Ale_Resource_Assignment V4) (default_sublayer (engine s)) f'"
  shows "\<exists>vs i j g1. incoming_values sdk Ale_Resource_Assignment V4 (bind_values p) = Inr vs \<and>
           usersim_fwp_bind_ipv4 sdk cl p g = Inr (FWP_ACTION_CALLOUT_UNKNOWN, (Some (engine s), s)) \<and>
           install h h' c f g = Inr ((STATUS_SUCCESS, Some i, STATUS_SUCCESS, Some j), g1) \<and>
           (let s1 = fwp_engine_get g1; flow = next_flow_id (engine s1) + 1;
                r = cl \<lparr>cc_fn = classifyFn c, cc_layer = fwps_layer sdk Ale_Resource_Assignment V4, cc_values = vs, cc_flow = ucast flow,
                        cc_context = rawContext f\<rparr> (s1\<lparr>engine := (engine s1)\<lparr>next_flow_id := flow\<rparr>\<rparr>)
            in usersim_fwp_bind_ipv4 sdk cl p g1 = Inr (fst r, (Some (engine (snd r)), snd r)))"
proof -
  let ?l = "fwpm_layer sdk Ale_Resource_Assignment V4" and ?i = "fwps_layer sdk Ale_Resource_Assignment V4"
  have reach: "fwp_reachable (engine s)"
    using start fwp_reachable.start by (cases g) (auto simp: s_def fwp_engine_get_def)
  obtain vs where vs: "incoming_values sdk Ale_Resource_Assignment V4 (bind_values p) = Inr vs" using bind_values_total [OF sdk] by blast
  have bind: "usersim_fwp_bind_ipv4 sdk cl p g' =
      (case test_callout cl ?i ?l (default_sublayer (engine (fwp_engine_get g'))) vs (fwp_engine_get g') of
         (a, _, s2) \<Rightarrow> Inr (a, (Some (engine s2), s2)))" for g'
    by (simp add: usersim_fwp_bind_ipv4_def engine_call_def action_only_def test_bind_ipv4_eq run_hook_def vs split: prod.split)
  have before: "test_callout cl ?i ?l (default_sublayer (engine s)) vs s = (FWP_ACTION_CALLOUT_UNKNOWN, None, s)"
    using test_callout_selects [OF reach, of ?l "default_sublayer (engine s)" cl ?i vs] flt(2) by blast
  obtain i j g1 where g1: "install h h' c f g = Inr ((STATUS_SUCCESS, Some i, STATUS_SUCCESS, Some j), g1)"
    "fwp_reachable (engine (fwp_engine_get g1))" "default_sublayer (engine (fwp_engine_get g1)) = default_sublayer (engine s)"
    "map_of (fwps_callouts (engine (fwp_engine_get g1))) = (map_of (fwps_callouts (engine s)))(ucast i \<mapsto> c)"
    "map_of (fwpm_filters (engine (fwp_engine_get g1))) = (map_of (fwpm_filters (engine s)))(j \<mapsto> f)"
    by (rule install_engine [OF reach lay ids key(1), of g]) (simp_all add: s_def)
  let ?s1 = "fwp_engine_get g1"
  have "let flow = next_flow_id (engine ?s1) + 1;
            r = cl \<lparr>cc_fn = classifyFn c, cc_layer = ?i, cc_values = vs, cc_flow = ucast flow, cc_context = rawContext f\<rparr>
                  (?s1\<lparr>engine := (engine ?s1)\<lparr>next_flow_id := flow\<rparr>\<rparr>)
        in test_callout cl ?i ?l (default_sublayer (engine s)) vs ?s1 = (fst r, Some (ucast flow), snd r)"
    using conjunct1 [OF test_callout_selects [OF g1(2), of ?l "default_sublayer (engine s)" cl ?i vs], rule_format, of j f "ucast i" c]
      key flt by (auto simp: g1(4,5) split: if_splits)
  then show ?thesis using vs before g1(1) by (simp add: bind [of g, folded s_def] bind [of g1, unfolded g1(3)] Let_def)
qed

text \<open>The first use of the engine, with a callout that permits and remembers what it was called with.\<close>

theorem bind_hook_end_to_end_witness:
  "\<exists>g1 s2. usersim_fwp_bind_ipv4 sample_sdk (\<lambda>call s. (FWP_ACTION_PERMIT, s)) sample_parameters (None, sample_fwp) =
        Inr (FWP_ACTION_CALLOUT_UNKNOWN, (Some new_engine, sample_fwp\<lparr>engine := new_engine\<rparr>)) \<and>
     install sample_layout sample_layout sample_callout (sample_filter\<lparr>f_subLayerKey := 0\<rparr>) (None, sample_fwp) =
        Inr ((STATUS_SUCCESS, Some 1, STATUS_SUCCESS, Some 2), g1) \<and>
     usersim_fwp_bind_ipv4 sample_sdk (\<lambda>call s. (FWP_ACTION_PERMIT, s)) sample_parameters g1 = Inr (FWP_ACTION_PERMIT, (Some (engine s2), s2))"
proof -
  let ?cl = "\<lambda>(call :: classify_call) s. (FWP_ACTION_PERMIT, s :: fwp_state)" and ?g = "(None, sample_fwp) :: fwp_process"
  let ?f = "sample_filter\<lparr>f_subLayerKey := 0\<rparr>"
  have s: "fwp_engine_get ?g = sample_fwp\<lparr>engine := new_engine\<rparr>" by (simp add: fwp_engine_get_def)
  have a: "fst ?g = None \<or> fwp_reachable (engine (fwp_engine_get ?g))" "next_id (engine (fwp_engine_get ?g)) \<noteq> - 1"
      "next_id (engine (fwp_engine_get ?g)) + 1 \<noteq> - 1" by (simp_all add: s new_engine_def)
  have k: "action_calloutKey ?f = s_calloutKey sample_callout"
      "\<forall>j c'. map_of (fwps_callouts (engine (fwp_engine_get ?g))) j = Some c' \<longrightarrow> s_calloutKey c' \<noteq> s_calloutKey sample_callout"
    by (simp_all add: s new_engine_def sample_filter_def sample_callout_def)
  have m: "matching (fwpm_layer sample_sdk Ale_Resource_Assignment V4) (default_sublayer (engine (fwp_engine_get ?g))) ?f"
      "\<forall>i f'. map_of (fwpm_filters (engine (fwp_engine_get ?g))) i = Some f' \<longrightarrow>
         \<not> matching (fwpm_layer sample_sdk Ale_Resource_Assignment V4) (default_sublayer (engine (fwp_engine_get ?g))) f'"
    by (simp_all add: s new_engine_def matching_def sample_filter_def sample_sdk_simps)
  have i: "\<exists>g1. install sample_layout sample_layout sample_callout ?f ?g = Inr ((STATUS_SUCCESS, Some 1, STATUS_SUCCESS, Some 2), g1)"
    by (simp add: install_def engine_call_def fwp_engine_get_def FwpsCalloutRegister3_def FwpmFilterAdd0_def add_fwpm_filter_def fwp_eval)
  from bind_hook_end_to_end [OF a sample_layout_ok sample_layout_ok sample_sdk_ok k m, of sample_parameters ?cl] i
  show ?thesis unfolding s by (auto simp: Let_def)
qed

end
