(* ===== verification/Ndis.thy ===== *)
theory Ndis
  imports Mdl Pool
begin

text \<open>
  The remaining objects of \<^verbatim>\<open>src/ndis_um.cpp\<close>, generic objects and buffer list pools, which like the net buffers of theory \<open>Mdl\<close> live in the C run-time
  heap, and the test packet that \<^verbatim>\<open>fwp_engine_t::classify_test_packet\<close> in \<^verbatim>\<open>src/fwp_um.cpp\<close> builds out of all of them.
\<close>

section \<open>Generic objects and buffer list pools\<close>

record ndis_generic_object =
  go_driver_object :: ptr
  go_tag :: u32

text \<open>\<open>pool_parameters\<close> are the bytes of the structure that the caller passes.\<close>

record ndis_buffer_list_pool =
  pool_ndis_handle :: ptr
  pool_parameters :: "u8 list"

record ndis_objects =
  buffers :: ndis_state
  generic_objects :: "ptr \<rightharpoonup> ndis_generic_object"
  list_pools :: "ptr \<rightharpoonup> ndis_buffer_list_pool"

text \<open>\<open>fault\<close> is the answer of the fault injector and \<open>p\<close> that of \<^verbatim>\<open>malloc\<close>, which is asked for the object and \<open>extra\<close> more bytes.\<close>

definition NdisAllocateGenericObject :: "bool \<Rightarrow> ptr \<Rightarrow> ptr \<Rightarrow> u32 \<Rightarrow> u16 \<Rightarrow> ndis_objects \<Rightarrow> ptr \<times> ndis_objects" where
  "NdisAllocateGenericObject fault p driver_object tag extra s =
     (if fault then (nullptr, s)
      else if p = nullptr then (nullptr, s)
      else (p, s\<lparr>generic_objects := (generic_objects s)(p \<mapsto> \<lparr>go_driver_object = driver_object, go_tag = tag\<rparr>)\<rparr>))"

definition NdisFreeGenericObject :: "ptr \<Rightarrow> ndis_objects \<Rightarrow> ndis_objects" where
  "NdisFreeGenericObject p s = s\<lparr>generic_objects := (generic_objects s)(p := None)\<rparr>"

definition NdisAllocateNetBufferListPool :: "bool \<Rightarrow> ptr \<Rightarrow> ptr \<Rightarrow> u8 list \<Rightarrow> ndis_objects \<Rightarrow> ptr \<times> ndis_objects" where
  "NdisAllocateNetBufferListPool fault p ndis_handle parameters s =
     (if fault then (nullptr, s)
      else if p = nullptr then (nullptr, s)
      else (p, s\<lparr>list_pools := (list_pools s)(p \<mapsto> \<lparr>pool_ndis_handle = ndis_handle, pool_parameters = parameters\<rparr>)\<rparr>))"

definition NdisFreeNetBufferListPool :: "ptr \<Rightarrow> ndis_objects \<Rightarrow> ndis_objects" where
  "NdisFreeNetBufferListPool p s = s\<lparr>list_pools := (list_pools s)(p := None)\<rparr>"

section \<open>A test packet\<close>

text \<open>
  The buffers of the test packet: a pool, a buffer list, a descriptor of \<open>len\<close> bytes at \<open>data\<close> and a buffer. Each is held by a \<^verbatim>\<open>std::unique_ptr\<close>, so
  on every way out the ones that exist are released in the opposite order. The answer tells whether the callout was reached; \<open>body\<close> is the call.
\<close>

record packet_os =
  po_pool :: "bool \<times> ptr"
  po_list :: "bool \<times> ptr"
  po_mdl :: "bool \<times> ptr \<times> backtrace"
  po_buffer :: "bool \<times> ptr"
  po_free :: backtrace

definition free_list :: "ptr \<Rightarrow> ndis_objects \<Rightarrow> ndis_objects" where
  "free_list nbl s = s\<lparr>buffers := NdisFreeNetBufferList nbl (buffers s)\<rparr>"

definition with_test_packet :: "packet_os \<Rightarrow> ptr \<Rightarrow> u32 \<Rightarrow> ndis_objects \<times> mdl_state \<Rightarrow> (bool \<times> ndis_objects \<times> mdl_state) result" where
  "with_test_packet os data len st =
     (case st of (s, m) \<Rightarrow>
      (case NdisAllocateNetBufferListPool (fst (po_pool os)) (snd (po_pool os)) nullptr [] s of
        (pool_handle, s1) \<Rightarrow>
          if pool_handle = nullptr then Inr (False, s1, m)
          else let free_pool = NdisFreeNetBufferListPool pool_handle
               in case NdisAllocateNetBufferList (fst (po_list os)) (snd (po_list os)) (buffers s1) of
                    (nbl, b2) \<Rightarrow>
                      let s2 = s1\<lparr>buffers := b2\<rparr>
                      in if nbl = nullptr then Inr (False, free_pool s2, m)
                         else case po_mdl os of
                           (fault, p, bt) \<Rightarrow>
                             (case IoAllocateMdl fault p bt data len m of
                                Inl e \<Rightarrow> Inl e
                              | Inr (mdl_chain, m1) \<Rightarrow>
                                  if mdl_chain = nullptr then Inr (False, free_pool (free_list nbl s2), m1)
                                  else case NdisAllocateNetBuffer (fst (po_buffer os)) (snd (po_buffer os)) mdl_chain (ucast len) (buffers s2) of
                                    (nb, b3) \<Rightarrow>
                                      let called = (nb \<noteq> nullptr);
                                          s3 = s2\<lparr>buffers := (if called then b3\<lparr>FirstNetBuffer := (FirstNetBuffer b3)(nbl \<mapsto> nb)\<rparr> else b3)\<rparr>;
                                          s4 = (if called then s3\<lparr>buffers := NdisFreeNetBuffer nb (buffers s3)\<rparr> else s3)
                                      in (case IoFreeMdl (po_free os) mdl_chain m1 of
                                            Inl e \<Rightarrow> Inl e
                                          | Inr m2 \<Rightarrow> Inr (called, free_pool (free_list nbl s4), m2)))))"

section \<open>Properties\<close>

text \<open>
  building and dropping the test packet leaves nothing behind. Whatever the fault injector and the heap answer, the call returns, and the pools, lists, buffers,
  descriptors and heap blocks are those of before, if the addresses of new objects were not in use. The callout is reached
  exactly when all four objects could be made.
\<close>
theorem test_packet_balanced:
  assumes fresh: "list_pools s (snd (po_pool os)) = None" "FirstNetBuffer (buffers s) (snd (po_list os)) = None"
      "net_buffers (buffers s) (snd (po_buffer os)) = None"
    and mdl: "po_mdl os = (fault, p, bt)" "cx_fresh (fault, p, bt, 40) (heap m)" "mdls m (p + 16) = None"
  shows "\<exists>called m'. with_test_packet os data len (s, m) = Inr (called, s, m') \<and> blocks (heap m') = blocks (heap m) \<and> mdls m' = mdls m \<and>
           (called \<longleftrightarrow> \<not> fst (po_pool os) \<and> snd (po_pool os) \<noteq> nullptr \<and> \<not> fst (po_list os) \<and> snd (po_list os) \<noteq> nullptr \<and>
              (\<exists>q m1. IoAllocateMdl fault p bt data len m = Inr (q, m1) \<and> q \<noteq> nullptr) \<and> \<not> fst (po_buffer os) \<and> snd (po_buffer os) \<noteq> nullptr)"
proof (cases "\<not> fst (po_pool os) \<and> snd (po_pool os) \<noteq> nullptr \<and> \<not> fst (po_list os) \<and> snd (po_list os) \<noteq> nullptr")
  case False
  then show ?thesis using fresh
    by (auto simp: with_test_packet_def NdisAllocateNetBufferListPool_def NdisAllocateNetBufferList_def NdisFreeNetBufferListPool_def fun_upd_idem Let_def)
next
  case True
  let ?T = USERSIM_TAG_MDL and ?a = "(fault, p, bt, 40 :: u64)"
  obtain q h where q: "cx_alloc ?T ?a (heap m) = Inr (q, h)"
    by (cases "cx_alloc ?T ?a (heap m)") (auto simp: cx_alloc_def cxplat_allocate_def Let_def split: if_splits)
  have al: "IoAllocateMdl fault p bt data len m =
      (if q = nullptr then Inr (nullptr, m\<lparr>heap := h\<rparr>) else Inr (q, m\<lparr>heap := h, mdls := (mdls m)(q \<mapsto> MmInitializeMdl data len)\<rparr>))"
    using q by (simp add: IoAllocateMdl_def cx_alloc_def)
  note defs = with_test_packet_def NdisAllocateNetBufferListPool_def NdisAllocateNetBufferList_def NdisFreeNetBufferListPool_def free_list_def
    NdisFreeNetBufferList_def NdisAllocateNetBuffer_def NdisFreeNetBuffer_def
  show ?thesis
  proof (cases "q = nullptr")
    case null: True
    have "blocks h = blocks (heap m)" using cx.alloc_fail [of ?T ?a "heap m" h] q null mdl(2) by simp
    then show ?thesis using True null al fresh mdl(1) by (auto simp: defs fun_upd_idem Let_def)
  next
    case False
    have qp: "q = p + 16" using allocate_success(3) [of fault p bt CXPLAT_POOL_FLAG_NON_PAGED 40 ?T "heap m" q h] q False by (simp add: cx_alloc_def cx_flags)
    obtain h' where h': "cx_free ?T (po_free os) q h = Inr h'" "blocks h' = blocks (heap m)"
      using cx.one_buffer [OF q False mdl(2), of "po_free os"] by blast
    then have fr: "IoFreeMdl (po_free os) q (m\<lparr>heap := h, mdls := (mdls m)(q \<mapsto> MmInitializeMdl data len)\<rparr>) = Inr (m\<lparr>heap := h', mdls := mdls m\<rparr>)"
      using mdl(3) qp by (simp add: IoFreeMdl_def cx_free_def fun_upd_idem)
    show ?thesis using True False al fr fresh mdl(1) h'(2)
      by (cases "\<not> fst (po_buffer os) \<and> snd (po_buffer os) \<noteq> nullptr") (auto simp: defs fun_upd_idem Let_def)
  qed
qed

text \<open>
  A clone that is freed keeps its buffer: \<^verbatim>\<open>NdisFreeCloneNetBufferList\<close> frees the list alone, and the buffer that was allocated for it is still there.
\<close>

lemma freed_clone_keeps_buffer:
  assumes "NdisAllocateCloneNetBufferList False False False pl pb original s = Inr (nbl, s1)" "nbl \<noteq> nullptr"
  shows "net_buffers (NdisFreeCloneNetBufferList nbl s1) pb \<noteq> None"
  using assms
  by (auto simp: NdisAllocateCloneNetBufferList_def NdisAllocateNetBufferList_def NdisAllocateNetBuffer_def NdisFreeCloneNetBufferList_def
      NdisFreeNetBufferList_def split: option.splits if_splits)

end
