(* ===== verification/Clock.thy ===== *)
theory Clock
  imports Usersim_Prelude
begin

text \<open>
  The clocks: the interrupt time and performance counter of \<^verbatim>\<open>src/ke.cpp\<close>, \<^verbatim>\<open>usersim_query_time_since_boot\<close> of \<^verbatim>\<open>src/platform_user.cpp\<close>, and
  \<^verbatim>\<open>cxplat_query_time_since_boot_*\<close> of both builds of the cross-platform layer (\<^verbatim>\<open>time_winuser.cpp\<close>, \<^verbatim>\<open>time_winkernel.c\<close>). The clocks of the
  operating system at one moment are a parameter, the record \<open>os_clock\<close>. What the system documents of them, that the interrupt time
  is the unbiased interrupt time plus the time the machine was suspended, is the predicate \<open>interrupt_clock\<close>.
\<close>

record os_clock =
  QueryInterruptTime :: u64
  QueryInterruptTimePrecise :: u64
  QueryUnbiasedInterruptTime :: u64
  QueryUnbiasedInterruptTimePrecise :: u64
  QueryPerformanceCounter :: "u64 option"
  QueryPerformanceFrequency :: "u64 option"

section \<open>The simulated kernel\<close>

definition KeQueryInterruptTime :: "os_clock \<Rightarrow> u64" where
  "KeQueryInterruptTime os = QueryInterruptTime os"

text \<open>The result and what is stored in the out-parameter, which is named after the performance counter.\<close>

definition KeQueryUnbiasedInterruptTimePrecise :: "os_clock \<Rightarrow> u64 \<times> u64" where
  "KeQueryUnbiasedInterruptTimePrecise os =
     (let qpc_time_stamp = QueryUnbiasedInterruptTimePrecise os in (qpc_time_stamp, qpc_time_stamp))"

definition KeQueryInterruptTimePrecise :: "os_clock \<Rightarrow> u64 \<times> u64" where
  "KeQueryInterruptTimePrecise os =
     (let qpc_time_stamp = QueryInterruptTimePrecise os in (qpc_time_stamp, qpc_time_stamp))"

text \<open>
  \<^verbatim>\<open>KeQueryPerformanceCounter\<close>: \<open>want_frequency\<close> says whether the caller passed a place for the frequency. The assertion of this file is
  \<^verbatim>\<open>KeBugCheckCPP(0)\<close>.
\<close>

definition KeQueryPerformanceCounter :: "os_clock \<Rightarrow> bool \<Rightarrow> (u64 \<times> u64 option) result" where
  "KeQueryPerformanceCounter os want_frequency =
     (case QueryPerformanceCounter os of
        None \<Rightarrow> Inl (Bug_Check 0)
      | Some counter \<Rightarrow>
          if want_frequency
          then (case QueryPerformanceFrequency os of
                  None \<Rightarrow> Inl (Bug_Check 0) | Some performance_frequency \<Rightarrow> Inr (counter, Some performance_frequency))
          else Inr (counter, None))"

definition usersim_query_time_since_boot :: "os_clock \<Rightarrow> bool \<Rightarrow> u64" where
  "usersim_query_time_since_boot os include_suspended_time =
     (if include_suspended_time then QueryUnbiasedInterruptTimePrecise os else QueryInterruptTimePrecise os)"

section \<open>The cross-platform layer\<close>

definition cxplat_query_time_since_boot_precise :: "os_clock \<Rightarrow> bool \<Rightarrow> u64" where
  "cxplat_query_time_since_boot_precise os include_suspended_time =
     (if include_suspended_time then QueryUnbiasedInterruptTimePrecise os else QueryInterruptTimePrecise os)"

definition cxplat_query_time_since_boot_approximate :: "os_clock \<Rightarrow> bool \<Rightarrow> u64" where
  "cxplat_query_time_since_boot_approximate os include_suspended_time =
     (if include_suspended_time then QueryUnbiasedInterruptTime os else QueryInterruptTime os)"

text \<open>The kernel build asks a kernel: its precise queries return the time and store a time stamp, which the layer ignores.\<close>

record kernel_clock =
  ke_interrupt_time :: u64
  ke_interrupt_time_precise :: "u64 \<times> u64"
  ke_unbiased_interrupt_time :: u64
  ke_unbiased_interrupt_time_precise :: "u64 \<times> u64"

definition winkernel_query_time_since_boot_precise :: "kernel_clock \<Rightarrow> bool \<Rightarrow> u64" where
  "winkernel_query_time_since_boot_precise ke include_suspended_time =
     (if include_suspended_time then fst (ke_unbiased_interrupt_time_precise ke) else fst (ke_interrupt_time_precise ke))"

definition winkernel_query_time_since_boot_approximate :: "kernel_clock \<Rightarrow> bool \<Rightarrow> u64" where
  "winkernel_query_time_since_boot_approximate ke include_suspended_time =
     (if include_suspended_time then ke_unbiased_interrupt_time ke else ke_interrupt_time ke)"

text \<open>
  The simulated kernel as a kernel. It has no \<^verbatim>\<open>KeQueryUnbiasedInterruptTime\<close>, whose answer is the argument \<open>unbiased\<close>.
\<close>

definition usersim_clock :: "os_clock \<Rightarrow> u64 \<Rightarrow> kernel_clock" where
  "usersim_clock os unbiased =
     \<lparr>ke_interrupt_time = KeQueryInterruptTime os, ke_interrupt_time_precise = KeQueryInterruptTimePrecise os,
      ke_unbiased_interrupt_time = unbiased, ke_unbiased_interrupt_time_precise = KeQueryUnbiasedInterruptTimePrecise os\<rparr>"

lemmas clock_defs = usersim_query_time_since_boot_def cxplat_query_time_since_boot_precise_def cxplat_query_time_since_boot_approximate_def
  winkernel_query_time_since_boot_precise_def winkernel_query_time_since_boot_approximate_def usersim_clock_def KeQueryInterruptTime_def
  KeQueryInterruptTimePrecise_def KeQueryUnbiasedInterruptTimePrecise_def Let_def

section \<open>What the clocks mean\<close>

text \<open>
  A machine with a clock since boot: at every moment the interrupt time counts everything since boot, and the unbiased
  interrupt time leaves out the time \<open>suspended\<close>.
\<close>

definition interrupt_clock :: "(nat \<Rightarrow> os_clock) \<Rightarrow> (nat \<Rightarrow> nat) \<Rightarrow> bool" where
  "interrupt_clock clock suspended \<longleftrightarrow> mono suspended \<and> mono (\<lambda>t. unat (QueryUnbiasedInterruptTimePrecise (clock t))) \<and>
     (\<forall>t. unat (QueryInterruptTimePrecise (clock t)) = unat (QueryUnbiasedInterruptTimePrecise (clock t)) + suspended t)"

text \<open>
  Neither time since boot ever goes back. But asking for the time with the suspended time answers the time without it, and the other
  way round: the answers differ by the suspended time in the direction opposite to the name of the parameter.
\<close>

lemma time_since_boot_mono:
  assumes "interrupt_clock clock suspended" "t \<le> t'"
  shows "cxplat_query_time_since_boot_precise (clock t) b \<le> cxplat_query_time_since_boot_precise (clock t') b"
  using assms monoD [of suspended t t'] monoD [of "\<lambda>t. unat (QueryUnbiasedInterruptTimePrecise (clock t))" t t']
  by (auto simp: interrupt_clock_def cxplat_query_time_since_boot_precise_def word_le_nat_alt intro: add_mono)

lemma suspended_time_swapped:
  assumes "interrupt_clock clock suspended"
  shows "unat (cxplat_query_time_since_boot_precise (clock t) False) =
         unat (cxplat_query_time_since_boot_precise (clock t) True) + suspended t"
  using assms by (simp add: interrupt_clock_def cxplat_query_time_since_boot_precise_def)

text \<open>The kernel build over the simulated kernel answers what the user-mode build answers.\<close>

lemma clock_builds_agree:
  "winkernel_query_time_since_boot_precise (usersim_clock os unbiased) b = cxplat_query_time_since_boot_precise os b"
  "winkernel_query_time_since_boot_approximate (usersim_clock os (QueryUnbiasedInterruptTime os)) b = cxplat_query_time_since_boot_approximate os b"
  "usersim_query_time_since_boot os b = cxplat_query_time_since_boot_precise os b"
  by (simp_all add: clock_defs)

text \<open>The performance counter is returned, with its frequency when it is asked for, unless the system fails, which stops the program.\<close>

lemma performance_counter:
  "KeQueryPerformanceCounter os want = Inr (c, f) \<longleftrightarrow>
     QueryPerformanceCounter os = Some c \<and> (if want then f \<noteq> None \<and> QueryPerformanceFrequency os = f else f = None)"
  "KeQueryPerformanceCounter os want = Inl e \<Longrightarrow>
     e = Bug_Check 0 \<and> (QueryPerformanceCounter os = None \<or> want \<and> QueryPerformanceFrequency os = None)"
  by (auto simp: KeQueryPerformanceCounter_def split: option.splits if_splits)

end
