(* ===== verification/Winkernel_Ke.thy ===== *)
theory Winkernel_Ke
  imports Winkernel Rundown Safe_Int
begin

text \<open>
  The remaining parts of the kernel build of the cross-platform layer: start and shutdown (\<^verbatim>\<open>cxplat_winkernel.c\<close>), rundown protection
  (\<^verbatim>\<open>rundown_winkernel.c\<close>), checked arithmetic (\<^verbatim>\<open>size_winkernel.cpp\<close>), processor numbers, interrupt levels and queued spin locks
  (\<^verbatim>\<open>processor_winkernel.c\<close>). The layer forwards to the kernel, which is a parameter: the record \<open>rundown_kernel\<close>, the checked operations with an
  \<^verbatim>\<open>NTSTATUS\<close>, and the record \<open>queued_locks\<close>. The contracts are the locales that the user-mode build satisfies: \<open>rundown_protection\<close> and
  \<open>checked_operation\<close>; on the simulated kernel both builds agree. Work items are in theory \<open>Winkernel_Work\<close>, clocks in theory \<open>Clock\<close>.
\<close>

section \<open>Start and shutdown\<close>

text \<open>The state is the counter \<^verbatim>\<open>_cxplat_initialization_count\<close>.\<close>

definition winkernel_initialize :: "u32 \<Rightarrow> cxplat_status \<times> u32" where
  "winkernel_initialize count = (Cxplat_Success, count + 1)"

definition winkernel_cleanup :: "u32 \<Rightarrow> u32 result" where
  "winkernel_cleanup count = assert_that (count > 0) (Inr (count - 1))"

section \<open>Rundown protection\<close>

record 's rundown_kernel =
  k_initialize_rundown :: "ptr \<Rightarrow> 's \<Rightarrow> 's"
  k_reinitialize_rundown :: "ptr \<Rightarrow> 's \<Rightarrow> 's result"
  k_wait_for_rundown :: "ptr \<Rightarrow> 's \<Rightarrow> 's result"
  k_acquire_rundown :: "ptr \<Rightarrow> 's \<Rightarrow> (bool \<times> 's) result"
  k_release_rundown :: "ptr \<Rightarrow> 's \<Rightarrow> 's result"

definition winkernel_initialize_rundown_protection :: "'s rundown_kernel \<Rightarrow> ptr \<Rightarrow> 's \<Rightarrow> 's" where
  "winkernel_initialize_rundown_protection k r s = k_initialize_rundown k r s"

definition winkernel_reinitialize_rundown_protection :: "'s rundown_kernel \<Rightarrow> ptr \<Rightarrow> 's \<Rightarrow> 's result" where
  "winkernel_reinitialize_rundown_protection k r s = k_reinitialize_rundown k r s"

definition winkernel_wait_for_rundown_protection_release :: "'s rundown_kernel \<Rightarrow> ptr \<Rightarrow> 's \<Rightarrow> 's result" where
  "winkernel_wait_for_rundown_protection_release k r s = k_wait_for_rundown k r s"

text \<open>The answer is converted to \<^verbatim>\<open>int\<close>.\<close>

definition winkernel_acquire_rundown_protection :: "'s rundown_kernel \<Rightarrow> ptr \<Rightarrow> 's \<Rightarrow> (int \<times> 's) result" where
  "winkernel_acquire_rundown_protection k r s =
     (case k_acquire_rundown k r s of Inl e \<Rightarrow> Inl e | Inr (b, s1) \<Rightarrow> Inr (of_bool b, s1))"

definition winkernel_release_rundown_protection :: "'s rundown_kernel \<Rightarrow> ptr \<Rightarrow> 's \<Rightarrow> 's result" where
  "winkernel_release_rundown_protection k r s = k_release_rundown k r s"

text \<open>A client tests the answer of an acquisition for zero.\<close>

definition winkernel_try_acquire :: "'s rundown_kernel \<Rightarrow> ptr \<Rightarrow> 's \<Rightarrow> (bool \<times> 's) result" where
  "winkernel_try_acquire k r s =
     (case winkernel_acquire_rundown_protection k r s of Inl e \<Rightarrow> Inl e | Inr (n, s1) \<Rightarrow> Inr (n \<noteq> 0, s1))"

lemma winkernel_try_acquire: "winkernel_try_acquire k r s = k_acquire_rundown k r s"
  by (simp add: winkernel_try_acquire_def winkernel_acquire_rundown_protection_def split: sum.split prod.split)

text \<open>A kernel whose rundown references have the contract, and what the layer makes of it.\<close>

locale kernel_rundown =
  fixes k :: "'s rundown_kernel" and r :: ptr
    and ready :: "'s \<Rightarrow> bool" and held :: "'s \<Rightarrow> nat" and down :: "'s \<Rightarrow> bool" and wait_done :: "'s \<Rightarrow> bool"
  assumes contract: "rundown_protection ready held down (k_acquire_rundown k r) (k_release_rundown k r) (k_wait_for_rundown k r) wait_done"
    and initialized: "ready (k_initialize_rundown k r s)" "\<not> down (k_initialize_rundown k r s)" "held (k_initialize_rundown k r s) = 0"

sublocale kernel_rundown \<subseteq> layer: rundown_protection ready held down "winkernel_try_acquire k r" "winkernel_release_rundown_protection k r"
  "winkernel_wait_for_rundown_protection_release k r" wait_done
proof -
  have "winkernel_try_acquire k r = k_acquire_rundown k r" "winkernel_release_rundown_protection k r = k_release_rundown k r"
    "winkernel_wait_for_rundown_protection_release k r = k_wait_for_rundown k r"
    by (simp_all add: fun_eq_iff winkernel_try_acquire winkernel_release_rundown_protection_def winkernel_wait_for_rundown_protection_release_def)
  then show "rundown_protection ready held down (winkernel_try_acquire k r) (winkernel_release_rundown_protection k r)
      (winkernel_wait_for_rundown_protection_release k r) wait_done" using contract by simp
qed

context kernel_rundown
begin

lemma kernel_drains:
  assumes "n < 2 ^ 64"
  shows "\<exists>s1 s2. acquire_n (winkernel_try_acquire k r) n (winkernel_initialize_rundown_protection k r s) = Inr (replicate n True, s1) \<and>
           winkernel_wait_for_rundown_protection_release k r s1 = Inr s2 \<and>
           acquire_n (winkernel_try_acquire k r) m s2 = Inr (replicate m False, s2) \<and>
           (\<forall>i \<le> n. \<exists>s3. release_n (winkernel_release_rundown_protection k r) i s2 = Inr s3 \<and> (wait_done s3 \<longleftrightarrow> i = n))"
  unfolding winkernel_initialize_rundown_protection_def
  using layer.drains [OF initialized assms] .

end

text \<open>The simulated kernel provides it.\<close>

definition usersim_rundown :: "rundown_table rundown_kernel" where
  "usersim_rundown = \<lparr>k_initialize_rundown = ExInitializeRundownProtection, k_reinitialize_rundown = ExReInitializeRundownProtection,
     k_wait_for_rundown = ExWaitForRundownProtectionRelease, k_acquire_rundown = ExAcquireRundownProtection,
     k_release_rundown = ExReleaseRundownProtection\<rparr>"

interpretation usersim_rundown: kernel_rundown usersim_rundown r "rundown_ready r" "rundown_held r" "rundown_down r" "wait_for_rundown_ref_done r" for r
proof (rule kernel_rundown.intro)
  show "rundown_protection (rundown_ready r) (rundown_held r) (rundown_down r) (k_acquire_rundown usersim_rundown r)
      (k_release_rundown usersim_rundown r) (k_wait_for_rundown usersim_rundown r) (wait_for_rundown_ref_done r)"
    using table_rundown.rundown_protection_axioms [of r]
    by (simp add: usersim_rundown_def ExAcquireRundownProtection_def ExReleaseRundownProtection_def ExWaitForRundownProtectionRelease_def)
  show "rundown_ready r (k_initialize_rundown usersim_rundown r s)" "\<not> rundown_down r (k_initialize_rundown usersim_rundown r s)"
    "rundown_held r (k_initialize_rundown usersim_rundown r s) = 0" for s
    using initialize_ready [of r s]
    by (simp_all add: usersim_rundown_def ExInitializeRundownProtection_def cxplat_initialize_rundown_protection_def)
qed

section \<open>Checked arithmetic\<close>

text \<open>The operations of \<^verbatim>\<open>ntintsafe.h\<close> return an \<^verbatim>\<open>NTSTATUS\<close>, which is compared with \<^verbatim>\<open>STATUS_SUCCESS\<close>.\<close>

definition winkernel_safe_status :: "ntstatus \<times> 'w :: len word \<Rightarrow> safe_status \<times> 'w word" where
  "winkernel_safe_status r = (if fst r = STATUS_SUCCESS then Safe_Success else Arithmetic_Overflow, snd r)"

definition winkernel_safe_multiply :: "('w :: len word \<Rightarrow> 'w word \<Rightarrow> ntstatus \<times> 'w word) \<Rightarrow> 'w word \<Rightarrow> 'w word \<Rightarrow> safe_status \<times> 'w word" where
  "winkernel_safe_multiply Mult a b = winkernel_safe_status (Mult a b)"

definition winkernel_safe_add :: "('w :: len word \<Rightarrow> 'w word \<Rightarrow> ntstatus \<times> 'w word) \<Rightarrow> 'w word \<Rightarrow> 'w word \<Rightarrow> safe_status \<times> 'w word" where
  "winkernel_safe_add Add a b = winkernel_safe_status (Add a b)"

definition winkernel_safe_subtract :: "('w :: len word \<Rightarrow> 'w word \<Rightarrow> ntstatus \<times> 'w word) \<Rightarrow> 'w word \<Rightarrow> 'w word \<Rightarrow> safe_status \<times> 'w word" where
  "winkernel_safe_subtract Sub a b = winkernel_safe_status (Sub a b)"

lemma safe_status_builds: "winkernel_safe_status (overflow_status r) = safe_status r"
  by (simp add: winkernel_safe_status_def overflow_status_def safe_status_def)

section \<open>Processors, interrupt levels and queued locks\<close>

text \<open>\<open>GetMaximumProcessorCount\<close> and \<open>GetActiveProcessorCount\<close> are the functions of the operating system, by processor group.\<close>

abbreviation ALL_PROCESSOR_GROUPS :: u16 where "ALL_PROCESSOR_GROUPS \<equiv> 0xffff"

definition KeQueryMaximumProcessorCount :: "(u16 \<Rightarrow> u32) \<Rightarrow> u32" where
  "KeQueryMaximumProcessorCount GetMaximumProcessorCount = GetMaximumProcessorCount ALL_PROCESSOR_GROUPS"

definition KeQueryMaximumProcessorCountEx :: "(u16 \<Rightarrow> u32) \<Rightarrow> u16 \<Rightarrow> u32" where
  "KeQueryMaximumProcessorCountEx GetMaximumProcessorCount group_number = GetMaximumProcessorCount group_number"

definition KeQueryActiveProcessorCount :: "(u16 \<Rightarrow> u32) \<Rightarrow> u32" where
  "KeQueryActiveProcessorCount GetMaximumProcessorCount = KeQueryMaximumProcessorCount GetMaximumProcessorCount"

definition KeQueryActiveProcessorCountEx :: "(u16 \<Rightarrow> u32) \<Rightarrow> u16 \<Rightarrow> u32" where
  "KeQueryActiveProcessorCountEx GetMaximumProcessorCount group_number = KeQueryMaximumProcessorCountEx GetMaximumProcessorCount group_number"

definition cxplat_get_maximum_processor_count :: "(u16 \<Rightarrow> u32) \<Rightarrow> u32" where
  "cxplat_get_maximum_processor_count GetMaximumProcessorCount = GetMaximumProcessorCount ALL_PROCESSOR_GROUPS"

definition cxplat_get_active_processor_count :: "(u16 \<Rightarrow> u32) \<Rightarrow> u32" where
  "cxplat_get_active_processor_count GetActiveProcessorCount = GetActiveProcessorCount ALL_PROCESSOR_GROUPS"

definition winkernel_get_maximum_processor_count :: "(u16 \<Rightarrow> u32) \<Rightarrow> u32" where
  "winkernel_get_maximum_processor_count ke_maximum = ke_maximum ALL_PROCESSOR_GROUPS"

definition winkernel_get_current_processor_number :: "u32 \<Rightarrow> u32" where
  "winkernel_get_current_processor_number KeGetCurrentProcessorIndex = KeGetCurrentProcessorIndex"

definition winkernel_get_active_processor_count :: "(u16 \<Rightarrow> u32) \<Rightarrow> u32" where
  "winkernel_get_active_processor_count ke_active = ke_active ALL_PROCESSOR_GROUPS"

definition winkernel_release_spin_lock :: "irql_os \<Rightarrow> nat \<Rightarrow> processor_number \<Rightarrow> ptr \<Rightarrow> u8 \<Rightarrow> irql_state \<Rightarrow> irql_state result" where
  "winkernel_release_spin_lock os tid processor spin_lock old_irql s = KeReleaseSpinLock os tid processor spin_lock old_irql s"

definition winkernel_raise_irql :: "irql_os \<Rightarrow> nat \<Rightarrow> processor_number \<Rightarrow> u8 \<Rightarrow> irql_state \<Rightarrow> (u8 \<times> irql_state) attempt result" where
  "winkernel_raise_irql os tid processor new_irql s = KeRaiseIrql os tid processor new_irql s"

definition winkernel_lower_irql :: "irql_os \<Rightarrow> nat \<Rightarrow> processor_number \<Rightarrow> u8 \<Rightarrow> irql_state \<Rightarrow> irql_state result" where
  "winkernel_lower_irql os tid processor new_irql s = KeLowerIrql os tid processor new_irql s"

definition winkernel_get_current_irql :: "nat \<Rightarrow> irql_state \<Rightarrow> u8" where
  "winkernel_get_current_irql tid s = KeGetCurrentIrql tid s"

text \<open>Queued spin locks, which the simulated kernel does not have: an acquisition gives the new state, or waits.\<close>

record 's queued_locks =
  k_acquire_queued :: "ptr \<Rightarrow> ptr \<Rightarrow> 's \<Rightarrow> 's option"
  k_release_queued :: "ptr \<Rightarrow> 's \<Rightarrow> 's result"
  k_acquire_queued_at_dpc :: "ptr \<Rightarrow> ptr \<Rightarrow> 's \<Rightarrow> 's option"
  k_release_queued_from_dpc :: "ptr \<Rightarrow> 's \<Rightarrow> 's result"

definition winkernel_acquire_in_stack_queued_spin_lock :: "'s queued_locks \<Rightarrow> ptr \<Rightarrow> ptr \<Rightarrow> 's \<Rightarrow> 's option" where
  "winkernel_acquire_in_stack_queued_spin_lock k spin_lock lock_handle s = k_acquire_queued k spin_lock lock_handle s"

definition winkernel_release_in_stack_queued_spin_lock :: "'s queued_locks \<Rightarrow> ptr \<Rightarrow> 's \<Rightarrow> 's result" where
  "winkernel_release_in_stack_queued_spin_lock k lock_handle s = k_release_queued k lock_handle s"

definition winkernel_acquire_in_stack_queued_spin_lock_at_dpc :: "'s queued_locks \<Rightarrow> ptr \<Rightarrow> ptr \<Rightarrow> 's \<Rightarrow> 's option" where
  "winkernel_acquire_in_stack_queued_spin_lock_at_dpc k spin_lock lock_handle s = k_acquire_queued_at_dpc k spin_lock lock_handle s"

definition winkernel_release_in_stack_queued_spin_lock_from_dpc :: "'s queued_locks \<Rightarrow> ptr \<Rightarrow> 's \<Rightarrow> 's result" where
  "winkernel_release_in_stack_queued_spin_lock_from_dpc k lock_handle s = k_release_queued_from_dpc k lock_handle s"

section \<open>Properties\<close>

text \<open>Starts and shutdowns are counted: after \<open>n\<close> of each the count is what it was, and one shutdown more than starts fails its assertion.\<close>

fun repeat_result :: "nat \<Rightarrow> ('s \<Rightarrow> 's result) \<Rightarrow> 's \<Rightarrow> 's result" where
  "repeat_result 0 f s = Inr s"
| "repeat_result (Suc n) f s = (case f s of Inl e \<Rightarrow> Inl e | Inr s1 \<Rightarrow> repeat_result n f s1)"

lemma winkernel_cleanups:
  "unat c = n \<Longrightarrow> repeat_result n winkernel_cleanup c = Inr 0"
  "unat c = n \<Longrightarrow> repeat_result (Suc n) winkernel_cleanup c = Inl Assert_Failed"
proof (induction n arbitrary: c)
  case 0
  { case 1 then show ?case by (simp add: unat_eq_0) next case 2 then show ?case by (simp add: winkernel_cleanup_def unat_eq_0) }
next
  case (Suc n)
  have step: "winkernel_cleanup c = Inr (c - 1)" "unat (c - 1) = n" if "unat c = Suc n" for c
  proof -
    have "c \<noteq> 0" using that by auto
    then show "winkernel_cleanup c = Inr (c - 1)" "unat (c - 1) = n" using that by (simp_all add: winkernel_cleanup_def word_gt_0 unat_minus_one)
  qed
  { case 1 then show ?case using step [of c] Suc.IH(1) [of "c - 1"] by simp next case 2 then show ?case using step [of c] Suc.IH(2) [of "c - 1"] by simp }
qed

lemma winkernel_starts_counted:
  assumes "n < 2 ^ 32"
  defines "c \<equiv> ((\<lambda>c. snd (winkernel_initialize c)) ^^ n) 0"
  shows "repeat_result n winkernel_cleanup c = Inr 0" "repeat_result (Suc n) winkernel_cleanup c = Inl Assert_Failed"
proof -
  have "((\<lambda>c. snd (winkernel_initialize c)) ^^ m) 0 = of_nat m" for m by (induction m) (simp_all add: winkernel_initialize_def add.commute)
  then have "unat c = n" using assms(1) by (simp add: c_def unat_of_nat take_bit_nat_eq_self)
  then show "repeat_result n winkernel_cleanup c = Inr 0" "repeat_result (Suc n) winkernel_cleanup c = Inl Assert_Failed"
    by (rule winkernel_cleanups)+
qed

text \<open>
  On the simulated kernel, and with the operations of the system header behind the runtime library, the two builds of the layer
  are the same: every rundown operation, every checked operation and the number of processors. Only the number of active
  processors differs, because the simulated kernel reports all processors as active.
\<close>

lemma builds_agree:
  "winkernel_initialize_rundown_protection usersim_rundown = cxplat_initialize_rundown_protection"
  "winkernel_reinitialize_rundown_protection usersim_rundown = cxplat_reinitialize_rundown_protection"
  "winkernel_try_acquire usersim_rundown = cxplat_acquire_rundown_protection"
  "winkernel_release_rundown_protection usersim_rundown = cxplat_release_rundown_protection"
  "winkernel_wait_for_rundown_protection_release usersim_rundown = cxplat_wait_for_rundown_protection_release"
  "winkernel_safe_add (RtlSizeTAdd op) = cxplat_safe_add op" "winkernel_safe_subtract (RtlSizeTSub op) = cxplat_safe_subtract op"
  "winkernel_safe_multiply (RtlSizeTMult op) = cxplat_safe_multiply op" "winkernel_safe_add (RtlULongAdd op') = cxplat_safe_add op'"
  "winkernel_get_maximum_processor_count (KeQueryMaximumProcessorCountEx maxi) = cxplat_get_maximum_processor_count maxi"
  "winkernel_get_active_processor_count (KeQueryActiveProcessorCountEx maxi) = cxplat_get_maximum_processor_count maxi"
  by (simp_all add: fun_eq_iff winkernel_try_acquire winkernel_initialize_rundown_protection_def winkernel_reinitialize_rundown_protection_def
      winkernel_release_rundown_protection_def winkernel_wait_for_rundown_protection_release_def usersim_rundown_def
      ExInitializeRundownProtection_def ExReInitializeRundownProtection_def ExAcquireRundownProtection_def ExReleaseRundownProtection_def
      ExWaitForRundownProtectionRelease_def winkernel_safe_add_def winkernel_safe_subtract_def winkernel_safe_multiply_def cxplat_safe_add_def
      cxplat_safe_subtract_def cxplat_safe_multiply_def RtlSizeTAdd_def RtlSizeTSub_def RtlSizeTMult_def RtlULongAdd_def safe_status_builds
      winkernel_get_maximum_processor_count_def winkernel_get_active_processor_count_def KeQueryMaximumProcessorCountEx_def
      KeQueryActiveProcessorCountEx_def cxplat_get_maximum_processor_count_def)

end
