(* ===== verification/Fault_Alloc.thy ===== *)
theory Fault_Alloc
  imports Fault_Injection Memory
begin

text \<open>
  The allocator together with the fault injector: \<^verbatim>\<open>cxplat_allocate\<close> of \<^verbatim>\<open>memory_winuser.cpp\<close> asks \<^verbatim>\<open>cxplat_fault_injection_inject_fault\<close>, after
  it has checked the size and before it asks the heap. Theory \<open>Memory\<close> has the answer as an argument; here it is
  the answer of the injector of theory \<open>Fault_Injection\<close>, whose state is threaded through a sequence of allocations.
\<close>

text \<open>A call: the frames of its stack, the block that the heap would return, the back trace of the leak detector and the arguments.\<close>

record allocation_call =
  call_frames :: "u64 list"
  call_block :: ptr
  call_bt :: backtrace
  call_flags :: u32
  call_size :: u64
  call_tag :: u32

definition cxplat_allocate_injected ::
  "dbghelp \<Rightarrow> allocation_call \<Rightarrow> fault_singleton \<times> mem_state \<Rightarrow> (ptr \<times> fault_singleton \<times> mem_state) result" where
  "cxplat_allocate_injected dbg c = (\<lambda>(g, s).
     assert_that (0 < call_size c)
      (if call_size c > fuzzing_memory_limit s then Inr (nullptr, g, s)
       else case cxplat_fault_injection_inject_fault dbg (call_frames c) g of
              Inl e \<Rightarrow> Inl e
            | Inr (fault, g1) \<Rightarrow>
                (case cxplat_allocate fault (call_block c) (call_bt c) (call_flags c) (call_size c) (call_tag c) s of
                   Inl e \<Rightarrow> Inl e | Inr (m, s1) \<Rightarrow> Inr (m, g1, s1))))"

fun allocate_calls ::
  "dbghelp \<Rightarrow> allocation_call list \<Rightarrow> fault_singleton \<times> mem_state \<Rightarrow> (ptr list \<times> fault_singleton \<times> mem_state) result" where
  "allocate_calls dbg [] st = Inr ([], st)"
| "allocate_calls dbg (c # cs) st =
     (case cxplat_allocate_injected dbg c st of
        Inl e \<Rightarrow> Inl e
      | Inr (m, st1) \<Rightarrow>
          (case allocate_calls dbg cs st1 of Inl e \<Rightarrow> Inl e | Inr (ms, st2) \<Rightarrow> Inr (m # ms, st2)))"

section \<open>Paths\<close>

text \<open>The path of a call is the canonical form of its stack, which only depends on the modules under test and the depth.\<close>

definition call_path :: "fault_injection \<Rightarrow> allocation_call \<Rightarrow> u64 list" where
  "call_path i c = (case canonical_stack i (captured (call_frames c)) of Inl _ \<Rightarrow> [] | Inr p \<Rightarrow> p)"

definition injector_ready :: "fault_injection \<Rightarrow> bool" where
  "injector_ready i \<longleftrightarrow> recursion i = 0 \<and> unat (stack_depth i) \<le> CXPLAT_FAULT_STACK_CAPTURE_FRAME_COUNT"

text \<open>A call that the heap can serve.\<close>

definition call_ok :: "u64 \<Rightarrow> allocation_call \<Rightarrow> bool" where
  "call_ok limit c \<longleftrightarrow> call_frames c \<noteq> [] \<and> length (call_frames c) \<le> CXPLAT_FAULT_STACK_CAPTURE_FRAME_COUNT \<and>
     0 < call_size c \<and> call_size c \<le> limit \<and> call_block c \<noteq> nullptr \<and> user_pointer (call_flags c) (call_block c) \<noteq> nullptr"

lemma inject_path:
  assumes "injector_ready i" "call_frames c \<noteq> []" "length (call_frames c) \<le> CXPLAT_FAULT_STACK_CAPTURE_FRAME_COUNT"
  shows "\<exists>i'. inject_fault dbg (call_frames c) i = Inr (call_path i c \<notin> fault_hash i, i') \<and> injector_ready i' \<and>
           call_path i' = call_path i \<and> fault_hash i' = insert (call_path i c) (fault_hash i)"
proof -
  have "length (captured (call_frames c)) = CXPLAT_FAULT_STACK_CAPTURE_FRAME_COUNT" using assms(3) by (simp add: captured_def)
  then have p: "canonical_stack i (captured (call_frames c)) = Inr (call_path i c)"
    using assms(1) by (simp add: canonical_stack_def call_path_def injector_ready_def)
  have "call_path (log_stack_trace dbg x y (i\<lparr>fault_hash := h\<rparr>)) = call_path i" for x y h
    by (simp add: fun_eq_iff call_path_def canonical_stack_def log_stack_trace_def)
  then show ?thesis using assms p
    by (auto simp: inject_fault_def is_new_stack_unguarded injector_ready_def log_stack_trace_def)
qed

lemma allocate_injected_path:
  assumes i: "injector_ready i" and c: "call_ok (fuzzing_memory_limit s) c"
  shows "\<exists>i' s' m. cxplat_allocate_injected dbg c (Some i, s) = Inr (m, Some i', s') \<and> injector_ready i' \<and> call_path i' = call_path i \<and>
           fault_hash i' = insert (call_path i c) (fault_hash i) \<and> fuzzing_memory_limit s' = fuzzing_memory_limit s \<and>
           (if call_path i c \<in> fault_hash i
            then m = user_pointer (call_flags c) (call_block c) \<and>
                 blocks s' = (blocks s)(call_block c \<mapsto> (pointer_offset (call_flags c) + call_size c,
                                          has_flag (call_flags c) CXPLAT_POOL_FLAG_CACHE_ALIGNED))
            else m = nullptr \<and> s' = s)"
proof -
  obtain i' where i': "inject_fault dbg (call_frames c) i = Inr (call_path i c \<notin> fault_hash i, i')" "injector_ready i'"
    "call_path i' = call_path i" "fault_hash i' = insert (call_path i c) (fault_hash i)"
    using inject_path [OF i, of c dbg] c by (auto simp: call_ok_def)
  show ?thesis
  proof (cases "call_path i c \<in> fault_hash i")
    case True
    let ?a = "cxplat_allocate False (call_block c) (call_bt c) (call_flags c) (call_size c) (call_tag c) s"
    have ok: "0 < call_size c" "\<not> fuzzing_memory_limit s < call_size c" "call_block c \<noteq> nullptr" using c by (auto simp: call_ok_def not_less)
    then have "\<exists>s'. ?a = Inr (user_pointer (call_flags c) (call_block c), s')"
      by (simp add: cxplat_allocate_def pointer_defs Let_def)
    then obtain m s' where m: "?a = Inr (m, s')" "m = user_pointer (call_flags c) (call_block c)" by blast
    moreover have "m \<noteq> nullptr" using m(2) c by (simp add: call_ok_def)
    note allocate_success(4) [OF m(1) this]
    ultimately show ?thesis using True i' c
      by (auto simp: cxplat_allocate_injected_def cxplat_fault_injection_inject_fault_def call_ok_def not_less)
  next
    case False
    then show ?thesis using i' c
      by (auto simp: cxplat_allocate_injected_def cxplat_fault_injection_inject_fault_def call_ok_def not_less cxplat_allocate_def)
  qed
qed

lemma served_Cons:
  "{f ((x # xs) ! k) |k. k < length (x # xs) \<and> (y # ys) ! k \<noteq> z} =
   (if y \<noteq> z then {f x} else {}) \<union> {f (xs ! k) |k. k < length xs \<and> ys ! k \<noteq> z}"
proof -
  have "(\<exists>k. a = g k \<and> k < Suc n \<and> P k) \<longleftrightarrow> a = g 0 \<and> P 0 \<or> (\<exists>k. a = g (Suc k) \<and> k < n \<and> P (Suc k))" for a n and g :: "nat \<Rightarrow> 'a" and P
    using less_Suc_eq_0_disj by auto
  from this [of _ "\<lambda>k. f ((x # xs) ! k)" "length xs" "\<lambda>k. (y # ys) ! k \<noteq> z"] show ?thesis by auto
qed

section \<open>Property\<close>

text \<open>
  C12: fault injection fails every call path exactly once and nothing else. Run any sequence of allocations that the heap can
  serve, with the injector on. The \<open>k\<close>-th returns null exactly when its call path was neither known before nor taken by an earlier
  allocation of the sequence, and memory of its own block otherwise; a failed allocation leaves no block behind, so exactly the
  blocks of the others are live; and all paths are known afterwards, so that the same sequence, run again,
  does not fail.
\<close>
theorem allocations_fail_once:
  assumes "injector_ready i" "\<forall>c \<in> set cs. call_ok (fuzzing_memory_limit s) c"
  shows "\<exists>ms i' s'. allocate_calls dbg cs (Some i, s) = Inr (ms, Some i', s') \<and> length ms = length cs \<and>
           (\<forall>k < length cs. ms ! k = (if call_path i (cs ! k) \<notin> fault_hash i \<union> call_path i ` set (take k cs) then nullptr
                                      else user_pointer (call_flags (cs ! k)) (call_block (cs ! k)))) \<and>
           dom (blocks s') = dom (blocks s) \<union> {call_block (cs ! k) |k. k < length cs \<and> ms ! k \<noteq> nullptr} \<and>
           fault_hash i' = fault_hash i \<union> call_path i ` set cs \<and> call_path i' = call_path i \<and> injector_ready i'"
  using assms
proof (induction cs arbitrary: i s)
  case Nil
  then show ?case by simp
next
  case (Cons c cs)
  let ?u = "\<lambda>c. user_pointer (call_flags c) (call_block c)"
  have ok: "?u x \<noteq> nullptr" if "x \<in> set (c # cs)" for x using Cons.prems(2) that by (auto simp: call_ok_def)
  obtain i1 s1 m where s1: "cxplat_allocate_injected dbg c (Some i, s) = Inr (m, Some i1, s1)" "injector_ready i1" "call_path i1 = call_path i"
    "fault_hash i1 = insert (call_path i c) (fault_hash i)" "fuzzing_memory_limit s1 = fuzzing_memory_limit s"
    "m = (if call_path i c \<in> fault_hash i then ?u c else nullptr)"
    "dom (blocks s1) = (if m \<noteq> nullptr then insert (call_block c) (dom (blocks s)) else dom (blocks s))"
    using allocate_injected_path [OF Cons.prems(1), of s c dbg] Cons.prems(2) ok [of c] by (fastforce split: if_splits)
  have "\<forall>c \<in> set cs. call_ok (fuzzing_memory_limit s1) c" using Cons.prems(2) s1(5) by simp
  from Cons.IH [OF s1(2) this, unfolded s1(3,4)] obtain ms i' s' where IH: "allocate_calls dbg cs (Some i1, s1) = Inr (ms, Some i', s')" "length ms = length cs"
    "\<forall>k < length cs. ms ! k = (if call_path i (cs ! k) \<notin> insert (call_path i c) (fault_hash i) \<union> call_path i ` set (take k cs)
        then nullptr else ?u (cs ! k))"
    "dom (blocks s') = dom (blocks s1) \<union> {call_block (cs ! k) |k. k < length cs \<and> ms ! k \<noteq> nullptr}"
    "fault_hash i' = insert (call_path i c) (fault_hash i) \<union> call_path i ` set cs" "call_path i' = call_path i" "injector_ready i'"
    by (elim exE conjE) (rule that; assumption)
  have "(m # ms) ! k = (if call_path i ((c # cs) ! k) \<notin> fault_hash i \<union> call_path i ` set (take k (c # cs)) then nullptr else ?u ((c # cs) ! k))"
    if "k < length (c # cs)" for k
    using that s1(6) IH(3) by (cases k) auto
  moreover have "{call_block ((c # cs) ! k) |k. k < length (c # cs) \<and> (m # ms) ! k \<noteq> nullptr} =
      (if m \<noteq> nullptr then {call_block c} else {}) \<union> {call_block (cs ! k) |k. k < length cs \<and> ms ! k \<noteq> nullptr}"
    by (rule served_Cons)
  ultimately show ?case using s1(1,7) IH by (auto split: if_splits)
qed

definition sample_call :: "u64 \<Rightarrow> ptr \<Rightarrow> allocation_call" where
  "sample_call frame p = \<lparr>call_frames = [frame, 0x900000], call_block = p, call_bt = None, call_flags = 0x40, call_size = 32, call_tag = 5\<rparr>"

theorem allocations_fail_once_witness:
  "\<exists>i' s'. allocate_calls no_symbols [sample_call 0x400010 0x1000, sample_call 0x400010 0x2000, sample_call 0x400020 0x3000]
             (Some sample_injector, sample_heap) = Inr ([nullptr, 0x2010, nullptr], Some i', s') \<and>
           dom (blocks s') = {0x2000} \<and> fault_hash i' = {[0x10], [0x20]}"
proof -
  let ?cs = "[sample_call 0x400010 0x1000, sample_call 0x400010 0x2000, sample_call 0x400020 0x3000]"
  have p: "call_path sample_injector (sample_call 0x400010 x) = [0x10]" "call_path sample_injector (sample_call 0x400020 x) = [0x20]" for x
    by (simp_all add: call_path_def sample_call_def fault_eval)
  have u: "user_pointer (call_flags (sample_call f x)) (call_block (sample_call f x)) = x + 16" for f x
    by (simp add: sample_call_def user_pointer_def pointer_offset_def has_flag_def)
  have r: "injector_ready sample_injector" "fault_hash sample_injector = {}" "blocks sample_heap = Map.empty"
    by (simp_all add: injector_ready_def sample_injector_def CXPLAT_FAULT_STACK_CAPTURE_FRAME_COUNT_def sample_heap_def)
  have "\<forall>c \<in> set ?cs. call_ok (fuzzing_memory_limit sample_heap) c"
    by (simp add: call_ok_def u) (simp add: sample_call_def sample_heap_def CXPLAT_FAULT_STACK_CAPTURE_FRAME_COUNT_def)
  from allocations_fail_once [OF r(1) this, of no_symbols] obtain ms i' s' where R:
    "allocate_calls no_symbols ?cs (Some sample_injector, sample_heap) = Inr (ms, Some i', s')" "length ms = 3"
    "\<forall>k < 3. ms ! k = (if call_path sample_injector (?cs ! k) \<notin> call_path sample_injector ` set (take k ?cs) then nullptr
                       else user_pointer (call_flags (?cs ! k)) (call_block (?cs ! k)))"
    "dom (blocks s') = {call_block (?cs ! k) |k. k < 3 \<and> ms ! k \<noteq> nullptr}" "fault_hash i' = {[0x10], [0x20]}"
    using r(2,3) p by (auto simp: eval_nat_numeral)
  have "ms = [ms ! 0, ms ! 1, ms ! 2]" using R(2) by (auto simp: list_eq_iff_nth_eq less_Suc_eq eval_nat_numeral)
  also have "\<dots> = [nullptr, 0x2010, nullptr]"
    using R(3) [rule_format, of 0] R(3) [rule_format, of 1] R(3) [rule_format, of 2] p u by simp
  finally have ms: "ms = [nullptr, 0x2010, nullptr]" .
  have "{call_block (?cs ! k) |k. k < 3 \<and> ms ! k \<noteq> nullptr} = {0x2000}"
    by (auto simp: ms less_Suc_eq numeral_3_eq_3 sample_call_def intro!: exI [of _ 1])
  then have "dom (blocks s') = {0x2000}" using R(4) by simp
  then show ?thesis using R(1,5) unfolding ms by (intro exI conjI)
qed

end
