(* ===== verification/Forwards.thy ===== *)
theory Forwards
  imports Platform Locks Mdl Security Objects Driver_Dll Pool
begin

text \<open>
  The entry points of the library that answer from one variable, hand a call on, or have nothing to do in user mode: the C names
  of the pool routines, identities of the current thread and process, universally unique identifiers, random numbers, the state of code integrity,
  the translation of statuses by \<^verbatim>\<open>ntdll\<close>, the probe of \<^verbatim>\<open>framework.h\<close>, the small functions of the driver framework, and the routines that
  are no-operations (critical regions, attaching to a process, descriptors that are already locked). What the operating system
  answers is an argument. The functions that do nothing are the identity on the state they could have changed.
\<close>

section \<open>Pool routines\<close>

definition ExAllocatePoolUninitialized ::
  "bool \<Rightarrow> ptr \<Rightarrow> backtrace \<Rightarrow> u32 \<Rightarrow> u64 \<Rightarrow> u32 \<Rightarrow> mem_state \<Rightarrow> (ptr \<times> mem_state) result" where
  "ExAllocatePoolUninitialized fault p bt pool_type number_of_bytes tag s = ExAllocatePoolUninitializedCPP fault p bt pool_type number_of_bytes tag s"

definition ExAllocatePool2 :: "u8 \<Rightarrow> bool \<Rightarrow> ptr \<Rightarrow> backtrace \<Rightarrow> u64 \<Rightarrow> u64 \<Rightarrow> u32 \<Rightarrow> mem_state \<Rightarrow> (ptr \<times> mem_state) result" where
  "ExAllocatePool2 level fault p bt pool_flags number_of_bytes tag s = ExAllocatePool2CPP level fault p bt pool_flags number_of_bytes tag s"

definition ExAllocatePoolWithTag :: "u8 \<Rightarrow> bool \<Rightarrow> ptr \<Rightarrow> backtrace \<Rightarrow> u32 \<Rightarrow> u64 \<Rightarrow> u32 \<Rightarrow> mem_state \<Rightarrow> (ptr \<times> mem_state) result" where
  "ExAllocatePoolWithTag level fault p bt pool_type number_of_bytes tag s = ExAllocatePoolWithTagCPP level fault p bt pool_type number_of_bytes tag s"

definition ExFreePool :: "backtrace \<Rightarrow> ptr \<Rightarrow> mem_state \<Rightarrow> mem_state result" where
  "ExFreePool bt p s = ExFreePoolCPP bt p s"

definition ExFreePoolWithTag :: "backtrace \<Rightarrow> ptr \<Rightarrow> u32 \<Rightarrow> mem_state \<Rightarrow> mem_state result" where
  "ExFreePoolWithTag bt p tag s = ExFreePoolWithTagCPP bt p tag s"

text \<open>The memory of a cache-aware rundown reference is freed; the table of rundown references is not told.\<close>

definition ExFreeCacheAwareRundownProtection :: "backtrace \<Rightarrow> ptr \<Rightarrow> mem_state \<times> rundown_table \<Rightarrow> (mem_state \<times> rundown_table) result" where
  "ExFreeCacheAwareRundownProtection bt RunRefCacheAware = (\<lambda>(s, t).
     case ExFreePool bt RunRefCacheAware s of Inl e \<Rightarrow> Inl e | Inr s1 \<Rightarrow> Inr (s1, t))"

text \<open>So a reference that was freed is still granted, and keeps its entry in the table.\<close>

lemma freed_rundown_still_granted:
  assumes "ExAllocateCacheAwareRundownProtection p t = (p, t1)" "p \<noteq> nullptr" "ExFreeCacheAwareRundownProtection bt p (s, t1) = Inr (s2, t2)"
  shows "\<exists>t3. ExAcquireRundownProtectionCacheAware p t2 = Inr (True, t3)"
  using assms
  by (auto simp: ExAllocateCacheAwareRundownProtection_def ExFreeCacheAwareRundownProtection_def ExAcquireRundownProtectionCacheAware_def
      cxplat_initialize_rundown_protection_def initialize_rundown_ref_def cxplat_acquire_rundown_protection_def acquire_rundown_ref_def Let_def
      split: sum.splits)

section \<open>Locks\<close>

definition ExInitializePushLock :: "'l srw_api \<Rightarrow> ptr \<Rightarrow> 'l lock_state \<Rightarrow> 'l lock_state" where
  "ExInitializePushLock os push_lock s = s\<lparr>srw := (srw s)(push_lock := InitializeSRWLock os)\<rparr>"

definition usersim_lock_destroy :: "ptr \<Rightarrow> 'l lock_state \<Rightarrow> 'l lock_state" where
  "usersim_lock_destroy lock s = s"

section \<open>Identities and numbers\<close>

definition usersim_get_current_thread_id :: "u32 \<Rightarrow> u64" where
  "usersim_get_current_thread_id GetCurrentThreadId = ucast GetCurrentThreadId"

definition KeGetCurrentThread :: "u32 \<Rightarrow> ptr" where
  "KeGetCurrentThread GetCurrentThreadId = usersim_get_current_thread_id GetCurrentThreadId"

definition PsGetCurrentProcessId :: "u32 \<Rightarrow> ptr" where
  "PsGetCurrentProcessId GetCurrentProcessId = ucast GetCurrentProcessId"

definition PsGetCurrentThreadId :: "u32 \<Rightarrow> ptr" where
  "PsGetCurrentThreadId GetCurrentThreadId = ucast GetCurrentThreadId"

definition IoGetCurrentProcess :: "ptr \<Rightarrow> ptr" where
  "IoGetCurrentProcess GetCurrentProcess = GetCurrentProcess"

definition usersim_platform_reference_process :: "ptr \<Rightarrow> ptr" where
  "usersim_platform_reference_process GetCurrentProcess = GetCurrentProcess"

lemma thread_identities:
  "KeGetCurrentThread t = PsGetCurrentThreadId t" "PsGetCurrentThreadId t = PsGetCurrentThreadId t' \<longleftrightarrow> t = t'"
proof -
  have "t = t'" if "ucast t = (ucast t' :: ptr)"
    using arg_cong [OF that, of unat] by (simp add: unat_ucast_32_64 word_unat_eq_iff)
  then show "KeGetCurrentThread t = PsGetCurrentThreadId t" "PsGetCurrentThreadId t = PsGetCurrentThreadId t' \<longleftrightarrow> t = t'"
    by (auto simp: KeGetCurrentThread_def usersim_get_current_thread_id_def PsGetCurrentThreadId_def)
qed

text \<open>A generator is seeded for every number: \<open>rd\<close> is the answer of the random device, \<open>mt19937\<close> the first number of a generator with that seed.\<close>

definition usersim_random_uint32 :: "(u32 \<Rightarrow> u32) \<Rightarrow> u32 \<Rightarrow> u32" where
  "usersim_random_uint32 mt19937 rd = mt19937 rd"

text \<open>\<open>created\<close> is the status of \<^verbatim>\<open>UuidCreate\<close> and the identifier it stores.\<close>

definition ExUuidCreate :: "bool \<Rightarrow> u32 \<times> 128 word \<Rightarrow> ntstatus \<times> 128 word option" where
  "ExUuidCreate fault created =
     (if fault then (STATUS_NOT_SUPPORTED, None)
      else if fst created = 0 then (STATUS_SUCCESS, Some (snd created)) else (STATUS_NOT_SUPPORTED, Some (snd created)))"

lemma uuid_create:
  "fst (ExUuidCreate fault created) = STATUS_SUCCESS \<longleftrightarrow> \<not> fault \<and> fst created = 0"
  "fst (ExUuidCreate fault created) = STATUS_SUCCESS \<Longrightarrow> snd (ExUuidCreate fault created) = Some (snd created)"
  by (auto simp: ExUuidCreate_def)

datatype usersim_code_integrity_state = USERSIM_CODE_INTEGRITY_DEFAULT | USERSIM_CODE_INTEGRITY_HYPERVISOR_KERNEL_MODE

definition usersim_get_code_integrity_state :: "bool \<Rightarrow> ntstatus \<times> usersim_code_integrity_state" where
  "usersim_get_code_integrity_state code_integrity_enabled =
     (STATUS_SUCCESS, if code_integrity_enabled then USERSIM_CODE_INTEGRITY_HYPERVISOR_KERNEL_MODE else USERSIM_CODE_INTEGRITY_DEFAULT)"

text \<open>
  \<^verbatim>\<open>usersim_result_to_win32_error_code\<close> looks the conversion up once and keeps its address, \<open>cached\<close>. \<open>ntdll\<close> and \<open>address\<close> are the answers of
  \<^verbatim>\<open>LoadLibrary\<close> and \<^verbatim>\<open>GetProcAddress\<close>, and \<open>code\<close> is the conversion at an address; a call of a null address is undefined.
\<close>

abbreviation ERROR_OUTOFMEMORY :: u32 where "ERROR_OUTOFMEMORY \<equiv> 14"

definition usersim_result_to_win32_error_code :: "(ptr \<Rightarrow> ntstatus \<Rightarrow> u32) \<Rightarrow> ptr \<Rightarrow> ptr \<Rightarrow> ntstatus \<Rightarrow> ptr \<Rightarrow> (u32 \<times> ptr) result" where
  "usersim_result_to_win32_error_code code ntdll address status cached =
     (if cached = nullptr \<and> ntdll = nullptr then Inr (ERROR_OUTOFMEMORY, cached)
      else let f = (if cached = nullptr then address else cached)
           in if f = nullptr then Inl Out_Of_Bounds else Inr (code f status, f))"

text \<open>Once a conversion has been found it is used for every later status, whatever the loader answers then.\<close>

lemma win32_conversion_cached:
  assumes "usersim_result_to_win32_error_code code ntdll address status cached = Inr (e, f)" "f \<noteq> nullptr"
  shows "e = code f status \<and> usersim_result_to_win32_error_code code ntdll' address' status' f = Inr (code f status', f)"
  using assms by (auto simp: usersim_result_to_win32_error_code_def Let_def split: if_splits)

text \<open>The module of the caller: the captured return address, and the module that the system finds there.\<close>

definition cxplat_get_caller_module :: "u64 option \<Rightarrow> (u64 \<Rightarrow> ptr option) \<Rightarrow> ptr" where
  "cxplat_get_caller_module captured_address module_at =
     (case captured_address of
        None \<Rightarrow> nullptr
      | Some caller_address \<Rightarrow> (case module_at caller_address of None \<Rightarrow> nullptr | Some module_handle \<Rightarrow> module_handle))"

section \<open>Probes and callouts\<close>

text \<open>The probe of \<^verbatim>\<open>framework.h\<close> raises a structured exception; the remainder by zero is undefined.\<close>

definition usersim_probe_for_write :: "ptr \<Rightarrow> u64 \<Rightarrow> u32 \<Rightarrow> unit result" where
  "usersim_probe_for_write address len alignment =
     (if alignment = 0 then Inl Out_Of_Bounds
      else if address mod ucast alignment \<noteq> 0 then Inl (Raised STATUS_DATATYPE_MISALIGNMENT) else Inr ())"

lemma probe_for_write_aligned:
  assumes "alignment \<noteq> 0"
  shows "usersim_probe_for_write address len alignment = Inr () \<longleftrightarrow> unat alignment dvd unat address"
proof -
  have "unat (address mod ucast alignment) = unat address mod unat alignment" by (simp add: unat_mod unat_ucast_32_64)
  then have "address mod ucast alignment = 0 \<longleftrightarrow> unat address mod unat alignment = 0" by (simp add: unat_eq_0 [symmetric])
  then show ?thesis using assms by (auto simp: usersim_probe_for_write_def dvd_eq_mod_eq_0)
qed

text \<open>The callout runs on the stack of its caller.\<close>

definition KeExpandKernelStackAndCalloutEx :: "('p \<Rightarrow> 's \<Rightarrow> 's) \<Rightarrow> 'p \<Rightarrow> u64 \<Rightarrow> bool \<Rightarrow> ptr \<Rightarrow> 's \<Rightarrow> ntstatus \<times> 's" where
  "KeExpandKernelStackAndCalloutEx Callout Parameter Size Wait Context s = (STATUS_SUCCESS, Callout Parameter s)"

section \<open>Descriptors\<close>

text \<open>\<^verbatim>\<open>RtlCreateSecurityDescriptor\<close> clears the 40 bytes of the structure; the access list is not stored.\<close>

definition RtlCreateSecurityDescriptor :: "ptr \<Rightarrow> u32 \<Rightarrow> memory \<Rightarrow> ntstatus \<times> memory" where
  "RtlCreateSecurityDescriptor SecurityDescriptor Revision m = (STATUS_SUCCESS, mem_fill SecurityDescriptor 0 40 m)"

definition RtlSetDaclSecurityDescriptor :: "ptr \<Rightarrow> bool \<Rightarrow> ptr \<Rightarrow> bool \<Rightarrow> memory \<Rightarrow> ntstatus \<times> memory" where
  "RtlSetDaclSecurityDescriptor SecurityDescriptor DaclPresent Dacl DaclDefaulted m = (STATUS_SUCCESS, m)"

definition RtlMapGenericMask :: "u32 \<Rightarrow> u32" where
  "RtlMapGenericMask AccessMask = AccessMask"

text \<open>The mapping that the I/O manager answers for files: read, write and execute are the same right, and the last member is zero.\<close>

definition IoGetFileObjectGenericMapping :: "u32 \<times> u32 \<times> u32 \<times> u32" where
  "IoGetFileObjectGenericMapping = (1, 1, 1, 0)"

definition SeReleaseSubjectContext :: "subject_context \<Rightarrow> subject_context" where
  "SeReleaseSubjectContext subject_context = subject_context"

definition MmBuildMdlForNonPagedPool :: "ptr \<Rightarrow> mdl_state \<Rightarrow> mdl_state" where
  "MmBuildMdlForNonPagedPool memory_descriptor_list s = s"

section \<open>Processes, regions and requests\<close>

definition KeStackAttachProcess :: "ptr \<Rightarrow> 's \<Rightarrow> ptr \<times> 's" where
  "KeStackAttachProcess process s = (nullptr, s)"

definition KeUnstackDetachProcess :: "ptr \<Rightarrow> 's \<Rightarrow> 's" where
  "KeUnstackDetachProcess apc_state s = s"

definition KeShouldYieldProcessor :: bool where
  "KeShouldYieldProcessor = False"

definition KeEnterCriticalRegion :: "'s \<Rightarrow> 's" where "KeEnterCriticalRegion s = s"
definition KeLeaveCriticalRegion :: "'s \<Rightarrow> 's" where "KeLeaveCriticalRegion s = s"
definition usersim_enter_critical_region :: "'s \<Rightarrow> 's" where "usersim_enter_critical_region s = s"
definition usersim_leave_critical_region :: "'s \<Rightarrow> 's" where "usersim_leave_critical_region s = s"
definition usersim_platform_dereference_process :: "ptr \<Rightarrow> 's \<Rightarrow> 's" where "usersim_platform_dereference_process process_handle s = s"
definition usersim_platform_attach_process :: "ptr \<Rightarrow> 's \<Rightarrow> 's" where "usersim_platform_attach_process process_handle s = s"
definition usersim_platform_detach_process :: "'s \<Rightarrow> 's" where "usersim_platform_detach_process s = s"
definition IofCompleteRequest :: "ptr \<Rightarrow> 's \<Rightarrow> 's" where "IofCompleteRequest irp s = s"

text \<open>\<^verbatim>\<open>usersim_log_function\<close> prints its formatted arguments to the console and answers zero.\<close>

definition usersim_log_function :: "(string \<Rightarrow> 'a list \<Rightarrow> string) \<Rightarrow> string \<Rightarrow> 'a list \<Rightarrow> string \<Rightarrow> int \<times> string" where
  "usersim_log_function format format_string arguments console = (0, console @ format format_string arguments)"

section \<open>The driver framework\<close>

record wdf_driver_config =
  wdc_Size :: u32
  wdc_EvtDriverDeviceAdd :: ptr
  wdc_EvtDriverUnload :: ptr
  wdc_DriverInitFlags :: u32
  wdc_DriverPoolTag :: u32

definition WDF_DRIVER_CONFIG_INIT :: "ptr \<Rightarrow> wdf_driver_config" where
  "WDF_DRIVER_CONFIG_INIT evt_driver_device_add =
     \<lparr>wdc_Size = 0, wdc_EvtDriverDeviceAdd = evt_driver_device_add, wdc_EvtDriverUnload = nullptr, wdc_DriverInitFlags = 0, wdc_DriverPoolTag = 0\<rparr>"

definition WdfGetDriver :: "wdf_state \<Rightarrow> ptr" where
  "WdfGetDriver s = wdf_driver s"

definition WdfControlFinishInitializing :: "ptr \<Rightarrow> wdf_state \<Rightarrow> wdf_state" where
  "WdfControlFinishInitializing device s = s"

text \<open>\<open>address\<close> is what \<^verbatim>\<open>GetProcAddress\<close> finds in the module, a function of the framework's state; a missing export is called all the same.\<close>

definition usersim_get_driver_from_module :: "(wdf_state \<Rightarrow> ptr) option \<Rightarrow> wdf_state \<Rightarrow> ptr result" where
  "usersim_get_driver_from_module address s = (case address of None \<Rightarrow> Inl Out_Of_Bounds | Some f \<Rightarrow> Inr (f s))"

text \<open>
  A driver whose configuration comes from \<^verbatim>\<open>WDF_DRIVER_CONFIG_INIT\<close> without a callback is registered, and found both directly and through its module.
\<close>

lemma registered_driver_found:
  assumes "wdf_driver s = nullptr"
  shows "\<exists>s1. WdfDriverCreate code p (globals_addr s) driver (wdc_EvtDriverDeviceAdd (WDF_DRIVER_CONFIG_INIT nullptr)) s = Inr (STATUS_SUCCESS, s1) \<and>
           WdfGetDriver s1 = driver \<and> usersim_get_driver_from_module (Some usersim_dll_get_driver_from_module) s1 = Inr driver"
  using assms
  by (simp add: WdfDriverCreate_def WDF_DRIVER_CONFIG_INIT_def WdfGetDriver_def usersim_get_driver_from_module_def usersim_dll_get_driver_from_module_def Let_def)

end
