(* ===== verification/Dpc_Worker.thy ===== *)
theory Dpc_Worker
  imports Dpc_Queue Irql
begin

text \<open>
  The worker threads of \<^verbatim>\<open>_usersim_emulated_dpc\<close> in \<^verbatim>\<open>src/ke.cpp\<close>, from their start to their end. Theory \<open>Dpc_Queue\<close> has what a worker
  does to its queue and theory \<open>Irql\<close> what it does to the dispatch locks; here the two are one system with the drivers: the worker of a CPU
  dequeues under the mutex of its queue, releases the mutex, waits for the dispatch lock of its CPU, raises its level, runs the routine, releases the lock, lowers its level, and goes back. Between any two
  of these points the other threads run. The program counter of a worker names the point it is at.
\<close>

unbundle bit_operations_syntax

section \<open>The thread of a worker\<close>

text \<open>
  The first lines of the thread for CPU \<open>i\<close>. The results of both calls are ignored. \<^verbatim>\<open>(ULONG_PTR)1 << i\<close> is undefined from 64 on.
\<close>

definition dpc_worker_start :: "irql_os \<Rightarrow> nat \<Rightarrow> nat \<Rightarrow> irql_state \<Rightarrow> irql_state result" where
  "dpc_worker_start os tid i s =
     (case set_current_thread_priority_by_irql os DISPATCH_LEVEL (threads s tid) of
        Inl e \<Rightarrow> Inl e
      | Inr (_, t) \<Rightarrow>
          if i < 64 then Inr (snd (KeSetSystemAffinityThreadEx os tid (push_bit i 1) (upd_thread tid (\<lambda>_. t) s)))
          else Inl Out_Of_Bounds)"

text \<open>The last lines of the thread; the destructor makes the same call in the thread that destroys the object.\<close>

definition dpc_worker_exit :: "irql_os \<Rightarrow> nat \<Rightarrow> irql_state \<Rightarrow> irql_state result" where
  "dpc_worker_exit os tid s =
     (case set_current_thread_priority_by_irql os PASSIVE_LEVEL (threads s tid) of
        Inl e \<Rightarrow> Inl e
      | Inr (_, t) \<Rightarrow> Inr (upd_thread tid (\<lambda>_. t) s))"

datatype worker_pc = Starting | Idle | Calling dpc_event | Locked dpc_event | Running dpc_event | Leaving | Stopped

record dpc_system =
  sys_known :: "ptr set"
  sys_dpcs :: dpc_state
  sys_irql :: irql_state
  workers :: "(nat \<times> worker_pc) list"

definition set_pc :: "nat \<Rightarrow> worker_pc \<Rightarrow> dpc_system \<Rightarrow> dpc_system" where
  "set_pc i pc S = S\<lparr>workers := (workers S)[i := (fst (workers S ! i), pc)]\<rparr>"

text \<open>
  The thread from one point to the next: \<open>Blocks\<close> is the wait for the condition variable or for the dispatch lock. From \<open>Running\<close> the routine
  has returned.
\<close>

definition worker_step :: "irql_os \<Rightarrow> nat \<Rightarrow> dpc_system \<Rightarrow> dpc_system outcome result" where
  "worker_step os i S =
     (let tid = fst (workers S ! i); s = sys_irql S in
      case snd (workers S ! i) of
        Starting \<Rightarrow> (case dpc_worker_start os tid i s of
                       Inl e \<Rightarrow> Inl e | Inr s' \<Rightarrow> Inr (Returns (set_pc i Idle (S\<lparr>sys_irql := s'\<rparr>))))
      | Idle \<Rightarrow> (case dpc_thread_step (emulated_dpcs (sys_dpcs S) ! i) (sys_dpcs S) of
                   (Waits, d) \<Rightarrow> Inr Blocks
                 | (Exited, d) \<Rightarrow> (case dpc_worker_exit os tid s of
                                     Inl e \<Rightarrow> Inl e | Inr s' \<Rightarrow> Inr (Returns (set_pc i Stopped (S\<lparr>sys_irql := s'\<rparr>))))
                 | (Flushed, d) \<Rightarrow> Inr (Returns (S\<lparr>sys_dpcs := d\<rparr>))
                 | (e, d) \<Rightarrow> Inr (Returns (set_pc i (Calling e) (S\<lparr>sys_dpcs := d\<rparr>))))
      | Calling e \<Rightarrow> (case dpc_worker_lock tid (word_of_nat i) s of
                        Inl x \<Rightarrow> Inl x
                      | Inr Blocks \<Rightarrow> Inr Blocks
                      | Inr (Returns s') \<Rightarrow> Inr (Returns (set_pc i (Locked e) (S\<lparr>sys_irql := s'\<rparr>))))
      | Locked e \<Rightarrow> Inr (Returns (set_pc i (Running e) (S\<lparr>sys_irql := dpc_worker_raise tid s\<rparr>)))
      | Running e \<Rightarrow> (case dpc_worker_unlock tid (word_of_nat i) s of
                        Inl x \<Rightarrow> Inl x | Inr s' \<Rightarrow> Inr (Returns (set_pc i Leaving (S\<lparr>sys_irql := s'\<rparr>))))
      | Leaving \<Rightarrow> Inr (Returns (set_pc i Idle (S\<lparr>sys_irql := dpc_worker_lower tid s\<rparr>)))
      | Stopped \<Rightarrow> Inr Blocks)"

text \<open>
  The destructor up to its \<^verbatim>\<open>thread.join()\<close>, called by a thread \<open>tid\<close>; the join returns when the worker has stopped.
\<close>

definition dpc_destroy_begin :: "irql_os \<Rightarrow> nat \<Rightarrow> nat \<Rightarrow> dpc_system \<Rightarrow> dpc_system result" where
  "dpc_destroy_begin os tid i S =
     (case dpc_worker_exit os tid (sys_irql S) of
        Inl e \<Rightarrow> Inl e
      | Inr s' \<Rightarrow> Inr (S\<lparr>sys_irql := s', sys_dpcs := (sys_dpcs S)\<lparr>emulated_dpcs :=
                          (emulated_dpcs (sys_dpcs S))[i := emulated_dpc_destroy (emulated_dpcs (sys_dpcs S) ! i)]\<rparr>\<rparr>))"

definition dpc_join_done :: "nat \<Rightarrow> dpc_system \<Rightarrow> bool" where
  "dpc_join_done i S \<longleftrightarrow> snd (workers S ! i) = Stopped"

section \<open>The system of workers and drivers\<close>

text \<open>
  A driver thread makes the calls of theories \<open>Irql\<close> and \<open>Dpc_Queue\<close>, and so does a routine that a worker runs. A driver or the library destroys a queue. The relation has the rules
  that the callers keep as parameters. A routine has to keep those of \<open>Irql\<close> and to stay at \<^verbatim>\<open>DISPATCH_LEVEL\<close> or above; that a routine
  returns at the level at which it was called is what the kernel documents for a DPC. (\<open>dpc_call\<close> has the rules for DPCs: no DPC is initialized again while it is queued, and
  no second flush of a queue starts while one waits.)
\<close>

definition routine_rules :: call_rules where
  "routine_rules s tid a \<longleftrightarrow> driver_rules s tid a \<and>
     (case a of Raise_Irql n \<Rightarrow> DISPATCH_LEVEL \<le> n | Lower_Irql n \<Rightarrow> DISPATCH_LEVEL \<le> n | _ \<Rightarrow> True)"

inductive system_step :: "call_rules \<Rightarrow> call_rules \<Rightarrow> processor_config \<Rightarrow> irql_os \<Rightarrow> dpc_system \<Rightarrow> dpc_system \<Rightarrow> bool"
  for driver routine c os where
  sys_worker: "i < length (workers S) \<Longrightarrow> worker_step os i S = Inr (Returns S') \<Longrightarrow> system_step driver routine c os S S'"
| sys_driver: "tid \<notin> fst ` set (workers S) \<Longrightarrow> driver (sys_irql S) tid a \<Longrightarrow> irql_call c os tid a (sys_irql S) s' \<Longrightarrow>
     system_step driver routine c os S (S\<lparr>sys_irql := s'\<rparr>)"
| sys_routine: "i < length (workers S) \<Longrightarrow> workers S ! i = (tid, Running e) \<Longrightarrow> routine (sys_irql S) tid a \<Longrightarrow>
     irql_call c os tid a (sys_irql S) s' \<Longrightarrow> system_step driver routine c os S (S\<lparr>sys_irql := s'\<rparr>)"
| sys_dpc: "dpc_call (sys_known S, sys_dpcs S) (D, d) \<Longrightarrow> system_step driver routine c os S (S\<lparr>sys_known := D, sys_dpcs := d\<rparr>)"
| sys_destroy: "tid \<notin> fst ` set (workers S) \<Longrightarrow> i < length (workers S) \<Longrightarrow>
     dpc_destroy_begin os tid i S = Inr S' \<Longrightarrow> system_step driver routine c os S S'"

text \<open>
  At the beginning no thread has raised its level or set an affinity, \<^verbatim>\<open>usersim_initialize_dpcs\<close> has built one queue for each processor, and the threads of
  the workers are about to start.
\<close>

definition system_init :: "processor_config \<Rightarrow> dpc_system \<Rightarrow> bool" where
  "system_init c S \<longleftrightarrow>
     irql_init c (sys_irql S) \<and>
     (\<forall>tid. group_affinity_cache (threads (sys_irql S) tid) = \<lparr>ga_Mask = 0, ga_Group = 0\<rparr>) \<and>
     sys_known S = {} \<and>
     (\<exists>nodes s. emulated_dpcs s = [] \<and> distinct (map fst nodes @ map snd nodes) \<and> length nodes = unat (config_count c) \<and>
              sys_dpcs S = usersim_initialize_dpcs nodes s) \<and>
     length (workers S) = unat (config_count c) \<and> distinct (map fst (workers S)) \<and> (\<forall>w \<in> set (workers S). snd w = Starting)"

inductive system_reachable :: "call_rules \<Rightarrow> call_rules \<Rightarrow> processor_config \<Rightarrow> irql_os \<Rightarrow> dpc_system \<Rightarrow> bool"
  for driver routine c os where
  init: "system_init c S \<Longrightarrow> system_reachable driver routine c os S"
| step: "system_reachable driver routine c os S \<Longrightarrow> system_step driver routine c os S S' \<Longrightarrow> system_reachable driver routine c os S'"

section \<open>Systems with one processor group\<close>

definition single_group :: "processor_config \<Rightarrow> bool" where
  "single_group = (\<lambda>(cnt, n, tot). n = 1)"

definition cpu :: "nat \<Rightarrow> processor_number" where
  "cpu i = \<lparr>pn_Group = 0, pn_Number = word_of_nat i\<rparr>"

lemma single_group_cpu:
  assumes "config_ok c" "single_group c" "i < unat (config_count c)"
  shows "i < 64" "processor_exists c (cpu i)" "KeGetProcessorIndexFromNumber (config_map c) (cpu i) = Inr (word_of_nat i)"
    "unat (word_of_nat i :: u32) = i" "processor_affinity (cpu i) = \<lparr>ga_Mask = push_bit i 1, ga_Group = 0\<rparr>"
proof -
  obtain cnt tot where c: "c = (cnt, 1, tot)" "unat tot = unat (cnt 0)" "unat (cnt 0) \<le> 64"
    using assms(1,2) by (cases c) (auto simp: config_ok_def single_group_def processor_counts_ok_def)
  show i: "i < 64" using assms(3) c by (simp add: config_count_def)
  have n: "unat (word_of_nat i :: u8) = i" using i by (simp add: unat_of_nat take_bit_nat_eq_self)
  show "unat (word_of_nat i :: u32) = i" using i by (simp add: unat_of_nat take_bit_nat_eq_self)
  show "processor_exists c (cpu i)" using n assms(3) c by (simp add: processor_exists_def cpu_def config_count_def)
  show "processor_affinity (cpu i) = \<lparr>ga_Mask = push_bit i 1, ga_Group = 0\<rparr>" using n by (simp add: processor_affinity_def cpu_def)
  obtain idx where "KeGetProcessorIndexFromNumber (config_map c) (cpu i) = Inr idx" "unat idx = i"
    using index_from_number_in_group [of cnt 1 tot 0 i] assms(1,3) c
    by (auto simp: config_ok_def config_map_def config_count_def cpu_def)
  then show "KeGetProcessorIndexFromNumber (config_map c) (cpu i) = Inr (word_of_nat i)"
    by auto
qed

section \<open>What a call leaves alone\<close>

text \<open>A raised thread that keeps the rules of a routine stays raised and where it is, with its lock.\<close>

lemma irql_call_raised:
  assumes "irql_call c os tid a s s'" "routine_rules s tid a" "raised tid s"
  shows "os_affinity (threads s' tid) = os_affinity (threads s tid)" "dispatch_locks s' = dispatch_locks s" "raised tid s'"
  using assms
proof (atomize (full), induction rule: irql_call.induct)
  case (call_raise s p new_irql old_irql s')
  from call_raise(3) show ?case
    by (cases rule: raise_begin_cases) (use call_raise(4,5) in \<open>auto simp: raised_def KeGetCurrentIrql_def routine_rules_def\<close>)
next
  case (call_lower s p new_irql s')
  from call_lower(3) show ?case
    by (cases rule: lower_begin_cases) (use call_lower(4,5) in \<open>auto simp: raised_def KeGetCurrentIrql_def routine_rules_def\<close>)
next
  case (call_affinity s m)
  then show ?case by (auto simp: raised_def KeGetCurrentIrql_def KeSetSystemAffinityThreadEx_def Let_def)
next
  case (call_revert s m)
  then show ?case by (auto simp: raised_def KeGetCurrentIrql_def KeRevertToUserAffinityThreadEx_def KeSetSystemAffinityThreadEx_def Let_def)
qed (auto simp: raised_def KeGetCurrentIrql_def routine_rules_def driver_rules_def spin_lock_frame(3) dest: spin_lock_frame(1,2))

lemma initialize_dpcs_cpus: "length (emulated_dpcs (usersim_initialize_dpcs nodes s)) = length (emulated_dpcs s) + length nodes"
  by (simp add: initialize_dpcs_queues)

lemma dpc_call_cpus: "dpc_call (D, s) (D', t) \<Longrightarrow> emulated_dpcs t = emulated_dpcs s"
  by (elim dpc_callE)
    (auto simp: KeInitializeDpc_def KeSetTargetProcessorDpc_def KeInsertQueueDpc_def dpc_insert_def KeRemoveQueueDpc_def dpc_remove_def
      flush_queue_begin_def Let_def split: sum.splits if_splits)

lemma dpc_thread_step_cpus: "dpc_thread_step q s = (e, t) \<Longrightarrow> emulated_dpcs t = emulated_dpcs s"
  by (auto simp: dpc_thread_step_def Let_def split: if_splits prod.splits)

lemma dpc_thread_step_event:
  assumes "dpc_thread_step q s = (e, d)"
  shows "e = Exited \<longleftrightarrow> terminate q" "e = Waits \<longleftrightarrow> \<not> terminate q \<and> usersim_list_is_empty (head q) (entries s)"
    "e = Exited \<Longrightarrow> d = s"
  using assms by (auto simp: dpc_thread_step_def Let_def split: if_splits prod.splits)

text \<open>The calls that set the priority leave everything else.\<close>

lemma priority_by_irql_frame:
  assumes "set_current_thread_priority_by_irql os n t = Inr (ok, t')"
  shows "current_irql t' = current_irql t" "os_affinity t' = os_affinity t" "group_affinity_cache t' = group_affinity_cache t"
    "irql_pc t' = irql_pc t"
  using assms
  by (auto simp: set_current_thread_priority_by_irql_def usersim_set_current_thread_priority_def split: if_splits sum.splits)

lemma priority_by_irql_total: "n \<le> DISPATCH_LEVEL \<Longrightarrow> \<exists>ok t'. set_current_thread_priority_by_irql os n t = Inr (ok, t')"
  by (auto simp: set_current_thread_priority_by_irql_def usersim_set_current_thread_priority_def get_irql_thread_priority_def
      irql_thread_priority_def)

lemma dpc_worker_exit_ok:
  obtains t' where "dpc_worker_exit os tid s = Inr (upd_thread tid (\<lambda>_. t') s)" "current_irql t' = current_irql (threads s tid)"
    "os_affinity t' = os_affinity (threads s tid)" "group_affinity_cache t' = group_affinity_cache (threads s tid)"
    "irql_pc t' = irql_pc (threads s tid)"
proof -
  obtain ok t' where "set_current_thread_priority_by_irql os PASSIVE_LEVEL (threads s tid) = Inr (ok, t')"
    using priority_by_irql_total [of PASSIVE_LEVEL os "threads s tid"] by auto
  then show ?thesis using priority_by_irql_frame that [of t'] by (auto simp: dpc_worker_exit_def)
qed

section \<open>The invariant of the system\<close>

text \<open>
  Once a worker has started it is pinned to its processor. From taking the dispatch lock of the processor to releasing it, it owns it, and it is raised while it runs
  a routine.
\<close>

definition worker_ok :: "processor_config \<Rightarrow> irql_state \<Rightarrow> nat \<Rightarrow> nat \<times> worker_pc \<Rightarrow> bool" where
  "worker_ok c s i w \<longleftrightarrow>
     (let tid = fst w; t = threads s tid; own = (dispatch_locks s ! i = Some tid) in
      (snd w \<noteq> Starting \<longrightarrow> pinned_to c t (cpu i)) \<and>
      (case snd w of
         Starting \<Rightarrow> irql_pc t = At_Rest \<and> current_irql t = PASSIVE_LEVEL \<and> group_affinity_cache t = \<lparr>ga_Mask = 0, ga_Group = 0\<rparr> \<and> \<not> own
       | Locked e \<Rightarrow> irql_pc t = Dpc_Locked \<and> own
       | Running e \<Rightarrow> raised tid s \<and> own
       | Leaving \<Rightarrow> irql_pc t = Unlocked PASSIVE_LEVEL \<and> \<not> own
       | _ \<Rightarrow> irql_pc t = At_Rest \<and> current_irql t = PASSIVE_LEVEL \<and> \<not> own))"

lemma worker_ok_simps [simp]:
  "worker_ok c s i (tid, Starting) \<longleftrightarrow> irql_pc (threads s tid) = At_Rest \<and> current_irql (threads s tid) = PASSIVE_LEVEL \<and>
     group_affinity_cache (threads s tid) = \<lparr>ga_Mask = 0, ga_Group = 0\<rparr> \<and> dispatch_locks s ! i \<noteq> Some tid"
  "worker_ok c s i (tid, Locked e) \<longleftrightarrow> pinned_to c (threads s tid) (cpu i) \<and> irql_pc (threads s tid) = Dpc_Locked \<and> dispatch_locks s ! i = Some tid"
  "worker_ok c s i (tid, Running e) \<longleftrightarrow> pinned_to c (threads s tid) (cpu i) \<and> raised tid s \<and> dispatch_locks s ! i = Some tid"
  "worker_ok c s i (tid, Leaving) \<longleftrightarrow> pinned_to c (threads s tid) (cpu i) \<and> irql_pc (threads s tid) = Unlocked PASSIVE_LEVEL \<and>
     dispatch_locks s ! i \<noteq> Some tid"
  "worker_ok c s i (tid, Idle) \<longleftrightarrow> pinned_to c (threads s tid) (cpu i) \<and> irql_pc (threads s tid) = At_Rest \<and>
     current_irql (threads s tid) = PASSIVE_LEVEL \<and> dispatch_locks s ! i \<noteq> Some tid"
  "worker_ok c s i (tid, Calling e) \<longleftrightarrow> worker_ok c s i (tid, Idle)"
  "worker_ok c s i (tid, Stopped) \<longleftrightarrow> worker_ok c s i (tid, Idle)"
  by (simp_all add: worker_ok_def Let_def)

definition system_inv :: "processor_config \<Rightarrow> dpc_system \<Rightarrow> bool" where
  "system_inv c S \<longleftrightarrow>
     irql_inv c (sys_irql S) \<and> length (workers S) = unat (config_count c) \<and>
     length (emulated_dpcs (sys_dpcs S)) = unat (config_count c) \<and> distinct (map fst (workers S)) \<and>
     (\<forall>i < length (workers S). worker_ok c (sys_irql S) i (workers S ! i))"

lemma worker_ok_other:
  assumes "worker_ok c s i w" "only_thread tid s s'" "fst w \<noteq> tid" "i < length (dispatch_locks s)"
  shows "worker_ok c s' i w"
  using assms by (cases w; cases "snd w") (simp_all add: only_thread_def raised_def KeGetCurrentIrql_def)

text \<open>A step of a thread that is no worker, and a step of a worker.\<close>

lemma system_inv_driver:
  assumes "system_inv c S" "tid \<notin> fst ` set (workers S)" "only_thread tid (sys_irql S) s'" "irql_inv c s'"
    and "length (emulated_dpcs d) = length (emulated_dpcs (sys_dpcs S))"
  shows "system_inv c (S\<lparr>sys_irql := s', sys_dpcs := d\<rparr>)"
proof -
  have "worker_ok c s' k (workers S ! k)" if k: "k < length (workers S)" for k
  proof (rule worker_ok_other [OF _ assms(3)])
    show "fst (workers S ! k) \<noteq> tid" using assms(2) nth_mem [OF k] by force
  qed (use assms(1) k in \<open>auto simp: system_inv_def irql_inv_def\<close>)
  then show ?thesis using assms by (simp add: system_inv_def)
qed

lemma system_inv_worker:
  assumes inv: "system_inv c S" and i: "i < length (workers S)" and o: "only_thread (fst (workers S ! i)) (sys_irql S) s'"
    and s': "irql_inv c s'" "worker_ok c s' i (fst (workers S ! i), pc)"
    and d: "length (emulated_dpcs d) = length (emulated_dpcs (sys_dpcs S))"
  shows "system_inv c (set_pc i pc (S\<lparr>sys_irql := s', sys_dpcs := d\<rparr>))"
proof -
  have "worker_ok c s' k (workers S ! k)" if k: "k < length (workers S)" "k \<noteq> i" for k
  proof (rule worker_ok_other [OF _ o])
    show "worker_ok c (sys_irql S) k (workers S ! k)" "k < length (dispatch_locks (sys_irql S))"
      using inv k by (auto simp: system_inv_def irql_inv_def)
    show "fst (workers S ! k) \<noteq> fst (workers S ! i)"
      using inv k i nth_eq_iff_index_eq [of "map fst (workers S)" k i] by (auto simp: system_inv_def)
  qed
  moreover have "map fst ((workers S)[i := (fst (workers S ! i), pc)]) = map fst (workers S)"
    using i by (simp add: map_update list_update_same_conv)
  ultimately show ?thesis using assms by (auto simp: system_inv_def set_pc_def nth_list_update)
qed
section \<open>Every step keeps the invariant\<close>

text \<open>The operating system accepts the affinity to any processor that exists.\<close>

definition os_accepts :: "processor_config \<Rightarrow> irql_os \<Rightarrow> bool" where
  "os_accepts c os \<longleftrightarrow> (\<forall>p. processor_exists c p \<longrightarrow> set_affinity_ok os (processor_affinity p))"

lemma worker_start_ok:
  assumes c: "config_ok c" "single_group c" "os_accepts c os" "i < unat (config_count c)"
    and t: "irql_pc (threads s tid) = At_Rest" "current_irql (threads s tid) = PASSIVE_LEVEL" "group_affinity_cache (threads s tid) = \<lparr>ga_Mask = 0, ga_Group = 0\<rparr>"
  obtains t' where "dpc_worker_start os tid i s = Inr (upd_thread tid (\<lambda>_. t') s)" "pinned_to c t' (cpu i)"
    "current_irql t' = PASSIVE_LEVEL" "cache_ok c t'" "irql_pc t' = At_Rest"
proof -
  note cpu = single_group_cpu [OF c(1,2,4)]
  let ?a = "\<lparr>ga_Mask = push_bit i 1, ga_Group = 0 :: u16\<rparr>"
  obtain ok t1 where p: "set_current_thread_priority_by_irql os DISPATCH_LEVEL (threads s tid) = Inr (ok, t1)"
    using priority_by_irql_total [of DISPATCH_LEVEL os "threads s tid"] by auto
  note t1 = priority_by_irql_frame [OF p, unfolded t]
  have a: "push_bit i 1 \<noteq> (0 :: u64)" "set_affinity_ok os ?a"
    using mask_processor_affinity [OF c(1) cpu(2)] c(3) cpu(2,5) by (auto simp: os_accepts_def)
  let ?t' = "t1\<lparr>os_affinity := ?a, group_affinity_cache := ?a\<rparr>"
  have "dpc_worker_start os tid i s = Inr (upd_thread tid (\<lambda>_. ?t') s)"
    using p t1 a cpu(1)
    by (simp add: dpc_worker_start_def KeSetSystemAffinityThreadEx_def usersim_set_current_thread_affinity_def KeGetCurrentIrql_def Let_def
        upd_thread_def)
  then show ?thesis using that t1 cpu(2,5) by (auto simp: pinned_to_def cache_ok_def)
qed

text \<open>The setting of the lemmas below: one processor group, and an operating system that knows its processors.\<close>

definition worker_setting :: "processor_config \<Rightarrow> irql_os \<Rightarrow> bool" where
  "worker_setting c os \<longleftrightarrow> config_ok c \<and> single_group c \<and> group_map os = config_map c \<and> os_accepts c os"

lemma system_invD:
  assumes "system_inv c S" "i < length (workers S)"
  shows "irql_inv c (sys_irql S)" "i < unat (config_count c)" "i < length (dispatch_locks (sys_irql S))"
    "i < length (emulated_dpcs (sys_dpcs S))" "worker_ok c (sys_irql S) i (workers S ! i)"
  using assms by (auto simp: system_inv_def irql_inv_def)

lemma start_step:
  assumes c: "worker_setting c os" and inv: "system_inv c S" and i: "i < length (workers S)" and w: "workers S ! i = (tid, Starting)"
  shows "\<exists>S'. worker_step os i S = Inr (Returns S') \<and> workers S' = (workers S)[i := (tid, Idle)] \<and>
           sys_dpcs S' = sys_dpcs S \<and> system_inv c S'"
proof -
  note I = system_invD [OF inv i]
  have t: "irql_pc (threads (sys_irql S) tid) = At_Rest" "current_irql (threads (sys_irql S) tid) = PASSIVE_LEVEL" "group_affinity_cache (threads (sys_irql S) tid) = \<lparr>ga_Mask = 0, ga_Group = 0\<rparr>"
      "dispatch_locks (sys_irql S) ! i \<noteq> Some tid"
    using I(5) w by simp_all
  obtain t' where s: "dpc_worker_start os tid i (sys_irql S) = Inr (upd_thread tid (\<lambda>_. t') (sys_irql S))" "pinned_to c t' (cpu i)"
      "current_irql t' = PASSIVE_LEVEL" "cache_ok c t'" "irql_pc t' = At_Rest"
    using worker_start_ok [OF _ _ _ I(2) t(1-3)] c by (auto simp: worker_setting_def)
  let ?s' = "upd_thread tid (\<lambda>_. t') (sys_irql S)"
  have "irql_inv c ?s'" by (rule inv_local [OF I(1)]) (use s(3-5) in \<open>simp add: thread_ok_def\<close>)
  then have "system_inv c (set_pc i Idle (S\<lparr>sys_irql := ?s', sys_dpcs := sys_dpcs S\<rparr>))"
    using s t w by (intro system_inv_worker [OF inv i]) simp_all
  then show ?thesis using s(1) w by (simp add: worker_step_def Let_def set_pc_def)
qed

text \<open>The worker at its loop: it stops, or takes the next entry of its queue, or waits.\<close>

lemma idle_step:
  assumes inv: "system_inv c S" and i: "i < length (workers S)" and w: "workers S ! i = (tid, Idle)"
    and q: "q = emulated_dpcs (sys_dpcs S) ! i"
  shows "if terminate q then \<exists>S'. worker_step os i S = Inr (Returns S') \<and> workers S' = (workers S)[i := (tid, Stopped)] \<and>
           sys_dpcs S' = sys_dpcs S \<and> system_inv c S'
         else if usersim_list_is_empty (head q) (entries (sys_dpcs S)) then worker_step os i S = Inr Blocks
         else \<exists>S' pc. worker_step os i S = Inr (Returns S') \<and> workers S' = (workers S)[i := (tid, pc)] \<and>
                (pc = Idle \<or> (\<exists>e. pc = Calling e)) \<and> system_inv c S'"
proof -
  note I = system_invD [OF inv i]
  have ok: "worker_ok c (sys_irql S) i (tid, Idle)" using I(5) w by simp
  obtain e d where e: "dpc_thread_step q (sys_dpcs S) = (e, d)" by (metis prod.exhaust)
  have keep: "system_inv c (set_pc i pc (S\<lparr>sys_irql := sys_irql S, sys_dpcs := d\<rparr>))" if "worker_ok c (sys_irql S) i (tid, pc)" for pc
    using I(1) that w dpc_thread_step_cpus [OF e] by (intro system_inv_worker [OF inv i]) (simp_all add: only_thread_def)
  have exit: "dpc_worker_exit os tid (sys_irql S) = Inr (sys_irql S)"
    using ok by (simp add: dpc_worker_exit_def set_current_thread_priority_by_irql_def upd_thread_def)
  have same: "workers S = (workers S)[i := (tid, Idle)]" using w by (metis list_update_id)
  note ev = dpc_thread_step_event [OF e]
  show ?thesis
  proof (cases e)
    case (Ran d' r x a b)
    then show ?thesis using ev e q w keep [of "Calling e"] ok by (auto simp: worker_step_def Let_def set_pc_def)
  next
    case Flushed
    then show ?thesis using ev e q w keep [OF ok] same by (auto simp: worker_step_def Let_def set_pc_def)
  next
    case Exited
    then show ?thesis using ev e q w keep [of Stopped] ok exit by (auto simp: worker_step_def Let_def set_pc_def)
  next
    case Waits
    then show ?thesis using ev e q w by (simp add: worker_step_def Let_def)
  qed
qed
text \<open>Taking the lock waits exactly while another thread has the dispatch lock of the processor; the other three steps around a routine never fail.\<close>

lemma lock_step:
  assumes c: "worker_setting c os" and inv: "system_inv c S" and i: "i < length (workers S)" and w: "workers S ! i = (tid, Calling e)"
  shows "if dispatch_locks (sys_irql S) ! i \<noteq> None then worker_step os i S = Inr Blocks
         else \<exists>S'. worker_step os i S = Inr (Returns S') \<and> workers S' = (workers S)[i := (tid, Locked e)] \<and>
           sys_dpcs S' = sys_dpcs S \<and> system_inv c S'"
proof -
  note I = system_invD [OF inv i]
  note cpu = single_group_cpu [of c i] c [unfolded worker_setting_def]
  have u: "unat (word_of_nat i :: u32) = i" and p: "pinned_to c (threads (sys_irql S) tid) (cpu i)"
      "KeGetProcessorIndexFromNumber (config_map c) (cpu i) = Inr (word_of_nat i)"
    using I w cpu by auto
  show ?thesis
  proof (cases "dispatch_locks (sys_irql S) ! i")
    case None
    then obtain s' where e: "dpc_worker_lock tid (word_of_nat i) (sys_irql S) = Inr (Returns s')"
      using I(3) u by (simp add: dpc_worker_lock_def lock_dispatch_def)
    note R = dpc_worker_lock_Returns [OF e, unfolded u]
    have o: "only_thread tid (sys_irql S) s'" unfolding R(3)
      using only_thread_lock I(3) None by blast
    have "system_inv c (set_pc i (Locked e) (S\<lparr>sys_irql := s', sys_dpcs := sys_dpcs S\<rparr>))"
      using p(1) dpc_lock_inv [OF I(1) p e] o w I(3) by (intro system_inv_worker [OF inv i]) (auto simp: R(3))
    then show ?thesis using None e w by (simp add: worker_step_def Let_def set_pc_def)
  next
    case (Some t)
    then show ?thesis using I(3) u w by (simp add: worker_step_def Let_def dpc_worker_lock_def lock_dispatch_def)
  qed
qed

lemma raise_step:
  assumes inv: "system_inv c S" and i: "i < length (workers S)" and w: "workers S ! i = (tid, Locked e)"
  shows "\<exists>S'. worker_step os i S = Inr (Returns S') \<and> workers S' = (workers S)[i := (tid, Running e)] \<and>
           sys_dpcs S' = sys_dpcs S \<and> system_inv c S'"
proof -
  note I = system_invD [OF inv i]
  have ok: "worker_ok c (sys_irql S) i (tid, Locked e)" using I(5) w by simp
  have o: "only_thread tid (sys_irql S) (dpc_worker_raise tid (sys_irql S))" by (simp add: dpc_worker_raise_def)
  have "system_inv c (set_pc i (Running e) (S\<lparr>sys_irql := dpc_worker_raise tid (sys_irql S), sys_dpcs := sys_dpcs S\<rparr>))"
    using o dpc_raise_inv [OF I(1), of tid] ok w
    by (intro system_inv_worker [OF inv i]) (auto simp: dpc_worker_raise_def raised_def KeGetCurrentIrql_def)
  then show ?thesis using w by (simp add: worker_step_def Let_def set_pc_def)
qed

lemma unlock_step:
  assumes c: "worker_setting c os" and inv: "system_inv c S" and i: "i < length (workers S)" and w: "workers S ! i = (tid, Running e)"
  shows "\<exists>S'. worker_step os i S = Inr (Returns S') \<and> workers S' = (workers S)[i := (tid, Leaving)] \<and>
           sys_dpcs S' = sys_dpcs S \<and> system_inv c S'"
proof -
  note I = system_invD [OF inv i]
  have u: "unat (word_of_nat i :: u32) = i" using I(2) single_group_cpu(4) [of c i] c by (simp add: worker_setting_def)
  have own: "dispatch_locks (sys_irql S) ! i = Some tid" "pinned_to c (threads (sys_irql S) tid) (cpu i)" using I(5) w by simp_all
  obtain s' where e: "dpc_worker_unlock tid (word_of_nat i) (sys_irql S) = Inr s'"
    using own I(3) u by (simp add: dpc_worker_unlock_def unlock_dispatch_def)
  note R = dpc_worker_unlock_Inr [OF e, unfolded u]
  have o: "only_thread tid (sys_irql S) s'" unfolding R(2) using only_thread_unlock own(1) by blast
  have "system_inv c (set_pc i Leaving (S\<lparr>sys_irql := s', sys_dpcs := sys_dpcs S\<rparr>))"
    using own I(3) dpc_unlock_inv [OF I(1) e] o w by (intro system_inv_worker [OF inv i]) (auto simp: R(2))
  then show ?thesis using e w by (simp add: worker_step_def Let_def set_pc_def)
qed

lemma lower_step:
  assumes inv: "system_inv c S" and i: "i < length (workers S)" and w: "workers S ! i = (tid, Leaving)"
  shows "\<exists>S'. worker_step os i S = Inr (Returns S') \<and> workers S' = (workers S)[i := (tid, Idle)] \<and>
           sys_dpcs S' = sys_dpcs S \<and> system_inv c S'"
proof -
  note I = system_invD [OF inv i]
  have ok: "worker_ok c (sys_irql S) i (tid, Leaving)" using I(5) w by simp
  have o: "only_thread tid (sys_irql S) (dpc_worker_lower tid (sys_irql S))" by (simp add: dpc_worker_lower_def)
  have "system_inv c (set_pc i Idle (S\<lparr>sys_irql := dpc_worker_lower tid (sys_irql S), sys_dpcs := sys_dpcs S\<rparr>))"
    using o dpc_lower_inv [OF I(1), of tid] ok w
    by (intro system_inv_worker [OF inv i]) (auto simp: dpc_worker_lower_def)
  then show ?thesis using w by (simp add: worker_step_def Let_def set_pc_def)
qed

lemma worker_step_inv:
  assumes c: "worker_setting c os" and inv: "system_inv c S" and i: "i < length (workers S)"
    and e: "worker_step os i S = Inr (Returns S')"
  shows "system_inv c S'"
proof (cases "workers S ! i")
  case (Pair tid pc)
  show ?thesis
  proof (cases pc)
    case Starting
    then show ?thesis using start_step [OF c inv i] Pair e by auto
  next
    case Idle
    then show ?thesis using idle_step [OF inv i _ refl, of tid os] Pair e by (auto split: if_splits)
  next
    case (Calling x)
    then show ?thesis using lock_step [OF c inv i, of tid x] Pair e by (auto split: if_splits)
  next
    case (Locked x)
    then show ?thesis using raise_step [OF inv i, of tid x os] Pair e by auto
  next
    case (Running x)
    then show ?thesis using unlock_step [OF c inv i] Pair e by auto
  next
    case Leaving
    then show ?thesis using lower_step [OF inv i, of tid os] Pair e by auto
  next
    case Stopped
    then show ?thesis using Pair e by (simp add: worker_step_def Let_def)
  qed
qed
lemma destroy_inv:
  assumes inv: "system_inv c S" and t: "tid \<notin> fst ` set (workers S)" and e: "dpc_destroy_begin os tid i S = Inr S'"
  shows "system_inv c S'"
proof -
  obtain t' where x: "dpc_worker_exit os tid (sys_irql S) = Inr (upd_thread tid (\<lambda>_. t') (sys_irql S))"
      "current_irql t' = current_irql (threads (sys_irql S) tid)" "os_affinity t' = os_affinity (threads (sys_irql S) tid)"
      "group_affinity_cache t' = group_affinity_cache (threads (sys_irql S) tid)" "irql_pc t' = irql_pc (threads (sys_irql S) tid)"
    by (rule dpc_worker_exit_ok)
  let ?s' = "upd_thread tid (\<lambda>_. t') (sys_irql S)"
  have I: "irql_inv c (sys_irql S)" using inv by (simp add: system_inv_def)
  then have "thread_ok c (sys_irql S) tid" by (simp add: irql_inv_def)
  then have "irql_inv c ?s'"
    using x(2-5) by (intro inv_local [OF I]) (simp add: thread_ok_def owns_processor_def cache_ok_def pinned_to_def split: irql_point.splits)
  then show ?thesis using e x(1) system_inv_driver [OF inv t, of ?s'] by (auto simp: dpc_destroy_begin_def)
qed

lemma system_step_inv:
  assumes c: "worker_setting c os" and "system_step driver_rules routine_rules c os S S'" "system_inv c S"
  shows "system_inv c S'"
  using assms(2,3)
proof (induction rule: system_step.induct)
  case (sys_worker i S S')
  then show ?case using worker_step_inv [OF c] by blast
next
  case (sys_driver tid S a s')
  have "irql_inv c s'" using irql_call_inv [OF _ _ sys_driver(3,2)] c sys_driver(4) by (simp add: worker_setting_def system_inv_def)
  then show ?case using system_inv_driver [OF sys_driver(4,1) irql_call_only [OF sys_driver(3)], of "sys_dpcs S"] by simp
next
  case (sys_routine i S tid e a s')
  have ok: "pinned_to c (threads (sys_irql S) tid) (cpu i)" "raised tid (sys_irql S)" "dispatch_locks (sys_irql S) ! i = Some tid"
    using system_invD(5) [OF sys_routine(5,1)] sys_routine(2) by simp_all
  have "driver_rules (sys_irql S) tid a" using sys_routine(3) by (simp add: routine_rules_def)
  then have "irql_inv c s'" using irql_call_inv [OF _ _ sys_routine(4)] c sys_routine(5) by (simp add: worker_setting_def system_inv_def)
  moreover have "worker_ok c s' i (tid, Running e)"
    using ok irql_call_raised [OF sys_routine(4,3) ok(2)] by (simp add: pinned_to_def)
  ultimately have "system_inv c (set_pc i (Running e) (S\<lparr>sys_irql := s', sys_dpcs := sys_dpcs S\<rparr>))"
    using irql_call_only [OF sys_routine(4)] sys_routine(2) by (intro system_inv_worker [OF sys_routine(5,1)]) simp_all
  moreover have "(workers S)[i := (tid, Running e)] = workers S" using sys_routine(2) by (metis list_update_id)
  ultimately show ?case using sys_routine(2) by (simp add: set_pc_def)
next
  case (sys_dpc S D d)
  then show ?case using dpc_call_cpus [OF sys_dpc(1)] by (simp add: system_inv_def)
next
  case (sys_destroy tid S i S')
  then show ?case using destroy_inv by blast
qed

lemma system_reachable_inv:
  assumes c: "worker_setting c os" and "system_reachable driver_rules routine_rules c os S"
  shows "system_inv c S"
  using assms(2)
proof (induction rule: system_reachable.induct)
  case (init S)
  have "worker_ok c (sys_irql S) i (workers S ! i)" if i: "i < length (workers S)" for i
    using init i nth_mem [OF i] by (cases "workers S ! i") (auto simp: system_init_def irql_init_def)
  then show ?case using init irql_init_inv by (auto simp: system_init_def system_inv_def initialize_dpcs_cpus)
next
  case (step S S')
  then show ?case using system_step_inv [OF c] by blast
qed

section \<open>Properties\<close>

text \<open>A system with one processor in which the worker, thread 5, has dequeued a DPC and runs it.\<close>

definition sample_system :: dpc_system where
  "sample_system = \<lparr>sys_known = {}, sys_dpcs = usersim_initialize_dpcs sample_nodes
     \<lparr>entries = \<lparr>Flink = \<lambda>_. 0, Blink = \<lambda>_. 0\<rparr>, kdpcs = \<lambda>_. sample_kdpc, emulated_dpcs = []\<rparr>,
     sys_irql = sample_irql, workers = [(5, Starting)]\<rparr>"

lemma sample_setting: "worker_setting one_processor sample_os"
  using one_processor_ok by (simp add: worker_setting_def single_group_def os_accepts_def sample_os_def one_processor_def)

lemma sample_started:
  obtains s where "dpc_worker_start sample_os 5 0 sample_irql = Inr s" "dispatch_locks s = [None]"
  by (simp add: dpc_worker_start_def KeSetSystemAffinityThreadEx_def get_irql_thread_priority_def irql_thread_priority_def
      usersim_set_current_thread_priority_def irql_eval)

lemma sample_system_running:
  obtains S where "system_reachable driver_rules routine_rules one_processor sample_os S" "workers S = [(5, Running (Ran 256 9 7 1 2))]"
proof -
  obtain t where t: "KeInsertQueueDpc 256 1 2 sample_dpcs = Inr (True, t)" "dpc_rel {256} ((\<lambda>_. [])(0 := [256])) t"
      "same_cpus sample_dpcs t" "kdpcs t = (kdpcs sample_dpcs)(256 := (kdpcs sample_dpcs 256)\<lparr>parameter_1 := 1, parameter_2 := 2\<rparr>)"
    by (rule sample_inserted)
  obtain d where d: "dpc_thread_step (emulated_dpcs t ! 0) t = (Ran 256 9 7 1 2, d)"
    using thread_step_Cons [OF t(2), of 0 256 "[]"] t(3,4) by (auto simp: sample_eval run_event_def)
  obtain s where s: "dpc_worker_start sample_os 5 0 sample_irql = Inr s" "dispatch_locks s = [None]" by (rule sample_started)
  define S1 where "S1 = sample_system\<lparr>sys_known := {256}, sys_dpcs := t\<rparr>"
  define S2 where "S2 = S1\<lparr>sys_irql := s, workers := [(5, Idle)]\<rparr>"
  define S3 where "S3 = S2\<lparr>sys_dpcs := d, workers := [(5, Calling (Ran 256 9 7 1 2))]\<rparr>"
  have "system_reachable driver_rules routine_rules one_processor sample_os sample_system"
    by (rule system_reachable.init, unfold system_init_def)
      (auto simp: sample_system_def one_processor_def config_count_def irql_init_def sample_irql_def sample_thread_def
        intro!: exI [of _ sample_nodes] exI [of _ "\<lparr>entries = \<lparr>Flink = \<lambda>_. 0, Blink = \<lambda>_. 0\<rparr>, kdpcs = \<lambda>_. sample_kdpc, emulated_dpcs = []\<rparr>"]
        simp: sample_nodes_def)
  moreover have "system_step driver_rules routine_rules one_processor sample_os sample_system (sample_system\<lparr>sys_known := {256}, sys_dpcs := sample_dpcs\<rparr>)"
    unfolding sample_dpcs_def by (rule sys_dpc, unfold sample_system_def dpc_system.simps, rule call_initialize) (simp_all add: sample_eval)
  moreover have "system_step driver_rules routine_rules one_processor sample_os (sample_system\<lparr>sys_known := {256}, sys_dpcs := sample_dpcs\<rparr>) S1"
    using sys_dpc [of "sample_system\<lparr>sys_known := {256}, sys_dpcs := sample_dpcs\<rparr>" "{256}" t] call_insert [OF _ t(1), of "{256}"]
    by (simp add: S1_def)
  moreover have "system_step driver_rules routine_rules one_processor sample_os S1 S2"
    by (rule sys_worker [where i = 0]) (simp_all add: S2_def S1_def sample_system_def worker_step_def s(1) set_pc_def)
  moreover have "system_step driver_rules routine_rules one_processor sample_os S2 S3"
    by (rule sys_worker [where i = 0]) (simp_all add: S3_def S2_def S1_def sample_system_def worker_step_def d set_pc_def)
  moreover obtain S4 where "worker_step sample_os 0 S3 = Inr (Returns S4)" "workers S4 = [(5, Locked (Ran 256 9 7 1 2))]"
    by (simp add: S3_def S2_def S1_def sample_system_def worker_step_def dpc_worker_lock_def lock_dispatch_def s(2) set_pc_def)
  moreover have "system_step driver_rules routine_rules one_processor sample_os S3 S4"
    by (rule sys_worker [where i = 0]) (use calculation(6) in \<open>simp_all add: S3_def\<close>)
  moreover obtain S5 where "worker_step sample_os 0 S4 = Inr (Returns S5)" "workers S5 = [(5, Running (Ran 256 9 7 1 2))]"
    using calculation(7) by (simp add: worker_step_def set_pc_def)
  moreover have "system_step driver_rules routine_rules one_processor sample_os S4 S5"
    by (rule sys_worker [where i = 0]) (use calculation(7,9) in simp_all)
  ultimately show ?thesis using that by (meson system_reachable.step)
qed
text \<open>
  C5: on a machine with one processor group, whose operating system accepts the affinity to each of its processors (\<open>worker_setting\<close>), while the worker of processor \<open>i\<close> runs a DPC routine
  it is at \<^verbatim>\<open>DISPATCH_LEVEL\<close> or above, it can run on processor \<open>i\<close> only, and no other thread that runs on this processor is raised, that is at \<^verbatim>\<open>DISPATCH_LEVEL\<close> and
  outside \<^verbatim>\<open>KfRaiseIrql\<close> and \<^verbatim>\<open>KeLowerIrql\<close>: the routine excludes the other DPCs of its processor and the code that has raised its level there. This holds in every
  interleaving of workers, drivers and routines in which the callers keep \<open>driver_rules\<close> and \<open>routine_rules\<close>: no thread changes its group affinity at \<^verbatim>\<open>DISPATCH_LEVEL\<close>, none calls
  \<^verbatim>\<open>KeLowerIrql\<close> to go up, no routine goes below \<^verbatim>\<open>DISPATCH_LEVEL\<close>.
\<close>
theorem dpc_routine_exclusive:
  assumes "worker_setting c os" "system_reachable driver_rules routine_rules c os S" "i < length (workers S)" "workers S ! i = (tid, Running e)"
  shows "raised tid (sys_irql S) \<and>
         (\<forall>p. runs_on c (threads (sys_irql S) tid) p \<longleftrightarrow> p = cpu i) \<and>
         KeGetProcessorIndexFromNumber (config_map c) (cpu i) = Inr (word_of_nat i) \<and>
         (\<forall>t. raised t (sys_irql S) \<and> runs_on c (threads (sys_irql S) t) (cpu i) \<longrightarrow> t = tid)"
proof -
  have ok: "config_ok c" "single_group c" using assms(1) by (simp_all add: worker_setting_def)
  have inv: "system_inv c S" by (rule system_reachable_inv [OF assms(1,2)])
  note I = system_invD [OF inv assms(3)] and cpu = single_group_cpu [OF ok system_invD(2) [OF inv assms(3)]]
  have pin: "pinned_to c (threads (sys_irql S) tid) (cpu i)" and up: "raised tid (sys_irql S)"
    using I(5) assms(4) by simp_all
  have here: "runs_on c (threads (sys_irql S) tid) (cpu i)"
    using pin bit_processor_affinity [of "cpu i"] exists_less_64 [OF ok(1) cpu(2)]
    by (simp add: runs_on_def pinned_to_def) (simp add: processor_affinity_def)
  then have "\<forall>p. runs_on c (threads (sys_irql S) tid) p \<longleftrightarrow> p = cpu i" using runs_on_pinned [OF ok(1) _ pin] by blast
  then show ?thesis using up here cpu(3) irql_inv_exclusive [OF ok(1) I(1)] by blast
qed

theorem dpc_routine_exclusive_witness:
  "\<exists>S. system_reachable driver_rules routine_rules one_processor sample_os S \<and> workers S = [(5, Running (Ran 256 9 7 1 2))] \<and>
       raised 5 (sys_irql S) \<and> runs_on one_processor (threads (sys_irql S) 5) (cpu 0) \<and>
       (\<forall>t. raised t (sys_irql S) \<and> runs_on one_processor (threads (sys_irql S) t) (cpu 0) \<longrightarrow> t = 5)"
proof -
  obtain S where S: "system_reachable driver_rules routine_rules one_processor sample_os S" "workers S = [(5, Running (Ran 256 9 7 1 2))]"
    by (rule sample_system_running)
  from dpc_routine_exclusive [OF sample_setting S(1), of 0 5 "Ran 256 9 7 1 2"] S show ?thesis by auto
qed

text \<open>
  C21: on a machine with one processor group, whose operating system accepts the affinity to each of its processors (\<open>worker_setting\<close>), and with callers that keep \<open>driver_rules\<close> and \<open>routine_rules\<close>, a
  worker never fails an assertion and waits only for a reason. In every reachable state the next step of the worker of processor \<open>i\<close> is taken, unless
  its queue is empty and not destroyed, or another thread has the dispatch lock of the processor while a DPC is due, or the thread has ended. (With several groups a worker beyond the first
  group may fail when it starts: \<open>worker_beyond_first_group\<close>.)
\<close>
theorem dpc_worker_progress:
  assumes "worker_setting c os" "system_reachable driver_rules routine_rules c os S" "i < length (workers S)" "workers S ! i = (tid, pc)"
  shows "if (case pc of Idle \<Rightarrow> \<not> terminate (emulated_dpcs (sys_dpcs S) ! i) \<and>
                               usersim_list_is_empty (head (emulated_dpcs (sys_dpcs S) ! i)) (entries (sys_dpcs S))
                     | Calling e \<Rightarrow> \<exists>t. t \<noteq> tid \<and> dispatch_locks (sys_irql S) ! i = Some t
                     | Stopped \<Rightarrow> True | _ \<Rightarrow> False)
         then worker_step os i S = Inr Blocks else \<exists>S'. worker_step os i S = Inr (Returns S')"
proof -
  have inv: "system_inv c S" by (rule system_reachable_inv [OF assms(1,2)])
  show ?thesis
  proof (cases pc)
    case Starting
    then show ?thesis using start_step [OF assms(1) inv assms(3)] assms(4) by auto
  next
    case Idle
    then show ?thesis using idle_step [OF inv assms(3) _ refl, of tid os] assms(4) by (auto split: if_splits)
  next
    case (Calling e)
    then show ?thesis using lock_step [OF assms(1) inv assms(3), of tid e] system_invD(5) [OF inv assms(3)] assms(4)
      by (auto split: if_splits)
  next
    case (Locked e)
    then show ?thesis using raise_step [OF inv assms(3)] assms(4) by auto
  next
    case (Running e)
    then show ?thesis using unlock_step [OF assms(1) inv assms(3)] assms(4) by auto
  next
    case Leaving
    then show ?thesis using lower_step [OF inv assms(3)] assms(4) by auto
  next
    case Stopped
    then show ?thesis using assms(4) by (simp add: worker_step_def Let_def)
  qed
qed

theorem dpc_worker_progress_witness:
  "\<exists>S S'. system_reachable driver_rules routine_rules one_processor sample_os S \<and> workers S = [(5, Running (Ran 256 9 7 1 2))] \<and>
          worker_step sample_os 0 S = Inr (Returns S')"
proof -
  obtain S where S: "system_reachable driver_rules routine_rules one_processor sample_os S" "workers S = [(5, Running (Ran 256 9 7 1 2))]"
    by (rule sample_system_running)
  from dpc_worker_progress [OF sample_setting S(1), of 0 5 "Running (Ran 256 9 7 1 2)"] S show ?thesis by auto
qed

text \<open>
  The thread of a destroyed queue: it finishes the DPC it has dequeued and ends; it takes no further entry from the queue. \<open>worker_run\<close> takes \<open>n\<close> steps, fewer if the
  worker waits.
\<close>

fun worker_run :: "irql_os \<Rightarrow> nat \<Rightarrow> nat \<Rightarrow> dpc_system \<Rightarrow> dpc_system result" where
  "worker_run os 0 i S = Inr S"
| "worker_run os (Suc n) i S =
     (case worker_step os i S of Inl e \<Rightarrow> Inl e | Inr Blocks \<Rightarrow> Inr S | Inr (Returns S') \<Rightarrow> worker_run os n i S')"

lemma worker_run_idle:
  assumes "system_inv c S" "i < length (workers S)" "workers S ! i = (tid, Idle)" "terminate (emulated_dpcs (sys_dpcs S) ! i)"
  shows "\<exists>S'. worker_run os (Suc n) i S = Inr S' \<and> dpc_join_done i S' \<and> sys_dpcs S' = sys_dpcs S"
proof -
  obtain S' where S': "worker_step os i S = Inr (Returns S')" "workers S' = (workers S)[i := (tid, Stopped)]" "sys_dpcs S' = sys_dpcs S"
    using idle_step [OF assms(1-3) refl, of os] assms(4) by auto
  have "worker_run os n i S' = Inr S'" using S'(2) assms(2) by (cases n) (simp_all add: worker_step_def Let_def)
  then show ?thesis using S' assms(2) by (simp add: dpc_join_done_def)
qed

text \<open>The steps from a point of the worker to its end, one after the other.\<close>

lemma worker_run_step:
  assumes "worker_step os i S = Inr (Returns T)" "sys_dpcs T = sys_dpcs S"
    and "\<exists>S'. worker_run os n i T = Inr S' \<and> dpc_join_done i S' \<and> sys_dpcs S' = sys_dpcs T"
  shows "\<exists>S'. worker_run os (Suc n) i S = Inr S' \<and> dpc_join_done i S' \<and> sys_dpcs S' = sys_dpcs S"
  using assms by simp

lemma worker_run_leaving:
  assumes "system_inv c S" "i < length (workers S)" "workers S ! i = (tid, Leaving)" "terminate (emulated_dpcs (sys_dpcs S) ! i)"
  shows "\<exists>S'. worker_run os (Suc (Suc n)) i S = Inr S' \<and> dpc_join_done i S' \<and> sys_dpcs S' = sys_dpcs S"
proof -
  obtain T where T: "worker_step os i S = Inr (Returns T)" "workers T = (workers S)[i := (tid, Idle)]" "sys_dpcs T = sys_dpcs S" "system_inv c T"
    using lower_step [OF assms(1-3)] by blast
  show ?thesis by (rule worker_run_step [OF T(1,3)], rule worker_run_idle [OF T(4), where tid = tid]) (use T assms in simp_all)
qed

lemma worker_run_running:
  assumes "worker_setting c os" "system_inv c S" "i < length (workers S)" "workers S ! i = (tid, Running e)"
    "terminate (emulated_dpcs (sys_dpcs S) ! i)"
  shows "\<exists>S'. worker_run os (Suc (Suc (Suc n))) i S = Inr S' \<and> dpc_join_done i S' \<and> sys_dpcs S' = sys_dpcs S"
proof -
  obtain T where T: "worker_step os i S = Inr (Returns T)" "workers T = (workers S)[i := (tid, Leaving)]" "sys_dpcs T = sys_dpcs S" "system_inv c T"
    using unlock_step [OF assms(1-4)] by blast
  show ?thesis by (rule worker_run_step [OF T(1,3)], rule worker_run_leaving [OF T(4), where tid = tid]) (use T assms in simp_all)
qed

lemma worker_run_locked:
  assumes "worker_setting c os" "system_inv c S" "i < length (workers S)" "workers S ! i = (tid, Locked e)"
    "terminate (emulated_dpcs (sys_dpcs S) ! i)"
  shows "\<exists>S'. worker_run os (Suc (Suc (Suc (Suc n)))) i S = Inr S' \<and> dpc_join_done i S' \<and> sys_dpcs S' = sys_dpcs S"
proof -
  obtain T where T: "worker_step os i S = Inr (Returns T)" "workers T = (workers S)[i := (tid, Running e)]" "sys_dpcs T = sys_dpcs S" "system_inv c T"
    using raise_step [OF assms(2-4)] by blast
  show ?thesis by (rule worker_run_step [OF T(1,3)], rule worker_run_running [OF assms(1) T(4), where tid = tid and e = e]) (use T assms in simp_all)
qed

lemma worker_run_stops:
  assumes c: "worker_setting c os" and inv: "system_inv c S" and i: "i < length (workers S)" and w: "workers S ! i = (tid, pc)"
    and q: "terminate (emulated_dpcs (sys_dpcs S) ! i)" and free: "\<And>e. pc = Calling e \<Longrightarrow> dispatch_locks (sys_irql S) ! i = None"
  shows "\<exists>S'. worker_run os 5 i S = Inr S' \<and> dpc_join_done i S' \<and> sys_dpcs S' = sys_dpcs S"
proof -
  have five: "worker_run os 5 i S = worker_run os (Suc (Suc (Suc (Suc (Suc 0))))) i S" by (simp add: eval_nat_numeral)
  show ?thesis unfolding five
  proof (cases pc)
    case Starting
    then obtain T where T: "worker_step os i S = Inr (Returns T)" "workers T = (workers S)[i := (tid, Idle)]" "sys_dpcs T = sys_dpcs S" "system_inv c T"
      using start_step [OF c inv i] w by blast
    show "\<exists>S'. worker_run os (Suc (Suc (Suc (Suc (Suc 0))))) i S = Inr S' \<and> dpc_join_done i S' \<and> sys_dpcs S' = sys_dpcs S"
      by (rule worker_run_step [OF T(1,3)], rule worker_run_idle [OF T(4), where tid = tid]) (use T q i in simp_all)
  next
    case (Calling e)
    then obtain T where T: "worker_step os i S = Inr (Returns T)" "workers T = (workers S)[i := (tid, Locked e)]" "sys_dpcs T = sys_dpcs S" "system_inv c T"
      using lock_step [OF c inv i] w free by fastforce
    show "\<exists>S'. worker_run os (Suc (Suc (Suc (Suc (Suc 0))))) i S = Inr S' \<and> dpc_join_done i S' \<and> sys_dpcs S' = sys_dpcs S"
      by (rule worker_run_step [OF T(1,3)], rule worker_run_locked [OF c T(4), where tid = tid and e = e]) (use T q i in simp_all)
  next
    case Stopped
    then show "\<exists>S'. worker_run os (Suc (Suc (Suc (Suc (Suc 0))))) i S = Inr S' \<and> dpc_join_done i S' \<and> sys_dpcs S' = sys_dpcs S"
      using w by (simp add: worker_step_def Let_def dpc_join_done_def)
  qed (use worker_run_idle [OF inv i _ q] worker_run_locked [OF c inv i _ q] worker_run_running [OF c inv i _ q]
      worker_run_leaving [OF inv i _ q] w in blast)+
qed
text \<open>
  C22: on a machine with one processor group, whose operating system accepts the affinity to each of its processors (\<open>worker_setting\<close>), and with callers that keep \<open>driver_rules\<close> and \<open>routine_rules\<close>, destroying
  a queue ends its worker. In every reachable state the destructor sets the flag without failing; and unless the worker waits for a dispatch lock that some thread has, it ends within five steps of its own, so
  that the destructor's join returns. It runs at most the DPC it had dequeued: the links of the queue are as before, and the DPCs in the queue are dropped.
\<close>
theorem dpc_worker_joins:
  assumes "worker_setting c os" "system_reachable driver_rules routine_rules c os S" "i < length (workers S)" "tid \<notin> fst ` set (workers S)"
    and "\<forall>e. snd (workers S ! i) = Calling e \<longrightarrow> dispatch_locks (sys_irql S) ! i = None"
  shows "\<exists>S1 S2. dpc_destroy_begin os tid i S = Inr S1 \<and> worker_run os 5 i S1 = Inr S2 \<and> dpc_join_done i S2 \<and>
                 entries (sys_dpcs S2) = entries (sys_dpcs S)"
proof -
  have inv: "system_inv c S" by (rule system_reachable_inv [OF assms(1,2)])
  obtain t' where x: "dpc_worker_exit os tid (sys_irql S) = Inr (upd_thread tid (\<lambda>_. t') (sys_irql S))" by (rule dpc_worker_exit_ok)
  then obtain S1 where S1: "dpc_destroy_begin os tid i S = Inr S1" by (simp add: dpc_destroy_begin_def)
  have f: "workers S1 = workers S" "dispatch_locks (sys_irql S1) = dispatch_locks (sys_irql S)" "entries (sys_dpcs S1) = entries (sys_dpcs S)"
      "terminate (emulated_dpcs (sys_dpcs S1) ! i)"
    using S1 x system_invD(4) [OF inv assms(3)] by (auto simp: dpc_destroy_begin_def emulated_dpc_destroy_def)
  obtain w pc where w: "workers S1 ! i = (w, pc)" by (metis prod.exhaust)
  have free: "dispatch_locks (sys_irql S1) ! i = None" if "pc = Calling e" for e using assms(5) w f(1,2) that by auto
  have "i < length (workers S1)" using assms(3) f(1) by simp
  from worker_run_stops [OF assms(1) destroy_inv [OF inv assms(4) S1] this w f(4)] free S1 f(3) show ?thesis by fastforce
qed

theorem dpc_worker_joins_witness:
  "\<exists>S S1 S2. workers S = [(5, Running (Ran 256 9 7 1 2))] \<and> dpc_destroy_begin sample_os 1 0 S = Inr S1 \<and>
             worker_run sample_os 5 0 S1 = Inr S2 \<and> dpc_join_done 0 S2"
proof -
  obtain S where S: "system_reachable driver_rules routine_rules one_processor sample_os S" "workers S = [(5, Running (Ran 256 9 7 1 2))]"
    by (rule sample_system_running)
  from dpc_worker_joins [OF sample_setting S(1), of 0 1] S show ?thesis by auto
qed

text \<open>
  On a machine with several processor groups the workers beyond the first group are not where they should be. The mask for CPU \<open>i\<close> is the bit \<open>i\<close> of the first group: if the
  operating system rejects it, because the group has no such processor, the worker starts all the same, with the affinity it had; from CPU 64 on the shift
  is undefined.
\<close>
theorem worker_beyond_first_group:
  assumes "current_irql (threads s tid) = PASSIVE_LEVEL" "group_affinity_cache (threads s tid) = \<lparr>ga_Mask = 0, ga_Group = 0\<rparr>"
    and "\<not> set_affinity_ok os \<lparr>ga_Mask = push_bit i 1, ga_Group = 0\<rparr>"
  shows "if i < 64 then \<exists>s'. dpc_worker_start os tid i s = Inr s' \<and> os_affinity (threads s' tid) = os_affinity (threads s tid)
         else dpc_worker_start os tid i s = Inl Out_Of_Bounds"
proof -
  obtain ok t1 where p: "set_current_thread_priority_by_irql os DISPATCH_LEVEL (threads s tid) = Inr (ok, t1)"
    using priority_by_irql_total [of DISPATCH_LEVEL os "threads s tid"] by auto
  note t1 = priority_by_irql_frame [OF p, unfolded assms(1,2)]
  have m: "push_bit i 1 \<noteq> (0 :: u64)" if "i < 64"
  proof -
    have "bit (push_bit i 1 :: u64) i" using that by (simp add: bit_simps)
    then show ?thesis by (metis bit_0_eq bot_apply bot_bool_def)
  qed
  then show ?thesis using p t1 assms(3)
    by (auto simp: dpc_worker_start_def KeSetSystemAffinityThreadEx_def usersim_set_current_thread_affinity_def KeGetCurrentIrql_def Let_def)
qed

theorem worker_beyond_first_group_witness:
  "\<exists>s'. dpc_worker_start (sample_os\<lparr>set_affinity_ok := \<lambda>a. ga_Mask a < 16\<rparr>) 5 4 sample_irql = Inr s' \<and>
        os_affinity (threads s' 5) = \<lparr>ga_Mask = 1, ga_Group = 0\<rparr>"
  using worker_beyond_first_group [of sample_irql 5 "sample_os\<lparr>set_affinity_ok := \<lambda>a. ga_Mask a < 16\<rparr>" 4]
  by (simp add: sample_irql_def sample_thread_def)

end
