(* ===== verification/Spec2Isabelle.thy ===== *)
theory Spec2Isabelle
  imports Usersim_Prelude List_Entry Dpc_Queue Processor Irql Rundown Work_Item Memory Nmr Nmr_Detach Fwp Fault_Injection Sync Wdf Mdl Pool Security Objects Cxplat Platform Trace_Log Safe_Int Io_Work Locks Buffers Registry Driver_Dll Semaphore Exceptions Exports Winkernel Winkernel_Work Usersim_Dll Symbol_Decoder Leak_Report Fwp_Api Ndis Clock Winkernel_Ke Fault_Alloc Forwards Dpc_Worker
begin

text \<open>
  Verification library for usersim, the simulation of Windows kernel interfaces in user mode.

  The program. Usersim lets drivers and other kernel code run in a user-mode process. It has three layers. The cross-platform layer
  (\<^verbatim>\<open>cxplat\<close>) allocates memory with leak detection and fault injection, numbers processors, runs work items on the thread pool of the
  system and protects them with rundown references. On it stands the simulation of the kernel (\<^verbatim>\<open>src\<close>): interrupt levels and spin locks,
  DPC queues with one worker thread per processor, events, semaphores, timers, memory descriptors, pools, work items of the
  I/O manager, security and processes, the registry, and the platform code that starts and stops all of it. On top are the frameworks that
  drivers talk to: the network module registrar (NMR), the filter engine (FWP), the driver framework (WDF), net buffers (NDIS), trace logging,
  and the skeleton of a driver DLL. Fault injection decides inside every allocation and in most entry points whether to fail, so every
  component has to clean up after a failure at each step.

  How it is modelled. Each theory models one component; its definitions keep the names of the functions in the source, in the order
  of the source, and its state is a record of the variables that the component keeps. Objects that the code reaches through pointers
  and changes in place (list entries, DPCs, timers, allocation headers, descriptors) live in explicit stores from addresses to contents.
  Operations return \<open>exn + 'a\<close>, so that a failed assertion, a bug check, a C++ exception and an access outside an array are values
  (theory \<open>Usersim_Prelude\<close>); an operation that would wait is \<open>Blocks\<close> or \<open>None\<close>. Code that runs concurrently is split at its critical
  sections: one definition per section of the mutex, an inductive step relation over the sections, and invariants of all reachable states.
  The operating system, the C heap, the callbacks of drivers and the iteration order of hash tables are parameters; their answers are
  arguments, and what they document is a locale or a named hypothesis. Machine integers are words of their width. Arguments that only name the
  place of a call (back traces) or the choice of the environment (the address of a new block, the outcome of fault injection) come first.

  Theories, the files they model and what they show.
  \<^item> \<open>List_Entry\<close> (\<^verbatim>\<open>framework.h\<close>, \<^verbatim>\<open>kernel_um.h\<close>): the intrusive lists over their link fields refine finite sequences, the kernel's checks included
    (\<open>kernel_list_refines\<close>, \<open>usersim_list_fifo\<close>); locale \<open>intrusive_queue\<close>, interpreted for both families.
  \<^item> \<open>Dpc_Queue\<close> (\<^verbatim>\<open>ke.cpp\<close>, region dpcs): an insertion is refused exactly when the DPC is in some queue (\<open>KeInsertQueueDpc_once\<close>), and a flush returns after every
    queued DPC has run, in order (\<open>KeFlushQueuedDpcs_runs_all\<close>).
  \<^item> \<open>Processor\<close> (\<^verbatim>\<open>platform_user.cpp\<close>, \<^verbatim>\<open>processor_winuser.cpp\<close>): indices and group-relative numbers are inverse to each other, and the two tables of
    the program agree; locale \<open>processor_numbering\<close>.
  \<^item> \<open>Irql\<close> (\<^verbatim>\<open>ke.cpp\<close>, regions irqls, spin locks, threads): every call is a sequence of steps between which other threads run. If drivers keep the rules
    \<open>driver_rules\<close>, at most one thread per processor is past the lock of the dispatch level (\<open>dispatch_level_exclusive\<close>); the rules are needed, because the code does not check
    that a raised thread keeps its affinity (\<open>group_affinity_breaks_exclusion\<close>). Spin locks restore the whole state of the thread.
  \<^item> \<open>Dpc_Worker\<close> (\<^verbatim>\<open>ke.cpp\<close>, the worker threads of region dpcs): the queues and the interrupt levels as one system. On a machine with one processor group, and with drivers and routines that keep
    the rules, a DPC routine runs on its processor alone at dispatch level (\<open>dpc_routine_exclusive\<close>), a worker waits only for a reason (\<open>dpc_worker_progress\<close>), and the worker of a
    destroyed queue ends (\<open>dpc_worker_joins\<close>); outside the first group a worker does not reach its processor (\<open>worker_beyond_first_group\<close>).
  \<^item> \<open>Rundown\<close>, \<open>Work_Item\<close>, \<open>Io_Work\<close> (\<^verbatim>\<open>rundown_winuser.cpp\<close>, \<^verbatim>\<open>workitem_winuser.cpp\<close>, \<^verbatim>\<open>io.cpp\<close>): a wait for rundown ends exactly when the references
    are gone, a shutdown waits for all work items, and a queued I/O work item is called once and released completely; locale \<open>rundown_protection\<close>.
  \<^item> \<open>Memory\<close>, \<open>Pool\<close> (\<^verbatim>\<open>memory_winuser.cpp\<close>, \<^verbatim>\<open>leak_detector.cpp\<close>, \<^verbatim>\<open>memory.c\<close>, \<^verbatim>\<open>ex.cpp\<close>): allocation returns fresh, filled memory and the matching free restores the
    heap and the leak detector; the locale \<open>pool_interface\<close> is the contract that the clients of the pools use, and both allocators provide it.
  \<^item> \<open>Fault_Injection\<close>, \<open>Fault_Alloc\<close>, \<open>Symbol_Decoder\<close>, \<open>Leak_Report\<close> (\<^verbatim>\<open>fault_injection.cpp\<close>, \<^verbatim>\<open>symbol_decoder.h\<close>, \<^verbatim>\<open>leak_detector.cpp\<close>): every call path fails once, the log that one run
    writes is read back by the next one, an allocation fails exactly when its path is new, and the leak report names exactly the live blocks, each with the first stack of the run that has the
    hash of its own.
  \<^item> \<open>Nmr\<close>, \<open>Nmr_Detach\<close> (\<^verbatim>\<open>nmr_impl.cpp\<close>, \<^verbatim>\<open>nmr_um.cpp\<close>): the counts of bindings are exact in every reachable state, registration binds all matching
    modules, and a deregistration ends, at once or after every pending detach has completed, in any order; a wait of more than ten seconds fails its assertion.
  \<^item> \<open>Fwp\<close>, \<open>Fwp_Api\<close>, \<open>Buffers\<close>, \<open>Ndis\<close> (\<^verbatim>\<open>fwp_um.h\<close>, \<^verbatim>\<open>fwp_um.cpp\<close>, \<^verbatim>\<open>etw.cpp\<close>, \<^verbatim>\<open>ndis_um.cpp\<close>): filters, callouts, flow contexts and the classification hooks, for every order of the tables
    (locale \<open>keyed_table\<close>), from the entry points of drivers to the test interface (\<open>bind_hook_end_to_end\<close>); net buffer lists leave nothing behind when an allocation fails.
  \<^item> \<open>Sync\<close>, \<open>Semaphore\<close> (\<^verbatim>\<open>ke.cpp\<close>, regions events, semaphores, timers): a set event lets exactly one wait or all waits pass, a semaphore answers like a bounded counter
    (locale \<open>semaphore_laws\<close>), timers own their thread pool timer and queue their DPC, as long as the library has not freed it.
  \<^item> \<open>Locks\<close> (\<^verbatim>\<open>ex.cpp\<close>, \<^verbatim>\<open>platform_user.cpp\<close>, \<^verbatim>\<open>processor_winuser.cpp\<close>): all families of locks exclude each other's writers (locale \<open>srw_laws\<close>).
  \<^item> \<open>Mdl\<close>, \<open>Objects\<close>, \<open>Security\<close>, \<open>Registry\<close>, \<open>Exports\<close> (\<^verbatim>\<open>mm.cpp\<close>, \<^verbatim>\<open>io.cpp\<close>, \<^verbatim>\<open>ndis_um.cpp\<close>, \<^verbatim>\<open>ob.cpp\<close>, \<^verbatim>\<open>ps.cpp\<close>, \<^verbatim>\<open>se.cpp\<close>, \<^verbatim>\<open>rtl.cpp\<close>, \<^verbatim>\<open>zw.cpp\<close>): descriptors
    cover the bytes they describe, references are counted, lookups release their buffers, keys fall back to the user's hive, and the
    exported tables hold in each slot what the slot is named after.
  \<^item> \<open>Wdf\<close>, \<open>Driver_Dll\<close> (\<^verbatim>\<open>wdf.cpp\<close>, \<^verbatim>\<open>sample/driver.c\<close>, \<^verbatim>\<open>dll_skeleton.cpp\<close>): a failed start of a driver deletes what it created, and loading and
    unloading the sample driver restores the framework.
  \<^item> \<open>Cxplat\<close>, \<open>Platform\<close>, \<open>Usersim_Dll\<close> (\<^verbatim>\<open>cxplat_winuser.cpp\<close>, \<^verbatim>\<open>platform_user.cpp\<close>, \<^verbatim>\<open>ke.cpp\<close>, \<^verbatim>\<open>dllmain.cpp\<close>): start and shutdown, with every failure of the start cleaned up,
    what a shutdown stops and what it leaves, the tables of the processors, and what the loader does to them.
  \<^item> \<open>Clock\<close>, \<open>Forwards\<close> (\<^verbatim>\<open>ke.cpp\<close>, \<^verbatim>\<open>platform_user.cpp\<close>, \<^verbatim>\<open>ex.cpp\<close>, \<^verbatim>\<open>time_winuser.cpp\<close>, \<^verbatim>\<open>time_winkernel.c\<close> and others): the clocks, and the entry points that hand a call on or do nothing.
  \<^item> \<open>Trace_Log\<close>, \<open>Safe_Int\<close>, \<open>Exceptions\<close> (\<^verbatim>\<open>tracelog.c\<close>, \<^verbatim>\<open>TraceLoggingProvider.h\<close>, \<^verbatim>\<open>size_winuser.cpp\<close>, \<^verbatim>\<open>rtl.cpp\<close>, \<^verbatim>\<open>ke.cpp\<close>, \<^verbatim>\<open>ex.cpp\<close>): an event is printed with the
    argument that belongs to each field, checked arithmetic reports every overflow (locale \<open>checked_operation\<close>), and messages identify exceptions.
  \<^item> \<open>Winkernel\<close>, \<open>Winkernel_Work\<close>, \<open>Winkernel_Ke\<close> (\<^verbatim>\<open>cxplat_winkernel\<close>, \<^verbatim>\<open>module_winuser.cpp\<close>): the kernel build of the cross-platform layer. Memory and module paths
    work over any kernel with the contract \<open>kernel_pool\<close>, work items with the contract \<open>kernel_io\<close>, rundown with \<open>kernel_rundown\<close>; the simulated pools, I/O work items and rundown
    references provide them, and on the simulated kernel both builds agree.
  \<^item> This theory: properties of several components. A DPC from the start of the library through its targeted processor to its worker and the shutdown
    (\<open>started_platform_runs_dpc\<close>), the DPC of a timer (\<open>timer_dpc_delivered\<close>), and the shutdown that waits for queued I/O work (\<open>shutdown_waits_for_io_work\<close>).

  Bounds and fuel. \<^verbatim>\<open>KeFlushQueuedDpcs\<close> runs the worker threads with an argument \<open>fuel\<close> per queue; one more than the length of the
  queue is enough, and the theorems say so. The loops over the devices of a driver (\<open>delete_devices\<close>, \<open>delete_new_devices\<close>) get as many rounds as there are devices,
  and every round removes one. \<open>io_callbacks n\<close> is the thread pool running \<open>n\<close> callbacks. The wait loop of an event is driven by the list of
  the environment's wake-ups. All other loops are structural, or have a termination proof (the digits of a number, the walk over the
  arguments of a trace event).

  Not modelled. The text of GUIDs and addresses and the names of symbols, which the operating system produces and which are parameters where they are used; the thread
  interleavings inside one critical section and weak memory; the release build without assertions; the tests; and the declarations of the public headers, whose types appear in the theories of the functions that use them.
\<close>

section \<open>Properties of several components\<close>

text \<open>
  The flush of all queues, for the queues as the worker threads find them.
\<close>

lemma flush_all_queues:
  assumes "dpc_rel D q s"
    and "\<And>i. i < length (emulated_dpcs s) \<Longrightarrow>
           \<not> terminate (emulated_dpcs s ! i) \<and> flush_entry (emulated_dpcs s ! i) \<notin> set (q i) \<and> length (q i) < fuel"
  shows "\<exists>s'. KeFlushQueuedDpcs fuel s =
                Some (concat (map (\<lambda>i. map (Dpc_Queue.run_event s) (q i) @ [Flushed]) [0..<length (emulated_dpcs s)]), s')"
  using flush_queues_runs [OF _ assms, of 0] by (auto simp: KeFlushQueuedDpcs_def)

lemma started_queues:
  fixes nodes :: "nat \<Rightarrow> ptr \<times> ptr"
  assumes "emulated_dpcs s = []" "distinct (map (fst \<circ> nodes) [0..<n] @ map (snd \<circ> nodes) [0..<n])"
  defines "s' \<equiv> usersim_initialize_dpcs (map nodes [0..<n]) s"
  shows "dpc_rel {} (\<lambda>_. []) s'" "length (emulated_dpcs s') = n" "set (cpu_nodes s') = (fst \<circ> nodes) ` {..<n} \<union> (snd \<circ> nodes) ` {..<n}"
    "i < n \<Longrightarrow> \<not> terminate (emulated_dpcs s' ! i)"
proof -
  have e: "emulated_dpcs s' = map (\<lambda>i. \<lparr>head = fst (nodes i), flush_entry = snd (nodes i), terminate = False\<rparr>) [0..<n]"
    using assms(1) by (simp add: s'_def initialize_dpcs_queues case_prod_beta)
  have "cpu_nodes s = []" using assms(1) by (simp add: cpu_nodes_def)
  then show "dpc_rel {} (\<lambda>_. []) s'" unfolding s'_def
    using assms(2) by (intro initialize_dpcs_rel no_cpus_rel assms(1)) simp
  show "length (emulated_dpcs s') = n" "i < n \<Longrightarrow> \<not> terminate (emulated_dpcs s' ! i)" by (simp_all add: e)
  show "set (cpu_nodes s') = (fst \<circ> nodes) ` {..<n} \<union> (snd \<circ> nodes) ` {..<n}"
    by (auto simp: cpu_nodes_def e image_iff)
qed

text \<open>A DPC on idle queues: it is targeted, queued, and run by the flush on the worker of its processor alone.\<close>

lemma idle_queues_run_dpc:
  fixes d a b r x
  assumes rel: "dpc_rel {} (\<lambda>_. []) s" and new: "d \<notin> set (cpu_nodes s)"
    and alive: "\<And>j. j < length (emulated_dpcs s) \<Longrightarrow> \<not> terminate (emulated_dpcs s ! j)"
    and i: "KeGetProcessorIndexFromNumber gmap p = Inr i" "unat i < length (emulated_dpcs s)"
  shows "\<exists>s1 s2 s3. KeSetTargetProcessorDpcEx gmap d p (KeInitializeDpc d r x s) = Inr (STATUS_SUCCESS, s1) \<and>
           KeInsertQueueDpc d a b s1 = Inr (True, s2) \<and>
           KeFlushQueuedDpcs 2 s2 =
             Some (concat (map (\<lambda>j. (if j = unat i then [Ran d r x a b] else []) @ [Flushed]) [0..<length (emulated_dpcs s)]), s3)"
proof -
  let ?n = "length (emulated_dpcs s)" and ?k = "\<lambda>s. kdpcs s d"
  define s0 where "s0 = KeInitializeDpc d r x s"
  define s1 where "s1 = s0\<lparr>kdpcs := (kdpcs s0)(d := (?k s0)\<lparr>cpu_id := i\<rparr>)\<rparr>"
  have t: "KeSetTargetProcessorDpcEx gmap d p s0 = Inr (STATUS_SUCCESS, s1)"
    using i(1) by (simp add: KeSetTargetProcessorDpcEx_def s1_def)
  have k0: "kdpc.work_item_routine (?k s0) = r" "dpc_context (?k s0) = x" and e: "emulated_dpcs s1 = emulated_dpcs s"
    by (simp_all add: s0_def s1_def KeInitializeDpc_def)
  have "dpc_rel {d} (\<lambda>_. []) s0" using initialize_dpc_rel [OF rel new] by (simp add: s0_def)
  then have r1: "dpc_rel {d} (\<lambda>_. []) s1" unfolding s1_def by (rule dpc_rel_kdpcs)
  have "unat i = unat (cpu_id (?k s1))" "unat i < length (emulated_dpcs s1)" using i(2) e by (simp_all add: s1_def)
  from insert_unqueued [OF r1 _ this, of a b] obtain s2 where s2: "dpc_insert d a b s1 = Inr (True, s2)"
    "dpc_rel {d} ((\<lambda>_. [])(unat i := [d])) s2" "same_cpus s1 s2"
    "kdpcs s2 = (kdpcs s1)(d := (?k s1)\<lparr>parameter_1 := a, parameter_2 := b\<rparr>)" by auto
  let ?q = "(\<lambda>_. [])(unat i := [d]) :: nat \<Rightarrow> ptr list"
  have e2: "emulated_dpcs s2 = emulated_dpcs s" using s2(3) e by simp
  have "flush_entry (emulated_dpcs s2 ! j) \<notin> {d}" if "j < ?n" for j
    using dpc_relD(5) [OF s2(2), of j] that e2 by simp
  then have ready: "\<not> terminate (emulated_dpcs s2 ! j) \<and> flush_entry (emulated_dpcs s2 ! j) \<notin> set (?q j) \<and> length (?q j) < 2"
    if "j < length (emulated_dpcs s2)" for j
    using that alive [of j] e2 by auto
  have ev: "Dpc_Queue.run_event s2 d = Ran d r x a b"
    using k0 s2(4) by (simp add: Dpc_Queue.run_event_def s1_def)
  have q: "map (Dpc_Queue.run_event s2) (?q j) = (if j = unat i then [Ran d r x a b] else [])" for j by (simp add: ev)
  from flush_all_queues [OF s2(2) ready] e2 have "\<exists>s3. KeFlushQueuedDpcs 2 s2 =
      Some (concat (map (\<lambda>j. (if j = unat i then [Ran d r x a b] else []) @ [Flushed]) [0..<?n]), s3)"
    unfolding q by auto
  then show ?thesis using t s2(1) by (auto simp: KeInsertQueueDpc_def s0_def)
qed

text \<open>
  C2: a driver's DPC from start to shutdown. Take a library that is off, a system whose processor counts are consistent and whose
  list nodes are at different addresses, and a start that succeeds. Then the library counts the processors of the system; a new DPC
  that is targeted at an existing processor and queued is run by \<^verbatim>\<open>KeFlushQueuedDpcs\<close> exactly once, with its routine, context
  and arguments, on the worker of that processor, while the other workers only see the flush; and with the
  queues that the flush leaves behind the shutdown turns the library off again.
\<close>
theorem started_platform_runs_dpc:
  fixes os s d r x a b p
  defines "c \<equiv> (group_size os, group_count os, processor_count os)" and "n \<equiv> unat (processor_count os)"
  assumes off: "platform_off s" "priority_restored (stop os)" "priority_restored sd"
    and start: "usersim_platform_initiate os s = Inr (Returns (STATUS_SUCCESS, s1))"
    and machine: "config_ok c" "processor_exists c p"
    and addresses: "dpc_nodes os = nodes" "distinct (map (fst \<circ> nodes) [0..<n] @ map (snd \<circ> nodes) [0..<n])"
      "\<forall>i < n. d \<noteq> fst (nodes i) \<and> d \<noteq> snd (nodes i)"
  shows "usersim_get_cpu_count s1 = processor_count os \<and>
         (\<exists>i t1 t2 t3 s2. KeGetProcessorIndexFromNumber (group_index_map s1) p = Inr i \<and>
            KeSetTargetProcessorDpcEx (group_index_map s1) d p (KeInitializeDpc d r x (dpcs (timers s1))) = Inr (STATUS_SUCCESS, t1) \<and>
            KeInsertQueueDpc d a b t1 = Inr (True, t2) \<and>
            KeFlushQueuedDpcs 2 t2 =
              Some (concat (map (\<lambda>j. (if j = unat i then [Ran d r x a b] else []) @ [Flushed]) [0..<n]), t3) \<and>
            usersim_platform_terminate sd (s1\<lparr>timers := (timers s1)\<lparr>dpcs := t3\<rparr>\<rparr>) = Inr (Returns s2) \<and> platform_off s2)"
proof -
  have up: "platform_up s1" "platform_tables os s s1"
    by (rule initiate_cases [OF off(1,2)]; use start in auto)+
  let ?q = "usersim_initialize_dpcs (map nodes [0..<n]) (dpcs (timers s))"
  have T: "usersim_get_cpu_count s1 = processor_count os" "group_index_map s1 = config_map c" "dpcs (timers s1) = ?q"
    using up(2) addresses(1) by (auto simp: platform_tables_def config_map_def c_def n_def)
  have "emulated_dpcs (dpcs (timers s)) = []" using off(1) by (simp add: platform_off_def platform_down_def)
  note Q = started_queues [OF this addresses(2)]
  obtain i where i: "KeGetProcessorIndexFromNumber (config_map c) p = Inr i" "i < config_count c"
    using ke_numbering.index_number [OF machine] by blast
  have "unat i < length (emulated_dpcs ?q)" using i(2) Q(2) by (simp add: config_count_def c_def n_def word_less_nat_alt)
  moreover have "d \<notin> set (cpu_nodes ?q)" unfolding Q(3) using addresses(3) by auto
  ultimately obtain t1 t2 t3 where run: "KeSetTargetProcessorDpcEx (config_map c) d p (KeInitializeDpc d r x ?q) = Inr (STATUS_SUCCESS, t1)"
    "KeInsertQueueDpc d a b t1 = Inr (True, t2)"
    "KeFlushQueuedDpcs 2 t2 = Some (concat (map (\<lambda>j. (if j = unat i then [Ran d r x a b] else []) @ [Flushed]) [0..<n]), t3)"
    using idle_queues_run_dpc [OF Q(1) _ Q(4) i(1), of d r x a b] Q(2) by auto
  obtain s2 where "usersim_platform_terminate sd (s1\<lparr>timers := (timers s1)\<lparr>dpcs := t3\<rparr>\<rparr>) = Inr (Returns s2)" "platform_off s2"
    using terminate_down [of "s1\<lparr>timers := (timers s1)\<lparr>dpcs := t3\<rparr>\<rparr>" sd] up(1) off(3)
    by (auto simp: platform_up_def platform_off_def)
  then show ?thesis using T i(1) run by metis
qed

theorem started_platform_runs_dpc_witness:
  "\<exists>s1 t1 t2 t3 s2. usersim_platform_initiate (Platform.sample_os True) sample_platform = Inr (Returns (STATUS_SUCCESS, s1)) \<and>
     KeSetTargetProcessorDpcEx (group_index_map s1) 256 \<lparr>pn_Group = 0, pn_Number = 1\<rparr>
       (KeInitializeDpc 256 9 7 (dpcs (timers s1))) = Inr (STATUS_SUCCESS, t1) \<and>
     KeInsertQueueDpc 256 3 4 t1 = Inr (True, t2) \<and> KeFlushQueuedDpcs 2 t2 = Some ([Flushed, Ran 256 9 7 3 4, Flushed], t3) \<and>
     usersim_platform_terminate sample_stop (s1\<lparr>timers := (timers s1)\<lparr>dpcs := t3\<rparr>\<rparr>) = Inr (Returns s2) \<and> platform_off s2"
proof -
  let ?os = "Platform.sample_os True" and ?p = "\<lparr>pn_Group = 0, pn_Number = 1\<rparr> :: processor_number"
  obtain s1 where s1: "usersim_platform_initiate ?os sample_platform = Inr (Returns (STATUS_SUCCESS, s1))" using sample_initiate by blast
  have os: "group_size ?os = (\<lambda>_. 2)" "group_count ?os = 1" "processor_count ?os = 2" "priority_restored (stop ?os)" "priority_restored sample_stop"
    "dpc_nodes ?os = (\<lambda>i. (0x10 + 0x20 * of_nat i, 0x20 + 0x20 * of_nat i))"
    by (simp_all add: Platform.sample_os_def sample_stop_def)
  have c: "config_ok (\<lambda>_. 2, 1, 2)" "processor_exists (\<lambda>_. 2, 1, 2) ?p"
    by (simp_all add: config_ok_def processor_counts_ok_def processor_exists_def)
  have two: "[0..<2] = [0, Suc 0]" "(\<forall>i < 2. P i) \<longleftrightarrow> P 0 \<and> P (Suc 0)" for P by (auto simp: upt_rec less_2_cases_iff)
  from started_platform_runs_dpc [OF sample_platform_off os(4,5) s1 _ _ os(6), of ?p 256 9 7 3 4, unfolded os(1-3), OF c]
  obtain i t1 t2 t3 s2 where R: "KeGetProcessorIndexFromNumber (group_index_map s1) ?p = Inr i"
    "KeSetTargetProcessorDpcEx (group_index_map s1) 256 ?p (KeInitializeDpc 256 9 7 (dpcs (timers s1))) = Inr (STATUS_SUCCESS, t1)"
    "KeInsertQueueDpc 256 3 4 t1 = Inr (True, t2)"
    "KeFlushQueuedDpcs 2 t2 = Some (concat (map (\<lambda>j. (if j = unat i then [Ran 256 9 7 3 4] else []) @ [Flushed]) [0..<2]), t3)"
    "usersim_platform_terminate sample_stop (s1\<lparr>timers := (timers s1)\<lparr>dpcs := t3\<rparr>\<rparr>) = Inr (Returns s2)" "platform_off s2"
    by (auto simp: two)
  have "platform_tables ?os sample_platform s1" by (rule initiate_cases [OF sample_platform_off os(4)]; use s1 in auto)
  then have "group_index_map s1 = [0]" using os by (simp add: platform_tables_def group_to_index_map_def)
  then have "i = 1" using R(1) by (simp add: KeGetProcessorIndexFromNumber_def)
  then show ?thesis using s1 R by (auto simp: two)
qed

text \<open>A started library with any number of work items outstanding.\<close>

definition platform_running :: "platform \<Rightarrow> bool" where
  "platform_running s \<longleftrightarrow> initiate_count s = 1 \<and> cxplat_initialized s \<and> initialization_count (cxplat s) = 1 \<and> leak_free (cxplat s) \<and>
     primary_token_ref_count (ps s) = 0 \<and> length (wdf_functions s) = WdfFunctionTableNumEntries \<and> work_inv (pool (cxplat s))"

lemma terminate_running:
  assumes "platform_running s" "priority_restored sd"
  shows "if submitted (pool (cxplat s)) = []
         then \<exists>s'. usersim_platform_terminate sd s = Inr (Returns s') \<and> platform_off s'
         else usersim_platform_terminate sd s = Inr Blocks"
proof -
  have wi: "work_inv (pool (cxplat s))" using assms(1) by (simp add: platform_running_def)
  obtain w where w: "cxplat_wait_for_preemptible_work_items_complete (pool (cxplat s)) = Inr w" "work_inv w" "submitted w = submitted (pool (cxplat s))"
    using wait_begin_inv [OF wi] by blast
  show ?thesis
  proof (cases "submitted (pool (cxplat s)) = []")
    case True
    then have "no_work (pool (cxplat s))" using wi by (auto simp: no_work_def work_inv_def rundown_ready_def rundown_held_def unat_eq_0)
    with terminate_down [of s sd] assms True show ?thesis by (auto simp: platform_running_def platform_off_def)
  next
    case False
    then have "\<not> work_items_complete w" using complete_iff [OF w(2)] w(3) by simp
    with w(1) False show ?thesis by (simp add: usersim_platform_terminate_def)
  qed
qed

text \<open>
  C13: the shutdown waits for the work items of drivers. Take a running library, and drivers whose I/O work items are queued on its
  thread pool. The shutdown first closes the pool for new items, so that queueing one fails its assertion, and does not return while an
  item is outstanding. It does return once the pool has made one callback for each: these call the routines of the queued items, in the order
  of queueing and each with its device object and context; then the library is off.
\<close>
theorem shutdown_waits_for_io_work:
  assumes "platform_running s" "priority_restored sd" "io_inv wrapper st" "io_pool st = pool (cxplat s)" "submitted (io_pool st) \<noteq> []"
  shows "usersim_platform_terminate sd s = Inr Blocks \<and>
         (\<exists>w st2 s2. cxplat_wait_for_preemptible_work_items_complete (pool (cxplat s)) = Inr w \<and>
            (\<forall>item. cxplat_queue_preemptible_work_item item w = Inl Assert_Failed) \<and>
            io_callbacks (length (submitted (io_pool st))) wrapper (st\<lparr>io_pool := w\<rparr>) = Inr st2 \<and>
            io_calls st2 = io_calls st @ concat (map (io_call wrapper st) (submitted (io_pool st))) \<and>
            usersim_platform_terminate sd (s\<lparr>cxplat := (cxplat s)\<lparr>pool := io_pool st2\<rparr>\<rparr>) = Inr (Returns s2) \<and> platform_off s2)"
proof -
  have wi: "work_inv (pool (cxplat s))" using assms(1) by (simp add: platform_running_def)
  obtain w where w: "cxplat_wait_for_preemptible_work_items_complete (pool (cxplat s)) = Inr w" "work_inv w"
    "rundown_down (rundown_reference w) (rundown w)" "submitted w = submitted (io_pool st)" "items w = items (io_pool st)"
    using wait_begin_inv [OF wi] assms(4) by auto
  have "rundown_ready (rundown_reference w) (rundown w)" using w(2) by (simp add: work_inv_def)
  from table_rundown.acquire_down [OF this w(3)] have closed: "cxplat_queue_preemptible_work_item item w = Inl Assert_Failed" for item
    by (simp add: cxplat_queue_preemptible_work_item_def)
  have "io_inv wrapper (st\<lparr>io_pool := w\<rparr>)" using assms(3) w by (simp add: io_inv_def)
  from io_callbacks_all [OF this] w(4) obtain st2 where st2: "io_callbacks (length (submitted (io_pool st))) wrapper (st\<lparr>io_pool := w\<rparr>) = Inr st2"
    "io_inv wrapper st2" "submitted (io_pool st2) = []"
    "io_calls st2 = io_calls st @ concat (map (io_call wrapper (st\<lparr>io_pool := w\<rparr>)) (submitted (io_pool st)))" by auto
  have "io_call wrapper (st\<lparr>io_pool := w\<rparr>) = io_call wrapper st" using w(5) by (intro ext) (simp add: io_call_def split: option.split)
  note st2 = st2 [unfolded this]
  have "platform_running (s\<lparr>cxplat := (cxplat s)\<lparr>pool := io_pool st2\<rparr>\<rparr>)"
    using assms(1) st2(2) by (simp add: platform_running_def io_inv_def leak_free_def)
  from terminate_running [OF this assms(2)] st2(3) obtain s2 where
    "usersim_platform_terminate sd (s\<lparr>cxplat := (cxplat s)\<lparr>pool := io_pool st2\<rparr>\<rparr>) = Inr (Returns s2)" "platform_off s2" by auto
  moreover have "usersim_platform_terminate sd s = Inr Blocks" using terminate_running [OF assms(1,2)] assms(4,5) by simp
  ultimately show ?thesis using w(1) closed st2(1,4) by blast
qed

theorem shutdown_waits_for_io_work_witness:
  "\<exists>s st w st2 s2. submitted (io_pool st) = [64] \<and> io_pool st = pool (cxplat s) \<and> usersim_platform_terminate sample_stop s = Inr Blocks \<and>
     io_callbacks 1 9 (st\<lparr>io_pool := w\<rparr>) = Inr st2 \<and> io_calls st2 = [(5, 7, 6)] \<and>
     usersim_platform_terminate sample_stop (s\<lparr>cxplat := (cxplat s)\<lparr>pool := io_pool st2\<rparr>\<rparr>) = Inr (Returns s2) \<and> platform_off s2"
proof -
  let ?a = "(False, 4096 :: ptr, None :: backtrace, 32 :: u64)" and ?T = USERSIM_TAG_IO_WORK_ITEM
  let ?q = "(pool sample_runtime)\<lparr>pool_open := True, rundown := [0x70 \<mapsto> (False, 1)], items := [64 \<mapsto> \<lparr>work_item_routine = 9, work_item_context = 4112\<rparr>],
    submitted := [64]\<rparr>"
  let ?s = "sample_platform\<lparr>initiate_count := 1, cxplat_initialized := True, cxplat := sample_runtime\<lparr>initialization_count := 1, pool := ?q\<rparr>\<rparr>"
  obtain h where h: "cx_alloc ?T ?a sample_heap = Inr (4112, h)"
    by (simp add: cx_alloc_def cxplat_allocate_def sample_heap_def has_flag_def Let_def unaligned_pointer_from_memory_block_def)
  have "cx_fresh ?a sample_heap" by (simp add: cx_fresh_def sample_heap_def)
  from cx.alloc_ok [OF h _ this] have own: "cx_owned ?T h 4112" by simp
  let ?st = "\<lparr>io_heap = h, io_pool = ?q, io_items = [4112 \<mapsto> \<lparr>device_object = 7, cxplat_work_item = 64, io_routine = 5, io_context = 6\<rparr>], io_calls = []\<rparr>"
  have q: "work_inv ?q" by (simp add: work_inv_def sample_runtime_def rundown_ready_def rundown_held_def)
  have run: "platform_running ?s" using q by (simp add: platform_running_def sample_platform_def leak_free_def sample_runtime_def)
  have "io_inv 9 ?st" using q own by (simp add: io_inv_def)
  moreover have "priority_restored sample_stop" by (simp add: sample_stop_def)
  ultimately have R: "usersim_platform_terminate sample_stop ?s = Inr Blocks \<and>
         (\<exists>w st2 s2. cxplat_wait_for_preemptible_work_items_complete (pool (cxplat ?s)) = Inr w \<and>
            (\<forall>item. cxplat_queue_preemptible_work_item item w = Inl Assert_Failed) \<and>
            io_callbacks (length (submitted (io_pool ?st))) 9 (?st\<lparr>io_pool := w\<rparr>) = Inr st2 \<and>
            io_calls st2 = io_calls ?st @ concat (map (io_call 9 ?st) (submitted (io_pool ?st))) \<and>
            usersim_platform_terminate sample_stop (?s\<lparr>cxplat := (cxplat ?s)\<lparr>pool := io_pool st2\<rparr>\<rparr>) = Inr (Returns s2) \<and> platform_off s2)"
    by (intro shutdown_waits_for_io_work [OF run]) simp_all
  have e: "length (submitted (io_pool ?st)) = 1" "io_calls ?st @ concat (map (io_call 9 ?st) (submitted (io_pool ?st))) = [(5, 7, 6)]"
    by (simp_all add: io_call_def)
  show ?thesis using R unfolding e by (intro exI [of _ ?s] exI [of _ ?st]) auto
qed

text \<open>
  C3: a timer delivers its DPC to the processor the DPC was targeted at. Take an existing processor, a DPC that is in no queue and
  is targeted at it with \<^verbatim>\<open>KeSetTargetProcessorDpcEx\<close>, and a timer set with that DPC, on a system with one worker per
  processor and no flush in progress. When the timer fires, once or twice before the workers run, the timer is signaled and
  \<^verbatim>\<open>KeFlushQueuedDpcs\<close> returns after the workers ran what was queued before and, on the worker of that processor and after
  the DPCs that were queued there, the DPC of the timer, once, with its context and parameters.
\<close>
theorem timer_dpc_delivered:
  fixes c p D q s d fuel
  defines "n \<equiv> length (emulated_dpcs (dpcs s))"
  assumes cfg: "config_ok c" "processor_exists c p" "n = unat (config_count c)"
    and rel: "dpc_rel D q (dpcs s)" "d \<in> D" "d \<noteq> nullptr" "\<forall>j < n. d \<notin> set (q j)"
    and idle: "\<forall>j < n. \<not> terminate (emulated_dpcs (dpcs s) ! j) \<and> flush_entry (emulated_dpcs (dpcs s) ! j) \<notin> set (q j) \<and>
                 length (q j) + 1 < fuel"
    and target: "KeSetTargetProcessorDpcEx (config_map c) d p (dpcs s) = Inr (status, ds)"
    and set: "KeSetCoalescableTimer h t due period delay d (s\<lparr>dpcs := ds\<rparr>) = Inr (r, s1)" "t \<noteq> nullptr"
  shows "\<exists>i s2 s3 s4. KeGetProcessorIndexFromNumber (config_map c) p = Inr i \<and>
           usersim_timer_callback t s1 = Inr s2 \<and> KeReadStateTimer t s2 = Inr True \<and>
           usersim_timer_callback t s2 = Inr s3 \<and> dpcs s3 = dpcs s2 \<and>
           KeFlushQueuedDpcs fuel (dpcs s2) =
             Some (concat (map (\<lambda>j. map (Dpc_Queue.run_event (dpcs s)) (if j = unat i then q j @ [d] else q j) @ [Flushed]) [0..<n]), s4)"
proof -
  obtain i where i: "KeGetProcessorIndexFromNumber (config_map c) p = Inr i" "i < config_count c"
    using ke_numbering.index_number [OF cfg(1,2)] by blast
  have lt: "unat i < n" using i(2) cfg(3) by (simp add: word_less_nat_alt)
  have ds: "ds = (dpcs s)\<lparr>kdpcs := (kdpcs (dpcs s))(d := (kdpcs (dpcs s) d)\<lparr>cpu_id := i\<rparr>)\<rparr>"
    using target i(1) by (simp add: KeSetTargetProcessorDpcEx_def)
  obtain t1 where t1: "ktimer_at t s1 = Inr t1" "t_dpc t1 = d" "dpcs s1 = ds"
    using set(1) by (auto simp: KeSetCoalescableTimer_def ktimer_at_def split: if_splits option.splits)
  have r1: "dpc_rel D q (dpcs s1)" unfolding t1(3) ds by (rule dpc_rel_kdpcs [OF rel(1)])
  have cpu: "unat i = unat (cpu_id (kdpcs (dpcs s1) d))" "emulated_dpcs (dpcs s1) = emulated_dpcs (dpcs s)"
    using t1(3) ds by simp_all
  let ?q = "q(unat i := q (unat i) @ [d])"
  obtain s2 where s2: "usersim_timer_callback t s1 = Inr s2" "dpc_rel D ?q (dpcs s2)" "same_cpus (dpcs s1) (dpcs s2)"
    "kdpcs (dpcs s2) = kdpcs (dpcs s1)" "ktimer_at t s2 = Inr (t1\<lparr>t_signaled := True\<rparr>)"
    using timer_fire_queues [OF r1 t1(1) set(2) t1(2) rel(3,2) cpu(1)] lt rel(4) cpu(2) unfolding n_def by auto
  have len: "emulated_dpcs (dpcs s2) = emulated_dpcs (dpcs s)" using s2(3) cpu(2) by simp
  obtain s3 where s3: "usersim_timer_callback t s2 = Inr s3" "dpcs s3 = dpcs s2"
    using timer_fire_queued [OF s2(2,5) set(2) _ rel(3,2), of "unat i"] t1(2) s2(4) cpu(1) len lt unfolding n_def by auto
  have fe: "flush_entry (emulated_dpcs (dpcs s) ! j) \<noteq> d" if "j < n" for j
    using dpc_relD(5) [OF rel(1), of j] rel(2) that unfolding n_def by auto
  have ready: "\<not> terminate (emulated_dpcs (dpcs s2) ! j) \<and> flush_entry (emulated_dpcs (dpcs s2) ! j) \<notin> set (?q j) \<and>
      length (?q j) < fuel" if "j < length (emulated_dpcs (dpcs s2))" for j
    using idle [rule_format, of j] fe [of j] that unfolding len n_def by (cases "j = unat i") auto
  obtain s4 where s4: "KeFlushQueuedDpcs fuel (dpcs s2) =
      Some (concat (map (\<lambda>j. map (Dpc_Queue.run_event (dpcs s2)) (?q j) @ [Flushed]) [0..<n]), s4)"
    using flush_all_queues [OF s2(2) ready] unfolding len n_def by blast
  have ev: "Dpc_Queue.run_event (dpcs s2) = Dpc_Queue.run_event (dpcs s)" using s2(4) t1(3) ds by (auto simp: Dpc_Queue.run_event_def fun_eq_iff)
  have q: "?q j = (if j = unat i then q j @ [d] else q j)" for j by simp
  have "KeReadStateTimer t s2 = Inr True" using s2(5) by (simp add: KeReadStateTimer_def)
  then show ?thesis using i(1) s2(1) s3 s4 unfolding ev q by blast
qed

theorem timer_dpc_delivered_witness:
  "\<exists>ds s1 s2 s4. KeSetTargetProcessorDpcEx (config_map one_processor) 256 cpu0 sample_dpcs = Inr (STATUS_SUCCESS, ds) \<and>
     KeSetCoalescableTimer 0x900 0x500 (- 100) 0 0 256 (sample_timers\<lparr>dpcs := ds\<rparr>) = Inr (False, s1) \<and>
     usersim_timer_callback 0x500 s1 = Inr s2 \<and> KeFlushQueuedDpcs 2 (dpcs s2) = Some ([Ran 256 9 7 0 0, Flushed], s4)"
proof -
  let ?k = "(kdpcs sample_dpcs 256)\<lparr>cpu_id := 0\<rparr>"
  let ?ds = "sample_dpcs\<lparr>kdpcs := (kdpcs sample_dpcs)(256 := ?k)\<rparr>"
  have cpus: "length (emulated_dpcs (dpcs sample_timers)) = 1" "emulated_dpcs sample_dpcs = [\<lparr>head = 16, flush_entry = 32, terminate = False\<rparr>]"
    "dpcs sample_timers = sample_dpcs"
    by (simp_all add: sample_timers_def KeInitializeTimer_def sample_eval)
  have idx: "KeGetProcessorIndexFromNumber (config_map one_processor) cpu0 = Inr 0"
    by (simp add: one_processor_map KeGetProcessorIndexFromNumber_def cpu0_def)
  have target: "KeSetTargetProcessorDpcEx (config_map one_processor) 256 cpu0 (dpcs sample_timers) = Inr (STATUS_SUCCESS, ?ds)"
    by (simp add: KeSetTargetProcessorDpcEx_def idx cpus(3))
  obtain s1 where set: "KeSetCoalescableTimer 0x900 0x500 (- 100) 0 0 256 (sample_timers\<lparr>dpcs := ?ds\<rparr>) = Inr (False, s1)"
    by (simp add: KeSetCoalescableTimer_def ktimer_at_def sample_timers_def KeInitializeTimer_def)
  have ev: "Dpc_Queue.run_event sample_dpcs 256 = Ran 256 9 7 0 0" by (simp add: Dpc_Queue.run_event_def sample_eval)
  obtain s2 s4 where "usersim_timer_callback 0x500 s1 = Inr s2" "KeFlushQueuedDpcs 2 (dpcs s2) = Some ([Ran 256 9 7 0 0, Flushed], s4)"
    using timer_dpc_delivered [OF one_processor_ok _ _ _ _ _ _ _ target set, of "{256}" "\<lambda>_. []" 2] sample_rel cpus idx ev
    by (auto simp: processor_exists_def one_processor_def cpu0_def config_count_def)
  then show ?thesis using target set cpus(3) by auto
qed

end
